(* ===== verification/Bmt_Prelude.thy ===== *)
theory Bmt_Prelude
  imports "HOL-Library.Word" "HOL-Library.Monad_Syntax"
begin

text \<open>
  Shared vocabulary of the development: the types of C integers, the outcome of a
  computation that may be undefined, a small total-correctness calculus for it, bounds-checked
  arrays and buffers, and the little-endian layout of integers in memory and on flash.

  Every operation of the model that indexes an array, or that loops on a condition the
  code does not bound, returns an \<open>option\<close>: \<open>None\<close> stands for an access outside the
  array (undefined behaviour in C) or for a loop that does not end, \<open>Some\<close> for the value and
  the new state. A theorem that an operation runs (\<open>runs\<close> below) therefore states memory
  safety and termination together with its postcondition.
\<close>

unbundle bit_operations_syntax

section \<open>C integers\<close>

text \<open>
  Block addresses, sizes and counts are naturals; where the C arithmetic can leave the range
  of its type the wrap-around is written out with the functions below. Fields that are stored
  on flash, bit tables and wrapping counters are words.
\<close>

type_synonym byte = "8 word"
type_synonym u32 = "32 word"
type_synonym u64 = "64 word"

definition u16 :: "int \<Rightarrow> nat" where
  "u16 x = nat (x mod 2 ^ 16)"

definition u32_of :: "int \<Rightarrow> nat" where
  "u32_of x = nat (x mod 2 ^ 32)"

definition s32 :: "int \<Rightarrow> int" where
  "s32 x = (x + 2 ^ 31) mod 2 ^ 32 - 2 ^ 31"

definition sub32 :: "nat \<Rightarrow> nat \<Rightarrow> nat" where
  "sub32 a b = u32_of (int a - int b)"

definition add32 :: "nat \<Rightarrow> nat \<Rightarrow> nat" where
  "add32 a b = u32_of (int a + int b)"

lemma u16_id [simp]: "0 \<le> x \<Longrightarrow> x < 65536 \<Longrightarrow> u16 x = nat x"
  by (simp add: u16_def)

lemma u16_bound: "u16 x < 65536"
  by (simp add: u16_def nat_less_iff)

lemma u32_of_id [simp]: "0 \<le> x \<Longrightarrow> x < 4294967296 \<Longrightarrow> u32_of x = nat x"
  by (simp add: u32_of_def)

lemma u32_of_bound: "u32_of x < 4294967296"
  by (simp add: u32_of_def nat_less_iff)

lemma s32_id [simp]: "- 2147483648 \<le> x \<Longrightarrow> x < 2147483648 \<Longrightarrow> s32 x = x"
  by (simp add: s32_def)

lemma sub32_eq [simp]: "b \<le> a \<Longrightarrow> a < 4294967296 \<Longrightarrow> sub32 a b = a - b"
  by (simp add: sub32_def u32_of_def of_nat_diff [symmetric] nat_mod_distrib del: of_nat_diff)

lemma add32_eq [simp]: "a + b < 4294967296 \<Longrightarrow> add32 a b = a + b"
  by (simp add: add32_def u32_of_def nat_add_distrib)

lemma sub32_bound: "sub32 a b < 4294967296"
  by (simp add: sub32_def u32_of_bound)

text \<open>The kernel's \<open>ALIGN(x, a)\<close>, that is \<open>(x + a - 1) & ~(a - 1)\<close>.\<close>

definition ALIGN :: "nat \<Rightarrow> nat \<Rightarrow> nat" where
  "ALIGN x a = (let y = x + (a - 1) in y - (y AND (a - 1)))"

lemma nat_and_mask: "(x :: nat) AND (2 ^ k - 1) = x mod 2 ^ k"
  by (metis mask_eq_exp_minus_1 take_bit_eq_mask take_bit_eq_mod)

lemma ALIGN_power2:
  assumes "a = 2 ^ k"
  shows "x \<le> ALIGN x a" "ALIGN x a < x + a" "ALIGN x a mod a = 0"
proof -
  have a: "0 < a" using assms by simp
  have eq: "ALIGN x a = (x + (a - 1)) div a * a"
    by (simp only: ALIGN_def Let_def assms nat_and_mask minus_mod_eq_div_mult)
  define m where "m = (x + (a - 1)) mod a"
  have m: "m < a" using a by (simp add: m_def)
  have "(x + (a - 1)) div a * a + m = x + (a - 1)"
    by (simp add: m_def)
  then show "x \<le> ALIGN x a" "ALIGN x a < x + a" using m a unfolding eq by linarith+
  show "ALIGN x a mod a = 0" by (simp add: eq)
qed

text \<open>The kernel's \<open>round_up(x, y)\<close>, that is \<open>((x - 1) | (y - 1)) + 1\<close>, and \<open>ffs\<close>.\<close>

definition round_up :: "nat \<Rightarrow> nat \<Rightarrow> nat" where
  "round_up x y = nat (((int x - 1) OR (int y - 1)) + 1)"

fun ffs :: "nat \<Rightarrow> nat" where
  "ffs x = (if x = 0 then 0 else if odd x then 1 else 1 + ffs (x div 2))"

declare ffs.simps [simp del]

lemma ffs_power2: "ffs (2 ^ k) = k + 1"
  by (induction k) (subst ffs.simps, simp)+

lemma round_up_eq:
  assumes "y = 2 ^ k"
  shows "int (round_up x y) = (int x - 1) div 2 ^ k * 2 ^ k + 2 ^ k"
proof -
  let ?z = "int x - 1"
  have y: "int y - 1 = mask k" by (simp add: assms mask_eq_exp_minus_1)
  have s: "?z div 2 ^ k * 2 ^ k = push_bit k (drop_bit k ?z)"
    by (simp add: push_bit_eq_mult drop_bit_eq_div)
  have d: "?z OR mask k = push_bit k (drop_bit k ?z) OR mask k"
    by (rule bit_eqI) (auto simp: bit_simps)
  have "push_bit k (drop_bit k ?z) OR mask k = push_bit k (drop_bit k ?z) + mask k"
    by (rule disjunctive_add [symmetric]) (auto simp: bit_simps)
  with d have "?z OR mask k = ?z div 2 ^ k * 2 ^ k + (2 ^ k - 1)"
    by (simp add: s mask_eq_exp_minus_1)
  moreover have "- 1 \<le> ?z div 2 ^ k"
    using zdiv_mono1 [of "- 1" ?z "2 ^ k"] by (simp add: div_eq_minus1)
  then have "- 1 * 2 ^ k \<le> ?z div 2 ^ k * 2 ^ k" by (intro mult_right_mono) simp_all
  ultimately show ?thesis by (simp add: round_up_def y)
qed

lemma round_up_power2:
  assumes "y = 2 ^ k"
  shows "x \<le> round_up x y" "round_up x y < x + y" "round_up x y mod y = 0"
proof -
  let ?z = "int x - 1"
  have e: "?z div 2 ^ k * 2 ^ k = ?z - ?z mod 2 ^ k" by (simp add: minus_mod_eq_div_mult)
  have m: "0 \<le> ?z mod 2 ^ k" "?z mod 2 ^ k < int y" using assms by simp_all
  have "int (round_up x y) = ?z - ?z mod 2 ^ k + int y"
    using round_up_eq [OF assms, of x] assms unfolding e by simp
  with m have "int x \<le> int (round_up x y)" "int (round_up x y) < int x + int y" by linarith+
  then show "x \<le> round_up x y" "round_up x y < x + y" by simp_all
  have "int (round_up x y) = ((?z div 2 ^ k) + 1) * int y"
    using round_up_eq [OF assms, of x] assms by (simp add: algebra_simps)
  then have "int (round_up x y) mod int y = 0" by simp
  then show "round_up x y mod y = 0" by (simp only: zmod_int [symmetric])
qed

lemma nat_and_le: "(x :: nat) AND m \<le> m"
proof -
  have "int (x AND m) \<le> int m" by (simp add: of_nat_and_eq AND_upper2)
  then show ?thesis by simp
qed

section \<open>Error numbers\<close>

text \<open>The negated kernel error codes the code returns or compares with.\<close>

abbreviation (input) EIO :: int where "EIO \<equiv> 5"
abbreviation (input) ENOMEM :: int where "ENOMEM \<equiv> 12"
abbreviation (input) ENODEV :: int where "ENODEV \<equiv> 19"
abbreviation (input) EINVAL :: int where "EINVAL \<equiv> 22"
abbreviation (input) ENOSPC :: int where "ENOSPC \<equiv> 28"
abbreviation (input) EBADMSG :: int where "EBADMSG \<equiv> 74"
abbreviation (input) EUCLEAN :: int where "EUCLEAN \<equiv> 117"

section \<open>Outcomes\<close>

text \<open>
  \<open>runs m Q\<close>: the computation \<open>m\<close> has a defined result and the result satisfies \<open>Q\<close>.
  \<open>safely m Q\<close>: if it has one, it satisfies \<open>Q\<close>. The simplification rules push both through
  the constructs the model is written with, as a verification condition generator would.
\<close>

definition runs :: "'a option \<Rightarrow> ('a \<Rightarrow> bool) \<Rightarrow> bool" where
  "runs m Q \<longleftrightarrow> (\<exists>x. m = Some x \<and> Q x)"

definition safely :: "'a option \<Rightarrow> ('a \<Rightarrow> bool) \<Rightarrow> bool" where
  "safely m Q \<longleftrightarrow> (\<forall>x. m = Some x \<longrightarrow> Q x)"

named_theorems vcg \<open>rules that decompose runs and safely\<close>

lemma runs_Some [simp, vcg]: "runs (Some x) Q = Q x"
  by (simp add: runs_def)

lemma runs_None [simp, vcg]: "runs None Q = False"
  by (simp add: runs_def)

lemma runs_bind [vcg]: "runs (Option.bind m f) Q = runs m (\<lambda>x. runs (f x) Q)"
  by (cases m) (auto simp: runs_def)

lemma runs_if [vcg]: "runs (if b then m else n) Q \<longleftrightarrow> (b \<longrightarrow> runs m Q) \<and> (\<not> b \<longrightarrow> runs n Q)"
  by simp

lemma runs_case_prod [vcg]:
  "runs (case p of (a, b) \<Rightarrow> f a b) Q = (case p of (a, b) \<Rightarrow> runs (f a b) Q)"
  by (simp add: case_prod_beta)

lemma runs_Let [vcg]: "runs (let x = t in f x) Q = (let x = t in runs (f x) Q)"
  by simp

lemma runs_mono: "runs m P \<Longrightarrow> (\<And>x. P x \<Longrightarrow> Q x) \<Longrightarrow> runs m Q"
  by (auto simp: runs_def)

lemma runs_conj: "runs m P \<Longrightarrow> runs m Q \<Longrightarrow> runs m (\<lambda>x. P x \<and> Q x)"
  by (auto simp: runs_def)

lemma runs_bindI:
  "runs m P \<Longrightarrow> (\<And>x. P x \<Longrightarrow> runs (f x) Q) \<Longrightarrow> runs (Option.bind m f) Q"
  by (auto simp: runs_def)

lemma runs_bind_pairI:
  "runs m (\<lambda>(a, b). P a b) \<Longrightarrow> (\<And>a b. P a b \<Longrightarrow> runs (f a b) Q) \<Longrightarrow>
     runs (Option.bind m (\<lambda>(a, b). f a b)) Q"
  by (auto simp: runs_def)

lemma runs_total: "runs m Q \<Longrightarrow> \<exists>x. m = Some x \<and> Q x"
  by (simp add: runs_def)

lemma safely_Some [simp, vcg]: "safely (Some x) Q = Q x"
  by (simp add: safely_def)

lemma safely_None [simp, vcg]: "safely None Q"
  by (simp add: safely_def)

lemma safely_bind [vcg]: "safely (Option.bind m f) Q = safely m (\<lambda>x. safely (f x) Q)"
  by (cases m) (auto simp: safely_def)

lemma safely_if [vcg]:
  "safely (if b then m else n) Q \<longleftrightarrow> (b \<longrightarrow> safely m Q) \<and> (\<not> b \<longrightarrow> safely n Q)"
  by simp

lemma safely_case_prod [vcg]:
  "safely (case p of (a, b) \<Rightarrow> f a b) Q = (case p of (a, b) \<Rightarrow> safely (f a b) Q)"
  by (simp add: case_prod_beta)

lemma safely_Let [vcg]: "safely (let x = t in f x) Q = (let x = t in safely (f x) Q)"
  by simp

lemma safely_mono: "safely m P \<Longrightarrow> (\<And>x. P x \<Longrightarrow> Q x) \<Longrightarrow> safely m Q"
  by (auto simp: safely_def)

lemma safelyD: "safely m Q \<Longrightarrow> m = Some x \<Longrightarrow> Q x"
  by (simp add: safely_def)

lemma runs_safely: "runs m Q \<Longrightarrow> safely m Q"
  by (auto simp: runs_def safely_def)

lemma runs_safely_conj: "runs m P \<Longrightarrow> safely m Q \<Longrightarrow> runs m (\<lambda>x. P x \<and> Q x)"
  by (auto simp: runs_def safely_def)

section \<open>Arrays and buffers\<close>

definition aget :: "'a list \<Rightarrow> nat \<Rightarrow> 'a option" where
  "aget xs i = (if i < length xs then Some (xs ! i) else None)"

definition aset :: "'a list \<Rightarrow> nat \<Rightarrow> 'a \<Rightarrow> 'a list option" where
  "aset xs i v = (if i < length xs then Some (xs[i := v]) else None)"

lemma runs_aget [simp, vcg]: "runs (aget xs i) Q \<longleftrightarrow> i < length xs \<and> Q (xs ! i)"
  by (simp add: aget_def)

lemma runs_aset [simp, vcg]: "runs (aset xs i v) Q \<longleftrightarrow> i < length xs \<and> Q (xs[i := v])"
  by (simp add: aset_def)

lemma safely_aget [simp, vcg]: "safely (aget xs i) Q \<longleftrightarrow> (i < length xs \<longrightarrow> Q (xs ! i))"
  by (simp add: aget_def)

lemma safely_aset [simp, vcg]: "safely (aset xs i v) Q \<longleftrightarrow> (i < length xs \<longrightarrow> Q (xs[i := v]))"
  by (simp add: aset_def)

text \<open>
  \<open>overlay\<close> is what a driver does to the front of a buffer it was given for \<open>n\<close> bytes;
  \<open>memput\<close> and \<open>memget\<close> are \<open>memcpy\<close> into and out of a buffer at an offset.
\<close>

definition overlay :: "nat \<Rightarrow> byte list \<Rightarrow> byte list \<Rightarrow> byte list" where
  "overlay n new buf =
     (let m = min n (length buf); d = take m new in d @ drop (length d) buf)"

definition memput :: "byte list \<Rightarrow> nat \<Rightarrow> byte list \<Rightarrow> byte list option" where
  "memput buf off new =
     (if off + length new \<le> length buf
      then Some (take off buf @ new @ drop (off + length new) buf) else None)"

definition memget :: "byte list \<Rightarrow> nat \<Rightarrow> nat \<Rightarrow> byte list option" where
  "memget buf off n =
     (if off + n \<le> length buf then Some (take n (drop off buf)) else None)"

lemma length_overlay [simp]: "length (overlay n new buf) = length buf"
  by (simp add: overlay_def Let_def)

lemma overlay_exact:
  assumes "length new = n" "n \<le> length buf"
  shows "overlay n new buf = new @ drop n buf"
  using assms by (simp add: overlay_def)

lemma runs_memput [simp, vcg]:
  "runs (memput buf off new) Q \<longleftrightarrow>
     off + length new \<le> length buf \<and> Q (take off buf @ new @ drop (off + length new) buf)"
  by (simp add: memput_def)

lemma runs_memget [simp, vcg]:
  "runs (memget buf off n) Q \<longleftrightarrow> off + n \<le> length buf \<and> Q (take n (drop off buf))"
  by (simp add: memget_def)

lemma safely_memput [simp, vcg]:
  "safely (memput buf off new) Q \<longleftrightarrow>
     (off + length new \<le> length buf \<longrightarrow> Q (take off buf @ new @ drop (off + length new) buf))"
  by (simp add: memput_def)

lemma safely_memget [simp, vcg]:
  "safely (memget buf off n) Q \<longleftrightarrow> (off + n \<le> length buf \<longrightarrow> Q (take n (drop off buf)))"
  by (simp add: memget_def)

lemma memput_length: "memput buf off new = Some buf' \<Longrightarrow> length buf' = length buf"
  by (auto simp: memput_def split: if_splits)

lemma memget_memput_same:
  "memput buf off new = Some buf' \<Longrightarrow> memget buf' off (length new) = Some new"
  by (auto simp: memput_def memget_def split: if_splits)

lemma memget_memput_other:
  assumes "memput buf off new = Some buf'" "o2 + n \<le> off \<or> off + length new \<le> o2"
  shows "memget buf' o2 n = memget buf o2 n"
proof -
  from assms(1) have le: "off + length new \<le> length buf"
    and buf': "buf' = take off buf @ new @ drop (off + length new) buf"
    by (auto simp: memput_def split: if_splits)
  have len: "length buf' = length buf" using le buf' by simp
  have "take n (drop o2 buf') = take n (drop o2 buf)" if "o2 + n \<le> length buf"
  proof (rule nth_equalityI)
    show "length (take n (drop o2 buf')) = length (take n (drop o2 buf))" by (simp add: len)
    fix i assume "i < length (take n (drop o2 buf'))"
    then have i: "i < n" "o2 + i < length buf" using len by auto
    then show "take n (drop o2 buf') ! i = take n (drop o2 buf) ! i"
      using assms(2) le len unfolding buf' by (auto simp: nth_append)
  qed
  then show ?thesis by (simp add: memget_def len)
qed

section \<open>Tables of block states\<close>

text \<open>
  What a table of block states promises to those who mark blocks in it, over the state type
  that holds the table: a block within the table has a state, and setting one block's state
  changes that block's state only. Marking a list of blocks is the code's scan loop.
\<close>

locale block_table =
  fixes get :: "'t \<Rightarrow> nat \<Rightarrow> 'v option" and put :: "'t \<Rightarrow> nat \<Rightarrow> 'v \<Rightarrow> 't option"
    and within :: "'t \<Rightarrow> nat \<Rightarrow> bool" and val :: "'v \<Rightarrow> bool"
  assumes get_within: "within t b \<Longrightarrow> runs (get t b) val"
    and put_within: "within t b \<Longrightarrow> val v \<Longrightarrow>
      runs (put t b v) (\<lambda>t'. get t' b = Some v \<and> (\<forall>c. within t c \<longrightarrow> c \<noteq> b \<longrightarrow> get t' c = get t c)
        \<and> within t' = within t)"
begin

fun mark :: "'t \<Rightarrow> nat list \<Rightarrow> 'v \<Rightarrow> 't option" where
  "mark t [] v = Some t"
| "mark t (b # bs) v = Option.bind (put t b v) (\<lambda>t'. mark t' bs v)"

lemma mark_within:
  "\<forall>b \<in> set bs. within t b \<Longrightarrow> val v \<Longrightarrow>
     runs (mark t bs v) (\<lambda>t'. within t' = within t \<and>
       (\<forall>c. within t c \<longrightarrow> get t' c = (if c \<in> set bs then Some v else get t c)))"
proof (induction bs arbitrary: t)
  case (Cons b bs)
  have b: "within t b" using Cons.prems by simp
  show ?case
    unfolding mark.simps runs_bind
  proof (rule runs_mono [OF put_within [OF b Cons.prems(2)]])
    fix t' assume t': "get t' b = Some v \<and> (\<forall>c. within t c \<longrightarrow> c \<noteq> b \<longrightarrow> get t' c = get t c)
        \<and> within t' = within t"
    have "\<forall>b \<in> set bs. within t' b" using Cons.prems t' by simp
    from Cons.IH [OF this Cons.prems(2)]
    show "runs (mark t' bs v) (\<lambda>t''. within t'' = within t \<and>
       (\<forall>c. within t c \<longrightarrow> get t'' c = (if c \<in> set (b # bs) then Some v else get t c)))"
      by (rule runs_mono) (use t' in auto)
  qed
qed simp

end

section \<open>Little-endian layout\<close>

fun le_bytes :: "nat \<Rightarrow> nat \<Rightarrow> byte list" where
  "le_bytes 0 x = []"
| "le_bytes (Suc k) x = word_of_nat x # le_bytes k (x div 256)"

fun le_nat :: "byte list \<Rightarrow> nat" where
  "le_nat [] = 0"
| "le_nat (b # bs) = unat b + 256 * le_nat bs"

lemma length_le_bytes [simp]: "length (le_bytes k x) = k"
  by (induction k arbitrary: x) auto

lemma le_nat_le_bytes: "le_nat (le_bytes k x) = x mod 256 ^ k"
proof (induction k arbitrary: x)
  case (Suc k)
  have "unat (word_of_nat x :: byte) = x mod 256" by (simp add: unat_of_nat)
  then show ?case by (simp add: Suc mod_mult2_eq)
qed simp

lemma byte_bound: "unat (b :: byte) < 256"
  using unsigned_less [of b] by simp

lemma le_bytes_le_nat: "le_bytes (length bs) (le_nat bs) = bs"
proof (induction bs)
  case (Cons b bs)
  have "(unat b + 256 * le_nat bs) div 256 = le_nat bs" using byte_bound [of b] by simp
  moreover have "(word_of_nat (unat b + 256 * le_nat bs) :: byte) = b"
  proof -
    have "(256 :: byte) = 0" by simp
    then have "(word_of_nat (256 * le_nat bs) :: byte) = 0"
      by (simp only: of_nat_mult of_nat_numeral mult_zero_left)
    then show ?thesis by (simp only: of_nat_add add_0_right) simp
  qed
  ultimately show ?case using Cons by simp
qed simp

lemma le_nat_bound: "le_nat bs < 256 ^ length bs"
proof (induction bs)
  case (Cons b bs)
  have "unat b + 256 * le_nat bs < 256 * (1 + le_nat bs)" using byte_bound [of b] by simp
  also have "\<dots> \<le> 256 * 256 ^ length bs" using Cons by (intro mult_le_mono2) simp
  finally show ?case by simp
qed simp

definition le32 :: "u32 \<Rightarrow> byte list" where
  "le32 w = le_bytes 4 (unat w)"

definition of_le32 :: "byte list \<Rightarrow> u32" where
  "of_le32 bs = word_of_nat (le_nat (take 4 bs))"

lemma length_le32 [simp]: "length (le32 w) = 4"
  by (simp add: le32_def)

lemma of_le32_le32 [simp]: "of_le32 (le32 w @ r) = w"
proof -
  have "unat w < 4294967296" using unsigned_less [of w] by simp
  then show ?thesis by (simp add: of_le32_def le32_def le_nat_le_bytes)
qed

text \<open>An array of 32-bit words as it lies in memory, and back.\<close>

definition words_bytes :: "u32 list \<Rightarrow> byte list" where
  "words_bytes ws = concat (map le32 ws)"

fun bytes_words :: "byte list \<Rightarrow> u32 list" where
  "bytes_words (a # b # c # d # bs) = of_le32 [a, b, c, d] # bytes_words bs"
| "bytes_words _ = []"

lemma length_words_bytes [simp]: "length (words_bytes ws) = 4 * length ws"
  by (induction ws) (auto simp: words_bytes_def)

lemma le32_cases: obtains a b c d where "le32 w = [a, b, c, d]"
proof -
  have "\<exists>a b c d. xs = [a, b, c, d]" if "length xs = 4" for xs :: "byte list"
    using that by (auto simp: eval_nat_numeral length_Suc_conv)
  then show ?thesis using length_le32 [of w] that by blast
qed

lemma bytes_words_le32: "bytes_words (le32 w @ bs) = w # bytes_words bs"
proof -
  obtain a b c d where abcd: "le32 w = [a, b, c, d]" by (rule le32_cases)
  then have "of_le32 [a, b, c, d] = w" using of_le32_le32 [of w "[]"] by simp
  with abcd show ?thesis by simp
qed

lemma bytes_words_words_bytes [simp]: "bytes_words (words_bytes ws) = ws"
  by (induction ws) (simp_all add: words_bytes_def bytes_words_le32)

lemma length_bytes_words [simp]: "length (bytes_words bs) = length bs div 4"
  by (induction bs rule: bytes_words.induct) auto

lemma drop_words_bytes: "drop (4 * i) (words_bytes ws) = words_bytes (drop i ws)"
proof (induction ws arbitrary: i)
  case (Cons w ws)
  show ?case
  proof (cases i)
    case (Suc j)
    then have "drop (4 * i) (words_bytes (w # ws)) = drop (4 * j) (words_bytes ws)"
      by (simp add: words_bytes_def drop_append)
    then show ?thesis using Cons.IH Suc by simp
  qed simp
qed (simp add: words_bytes_def)

lemma of_le32_nth_words_bytes:
  assumes "i < length ws"
  shows "of_le32 (drop (4 * i) (words_bytes ws)) = ws ! i"
proof -
  have "drop i ws = ws ! i # drop (Suc i) ws" using assms by (rule Cons_nth_drop_Suc [symmetric])
  then have "words_bytes (drop i ws) = le32 (ws ! i) @ words_bytes (drop (Suc i) ws)"
    by (simp only: words_bytes_def list.map concat.simps)
  then show ?thesis by (simp only: drop_words_bytes of_le32_le32)
qed

end
