(* ===== verification/Bmt_Device.thy ===== *)
theory Bmt_Device
  imports Bmt_Prelude
begin

text \<open>
  The interface of the bad-block managers to the kernel's MTD layer and the descriptor they
  share: \<open>target/linux/generic/files/drivers/mtd/nand/mtk_bmt.h\<close> and the two helpers at the top
  of \<open>mtk_bmt.c\<close> (\<open>bbt_nand_copy\<close>, \<open>mapping_block_in_range\<close>).

  The raw NAND driver (\<open>_read_oob\<close>, \<open>_write_oob\<close>, \<open>_erase\<close>, \<open>_block_isbad\<close>,
  \<open>_block_markbad\<close>), \<open>crc32_le\<close> and \<open>mtd_oobavail\<close> are kernel code outside this tree. They are
  the fields of the record \<open>kernel\<close>, a parameter of every operation, over a device state
  of an arbitrary type; the driver may answer anything, in any state.
\<close>

section \<open>The kernel's side\<close>

text \<open>
  The outcome of \<open>_read_oob\<close>: the return code, the bytes the driver stored at the front of the
  data and OOB buffers, and the \<open>retlen\<close> and \<open>oobretlen\<close> it reported.
\<close>

record mtd_rd =
  rd_ret :: int
  rd_dat :: "byte list"
  rd_oob :: "byte list"
  rd_retlen :: nat
  rd_oobretlen :: nat

record mtd_wr =
  wr_ret :: int
  wr_retlen :: nat
  wr_oobretlen :: nat

text \<open>
  \<open>k_read dev addr len ooboffs ooblen\<close> and \<open>k_write dev addr data ooboffs oob\<close>, both with
  \<open>mode = MTD_OPS_PLACE_OOB\<close>, the only mode the code uses; a null buffer is a length of 0.
  \<open>k_erase dev addr len\<close>. \<open>k_big_endian\<close> is the byte order of the CPU, which matters to the EcoNet
  manager only: the MediaTek SoCs the other managers are for are little-endian.
\<close>

record 'd kernel =
  k_read :: "'d \<Rightarrow> nat \<Rightarrow> nat \<Rightarrow> nat \<Rightarrow> nat \<Rightarrow> mtd_rd \<times> 'd"
  k_write :: "'d \<Rightarrow> nat \<Rightarrow> byte list \<Rightarrow> nat \<Rightarrow> byte list \<Rightarrow> mtd_wr \<times> 'd"
  k_erase :: "'d \<Rightarrow> nat \<Rightarrow> nat \<Rightarrow> int \<times> 'd"
  k_isbad :: "'d \<Rightarrow> nat \<Rightarrow> int \<times> 'd"
  k_markbad :: "'d \<Rightarrow> nat \<Rightarrow> int \<times> 'd"
  k_crc32_le :: "u32 \<Rightarrow> byte list \<Rightarrow> u32"
  k_oobavail :: nat
  k_big_endian :: bool

section \<open>struct bmt_desc\<close>

text \<open>
  The single global \<open>bmtd\<close>, with the fields of \<open>*bmtd.mtd\<close> the code reads or writes prefixed by
  \<open>mtd_\<close> and the device state in \<open>dev\<close>. The union \<open>{bbt, ni}\<close> is a pointer into \<open>bbt_buf\<close> or
  null (\<open>bbt_set\<close>) for the table based managers and the record extension for NMBM. The
  property \<open>remap_range\<close> is the list of its decoded big-endian pairs, empty when absent.
\<close>

record 'd bmtd =
  dev :: 'd
  mtd_size :: nat
  mtd_erasesize :: nat
  mtd_erasesize_mask :: nat
  mtd_writesize :: nat
  mtd_oobsize :: nat
  mtd_bitflip_threshold :: nat
  mtd_ecc_strength :: nat
  bbt_buf :: "byte list"
  bbt_set :: bool
  data_buf :: "byte list"
  table_size :: nat
  pg_size :: nat
  blk_size :: nat
  pg_shift :: nat
  blk_shift :: nat
  pool_lba :: nat
  pool_pba :: nat
  bb_max :: nat
  total_blks :: nat
  bmt_blk_idx :: nat
  bmt_pgs :: nat
  remap_range :: "(nat \<times> nat) list"
  oob_offset :: nat

text \<open>
  \<open>struct mtk_bmt_ops\<close>: what a manager gives the front end. A result of \<open>None\<close> is an
  undefined outcome of the operation.
\<close>

record 's bmt_ops =
  op_sig :: "byte list"
  op_remap_block :: "'s \<Rightarrow> nat \<Rightarrow> nat \<Rightarrow> int \<Rightarrow> (bool \<times> 's) option"
  op_unmap_block :: "'s \<Rightarrow> nat \<Rightarrow> 's option"
  op_get_mapping_block :: "'s \<Rightarrow> int \<Rightarrow> int option"

definition OOB_SIGNATURE_OFFSET :: nat where
  "OOB_SIGNATURE_OFFSET = 1"

section \<open>Inline helpers of mtk_bmt.h\<close>

definition blk_pg :: "('d, 'z) bmtd_scheme \<Rightarrow> nat \<Rightarrow> nat" where
  "blk_pg s block = u32_of (int block * 2 ^ (blk_shift s - pg_shift s))"

text \<open>
  The page number is a \<open>u32\<close> and is shifted as one, before it is widened to the device offset.
\<close>

definition bbt_nand_read ::
  "'d kernel \<Rightarrow> ('d, 'z) bmtd_scheme \<Rightarrow> nat \<Rightarrow> byte list \<Rightarrow> nat \<Rightarrow> byte list \<Rightarrow> nat \<Rightarrow>
     int \<times> byte list \<times> byte list \<times> ('d, 'z) bmtd_scheme" where
  "bbt_nand_read E s page dat dat_len fdm fdm_len =
     (let (r, d) = k_read E (dev s) (u32_of (int page * 2 ^ pg_shift s)) dat_len
                     (oob_offset s) fdm_len
      in (if rd_ret r < 0 then rd_ret r else 0,
          overlay dat_len (rd_dat r) dat, overlay fdm_len (rd_oob r) fdm, s\<lparr>dev := d\<rparr>))"

definition bbt_nand_erase ::
  "'d kernel \<Rightarrow> ('d, 'z) bmtd_scheme \<Rightarrow> nat \<Rightarrow> int \<times> ('d, 'z) bmtd_scheme" where
  "bbt_nand_erase E s block =
     (let (r, d) = k_erase E (dev s) (block * 2 ^ blk_shift s) (blk_size s)
      in (r, s\<lparr>dev := d\<rparr>))"

definition write_bmt ::
  "'d kernel \<Rightarrow> byte list \<Rightarrow> ('d, 'z) bmtd_scheme \<Rightarrow> nat \<Rightarrow> byte list \<Rightarrow>
     (int \<times> ('d, 'z) bmtd_scheme) option" where
  "write_bmt E sig s block dat =
     do {
       d \<leftarrow> memget dat 0 (u32_of (int (bmt_pgs s) * 2 ^ pg_shift s));
       let (w, dv) = k_write E (dev s) (block * 2 ^ blk_shift s) d
                       (OOB_SIGNATURE_OFFSET + oob_offset s) sig;
       Some (wr_ret w, s\<lparr>dev := dv\<rparr>)
     }"

section \<open>bbt_nand_copy and mapping_block_in_range\<close>

text \<open>
  One round of the copy loop for each page left. In the code \<open>wr_ops.ooblen\<close> is assigned only
  after \<open>_write_oob\<close> has been called, on a structure that the next round initialises again, so
  the driver always sees an OOB length of 0.
\<close>

fun bbt_nand_copy_loop ::
  "nat \<Rightarrow> 'd kernel \<Rightarrow> ('d, 'z) bmtd_scheme \<Rightarrow> byte list \<Rightarrow> nat \<Rightarrow> nat \<Rightarrow> nat \<Rightarrow> int \<Rightarrow> nat \<Rightarrow>
     int \<times> ('d, 'z) bmtd_scheme" where
  "bbt_nand_copy_loop 0 E s oob pages src dest max_offset offset = (0, s)"
| "bbt_nand_copy_loop (Suc n) E s oob pages src dest max_offset offset =
     (if int offset \<ge> max_offset then (0, s)
      else
        let rd_ooblen = min (mtd_oobsize s div pages) 64;
            (r, d) = k_read E (dev s) (src + offset) (pg_size s) 0 rd_ooblen;
            oob = overlay rd_ooblen (rd_oob r) oob;
            s = s\<lparr>dev := d, data_buf := overlay (pg_size s) (rd_dat r) (data_buf s)\<rparr>
        in if rd_ret r < 0 \<and> rd_ret r \<noteq> - EUCLEAN then (rd_ret r, s)
           else if rd_retlen r = 0 then (0, s)
           else
             let wr_ooblen = 0;
                 (w, d) = k_write E (dev s) (dest + offset) (take (pg_size s) (data_buf s)) 0
                            (take wr_ooblen oob);
                 s = s\<lparr>dev := d\<rparr>
             in if wr_ret w < 0 then (wr_ret w, s)
                else bbt_nand_copy_loop n E s oob pages src dest max_offset
                       (offset + rd_retlen r))"

definition bbt_nand_copy ::
  "'d kernel \<Rightarrow> ('d, 'z) bmtd_scheme \<Rightarrow> nat \<Rightarrow> nat \<Rightarrow> int \<Rightarrow> int \<times> ('d, 'z) bmtd_scheme" where
  "bbt_nand_copy E s dest_blk src_blk max_offset =
     (let pages = blk_size s div 2 ^ pg_shift s
      in bbt_nand_copy_loop pages E s (replicate 64 0) pages
           (src_blk * 2 ^ blk_shift s) (dest_blk * 2 ^ blk_shift s) max_offset 0)"

fun range_search :: "(nat \<times> nat) list \<Rightarrow> nat \<Rightarrow> (int \<times> int) option" where
  "range_search [] addr = None"
| "range_search ((lo, hi) # cur) addr =
     (if addr < lo \<or> addr \<ge> hi then range_search cur addr
      else Some (s32 (int lo), s32 (int hi)))"

definition mapping_block_in_range ::
  "('d, 'z) bmtd_scheme \<Rightarrow> int \<Rightarrow> (int \<times> int) option" where
  "mapping_block_in_range s block =
     (if remap_range s = [] then Some (0, int (total_blks s))
      else range_search (remap_range s) (u32_of (block * 2 ^ blk_shift s)))"

section \<open>What device access changes\<close>

text \<open>
  An operation that only talks to the device leaves the whole descriptor as it was but for the
  device state and the bytes of the page buffer.
\<close>

definition io_only :: "('d, 'z) bmtd_scheme \<Rightarrow> ('d, 'z) bmtd_scheme \<Rightarrow> bool" where
  "io_only s t \<longleftrightarrow>
     t = s\<lparr>dev := dev t, data_buf := data_buf t\<rparr> \<and> length (data_buf t) = length (data_buf s)"

lemma io_only_refl [simp, intro]: "io_only s s"
  by (simp add: io_only_def)

lemma io_only_trans [trans]: "io_only s t \<Longrightarrow> io_only t u \<Longrightarrow> io_only s u"
  unfolding io_only_def by (cases s; cases t; cases u) simp

lemma io_only_dev_right [simp]: "io_only s (t\<lparr>dev := d\<rparr>) = io_only s t"
  unfolding io_only_def by (cases s; cases t) simp

lemma io_only_dev_left [simp]: "io_only (s\<lparr>dev := d\<rparr>) t = io_only s t"
  unfolding io_only_def by (cases s; cases t) simp

lemma io_only_buf_right [simp]:
  "length b = length (data_buf t) \<Longrightarrow> io_only s (t\<lparr>data_buf := b\<rparr>) = io_only s t"
  unfolding io_only_def by (cases s; cases t) simp

lemma io_only_buf_left [simp]:
  "length b = length (data_buf s) \<Longrightarrow> io_only (s\<lparr>data_buf := b\<rparr>) t = io_only s t"
  unfolding io_only_def by (cases s; cases t) simp

lemma io_only_buf_dev_left [simp]:
  "length b = length (data_buf s) \<Longrightarrow> io_only (s\<lparr>data_buf := b, dev := d\<rparr>) t = io_only s t"
  by simp

lemma bbt_nand_erase_io: "io_only s (snd (bbt_nand_erase E s b))"
  by (simp add: bbt_nand_erase_def case_prod_beta)

lemma bbt_nand_copy_loop_io:
  "io_only s (snd (bbt_nand_copy_loop n E s oob pages src dest mo off))"
proof (induction n arbitrary: s oob off)
  case (Suc n)
  have step: "io_only s (snd (bbt_nand_copy_loop n E
      (s\<lparr>data_buf := overlay k r (data_buf s), dev := d\<rparr>) oob pages src dest mo off))"
    for k r d oob off
    using Suc.IH [of "s\<lparr>data_buf := overlay k r (data_buf s), dev := d\<rparr>" oob off] by simp
  show ?case
    by (auto simp: Let_def case_prod_beta step)
qed simp

lemma bbt_nand_copy_io: "io_only s (snd (bbt_nand_copy E s dst src mo))"
  by (simp add: bbt_nand_copy_def Let_def bbt_nand_copy_loop_io)

text \<open>What no operation of a manager changes.\<close>

definition same_shape :: "('d, 'z) bmtd_scheme \<Rightarrow> ('d, 'z) bmtd_scheme \<Rightarrow> bool" where
  "same_shape s t \<longleftrightarrow> mtd_size t = mtd_size s \<and> mtd_erasesize t = mtd_erasesize s
     \<and> mtd_erasesize_mask t = mtd_erasesize_mask s \<and> blk_size t = blk_size s
     \<and> blk_shift t = blk_shift s \<and> pg_size t = pg_size s \<and> pg_shift t = pg_shift s
     \<and> total_blks t = total_blks s \<and> remap_range t = remap_range s
     \<and> mtd_bitflip_threshold t = mtd_bitflip_threshold s"

lemma same_shape_refl [simp]: "same_shape s s"
  by (simp add: same_shape_def)

lemma same_shape_trans: "same_shape s t \<Longrightarrow> same_shape t u \<Longrightarrow> same_shape s u"
  by (simp add: same_shape_def)

lemma same_shape_dev [simp]: "same_shape s (t\<lparr>dev := d\<rparr>) = same_shape s t"
  "same_shape (s\<lparr>dev := d\<rparr>) t = same_shape s t"
  by (simp_all add: same_shape_def)

lemma io_only_shape:
  assumes "io_only s t"
  shows "same_shape s t"
proof -
  obtain d b where "t = s\<lparr>dev := d, data_buf := b\<rparr>" using assms unfolding io_only_def by blast
  then show ?thesis by (simp add: same_shape_def)
qed

end
