(* ===== verification/Nmbm_State.thy ===== *)
theory Nmbm_State
  imports Bmt_Device
begin

text \<open>
  The data of the NMBM manager (\<open>mtk_bmt_nmbm.c\<close>): the structures stored on flash with their
  byte layout and checksum, \<open>struct nmbm_instance\<close>, the block state bit table, and the
  computation of the instance's sizes and memory layout.
\<close>

section \<open>Constants\<close>

abbreviation (input) NMBM_MAGIC_SIGNATURE :: u32 where "NMBM_MAGIC_SIGNATURE \<equiv> 0x304d4d4e"
abbreviation (input) NMBM_MAGIC_INFO_TABLE :: u32 where "NMBM_MAGIC_INFO_TABLE \<equiv> 0x314d4d4e"

definition NMBM_VERSION_MAKE :: "u32 \<Rightarrow> u32 \<Rightarrow> u32" where
  "NMBM_VERSION_MAKE major minor = (major AND 0xffff) OR push_bit 16 (minor AND 0xffff)"

definition NMBM_VERSION_MAJOR_GET :: "u32 \<Rightarrow> u32" where
  "NMBM_VERSION_MAJOR_GET ver = drop_bit 0 ver AND 0xffff"

definition NMBM_VERSION_MINOR_GET :: "u32 \<Rightarrow> u32" where
  "NMBM_VERSION_MINOR_GET ver = drop_bit 16 ver AND 0xffff"

definition NMBM_VER :: u32 where
  "NMBM_VER = NMBM_VERSION_MAKE 1 0"

abbreviation (input) NMBM_BITMAP_BLOCKS_PER_UNIT :: nat where "NMBM_BITMAP_BLOCKS_PER_UNIT \<equiv> 16"
abbreviation (input) NMBM_BITMAP_BITS_PER_BLOCK :: nat where "NMBM_BITMAP_BITS_PER_BLOCK \<equiv> 2"
abbreviation (input) NMBM_BITMAP_UNIT_SIZE :: nat where "NMBM_BITMAP_UNIT_SIZE \<equiv> 4"
abbreviation (input) NMBM_MGMT_DIV :: nat where "NMBM_MGMT_DIV \<equiv> 16"
abbreviation (input) NMBM_TRY_COUNT :: nat where "NMBM_TRY_COUNT \<equiv> 3"

abbreviation (input) BLOCK_ST_BAD :: u32 where "BLOCK_ST_BAD \<equiv> 0"
abbreviation (input) BLOCK_ST_GOOD :: u32 where "BLOCK_ST_GOOD \<equiv> 3"
abbreviation (input) BLOCK_ST_MASK :: u32 where "BLOCK_ST_MASK \<equiv> 3"

section \<open>Structures on flash\<close>

record nmbm_header =
  h_magic :: u32
  h_version :: u32
  h_size :: u32
  h_checksum :: u32

text \<open>
  The last field of the signature holds its three bytes of declared padding and the four the
  compiler adds to align the 64-bit field (48 bytes in all).
\<close>

record nmbm_signature =
  sig_header :: nmbm_header
  sig_nand_size :: u64
  sig_block_size :: u32
  sig_page_size :: u32
  sig_spare_size :: u32
  sig_mgmt_start_pb :: u32
  sig_max_try_count :: byte
  sig_padding :: "byte list"

record nmbm_info_table_header =
  it_header :: nmbm_header
  it_write_count :: u32
  it_state_table_off :: u32
  it_mapping_table_off :: u32
  it_padding :: u32

abbreviation (input) sizeof_header :: nat where "sizeof_header \<equiv> 16"
abbreviation (input) sizeof_signature :: nat where "sizeof_signature \<equiv> 48"
abbreviation (input) sizeof_info_table_header :: nat where "sizeof_info_table_header \<equiv> 32"

definition header_bytes :: "nmbm_header \<Rightarrow> byte list" where
  "header_bytes h = le32 (h_magic h) @ le32 (h_version h) @ le32 (h_size h) @ le32 (h_checksum h)"

definition bytes_header :: "byte list \<Rightarrow> nmbm_header" where
  "bytes_header b = \<lparr>h_magic = of_le32 b, h_version = of_le32 (drop 4 b),
     h_size = of_le32 (drop 8 b), h_checksum = of_le32 (drop 12 b)\<rparr>"

definition signature_bytes :: "nmbm_signature \<Rightarrow> byte list" where
  "signature_bytes g = header_bytes (sig_header g) @ le_bytes 8 (unat (sig_nand_size g)) @
     le32 (sig_block_size g) @ le32 (sig_page_size g) @ le32 (sig_spare_size g) @
     le32 (sig_mgmt_start_pb g) @ [sig_max_try_count g] @ sig_padding g"

definition bytes_signature :: "byte list \<Rightarrow> nmbm_signature" where
  "bytes_signature b = \<lparr>sig_header = bytes_header b,
     sig_nand_size = word_of_nat (le_nat (take 8 (drop 16 b))),
     sig_block_size = of_le32 (drop 24 b), sig_page_size = of_le32 (drop 28 b),
     sig_spare_size = of_le32 (drop 32 b), sig_mgmt_start_pb = of_le32 (drop 36 b),
     sig_max_try_count = word_of_nat (le_nat (take 1 (drop 40 b))),
     sig_padding = take 7 (drop 41 b)\<rparr>"

definition info_header_bytes :: "nmbm_info_table_header \<Rightarrow> byte list" where
  "info_header_bytes t = header_bytes (it_header t) @ le32 (it_write_count t) @
     le32 (it_state_table_off t) @ le32 (it_mapping_table_off t) @ le32 (it_padding t)"

definition bytes_info_header :: "byte list \<Rightarrow> nmbm_info_table_header" where
  "bytes_info_header b = \<lparr>it_header = bytes_header b, it_write_count = of_le32 (drop 16 b),
     it_state_table_off = of_le32 (drop 20 b), it_mapping_table_off = of_le32 (drop 24 b),
     it_padding = of_le32 (drop 28 b)\<rparr>"

text \<open>
  What a fixed-size structure layout promises: its size, and that reading it back from the
  front of any longer buffer gives the structure again. Copying a structure into a buffer and
  out of it is then the identity, and the layout has no two structures with the same bytes.
\<close>

locale layout =
  fixes bytes_of :: "'a \<Rightarrow> byte list" and of_bytes :: "byte list \<Rightarrow> 'a"
    and valid :: "'a \<Rightarrow> bool" and sz :: nat
  assumes length_bytes: "valid x \<Longrightarrow> length (bytes_of x) = sz"
    and of_bytes_bytes: "valid x \<Longrightarrow> of_bytes (bytes_of x @ r) = x"
begin

lemma of_bytes_exact: "valid x \<Longrightarrow> of_bytes (bytes_of x) = x"
  using of_bytes_bytes [of x "[]"] by simp

lemma bytes_inj: "valid x \<Longrightarrow> valid y \<Longrightarrow> bytes_of x = bytes_of y \<Longrightarrow> x = y"
  using of_bytes_exact by metis

lemma memput_read_back:
  assumes "valid x" "memput buf off (bytes_of x) = Some buf'"
  shows "of_bytes (drop off buf') = x"
proof -
  from assms(2) have "off + length (bytes_of x) \<le> length buf"
    and "buf' = take off buf @ bytes_of x @ drop (off + length (bytes_of x)) buf"
    by (auto simp: memput_def split: if_splits)
  then have "drop off buf' = bytes_of x @ drop (off + length (bytes_of x)) buf"
    by simp
  then show ?thesis using assms(1) by (simp add: of_bytes_bytes)
qed

end

lemma length_header_bytes [simp]: "length (header_bytes h) = 16"
  by (simp add: header_bytes_def)

lemma bytes_header_bytes [simp]: "bytes_header (header_bytes h @ r) = h"
  by (simp add: bytes_header_def header_bytes_def)

lemma length_info_header_bytes [simp]: "length (info_header_bytes t) = 32"
  by (simp add: info_header_bytes_def)

lemma bytes_info_header_bytes [simp]: "bytes_info_header (info_header_bytes t @ r) = t"
  by (simp add: bytes_info_header_def info_header_bytes_def)

lemma u64_le: "word_of_nat (le_nat (le_bytes 8 (unat (w :: u64)))) = w"
proof -
  have "unat w < 256 ^ 8" using unsigned_less [of w] by simp
  then show ?thesis by (simp only: le_nat_le_bytes mod_less) simp
qed

lemma bytes_signature_bytes:
  assumes "length (sig_padding g) = 7"
  shows "bytes_signature (signature_bytes g @ r) = g"
  using assms
  by (simp add: bytes_signature_def signature_bytes_def u64_le)

interpretation header: layout header_bytes bytes_header "\<lambda>_. True" sizeof_header
  by unfold_locales simp_all

interpretation signature: layout signature_bytes bytes_signature
    "\<lambda>g. length (sig_padding g) = 7" sizeof_signature
  by unfold_locales (simp add: signature_bytes_def, rule bytes_signature_bytes)

interpretation info_header: layout info_header_bytes bytes_info_header
    "\<lambda>_. True" sizeof_info_table_header
  by unfold_locales simp_all

section \<open>struct nmbm_instance\<close>

text \<open>
  The instance extends the shared descriptor, whose union points to it. The arrays behind its
  three pointers are lists; \<open>block_mapping\<close> holds the \<open>int32_t\<close> entries as 32-bit words, read
  with \<open>sint\<close> where the code compares them as signed and with \<open>unat\<close> where it compares them
  with an unsigned operand. \<open>page_cache\<close> is \<open>bmtd.data_buf\<close> and stays in the descriptor.
\<close>

record 'd nmbm = "'d bmtd" +
  rawpage_size :: nat
  rawblock_size :: nat
  rawchip_size :: nat
  signature :: nmbm_signature
  info_table_cache :: "byte list"
  info_table_size :: nat
  info_table_spare_blocks :: nat
  info_table :: nmbm_info_table_header
  block_state :: "u32 list"
  block_state_changed :: u32
  state_table_size :: nat
  block_mapping :: "u32 list"
  block_mapping_changed :: u32
  mapping_table_size :: nat
  protected :: bool
  block_count :: nat
  data_block_count :: nat
  mgmt_start_ba :: nat
  main_table_ba :: nat
  backup_table_ba :: nat
  mapping_blocks_ba :: nat
  mapping_blocks_top_ba :: nat
  signature_ba :: nat
  max_ratio :: nat
  max_reserved_blocks :: nat
  empty_page_ecc_ok :: bool
  force_create :: bool

definition ba2addr :: "'d nmbm \<Rightarrow> nat \<Rightarrow> nat" where
  "ba2addr s ba = ba * 2 ^ blk_shift s"

definition size2blk :: "'d nmbm \<Rightarrow> nat \<Rightarrow> nat" where
  "size2blk s sz = u32_of (int ((sz + blk_size s - 1) div 2 ^ blk_shift s))"

section \<open>Checksums\<close>

text \<open>\<open>crc32_le\<close> takes an \<open>unsigned int\<close> length, so longer buffers are cut into chunks.\<close>

function nmbm_crc32 :: "'d kernel \<Rightarrow> u32 \<Rightarrow> byte list \<Rightarrow> u32" where
  "nmbm_crc32 E crcval buf =
     (if buf = [] then crcval
      else if length buf > 4294967295
        then nmbm_crc32 E (k_crc32_le E crcval (take 4294967295 buf)) (drop 4294967295 buf)
        else k_crc32_le E crcval buf)"
  by pat_completeness auto
termination
  by (relation "measure (\<lambda>(E, c, b). length b)") auto

declare nmbm_crc32.simps [simp del]

text \<open>
  \<open>nmbm_check_header data sz\<close>: \<open>None\<close> when the size the header claims runs past the buffer.
\<close>

definition nmbm_check_header :: "'d kernel \<Rightarrow> byte list \<Rightarrow> nat \<Rightarrow> bool option" where
  "nmbm_check_header E data sz =
     (let header = bytes_header data
      in if unat (h_size header) > sz then Some False
         else do {
           let nhdr = header\<lparr>h_checksum := 0\<rparr>;
           let new_checksum = nmbm_crc32 E 0 (header_bytes nhdr);
           new_checksum \<leftarrow>
             (if unat (h_size header) > sizeof_header then do {
                body \<leftarrow> memget data sizeof_header (unat (h_size header) - sizeof_header);
                Some (nmbm_crc32 E new_checksum body)
              } else Some new_checksum);
           Some (h_checksum header = new_checksum)
         })"

definition nmbm_update_checksum :: "'d kernel \<Rightarrow> byte list \<Rightarrow> byte list option" where
  "nmbm_update_checksum E data =
     do {
       data \<leftarrow> memput data 12 (le32 0);
       body \<leftarrow> memget data 0 (unat (h_size (bytes_header data)));
       memput data 12 (le32 (nmbm_crc32 E 0 body))
     }"

text \<open>
  The one fact about \<open>crc32_le\<close> the checksums rest on: feeding a buffer in two calls, the first
  result seeding the second, is feeding it in one.
\<close>

definition crc_streams :: "'d kernel \<Rightarrow> bool" where
  "crc_streams E \<longleftrightarrow>
     (\<forall>c a b. k_crc32_le E (k_crc32_le E c a) b = k_crc32_le E c (a @ b)) \<and>
     (\<forall>c. k_crc32_le E c [] = c)"

lemma nmbm_crc32_streams:
  assumes "crc_streams E"
  shows "nmbm_crc32 E c b = k_crc32_le E c b"
  using assms
proof (induction E c b rule: nmbm_crc32.induct)
  case (1 E c b)
  have app: "k_crc32_le E (k_crc32_le E c x) y = k_crc32_le E c (x @ y)" for x y
    using "1.prems" by (simp add: crc_streams_def)
  show ?case
  proof (cases "length b > 4294967295")
    case True
    then have "b \<noteq> []" by auto
    with True "1.IH" "1.prems"
    have "nmbm_crc32 E c b
      = k_crc32_le E (k_crc32_le E c (take 4294967295 b)) (drop 4294967295 b)"
      by (subst nmbm_crc32.simps) simp
    then show ?thesis by (simp only: app append_take_drop_id)
  next
    case False
    with "1.prems" show ?thesis
      by (subst nmbm_crc32.simps) (auto simp: crc_streams_def)
  qed
qed

text \<open>
  Writing the checksum into a structure whose recorded size lies within the buffer makes the
  check of that structure succeed, whatever the checksum function is.
\<close>

lemma bytes_header_memput_checksum:
  assumes "16 \<le> length data"
  shows "bytes_header (take 12 data @ le32 c @ drop 16 data) = (bytes_header data)\<lparr>h_checksum := c\<rparr>"
proof -
  have "of_le32 (drop k (take 12 data @ r)) = of_le32 (drop k data)" if "k \<le> 8" for k r
    using that assms by (simp add: of_le32_def take_drop drop_append)
  from this [of 0] this [of 4] this [of 8] show ?thesis
    using assms by (simp add: bytes_header_def)
qed

lemma header_bytes_of_bytes:
  assumes "16 \<le> length data"
  shows "header_bytes (bytes_header data) = take 16 data"
proof -
  have w: "le32 (of_le32 (drop k data)) = take 4 (drop k data)" if "k + 4 \<le> length data" for k
  proof -
    let ?b = "take 4 (drop k data)"
    have len: "length ?b = 4" using that by simp
    have "le_nat ?b < 2 ^ 32" using le_nat_bound [of ?b] len by simp
    then have "unat (of_le32 (drop k data)) = le_nat ?b"
      by (simp add: of_le32_def unat_of_nat)
    then show ?thesis using le_bytes_le_nat [of ?b] len by (simp add: le32_def)
  qed
  have "take 16 data = take 4 (drop 0 data) @ take 4 (drop 4 data) @ take 4 (drop 8 data)
      @ take 4 (drop 12 data)"
    using take_add [of 4 12 data] take_add [of 4 8 "drop 4 data"] take_add [of 4 4 "drop 8 data"]
    by simp
  then show ?thesis
    using assms w [of 0] w [of 4] w [of 8] w [of 12]
    by (simp add: header_bytes_def bytes_header_def)
qed

lemma update_checksum_check:
  assumes E: "crc_streams E"
    and sz: "16 \<le> unat (h_size (bytes_header data))" "unat (h_size (bytes_header data)) \<le> length data"
    and n: "unat (h_size (bytes_header data)) \<le> n"
  shows "runs (nmbm_update_checksum E data)
     (\<lambda>data'. nmbm_check_header E data' n = Some True \<and> length data' = length data
        \<and> (\<exists>c. bytes_header data' = (bytes_header data)\<lparr>h_checksum := c\<rparr>)
        \<and> drop 16 data' = drop 16 data)"
proof -
  let ?n = "unat (h_size (bytes_header data))"
  let ?z = "take 12 data @ le32 0 @ drop 16 data"
  let ?c = "k_crc32_le E 0 (take ?n ?z)"
  let ?d = "take 12 data @ le32 ?c @ drop 16 data"
  have len: "16 \<le> length data" using sz by simp
  have hz: "bytes_header ?z = (bytes_header data)\<lparr>h_checksum := 0\<rparr>"
    and hd: "bytes_header ?d = (bytes_header data)\<lparr>h_checksum := ?c\<rparr>"
    by (simp_all only: bytes_header_memput_checksum [OF len])
  have zd: "header_bytes ((bytes_header ?d)\<lparr>h_checksum := 0\<rparr>) = take 16 ?z"
    using header_bytes_of_bytes [of ?z] len by (simp add: hd hz del: take_append)
  have dz: "drop 16 ?z = drop 16 data" and dd: "drop 16 ?d = drop 16 data"
    and ld: "length ?d = length data"
    using len by simp_all
  have split: "take ?n ?z = take 16 ?z @ take (?n - 16) (drop 16 data)"
    using take_add [of 16 "?n - 16" ?z] sz(1) dz by (simp del: take_append drop_append)
  have chk: "k_crc32_le E (k_crc32_le E 0 (take 16 ?z)) (take (?n - 16) (drop 16 data)) = ?c"
    using E unfolding split by (simp only: crc_streams_def)
  have chk1: "?c = k_crc32_le E 0 (take 16 ?z)" if "?n = 16"
    by (simp only: that)
  have sd: "unat (h_size (bytes_header ?d)) = ?n" and cd: "h_checksum (bytes_header ?d) = ?c"
    unfolding hd by simp_all
  have "nmbm_check_header E ?d n = Some True"
    unfolding nmbm_check_header_def Let_def sd cd zd nmbm_crc32_streams [OF E] memget_def ld dd
    using sz n chk chk1 by (auto simp del: take_append drop_append)
  moreover have "nmbm_update_checksum E data = Some ?d"
    using sz len E
    by (simp add: nmbm_update_checksum_def memput_def memget_def hz nmbm_crc32_streams
        del: take_append drop_append) (simp add: drop_append)
  ultimately show ?thesis using hd dd ld by (auto simp: runs_def)
qed

section \<open>The block state table\<close>

definition nmbm_get_block_state_raw :: "u32 list \<Rightarrow> nat \<Rightarrow> u32 option" where
  "nmbm_get_block_state_raw bs ba =
     do {
       let unit = ba div NMBM_BITMAP_BLOCKS_PER_UNIT;
       let shift = (ba mod NMBM_BITMAP_BLOCKS_PER_UNIT) * NMBM_BITMAP_BITS_PER_BLOCK;
       u \<leftarrow> aget bs unit;
       Some (drop_bit shift u AND BLOCK_ST_MASK)
     }"

definition nmbm_get_block_state :: "'d nmbm \<Rightarrow> nat \<Rightarrow> u32 option" where
  "nmbm_get_block_state s ba = nmbm_get_block_state_raw (block_state s) ba"

definition nmbm_set_block_state :: "'d nmbm \<Rightarrow> nat \<Rightarrow> u32 \<Rightarrow> (bool \<times> 'd nmbm) option" where
  "nmbm_set_block_state s ba state =
     do {
       let unit = ba div NMBM_BITMAP_BLOCKS_PER_UNIT;
       let shift = (ba mod NMBM_BITMAP_BLOCKS_PER_UNIT) * NMBM_BITMAP_BITS_PER_BLOCK;
       u \<leftarrow> aget (block_state s) unit;
       let orig = drop_bit shift u AND BLOCK_ST_MASK;
       let state = state AND BLOCK_ST_MASK;
       let uv = u AND NOT (push_bit shift BLOCK_ST_MASK);
       let uv = uv OR push_bit shift state;
       bs \<leftarrow> aset (block_state s) unit uv;
       let s = s\<lparr>block_state := bs\<rparr>;
       if orig \<noteq> state
         then Some (True, s\<lparr>block_state_changed := block_state_changed s + 1\<rparr>)
         else Some (False, s)
     }"

text \<open>The two-bit field of a block in the table of 32-bit units, and its update.\<close>

definition bst :: "u32 list \<Rightarrow> nat \<Rightarrow> u32" where
  "bst bs ba = drop_bit ((ba mod 16) * 2) (bs ! (ba div 16)) AND BLOCK_ST_MASK"

definition bset :: "u32 list \<Rightarrow> nat \<Rightarrow> u32 \<Rightarrow> u32 list" where
  "bset bs ba st = bs[ba div 16 :=
     (bs ! (ba div 16) AND NOT (push_bit ((ba mod 16) * 2) BLOCK_ST_MASK))
       OR push_bit ((ba mod 16) * 2) (st AND BLOCK_ST_MASK)]"

lemma mask3: "(3 :: u32) = mask 2"
  by (simp add: mask_eq_exp_minus_1)

lemma field_same:
  assumes "i < 16"
  shows "drop_bit (i * 2) ((u AND NOT (push_bit (i * 2) 3)) OR push_bit (i * 2) (v AND 3)) AND (3 :: u32)
    = v AND 3"
  unfolding mask3 using assms by (auto intro!: bit_eqI simp: bit_simps)

lemma field_other:
  assumes "i < 16" "j < 16" "i \<noteq> j"
  shows "drop_bit (j * 2) ((u AND NOT (push_bit (i * 2) 3)) OR push_bit (i * 2) (v AND 3)) AND (3 :: u32)
    = drop_bit (j * 2) u AND 3"
  unfolding mask3 using assms by (intro bit_eqI) (auto simp: bit_simps)

lemma length_bset [simp]: "length (bset bs ba st) = length bs"
  by (simp add: bset_def)

lemma bst_bset_same: "ba div 16 < length bs \<Longrightarrow> bst (bset bs ba st) ba = st AND 3"
  unfolding bst_def bset_def by (simp only: nth_list_update_eq) (rule field_same, simp)

lemma bst_bset_other:
  assumes "c \<noteq> ba"
  shows "bst (bset bs ba st) c = bst bs c"
proof (cases "c div 16 = ba div 16 \<and> ba div 16 < length bs")
  case True
  then have "c mod 16 \<noteq> ba mod 16" using assms by (metis div_mult_mod_eq)
  with True have "drop_bit (c mod 16 * 2) (bset bs ba st ! (ba div 16)) AND 3
      = drop_bit (c mod 16 * 2) (bs ! (ba div 16)) AND 3"
    unfolding bset_def by (simp only: nth_list_update_eq) (rule field_other, simp_all)
  with True show ?thesis by (simp only: bst_def)
qed (auto simp: bst_def bset_def nth_list_update list_update_beyond not_less)

lemma bst_mask [simp]: "bst bs ba AND 3 = bst bs ba"
  by (simp add: bst_def and.assoc)

lemma nmbm_get_block_state_raw_eq:
  "nmbm_get_block_state_raw bs ba = (if ba div 16 < length bs then Some (bst bs ba) else None)"
  by (simp add: nmbm_get_block_state_raw_def aget_def bst_def)

lemma nmbm_get_block_state_eq:
  "nmbm_get_block_state s ba =
     (if ba div 16 < length (block_state s) then Some (bst (block_state s) ba) else None)"
  by (simp add: nmbm_get_block_state_def nmbm_get_block_state_raw_eq)

lemma nmbm_set_block_state_eq:
  "nmbm_set_block_state s ba st =
     (if ba div 16 < length (block_state s)
      then Some (bst (block_state s) ba \<noteq> st AND 3,
        s\<lparr>block_state := bset (block_state s) ba st,
          block_state_changed := (if bst (block_state s) ba \<noteq> st AND 3
             then block_state_changed s + 1 else block_state_changed s)\<rparr>)
      else None)"
  by (simp add: nmbm_set_block_state_def aget_def aset_def bst_def bset_def Let_def)

interpretation nmbm_states: block_table
    nmbm_get_block_state "\<lambda>s b v. map_option snd (nmbm_set_block_state s b v)"
    "\<lambda>s b. b div 16 < length (block_state s)" "\<lambda>v. v AND 3 = v"
  by unfold_locales
     (auto simp: nmbm_get_block_state_eq nmbm_set_block_state_eq bst_bset_same bst_bset_other)

section \<open>Sizes and memory layout of the instance\<close>

definition nmbm_get_spare_block_count :: "nat \<Rightarrow> nat" where
  "nmbm_get_spare_block_count n =
     (let val = add32 n (2 div 2) div 2;
          val = u32_of (int val * 1)
      in if val < 2 then 2 else val)"

text \<open>The size of the allocation; \<open>sizeof(struct nmbm_instance)\<close> depends on the ABI.\<close>

definition nmbm_calc_structure_size :: "('d, 'z) bmtd_scheme \<Rightarrow> nat \<Rightarrow> nat" where
  "nmbm_calc_structure_size s sizeof_instance =
     (let n = total_blks s;
          state_table_size = (n + NMBM_BITMAP_BLOCKS_PER_UNIT - 1)
            div NMBM_BITMAP_BLOCKS_PER_UNIT * NMBM_BITMAP_UNIT_SIZE;
          mapping_table_size = n * 4;
          info_table_size = ALIGN sizeof_info_table_header (pg_size s);
          info_table_size = info_table_size + ALIGN state_table_size (pg_size s);
          info_table_size = info_table_size + ALIGN mapping_table_size (pg_size s)
      in info_table_size + state_table_size + mapping_table_size + sizeof_instance)"

text \<open>
  \<open>nmbm_init_structure\<close> on the zeroed allocation. The three arrays are laid out one after the
  other behind the structure; \<open>nmbm_pointers\<close> are their offsets in the allocation.
\<close>

definition nmbm_init_structure :: "'d nmbm \<Rightarrow> 'd nmbm" where
  "nmbm_init_structure s =
     (let pages_per_block = blk_size s div pg_size s;
          blocks_per_chip = total_blks s;
          s = s\<lparr>rawpage_size := pg_size s + mtd_oobsize s\<rparr>;
          s = s\<lparr>rawblock_size := u32_of (int (pages_per_block * rawpage_size s))\<rparr>;
          s = s\<lparr>rawchip_size := u32_of (int (blocks_per_chip * rawblock_size s))\<rparr>;
          s = s\<lparr>block_count := blocks_per_chip\<rparr>;
          s = s\<lparr>state_table_size := (block_count s + NMBM_BITMAP_BLOCKS_PER_UNIT - 1)
                  div NMBM_BITMAP_BLOCKS_PER_UNIT * NMBM_BITMAP_UNIT_SIZE\<rparr>;
          s = s\<lparr>mapping_table_size := block_count s * 4\<rparr>;
          s = s\<lparr>info_table_size := ALIGN sizeof_info_table_header (pg_size s)\<rparr>;
          s = s\<lparr>info_table := (info_table s)\<lparr>it_state_table_off := word_of_nat (info_table_size s)\<rparr>\<rparr>;
          s = s\<lparr>info_table_size := info_table_size s + ALIGN (state_table_size s) (pg_size s)\<rparr>;
          s = s\<lparr>info_table := (info_table s)\<lparr>it_mapping_table_off := word_of_nat (info_table_size s)\<rparr>\<rparr>;
          s = s\<lparr>info_table_size := info_table_size s + ALIGN (mapping_table_size s) (pg_size s)\<rparr>;
          s = s\<lparr>info_table_spare_blocks :=
                  nmbm_get_spare_block_count (size2blk s (info_table_size s))\<rparr>;
          s = s\<lparr>info_table_cache := replicate (info_table_size s) 0\<rparr>;
          s = s\<lparr>block_state := replicate (state_table_size s div 4) (- 1)\<rparr>;
          s = s\<lparr>block_mapping := replicate (mapping_table_size s div 4) 0\<rparr>;
          s = s\<lparr>block_state_changed := 0\<rparr>
      in s\<lparr>block_mapping_changed := 0\<rparr>)"

definition nmbm_pointers :: "'d nmbm \<Rightarrow> nat \<Rightarrow> nat \<times> nat \<times> nat \<times> nat" where
  "nmbm_pointers s sizeof_instance =
     (let info_table_cache_p = sizeof_instance;
          ptr = info_table_cache_p + info_table_size s;
          block_state_p = ptr;
          ptr = ptr + state_table_size s;
          block_mapping_p = ptr;
          ptr = ptr + mapping_table_size s
      in (info_table_cache_p, block_state_p, block_mapping_p, ptr))"

end
