(* ===== verification/Nmbm_Walk.thy ===== *)
theory Nmbm_Walk
  imports Nmbm_State
begin

text \<open>
  Walking over good blocks and building the initial mapping table (\<open>mtk_bmt_nmbm.c\<close>): the two
  walks, their common entry, the reservation of spare blocks, and the factory mapping.
\<close>

section \<open>Walks\<close>

text \<open>
  The inner option is the boolean the C function returns together with \<open>*nba\<close>.
\<close>

function nmbm_walk_asc_loop :: "'d nmbm \<Rightarrow> nat \<Rightarrow> int \<Rightarrow> nat \<Rightarrow> nat option option" where
  "nmbm_walk_asc_loop s ba nblock limit =
     (if ba < limit then do {
        st \<leftarrow> nmbm_get_block_state s ba;
        let nblock = (if st = BLOCK_ST_GOOD then nblock - 1 else nblock);
        if nblock < 0 then Some (Some ba) else nmbm_walk_asc_loop s (Suc ba) nblock limit
      } else Some None)"
  by pat_completeness auto
termination
  by (relation "measure (\<lambda>(s, ba, n, limit). limit - ba)") auto

function nmbm_walk_desc_loop :: "'d nmbm \<Rightarrow> nat \<Rightarrow> int \<Rightarrow> nat \<Rightarrow> nat option option" where
  "nmbm_walk_desc_loop s ba nblock limit =
     (if ba > limit then do {
        st \<leftarrow> nmbm_get_block_state s ba;
        let nblock = (if st = BLOCK_ST_GOOD then nblock - 1 else nblock);
        if nblock < 0 then Some (Some ba) else nmbm_walk_desc_loop s (ba - 1) nblock limit
      } else Some None)"
  by pat_completeness auto
termination
  by (relation "measure (\<lambda>(s, ba, n, limit). ba - limit)") auto

declare nmbm_walk_asc_loop.simps [simp del] nmbm_walk_desc_loop.simps [simp del]

definition nmbm_block_walk_asc :: "'d nmbm \<Rightarrow> nat \<Rightarrow> nat \<Rightarrow> nat \<Rightarrow> nat option option" where
  "nmbm_block_walk_asc s ba count limit =
     (let nblock = s32 (int count);
          limit = (if limit \<ge> block_count s then sub32 (block_count s) 1 else limit)
      in nmbm_walk_asc_loop s ba nblock limit)"

definition nmbm_block_walk_desc :: "'d nmbm \<Rightarrow> nat \<Rightarrow> nat \<Rightarrow> nat \<Rightarrow> nat option option" where
  "nmbm_block_walk_desc s ba count limit =
     (let nblock = s32 (int count);
          limit = (if limit \<ge> block_count s then sub32 (block_count s) 1 else limit)
      in nmbm_walk_desc_loop s ba nblock limit)"

definition nmbm_block_walk :: "'d nmbm \<Rightarrow> bool \<Rightarrow> nat \<Rightarrow> int \<Rightarrow> int \<Rightarrow> nat option option" where
  "nmbm_block_walk s ascending ba count limit =
     (if ascending then nmbm_block_walk_asc s ba (u32_of count) (u32_of limit)
      else nmbm_block_walk_desc s ba (u32_of count) (u32_of limit))"

text \<open>Reserve \<open>count\<close> good blocks, or as many as there are down to \<open>min_count\<close>.\<close>

function nmbm_try_reserve_loop ::
  "'d nmbm \<Rightarrow> nat \<Rightarrow> int \<Rightarrow> int \<Rightarrow> int \<Rightarrow> nat option option" where
  "nmbm_try_reserve_loop s ba nblocks min_count limit =
     (if nblocks \<ge> min_count then do {
        success \<leftarrow> nmbm_block_walk s True ba nblocks limit;
        case success of
          Some nba \<Rightarrow> Some (Some nba)
        | None \<Rightarrow> nmbm_try_reserve_loop s ba (nblocks - 1) min_count limit
      } else Some None)"
  by pat_completeness auto
termination
  by (relation "measure (\<lambda>(s, ba, n, m, l). nat (n - m + 1))") auto

declare nmbm_try_reserve_loop.simps [simp del]

definition nmbm_try_reserve_blocks ::
  "'d nmbm \<Rightarrow> nat \<Rightarrow> nat \<Rightarrow> int \<Rightarrow> int \<Rightarrow> nat option option" where
  "nmbm_try_reserve_blocks s ba count min_count limit =
     nmbm_try_reserve_loop s ba (s32 (int count)) min_count limit"

section \<open>The factory mapping\<close>

function nmbm_build_map_loop :: "'d nmbm \<Rightarrow> nat \<Rightarrow> nat \<Rightarrow> nat \<Rightarrow> (nat \<times> 'd nmbm) option" where
  "nmbm_build_map_loop s pb lb limit =
     (if pb < limit then do {
        st \<leftarrow> nmbm_get_block_state s pb;
        if st = BLOCK_ST_BAD then nmbm_build_map_loop s (Suc pb) lb limit
        else do {
          m \<leftarrow> aset (block_mapping s) lb (word_of_nat pb);
          nmbm_build_map_loop (s\<lparr>block_mapping := m\<rparr>) (Suc pb) (Suc lb) limit
        }
      } else Some (lb, s))"
  by pat_completeness auto
termination
  by (relation "measure (\<lambda>(s, pb, lb, limit). limit - pb)") auto

function nmbm_clear_map_loop :: "'d nmbm \<Rightarrow> nat \<Rightarrow> nat \<Rightarrow> 'd nmbm option" where
  "nmbm_clear_map_loop s pb limit =
     (if pb < limit then do {
        m \<leftarrow> aset (block_mapping s) pb (- 1);
        nmbm_clear_map_loop (s\<lparr>block_mapping := m\<rparr>) (Suc pb) limit
      } else Some s)"
  by pat_completeness auto
termination
  by (relation "measure (\<lambda>(s, pb, limit). limit - pb)") auto

declare nmbm_build_map_loop.simps [simp del] nmbm_clear_map_loop.simps [simp del]

definition nmbm_build_mapping_table :: "'d nmbm \<Rightarrow> 'd nmbm option" where
  "nmbm_build_mapping_table s =
     do {
       (lb, s) \<leftarrow> nmbm_build_map_loop s 0 0 (mgmt_start_ba s);
       let s = s\<lparr>data_block_count := lb\<rparr>;
       nmbm_clear_map_loop s lb (block_count s)
     }"

section \<open>What the walks find\<close>

definition good :: "'d nmbm \<Rightarrow> nat \<Rightarrow> bool" where
  "good s b \<longleftrightarrow> bst (block_state s) b = BLOCK_ST_GOOD"

definition tbl :: "'d nmbm \<Rightarrow> nat \<Rightarrow> bool" where
  "tbl s b \<longleftrightarrow> b div 16 < length (block_state s)"

lemma tbl_mono: "tbl s b \<Longrightarrow> a \<le> b \<Longrightarrow> tbl s a"
  unfolding tbl_def using div_le_mono [of a b 16] by linarith

lemma get_block_state_runs [vcg]:
  "runs (nmbm_get_block_state s b) Q \<longleftrightarrow> tbl s b \<and> Q (bst (block_state s) b)"
  by (simp add: nmbm_get_block_state_eq tbl_def)

text \<open>The number of good blocks from \<open>a\<close> up to, not including, \<open>n\<close>.\<close>

definition ngood :: "'d nmbm \<Rightarrow> nat \<Rightarrow> nat \<Rightarrow> nat" where
  "ngood s a n = length (filter (good s) [a..<n])"

lemma ngood_empty [simp]: "n \<le> a \<Longrightarrow> ngood s a n = 0"
  by (simp add: ngood_def)

lemma ngood_first: "a < n \<Longrightarrow> ngood s a n = (if good s a then 1 else 0) + ngood s (Suc a) n"
  by (simp add: ngood_def upt_conv_Cons)

lemma ngood_last: "a \<le> b \<Longrightarrow> ngood s a (Suc b) = (if good s b then 1 else 0) + ngood s a b"
  by (simp add: ngood_def)

lemma ngood_split: "a \<le> m \<Longrightarrow> m \<le> n \<Longrightarrow> ngood s a n = ngood s a m + ngood s m n"
  using upt_add_eq_append [of a m "n - m"] by (simp add: ngood_def)

text \<open>
  An ascending walk with count \<open>n\<close> stops at a good block with exactly \<open>n\<close> good blocks between
  the start and it, and fails only if the range has no more than \<open>n\<close> good blocks. The descending
  walk is its mirror image.
\<close>

lemma walk_asc_loop_step:
  assumes "ba < limit" "tbl s ba"
  shows "nmbm_walk_asc_loop s ba n limit =
    (if good s ba then if n \<le> 0 then Some (Some ba) else nmbm_walk_asc_loop s (Suc ba) (n - 1) limit
     else if n < 0 then Some (Some ba) else nmbm_walk_asc_loop s (Suc ba) n limit)"
  using assms
  by (subst nmbm_walk_asc_loop.simps)
     (simp add: nmbm_get_block_state_eq tbl_def good_def Let_def)

lemma walk_desc_loop_step:
  assumes "limit < ba" "tbl s ba"
  shows "nmbm_walk_desc_loop s ba n limit =
    (if good s ba then if n \<le> 0 then Some (Some ba) else nmbm_walk_desc_loop s (ba - 1) (n - 1) limit
     else if n < 0 then Some (Some ba) else nmbm_walk_desc_loop s (ba - 1) n limit)"
  using assms
  by (subst nmbm_walk_desc_loop.simps)
     (simp add: nmbm_get_block_state_eq tbl_def good_def Let_def)

lemma walk_asc_loop_spec:
  assumes "0 \<le> n" "limit = 0 \<or> tbl s (limit - 1)"
  shows "runs (nmbm_walk_asc_loop s ba n limit) (\<lambda>r. case r of
      Some nba \<Rightarrow> ba \<le> nba \<and> nba < limit \<and> good s nba \<and> int (ngood s ba nba) = n
    | None \<Rightarrow> int (ngood s ba limit) \<le> n)"
  using assms(1)
proof (induction "limit - ba" arbitrary: ba n)
  case 0
  then show ?case by (subst nmbm_walk_asc_loop.simps) simp
next
  case (Suc k)
  have lt: "ba < limit" and k: "k = limit - Suc ba" using Suc.hyps(2) by auto
  have tb: "tbl s ba" using assms(2) lt by (auto intro: tbl_mono)
  have step: "runs (nmbm_walk_asc_loop s (Suc ba) m limit) (\<lambda>r. case r of
      Some nba \<Rightarrow> ba \<le> nba \<and> nba < limit \<and> good s nba
        \<and> int (ngood s ba nba) = c
    | None \<Rightarrow> int (ngood s ba limit) \<le> c)"
    if "0 \<le> m" "c = m + (if good s ba then 1 else 0)" for m c
    by (rule runs_mono [OF Suc.hyps(1) [OF k that(1)]])
       (auto simp: that(2) ngood_first [OF lt] ngood_first split: option.splits)
  show ?case
  proof (cases "good s ba")
    case True
    then show ?thesis using step [of "n - 1" n] Suc.prems lt
      by (simp add: walk_asc_loop_step [OF lt tb])
  next
    case False
    then show ?thesis using step [of n n] Suc.prems lt
      by (simp add: walk_asc_loop_step [OF lt tb])
  qed
qed

lemma walk_desc_loop_spec:
  assumes "0 \<le> n" "tbl s ba"
  shows "runs (nmbm_walk_desc_loop s ba n limit) (\<lambda>r. case r of
      Some nba \<Rightarrow> nba \<le> ba \<and> limit < nba \<and> good s nba \<and> int (ngood s (Suc nba) (Suc ba)) = n
    | None \<Rightarrow> int (ngood s (Suc limit) (Suc ba)) \<le> n)"
  using assms
proof (induction "ba - limit" arbitrary: ba n)
  case 0
  then show ?case by (subst nmbm_walk_desc_loop.simps) simp
next
  case (Suc k)
  have lt: "limit < ba" and k: "k = ba - 1 - limit" using Suc.hyps(2) by auto
  have tb: "tbl s (ba - 1)" using Suc.prems(2) by (rule tbl_mono) simp
  have sub: "Suc (ba - 1) = ba" using lt by simp
  have step: "runs (nmbm_walk_desc_loop s (ba - 1) m limit) (\<lambda>r. case r of
      Some nba \<Rightarrow> nba \<le> ba \<and> limit < nba \<and> good s nba
        \<and> int (ngood s (Suc nba) (Suc ba)) = c
    | None \<Rightarrow> int (ngood s (Suc limit) (Suc ba)) \<le> c)"
    if "0 \<le> m" "c = m + (if good s ba then 1 else 0)" for m c
    by (rule runs_mono [OF Suc.hyps(1) [OF k that(1) tb]])
       (use lt in \<open>auto simp: that(2) ngood_last sub split: option.splits\<close>)
  show ?case
  proof (cases "good s ba")
    case True
    then show ?thesis using step [of "n - 1" n] Suc.prems lt
      by (simp add: walk_desc_loop_step [OF lt Suc.prems(2)])
  next
    case False
    then show ?thesis using step [of n n] Suc.prems lt
      by (simp add: walk_desc_loop_step [OF lt Suc.prems(2)])
  qed
qed

text \<open>
  The sizes of the two tables of a live instance: one state field and one mapping entry for
  every block of the chip, whose number the descriptor keeps in 16 bits.
\<close>

definition tables :: "'d nmbm \<Rightarrow> bool" where
  "tables s \<longleftrightarrow> 0 < block_count s \<and> block_count s < 65536
     \<and> length (block_state s) = (block_count s + 15) div 16
     \<and> length (block_mapping s) = block_count s"

lemma tables_tbl: "tables s \<Longrightarrow> b < block_count s \<Longrightarrow> tbl s b"
  using div_le_mono [of "b + 16" "block_count s + 15" 16]
  by (simp add: tables_def tbl_def)

text \<open>The limit a walk really uses.\<close>

definition walk_limit :: "'d nmbm \<Rightarrow> int \<Rightarrow> nat" where
  "walk_limit s limit = min (u32_of limit) (block_count s - 1)"

lemma walk_limit_eq:
  assumes "tables s"
  shows "(if u32_of limit \<ge> block_count s then sub32 (block_count s) 1 else u32_of limit)
    = walk_limit s limit"
  using assms by (auto simp: walk_limit_def tables_def)

lemma walk_limit_less: "tables s \<Longrightarrow> walk_limit s limit < block_count s"
  by (auto simp: walk_limit_def tables_def)

lemma block_walk_asc_spec:
  assumes "tables s" "0 \<le> n" "n < 2147483648"
  shows "runs (nmbm_block_walk s True ba n limit) (\<lambda>r. case r of
      Some nba \<Rightarrow> ba \<le> nba \<and> nba < walk_limit s limit \<and> good s nba \<and> ngood s ba nba = nat n
    | None \<Rightarrow> ngood s ba (walk_limit s limit) \<le> nat n)"
proof -
  have "walk_limit s limit = 0 \<or> tbl s (walk_limit s limit - 1)"
    using assms(1) walk_limit_less [OF assms(1), of limit]
    by (auto intro!: tables_tbl less_imp_diff_less)
  from walk_asc_loop_spec [OF assms(2) this, of ba] show ?thesis
    unfolding nmbm_block_walk_def nmbm_block_walk_asc_def Let_def walk_limit_eq [OF assms(1)]
    using assms(2,3) by (auto elim!: runs_mono split: option.splits)
qed

lemma block_walk_desc_spec:
  assumes "tables s" "0 \<le> n" "n < 2147483648" "ba < block_count s"
  shows "runs (nmbm_block_walk s False ba n limit) (\<lambda>r. case r of
      Some nba \<Rightarrow> nba \<le> ba \<and> walk_limit s limit < nba \<and> good s nba
        \<and> ngood s (Suc nba) (Suc ba) = nat n
    | None \<Rightarrow> ngood s (Suc (walk_limit s limit)) (Suc ba) \<le> nat n)"
proof -
  from walk_desc_loop_spec [OF assms(2) tables_tbl [OF assms(1,4)], of "walk_limit s limit"]
  show ?thesis
    unfolding nmbm_block_walk_def nmbm_block_walk_desc_def Let_def walk_limit_eq [OF assms(1)]
    using assms(2,3) by (auto elim!: runs_mono split: option.splits)
qed

text \<open>
  The reservation skips as many good blocks as asked, or all available ones but the last.
\<close>

lemma try_reserve_loop_spec:
  assumes "tables s" "- 1 \<le> n" "n < 2147483648"
  shows "runs (nmbm_try_reserve_loop s ba n 0 limit) (\<lambda>r. case r of
      Some nba \<Rightarrow> ba \<le> nba \<and> nba < walk_limit s limit \<and> good s nba
        \<and> ngood s ba nba = min (nat n) (ngood s ba (walk_limit s limit) - 1)
    | None \<Rightarrow> n = - 1 \<or> ngood s ba (walk_limit s limit) = 0)"
  using assms(2,3)
proof (induction "nat (n + 1)" arbitrary: n)
  case 0
  then show ?case by (subst nmbm_try_reserve_loop.simps) simp
next
  case (Suc k)
  let ?L = "walk_limit s limit"
  have n: "0 \<le> n" using Suc.hyps(2) by simp
  obtain r where r: "nmbm_block_walk s True ba n limit = Some r"
    and spec: "case r of
      Some nba \<Rightarrow> ba \<le> nba \<and> nba < ?L \<and> good s nba \<and> ngood s ba nba = nat n
    | None \<Rightarrow> ngood s ba ?L \<le> nat n"
    using block_walk_asc_spec [OF assms(1) n Suc.prems(2)] by (auto simp: runs_def)
  show ?case
  proof (cases r)
    case (Some nba)
    have "ngood s ba ?L = ngood s ba nba + ngood s nba ?L"
      using spec Some by (intro ngood_split) simp_all
    moreover have "0 < ngood s nba ?L" using spec Some by (simp add: ngood_first)
    ultimately show ?thesis using spec Some r n
      by (subst nmbm_try_reserve_loop.simps) simp
  next
    case None
    have IH: "runs (nmbm_try_reserve_loop s ba (n - 1) 0 limit) (\<lambda>r. case r of
      Some nba \<Rightarrow> ba \<le> nba \<and> nba < ?L \<and> good s nba
        \<and> ngood s ba nba = min (nat (n - 1)) (ngood s ba ?L - 1)
    | None \<Rightarrow> n - 1 = - 1 \<or> ngood s ba ?L = 0)"
      by (rule Suc.hyps(1)) (use Suc.hyps(2) Suc.prems n in simp_all)
    have "nmbm_try_reserve_loop s ba n 0 limit = nmbm_try_reserve_loop s ba (n - 1) 0 limit"
      using None r n by (subst nmbm_try_reserve_loop.simps) simp
    moreover have "ngood s ba ?L \<le> nat n" using spec None by simp
    ultimately show ?thesis
      using n by (simp, intro runs_mono [OF IH]) (auto split: option.splits)
  qed
qed

lemma try_reserve_spec:
  assumes "tables s" "count < 2147483648"
  shows "runs (nmbm_try_reserve_blocks s ba count 0 limit) (\<lambda>r. case r of
      Some nba \<Rightarrow> ba \<le> nba \<and> nba < walk_limit s limit \<and> good s nba
        \<and> ngood s ba nba = min count (ngood s ba (walk_limit s limit) - 1)
    | None \<Rightarrow> ngood s ba (walk_limit s limit) = 0)"
  unfolding nmbm_try_reserve_blocks_def
  using assms(2) try_reserve_loop_spec [OF assms(1), of "int count" ba limit]
  by (auto elim!: runs_mono split: option.splits)

section \<open>What the factory mapping is\<close>

definition not_bad :: "'d nmbm \<Rightarrow> nat \<Rightarrow> bool" where
  "not_bad s b \<longleftrightarrow> bst (block_state s) b \<noteq> BLOCK_ST_BAD"

lemma build_map_loop_eq:
  assumes "limit = 0 \<or> tbl s (limit - 1)" "lb \<le> pb" "limit \<le> length (block_mapping s)"
  shows "nmbm_build_map_loop s pb lb limit =
    (let gs = filter (not_bad s) [pb..<limit]
     in Some (lb + length gs, s\<lparr>block_mapping := take lb (block_mapping s)
          @ map word_of_nat gs @ drop (lb + length gs) (block_mapping s)\<rparr>))"
  using assms
proof (induction "limit - pb" arbitrary: s pb lb)
  case 0
  then show ?case by (subst nmbm_build_map_loop.simps) simp
next
  case (Suc k)
  have lt: "pb < limit" and k: "k = limit - Suc pb" using Suc.hyps(2) by auto
  have tb: "tbl s pb" using Suc.prems(1) lt by (auto intro: tbl_mono)
  have get: "nmbm_get_block_state s pb = Some (bst (block_state s) pb)"
    using tb by (simp add: nmbm_get_block_state_eq tbl_def)
  show ?case
  proof (cases "not_bad s pb")
    case False
    then show ?thesis
      using Suc.hyps(1) [OF k, of s lb] Suc.prems lt get
      by (subst nmbm_build_map_loop.simps) (simp add: not_bad_def upt_conv_Cons Let_def)
  next
    case True
    let ?m = "(block_mapping s)[lb := word_of_nat pb]"
    let ?s = "s\<lparr>block_mapping := ?m\<rparr>"
    have lb: "lb < length (block_mapping s)" using Suc.prems lt by simp
    have nb: "not_bad ?s = not_bad s" by (simp add: not_bad_def fun_eq_iff)
    have split: "take (Suc lb) ?m = take lb (block_mapping s) @ [word_of_nat pb]"
      "drop (Suc lb + j) ?m = drop (Suc lb + j) (block_mapping s)" for j
      using lb by (simp_all add: take_Suc_conv_app_nth)
    show ?thesis
      using Suc.hyps(1) [OF k, of ?s "Suc lb"] Suc.prems lt get True lb
      by (subst nmbm_build_map_loop.simps)
         (simp add: not_bad_def upt_conv_Cons Let_def aset_def tbl_def nb split)
  qed
qed

lemma clear_map_loop_eq:
  assumes "limit \<le> length (block_mapping s)" "pb \<le> limit"
  shows "nmbm_clear_map_loop s pb limit =
    Some (s\<lparr>block_mapping := take pb (block_mapping s) @ replicate (limit - pb) (- 1)
          @ drop limit (block_mapping s)\<rparr>)"
  using assms
proof (induction "limit - pb" arbitrary: s pb)
  case 0
  then show ?case by (subst nmbm_clear_map_loop.simps) simp
next
  case (Suc k)
  have lt: "pb < limit" and k: "k = limit - Suc pb" using Suc.hyps(2) by auto
  let ?m = "(block_mapping s)[pb := - 1]"
  have "take (Suc pb) ?m = take pb (block_mapping s) @ [- 1]"
    using lt Suc.prems by (simp add: take_Suc_conv_app_nth)
  moreover have "limit - pb = Suc (limit - Suc pb)" using lt by simp
  ultimately show ?case
    using Suc.hyps(1) [OF k, of "s\<lparr>block_mapping := ?m\<rparr>"] lt Suc.prems
    by (subst nmbm_clear_map_loop.simps) (simp add: aset_def)
qed

text \<open>
  The factory mapping sends logical block \<open>i\<close> to the \<open>i\<close>-th block below the management area that
  is not bad, maps every such block, and marks the rest of the table unused.
\<close>

lemma build_mapping_table_eq:
  assumes "tables s" "mgmt_start_ba s \<le> block_count s"
  shows "nmbm_build_mapping_table s =
    (let gs = filter (not_bad s) [0..<mgmt_start_ba s]
     in Some (s\<lparr>data_block_count := length gs,
          block_mapping := map word_of_nat gs @ replicate (block_count s - length gs) (- 1)\<rparr>))"
proof -
  let ?gs = "filter (not_bad s) [0..<mgmt_start_ba s]"
  have t: "mgmt_start_ba s = 0 \<or> tbl s (mgmt_start_ba s - 1)"
    using assms by (auto intro!: tables_tbl)
  have len: "length (block_mapping s) = block_count s" using assms(1) by (simp add: tables_def)
  have "length ?gs \<le> length [0..<mgmt_start_ba s]" by (rule length_filter_le)
  then have le: "length ?gs \<le> block_count s" using assms(2) by simp
  have le2: "mgmt_start_ba s \<le> length (block_mapping s)" using len assms(2) by simp
  show ?thesis
    unfolding nmbm_build_mapping_table_def build_map_loop_eq [OF t order.refl le2] Let_def
    using len le by (simp add: clear_map_loop_eq)
qed

end
