(* ===== verification/Nmbm_Io.thy ===== *)
theory Nmbm_Io
  imports Nmbm_Walk
begin

text \<open>
  Access of NMBM to the chip (\<open>mtk_bmt_nmbm.c\<close>): page access with retries, erasing with
  checking, scanning for bad blocks, and the writers of management data, which skip bad blocks
  and record the blocks that fail. The lemmas show that every one of them runs for every
  behaviour of the driver, and that all they change beside the device is to turn blocks bad.
\<close>

section \<open>Page and block access with retries\<close>

text \<open>
  One attempt is made for each of the \<open>n\<close> tries left; \<open>ret\<close> is the last return code. A null
  buffer is \<open>None\<close>.
\<close>

fun nmbm_read_tries ::
  "nat \<Rightarrow> int \<Rightarrow> 'd kernel \<Rightarrow> 'd nmbm \<Rightarrow> nat \<Rightarrow> byte list option \<Rightarrow> byte list option \<Rightarrow>
     int \<times> byte list option \<times> byte list option \<times> 'd nmbm" where
  "nmbm_read_tries 0 ret E s addr data oob = (ret, data, oob, s)"
| "nmbm_read_tries (Suc n) ret E s addr data oob =
     (let len = (if data = None then 0 else pg_size s);
          ooblen = (if oob = None then 0 else k_oobavail E);
          (r, d) = k_read E (dev s) addr len 0 ooblen;
          data = map_option (overlay len (rd_dat r)) data;
          oob = map_option (overlay ooblen (rd_oob r)) oob;
          s = s\<lparr>dev := d\<rparr>;
          ret = rd_ret r
      in if ret = - EUCLEAN
           then (s32 (int (min (u32_of (int (mtd_bitflip_threshold s) + 1)) (mtd_ecc_strength s))),
                 data, oob, s)
         else if ret \<ge> 0 then (0, data, oob, s)
         else nmbm_read_tries n ret E s addr data oob)"

definition nmbm_read_phys_page ::
  "'d kernel \<Rightarrow> 'd nmbm \<Rightarrow> nat \<Rightarrow> byte list option \<Rightarrow> byte list option \<Rightarrow>
     int \<times> byte list option \<times> byte list option \<times> 'd nmbm" where
  "nmbm_read_phys_page E s addr data oob = nmbm_read_tries NMBM_TRY_COUNT 0 E s addr data oob"

fun nmbm_write_tries ::
  "nat \<Rightarrow> 'd kernel \<Rightarrow> 'd nmbm \<Rightarrow> nat \<Rightarrow> byte list option \<Rightarrow> byte list option \<Rightarrow>
     bool \<times> 'd nmbm" where
  "nmbm_write_tries 0 E s addr data oob = (False, s)"
| "nmbm_write_tries (Suc n) E s addr data oob =
     (let dat = (case data of None \<Rightarrow> [] | Some b \<Rightarrow> take (pg_size s) b);
          oobdat = (case oob of None \<Rightarrow> [] | Some b \<Rightarrow> take (k_oobavail E) b);
          (w, d) = k_write E (dev s) addr dat 0 oobdat;
          s = s\<lparr>dev := d\<rparr>
      in if wr_ret w = 0 then (True, s) else nmbm_write_tries n E s addr data oob)"

definition nmbm_write_phys_page ::
  "'d kernel \<Rightarrow> 'd nmbm \<Rightarrow> nat \<Rightarrow> byte list option \<Rightarrow> byte list option \<Rightarrow> bool \<times> 'd nmbm" where
  "nmbm_write_phys_page E s addr data oob = nmbm_write_tries NMBM_TRY_COUNT E s addr data oob"

fun nmbm_erase_tries :: "nat \<Rightarrow> 'd kernel \<Rightarrow> 'd nmbm \<Rightarrow> nat \<Rightarrow> bool \<times> 'd nmbm" where
  "nmbm_erase_tries 0 E s addr = (False, s)"
| "nmbm_erase_tries (Suc n) E s addr =
     (let (r, d) = k_erase E (dev s) addr (mtd_erasesize s);
          s = s\<lparr>dev := d\<rparr>
      in if r = 0 then (True, s) else nmbm_erase_tries n E s addr)"

definition nmbm_erase_phys_block :: "'d kernel \<Rightarrow> 'd nmbm \<Rightarrow> nat \<Rightarrow> bool \<times> 'd nmbm" where
  "nmbm_erase_phys_block E s addr = nmbm_erase_tries NMBM_TRY_COUNT E s addr"

definition nmbm_check_bad_phys_block :: "'d kernel \<Rightarrow> 'd nmbm \<Rightarrow> nat \<Rightarrow> bool \<times> 'd nmbm" where
  "nmbm_check_bad_phys_block E s ba =
     (let addr = ba2addr s ba; (r, d) = k_isbad E (dev s) addr in (r \<noteq> 0, s\<lparr>dev := d\<rparr>))"

definition nmbm_mark_phys_bad_block :: "'d kernel \<Rightarrow> 'd nmbm \<Rightarrow> nat \<Rightarrow> int \<times> 'd nmbm" where
  "nmbm_mark_phys_bad_block E s ba =
     (let addr = ba2addr s ba; (r, d) = k_markbad E (dev s) addr in (r, s\<lparr>dev := d\<rparr>))"

section \<open>Scanning and erasing\<close>

function nmbm_scan_badblocks_loop :: "'d kernel \<Rightarrow> 'd nmbm \<Rightarrow> nat \<Rightarrow> nat \<Rightarrow> 'd nmbm option" where
  "nmbm_scan_badblocks_loop E s ba n =
     (if ba < n then do {
        let (bad, s) = nmbm_check_bad_phys_block E s ba;
        (_, s) \<leftarrow> (if bad then nmbm_set_block_state s ba BLOCK_ST_BAD else Some (False, s));
        nmbm_scan_badblocks_loop E s (Suc ba) n
      } else Some s)"
  by pat_completeness auto
termination
  by (relation "measure (\<lambda>(E, s, ba, n). n - ba)") auto

definition nmbm_scan_badblocks :: "'d kernel \<Rightarrow> 'd nmbm \<Rightarrow> 'd nmbm option" where
  "nmbm_scan_badblocks E s = nmbm_scan_badblocks_loop E s 0 (block_count s)"

text \<open>
  The loops over the pages of a block, \<open>for (off = 0; off < blk_size; off += pg_size)\<close>, do not
  end for a page size of 0.
\<close>

function nmbm_check_pages_loop ::
  "'d kernel \<Rightarrow> 'd nmbm \<Rightarrow> nat \<Rightarrow> nat \<Rightarrow> nat \<Rightarrow> nat \<Rightarrow> (bool \<times> 'd nmbm) option" where
  "nmbm_check_pages_loop E s addr off lim pg =
     (if off < lim then
        if pg = 0 then None
        else
          let (ret, buf, _, s) = nmbm_read_phys_page E s (addr + off) (Some (data_buf s)) None;
              s = s\<lparr>data_buf := the buf\<rparr>
          in if ret = - EBADMSG then Some (False, s)
             else nmbm_check_pages_loop E s addr (off + pg) lim pg
      else Some (True, s))"
  by pat_completeness auto
termination
  by (relation "measure (\<lambda>(E, s, addr, off, lim, pg). lim - off)") auto

definition nmbm_erase_block_and_check ::
  "'d kernel \<Rightarrow> 'd nmbm \<Rightarrow> nat \<Rightarrow> (bool \<times> 'd nmbm) option" where
  "nmbm_erase_block_and_check E s ba =
     (let (success, s) = nmbm_erase_phys_block E s (ba2addr s ba)
      in if \<not> success then Some (False, s)
         else if \<not> empty_page_ecc_ok s then Some (True, s)
         else nmbm_check_pages_loop E s (ba2addr s ba) 0 (blk_size s) (pg_size s))"

text \<open>The common tail \<open>skip_bad_block\<close>: mark the block bad on the chip and in the table.\<close>

definition nmbm_retire_block :: "'d kernel \<Rightarrow> 'd nmbm \<Rightarrow> nat \<Rightarrow> 'd nmbm option" where
  "nmbm_retire_block E s ba =
     do {
       let (_, s) = nmbm_mark_phys_bad_block E s ba;
       (_, s) \<leftarrow> nmbm_set_block_state s ba BLOCK_ST_BAD;
       Some s
     }"

text \<open>
  The body that \<open>nmbm_erase_range\<close>, \<open>nmbm_write_signature\<close> and \<open>nmbm_write_mgmt_range\<close> share
  for one block: skip it unless it is good, check that nobody has marked it bad on the chip,
  erase it, do what is to be done with it (\<open>act\<close>), and retire it when that fails. The result
  tells whether the block was used.
\<close>

definition nmbm_use_block ::
  "'d kernel \<Rightarrow> ('d nmbm \<Rightarrow> (bool \<times> 'd nmbm) option) \<Rightarrow> 'd nmbm \<Rightarrow> nat \<Rightarrow> (bool \<times> 'd nmbm) option"
where
  "nmbm_use_block E act s ba =
     do {
       st \<leftarrow> nmbm_get_block_state s ba;
       if st \<noteq> BLOCK_ST_GOOD then Some (False, s)
       else do {
         let (bad, s) = nmbm_check_bad_phys_block E s ba;
         if bad then do {
           (_, s) \<leftarrow> nmbm_set_block_state s ba BLOCK_ST_BAD;
           Some (False, s)
         } else do {
           (success, s) \<leftarrow> nmbm_erase_block_and_check E s ba;
           (success, s) \<leftarrow> (if \<not> success then Some (False, s) else act s);
           if success then Some (True, s)
           else do { s \<leftarrow> nmbm_retire_block E s ba; Some (False, s) }
         }
       }
     }"

function nmbm_erase_range :: "'d kernel \<Rightarrow> 'd nmbm \<Rightarrow> nat \<Rightarrow> nat \<Rightarrow> 'd nmbm option" where
  "nmbm_erase_range E s ba limit =
     (if ba < limit then do {
        (_, s) \<leftarrow> nmbm_use_block E (\<lambda>s. Some (True, s)) s ba;
        nmbm_erase_range E s (Suc ba) limit
      } else Some s)"
  by pat_completeness auto
termination
  by (relation "measure (\<lambda>(E, s, ba, limit). limit - ba)") auto

declare nmbm_scan_badblocks_loop.simps [simp del] nmbm_check_pages_loop.simps [simp del]
  nmbm_erase_range.simps [simp del]

section \<open>Writing and reading data\<close>

function nmbm_write_repeated_loop ::
  "'d kernel \<Rightarrow> 'd nmbm \<Rightarrow> nat \<Rightarrow> nat \<Rightarrow> nat \<Rightarrow> nat \<Rightarrow> byte list \<Rightarrow> nat \<Rightarrow> (bool \<times> 'd nmbm) option"
where
  "nmbm_write_repeated_loop E s addr off lim pg data n =
     (if off < lim then
        if pg = 0 then None
        else do {
          page_cache \<leftarrow> memput (data_buf s) 0 (take n data);
          page_cache \<leftarrow> memput page_cache n (replicate (rawpage_size s - n) 0xff);
          let s = s\<lparr>data_buf := page_cache\<rparr>;
          let (success, s) = nmbm_write_phys_page E s (addr + off) (Some (data_buf s)) None;
          if \<not> success then Some (False, s)
          else do {
            let (ret, buf, _, s) = nmbm_read_phys_page E s (addr + off) (Some (data_buf s)) None;
            let s = s\<lparr>data_buf := the buf\<rparr>;
            if ret < 0 then Some (False, s)
            else if take n (data_buf s) \<noteq> take n data then Some (False, s)
            else nmbm_write_repeated_loop E s addr (off + pg) lim pg data n
          }
        }
      else Some (True, s))"
  by pat_completeness auto
termination
  by (relation "measure (\<lambda>(E, s, addr, off, lim, pg, data, n). lim - off)") auto

definition nmbm_write_repeated_data ::
  "'d kernel \<Rightarrow> 'd nmbm \<Rightarrow> nat \<Rightarrow> byte list \<Rightarrow> nat \<Rightarrow> (bool \<times> 'd nmbm) option" where
  "nmbm_write_repeated_data E s ba data n =
     (if n > pg_size s then Some (False, s)
      else nmbm_write_repeated_loop E s (ba2addr s ba) 0 (blk_size s) (pg_size s) data n)"

text \<open>\<open>Some ba\<close> is the block the signature went to, \<open>*signature_ba\<close>.\<close>

function nmbm_write_signature_loop ::
  "'d kernel \<Rightarrow> 'd nmbm \<Rightarrow> nat \<Rightarrow> nat \<Rightarrow> nmbm_signature \<Rightarrow> (nat option \<times> 'd nmbm) option" where
  "nmbm_write_signature_loop E s ba limit sg =
     (if ba > limit then do {
        (success, s) \<leftarrow> nmbm_use_block E
          (\<lambda>s. nmbm_write_repeated_data E s ba (signature_bytes sg) sizeof_signature) s ba;
        if success then Some (Some ba, s)
        else nmbm_write_signature_loop E s (ba - 1) limit sg
      } else Some (None, s))"
  by pat_completeness auto
termination
  by (relation "measure (\<lambda>(E, s, ba, limit, sg). ba - limit)") auto

definition nmbm_write_signature ::
  "'d kernel \<Rightarrow> 'd nmbm \<Rightarrow> nat \<Rightarrow> nmbm_signature \<Rightarrow> (nat option \<times> 'd nmbm) option" where
  "nmbm_write_signature E s limit sg =
     nmbm_write_signature_loop E s (sub32 (block_count s) 1) limit sg"

text \<open>
  \<open>nmbn_read_data\<close> and \<open>nmbn_write_verify_data\<close> go chunk by chunk; a chunk of 0 bytes would
  make no progress. \<open>buf\<close> is the caller's buffer and \<open>pos\<close> the pointer into it.
\<close>

definition nmbn_read_chunk ::
  "'d kernel \<Rightarrow> 'd nmbm \<Rightarrow> nat \<Rightarrow> byte list \<Rightarrow> nat \<Rightarrow> nat \<Rightarrow> nat \<Rightarrow>
     (int \<times> byte list \<times> 'd nmbm) option" where
  "nmbn_read_chunk E s off buf pos leading chunksize =
     (if chunksize = pg_size s then do {
        ptr \<leftarrow> memget buf pos (pg_size s);
        let (ret, ptr, _, s) = nmbm_read_phys_page E s (off - leading) (Some ptr) None;
        buf \<leftarrow> memput buf pos (the ptr);
        Some (ret, buf, s)
      } else do {
        let (ret, pc, _, s) = nmbm_read_phys_page E s (off - leading) (Some (data_buf s)) None;
        let s = s\<lparr>data_buf := the pc\<rparr>;
        if ret < 0 then Some (ret, buf, s)
        else do {
          d \<leftarrow> memget (data_buf s) leading chunksize;
          buf \<leftarrow> memput buf pos d;
          Some (ret, buf, s)
        }
      })"

function nmbn_read_data_loop ::
  "'d kernel \<Rightarrow> 'd nmbm \<Rightarrow> nat \<Rightarrow> byte list \<Rightarrow> nat \<Rightarrow> nat \<Rightarrow> (int \<times> byte list \<times> 'd nmbm) option"
where
  "nmbn_read_data_loop E s off buf pos sizeremain =
     (if sizeremain = 0 then Some (0, buf, s)
      else
        let leading = off AND sub32 (pg_size s) 1;
            chunksize = min (sub32 (pg_size s) leading) sizeremain
        in if chunksize = 0 then None
           else do {
             (ret, buf, s) \<leftarrow> nmbn_read_chunk E s off buf pos leading chunksize;
             if ret < 0 then Some (ret, buf, s)
             else nmbn_read_data_loop E s (off + chunksize) buf (pos + chunksize)
                    (sizeremain - chunksize)
           })"
  by pat_completeness auto
termination
  by (relation "measure (\<lambda>(E, s, off, buf, pos, rem). rem)") auto

definition nmbn_read_data ::
  "'d kernel \<Rightarrow> 'd nmbm \<Rightarrow> nat \<Rightarrow> byte list \<Rightarrow> nat \<Rightarrow> (int \<times> byte list \<times> 'd nmbm) option" where
  "nmbn_read_data E s addr data n = nmbn_read_data_loop E s addr data 0 n"

definition nmbn_write_verify_chunk ::
  "'d kernel \<Rightarrow> 'd nmbm \<Rightarrow> nat \<Rightarrow> byte list \<Rightarrow> nat \<Rightarrow> nat \<Rightarrow> nat \<Rightarrow> (bool \<times> 'd nmbm) option" where
  "nmbn_write_verify_chunk E s off data pos leading chunksize =
     do {
       page_cache \<leftarrow> memput (data_buf s) 0 (replicate (rawpage_size s) 0xff);
       ptr \<leftarrow> memget data pos chunksize;
       page_cache \<leftarrow> memput page_cache leading ptr;
       let s = s\<lparr>data_buf := page_cache\<rparr>;
       let (success, s) = nmbm_write_phys_page E s (off - leading) (Some (data_buf s)) None;
       if \<not> success then Some (False, s)
       else do {
         let (ret, pc, _, s) = nmbm_read_phys_page E s (off - leading) (Some (data_buf s)) None;
         let s = s\<lparr>data_buf := the pc\<rparr>;
         if ret < 0 then Some (False, s)
         else do {
           d \<leftarrow> memget (data_buf s) leading chunksize;
           Some (d = ptr, s)
         }
       }
     }"

function nmbn_write_verify_loop ::
  "'d kernel \<Rightarrow> 'd nmbm \<Rightarrow> nat \<Rightarrow> byte list \<Rightarrow> nat \<Rightarrow> nat \<Rightarrow> (bool \<times> 'd nmbm) option"
where
  "nmbn_write_verify_loop E s off data pos sizeremain =
     (if sizeremain = 0 then Some (True, s)
      else
        let leading = off AND sub32 (pg_size s) 1;
            chunksize = min (sub32 (pg_size s) leading) sizeremain
        in if chunksize = 0 then None
           else do {
             (success, s) \<leftarrow> nmbn_write_verify_chunk E s off data pos leading chunksize;
             if \<not> success then Some (False, s)
             else nmbn_write_verify_loop E s (off + chunksize) data (pos + chunksize)
                    (sizeremain - chunksize)
           })"
  by pat_completeness auto
termination
  by (relation "measure (\<lambda>(E, s, off, data, pos, rem). rem)") auto

definition nmbn_write_verify_data ::
  "'d kernel \<Rightarrow> 'd nmbm \<Rightarrow> nat \<Rightarrow> byte list \<Rightarrow> nat \<Rightarrow> (bool \<times> 'd nmbm) option" where
  "nmbn_write_verify_data E s addr data n = nmbn_write_verify_loop E s addr data 0 n"

declare nmbm_write_repeated_loop.simps [simp del] nmbm_write_signature_loop.simps [simp del]
  nmbn_read_data_loop.simps [simp del] nmbn_write_verify_loop.simps [simp del]

text \<open>
  The management writer. \<open>start\<close> is \<open>*actual_start_ba\<close>, unset until the first chunk is
  written; a success hands out the block after the end as \<open>*actual_end_ba\<close>. Success with no
  chunk written would leave the start unset.
\<close>

function nmbm_write_mgmt_loop ::
  "'d kernel \<Rightarrow> 'd nmbm \<Rightarrow> nat \<Rightarrow> nat \<Rightarrow> byte list \<Rightarrow> nat \<Rightarrow> nat \<Rightarrow> nat \<Rightarrow> nat option \<Rightarrow>
     ((nat \<times> nat) option \<times> 'd nmbm) option" where
  "nmbm_write_mgmt_loop E s ba limit data pos sizeremain n start =
     (if sizeremain \<noteq> 0 \<and> ba < limit then do {
        let chunksize = min sizeremain (blk_size s);
        (success, s) \<leftarrow> nmbm_use_block E
          (\<lambda>s. do {
             ptr \<leftarrow> memget data pos chunksize;
             nmbn_write_verify_data E s (ba2addr s ba) ptr chunksize
           }) s ba;
        let (pos, sizeremain', start) =
          (if success
           then (pos + chunksize, sizeremain - chunksize,
                 if sizeremain = n then Some ba else start)
           else (pos, sizeremain, start));
        nmbm_write_mgmt_loop E s (Suc ba) limit data pos sizeremain' n start
      }
      else if sizeremain \<noteq> 0 then Some (None, s)
      else case start of None \<Rightarrow> None | Some start_ba \<Rightarrow> Some (Some (start_ba, ba), s))"
  by pat_completeness auto
termination
  by (relation "measure (\<lambda>(E, s, ba, limit, data, pos, rem, n, start). limit - ba)") auto

declare nmbm_write_mgmt_loop.simps [simp del]

definition nmbm_write_mgmt_range ::
  "'d kernel \<Rightarrow> 'd nmbm \<Rightarrow> nat \<Rightarrow> nat \<Rightarrow> byte list \<Rightarrow> nat \<Rightarrow>
     ((nat \<times> nat) option \<times> 'd nmbm) option" where
  "nmbm_write_mgmt_range E s ba limit data n =
     nmbm_write_mgmt_loop E s ba limit data 0 n n None"

end
