(* ===== verification/Nmbm_Frame.thy ===== *)
theory Nmbm_Frame
  imports Nmbm_Io
begin

text \<open>
  What NMBM's access to the chip does to the instance: every routine of \<open>Nmbm_Io\<close> runs for every
  answer of the driver, and all it changes beside the device and the page buffer is to turn
  blocks of its range bad. The management writer uses exactly the good blocks of its range.
\<close>

section \<open>Degradation\<close>

text \<open>
  \<open>nnb\<close> counts the blocks of a table that are not bad. A table degrades to another when blocks
  have only turned bad, and a state degrades to another when nothing else than that, the
  device, and the contents of the page buffer has changed, and the change counter has counted
  exactly the blocks that turned bad.
\<close>

definition nnb :: "u32 list \<Rightarrow> nat" where
  "nnb bs = length (filter (\<lambda>b. bst bs b \<noteq> BLOCK_ST_BAD) [0..<16 * length bs])"

definition degrade :: "u32 list \<Rightarrow> u32 list \<Rightarrow> bool" where
  "degrade bs cs \<longleftrightarrow> length cs = length bs \<and> nnb cs \<le> nnb bs
     \<and> (\<forall>b. bst cs b = bst bs b \<or> bst cs b = BLOCK_ST_BAD)"

definition degrades :: "'d nmbm \<Rightarrow> 'd nmbm \<Rightarrow> bool" where
  "degrades s t \<longleftrightarrow> (\<exists>d b bs c.
     t = s\<lparr>dev := d, data_buf := b, block_state := bs, block_state_changed := c\<rparr>
     \<and> length b = length (data_buf s) \<and> degrade (block_state s) bs
     \<and> c = block_state_changed s + word_of_nat (nnb (block_state s) - nnb bs))"

lemma degrade_refl [simp]: "degrade bs bs"
  by (simp add: degrade_def)

lemma degrade_trans: "degrade a b \<Longrightarrow> degrade b c \<Longrightarrow> degrade a c"
  unfolding degrade_def by (metis order_trans)

lemma degradesE:
  assumes "degrades s t"
  obtains d b bs where
    "t = s\<lparr>dev := d, data_buf := b, block_state := bs,
         block_state_changed := block_state_changed s + word_of_nat (nnb (block_state s) - nnb bs)\<rparr>"
    "length b = length (data_buf s)" "degrade (block_state s) bs"
  using assms unfolding degrades_def by blast

lemma degradesI:
  "t = s\<lparr>dev := d, data_buf := b, block_state := bs,
         block_state_changed := block_state_changed s + word_of_nat (nnb (block_state s) - nnb bs)\<rparr>
   \<Longrightarrow> length b = length (data_buf s) \<Longrightarrow> degrade (block_state s) bs \<Longrightarrow> degrades s t"
  unfolding degrades_def by blast

lemma degrades_refl [simp, intro]: "degrades s s"
  by (rule degradesI [where d = "dev s" and b = "data_buf s" and bs = "block_state s"]) simp_all

lemma degrades_io [intro]:
  "length b = length (data_buf s) \<Longrightarrow> degrades s (s\<lparr>dev := d, data_buf := b\<rparr>)"
  by (rule degradesI [where d = d and b = b and bs = "block_state s"]) simp_all

lemma degrades_dev [simp, intro]: "degrades s (s\<lparr>dev := d\<rparr>)"
  using degrades_io [of "data_buf s" s d] by simp

lemma degrades_trans [trans]:
  assumes "degrades s t" "degrades t u"
  shows "degrades s u"
proof -
  obtain d b bs where t: "t = s\<lparr>dev := d, data_buf := b, block_state := bs,
         block_state_changed := block_state_changed s + word_of_nat (nnb (block_state s) - nnb bs)\<rparr>"
    "length b = length (data_buf s)" "degrade (block_state s) bs"
    using assms(1) by (rule degradesE)
  obtain d' b' bs' where u: "u = t\<lparr>dev := d', data_buf := b', block_state := bs',
         block_state_changed := block_state_changed t + word_of_nat (nnb (block_state t) - nnb bs')\<rparr>"
    "length b' = length (data_buf t)" "degrade (block_state t) bs'"
    using assms(2) by (rule degradesE)
  have le: "nnb bs' \<le> nnb bs" "nnb bs \<le> nnb (block_state s)"
    using t u by (simp_all add: degrade_def)
  have "(word_of_nat (nnb (block_state s) - nnb bs) + word_of_nat (nnb bs - nnb bs') :: u32)
      = word_of_nat (nnb (block_state s) - nnb bs')"
    using le by (simp only: of_nat_add [symmetric]) simp
  then show ?thesis
    using t u le degrade_trans [of "block_state s" bs bs']
    by (intro degradesI [where d = d' and b = b' and bs = bs']) (simp_all add: add.assoc)
qed

lemma nnb_bset:
  assumes "ba div 16 < length bs"
  shows "nnb bs = nnb (bset bs ba 0) + (if bst bs ba \<noteq> 0 then 1 else 0)"
proof -
  have ba: "ba < 16 * length bs"
    using assms div_less_iff_less_mult [of 16 ba "length bs"] by (simp add: mult.commute)
  then have split: "[0..<16 * length bs] = [0..<ba] @ ba # [Suc ba..<16 * length bs]"
    by (metis le_add1 le_add_same_cancel1 less_imp_le upt_add_eq_append upt_conv_Cons
        ordered_cancel_comm_monoid_diff_class.add_diff_inverse)
  have "filter (\<lambda>b. bst (bset bs ba 0) b \<noteq> 0) xs = filter (\<lambda>b. bst bs b \<noteq> 0) xs"
    if "ba \<notin> set xs" for xs
    by (intro filter_cong refl) (metis bst_bset_other that)
  then show ?thesis using assms
    unfolding nnb_def length_bset split by (simp add: bst_bset_same)
qed

lemma degrade_bset:
  assumes "ba div 16 < length bs"
  shows "degrade bs (bset bs ba 0)"
proof -
  have "bst (bset bs ba 0) b = bst bs b \<or> bst (bset bs ba 0) b = 0" for b
    using assms by (cases "b = ba") (simp_all add: bst_bset_same bst_bset_other)
  then show ?thesis using nnb_bset [OF assms] by (simp add: degrade_def split: if_splits)
qed

definition untouched :: "nat set \<Rightarrow> 'd nmbm \<Rightarrow> 'd nmbm \<Rightarrow> bool" where
  "untouched A s t \<longleftrightarrow> (\<forall>b. b \<notin> A \<longrightarrow> bst (block_state t) b = bst (block_state s) b)"

lemma untouched_refl [simp]: "untouched A s s"
  by (simp add: untouched_def)

lemma untouched_dev_left [simp]: "untouched A (s\<lparr>dev := d\<rparr>) t = untouched A s t"
  by (simp add: untouched_def)

lemma untouched_trans: "untouched A s t \<Longrightarrow> untouched B t u \<Longrightarrow> untouched (A \<union> B) s u"
  by (auto simp: untouched_def)

lemma untouched_mono: "untouched A s t \<Longrightarrow> A \<subseteq> B \<Longrightarrow> untouched B s t"
  by (auto simp: untouched_def)

lemma untouched_good: "untouched A s t \<Longrightarrow> b \<notin> A \<Longrightarrow> good t b = good s b"
  by (simp add: untouched_def good_def)

lemma untouched_ngood:
  "untouched A s t \<Longrightarrow> A \<inter> {a..<n} = {} \<Longrightarrow> ngood t a n = ngood s a n"
  unfolding ngood_def by (intro arg_cong [of _ _ length] filter_cong refl untouched_good) auto

text \<open>
  The geometry the descriptor has once the manager is attached, and an instance whose tables
  have the right sizes.
\<close>

definition geom :: "('d, 'z) bmtd_scheme \<Rightarrow> bool" where
  "geom s \<longleftrightarrow> pg_size s = 2 ^ pg_shift s \<and> blk_size s = 2 ^ blk_shift s
     \<and> pg_shift s \<le> blk_shift s \<and> blk_shift s < 31 \<and> mtd_erasesize s = blk_size s
     \<and> length (data_buf s) = pg_size s + mtd_oobsize s"

definition ok :: "'d nmbm \<Rightarrow> bool" where
  "ok s \<longleftrightarrow> geom s \<and> tables s \<and> rawpage_size s = pg_size s + mtd_oobsize s"

lemma degrades_ok: "degrades s t \<Longrightarrow> ok t = ok s"
  by (auto elim!: degradesE simp: ok_def geom_def tables_def degrade_def)

lemma degrades_tbl: "degrades s t \<Longrightarrow> tbl t b = tbl s b"
  by (auto elim!: degradesE simp: tbl_def degrade_def)

lemma degrades_good: "degrades s t \<Longrightarrow> good t b \<Longrightarrow> good s b"
proof (elim degradesE)
  fix d ba bs
  assume g: "good t b" and bs: "degrade (block_state s) bs"
    and t: "t = s\<lparr>dev := d, data_buf := ba, block_state := bs,
       block_state_changed := block_state_changed s + word_of_nat (nnb (block_state s) - nnb bs)\<rparr>"
  have "bst bs b = 3" using g by (simp add: good_def t)
  moreover have "bst bs b = bst (block_state s) b \<or> bst bs b = 0"
    using bs by (simp add: degrade_def)
  ultimately show "good s b" by (auto simp: good_def)
qed

lemma degrades_fields:
  assumes "degrades s t"
  shows "pg_size t = pg_size s" "blk_size t = blk_size s" "blk_shift t = blk_shift s"
    "block_count t = block_count s" "block_mapping t = block_mapping s"
    "info_table_cache t = info_table_cache s" "info_table_size t = info_table_size s"
    "ba2addr t = ba2addr s" "size2blk t = size2blk s"
  using assms by (auto elim!: degradesE simp: ba2addr_def size2blk_def fun_eq_iff)

lemma io_only_eq: "io_only s t \<Longrightarrow> t = s\<lparr>dev := dev t, data_buf := data_buf t\<rparr>"
  by (simp add: io_only_def)

lemma io_only_degrades: "io_only s t \<Longrightarrow> degrades s t \<and> block_state t = block_state s"
proof
  assume a: "io_only s t"
  then have t: "t = s\<lparr>dev := dev t, data_buf := data_buf t\<rparr>"
    and l: "length (data_buf t) = length (data_buf s)"
    by (simp_all add: io_only_def)
  show "degrades s t" by (subst t) (rule degrades_io [OF l])
  show "block_state t = block_state s" by (subst t) simp
qed

lemma io_only_untouched: "io_only s t \<Longrightarrow> untouched {} s t"
  by (simp add: untouched_def io_only_degrades)

lemma set_bad_spec:
  assumes "tbl s ba"
  shows "runs (nmbm_set_block_state s ba BLOCK_ST_BAD) (\<lambda>(r, t). degrades s t
    \<and> untouched {ba} s t \<and> bst (block_state t) ba = BLOCK_ST_BAD \<and> \<not> good t ba \<and> r = not_bad s ba)"
proof -
  have b: "ba div 16 < length (block_state s)" using assms by (simp add: tbl_def)
  have "degrades s (s\<lparr>block_state := bset (block_state s) ba 0, block_state_changed :=
      (if bst (block_state s) ba \<noteq> 0 then block_state_changed s + 1 else block_state_changed s)\<rparr>)"
    using nnb_bset [OF b]
    by (intro degradesI [where d = "dev s" and b = "data_buf s" and bs = "bset (block_state s) ba 0"])
       (simp_all add: degrade_bset [OF b])
  then show ?thesis
    using b
    by (simp add: nmbm_set_block_state_eq bst_bset_same bst_bset_other not_bad_def good_def
        untouched_def)
qed

section \<open>Primitive accesses\<close>

lemma read_tries_cases:
  "\<exists>r x d. nmbm_read_tries n ret E s addr (Some b) None = (r, Some x, None, s\<lparr>dev := d\<rparr>)
     \<and> length x = length b"
proof (induction n arbitrary: ret s b)
  case 0
  show ?case by (auto intro!: exI [of _ "dev s"])
next
  case (Suc n)
  let ?o = "k_read E (dev s) addr (pg_size s) 0 0"
  let ?b = "overlay (pg_size s) (rd_dat (fst ?o)) b"
  obtain r x d where IH: "nmbm_read_tries n (rd_ret (fst ?o)) E (s\<lparr>dev := snd ?o\<rparr>) addr (Some ?b) None
      = (r, Some x, None, s\<lparr>dev := d\<rparr>)" "length x = length b"
    using Suc.IH [of "rd_ret (fst ?o)" "s\<lparr>dev := snd ?o\<rparr>" ?b] by auto
  show ?case
    using IH by (simp add: case_prod_beta Let_def) blast
qed

lemma read_phys_pageE:
  obtains r x d where
    "nmbm_read_phys_page E s addr (Some b) None = (r, Some x, None, s\<lparr>dev := d\<rparr>)"
    "length x = length b"
  using read_tries_cases [of 3 0 E s addr b] unfolding nmbm_read_phys_page_def by blast

lemma write_tries_cases: "\<exists>r d. nmbm_write_tries n E s addr dat oob = (r, s\<lparr>dev := d\<rparr>)"
proof (induction n arbitrary: s)
  case 0
  show ?case by (auto intro!: exI [of _ "dev s"])
next
  case (Suc n)
  have "\<exists>r d'. nmbm_write_tries n E (s\<lparr>dev := d\<rparr>) addr dat oob = (r, s\<lparr>dev := d'\<rparr>)" for d
    using Suc.IH [of "s\<lparr>dev := d\<rparr>"] by simp
  then show ?case by (auto simp: case_prod_beta Let_def)
qed

lemma write_phys_pageE:
  obtains r d where "nmbm_write_phys_page E s addr dat oob = (r, s\<lparr>dev := d\<rparr>)"
  using write_tries_cases [of 3 E s addr dat oob] unfolding nmbm_write_phys_page_def by blast

lemma erase_tries_cases: "\<exists>r d. nmbm_erase_tries n E s addr = (r, s\<lparr>dev := d\<rparr>)"
proof (induction n arbitrary: s)
  case 0
  show ?case by (auto intro!: exI [of _ "dev s"])
next
  case (Suc n)
  have "\<exists>r d'. nmbm_erase_tries n E (s\<lparr>dev := d\<rparr>) addr = (r, s\<lparr>dev := d'\<rparr>)" for d
    using Suc.IH [of "s\<lparr>dev := d\<rparr>"] by simp
  then show ?case by (auto simp: case_prod_beta Let_def)
qed

lemma erase_phys_blockE:
  obtains r d where "nmbm_erase_phys_block E s addr = (r, s\<lparr>dev := d\<rparr>)"
  using erase_tries_cases [of 3 E s addr] unfolding nmbm_erase_phys_block_def by blast

lemma check_bad_phys_blockE:
  obtains r d where "nmbm_check_bad_phys_block E s ba = (r, s\<lparr>dev := d\<rparr>)"
  by (simp add: nmbm_check_bad_phys_block_def case_prod_beta Let_def)

lemma mark_phys_bad_blockE:
  obtains r d where "nmbm_mark_phys_bad_block E s ba = (r, s\<lparr>dev := d\<rparr>)"
  by (simp add: nmbm_mark_phys_bad_block_def case_prod_beta Let_def)

section \<open>Blocks\<close>

lemma check_pages_loop_spec:
  assumes "0 < pg"
  shows "runs (nmbm_check_pages_loop E s addr off lim pg) (\<lambda>(r, t). io_only s t)"
proof (induction "lim - off" arbitrary: s off rule: less_induct)
  case less
  show ?case
  proof (cases "off < lim")
    case False
    then show ?thesis by (subst nmbm_check_pages_loop.simps) simp
  next
    case True
    obtain r x d where rd: "nmbm_read_phys_page E s (addr + off) (Some (data_buf s)) None
        = (r, Some x, None, s\<lparr>dev := d\<rparr>)" "length x = length (data_buf s)"
      by (rule read_phys_pageE)
    have "lim - (off + pg) < lim - off" using True assms by simp
    moreover have "io_only (s\<lparr>dev := d, data_buf := x\<rparr>) t = io_only s t" for t
      using rd(2) by simp
    ultimately show ?thesis using less [of "off + pg" "s\<lparr>dev := d, data_buf := x\<rparr>"] rd True assms
      by (subst nmbm_check_pages_loop.simps) (auto simp: Let_def elim!: runs_mono)
  qed
qed

lemma geom_pg: "geom s \<Longrightarrow> 0 < pg_size s"
  by (simp add: geom_def)

lemma erase_block_and_check_spec:
  assumes "geom s"
  shows "runs (nmbm_erase_block_and_check E s ba) (\<lambda>(r, t). io_only s t)"
proof -
  obtain r d where er: "nmbm_erase_phys_block E s (ba2addr s ba) = (r, s\<lparr>dev := d\<rparr>)"
    by (rule erase_phys_blockE)
  show ?thesis
    unfolding nmbm_erase_block_and_check_def er
    using check_pages_loop_spec [OF geom_pg [OF assms], of E "s\<lparr>dev := d\<rparr>" "ba2addr s ba" 0 "blk_size s"]
    by (simp add: ba2addr_def)
qed

lemma retire_block_spec:
  assumes "tbl s ba"
  shows "runs (nmbm_retire_block E s ba) (\<lambda>t. degrades s t \<and> untouched {ba} s t \<and> \<not> good t ba)"
proof -
  obtain r d where mk: "nmbm_mark_phys_bad_block E s ba = (r, s\<lparr>dev := d\<rparr>)"
    by (rule mark_phys_bad_blockE)
  show ?thesis
    unfolding nmbm_retire_block_def mk
    using set_bad_spec [of "s\<lparr>dev := d\<rparr>" ba] assms
    by (auto simp: vcg tbl_def elim!: runs_mono dest: degrades_trans [OF degrades_dev])
qed

text \<open>
  A block that is worked on is good afterwards exactly when the work on it has succeeded; no
  other block's state changes.
\<close>

lemma use_block_spec:
  assumes "geom s" "tbl s ba"
    and act: "\<And>t. io_only s t \<Longrightarrow> runs (act t) (\<lambda>(r, u). io_only t u \<and> (r \<longrightarrow> Q u))"
  shows "runs (nmbm_use_block E act s ba) (\<lambda>(r, t). degrades s t \<and> untouched {ba} s t
    \<and> r = good t ba \<and> (r \<longrightarrow> Q t))"
proof -
  have bad: "runs (Option.bind (nmbm_set_block_state (s\<lparr>dev := d\<rparr>) ba 0) (\<lambda>(_, s). Some (False, s)))
      (\<lambda>(r, t). degrades s t \<and> untouched {ba} s t \<and> r = good t ba \<and> (r \<longrightarrow> Q t))" for d
    using set_bad_spec [of "s\<lparr>dev := d\<rparr>" ba] assms(2)
    by (auto simp: vcg tbl_def elim!: runs_mono dest: degrades_trans [OF degrades_dev])
  have ret: "runs (Option.bind (nmbm_retire_block E t ba) (\<lambda>s. Some (False, s)))
      (\<lambda>(r, u). degrades s u \<and> untouched {ba} s u \<and> r = good u ba \<and> (r \<longrightarrow> Q u))"
    if io: "io_only s t" for t
  proof -
    have dg: "degrades s t" using io_only_degrades [OF io] by simp
    have tb: "tbl t ba" using degrades_tbl [OF dg] assms(2) by simp
    show ?thesis
      unfolding runs_bind
      by (rule runs_mono [OF retire_block_spec [OF tb]])
         (auto intro: degrades_trans [OF dg]
           dest: untouched_trans [OF io_only_untouched [OF io]])
  qed
  have used: "degrades s t \<and> untouched {ba} s t \<and> good t ba" if "io_only s t" "good s ba" for t
    using io_only_degrades [OF that(1)] io_only_untouched [OF that(1)] that(2)
    by (auto intro: untouched_mono simp: good_def)
  obtain r d where ck: "nmbm_check_bad_phys_block E s ba = (r, s\<lparr>dev := d\<rparr>)"
    by (rule check_bad_phys_blockE)
  have gd: "geom (s\<lparr>dev := d\<rparr>)" using assms(1) by (simp add: geom_def)
  have main: "runs (Option.bind (nmbm_erase_block_and_check E (s\<lparr>dev := d\<rparr>) ba) (\<lambda>(success, s).
      Option.bind (if \<not> success then Some (False, s) else act s) (\<lambda>(success, s).
        if success then Some (True, s)
        else Option.bind (nmbm_retire_block E s ba) (\<lambda>s. Some (False, s)))))
      (\<lambda>(r, t). degrades s t \<and> untouched {ba} s t \<and> r = good t ba \<and> (r \<longrightarrow> Q t))"
    if "good s ba"
  proof (subst runs_bind, rule runs_mono [OF erase_block_and_check_spec [OF gd]])
    fix x :: "bool \<times> 'a nmbm"
    assume "case x of (r, t) \<Rightarrow> io_only (s\<lparr>dev := d\<rparr>) t"
    then obtain a b where x: "x = (a, b)" and io: "io_only s b" by (cases x) simp
    show "runs (case x of (success, s) \<Rightarrow>
        Option.bind (if \<not> success then Some (False, s) else act s) (\<lambda>(success, s).
        if success then Some (True, s)
        else Option.bind (nmbm_retire_block E s ba) (\<lambda>s. Some (False, s))))
      (\<lambda>(r, t). degrades s t \<and> untouched {ba} s t \<and> r = good t ba \<and> (r \<longrightarrow> Q t))"
    proof (cases a)
      case False
      then show ?thesis using ret [OF io] by (simp add: x)
    next
      case True
      have "runs (act b) (\<lambda>x. runs (case x of (success, s) \<Rightarrow>
          if success then Some (True, s)
          else Option.bind (nmbm_retire_block E s ba) (\<lambda>s. Some (False, s)))
         (\<lambda>(r, t). degrades s t \<and> untouched {ba} s t \<and> r = good t ba \<and> (r \<longrightarrow> Q t)))"
        by (rule runs_mono [OF act [OF io]])
           (auto dest: used [OF io_only_trans [OF io] that] simp: ret [OF io_only_trans [OF io]])
      then show ?thesis using True by (simp add: x runs_bind)
    qed
  qed
  show ?thesis
    using assms(2) bad main
    unfolding nmbm_use_block_def ck
    by (auto simp: vcg good_def)
qed

end
