(* ===== verification/Nmbm_Tables.thy ===== *)
theory Nmbm_Tables
  imports Nmbm_Frame
begin

text \<open>
  Keeping the two info tables of NMBM on flash (\<open>mtk_bmt_nmbm.c\<close>): generating the table image,
  writing it, rebuilding both tables, the rescue procedures, and the update loop.

  An out-parameter pair \<open>*actual_start_ba\<close>, \<open>*actual_end_ba\<close> is the option a writer returns.
\<close>

section \<open>The table image\<close>

definition nmbm_generate_info_table_cache ::
  "'d kernel \<Rightarrow> 'd nmbm \<Rightarrow> (bool \<times> 'd nmbm) option" where
  "nmbm_generate_info_table_cache E s =
     do {
       let changed = False;
       c \<leftarrow> memput (info_table_cache s) 0 (replicate (info_table_size s) 0xff);
       st \<leftarrow> memget (words_bytes (block_state s)) 0 (state_table_size s);
       c \<leftarrow> memput c (unat (it_state_table_off (info_table s))) st;
       mp \<leftarrow> memget (words_bytes (block_mapping s)) 0 (mapping_table_size s);
       c \<leftarrow> memput c (unat (it_mapping_table_off (info_table s))) mp;
       let it = info_table s;
       let it = it\<lparr>it_header := (it_header it)\<lparr>h_magic := NMBM_MAGIC_INFO_TABLE,
                  h_version := NMBM_VER, h_size := word_of_nat (info_table_size s)\<rparr>\<rparr>;
       let (it, changed) =
         (if block_state_changed s \<noteq> 0 \<or> block_mapping_changed s \<noteq> 0
          then (it\<lparr>it_write_count := it_write_count it + 1\<rparr>, True) else (it, changed));
       c \<leftarrow> memput c 0 (info_header_bytes it);
       c \<leftarrow> nmbm_update_checksum E c;
       Some (changed, s\<lparr>info_table := it, info_table_cache := c\<rparr>)
     }"

definition nmbm_write_info_table ::
  "'d kernel \<Rightarrow> 'd nmbm \<Rightarrow> nat \<Rightarrow> nat \<Rightarrow> ((nat \<times> nat) option \<times> 'd nmbm) option" where
  "nmbm_write_info_table E s ba limit =
     nmbm_write_mgmt_range E s ba limit (info_table_cache s) (info_table_size s)"

definition nmbm_mark_tables_clean :: "'d nmbm \<Rightarrow> 'd nmbm" where
  "nmbm_mark_tables_clean s = s\<lparr>block_state_changed := 0, block_mapping_changed := 0\<rparr>"

section \<open>Rebuilding both tables\<close>

definition nmbm_rebuild_info_table ::
  "'d kernel \<Rightarrow> 'd nmbm \<Rightarrow> (bool \<times> 'd nmbm) option" where
  "nmbm_rebuild_info_table E s =
     do {
       let s = s\<lparr>main_table_ba := 0, backup_table_ba := 0,
                 mapping_blocks_ba := mapping_blocks_top_ba s\<rparr>;
       (r, s) \<leftarrow> nmbm_write_info_table E s (mgmt_start_ba s) (mapping_blocks_top_ba s);
       case r of
         None \<Rightarrow> Some (False, s\<lparr>protected := True\<rparr>)
       | Some (table_start_ba, main_table_end_ba) \<Rightarrow> do {
           let s = s\<lparr>main_table_ba := table_start_ba, mapping_blocks_ba := main_table_end_ba\<rparr>;
           let s = nmbm_mark_tables_clean s;
           next_start_ba \<leftarrow> nmbm_try_reserve_blocks s main_table_end_ba
             (info_table_spare_blocks s) 0
             (int (sub32 (mapping_blocks_top_ba s) (size2blk s (info_table_size s))));
           case next_start_ba of
             None \<Rightarrow> Some (True, s)
           | Some next_start_ba \<Rightarrow> do {
               (r, s) \<leftarrow> nmbm_write_info_table E s next_start_ba (mapping_blocks_top_ba s);
               case r of
                 None \<Rightarrow> Some (True, s)
               | Some (table_start_ba, table_end_ba) \<Rightarrow> do {
                   let s = s\<lparr>backup_table_ba := table_start_ba,
                             mapping_blocks_ba := table_end_ba\<rparr>;
                   s \<leftarrow> nmbm_erase_range E s main_table_end_ba (backup_table_ba s);
                   Some (True, s)
                 }
             }
         }
     }"

section \<open>Rescues\<close>

text \<open>
  The loop \<open>while (write_ba >= lower)\<close> that tries to write the table ever further down. It
  would not end with a lower bound of 0, where the decrement wraps around; and its result would
  be indeterminate if its condition were false at first.
\<close>

partial_function (option) nmbm_write_down_loop ::
  "'d kernel \<Rightarrow> 'd nmbm \<Rightarrow> nat \<Rightarrow> nat \<Rightarrow> ((nat \<times> nat) option \<times> 'd nmbm) option" where
  "nmbm_write_down_loop E s write_ba lower =
     (if write_ba \<ge> lower then do {
        (r, s) \<leftarrow> nmbm_write_info_table E s write_ba (mapping_blocks_top_ba s);
        if r \<noteq> None then Some (r, s)
        else nmbm_write_down_loop E s (sub32 write_ba 1) lower
      } else Some (None, s))"

definition nmbm_write_down ::
  "'d kernel \<Rightarrow> 'd nmbm \<Rightarrow> nat \<Rightarrow> nat \<Rightarrow> ((nat \<times> nat) option \<times> 'd nmbm) option" where
  "nmbm_write_down E s write_ba lower =
     (if write_ba < lower then None else nmbm_write_down_loop E s write_ba lower)"

definition nmbm_rescue_single_info_table ::
  "'d kernel \<Rightarrow> 'd nmbm \<Rightarrow> (bool \<times> 'd nmbm) option" where
  "nmbm_rescue_single_info_table E s =
     do {
       (r, s) \<leftarrow> nmbm_write_info_table E s (mgmt_start_ba s) (main_table_ba s);
       case r of
         Some (table_start_ba, table_end_ba) \<Rightarrow> do {
           let s = s\<lparr>backup_table_ba := main_table_ba s\<rparr>;
           let s = s\<lparr>main_table_ba := table_start_ba\<rparr>;
           let s = nmbm_mark_tables_clean s;
           s \<leftarrow> nmbm_erase_range E s table_end_ba (backup_table_ba s);
           Some (True, s)
         }
       | None \<Rightarrow> do {
           write_ba \<leftarrow> nmbm_try_reserve_blocks s (mapping_blocks_ba s)
             (info_table_spare_blocks s) 0
             (int (sub32 (mapping_blocks_top_ba s) (size2blk s (info_table_size s))));
           case write_ba of
             None \<Rightarrow> Some (False, s)
           | Some write_ba \<Rightarrow> do {
               (r, s) \<leftarrow> nmbm_write_down E s write_ba (mapping_blocks_ba s);
               case r of
                 Some (table_start_ba, table_end_ba) \<Rightarrow> do {
                   s \<leftarrow> nmbm_erase_range E s (mapping_blocks_ba s) table_start_ba;
                   let s = s\<lparr>backup_table_ba := table_start_ba,
                             mapping_blocks_ba := table_end_ba\<rparr>;
                   Some (True, nmbm_mark_tables_clean s)
                 }
               | None \<Rightarrow> Some (False, s)
             }
         }
     }"

definition nmbm_update_single_info_table ::
  "'d kernel \<Rightarrow> 'd nmbm \<Rightarrow> bool \<Rightarrow> (bool \<times> 'd nmbm) option" where
  "nmbm_update_single_info_table E s update_main_table =
     do {
       let (write_start_ba, write_limit) =
         (if update_main_table then (main_table_ba s, backup_table_ba s)
          else (backup_table_ba s, mapping_blocks_top_ba s));
       (r, s) \<leftarrow> nmbm_write_info_table E s write_start_ba write_limit;
       case r of
         Some (table_start_ba, table_end_ba) \<Rightarrow> do {
           let s = (if update_main_table then s\<lparr>main_table_ba := table_start_ba\<rparr>
                    else s\<lparr>backup_table_ba := table_start_ba,
                           mapping_blocks_ba := table_end_ba\<rparr>);
           Some (True, nmbm_mark_tables_clean s)
         }
       | None \<Rightarrow>
           if update_main_table then do {
             let s = s\<lparr>main_table_ba := backup_table_ba s\<rparr>;
             let s = s\<lparr>backup_table_ba := 0\<rparr>;
             nmbm_rescue_single_info_table E s
           } else do {
             let s = s\<lparr>mapping_blocks_ba := backup_table_ba s\<rparr>;
             Some (False, s\<lparr>backup_table_ba := 0\<rparr>)
           }
     }"

text \<open>
  The last part of \<open>nmbm_rescue_main_info_table\<close>, for a new main table that ran over the
  temporary one.
\<close>

definition nmbm_rescue_backup ::
  "'d kernel \<Rightarrow> 'd nmbm \<Rightarrow> nat \<Rightarrow> nat \<Rightarrow> (bool \<times> 'd nmbm) option" where
  "nmbm_rescue_backup E s info_table_erasesize main_table_end_ba =
     do {
       let s = s\<lparr>mapping_blocks_ba := main_table_end_ba\<rparr>;
       write_ba \<leftarrow> nmbm_try_reserve_blocks s main_table_end_ba (info_table_spare_blocks s) 0
         (int (sub32 (mapping_blocks_top_ba s) info_table_erasesize));
       case write_ba of
         None \<Rightarrow> Some (True, s\<lparr>backup_table_ba := 0\<rparr>)
       | Some write_ba \<Rightarrow> do {
           (r, s) \<leftarrow> nmbm_write_down E s write_ba main_table_end_ba;
           case r of
             None \<Rightarrow> Some (True, s\<lparr>backup_table_ba := 0\<rparr>)
           | Some (tmp_table_start_ba, tmp_table_end_ba) \<Rightarrow> do {
               let s = s\<lparr>backup_table_ba := tmp_table_start_ba,
                         mapping_blocks_ba := tmp_table_end_ba\<rparr>;
               s \<leftarrow> nmbm_erase_range E s main_table_end_ba (backup_table_ba s);
               Some (True, s)
             }
         }
     }"

definition nmbm_rescue_main_info_table ::
  "'d kernel \<Rightarrow> 'd nmbm \<Rightarrow> (bool \<times> 'd nmbm) option" where
  "nmbm_rescue_main_info_table E s =
     do {
       let info_table_erasesize = size2blk s (info_table_size s);
       write_ba \<leftarrow> nmbm_try_reserve_blocks s (mapping_blocks_ba s) (info_table_spare_blocks s) 0
         (int (sub32 (mapping_blocks_top_ba s) info_table_erasesize));
       case write_ba of
         None \<Rightarrow> Some (True, s\<lparr>main_table_ba := backup_table_ba s, backup_table_ba := 0\<rparr>)
       | Some write_ba \<Rightarrow> do {
           (r, s) \<leftarrow> nmbm_write_down E s write_ba (mapping_blocks_ba s);
           case r of
             None \<Rightarrow> Some (True, s\<lparr>main_table_ba := backup_table_ba s, backup_table_ba := 0\<rparr>)
           | Some (tmp_table_start_ba, tmp_table_end_ba) \<Rightarrow> do {
               let s = s\<lparr>mapping_blocks_ba := tmp_table_end_ba\<rparr>;
               (r, s) \<leftarrow> nmbm_write_info_table E s (mgmt_start_ba s) tmp_table_start_ba;
               case r of
                 None \<Rightarrow>
                   Some (True, nmbm_mark_tables_clean
                     (s\<lparr>main_table_ba := tmp_table_start_ba, backup_table_ba := 0\<rparr>))
               | Some (main_table_start_ba, main_table_end_ba) \<Rightarrow> do {
                   let s = nmbm_mark_tables_clean (s\<lparr>main_table_ba := main_table_start_ba\<rparr>);
                   if main_table_end_ba \<le> tmp_table_start_ba
                     then Some (True, s\<lparr>backup_table_ba := tmp_table_start_ba\<rparr>)
                     else nmbm_rescue_backup E s info_table_erasesize main_table_end_ba
                 }
             }
         }
     }"

section \<open>Updating\<close>

text \<open>
  The code after the label \<open>write_main_table\<close>, and the part before it, which sets the limit of
  the main table.
\<close>

definition nmbm_write_main_table ::
  "'d kernel \<Rightarrow> 'd nmbm \<Rightarrow> nat \<Rightarrow> (bool \<times> 'd nmbm) option" where
  "nmbm_write_main_table E s main_table_limit =
     (if main_table_ba s = 0 then nmbm_rebuild_info_table E s
      else do {
        (r, s) \<leftarrow> nmbm_write_info_table E s (main_table_ba s) main_table_limit;
        case r of
          None \<Rightarrow>
            if backup_table_ba s = 0 then nmbm_rebuild_info_table E s
            else nmbm_rescue_main_info_table E s
        | Some (table_start_ba, table_end_ba) \<Rightarrow> do {
            let s = s\<lparr>main_table_ba := table_start_ba\<rparr>;
            let s = (if backup_table_ba s = 0 then s\<lparr>mapping_blocks_ba := table_end_ba\<rparr> else s);
            Some (True, nmbm_mark_tables_clean s)
          }
      })"

definition nmbm_write_backup_table ::
  "'d kernel \<Rightarrow> 'd nmbm \<Rightarrow> (nat \<times> 'd nmbm) option" where
  "nmbm_write_backup_table E s =
     (if backup_table_ba s = 0 then Some (mapping_blocks_top_ba s, s)
      else do {
        (r, s) \<leftarrow> nmbm_write_info_table E s (backup_table_ba s) (mapping_blocks_top_ba s);
        case r of
          None \<Rightarrow>
            Some (mapping_blocks_top_ba s,
              s\<lparr>mapping_blocks_ba := backup_table_ba s, backup_table_ba := 0\<rparr>)
        | Some (table_start_ba, table_end_ba) \<Rightarrow> do {
            let s = s\<lparr>backup_table_ba := table_start_ba, mapping_blocks_ba := table_end_ba\<rparr>;
            let s = nmbm_mark_tables_clean s;
            Some (backup_table_ba s, s)
          }
      })"

definition nmbm_update_info_table_once ::
  "'d kernel \<Rightarrow> 'd nmbm \<Rightarrow> bool \<Rightarrow> (bool \<times> 'd nmbm) option" where
  "nmbm_update_info_table_once E s force =
     do {
       (changed, s) \<leftarrow> nmbm_generate_info_table_cache E s;
       if \<not> changed \<and> \<not> force then Some (True, s)
       else do {
         (main_table_limit, s) \<leftarrow> nmbm_write_backup_table E s;
         nmbm_write_main_table E s main_table_limit
       }
     }"

partial_function (option) nmbm_update_loop ::
  "'d kernel \<Rightarrow> 'd nmbm \<Rightarrow> (bool \<times> 'd nmbm) option" where
  "nmbm_update_loop E s =
     (if block_state_changed s \<noteq> 0 \<or> block_mapping_changed s \<noteq> 0 then do {
        (success, s) \<leftarrow> nmbm_update_info_table_once E s False;
        if success then nmbm_update_loop E s else Some (False, s)
      } else Some (True, s))"

definition nmbm_update_info_table :: "'d kernel \<Rightarrow> 'd nmbm \<Rightarrow> (bool \<times> 'd nmbm) option" where
  "nmbm_update_info_table E s = (if protected s then Some (True, s) else nmbm_update_loop E s)"

end
