(* ===== verification/Nmbm_Attach.thy ===== *)
theory Nmbm_Attach
  imports Nmbm_Tables
begin

text \<open>
  Attaching NMBM to a chip (\<open>mtk_bmt_nmbm.c\<close>): mapping a block, creating the tables on a new
  chip, finding and checking the tables and the signature of an existing one, and the
  operations the manager gives the front end.
\<close>

section \<open>Mapping a block\<close>

definition nmbm_map_block :: "'d kernel \<Rightarrow> 'd nmbm \<Rightarrow> nat \<Rightarrow> (bool \<times> 'd nmbm) option" where
  "nmbm_map_block E s lb =
     (if mapping_blocks_ba s = mapping_blocks_top_ba s then Some (False, s)
      else do {
        pb \<leftarrow> nmbm_block_walk s False (mapping_blocks_top_ba s) 0 (int (mapping_blocks_ba s));
        case pb of
          None \<Rightarrow> do {
            (_, s) \<leftarrow> nmbm_update_info_table E s;
            Some (False, s\<lparr>mapping_blocks_top_ba := mapping_blocks_ba s\<rparr>)
          }
        | Some pb \<Rightarrow> do {
            m \<leftarrow> aset (block_mapping s) lb (word_of_nat pb);
            let s = s\<lparr>block_mapping := m\<rparr>;
            let s = s\<lparr>mapping_blocks_top_ba := sub32 (mapping_blocks_top_ba s) 1\<rparr>;
            Some (True, s\<lparr>block_mapping_changed := block_mapping_changed s + 1\<rparr>)
          }
      })"

section \<open>Creating the tables\<close>

function nmbm_remap_tail :: "'d kernel \<Rightarrow> 'd nmbm \<Rightarrow> nat \<Rightarrow> nat \<Rightarrow> 'd nmbm option" where
  "nmbm_remap_tail E s lb n =
     (if lb < n then do {
        (success, s) \<leftarrow> nmbm_map_block E s lb;
        if \<not> success then Some s
        else nmbm_remap_tail E (s\<lparr>data_block_count := data_block_count s + 1\<rparr>) (Suc lb) n
      } else Some s)"
  by pat_completeness auto
termination
  by (relation "measure (\<lambda>(E, s, lb, n). n - lb)") auto

declare nmbm_remap_tail.simps [simp del]

definition nmbm_create_info_table :: "'d kernel \<Rightarrow> 'd nmbm \<Rightarrow> (bool \<times> 'd nmbm) option" where
  "nmbm_create_info_table E s =
     do {
       top_ba \<leftarrow> nmbm_block_walk s False (signature_ba s) 1 (int (mgmt_start_ba s));
       case top_ba of
         None \<Rightarrow> Some (False, s)
       | Some top_ba \<Rightarrow> do {
           let s = s\<lparr>mapping_blocks_top_ba := top_ba\<rparr>;
           (_, s) \<leftarrow> nmbm_generate_info_table_cache E s;
           (success, s) \<leftarrow> nmbm_rebuild_info_table E s;
           if \<not> success then Some (False, s)
           else do {
             s \<leftarrow> nmbm_remap_tail E s (data_block_count s) (mgmt_start_ba s);
             nmbm_update_info_table E s
           }
         }
     }"

text \<open>\<open>total_blks << blk_shift\<close> is computed as an \<open>int\<close> and sign-extended to the 64-bit field.\<close>

definition nand_size_of :: "('d, 'z) bmtd_scheme \<Rightarrow> u64" where
  "nand_size_of s = word_of_int (s32 (int (total_blks s) * 2 ^ blk_shift s))"

definition mgmt_boundary :: "nat \<Rightarrow> nat \<Rightarrow> nat \<Rightarrow> nat" where
  "mgmt_boundary limit count reserved =
     (if reserved \<noteq> 0 \<and> sub32 count limit > reserved then sub32 count reserved else limit)"

definition nmbm_create_new :: "'d kernel \<Rightarrow> 'd nmbm \<Rightarrow> (bool \<times> 'd nmbm) option" where
  "nmbm_create_new E s =
     do {
       let s = s\<lparr>mgmt_start_ba :=
         u32_of (int (block_count s) * int (sub32 NMBM_MGMT_DIV (max_ratio s))) div NMBM_MGMT_DIV\<rparr>;
       let s = s\<lparr>mgmt_start_ba :=
         mgmt_boundary (mgmt_start_ba s) (block_count s) (max_reserved_blocks s)\<rparr>;
       s \<leftarrow> nmbm_scan_badblocks E s;
       s \<leftarrow> nmbm_build_mapping_table s;
       let sg = signature s;
       let sg = sg\<lparr>sig_header := (sig_header sg)\<lparr>h_magic := NMBM_MAGIC_SIGNATURE,
                      h_version := NMBM_VER, h_size := word_of_nat sizeof_signature\<rparr>,
                   sig_nand_size := nand_size_of s,
                   sig_block_size := word_of_nat (blk_size s),
                   sig_page_size := word_of_nat (pg_size s),
                   sig_spare_size := word_of_nat (mtd_oobsize s),
                   sig_mgmt_start_pb := word_of_nat (mgmt_start_ba s),
                   sig_max_try_count := word_of_nat NMBM_TRY_COUNT\<rparr>;
       b \<leftarrow> nmbm_update_checksum E (signature_bytes sg);
       let s = s\<lparr>signature := bytes_signature b\<rparr>;
       (r, s) \<leftarrow> nmbm_write_signature E s (mgmt_start_ba s) (signature s);
       case r of
         None \<Rightarrow> Some (False, s)
       | Some ba \<Rightarrow> nmbm_create_info_table E (s\<lparr>signature_ba := ba\<rparr>)
     }"

section \<open>Checking and loading the tables\<close>

definition nmbm_check_info_table_header :: "'d nmbm \<Rightarrow> byte list \<Rightarrow> bool" where
  "nmbm_check_info_table_header s data =
     (let ifthdr = bytes_info_header data in
      if h_magic (it_header ifthdr) \<noteq> NMBM_MAGIC_INFO_TABLE then False
      else if unat (h_size (it_header ifthdr)) \<noteq> info_table_size s then False
      else if unat (it_mapping_table_off ifthdr - it_state_table_off ifthdr) < state_table_size s
        then False
      else if sub32 (info_table_size s) (unat (it_mapping_table_off ifthdr)) < mapping_table_size s
        then False
      else True)"

text \<open>
  The two loops of \<open>nmbm_check_info_table\<close>: over the mapping entries, which yields the lowest
  physical block a bad block is mapped to, and over the blocks of the table itself.
\<close>

function nmbm_check_mapping_loop ::
  "'d nmbm \<Rightarrow> byte list \<Rightarrow> nat \<Rightarrow> nat \<Rightarrow> nat \<Rightarrow> nat \<Rightarrow> nat option option" where
  "nmbm_check_mapping_loop s data off end_ba ba minimum_mapping_pb =
     (if ba < data_block_count s then do {
        e \<leftarrow> memget data (off + 4 * ba) 4;
        let m = unat (of_le32 e);
        if (m \<ge> data_block_count s \<and> m < end_ba) \<or> m = signature_ba s then Some None
        else nmbm_check_mapping_loop s data off end_ba (Suc ba)
               (if m \<ge> end_ba \<and> m < minimum_mapping_pb then m else minimum_mapping_pb)
      } else Some (Some minimum_mapping_pb))"
  by pat_completeness auto
termination
  by (relation "measure (\<lambda>(s, data, off, end_ba, ba, m). data_block_count s - ba)") auto

function nmbm_check_state_loop :: "'d nmbm \<Rightarrow> u32 list \<Rightarrow> nat \<Rightarrow> nat \<Rightarrow> bool option" where
  "nmbm_check_state_loop s bs ba end_ba =
     (if ba < end_ba then do {
        st \<leftarrow> nmbm_get_block_state s ba;
        if st \<noteq> BLOCK_ST_GOOD then nmbm_check_state_loop s bs (Suc ba) end_ba
        else do {
          st \<leftarrow> nmbm_get_block_state_raw bs ba;
          if st \<noteq> BLOCK_ST_GOOD then Some False
          else nmbm_check_state_loop s bs (Suc ba) end_ba
        }
      } else Some True)"
  by pat_completeness auto
termination
  by (relation "measure (\<lambda>(s, bs, ba, end_ba). end_ba - ba)") auto

declare nmbm_check_mapping_loop.simps [simp del] nmbm_check_state_loop.simps [simp del]

definition nmbm_check_info_table ::
  "'d nmbm \<Rightarrow> nat \<Rightarrow> nat \<Rightarrow> byte list \<Rightarrow> nat option option" where
  "nmbm_check_info_table s start_ba end_ba data =
     do {
       let ifthdr = bytes_info_header data;
       let block_state = bytes_words (drop (unat (it_state_table_off ifthdr)) data);
       m \<leftarrow> nmbm_check_mapping_loop s data (unat (it_mapping_table_off ifthdr)) end_ba 0
             (signature_ba s);
       case m of
         None \<Rightarrow> Some None
       | Some minimum_mapping_pb \<Rightarrow> do {
           success \<leftarrow> nmbm_check_state_loop s block_state start_ba end_ba;
           Some (if success then Some (sub32 minimum_mapping_pb 1) else None)
         }
     }"

text \<open>
  Reading a table from \<open>ba\<close> on. A block is skipped (\<open>Some False\<close>), read (\<open>Some True\<close>), or ends
  the attempt (\<open>None\<close>).
\<close>

definition nmbm_read_table_block ::
  "'d kernel \<Rightarrow> 'd nmbm \<Rightarrow> nat \<Rightarrow> nat \<Rightarrow> nat \<Rightarrow> (bool option \<times> 'd nmbm) option" where
  "nmbm_read_table_block E s ba pos chunksize =
     do {
       st \<leftarrow> nmbm_get_block_state s ba;
       if st \<noteq> BLOCK_ST_GOOD then Some (Some False, s)
       else do {
         let (bad, s) = nmbm_check_bad_phys_block E s ba;
         if bad then do {
           (_, s) \<leftarrow> nmbm_set_block_state s ba BLOCK_ST_BAD;
           Some (Some False, s)
         } else do {
           (ret, buf, s) \<leftarrow> nmbn_read_data E s (ba2addr s ba)
                             (drop pos (info_table_cache s)) chunksize;
           let s = s\<lparr>info_table_cache := take pos (info_table_cache s) @ buf\<rparr>;
           if ret < 0 then do {
             (_, s) \<leftarrow> nmbm_set_block_state s ba BLOCK_ST_BAD;
             Some (Some False, s)
           }
           else if ret > 0 then Some (None, s)
           else Some (Some True, s)
         }
       }
     }"

function nmbm_read_table_loop ::
  "'d kernel \<Rightarrow> 'd nmbm \<Rightarrow> nat \<Rightarrow> nat \<Rightarrow> nat \<Rightarrow> nat \<Rightarrow> bool \<Rightarrow> nat \<Rightarrow>
     ((nat \<times> nat) option \<times> 'd nmbm) option" where
  "nmbm_read_table_loop E s ba limit pos sizeremain checkhdr start_ba =
     (if sizeremain \<noteq> 0 \<and> ba < limit then do {
        let chunksize = min sizeremain (blk_size s);
        (r, s) \<leftarrow> nmbm_read_table_block E s ba pos chunksize;
        case r of
          None \<Rightarrow> Some (None, s)
        | Some used \<Rightarrow>
            if used \<and> checkhdr \<and> \<not> nmbm_check_info_table_header s (drop pos (info_table_cache s))
            then Some (None, s)
            else nmbm_read_table_loop E s (Suc ba) limit
                   (if used then pos + chunksize else pos)
                   (if used then sizeremain - chunksize else sizeremain)
                   (checkhdr \<and> \<not> used) (if used \<and> checkhdr then ba else start_ba)
      }
      else if sizeremain \<noteq> 0 then Some (None, s)
      else Some (Some (start_ba, ba), s))"
  by pat_completeness auto
termination
  by (relation "measure (\<lambda>(E, s, ba, limit, pos, rem, ch, st). limit - ba)") auto

declare nmbm_read_table_loop.simps [simp del]

text \<open>
  The result of a successful load is the block after the table, its write count and the top of
  its spare blocks. A table is taken over when it is the first one or has been written more
  often.
\<close>

definition nmbm_take_over_table :: "'d nmbm \<Rightarrow> 'd nmbm option" where
  "nmbm_take_over_table s =
     do {
       let ifthdr = bytes_info_header (info_table_cache s);
       let s = s\<lparr>info_table := ifthdr\<rparr>;
       st \<leftarrow> memget (info_table_cache s) (unat (it_state_table_off ifthdr)) (state_table_size s);
       let s = s\<lparr>block_state := bytes_words st\<rparr>;
       mp \<leftarrow> memget (info_table_cache s) (unat (it_mapping_table_off ifthdr)) (mapping_table_size s);
       Some (s\<lparr>block_mapping := bytes_words mp\<rparr>)
     }"

definition nmbm_try_load_info_table ::
  "'d kernel \<Rightarrow> 'd nmbm \<Rightarrow> nat \<Rightarrow> bool \<Rightarrow> ((nat \<times> u32 \<times> nat) option \<times> 'd nmbm) option" where
  "nmbm_try_load_info_table E s ba table_loaded =
     do {
       let limit = add32 ba (size2blk s (info_table_size s));
       (r, s) \<leftarrow> nmbm_read_table_loop E s ba limit 0 (info_table_size s) True 0;
       case r of
         None \<Rightarrow> Some (None, s)
       | Some (start_ba, eba) \<Rightarrow> do {
           success \<leftarrow> nmbm_check_header E (info_table_cache s) (info_table_size s);
           if \<not> success then Some (None, s)
           else do {
             let write_count = it_write_count (bytes_info_header (info_table_cache s));
             top_ba \<leftarrow> nmbm_check_info_table s start_ba eba (info_table_cache s);
             case top_ba of
               None \<Rightarrow> Some (None, s)
             | Some top_ba \<Rightarrow> do {
                 s \<leftarrow> (if \<not> table_loaded \<or> write_count > it_write_count (info_table s)
                       then nmbm_take_over_table s else Some s);
                 Some (Some (eba, write_count, top_ba), s)
               }
           }
         }
     }"

function nmbm_search_loop ::
  "'d kernel \<Rightarrow> 'd nmbm \<Rightarrow> nat \<Rightarrow> nat \<Rightarrow> bool \<Rightarrow>
     ((nat \<times> nat \<times> u32 \<times> nat) option \<times> 'd nmbm) option" where
  "nmbm_search_loop E s ba limit table_loaded =
     (if ba < limit then do {
        (r, s) \<leftarrow> nmbm_try_load_info_table E s ba table_loaded;
        case r of
          Some (eba, write_count, top_ba) \<Rightarrow> Some (Some (ba, eba, write_count, top_ba), s)
        | None \<Rightarrow> nmbm_search_loop E s (Suc ba) limit table_loaded
      } else Some (None, s))"
  by pat_completeness auto
termination
  by (relation "measure (\<lambda>(E, s, ba, limit, tl). limit - ba)") auto

declare nmbm_search_loop.simps [simp del]

definition nmbm_search_info_table ::
  "'d kernel \<Rightarrow> 'd nmbm \<Rightarrow> nat \<Rightarrow> nat \<Rightarrow> bool \<Rightarrow>
     ((nat \<times> nat \<times> u32 \<times> nat) option \<times> 'd nmbm) option" where
  "nmbm_search_info_table E s ba limit table_loaded =
     nmbm_search_loop E s ba (sub32 limit (size2blk s (info_table_size s))) table_loaded"

text \<open>The number of data blocks: up to the last logical block that is mapped.\<close>

fun nmbm_last_mapped :: "'d nmbm \<Rightarrow> nat \<Rightarrow> nat option option" where
  "nmbm_last_mapped s 0 = Some None"
| "nmbm_last_mapped s (Suc i) =
     do {
       m \<leftarrow> aget (block_mapping s) i;
       if 0 \<le> sint m then Some (Some (Suc i)) else nmbm_last_mapped s i
     }"

text \<open>
  The part of \<open>nmbm_load_info_table\<close> that follows the search, once the two tables are known.
\<close>

definition nmbm_finish_load ::
  "'d kernel \<Rightarrow> 'd nmbm \<Rightarrow> nat \<Rightarrow> u32 \<Rightarrow> u32 \<Rightarrow> 'd nmbm option" where
  "nmbm_finish_load E s table_end_ba main_table_write_count backup_table_write_count =
     do {
       let s = s\<lparr>mapping_blocks_ba := table_end_ba\<rparr>;
       i \<leftarrow> nmbm_last_mapped s (unat (sig_mgmt_start_pb (signature s)));
       let s = (case i of None \<Rightarrow> s | Some i \<Rightarrow> s\<lparr>data_block_count := i\<rparr>);
       (_, s) \<leftarrow> nmbm_generate_info_table_cache E s;
       (success, s) \<leftarrow>
         (if backup_table_ba s = 0 then nmbm_rescue_single_info_table E s
          else if main_table_write_count \<noteq> backup_table_write_count
            then nmbm_update_single_info_table E
                   (s\<lparr>block_state_changed := 1, block_mapping_changed := 1\<rparr>)
                   (main_table_write_count < backup_table_write_count)
          else Some (True, s));
       Some (if mapping_blocks_ba s = mapping_blocks_top_ba s then s\<lparr>protected := True\<rparr>
             else if \<not> success then s\<lparr>protected := True\<rparr>
             else s)
     }"

definition nmbm_load_info_table ::
  "'d kernel \<Rightarrow> 'd nmbm \<Rightarrow> nat \<Rightarrow> nat \<Rightarrow> (bool \<times> 'd nmbm) option" where
  "nmbm_load_info_table E s ba limit =
     do {
       let s = s\<lparr>main_table_ba := 0, backup_table_ba := 0,
                 info_table := (info_table s)\<lparr>it_write_count := 0\<rparr>,
                 mapping_blocks_top_ba := sub32 (signature_ba s) 1,
                 data_block_count := unat (sig_mgmt_start_pb (signature s))\<rparr>;
       (r, s) \<leftarrow> nmbm_search_info_table E s ba limit False;
       case r of
         None \<Rightarrow> Some (False, s)
       | Some (main_ba, main_table_end_ba, main_count, main_top) \<Rightarrow> do {
           let s = s\<lparr>main_table_ba := main_ba\<rparr>;
           (r, s) \<leftarrow> nmbm_search_info_table E s main_table_end_ba limit True;
           let (s, table_end_ba, backup_count, backup_top) =
             (case r of
                None \<Rightarrow> (s, main_table_end_ba, 0, 0)
              | Some (backup_ba, backup_table_end_ba, backup_count, backup_top) \<Rightarrow>
                  (s\<lparr>backup_table_ba := backup_ba\<rparr>, backup_table_end_ba, backup_count, backup_top));
           let s = (if backup_table_ba s = 0 then s\<lparr>mapping_blocks_top_ba := main_top\<rparr>
                    else if main_count \<ge> backup_count then s\<lparr>mapping_blocks_top_ba := main_top\<rparr>
                    else s\<lparr>mapping_blocks_top_ba := backup_top\<rparr>);
           s \<leftarrow> nmbm_finish_load E s table_end_ba main_count backup_count;
           Some (True, s)
         }
     }"

definition nmbm_load_existing :: "'d kernel \<Rightarrow> 'd nmbm \<Rightarrow> (bool \<times> 'd nmbm) option" where
  "nmbm_load_existing E s =
     do {
       let s = s\<lparr>mgmt_start_ba := unat (sig_mgmt_start_pb (signature s))\<rparr>;
       (success, s) \<leftarrow> nmbm_load_info_table E s (mgmt_start_ba s) (signature_ba s);
       if success then Some (True, s)
       else if \<not> force_create s then Some (False, s)
       else do {
         s \<leftarrow> nmbm_scan_badblocks E s;
         s \<leftarrow> nmbm_build_mapping_table s;
         nmbm_create_info_table E s
       }
     }"

section \<open>Finding the signature\<close>

text \<open>
  The loop over the pages of a block. The local \<open>sig\<close> is uninitialised in C; only its bytes
  after a complete read are ever looked at.
\<close>

function nmbm_sig_pages_loop ::
  "'d kernel \<Rightarrow> 'd nmbm \<Rightarrow> nat \<Rightarrow> byte list \<Rightarrow> nat \<Rightarrow> nat \<Rightarrow> nat \<Rightarrow>
     (nmbm_signature option \<times> 'd nmbm) option" where
  "nmbm_sig_pages_loop E s addr sig off lim pg =
     (if off < lim then
        if pg = 0 then None
        else do {
          (ret, sig, s) \<leftarrow> nmbn_read_data E s (addr + off) sig sizeof_signature;
          success \<leftarrow> (if ret \<noteq> 0 then Some False else nmbm_check_header E sig sizeof_signature);
          if success \<and> h_magic (bytes_header sig) = NMBM_MAGIC_SIGNATURE
          then Some (Some (bytes_signature sig), s)
          else nmbm_sig_pages_loop E s addr sig (off + pg) lim pg
        }
      else Some (None, s))"
  by pat_completeness auto
termination
  by (relation "measure (\<lambda>(E, s, addr, sg, off, lim, pg). lim - off)") auto

declare nmbm_sig_pages_loop.simps [simp del]

text \<open>
  The loop over the blocks, \<open>while (ba >= limit) { ba--; ... }\<close>, looks at the block below the
  limit too, and does not end for a limit of 0 unless it finds a signature.
\<close>

partial_function (option) nmbm_find_signature_loop ::
  "'d kernel \<Rightarrow> 'd nmbm \<Rightarrow> nat \<Rightarrow> nat \<Rightarrow> ((nmbm_signature \<times> nat) option \<times> 'd nmbm) option" where
  "nmbm_find_signature_loop E s ba limit =
     (if ba \<ge> limit then do {
        let ba = sub32 ba 1;
        let addr = ba2addr s ba;
        let (bad, s) = nmbm_check_bad_phys_block E s ba;
        if bad then nmbm_find_signature_loop E s ba limit
        else do {
          (r, s) \<leftarrow> nmbm_sig_pages_loop E s addr (replicate sizeof_signature 0) 0
                     (blk_size s) (pg_size s);
          case r of
            Some sig \<Rightarrow> Some (Some (sig, ba), s)
          | None \<Rightarrow> nmbm_find_signature_loop E s ba limit
        }
      } else Some (None, s))"

definition nmbm_signature_limit :: "'d nmbm \<Rightarrow> nat" where
  "nmbm_signature_limit s =
     (let block_count = total_blks s;
          limit = u32_of (int (block_count div NMBM_MGMT_DIV)
                    * int (sub32 NMBM_MGMT_DIV (max_ratio s)))
      in mgmt_boundary limit block_count (max_reserved_blocks s))"

definition nmbm_find_signature ::
  "'d kernel \<Rightarrow> 'd nmbm \<Rightarrow> ((nmbm_signature \<times> nat) option \<times> 'd nmbm) option" where
  "nmbm_find_signature E s =
     nmbm_find_signature_loop E s (total_blks s) (nmbm_signature_limit s)"

section \<open>Attaching\<close>

definition nmbm_attach :: "'d kernel \<Rightarrow> 'd nmbm option \<Rightarrow> (int \<times> 'd nmbm option) option" where
  "nmbm_attach E ni =
     (case ni of
        None \<Rightarrow> Some (- EINVAL, None)
      | Some s \<Rightarrow> do {
          let s = nmbm_init_structure s;
          (r, s) \<leftarrow> nmbm_find_signature E s;
          case r of
            None \<Rightarrow>
              if \<not> force_create s then Some (- ENODEV, Some s)
              else do {
                (success, s) \<leftarrow> nmbm_create_new E s;
                Some (if \<not> success then - ENODEV else 0, Some s)
              }
          | Some (sig, ba) \<Rightarrow> do {
              let s = s\<lparr>signature := sig, signature_ba := ba\<rparr>;
              if h_version (sig_header (signature s)) \<noteq> NMBM_VER then Some (- EINVAL, Some s)
              else if sig_nand_size (signature s) \<noteq> nand_size_of s
                \<or> unat (sig_block_size (signature s)) \<noteq> blk_size s
                \<or> unat (sig_page_size (signature s)) \<noteq> pg_size s
                \<or> unat (sig_spare_size (signature s)) \<noteq> mtd_oobsize s
                then Some (- EINVAL, Some s)
              else do {
                (success, s) \<leftarrow> nmbm_load_existing E s;
                Some (if \<not> success then - ENODEV else 0, Some s)
              }
            }
        })"

text \<open>
  The properties of the device tree node the initialisers read, and the outcome of the
  allocations they make.
\<close>

record node =
  of_bmt_v2 :: bool
  of_nmbm :: bool
  of_bbt :: bool
  of_remap_range :: "(nat \<times> nat) list"
  of_overridden_oobsize :: "nat option"
  of_max_ratio :: "nat option"
  of_max_reserved_blocks :: "nat option"
  of_empty_page_ecc_protected :: bool
  of_force_create :: bool
  of_bmt_pool_size :: "nat option"
  of_bmt_oob_offset :: "nat option"
  of_bmt_table_size :: "nat option"
  alloc_data_buf :: bool
  alloc_table :: bool

text \<open>The zeroed instance \<open>kzalloc\<close> returns, put behind the descriptor.\<close>

definition zero_header :: nmbm_header where
  "zero_header = \<lparr>h_magic = 0, h_version = 0, h_size = 0, h_checksum = 0\<rparr>"

definition zero_instance :: "'d bmtd \<Rightarrow> 'd nmbm" where
  "zero_instance b = bmtd.extend b
     (nmbm.fields 0 0 0
        \<lparr>sig_header = zero_header, sig_nand_size = 0, sig_block_size = 0, sig_page_size = 0,
         sig_spare_size = 0, sig_mgmt_start_pb = 0, sig_max_try_count = 0,
         sig_padding = replicate 7 0\<rparr>
        [] 0 0
        \<lparr>it_header = zero_header, it_write_count = 0, it_state_table_off = 0,
         it_mapping_table_off = 0, it_padding = 0\<rparr>
        [] 0 0 [] 0 0 False 0 0 0 0 0 0 0 0 0 0 False False)"

definition mtk_bmt_init_nmbm ::
  "'d kernel \<Rightarrow> 'd bmtd \<Rightarrow> node \<Rightarrow> (int \<times> ('d bmtd + 'd nmbm)) option" where
  "mtk_bmt_init_nmbm E b np =
     (if \<not> alloc_table np then Some (- ENOMEM, Inl b)
      else do {
        let ni = zero_instance b;
        let ni = ni\<lparr>max_ratio := (case of_max_ratio np of None \<Rightarrow> 1 | Some r \<Rightarrow> r)\<rparr>;
        let ni = ni\<lparr>max_reserved_blocks :=
                      (case of_max_reserved_blocks np of None \<Rightarrow> 256 | Some r \<Rightarrow> r)\<rparr>;
        let ni = (if of_empty_page_ecc_protected np then ni\<lparr>empty_page_ecc_ok := True\<rparr> else ni);
        let ni = (if of_force_create np then ni\<lparr>force_create := True\<rparr> else ni);
        (ret, r) \<leftarrow> nmbm_attach E (Some ni);
        ni \<leftarrow> r;
        if ret \<noteq> 0 then Some (ret, Inl (bmtd.truncate ni))
        else Some (0, Inr (ni\<lparr>mtd_size := u32_of (int (data_block_count ni) * 2 ^ blk_shift ni)\<rparr>))
      })"

section \<open>Operations for the front end\<close>

definition remap_block_nmbm ::
  "'d kernel \<Rightarrow> 'd nmbm \<Rightarrow> nat \<Rightarrow> nat \<Rightarrow> int \<Rightarrow> (bool \<times> 'd nmbm) option" where
  "remap_block_nmbm E s block mapped_block copy_len =
     (if block \<ge> data_block_count s then Some (False, s)
      else do {
        (_, s) \<leftarrow> nmbm_set_block_state s mapped_block BLOCK_ST_BAD;
        (success, s) \<leftarrow> nmbm_map_block E s block;
        if \<not> success then Some (False, s)
        else do {
          m \<leftarrow> aget (block_mapping s) block;
          let new_block = sint m;
          let (_, s) = bbt_nand_erase E s (u16 new_block);
          let (_, s) = (if copy_len > 0
                        then bbt_nand_copy E s (u16 new_block) mapped_block copy_len else (0, s));
          (_, s) \<leftarrow> nmbm_update_info_table E s;
          Some (True, s)
        }
      })"

definition get_mapping_block_index_nmbm :: "'d nmbm \<Rightarrow> int \<Rightarrow> int option" where
  "get_mapping_block_index_nmbm s block =
     (if u32_of block \<ge> data_block_count s then Some (- 1)
      else map_option sint (aget (block_mapping s) (u32_of block)))"

text \<open>
  \<open>unmap_block_nmbm\<close> goes back to the closest lower logical block that is not remapped; the
  result is that block and the distance to it.
\<close>

fun nmbm_unmap_search :: "'d nmbm \<Rightarrow> nat \<Rightarrow> nat \<Rightarrow> (nat \<times> nat) option option" where
  "nmbm_unmap_search s start offset =
     do {
       m \<leftarrow> aget (block_mapping s) start;
       if unat m \<ge> mapping_blocks_ba s
       then (case start of 0 \<Rightarrow> Some None | Suc start \<Rightarrow> nmbm_unmap_search s start (offset + 1))
       else Some (Some (start, offset))
     }"

function nmbm_lowest_spare_loop :: "'d nmbm \<Rightarrow> nat \<Rightarrow> int \<Rightarrow> int option" where
  "nmbm_lowest_spare_loop s block new_block =
     (if block < data_block_count s then do {
        m \<leftarrow> aget (block_mapping s) block;
        let new_block =
          (if unat m < mapping_blocks_ba s then new_block
           else if sint m \<le> new_block then sint m - 1 else new_block);
        nmbm_lowest_spare_loop s (Suc block) new_block
      } else Some new_block)"
  by pat_completeness auto
termination
  by (relation "measure (\<lambda>(s, b, n). data_block_count s - b)") auto

declare nmbm_unmap_search.simps [simp del] nmbm_lowest_spare_loop.simps [simp del]

definition unmap_block_nmbm :: "'d kernel \<Rightarrow> 'd nmbm \<Rightarrow> nat \<Rightarrow> 'd nmbm option" where
  "unmap_block_nmbm E s block =
     (if block \<ge> data_block_count s then Some s
      else do {
        r \<leftarrow> nmbm_unmap_search s block 0;
        case r of
          None \<Rightarrow> Some s
        | Some (start, offset) \<Rightarrow>
            if offset = 0 then Some s
            else do {
              m \<leftarrow> aget (block_mapping s) start;
              let new_block = s32 (sint m + int offset);
              (_, s) \<leftarrow> nmbm_set_block_state s (u32_of new_block) BLOCK_ST_GOOD;
              bm \<leftarrow> aset (block_mapping s) block (word_of_int new_block);
              let s = s\<lparr>block_mapping := bm\<rparr>;
              let s = s\<lparr>block_mapping_changed := block_mapping_changed s + 1\<rparr>;
              new_block \<leftarrow> nmbm_lowest_spare_loop s 0 (s32 (int (signature_ba s) - 1));
              let s = s\<lparr>mapping_blocks_top_ba := u32_of new_block\<rparr>;
              (_, s) \<leftarrow> nmbm_update_info_table E s;
              Some s
            }
      })"

text \<open>The debugfs listing: the pairs that are printed.\<close>

fun nmbm_list_remaps :: "'d nmbm \<Rightarrow> nat list \<Rightarrow> (nat \<times> u32) list option" where
  "nmbm_list_remaps s [] = Some []"
| "nmbm_list_remaps s (i # is) =
     do {
       m \<leftarrow> aget (block_mapping s) i;
       r \<leftarrow> nmbm_list_remaps s is;
       Some (if unat m < mapping_blocks_ba s then r else (i, m) # r)
     }"

definition mtk_bmt_debug_nmbm :: "'d nmbm \<Rightarrow> u64 \<Rightarrow> (int \<times> (nat \<times> u32) list) option" where
  "mtk_bmt_debug_nmbm s val =
     (if val = 0 then do {
        out \<leftarrow> nmbm_list_remaps s [1..<data_block_count s];
        Some (0, out)
      } else Some (0, []))"

definition mtk_bmt_nmbm_ops :: "'d kernel \<Rightarrow> 'd nmbm bmt_ops" where
  "mtk_bmt_nmbm_ops E = \<lparr>op_sig = [], op_remap_block = remap_block_nmbm E,
     op_unmap_block = unmap_block_nmbm E, op_get_mapping_block = get_mapping_block_index_nmbm\<rparr>"

end
