(* ===== verification/Nmbm_Mgmt.thy ===== *)
theory Nmbm_Mgmt
  imports Nmbm_Frame
begin

text \<open>
  What the readers and writers of \<open>Nmbm_Io\<close> do: they run for every behaviour of the driver, stay
  within their buffers, and the management writer uses exactly the good blocks of its range.
\<close>

section \<open>Reading and writing within blocks\<close>

lemma ok_geom: "ok s \<Longrightarrow> geom s"
  by (simp add: ok_def)

lemma io_only_ok: "io_only s t \<Longrightarrow> ok s \<Longrightarrow> ok t"
  using io_only_degrades [of s t] degrades_ok [of s t] by simp

lemma io_only_fields:
  assumes "io_only s t"
  shows "pg_size t = pg_size s" "blk_size t = blk_size s" "length (data_buf t) = length (data_buf s)"
    "rawpage_size t = rawpage_size s" "ba2addr t = ba2addr s"
proof -
  obtain d b where t: "t = s\<lparr>dev := d, data_buf := b\<rparr>" "length b = length (data_buf s)"
    using assms unfolding io_only_def by blast
  show "pg_size t = pg_size s" "blk_size t = blk_size s" "rawpage_size t = rawpage_size s"
    "ba2addr t = ba2addr s" "length (data_buf t) = length (data_buf s)"
    by (simp_all add: t fun_eq_iff ba2addr_def)
qed

lemma page_chunk:
  assumes "geom s" "leading = off AND sub32 (pg_size s) 1"
  shows "sub32 (pg_size s) leading = pg_size s - leading" "leading < pg_size s"
proof -
  obtain k where k: "pg_size s = 2 ^ k" "k < 31"
    using assms(1) by (auto simp: geom_def)
  then have b: "pg_size s < 4294967296" "0 < pg_size s"
    using power_strict_increasing [of k 31 "2 :: nat"] by simp_all
  then have "leading = off mod pg_size s"
    unfolding assms(2) using k by (simp add: nat_and_mask del: One_nat_def)
  then show "leading < pg_size s" using b by simp
  then show "sub32 (pg_size s) leading = pg_size s - leading" using b by simp
qed

lemma chunk_props:
  assumes "geom s" "leading = off AND sub32 (pg_size s) 1"
    "chunksize = min (sub32 (pg_size s) leading) n" "0 < n"
  shows "0 < chunksize" "chunksize \<le> n" "leading + chunksize \<le> pg_size s"
  using page_chunk [OF assms(1,2)] assms(3,4) by auto

lemma write_verify_chunk_spec:
  assumes "ok s" "pos + chunksize \<le> length data" "leading + chunksize \<le> pg_size s"
  shows "runs (nmbn_write_verify_chunk E s off data pos leading chunksize) (\<lambda>(r, t). io_only s t)"
proof -
  have l: "length (data_buf s) = rawpage_size s" "pg_size s \<le> rawpage_size s"
    using assms(1) by (simp_all add: ok_def geom_def)
  define c where "c = take leading (replicate (rawpage_size s) (255 :: byte))
      @ take chunksize (drop pos data) @ drop (leading + chunksize) (replicate (rawpage_size s) 255)"
  have lc: "length c = length (data_buf s)" using assms l by (simp add: c_def)
  have m: "memput (data_buf s) 0 (replicate (rawpage_size s) 255)
      = Some (replicate (rawpage_size s) 255)"
    "memget data pos chunksize = Some (take chunksize (drop pos data))"
    "memput (replicate (rawpage_size s) 255) leading (take chunksize (drop pos data)) = Some c"
    using assms l by (simp_all add: memput_def memget_def c_def)
  obtain r d where w: "nmbm_write_phys_page E (s\<lparr>data_buf := c\<rparr>) (off - leading) (Some c) None
      = (r, s\<lparr>data_buf := c\<rparr>\<lparr>dev := d\<rparr>)"
    by (rule write_phys_pageE)
  obtain r' x d' where rd: "nmbm_read_phys_page E (s\<lparr>data_buf := c, dev := d\<rparr>) (off - leading)
      (Some c) None = (r', Some x, None, s\<lparr>data_buf := c, dev := d\<rparr>\<lparr>dev := d'\<rparr>)"
    and lx: "length x = length c"
    by (rule read_phys_pageE)
  have g: "memget x leading chunksize = Some (take chunksize (drop leading x))"
    using lx lc assms l by (simp add: memget_def)
  show ?thesis
    unfolding nmbn_write_verify_chunk_def
    using w rd g lc lx by (auto simp: Let_def m)
qed

lemma write_verify_loop_spec:
  assumes "ok s" "pos + n \<le> length data"
  shows "runs (nmbn_write_verify_loop E s off data pos n) (\<lambda>(r, t). io_only s t)"
  using assms
proof (induction n arbitrary: s off pos rule: less_induct)
  case (less n)
  show ?case
  proof (cases "n = 0")
    case True
    then show ?thesis by (subst nmbn_write_verify_loop.simps) simp
  next
    case False
    define leading where "leading = off AND sub32 (pg_size s) 1"
    define chunksize where "chunksize = min (sub32 (pg_size s) leading) n"
    note ch = chunk_props [OF ok_geom [OF less.prems(1)] leading_def chunksize_def]
    have c: "0 < chunksize" "chunksize \<le> n" "leading + chunksize \<le> pg_size s"
      using ch False by simp_all
    have sp: "runs (nmbn_write_verify_chunk E s off data pos leading chunksize)
        (\<lambda>(r, t). io_only s t)"
      by (rule write_verify_chunk_spec) (use less.prems c in simp_all)
    have "runs (nmbn_write_verify_chunk E s off data pos leading chunksize)
        (\<lambda>x. runs (case x of (success, s) \<Rightarrow> if \<not> success then Some (False, s)
             else nmbn_write_verify_loop E s (off + chunksize) data (pos + chunksize) (n - chunksize))
          (\<lambda>(r, t). io_only s t))"
    proof (rule runs_mono [OF sp], clarsimp)
      fix t assume io: "io_only s t"
      have "runs (nmbn_write_verify_loop E t (off + chunksize) data (pos + chunksize) (n - chunksize))
          (\<lambda>(r, u). io_only t u)"
        by (rule less.IH) (use c less.prems io_only_ok [OF io] in simp_all)
      then show "runs (nmbn_write_verify_loop E t (off + chunksize) data (pos + chunksize)
          (n - chunksize)) (\<lambda>(r, u). io_only s u)"
        by (rule runs_mono) (auto intro: io_only_trans [OF io])
    qed
    then show ?thesis using False c(1)
      apply (subst nmbn_write_verify_loop.simps)
      unfolding Let_def leading_def [symmetric] chunksize_def [symmetric]
      by (simp add: runs_bind)
  qed
qed

lemma write_verify_data_spec:
  assumes "ok s" "n \<le> length data"
  shows "runs (nmbn_write_verify_data E s addr data n) (\<lambda>(r, t). io_only s t)"
  unfolding nmbn_write_verify_data_def using assms by (intro write_verify_loop_spec) simp_all

text \<open>
  Reading fills the caller's buffer in place. The page reader may report a number of bit flips,
  a positive value; the data reader never does.
\<close>

lemma read_chunk_spec:
  assumes "ok s" "pos + chunksize \<le> length buf" "leading + chunksize \<le> pg_size s"
  shows "runs (nmbn_read_chunk E s off buf pos leading chunksize)
     (\<lambda>(r, b, t). io_only s t \<and> length b = length buf)"
proof -
  have l: "length (data_buf s) = rawpage_size s" "pg_size s \<le> rawpage_size s"
    using assms(1) by (simp_all add: ok_def geom_def)
  show ?thesis
  proof (cases "chunksize = pg_size s")
    case True
    let ?p = "take (pg_size s) (drop pos buf)"
    obtain r x d where rd: "nmbm_read_phys_page E s (off - leading) (Some ?p) None
        = (r, Some x, None, s\<lparr>dev := d\<rparr>)" "length x = length ?p"
      by (rule read_phys_pageE)
    have m: "memget buf pos (pg_size s) = Some ?p" using assms True by (simp add: memget_def)
    show ?thesis unfolding nmbn_read_chunk_def using True assms rd m by (simp add: vcg)
  next
    case False
    obtain r x d where rd: "nmbm_read_phys_page E s (off - leading) (Some (data_buf s)) None
        = (r, Some x, None, s\<lparr>dev := d\<rparr>)" "length x = length (data_buf s)"
      by (rule read_phys_pageE)
    have m: "memget x leading chunksize = Some (take chunksize (drop leading x))"
      using rd(2) l assms by (simp add: memget_def)
    show ?thesis unfolding nmbn_read_chunk_def
      using False assms rd m l by (auto simp: vcg Let_def)
  qed
qed

lemma read_data_loop_spec:
  assumes "ok s" "pos + n \<le> length buf"
  shows "runs (nmbn_read_data_loop E s off buf pos n)
     (\<lambda>(r, b, t). io_only s t \<and> length b = length buf \<and> r \<le> 0)"
  using assms
proof (induction n arbitrary: s off buf pos rule: less_induct)
  case (less n)
  show ?case
  proof (cases "n = 0")
    case True
    then show ?thesis by (subst nmbn_read_data_loop.simps) simp
  next
    case False
    define leading where "leading = off AND sub32 (pg_size s) 1"
    define chunksize where "chunksize = min (sub32 (pg_size s) leading) n"
    note ch = chunk_props [OF ok_geom [OF less.prems(1)] leading_def chunksize_def]
    have c: "0 < chunksize" "chunksize \<le> n" "leading + chunksize \<le> pg_size s"
      using ch False by simp_all
    have sp: "runs (nmbn_read_chunk E s off buf pos leading chunksize)
        (\<lambda>(r, b, t). io_only s t \<and> length b = length buf)"
      by (rule read_chunk_spec) (use less.prems c in simp_all)
    have "runs (nmbn_read_chunk E s off buf pos leading chunksize)
        (\<lambda>x. runs (case x of (ret, buf, s) \<Rightarrow> if ret < 0 then Some (ret, buf, s)
             else nmbn_read_data_loop E s (off + chunksize) buf (pos + chunksize) (n - chunksize))
          (\<lambda>(r, b, t). io_only s t \<and> length b = length buf \<and> r \<le> 0))"
    proof (rule runs_mono [OF sp], clarsimp)
      fix b :: "byte list" and t assume io: "io_only s t" and lb: "length b = length buf"
      have "runs (nmbn_read_data_loop E t (off + chunksize) b (pos + chunksize) (n - chunksize))
          (\<lambda>(r, b', u). io_only t u \<and> length b' = length b \<and> r \<le> 0)"
        by (rule less.IH) (use c lb less.prems io_only_ok [OF io] in simp_all)
      then show "runs (nmbn_read_data_loop E t (off + chunksize) b (pos + chunksize)
          (n - chunksize)) (\<lambda>(r, b', u). io_only s u \<and> length b' = length buf \<and> r \<le> 0)"
        by (rule runs_mono) (auto simp: lb intro: io_only_trans [OF io])
    qed
    then show ?thesis using False c(1)
      apply (subst nmbn_read_data_loop.simps)
      unfolding Let_def leading_def [symmetric] chunksize_def [symmetric]
      by (simp add: runs_bind)
  qed
qed

lemma read_data_spec:
  assumes "ok s" "n \<le> length buf"
  shows "runs (nmbn_read_data E s addr buf n)
     (\<lambda>(r, b, t). io_only s t \<and> length b = length buf \<and> r \<le> 0)"
  unfolding nmbn_read_data_def using assms by (intro read_data_loop_spec) simp_all

section \<open>Ranges of blocks\<close>

lemma write_repeated_loop_spec:
  assumes "ok s" "n \<le> length data" "n \<le> pg"  "pg = pg_size s"
  shows "runs (nmbm_write_repeated_loop E s addr off lim pg data n) (\<lambda>(r, t). io_only s t)"
  using assms
proof (induction "lim - off" arbitrary: s off rule: less_induct)
  case less
  have l: "length (data_buf s) = rawpage_size s" "pg_size s \<le> rawpage_size s" "0 < pg_size s"
    using less.prems(1) by (simp_all add: ok_def geom_def)
  show ?case
  proof (cases "off < lim")
    case False
    then show ?thesis by (subst nmbm_write_repeated_loop.simps) simp
  next
    case True
    define c where "c = take n data @ replicate (rawpage_size s - n) (255 :: byte)"
    have lc: "length c = length (data_buf s)" using less.prems l by (simp add: c_def)
    define p where "p = take n data @ drop n (data_buf s)"
    have m: "memput (data_buf s) 0 (take n data) = Some p"
      "memput p n (replicate (rawpage_size s - n) 255) = Some c"
      using less.prems l by (simp_all add: memput_def c_def p_def)
    obtain r d where w: "nmbm_write_phys_page E (s\<lparr>data_buf := c\<rparr>) (addr + off) (Some c) None
        = (r, s\<lparr>data_buf := c\<rparr>\<lparr>dev := d\<rparr>)"
      by (rule write_phys_pageE)
    obtain r' x d' where rd: "nmbm_read_phys_page E (s\<lparr>data_buf := c, dev := d\<rparr>) (addr + off)
        (Some c) None = (r', Some x, None, s\<lparr>data_buf := c, dev := d\<rparr>\<lparr>dev := d'\<rparr>)"
      and lx: "length x = length c"
      by (rule read_phys_pageE)
    let ?t = "s\<lparr>dev := d', data_buf := x\<rparr>"
    have io: "io_only s ?t" using lx lc by simp
    have "runs (nmbm_write_repeated_loop E ?t addr (off + pg) lim pg data n) (\<lambda>(r, u). io_only ?t u)"
      by (rule less.hyps)
         (use True l less.prems io_only_ok [OF io less.prems(1)] io_only_fields [OF io] in auto)
    then have "runs (nmbm_write_repeated_loop E ?t addr (off + pg) lim pg data n)
        (\<lambda>(r, u). io_only s u)"
      by (rule runs_mono) (auto intro: io_only_trans [OF io])
    then show ?thesis
      using True l less.prems(4) w rd lx lc
      by (subst nmbm_write_repeated_loop.simps) (auto simp: m Let_def)
  qed
qed

lemma write_repeated_data_spec:
  assumes "ok s" "n \<le> length data"
  shows "runs (nmbm_write_repeated_data E s ba data n) (\<lambda>(r, t). io_only s t)"
  using assms unfolding nmbm_write_repeated_data_def
  by (auto intro!: write_repeated_loop_spec)

text \<open>
  What work on a set of blocks does to the instance: it degrades within the set.
\<close>

definition works :: "nat set \<Rightarrow> 'd nmbm \<Rightarrow> 'd nmbm \<Rightarrow> bool" where
  "works A s t \<longleftrightarrow> degrades s t \<and> untouched A s t"

lemma works_refl [simp]: "works A s s"
  by (simp add: works_def)

lemma works_dev [simp]: "works A s (s\<lparr>dev := d\<rparr>)"
  by (simp add: works_def untouched_def)

lemma works_trans: "works A s t \<Longrightarrow> works B t u \<Longrightarrow> A \<union> B \<subseteq> C \<Longrightarrow> works C s u"
  unfolding works_def by (blast intro: degrades_trans untouched_mono untouched_trans)

lemma works_mono: "works A s t \<Longrightarrow> A \<subseteq> B \<Longrightarrow> works B s t"
  unfolding works_def by (blast intro: untouched_mono)

lemma works_ok: "works A s t \<Longrightarrow> ok s \<Longrightarrow> ok t"
  unfolding works_def using degrades_ok by blast

lemma works_tbl: "works A s t \<Longrightarrow> tbl t b = tbl s b"
  by (simp add: works_def degrades_tbl)

lemma works_good: "works A s t \<Longrightarrow> b \<notin> A \<Longrightarrow> good t b = good s b"
  by (auto simp: works_def dest: untouched_good)

lemma works_good_mono: "works A s t \<Longrightarrow> good t b \<Longrightarrow> good s b"
  by (auto simp: works_def dest: degrades_good)

lemma works_ngood: "works A s t \<Longrightarrow> A \<inter> {a..<n} = {} \<Longrightarrow> ngood t a n = ngood s a n"
  by (auto simp: works_def intro: untouched_ngood)

lemma use_block_works:
  assumes "geom s" "tbl s ba"
    and act: "\<And>t. io_only s t \<Longrightarrow> runs (act t) (\<lambda>(r, u). io_only t u)"
  shows "runs (nmbm_use_block E act s ba) (\<lambda>(r, t). works {ba} s t \<and> r = good t ba)"
proof -
  have "runs (nmbm_use_block E act s ba) (\<lambda>(r, t). degrades s t \<and> untouched {ba} s t
    \<and> r = good t ba \<and> (r \<longrightarrow> True))"
    by (rule use_block_spec [OF assms(1,2)]) (auto elim!: runs_mono dest!: act)
  then show ?thesis by (rule runs_mono) (auto simp: works_def)
qed

lemma ok_dev [simp]: "ok (s\<lparr>dev := d\<rparr>) = ok s"
  by (simp add: ok_def geom_def tables_def)

lemma ok_tbl: "ok s \<Longrightarrow> b < block_count s \<Longrightarrow> tbl s b"
  by (simp add: ok_def tables_tbl)

lemma erase_range_spec:
  assumes "ok s" "limit \<le> block_count s"
  shows "runs (nmbm_erase_range E s ba limit) (\<lambda>t. works {ba..<limit} s t)"
  using assms
proof (induction "limit - ba" arbitrary: s ba)
  case 0
  then show ?case by (subst nmbm_erase_range.simps) simp
next
  case (Suc k)
  have lt: "ba < limit" and k: "k = limit - Suc ba" using Suc.hyps(2) by auto
  have "runs (nmbm_use_block E (\<lambda>s. Some (True, s)) s ba) (\<lambda>(r, t). works {ba} s t \<and> r = good t ba)"
    by (rule use_block_works) (use Suc.prems lt ok_tbl [of s ba] in \<open>auto simp: ok_geom\<close>)
  then have "runs (nmbm_use_block E (\<lambda>s. Some (True, s)) s ba)
      (\<lambda>x. runs (case x of (_, s) \<Rightarrow> nmbm_erase_range E s (Suc ba) limit)
        (\<lambda>t. works {ba..<limit} s t))"
  proof (rule runs_mono, clarsimp)
    fix t assume w: "works {ba} s t"
    have "runs (nmbm_erase_range E t (Suc ba) limit) (\<lambda>u. works {Suc ba..<limit} t u)"
      by (rule Suc.hyps(1) [OF k])
         (use w Suc.prems works_ok in \<open>auto simp: works_def dest: degrades_fields\<close>)
    then show "runs (nmbm_erase_range E t (Suc ba) limit) (\<lambda>u. works {ba..<limit} s u)"
      by (rule runs_mono) (use lt in \<open>auto intro: works_trans [OF w]\<close>)
  qed
  then show ?case using lt by (subst nmbm_erase_range.simps) (simp add: runs_bind)
qed

lemma scan_badblocks_loop_spec:
  assumes "ok s" "n \<le> block_count s"
  shows "runs (nmbm_scan_badblocks_loop E s ba n) (\<lambda>t. works {ba..<n} s t)"
  using assms
proof (induction "n - ba" arbitrary: s ba)
  case 0
  then show ?case by (subst nmbm_scan_badblocks_loop.simps) simp
next
  case (Suc k)
  have lt: "ba < n" and k: "k = n - Suc ba" using Suc.hyps(2) by auto
  obtain r d where ck: "nmbm_check_bad_phys_block E s ba = (r, s\<lparr>dev := d\<rparr>)"
    by (rule check_bad_phys_blockE)
  have tb: "tbl (s\<lparr>dev := d\<rparr>) ba" using Suc.prems lt ok_tbl [of s ba] by (simp add: tbl_def)
  have "runs (if r then nmbm_set_block_state (s\<lparr>dev := d\<rparr>) ba 0 else Some (False, s\<lparr>dev := d\<rparr>))
      (\<lambda>(_, t). works {ba} s t)"
    using set_bad_spec [OF tb]
    by (auto simp: works_def elim!: runs_mono intro: degrades_trans [OF degrades_dev])
       (simp add: untouched_def)
  then have "runs (if r then nmbm_set_block_state (s\<lparr>dev := d\<rparr>) ba 0 else Some (False, s\<lparr>dev := d\<rparr>))
      (\<lambda>x. runs (case x of (_, s) \<Rightarrow> nmbm_scan_badblocks_loop E s (Suc ba) n)
        (\<lambda>t. works {ba..<n} s t))"
  proof (rule runs_mono, clarsimp)
    fix t assume w: "works {ba} s t"
    have "runs (nmbm_scan_badblocks_loop E t (Suc ba) n) (\<lambda>u. works {Suc ba..<n} t u)"
      by (rule Suc.hyps(1) [OF k])
         (use w Suc.prems works_ok in \<open>auto simp: works_def dest: degrades_fields\<close>)
    then show "runs (nmbm_scan_badblocks_loop E t (Suc ba) n) (\<lambda>u. works {ba..<n} s u)"
      by (rule runs_mono) (use lt in \<open>auto intro: works_trans [OF w]\<close>)
  qed
  then show ?case using lt ck
    by (subst nmbm_scan_badblocks_loop.simps) (simp add: runs_bind)
qed

section \<open>The management writer\<close>

text \<open>
  The number of blocks \<open>n\<close> bytes take. The writer, started at \<open>ba\<close>, goes to the first good
  block and uses that many good blocks, every good one it passes; it fails only if fewer of
  them are left below the limit. Good here is the state after the work, which has turned the
  blocks that failed bad.
\<close>

definition nblk :: "'d nmbm \<Rightarrow> nat \<Rightarrow> nat" where
  "nblk s n = (n + blk_size s - 1) div blk_size s"

lemma nblk_0 [simp]: "0 < blk_size s \<Longrightarrow> nblk s 0 = 0"
  by (simp add: nblk_def)

lemma nblk_step: "0 < blk_size s \<Longrightarrow> 0 < n \<Longrightarrow> nblk s n = Suc (nblk s (n - min n (blk_size s)))"
  unfolding nblk_def
proof (cases "n \<le> blk_size s")
  case True
  assume "0 < blk_size s" "0 < n"
  moreover from this have "(n + blk_size s - 1) div blk_size s = Suc ((n - 1) div blk_size s)"
    using div_add_self2 [of "blk_size s" "n - 1"] by simp
  ultimately show "(n + blk_size s - 1) div blk_size s
      = Suc ((n - min n (blk_size s) + blk_size s - 1) div blk_size s)" using True by simp
next
  case False
  assume "0 < blk_size s" "0 < n"
  then show "(n + blk_size s - 1) div blk_size s
      = Suc ((n - min n (blk_size s) + blk_size s - 1) div blk_size s)"
    using False div_add_self2 [of "blk_size s" "n - 1"] by simp
qed

lemma size2blk_nblk:
  assumes "geom s" "n + blk_size s - 1 < 4294967296"
  shows "size2blk s n = nblk s n"
proof -
  have b: "blk_size s = 2 ^ blk_shift s" using assms(1) by (simp add: geom_def)
  have "(n + blk_size s - 1) div blk_size s \<le> n + blk_size s - 1" by (rule div_le_dividend)
  then have "(n + blk_size s - 1) div 2 ^ blk_shift s < 4294967296"
    using assms(2) unfolding b [symmetric] by (rule order.strict_trans1)
  then show ?thesis by (simp only: size2blk_def nblk_def b) simp
qed

definition wrote :: "'d nmbm \<Rightarrow> nat \<Rightarrow> nat \<Rightarrow> nat option \<Rightarrow> nat \<Rightarrow> (nat \<times> nat) option \<Rightarrow> bool" where
  "wrote t ba limit start m r \<longleftrightarrow> (case r of
      Some (st, en) \<Rightarrow> ba \<le> en \<and> en \<le> max ba limit \<and> ngood t ba en = m
        \<and> (case start of Some st0 \<Rightarrow> st = st0
           | None \<Rightarrow> ba \<le> st \<and> st < en \<and> ngood t ba st = 0 \<and> good t st)
    | None \<Rightarrow> ngood t ba limit < m)"

lemma wrote_used:
  assumes "wrote t (Suc ba) limit (Some (case start of None \<Rightarrow> ba | Some b \<Rightarrow> b)) m r"
    "good t ba" "ba < limit"
  shows "wrote t ba limit start (Suc m) r"
  using assms by (auto simp: wrote_def ngood_first split: option.splits)

lemma wrote_skipped:
  assumes "wrote t (Suc ba) limit start m r" "\<not> good t ba" "ba < limit"
  shows "wrote t ba limit start m r"
  using assms by (auto simp: wrote_def ngood_first split: option.splits)

lemma write_mgmt_loop_spec:
  assumes "ok s" "limit \<le> block_count s" "pos + rem \<le> length data"
    "rem \<le> n" "0 < n" "start = None \<longleftrightarrow> rem = n"
  shows "runs (nmbm_write_mgmt_loop E s ba limit data pos rem n start) (\<lambda>(r, t).
    works {ba..<limit} s t \<and> wrote t ba limit start (nblk s rem) r)"
  using assms
proof (induction "limit - ba" arbitrary: s ba pos rem start)
  case 0
  have "0 < blk_size s" using 0 by (simp add: ok_def geom_def)
  then show ?case using 0
    by (subst nmbm_write_mgmt_loop.simps) (auto simp: wrote_def nblk_step split: option.splits)
next
  case (Suc k)
  have lt: "ba < limit" and k: "k = limit - Suc ba" using Suc.hyps(2) by auto
  have bs: "0 < blk_size s" using Suc.prems(1) by (simp add: ok_def geom_def)
  show ?case
  proof (cases "rem = 0")
    case True
    then show ?thesis using Suc.prems bs lt
      by (subst nmbm_write_mgmt_loop.simps) (auto simp: wrote_def split: option.splits)
  next
    case False
    define c where "c = min rem (blk_size s)"
    have c: "0 < c" "c \<le> rem" using False bs by (simp_all add: c_def)
    let ?act = "\<lambda>s. Option.bind (memget data pos c) (\<lambda>ptr.
        nmbn_write_verify_data E s (ba2addr s ba) ptr c)"
    have ub: "runs (nmbm_use_block E ?act s ba) (\<lambda>(r, t). works {ba} s t \<and> r = good t ba)"
    proof (rule use_block_works)
      show "geom s" "tbl s ba" using Suc.prems lt ok_tbl [of s ba] by (auto simp: ok_geom)
      fix t assume io: "io_only s t"
      show "runs (?act t) (\<lambda>(r, u). io_only t u)"
        using write_verify_data_spec [OF io_only_ok [OF io Suc.prems(1)],
            of c "take c (drop pos data)" E "ba2addr t ba"] Suc.prems(3)
        by (simp add: vcg c_def)
    qed
    have step: "runs (nmbm_write_mgmt_loop E t (Suc ba) limit data pos' rem' n start')
        (\<lambda>(r, u). works {ba..<limit} s u \<and> wrote u ba limit start (nblk s rem) r)"
      if w: "works {ba} s t" and "rem' = (if good t ba then rem - c else rem)"
        "pos' = (if good t ba then pos + c else pos)"
        "start' = (if good t ba then Some (case start of None \<Rightarrow> ba | Some b \<Rightarrow> b) else start)"
      for t pos' rem' start'
    proof -
      have IH: "runs (nmbm_write_mgmt_loop E t (Suc ba) limit data pos' rem' n start')
        (\<lambda>(r, u). works {Suc ba..<limit} t u \<and> wrote u (Suc ba) limit start' (nblk t rem') r)"
        by (rule Suc.hyps(1) [OF k])
           (use that c Suc.prems works_ok [OF w] in \<open>auto simp: works_def dest: degrades_fields\<close>)
      have nb: "nblk t = nblk s"
        using w by (auto simp: works_def nblk_def fun_eq_iff dest: degrades_fields)
      show ?thesis
      proof (rule runs_mono [OF IH], clarsimp)
        fix r u
        assume w2: "works {Suc ba..<limit} t u" and wr: "wrote u (Suc ba) limit start' (nblk t rem') r"
        have g: "good u ba = good t ba" by (rule works_good [OF w2]) simp
        have "wrote u ba limit start (nblk s rem) r"
        proof (cases "good t ba")
          case True
          have "nblk s rem = Suc (nblk t rem')"
            using nblk_step [OF bs, of rem] False True that(2) nb by (simp add: c_def)
          then show ?thesis using wrote_used [OF _ _ lt] wr True g that(4) by simp
        next
          case False
          then show ?thesis using wrote_skipped [OF _ _ lt] wr g that(2,4) nb by simp
        qed
        then show "works {ba..<limit} s u \<and> wrote u ba limit start (nblk s rem) r"
          using works_trans [OF w w2, of "{ba..<limit}"] lt by auto
      qed
    qed
    have "runs (nmbm_use_block E ?act s ba) (\<lambda>x. runs (case x of (success, s) \<Rightarrow>
        let (pos, rem', start) =
          (if success then (pos + c, rem - c, if rem = n then Some ba else start)
           else (pos, rem, start))
        in nmbm_write_mgmt_loop E s (Suc ba) limit data pos rem' n start)
        (\<lambda>(r, u). works {ba..<limit} s u \<and> wrote u ba limit start (nblk s rem) r))"
    proof (rule runs_mono [OF ub])
      fix x :: "bool \<times> 'a nmbm"
      assume "case x of (r, t) \<Rightarrow> works {ba} s t \<and> r = good t ba"
      then obtain t where x: "x = (good t ba, t)" and w: "works {ba} s t" by (cases x) auto
      show "runs (case x of (success, s) \<Rightarrow>
        let (pos, rem', start) =
          (if success then (pos + c, rem - c, if rem = n then Some ba else start)
           else (pos, rem, start))
        in nmbm_write_mgmt_loop E s (Suc ba) limit data pos rem' n start)
        (\<lambda>(r, u). works {ba..<limit} s u \<and> wrote u ba limit start (nblk s rem) r)"
        using step [OF w refl refl refl] Suc.prems(6)
        by (cases "good t ba"; cases start) (simp_all add: x)
    qed
    then show ?thesis
      using False lt
      apply (subst nmbm_write_mgmt_loop.simps)
      unfolding Let_def c_def [symmetric]
      by (simp add: runs_bind)
  qed
qed

lemma write_mgmt_range_spec:
  assumes "ok s" "limit \<le> block_count s" "n \<le> length data" "0 < n"
  shows "runs (nmbm_write_mgmt_range E s ba limit data n) (\<lambda>(r, t).
    works {ba..<limit} s t \<and> wrote t ba limit None (nblk s n) r)"
  unfolding nmbm_write_mgmt_range_def
  by (rule write_mgmt_loop_spec) (use assms in simp_all)

text \<open>
  The signature goes to the highest good block above the limit.
\<close>

definition signature_at :: "'d nmbm \<Rightarrow> nat \<Rightarrow> nat \<Rightarrow> nat option \<Rightarrow> bool" where
  "signature_at t limit ba r \<longleftrightarrow> (case r of
      Some b \<Rightarrow> limit < b \<and> b \<le> ba \<and> good t b \<and> ngood t (Suc b) (Suc ba) = 0
    | None \<Rightarrow> ngood t (Suc limit) (Suc ba) = 0)"

lemma signature_at_skipped:
  assumes "signature_at t limit (ba - 1) r" "\<not> good t ba" "limit < ba"
  shows "signature_at t limit ba r"
proof -
  have "Suc (ba - 1) = ba" using assms(3) by simp
  then show ?thesis using assms by (auto simp: signature_at_def ngood_last split: option.splits)
qed

lemma write_signature_loop_spec:
  assumes "ok s" "ba < block_count s" "length (sig_padding sg) = 7"
  shows "runs (nmbm_write_signature_loop E s ba limit sg) (\<lambda>(r, t).
    works {limit<..ba} s t \<and> signature_at t limit ba r)"
  using assms(1,2)
proof (induction "ba - limit" arbitrary: s ba)
  case 0
  then show ?case by (subst nmbm_write_signature_loop.simps) (simp add: signature_at_def)
next
  case (Suc k)
  have lt: "limit < ba" and k: "k = ba - 1 - limit" using Suc.hyps(2) by auto
  let ?act = "\<lambda>s. nmbm_write_repeated_data E s ba (signature_bytes sg) sizeof_signature"
  have ub: "runs (nmbm_use_block E ?act s ba) (\<lambda>(r, t). works {ba} s t \<and> r = good t ba)"
  proof (rule use_block_works)
    show "geom s" "tbl s ba" using Suc.prems ok_tbl [of s ba] by (auto simp: ok_geom)
    fix t assume io: "io_only s t"
    show "runs (?act t) (\<lambda>(r, u). io_only t u)"
      by (rule write_repeated_data_spec [OF io_only_ok [OF io Suc.prems(1)]])
         (use signature.length_bytes [of sg] assms(3) in simp)
  qed
  have "runs (nmbm_use_block E ?act s ba) (\<lambda>x. runs (case x of (success, s) \<Rightarrow>
      if success then Some (Some ba, s) else nmbm_write_signature_loop E s (ba - 1) limit sg)
      (\<lambda>(r, u). works {limit<..ba} s u \<and> signature_at u limit ba r))"
  proof (rule runs_mono [OF ub])
    fix x :: "bool \<times> 'a nmbm"
    assume "case x of (r, t) \<Rightarrow> works {ba} s t \<and> r = good t ba"
    then obtain t where x: "x = (good t ba, t)" and w: "works {ba} s t" by (cases x) auto
    show "runs (case x of (success, s) \<Rightarrow>
      if success then Some (Some ba, s) else nmbm_write_signature_loop E s (ba - 1) limit sg)
      (\<lambda>(r, u). works {limit<..ba} s u \<and> signature_at u limit ba r)"
    proof (cases "good t ba")
      case True
      then show ?thesis using lt works_mono [OF w, of "{limit<..ba}"] by (simp add: x signature_at_def)
    next
      case False
      have "runs (nmbm_write_signature_loop E t (ba - 1) limit sg)
          (\<lambda>(r, u). works {limit<..ba - 1} t u \<and> signature_at u limit (ba - 1) r)"
        by (rule Suc.hyps(1) [OF k])
           (use Suc.prems works_ok [OF w] w in \<open>auto simp: works_def dest: degrades_fields\<close>)
      then have "runs (nmbm_write_signature_loop E t (ba - 1) limit sg)
          (\<lambda>(r, u). works {limit<..ba} s u \<and> signature_at u limit ba r)"
      proof (rule runs_mono, clarsimp)
        fix r u assume w2: "works {limit<..ba - Suc 0} t u" and sg: "signature_at u limit (ba - Suc 0) r"
        have "\<not> good u ba" using False works_good_mono [OF w2] by blast
        moreover have "{ba} \<union> {limit<..ba - Suc 0} \<subseteq> {limit<..ba}" using lt by auto
        ultimately show "works {limit<..ba} s u \<and> signature_at u limit ba r"
          using sg lt works_trans [OF w w2] signature_at_skipped [of u limit ba r] by auto
      qed
      then show ?thesis using False by (simp add: x)
    qed
  qed
  then show ?case using lt by (subst nmbm_write_signature_loop.simps) (simp add: runs_bind)
qed

lemma write_signature_spec:
  assumes "ok s" "length (sig_padding sg) = 7"
  shows "runs (nmbm_write_signature E s limit sg) (\<lambda>(r, t).
    works {limit<..block_count s - 1} s t \<and> signature_at t limit (block_count s - 1) r)"
proof -
  have "0 < block_count s" "block_count s < 65536" using assms(1) by (simp_all add: ok_def tables_def)
  then show ?thesis
    unfolding nmbm_write_signature_def
    using write_signature_loop_spec [OF assms(1) _ assms(2), of "block_count s - 1" E limit] by simp
qed

end
