(* ===== verification/Nmbm_Update.thy ===== *)
theory Nmbm_Update
  imports Nmbm_Tables Nmbm_Mgmt
begin

text \<open>
  The info tables stay where they can be found: generating and writing them runs for every
  behaviour of the driver, the update loop ends, and after every successful update the tables
  lie in the management area in the order main, backup, spare blocks.
\<close>

section \<open>Instances and what the update changes\<close>

text \<open>
  An attached instance: the cache has the size of the table, the two tables fit into it
  behind the header and do not overlap, and the spare blocks end within the chip.
\<close>

definition inst :: "'d nmbm \<Rightarrow> bool" where
  "inst s \<longleftrightarrow> ok s \<and> length (info_table_cache s) = info_table_size s
     \<and> state_table_size s = 4 * length (block_state s)
     \<and> mapping_table_size s = 4 * length (block_mapping s)
     \<and> sizeof_info_table_header \<le> unat (it_state_table_off (info_table s))
     \<and> unat (it_state_table_off (info_table s)) + state_table_size s
         \<le> unat (it_mapping_table_off (info_table s))
     \<and> unat (it_mapping_table_off (info_table s)) + mapping_table_size s \<le> info_table_size s
     \<and> info_table_size s + blk_size s < 4294967296
     \<and> info_table_spare_blocks s < 2147483648 \<and> mapping_blocks_top_ba s \<le> block_count s"

text \<open>
  \<open>maintains s t\<close>: beside the device and the page buffer, only the two info tables, the records
  of where they are, the change counters and the protection flag have changed, and blocks have
  turned bad.
\<close>

definition maintains :: "'d nmbm \<Rightarrow> 'd nmbm \<Rightarrow> bool" where
  "maintains s t \<longleftrightarrow>
     t = s\<lparr>dev := dev t, data_buf := data_buf t, block_state := block_state t,
           block_state_changed := block_state_changed t,
           block_mapping_changed := block_mapping_changed t,
           info_table := info_table t, info_table_cache := info_table_cache t,
           main_table_ba := main_table_ba t, backup_table_ba := backup_table_ba t,
           mapping_blocks_ba := mapping_blocks_ba t, protected := protected t\<rparr>
     \<and> length (data_buf t) = length (data_buf s) \<and> degrade (block_state s) (block_state t)
     \<and> length (info_table_cache t) = length (info_table_cache s)
     \<and> it_state_table_off (info_table t) = it_state_table_off (info_table s)
     \<and> it_mapping_table_off (info_table t) = it_mapping_table_off (info_table s)"

lemma maintains_refl [simp]: "maintains s s"
  by (simp add: maintains_def)

lemma maintains_trans: "maintains s t \<Longrightarrow> maintains t u \<Longrightarrow> maintains s u"
  unfolding maintains_def
  by (cases s; cases t; cases u) (auto intro: degrade_trans)

lemma works_maintains: "works A s t \<Longrightarrow> maintains s t"
  by (auto simp: works_def maintains_def elim!: degradesE)

lemma maintains_sets [simp]:
  "maintains s (t\<lparr>main_table_ba := a\<rparr>) = maintains s t"
  "maintains s (t\<lparr>backup_table_ba := a\<rparr>) = maintains s t"
  "maintains s (t\<lparr>mapping_blocks_ba := a\<rparr>) = maintains s t"
  "maintains s (t\<lparr>protected := p\<rparr>) = maintains s t"
  "maintains s (t\<lparr>block_state_changed := c\<rparr>) = maintains s t"
  "maintains s (t\<lparr>block_mapping_changed := c\<rparr>) = maintains s t"
  unfolding maintains_def by (cases s; cases t; auto)+

lemma maintains_clean [simp]: "maintains s (nmbm_mark_tables_clean t) = maintains s t"
  by (simp add: nmbm_mark_tables_clean_def)

lemma maintains_fields:
  assumes "maintains s t"
  shows "mgmt_start_ba t = mgmt_start_ba s" "mapping_blocks_top_ba t = mapping_blocks_top_ba s"
    "info_table_size t = info_table_size s" "block_count t = block_count s"
    "info_table_spare_blocks t = info_table_spare_blocks s" "block_mapping t = block_mapping s"
    "length (block_state t) = length (block_state s)" "nnb (block_state t) \<le> nnb (block_state s)"
    "blk_size t = blk_size s" "blk_shift t = blk_shift s" "data_block_count t = data_block_count s"
    "signature_ba t = signature_ba s" "pg_size t = pg_size s" "size2blk t = size2blk s"
    "nblk t = nblk s"
proof -
  have t: "t = s\<lparr>dev := dev t, data_buf := data_buf t, block_state := block_state t,
           block_state_changed := block_state_changed t,
           block_mapping_changed := block_mapping_changed t,
           info_table := info_table t, info_table_cache := info_table_cache t,
           main_table_ba := main_table_ba t, backup_table_ba := backup_table_ba t,
           mapping_blocks_ba := mapping_blocks_ba t, protected := protected t\<rparr>"
    and d: "degrade (block_state s) (block_state t)"
    using assms by (simp_all add: maintains_def)
  show "mgmt_start_ba t = mgmt_start_ba s" "mapping_blocks_top_ba t = mapping_blocks_top_ba s"
    "info_table_size t = info_table_size s" "block_count t = block_count s"
    "info_table_spare_blocks t = info_table_spare_blocks s" "block_mapping t = block_mapping s"
    "blk_size t = blk_size s" "blk_shift t = blk_shift s" "data_block_count t = data_block_count s"
    "signature_ba t = signature_ba s" "pg_size t = pg_size s"
    by (rule trans [OF arg_cong [OF t]], simp)+
  then show "size2blk t = size2blk s" "nblk t = nblk s"
    by (simp_all add: fun_eq_iff size2blk_def nblk_def)
  show "length (block_state t) = length (block_state s)" "nnb (block_state t) \<le> nnb (block_state s)"
    using d by (simp_all add: degrade_def)
qed

lemma maintains_inst: "maintains s t \<Longrightarrow> inst s \<Longrightarrow> inst t"
  unfolding maintains_def inst_def ok_def geom_def tables_def degrade_def
  by (cases s; cases t) auto

text \<open>
  \<open>settled s t\<close>: \<open>t\<close> has clean tables but for blocks that turned bad on the way from \<open>s\<close>, in which
  case fewer blocks are left that are not bad. This is what makes the update loop end.
\<close>

definition settled :: "'d nmbm \<Rightarrow> 'd nmbm \<Rightarrow> bool" where
  "settled s t \<longleftrightarrow> block_mapping_changed t = 0
     \<and> (block_state_changed t \<noteq> 0 \<longrightarrow> nnb (block_state t) < nnb (block_state s))"

lemma settled_clean [simp]: "settled s (nmbm_mark_tables_clean t)"
  by (simp add: settled_def nmbm_mark_tables_clean_def)

lemma settled_works:
  assumes "settled s t" "works A t u" "maintains s t"
  shows "settled s u"
proof -
  obtain d b bs where u: "u = t\<lparr>dev := d, data_buf := b, block_state := bs,
       block_state_changed := block_state_changed t + word_of_nat (nnb (block_state t) - nnb bs)\<rparr>"
    "degrade (block_state t) bs"
    using assms(2) unfolding works_def by (auto elim: degradesE)
  have "nnb bs \<le> nnb (block_state t)" using u(2) by (simp add: degrade_def)
  moreover have "nnb (block_state t) \<le> nnb (block_state s)" by (rule maintains_fields [OF assms(3)])
  ultimately show ?thesis using assms(1) u(1)
    by (cases "nnb bs = nnb (block_state t)") (auto simp: settled_def)
qed

lemma settled_sets [simp]:
  "settled s (t\<lparr>main_table_ba := a\<rparr>) = settled s t"
  "settled s (t\<lparr>backup_table_ba := a\<rparr>) = settled s t"
  "settled s (t\<lparr>mapping_blocks_ba := a\<rparr>) = settled s t"
  by (simp_all add: settled_def)

lemma settled_mono: "settled t u \<Longrightarrow> maintains s t \<Longrightarrow> settled s u"
  using maintains_fields(8) [of s t] by (auto simp: settled_def)

section \<open>The image\<close>

lemma update_checksum_runs:
  assumes "16 \<le> length data" "unat (h_size (bytes_header data)) \<le> length data"
  shows "runs (nmbm_update_checksum E data) (\<lambda>d. length d = length data)"
proof -
  have "length (take 12 data @ le32 c @ drop 16 data) = length data" for c using assms by simp
  moreover have "bytes_header (take 12 data @ le32 c @ drop 16 data)
      = (bytes_header data)\<lparr>h_checksum := c\<rparr>" for c
    by (rule bytes_header_memput_checksum [OF assms(1)])
  ultimately show ?thesis using assms
    by (simp add: nmbm_update_checksum_def vcg del: take_append drop_append length_append) simp
qed

definition next_table :: "'d nmbm \<Rightarrow> nmbm_info_table_header" where
  "next_table s = (info_table s)\<lparr>
     it_header := (it_header (info_table s))\<lparr>h_magic := NMBM_MAGIC_INFO_TABLE,
       h_version := NMBM_VER, h_size := word_of_nat (info_table_size s)\<rparr>,
     it_write_count := it_write_count (info_table s)
       + (if block_state_changed s \<noteq> 0 \<or> block_mapping_changed s \<noteq> 0 then 1 else 0)\<rparr>"

text \<open>The image before the checksum is put into it.\<close>

definition table_image :: "'d nmbm \<Rightarrow> byte list" where
  "table_image s =
     (let so = unat (it_state_table_off (info_table s));
          mo = unat (it_mapping_table_off (info_table s));
          st = words_bytes (block_state s); mp = words_bytes (block_mapping s)
      in info_header_bytes (next_table s) @ replicate (so - 32) 0xff @ st
         @ replicate (mo - (so + length st)) 0xff @ mp
         @ replicate (info_table_size s - (mo + length mp)) 0xff)"

lemma inst_bounds:
  assumes "inst s"
  defines "so \<equiv> unat (it_state_table_off (info_table s))"
    and "mo \<equiv> unat (it_mapping_table_off (info_table s))"
  shows "32 \<le> so" "so + length (words_bytes (block_state s)) \<le> mo"
    "mo + length (words_bytes (block_mapping s)) \<le> info_table_size s"
    "info_table_size s < 4294967296" "length (info_table_cache s) = info_table_size s"
    "state_table_size s = length (words_bytes (block_state s))"
    "mapping_table_size s = length (words_bytes (block_mapping s))"
  using assms by (simp_all add: inst_def)

lemma length_table_image: "inst s \<Longrightarrow> length (table_image s) = info_table_size s"
  using inst_bounds [of s] by (simp add: table_image_def Let_def)

lemma header_table_image:
  "inst s \<Longrightarrow> bytes_header (table_image s) = it_header (next_table s)"
  using header.of_bytes_bytes [of "it_header (next_table s)"]
  by (simp add: table_image_def Let_def info_header_bytes_def)

lemma put_front:
  assumes "length h = 32" "32 \<le> so"
  shows "memput (replicate so x @ r) 0 h = Some (h @ replicate (so - 32) x @ r)"
  using assms by (simp add: memput_def)

lemma generate_eq:
  assumes "inst s"
  shows "nmbm_generate_info_table_cache E s =
    Option.bind (nmbm_update_checksum E (table_image s)) (\<lambda>c.
      Some (block_state_changed s \<noteq> 0 \<or> block_mapping_changed s \<noteq> 0,
            s\<lparr>info_table := next_table s, info_table_cache := c\<rparr>))"
proof -
  note b = inst_bounds [OF assms]
  define st where "st = words_bytes (block_state s)"
  define mp where "mp = words_bytes (block_mapping s)"
  define so where "so = unat (it_state_table_off (info_table s))"
  define mo where "mo = unat (it_mapping_table_off (info_table s))"
  define n where "n = info_table_size s"
  have b': "32 \<le> so" "so + length st \<le> mo" "mo + length mp \<le> n"
    "length (info_table_cache s) = n" "state_table_size s = length st"
    "mapping_table_size s = length mp"
    using b by (simp_all only: st_def mp_def so_def mo_def n_def)
  have m: "memput (info_table_cache s) 0 (replicate n 255) = Some (replicate n 255)"
    "memget st 0 (length st) = Some st" "memget mp 0 (length mp) = Some mp"
    using b' by (simp_all add: memput_def memget_def)
  have m1: "memput (replicate n 255) so st
      = Some (replicate so 255 @ st @ replicate (n - (so + length st)) 255)"
    using b' by (simp add: memput_def)
  have m2: "memput (replicate so 255 @ st @ replicate (n - (so + length st)) 255) mo mp
      = Some (replicate so 255 @ st @ replicate (mo - (so + length st)) 255 @ mp
          @ replicate (n - (mo + length mp)) 255)"
    using b' by (simp add: memput_def)
  have nt: "(if block_state_changed s \<noteq> 0 \<or> block_mapping_changed s \<noteq> 0
      then (it\<lparr>it_write_count := it_write_count it + 1\<rparr>, True) else (it, False))
    = (next_table s, block_state_changed s \<noteq> 0 \<or> block_mapping_changed s \<noteq> 0)"
    if "it = (info_table s)\<lparr>it_header := (it_header (info_table s))\<lparr>h_magic := NMBM_MAGIC_INFO_TABLE,
       h_version := NMBM_VER, h_size := word_of_nat (info_table_size s)\<rparr>\<rparr>" for it
    by (simp add: that next_table_def)
  show ?thesis
    unfolding nmbm_generate_info_table_cache_def st_def [symmetric] mp_def [symmetric]
      so_def [symmetric] mo_def [symmetric] b'(5,6) Let_def nt [OF refl]
    using m m1 m2 put_front [OF length_info_header_bytes b'(1)]
    by (simp add: table_image_def Let_def n_def st_def mp_def so_def mo_def)
qed

lemma generate_spec:
  assumes "inst s"
  shows "runs (nmbm_generate_info_table_cache E s) (\<lambda>(r, t).
    maintains s t \<and> r = (block_state_changed s \<noteq> 0 \<or> block_mapping_changed s \<noteq> 0)
    \<and> (\<exists>c. t = s\<lparr>info_table := next_table s, info_table_cache := c\<rparr>))"
proof -
  note b = inst_bounds [OF assms]
  have sz: "unat (word_of_nat (info_table_size s) :: u32) = info_table_size s"
    using b(4) by (simp add: unat_of_nat)
  have "runs (nmbm_update_checksum E (table_image s)) (\<lambda>d. length d = length (table_image s))"
    by (rule update_checksum_runs)
       (use b(1-4) in \<open>simp_all add: length_table_image header_table_image assms next_table_def sz\<close>)
  then show ?thesis
    unfolding generate_eq [OF assms] runs_bind
    by (rule runs_mono)
       (use length_table_image [OF assms] b(5) in \<open>auto simp: maintains_def next_table_def\<close>)
qed

section \<open>Writing a table\<close>

lemma inst_ok: "inst s \<Longrightarrow> ok s"
  by (simp add: inst_def)

lemma wrote_SomeD:
  assumes "wrote t ba limit None m (Some (st, en))" "0 < m"
  shows "ba \<le> st" "st < en" "en \<le> limit" "good t st" "ngood t st en = m"
proof -
  have w: "ba \<le> en" "en \<le> max ba limit" "ngood t ba en = m" "ba \<le> st" "st < en"
    "ngood t ba st = 0" "good t st"
    using assms(1) by (auto simp: wrote_def)
  then show "ba \<le> st" "st < en" "good t st" by simp_all
  show "en \<le> limit"
  proof (rule ccontr)
    assume "\<not> en \<le> limit"
    then have "en \<le> ba" using w(1,2) by simp
    then show False using w(3) assms(2) by simp
  qed
  show "ngood t st en = m" using w ngood_split [of ba st en t] by simp
qed

lemma table_blocks:
  assumes "inst s"
  shows "0 < nblk s (info_table_size s)" "size2blk s (info_table_size s) = nblk s (info_table_size s)"
proof -
  have g: "geom s" "info_table_size s + blk_size s < 4294967296" "32 \<le> info_table_size s"
    using assms by (simp_all add: inst_def ok_def)
  then show "0 < nblk s (info_table_size s)"
    by (subst nblk_step) (simp_all add: geom_def)
  show "size2blk s (info_table_size s) = nblk s (info_table_size s)"
    by (rule size2blk_nblk) (use g in simp_all)
qed

lemma write_info_table_spec:
  assumes "inst s" "limit \<le> mapping_blocks_top_ba s"
  shows "runs (nmbm_write_info_table E s ba limit) (\<lambda>(r, t). works {ba..<limit} s t
    \<and> wrote t ba limit None (nblk s (info_table_size s)) r
    \<and> (\<forall>st en. r = Some (st, en) \<longrightarrow> ba \<le> st \<and> st < en \<and> en \<le> limit))"
proof -
  have "limit \<le> block_count s" "info_table_size s \<le> length (info_table_cache s)"
    "0 < info_table_size s"
    using assms by (simp_all add: inst_def)
  from write_mgmt_range_spec [OF inst_ok [OF assms(1)] this] show ?thesis
    unfolding nmbm_write_info_table_def
    by (rule runs_mono) (auto dest: wrote_SomeD [OF _ table_blocks(1) [OF assms(1)]])
qed

lemma erase_spec:
  assumes "inst s" "limit \<le> mapping_blocks_top_ba s"
  shows "runs (nmbm_erase_range E s ba limit) (\<lambda>t. works {ba..<limit} s t)"
  by (rule erase_range_spec) (use assms in \<open>simp_all add: inst_def\<close>)

lemma reserve_spec:
  assumes "inst s"
  shows "runs (nmbm_try_reserve_blocks s ba (info_table_spare_blocks s) 0 limit)
    (\<lambda>r. \<forall>nba. r = Some nba \<longrightarrow> ba \<le> nba \<and> nba < block_count s)"
proof -
  have t: "tables s" "info_table_spare_blocks s < 2147483648"
    using assms by (simp_all add: inst_def ok_def)
  show ?thesis
    by (rule runs_mono [OF try_reserve_spec [OF t, of ba limit]])
       (use walk_limit_less [OF t(1), of limit] in \<open>auto split: option.splits\<close>)
qed

section \<open>Where the tables are\<close>

text \<open>
  In the management area lie, in this order, the main table, the backup table if there is one,
  and the spare blocks, which end at the top.
\<close>

definition placed :: "'d nmbm \<Rightarrow> bool" where
  "placed s \<longleftrightarrow> mgmt_start_ba s \<le> main_table_ba s \<and> main_table_ba s < mapping_blocks_ba s
     \<and> mapping_blocks_ba s \<le> mapping_blocks_top_ba s
     \<and> (backup_table_ba s \<noteq> 0 \<longrightarrow>
          main_table_ba s < backup_table_ba s \<and> backup_table_ba s < mapping_blocks_ba s)"

lemma placed_clean [simp]: "placed (nmbm_mark_tables_clean s) = placed s"
  by (simp add: placed_def nmbm_mark_tables_clean_def)

lemma works_fields:
  assumes "works A s t"
  shows "main_table_ba t = main_table_ba s" "backup_table_ba t = backup_table_ba s"
    "mapping_blocks_ba t = mapping_blocks_ba s" "mapping_blocks_top_ba t = mapping_blocks_top_ba s"
    "mgmt_start_ba t = mgmt_start_ba s" "info_table_size t = info_table_size s"
    "protected t = protected s" "block_count t = block_count s" "nblk t = nblk s"
    "size2blk t = size2blk s" "block_mapping_changed t = block_mapping_changed s"
    "info_table_cache t = info_table_cache s" "info_table t = info_table s"
  using assms by (auto simp: works_def size2blk_def nblk_def fun_eq_iff elim!: degradesE)

lemma works_placed: "works A s t \<Longrightarrow> placed t = placed s"
  by (simp add: placed_def works_fields)

text \<open>
  The outcome of a routine that keeps the tables: on success they are placed and settled, on
  failure the chip has become read-only.
\<close>

definition kept :: "'d nmbm \<Rightarrow> bool \<times> 'd nmbm \<Rightarrow> bool" where
  "kept s = (\<lambda>(r, t). maintains s t \<and> (if r then placed t \<and> settled s t
     else protected t \<and> mapping_blocks_ba t \<le> mapping_blocks_top_ba t))"

lemma kept_simps [simp]:
  "kept s (True, t) \<longleftrightarrow> maintains s t \<and> placed t \<and> settled s t"
  "kept s (False, t) \<longleftrightarrow>
     maintains s t \<and> protected t \<and> mapping_blocks_ba t \<le> mapping_blocks_top_ba t"
  by (simp_all add: kept_def)

lemma kept_after: "maintains s t \<Longrightarrow> kept t x \<Longrightarrow> kept s x"
  by (auto simp: kept_def dest: maintains_trans settled_mono split: if_splits)

text \<open>A table written above all others becomes the backup; the gap below it is erased.\<close>

lemma new_backup:
  assumes "inst s" "maintains s v" "placed v" "settled s v"
    and b: "mapping_blocks_ba v \<le> st" "st < en" "en \<le> mapping_blocks_top_ba v"
  shows "runs (Option.bind (nmbm_erase_range E (v\<lparr>backup_table_ba := st, mapping_blocks_ba := en\<rparr>)
      lo st) (\<lambda>s. Some (True, s))) (kept s)"
proof -
  define v' where "v' = v\<lparr>backup_table_ba := st, mapping_blocks_ba := en\<rparr>"
  have mv: "maintains s v'" using assms(2) by (simp add: v'_def)
  have pv: "placed v'" using assms(3) b by (simp add: placed_def v'_def)
  have sv: "settled s v'" using assms(4) by (simp add: v'_def)
  have l: "st \<le> mapping_blocks_top_ba v'" using b by (simp add: v'_def)
  show ?thesis
    unfolding v'_def [symmetric]
    by (rule runs_bindI [OF erase_spec [OF maintains_inst [OF mv assms(1)] l]])
       (use mv pv sv in \<open>auto simp: kept_def works_placed
          intro: maintains_trans works_maintains settled_works\<close>)
qed

lemma write_spare_spec:
  assumes "inst s" "maintains s u" "placed u" "settled s u" "mapping_blocks_ba u \<le> ba"
  shows "runs (nmbm_write_info_table E u ba (mapping_blocks_top_ba u)) (\<lambda>(r, v).
    works {ba..<mapping_blocks_top_ba u} u v \<and> maintains s v \<and> placed v \<and> settled s v
    \<and> (\<forall>st en. r = Some (st, en) \<longrightarrow>
        mapping_blocks_ba v \<le> st \<and> st < en \<and> en \<le> mapping_blocks_top_ba v))"
  by (rule runs_mono [OF write_info_table_spec [OF maintains_inst [OF assms(2,1)] order.refl]])
     (use assms in \<open>auto simp: works_placed works_fields
        intro: maintains_trans works_maintains settled_works\<close>)

lemma rebuild_backup_spec:
  assumes "inst s" "maintains s u" "placed u" "settled s u" "mapping_blocks_ba u \<le> ba"
  shows "runs (Option.bind (nmbm_write_info_table E u ba (mapping_blocks_top_ba u)) (\<lambda>(r, s).
      case r of None \<Rightarrow> Some (True, s)
      | Some (table_start_ba, table_end_ba) \<Rightarrow>
          let s = s\<lparr>backup_table_ba := table_start_ba, mapping_blocks_ba := table_end_ba\<rparr>
          in Option.bind (nmbm_erase_range E s lo (backup_table_ba s)) (\<lambda>s. Some (True, s)))) (kept s)"
proof (rule runs_bind_pairI [OF write_spare_spec [OF assms]], goal_cases)
  case (1 r v)
  then show ?case
    using new_backup [OF assms(1), of v]
    by (auto simp: Let_def split: option.split)
qed

lemma rebuild_spec:
  assumes "inst s" "mgmt_start_ba s \<le> mapping_blocks_top_ba s"
  shows "runs (nmbm_rebuild_info_table E s) (kept s)"
proof -
  define s0 where "s0 = s\<lparr>main_table_ba := 0, backup_table_ba := 0,
                 mapping_blocks_ba := mapping_blocks_top_ba s\<rparr>"
  have m0: "maintains s s0" by (simp add: s0_def)
  have i0: "inst s0" by (rule maintains_inst [OF m0 assms(1)])
  have f0: "mgmt_start_ba s0 = mgmt_start_ba s" "mapping_blocks_top_ba s0 = mapping_blocks_top_ba s"
    "backup_table_ba s0 = 0"
    by (simp_all add: s0_def)
  show ?thesis
    unfolding nmbm_rebuild_info_table_def Let_def s0_def [symmetric]
  proof (rule runs_bind_pairI [OF write_info_table_spec [OF i0 order.refl]], elim conjE, goal_cases)
    case (1 r t)
    have mt: "maintains s t" by (rule maintains_trans [OF m0 works_maintains [OF 1(1)]])
    show ?case
    proof (cases r)
      case None
      then show ?thesis using mt works_fields [OF 1(1)] by (simp add: s0_def)
    next
      case (Some p)
      obtain st en where p: "p = (st, en)" by (cases p)
      define u where "u = nmbm_mark_tables_clean (t\<lparr>main_table_ba := st, mapping_blocks_ba := en\<rparr>)"
      have mu: "maintains s u" and su: "settled s u" using mt by (simp_all add: u_def)
      have fu: "backup_table_ba u = 0" "main_table_ba u = st" "mapping_blocks_ba u = en"
        "mapping_blocks_top_ba u = mapping_blocks_top_ba s" "mgmt_start_ba u = mgmt_start_ba s"
        using works_fields [OF 1(1)] f0 by (simp_all add: u_def nmbm_mark_tables_clean_def)
      have pu: "placed u" using 1(3) Some p f0 fu by (auto simp: placed_def)
      show ?thesis
        unfolding Some p option.case prod.case u_def [symmetric]
      proof (rule runs_bindI [OF reserve_spec [OF maintains_inst [OF mu assms(1)]]], goal_cases)
        case (1 x)
        then show ?case
          using mu pu su fu(3) rebuild_backup_spec [OF assms(1) mu pu su, unfolded Let_def]
          by (cases x) auto
      qed
    qed
  qed
qed

section \<open>Rescues\<close>

lemma write_down_loop_spec:
  assumes "inst s" "maintains s u" "0 < lower" "ba < block_count s"
  shows "runs (nmbm_write_down_loop E u ba lower) (\<lambda>(r, v).
    works {lower..<mapping_blocks_top_ba u} u v
    \<and> (\<forall>st en. r = Some (st, en) \<longrightarrow> lower \<le> st \<and> st < en \<and> en \<le> mapping_blocks_top_ba u))"
  using assms(2,4)
proof (induction ba arbitrary: u rule: less_induct)
  case (less ba)
  show ?case
  proof (cases "lower \<le> ba")
    case False
    then show ?thesis by (subst nmbm_write_down_loop.simps) simp
  next
    case True
    have iu: "inst u" by (rule maintains_inst [OF less.prems(1) assms(1)])
    have bc: "block_count s < 65536" using assms(1) by (simp add: inst_def ok_def tables_def)
    show ?thesis
      apply (subst nmbm_write_down_loop.simps)
      unfolding if_P [OF True]
    proof (rule runs_bind_pairI [OF write_info_table_spec [OF iu order.refl]], elim conjE, goal_cases)
      case (1 r v)
      have w: "works {lower..<mapping_blocks_top_ba u} u v"
        by (rule works_mono [OF 1(1)]) (use True in auto)
      show ?case
      proof (cases r)
        case (Some p)
        then show ?thesis using w 1(3) True by (cases p) auto
      next
        case None
        have sub: "sub32 ba 1 = ba - 1" using True assms(3) less.prems(2) bc by simp
        have "runs (nmbm_write_down_loop E v (ba - 1) lower) (\<lambda>(r, x).
            works {lower..<mapping_blocks_top_ba v} v x
            \<and> (\<forall>st en. r = Some (st, en) \<longrightarrow> lower \<le> st \<and> st < en \<and> en \<le> mapping_blocks_top_ba v))"
          by (rule less.IH)
             (use True assms(3) less.prems maintains_trans [OF _ works_maintains [OF w]] in auto)
        then show ?thesis
          unfolding None sub works_fields [OF w]
          by (auto elim!: runs_mono intro: works_trans [OF w])
      qed
    qed
  qed
qed

lemma placed_bounds:
  assumes "placed u"
  shows "mgmt_start_ba u \<le> main_table_ba u" "main_table_ba u < mapping_blocks_ba u"
    "mapping_blocks_ba u \<le> mapping_blocks_top_ba u" "mgmt_start_ba u \<le> mapping_blocks_top_ba u"
    "backup_table_ba u \<noteq> 0 \<Longrightarrow> main_table_ba u < backup_table_ba u"
    "backup_table_ba u \<noteq> 0 \<Longrightarrow> backup_table_ba u < mapping_blocks_ba u"
  using assms by (simp_all add: placed_def)

text \<open>When the main table cannot be rescued, the backup takes its place.\<close>

lemma promote_backup:
  assumes "placed u" "backup_table_ba u \<noteq> 0"
  shows "placed (u\<lparr>main_table_ba := backup_table_ba u, backup_table_ba := 0\<rparr>)"
  using assms by (simp add: placed_def)

text \<open>
  The last step of the rescue of the main table: the new main table is written below the
  temporary one, which therefore is never overwritten.
\<close>

lemma rescue_main_step:
  assumes "inst s" "maintains s v" "mgmt_start_ba v \<le> ts" "ts < te" "te \<le> mapping_blocks_top_ba v"
    "v' = v\<lparr>mapping_blocks_ba := te\<rparr>"
  shows "runs (Option.bind (nmbm_write_info_table E v' (mgmt_start_ba v') ts) (\<lambda>(r, s).
     case r of
       None \<Rightarrow> Some (True, nmbm_mark_tables_clean (s\<lparr>main_table_ba := ts, backup_table_ba := 0\<rparr>))
     | Some (ms, me) \<Rightarrow>
         let s = nmbm_mark_tables_clean (s\<lparr>main_table_ba := ms\<rparr>)
         in if me \<le> ts then Some (True, s\<lparr>backup_table_ba := ts\<rparr>)
            else nmbm_rescue_backup E s n me)) (kept s)"
proof -
  have mv: "maintains s v'" using assms(2,6) by simp
  have f: "mgmt_start_ba v' = mgmt_start_ba v" "mapping_blocks_ba v' = te"
    "mapping_blocks_top_ba v' = mapping_blocks_top_ba v"
    by (simp_all add: assms(6))
  have l: "ts \<le> mapping_blocks_top_ba v'" using assms(4,5) f by simp
  show ?thesis
  proof (rule runs_bind_pairI [OF write_info_table_spec [OF maintains_inst [OF mv assms(1)] l]],
      elim conjE, goal_cases)
    case (1 r w)
    have mw: "maintains s w" by (rule maintains_trans [OF mv works_maintains [OF 1(1)]])
    note fw = works_fields [OF 1(1)]
    show ?case
    proof (cases r)
      case None
      have "placed (nmbm_mark_tables_clean (w\<lparr>main_table_ba := ts, backup_table_ba := 0\<rparr>))"
        using assms(3-5) f fw by (simp add: placed_def nmbm_mark_tables_clean_def)
      then show ?thesis using None mw by simp
    next
      case (Some p)
      obtain ms me where p: "p = (ms, me)" by (cases p)
      have b: "mgmt_start_ba v \<le> ms" "ms < me" "me \<le> ts" using 1(3) Some p f by auto
      have "placed (nmbm_mark_tables_clean (w\<lparr>main_table_ba := ms\<rparr>)\<lparr>backup_table_ba := ts\<rparr>)"
        using assms(3-5) b f fw by (simp add: placed_def nmbm_mark_tables_clean_def)
      then show ?thesis using Some p b mw by (simp add: Let_def)
    qed
  qed
qed

lemma rescue_main_spec:
  assumes "inst s" "maintains s u" "placed u" "settled s u" "backup_table_ba u \<noteq> 0"
  shows "runs (nmbm_rescue_main_info_table E u) (kept s)"
proof -
  have iu: "inst u" by (rule maintains_inst [OF assms(2,1)])
  have low: "0 < mapping_blocks_ba u" using placed_bounds [OF assms(3)] by simp
  show ?thesis
    unfolding nmbm_rescue_main_info_table_def Let_def
  proof (rule runs_bindI [OF reserve_spec [OF iu]], goal_cases)
    case (1 x)
    show ?case
    proof (cases x)
      case None
      then show ?thesis using assms promote_backup [OF assms(3,5)] by simp
    next
      case (Some wb)
      have wb: "mapping_blocks_ba u \<le> wb" "wb < block_count s"
        using 1 Some maintains_fields(4) [OF assms(2)] by simp_all
      have down: "nmbm_write_down E u wb (mapping_blocks_ba u)
          = nmbm_write_down_loop E u wb (mapping_blocks_ba u)"
        using wb by (simp add: nmbm_write_down_def)
      show ?thesis
        unfolding Some option.case down
      proof (rule runs_bind_pairI [OF write_down_loop_spec [OF assms(1,2) low wb(2)]],
          elim conjE, goal_cases)
        case (1 r v)
        have mv: "maintains s v" by (rule maintains_trans [OF assms(2) works_maintains [OF 1(1)]])
        have pv: "placed v" and sv: "settled s v" and bv: "backup_table_ba v \<noteq> 0"
          using assms works_placed [OF 1(1)] settled_works [OF _ 1(1)] works_fields [OF 1(1)]
          by simp_all
        show ?case
        proof (cases r)
          case None
          then show ?thesis using mv sv promote_backup [OF pv bv] by simp
        next
          case (Some p)
          obtain ts te where p: "p = (ts, te)" by (cases p)
          have "mgmt_start_ba v \<le> ts" "ts < te" "te \<le> mapping_blocks_top_ba v"
            using 1(2) Some p placed_bounds [OF pv] works_fields [OF 1(1)] by auto
          from rescue_main_step [OF assms(1) mv this refl, of E] show ?thesis
            unfolding Let_def by (simp add: Some p)
        qed
      qed
    qed
  qed
qed

section \<open>The update\<close>

definition main_limit :: "'d nmbm \<Rightarrow> nat" where
  "main_limit u = (if backup_table_ba u = 0 then mapping_blocks_top_ba u else backup_table_ba u)"

lemma write_main_spec:
  assumes "inst s" "maintains s u" "placed u" "backup_table_ba u \<noteq> 0 \<Longrightarrow> settled s u"
  shows "runs (nmbm_write_main_table E u (main_limit u)) (kept s)"
proof (cases "main_table_ba u = 0")
  case True
  have "runs (nmbm_rebuild_info_table E u) (kept u)"
    by (rule rebuild_spec [OF maintains_inst [OF assms(2,1)]]) (rule placed_bounds [OF assms(3)])
  then show ?thesis
    using True unfolding nmbm_write_main_table_def
    by (auto elim!: runs_mono intro: kept_after [OF assms(2)])
next
  case False
  have iu: "inst u" by (rule maintains_inst [OF assms(2,1)])
  have l: "main_limit u \<le> mapping_blocks_top_ba u"
    using placed_bounds [OF assms(3)] by (auto simp: main_limit_def)
  show ?thesis
    unfolding nmbm_write_main_table_def if_not_P [OF False]
  proof (rule runs_bind_pairI [OF write_info_table_spec [OF iu l]], elim conjE, goal_cases)
    case (1 r v)
    have mv: "maintains s v" by (rule maintains_trans [OF assms(2) works_maintains [OF 1(1)]])
    have pv: "placed v" using assms(3) works_placed [OF 1(1)] by simp
    note fv = works_fields [OF 1(1)]
    show ?case
    proof (cases r)
      case None
      have "runs (nmbm_rebuild_info_table E v) (kept v)"
        by (rule rebuild_spec [OF maintains_inst [OF mv assms(1)]]) (rule placed_bounds [OF pv])
      then have "runs (nmbm_rebuild_info_table E v) (kept s)"
        by (rule runs_mono) (rule kept_after [OF mv])
      moreover have "runs (nmbm_rescue_main_info_table E v) (kept s)" if "backup_table_ba v \<noteq> 0"
        by (rule rescue_main_spec [OF assms(1) mv pv _ that])
           (use that fv assms settled_works [OF _ 1(1)] in simp)
      ultimately show ?thesis using None by simp
    next
      case (Some p)
      obtain st en where p: "p = (st, en)" by (cases p)
      have b: "main_table_ba u \<le> st" "st < en" "en \<le> main_limit u" using 1(3) Some p by auto
      show ?thesis
        using Some p mv b fv placed_bounds [OF assms(3)]
        by (auto simp: placed_def nmbm_mark_tables_clean_def main_limit_def settled_def
            split: if_splits)
    qed
  qed
qed

lemma write_backup_spec:
  assumes "inst s" "maintains s u" "placed u"
  shows "runs (nmbm_write_backup_table E u) (\<lambda>(l, v). maintains s v \<and> placed v
    \<and> (backup_table_ba v \<noteq> 0 \<longrightarrow> settled s v) \<and> l = main_limit v)"
proof (cases "backup_table_ba u = 0")
  case True
  then show ?thesis using assms by (simp add: nmbm_write_backup_table_def main_limit_def)
next
  case False
  have iu: "inst u" by (rule maintains_inst [OF assms(2,1)])
  show ?thesis
    unfolding nmbm_write_backup_table_def if_not_P [OF False]
  proof (rule runs_bind_pairI [OF write_info_table_spec [OF iu order.refl]], elim conjE, goal_cases)
    case (1 r v)
    have mv: "maintains s v" by (rule maintains_trans [OF assms(2) works_maintains [OF 1(1)]])
    note fv = works_fields [OF 1(1)] and b = placed_bounds [OF assms(3)]
    show ?case
    proof (cases r)
      case None
      then show ?thesis using mv fv b False by (simp add: placed_def main_limit_def)
    next
      case (Some p)
      obtain st en where p: "p = (st, en)" by (cases p)
      have "backup_table_ba u \<le> st" "st < en" "en \<le> mapping_blocks_top_ba u"
        using 1(3) Some p by auto
      then show ?thesis
        using Some p mv fv b False
        by (simp add: Let_def placed_def main_limit_def settled_def nmbm_mark_tables_clean_def)
    qed
  qed
qed

lemma update_once_spec:
  assumes "inst s" "placed s"
  shows "runs (nmbm_update_info_table_once E s force) (kept s)"
  unfolding nmbm_update_info_table_once_def
proof (rule runs_bind_pairI [OF generate_spec [OF assms(1)]], elim conjE exE, goal_cases)
  case (1 r t c)
  have pt: "placed t" using assms(2) by (simp add: placed_def 1(3))
  show ?case
  proof (cases "\<not> r \<and> \<not> force")
    case True
    then show ?thesis using 1 pt by (simp add: settled_def)
  next
    case False
    show ?thesis
      unfolding if_not_P [OF False]
      by (rule runs_bind_pairI [OF write_backup_spec [OF assms(1) 1(1) pt]])
         (auto intro: write_main_spec [OF assms(1)])
  qed
qed

text \<open>
  The state between operations: the spare blocks lie below their top, and the tables are placed
  unless the chip has become read-only.
\<close>

definition sane :: "'d nmbm \<Rightarrow> bool" where
  "sane s \<longleftrightarrow> mapping_blocks_ba s \<le> mapping_blocks_top_ba s \<and> (protected s \<or> placed s)"

definition updated :: "'d nmbm \<Rightarrow> bool \<times> 'd nmbm \<Rightarrow> bool" where
  "updated s = (\<lambda>(r, t). maintains s t \<and> sane t \<and> (protected t
     \<or> r \<and> block_state_changed t = 0 \<and> block_mapping_changed t = 0))"

lemma placed_sane: "placed s \<Longrightarrow> sane s"
  by (simp add: sane_def placed_def)

lemma update_loop_spec:
  assumes "inst s" "placed s"
  shows "runs (nmbm_update_loop E s) (updated s)"
  using assms
proof (induction "(if block_mapping_changed s = 0 then 0 else 1) + nnb (block_state s)"
    arbitrary: s rule: less_induct)
  case less
  show ?case
  proof (cases "block_state_changed s \<noteq> 0 \<or> block_mapping_changed s \<noteq> 0")
    case False
    then show ?thesis using less.prems
      by (subst nmbm_update_loop.simps) (simp add: updated_def placed_sane)
  next
    case True
    show ?thesis
      apply (subst nmbm_update_loop.simps)
      unfolding if_P [OF True]
    proof (rule runs_bindI [OF update_once_spec [OF less.prems]], goal_cases)
      case (1 x)
      obtain r t where x: "x = (r, t)" by (cases x)
      show ?case
      proof (cases r)
        case False
        then show ?thesis using 1 x by (simp add: updated_def sane_def)
      next
        case True
        then have t: "maintains s t" "placed t" "settled s t" using 1 x by simp_all
        have "runs (nmbm_update_loop E t) (updated t)"
        proof (cases "block_state_changed t = 0")
          case True
          then show ?thesis using t
            by (subst nmbm_update_loop.simps) (simp add: updated_def settled_def placed_sane)
        next
          case False
          then have "nnb (block_state t) < nnb (block_state s)" "block_mapping_changed t = 0"
            using t(3) by (simp_all add: settled_def)
          then show ?thesis
            by (intro less.hyps) (use t maintains_inst [OF t(1) less.prems(1)] in simp_all)
        qed
        then show ?thesis
          using True x by (auto simp: updated_def elim!: runs_mono intro: maintains_trans [OF t(1)])
      qed
    qed
  qed
qed

lemma update_spec:
  assumes "inst s" "sane s"
  shows "runs (nmbm_update_info_table E s) (updated s)"
  using update_loop_spec [OF assms(1)] assms(2)
  unfolding nmbm_update_info_table_def by (auto simp: updated_def sane_def)

section \<open>A single table\<close>

text \<open>
  The rescues that are used while attaching keep the tables placed even when they fail.
\<close>

definition patched :: "'d nmbm \<Rightarrow> bool \<times> 'd nmbm \<Rightarrow> bool" where
  "patched s = (\<lambda>(r, t). maintains s t \<and> placed t \<and> (r \<longrightarrow> settled s t))"

lemma patched_simps [simp]:
  "patched s (r, t) \<longleftrightarrow> maintains s t \<and> placed t \<and> (r \<longrightarrow> settled s t)"
  by (simp add: patched_def)

lemma erase_patched:
  assumes "inst s" "maintains s t" "placed t" "limit \<le> mapping_blocks_top_ba t"
  shows "runs (nmbm_erase_range E t lo limit) (\<lambda>u. maintains s u \<and> placed u
    \<and> (settled s t \<longrightarrow> settled s u) \<and> mapping_blocks_ba u = mapping_blocks_ba t
    \<and> main_table_ba u = main_table_ba t \<and> mapping_blocks_top_ba u = mapping_blocks_top_ba t
    \<and> mgmt_start_ba u = mgmt_start_ba t)"
  by (rule runs_mono [OF erase_spec [OF maintains_inst [OF assms(2,1)] assms(4)]])
     (use assms in \<open>auto simp: works_placed works_fields
        intro: maintains_trans works_maintains settled_works\<close>)

lemma rescue_single_above:
  assumes "inst s" "maintains s u" "placed u" "wb < block_count s"
  shows "runs (Option.bind (nmbm_write_down_loop E u wb (mapping_blocks_ba u)) (\<lambda>(r, s).
     case r of
       Some (table_start_ba, table_end_ba) \<Rightarrow>
         Option.bind (nmbm_erase_range E s (mapping_blocks_ba s) table_start_ba) (\<lambda>s.
           let s = s\<lparr>backup_table_ba := table_start_ba, mapping_blocks_ba := table_end_ba\<rparr>
           in Some (True, nmbm_mark_tables_clean s))
     | None \<Rightarrow> Some (False, s))) (patched s)"
proof (rule runs_bind_pairI [OF write_down_loop_spec [OF assms(1,2) _ assms(4)]], goal_cases)
  case 1
  then show ?case using placed_bounds [OF assms(3)] by simp
next
  case (2 r v)
  then have mv: "maintains s v" and pv: "placed v"
    using assms(2,3) by (auto simp: works_placed intro: maintains_trans works_maintains)
  show ?case
  proof (cases r)
    case None
    then show ?thesis using mv pv by simp
  next
    case (Some p)
    obtain st en where p: "p = (st, en)" by (cases p)
    have b: "mapping_blocks_ba v \<le> st" "st < en" "en \<le> mapping_blocks_top_ba v"
      using 2 Some p by (auto simp: works_fields)
    have l: "st \<le> mapping_blocks_top_ba v" using b by simp
    show ?thesis
      unfolding Some p option.case prod.case
      by (rule runs_bindI [OF erase_patched [OF assms(1) mv pv l]])
         (use b placed_bounds [OF pv] in \<open>auto simp: Let_def placed_def nmbm_mark_tables_clean_def
            settled_def\<close>)
  qed
qed

lemma rescue_single_spec:
  assumes "inst s" "maintains s u" "placed u" "backup_table_ba u = 0"
  shows "runs (nmbm_rescue_single_info_table E u) (patched s)"
  unfolding nmbm_rescue_single_info_table_def
proof (rule runs_bind_pairI [OF write_info_table_spec [OF maintains_inst [OF assms(2,1)]]],
    goal_cases)
  case 1
  then show ?case using placed_bounds [OF assms(3)] by simp
next
  case (2 r v)
  then have mv: "maintains s v" and pv: "placed v"
    using assms(2,3) by (auto simp: works_placed intro: maintains_trans works_maintains)
  show ?case
  proof (cases r)
    case (Some p)
    obtain st en where p: "p = (st, en)" by (cases p)
    define t where "t = nmbm_mark_tables_clean (v\<lparr>backup_table_ba := main_table_ba v,
      main_table_ba := st\<rparr>)"
    have b: "mgmt_start_ba v \<le> st" "st < en" "en \<le> main_table_ba v"
      using 2 Some p by (auto simp: works_fields)
    have mt: "maintains s t" and pt: "placed t" and st: "settled s t"
      using mv b placed_bounds [OF pv]
      by (simp_all add: t_def placed_def nmbm_mark_tables_clean_def settled_def)
    have l: "backup_table_ba t \<le> mapping_blocks_top_ba t"
      using placed_bounds [OF pv] by (simp add: t_def nmbm_mark_tables_clean_def)
    show ?thesis
      unfolding Some p option.case prod.case Let_def
      using erase_patched [OF assms(1) mt pt l, of E en] st
      by (simp add: t_def runs_bind) (erule runs_mono, simp)
  next
    case None
    have iv: "inst v" by (rule maintains_inst [OF mv assms(1)])
    show ?thesis
      unfolding None option.case
    proof (rule runs_bindI [OF reserve_spec [OF iv]], goal_cases)
      case (1 x)
      show ?case
      proof (cases x)
        case None
        then show ?thesis using mv pv by simp
      next
        case (Some wb)
        then have "mapping_blocks_ba v \<le> wb" "wb < block_count s"
          using 1 maintains_fields(4) [OF mv] by simp_all
        then show ?thesis
          using Some rescue_single_above [OF assms(1) mv pv, of wb E]
          by (simp add: nmbm_write_down_def)
      qed
    qed
  qed
qed

lemma update_single_spec:
  assumes "inst s" "maintains s u" "placed u" "backup_table_ba u \<noteq> 0"
  shows "runs (nmbm_update_single_info_table E u main) (patched s)"
proof -
  have iu: "inst u" by (rule maintains_inst [OF assms(2,1)])
  note b = placed_bounds [OF assms(3)]
  let ?st = "if main then main_table_ba u else backup_table_ba u"
  let ?l = "if main then backup_table_ba u else mapping_blocks_top_ba u"
  have l: "?l \<le> mapping_blocks_top_ba u" using b assms(4) by simp
  have e: "(if main then (main_table_ba u, backup_table_ba u)
     else (backup_table_ba u, mapping_blocks_top_ba u)) = (?st, ?l)" by simp
  show ?thesis
    unfolding nmbm_update_single_info_table_def e Let_def prod.case
  proof (rule runs_bind_pairI [OF write_info_table_spec [OF iu l]], elim conjE, goal_cases)
    case (1 r v)
    note w = 1(1) and r = 1(3) and fv = works_fields [OF 1(1)]
    have mv: "maintains s v" and pv: "placed v"
      using assms(2,3) w by (auto simp: works_placed intro: maintains_trans works_maintains)
    show ?case
    proof (cases r)
      case (Some p)
      obtain st en where p: "p = (st, en)" by (cases p)
      have "?st \<le> st" "st < en" "en \<le> ?l" using r Some p by auto
      then show ?thesis
        using Some p mv fv b assms(4)
        by (auto simp: placed_def nmbm_mark_tables_clean_def settled_def)
    next
      case None
      have bk: "backup_table_ba v \<noteq> 0" using fv assms(4) by simp
      show ?thesis
      proof (cases main)
        case True
        have "runs (nmbm_rescue_single_info_table E
            (v\<lparr>main_table_ba := backup_table_ba v, backup_table_ba := 0\<rparr>)) (patched s)"
          by (rule rescue_single_spec [OF assms(1)])
             (use mv promote_backup [OF pv bk] in simp_all)
        then show ?thesis using None True by simp
      next
        case False
        then show ?thesis
          using None mv placed_bounds [OF pv] bk by (simp add: placed_def)
      qed
    qed
  qed
qed

end
