(* ===== verification/Nmbm_Ops.thy ===== *)
theory Nmbm_Ops
  imports Nmbm_Attach Nmbm_Update
begin

text \<open>
  The operations NMBM gives the front end: which physical block a remapped block gets, that the
  operations run for every behaviour of the driver, and the invariant they keep.
\<close>

section \<open>The instance in use\<close>

text \<open>
  An attached instance: its tables are in order, the top of the spare blocks is a block of the
  chip, and every data block is mapped to a block of the chip.
\<close>

definition attached_ok :: "'d nmbm \<Rightarrow> bool" where
  "attached_ok s \<longleftrightarrow> inst s \<and> sane s \<and> mapping_blocks_top_ba s < block_count s
     \<and> data_block_count s \<le> block_count s
     \<and> (\<forall>lb < data_block_count s. unat (block_mapping s ! lb) < block_count s)"

lemma maintains_sane_sets [simp]:
  "inst (s\<lparr>block_mapping_changed := c\<rparr>) = inst s" "sane (s\<lparr>block_mapping_changed := c\<rparr>) = sane s"
  "inst (s\<lparr>data_block_count := n\<rparr>) = inst s" "sane (s\<lparr>data_block_count := n\<rparr>) = sane s"
  "sane (s\<lparr>block_mapping := m\<rparr>) = sane s"
  by (simp_all add: inst_def sane_def placed_def ok_def geom_def tables_def)

lemma inst_mapping: "length m = length (block_mapping s) \<Longrightarrow> inst (s\<lparr>block_mapping := m\<rparr>) = inst s"
  by (simp add: inst_def ok_def geom_def tables_def)

lemma inst_top: "inst s \<Longrightarrow> n \<le> mapping_blocks_top_ba s \<Longrightarrow> inst (s\<lparr>mapping_blocks_top_ba := n\<rparr>)"
  by (simp add: inst_def ok_def geom_def tables_def)

lemma sane_top: "sane s \<Longrightarrow> mapping_blocks_ba s \<le> n \<Longrightarrow> sane (s\<lparr>mapping_blocks_top_ba := n\<rparr>)"
  by (auto simp: sane_def placed_def)

lemma inst_lengths:
  assumes "inst s"
  shows "length (block_mapping s) = block_count s" "block_count s < 65536" "0 < block_count s" "tables s"
  using assms by (simp_all add: inst_def ok_def tables_def)

section \<open>Mapping a block\<close>

text \<open>
  The block is mapped to the highest good block of \<open>(mapping_blocks_ba, mapping_blocks_top_ba]\<close>.
  When there is none, the tables are updated and the spare blocks declared used up.
\<close>

definition mapped_to :: "'d nmbm \<Rightarrow> nat \<Rightarrow> nat \<Rightarrow> 'd nmbm" where
  "mapped_to s lb pb = s\<lparr>block_mapping := (block_mapping s)[lb := word_of_nat pb],
     mapping_blocks_top_ba := mapping_blocks_top_ba s - 1,
     block_mapping_changed := block_mapping_changed s + 1\<rparr>"

definition spare_block :: "'d nmbm \<Rightarrow> nat \<Rightarrow> bool" where
  "spare_block s pb \<longleftrightarrow> mapping_blocks_ba s < pb \<and> pb \<le> mapping_blocks_top_ba s \<and> good s pb
     \<and> ngood s (Suc pb) (Suc (mapping_blocks_top_ba s)) = 0"

lemma map_block_spec:
  assumes "inst s" "sane s" "mapping_blocks_top_ba s < block_count s" "lb < block_count s"
  shows "runs (nmbm_map_block E s lb) (\<lambda>(r, t).
    (if r then \<exists>pb. spare_block s pb \<and> t = mapped_to s lb pb
     else ngood s (Suc (mapping_blocks_ba s)) (Suc (mapping_blocks_top_ba s)) = 0
       \<and> (t = s \<or> (\<exists>u. maintains s u \<and> sane u \<and> t = u\<lparr>mapping_blocks_top_ba := mapping_blocks_ba u\<rparr>))))"
proof (cases "mapping_blocks_ba s = mapping_blocks_top_ba s")
  case True
  then show ?thesis by (simp add: nmbm_map_block_def)
next
  case False
  then have lt: "mapping_blocks_ba s < mapping_blocks_top_ba s"
    using assms(2) by (simp add: sane_def)
  note l = inst_lengths [OF assms(1)]
  have wl: "walk_limit s (int (mapping_blocks_ba s)) = mapping_blocks_ba s"
    using lt assms(3) l(2) by (simp add: walk_limit_def)
  have sub: "sub32 (mapping_blocks_top_ba s) 1 = mapping_blocks_top_ba s - 1"
    using lt assms(3) l(2) by simp
  have set: "aset (block_mapping s) lb v = Some ((block_mapping s)[lb := v])" for v
    using assms(4) l(1) by (simp add: aset_def)
  have walk: "runs (nmbm_block_walk s False (mapping_blocks_top_ba s) 0 (int (mapping_blocks_ba s)))
      (\<lambda>r. case r of Some nba \<Rightarrow> spare_block s nba
        | None \<Rightarrow> ngood s (Suc (mapping_blocks_ba s)) (Suc (mapping_blocks_top_ba s)) = 0)"
    using block_walk_desc_spec [OF l(4), of 0 "mapping_blocks_top_ba s" "int (mapping_blocks_ba s)"]
      assms(3) wl
    by (auto elim!: runs_mono simp: spare_block_def split: option.splits)
  show ?thesis
    unfolding nmbm_map_block_def if_not_P [OF False]
  proof (rule runs_bindI [OF walk], goal_cases)
    case (1 x)
    show ?case
    proof (cases x)
      case (Some pb)
      then show ?thesis using 1 sub set by (auto simp: mapped_to_def)
    next
      case None
      have "runs (nmbm_update_info_table E s) (\<lambda>(r, u). maintains s u \<and> sane u)"
        by (rule runs_mono [OF update_spec [OF assms(1,2)]]) (auto simp: updated_def)
      then show ?thesis using 1 None by (auto simp: runs_bind elim!: runs_mono)
    qed
  qed
qed

lemma mapped_to_ok:
  assumes "attached_ok s" "spare_block s pb" "lb < block_count s"
  shows "attached_ok (mapped_to s lb pb)"
proof -
  note l = inst_lengths [of s]
  have a: "inst s" "sane s" "mapping_blocks_top_ba s < block_count s"
    using assms(1) by (simp_all add: attached_ok_def)
  have pb: "pb < block_count s" "mapping_blocks_ba s \<le> mapping_blocks_top_ba s - 1"
    using assms(2) a(3) by (auto simp: spare_block_def)
  have u: "unat (word_of_nat pb :: u32) = pb"
    using pb(1) l(2) [OF a(1)] by (simp add: unat_of_nat)
  have i: "inst (mapped_to s lb pb)"
    using a(1) pb(1) inst_top [of "s\<lparr>block_mapping := (block_mapping s)[lb := word_of_nat pb]\<rparr>"]
    by (simp add: mapped_to_def inst_mapping)
  have n: "sane (mapped_to s lb pb)"
    using a(2) pb(2) sane_top [of "s\<lparr>block_mapping := (block_mapping s)[lb := word_of_nat pb]\<rparr>"]
    by (simp add: mapped_to_def)
  have "unat (block_mapping (mapped_to s lb pb) ! i) < block_count s" if "i < data_block_count s" for i
    using assms(1,3) that pb(1) u l(1) [OF a(1)]
    by (cases "i = lb") (simp_all add: mapped_to_def attached_ok_def)
  then show ?thesis
    using i n a(3) assms(1) by (auto simp: attached_ok_def mapped_to_def)
qed

text \<open>Two good blocks that both qualify are the same, so the walk finds the one that does.\<close>

lemma spare_block_unique:
  assumes "spare_block s a" "spare_block s b"
  shows "a = b"
proof -
  have "\<not> x < y" if "spare_block s x" "spare_block s y" for x y
  proof
    assume "x < y"
    then have "ngood s (Suc x) (Suc (mapping_blocks_top_ba s))
        = ngood s (Suc x) y + ngood s y (Suc (mapping_blocks_top_ba s))"
      using that by (intro ngood_split) (simp_all add: spare_block_def)
    moreover have "0 < ngood s y (Suc (mapping_blocks_top_ba s))"
      using that by (simp add: spare_block_def ngood_first)
    ultimately show False using that by (simp add: spare_block_def)
  qed
  from this [of a b] this [of b a] show ?thesis using assms by auto
qed

lemma spare_block_ngood:
  assumes "spare_block s pb"
  shows "0 < ngood s (Suc (mapping_blocks_ba s)) (Suc (mapping_blocks_top_ba s))"
proof -
  have "ngood s (Suc (mapping_blocks_ba s)) (Suc (mapping_blocks_top_ba s))
      = ngood s (Suc (mapping_blocks_ba s)) pb + ngood s pb (Suc (mapping_blocks_top_ba s))"
    using assms by (intro ngood_split) (auto simp: spare_block_def)
  moreover have "0 < ngood s pb (Suc (mapping_blocks_top_ba s))"
    using assms by (simp add: spare_block_def ngood_first)
  ultimately show ?thesis by simp
qed

lemma map_block_eq:
  assumes "inst s" "sane s" "mapping_blocks_top_ba s < block_count s" "lb < block_count s"
    "spare_block s pb"
  shows "nmbm_map_block E s lb = Some (True, mapped_to s lb pb)"
proof -
  obtain r t where m: "nmbm_map_block E s lb = Some (r, t)"
    and c: "if r then \<exists>pb. spare_block s pb \<and> t = mapped_to s lb pb
     else ngood s (Suc (mapping_blocks_ba s)) (Suc (mapping_blocks_top_ba s)) = 0
       \<and> (t = s \<or> (\<exists>u. maintains s u \<and> sane u \<and> t = u\<lparr>mapping_blocks_top_ba := mapping_blocks_ba u\<rparr>))"
    using map_block_spec [OF assms(1-4), of E] by (auto simp: runs_def)
  then show ?thesis
    using spare_block_ngood [OF assms(5)] spare_block_unique [OF assms(5)]
    by (cases r) auto
qed

text \<open>
  When the walk has skipped blocks below the top, the top is lowered by one only, and the next
  block mapped is the same one; a good block at the top is handed out once.
\<close>

lemma spare_again:
  assumes "spare_block s pb" "pb < mapping_blocks_top_ba s"
  shows "spare_block (mapped_to s lb pb) pb"
proof -
  have "ngood s (Suc pb) (mapping_blocks_top_ba s) \<le> ngood s (Suc pb) (Suc (mapping_blocks_top_ba s))"
    using assms(2) by (subst ngood_last [of "Suc pb"]) auto
  moreover have g: "good (mapped_to s lb pb) = good s"
    by (simp add: mapped_to_def good_def fun_eq_iff)
  moreover have "ngood (mapped_to s lb pb) = ngood s"
    by (simp only: ngood_def g fun_eq_iff) simp
  ultimately show ?thesis
    using assms by (auto simp: spare_block_def mapped_to_def)
qed

lemma spare_lower:
  "spare_block s (mapping_blocks_top_ba s) \<Longrightarrow>
   spare_block (mapped_to s lb (mapping_blocks_top_ba s)) pb \<Longrightarrow> pb < mapping_blocks_top_ba s"
  by (auto simp: spare_block_def mapped_to_def)

section \<open>Remapping\<close>

lemma maintains_attached:
  assumes "maintains s t" "attached_ok s" "sane t"
  shows "attached_ok t"
  using maintains_inst [OF assms(1)] maintains_fields [OF assms(1)] assms(2,3)
  by (simp add: attached_ok_def)

lemma maintains_io: "io_only s t \<Longrightarrow> maintains s t"
  using io_only_degrades [of s t] works_maintains [of UNIV s t]
  by (simp add: works_def untouched_def)

lemma io_only_sane:
  assumes "io_only s t"
  shows "sane t = sane s"
proof -
  have "t = s\<lparr>dev := dev t, data_buf := data_buf t\<rparr>" using assms by (simp add: io_only_def)
  then obtain d b where "t = s\<lparr>dev := d, data_buf := b\<rparr>" by blast
  then show ?thesis by (simp add: sane_def placed_def)
qed

lemma works_sane: "works A s t \<Longrightarrow> sane t = sane s"
  by (simp add: sane_def works_fields works_placed)

lemma used_up_attached:
  assumes "maintains s u" "sane u" "attached_ok s"
  shows "attached_ok (u\<lparr>mapping_blocks_top_ba := mapping_blocks_ba u\<rparr>)"
proof -
  have u: "attached_ok u" by (rule maintains_attached [OF assms(1,3,2)])
  have le: "mapping_blocks_ba u \<le> mapping_blocks_top_ba u" using assms(2) by (simp add: sane_def)
  then have "inst (u\<lparr>mapping_blocks_top_ba := mapping_blocks_ba u\<rparr>)"
    using u by (intro inst_top) (simp_all add: attached_ok_def)
  moreover have "sane (u\<lparr>mapping_blocks_top_ba := mapping_blocks_ba u\<rparr>)"
    using assms(2) by (intro sane_top) simp_all
  ultimately show ?thesis using u le by (simp add: attached_ok_def)
qed

lemma maintains_shape:
  assumes "maintains s t"
  shows "same_shape s t"
proof -
  have "t = s\<lparr>dev := dev t, data_buf := data_buf t, block_state := block_state t,
           block_state_changed := block_state_changed t,
           block_mapping_changed := block_mapping_changed t,
           info_table := info_table t, info_table_cache := info_table_cache t,
           main_table_ba := main_table_ba t, backup_table_ba := backup_table_ba t,
           mapping_blocks_ba := mapping_blocks_ba t, protected := protected t\<rparr>"
    using assms by (simp add: maintains_def)
  then obtain d b bs bc mc it c m1 m2 m3 p where "t = s\<lparr>dev := d, data_buf := b, block_state := bs,
     block_state_changed := bc, block_mapping_changed := mc, info_table := it,
     info_table_cache := c, main_table_ba := m1, backup_table_ba := m2, mapping_blocks_ba := m3,
     protected := p\<rparr>" by blast
  then show ?thesis by (simp add: same_shape_def)
qed

text \<open>
  The tail of \<open>remap_block_nmbm\<close> once the block is mapped: it touches only the device and the
  tables.
\<close>

lemma remap_tail:
  assumes "attached_ok s"
  shows "runs (let (_, s) = bbt_nand_erase E s nb;
        (_, s) = (if len > 0 then bbt_nand_copy E s nb mb len else (0, s))
      in Option.bind (nmbm_update_info_table E s) (\<lambda>(_, s). Some (True, s)))
    (\<lambda>(r, t). r \<and> maintains s t \<and> attached_ok t)"
proof -
  define s1 where "s1 = snd (bbt_nand_erase E s nb)"
  define s2 where "s2 = snd (if len > 0 then bbt_nand_copy E s1 nb mb len else (0, s1))"
  have "io_only s s1" by (simp add: s1_def bbt_nand_erase_io)
  moreover have "io_only s1 s2" by (simp add: s2_def bbt_nand_copy_io)
  ultimately have io: "io_only s s2" by (rule io_only_trans)
  have s: "inst s" "sane s" using assms by (simp_all add: attached_ok_def)
  have i: "inst s2" "sane s2"
    using maintains_inst [OF maintains_io [OF io] s(1)] io_only_sane [OF io] s(2) by simp_all
  have "runs (nmbm_update_info_table E s2) (\<lambda>(r, t). maintains s t \<and> attached_ok t)"
    by (rule runs_mono [OF update_spec [OF i]])
       (auto simp: updated_def intro: maintains_trans [OF maintains_io [OF io]]
          maintains_attached [OF maintains_trans [OF maintains_io [OF io]] assms])
  then show ?thesis
    by (simp add: case_prod_beta Let_def s1_def [symmetric] s2_def [symmetric] runs_bind)
       (erule runs_mono, simp add: case_prod_beta)
qed

text \<open>
  The outcome: on success exactly the mapping of the one block has changed, to a good spare block
  that is not the one it had; otherwise no mapping has.
\<close>

definition remapped :: "'d nmbm \<Rightarrow> nat \<Rightarrow> nat \<Rightarrow> bool \<times> 'd nmbm \<Rightarrow> bool" where
  "remapped s block mapped_block = (\<lambda>(r, t).
    attached_ok t \<and> same_shape s t \<and> data_block_count t = data_block_count s
    \<and> block_count t = block_count s
    \<and> (if r then block < data_block_count s \<and> (\<exists>pb. mapping_blocks_ba s < pb
          \<and> pb \<le> mapping_blocks_top_ba s \<and> good s pb \<and> pb \<noteq> mapped_block
          \<and> block_mapping t = (block_mapping s)[block := word_of_nat pb])
       else block_mapping t = block_mapping s))"

lemma remapped_simps [simp]:
  "remapped s block mb (True, t) \<longleftrightarrow> attached_ok t \<and> same_shape s t
    \<and> data_block_count t = data_block_count s \<and> block_count t = block_count s
    \<and> block < data_block_count s \<and> (\<exists>pb. mapping_blocks_ba s < pb
          \<and> pb \<le> mapping_blocks_top_ba s \<and> good s pb \<and> pb \<noteq> mb
          \<and> block_mapping t = (block_mapping s)[block := word_of_nat pb])"
  "remapped s block mb (False, t) \<longleftrightarrow> attached_ok t \<and> same_shape s t
    \<and> data_block_count t = data_block_count s \<and> block_count t = block_count s
    \<and> block_mapping t = block_mapping s"
  by (simp_all add: remapped_def)

lemma remap_spec:
  assumes "attached_ok s" "mapped_block < block_count s"
  shows "runs (remap_block_nmbm E s block mapped_block len) (remapped s block mapped_block)"
proof (cases "block < data_block_count s")
  case False
  then show ?thesis using assms(1) by (simp add: remap_block_nmbm_def)
next
  case True
  then have nle: "\<not> block \<ge> data_block_count s" by simp
  have s: "inst s" "sane s" "mapping_blocks_top_ba s < block_count s" "block < block_count s"
    using assms(1) True by (simp_all add: attached_ok_def)
  have tb: "tbl s mapped_block" using inst_lengths(4) [OF s(1)] assms(2) by (rule tables_tbl)
  show ?thesis
    unfolding remap_block_nmbm_def if_not_P [OF nle]
  proof (rule runs_bind_pairI [OF set_bad_spec [OF tb]], goal_cases)
    case (1 r0 t)
    have w: "works {mapped_block} s t" and ng: "\<not> good t mapped_block"
      using 1 by (simp_all add: works_def)
    have mt: "maintains s t" by (rule works_maintains [OF w])
    have at: "attached_ok t"
      by (rule maintains_attached [OF mt assms(1)]) (simp add: works_sane [OF w] s(2))
    have t: "inst t" "sane t" "mapping_blocks_top_ba t < block_count t" "block < block_count t"
      using at s(4) maintains_fields [OF mt] by (simp_all add: attached_ok_def)
    show ?case
    proof (rule runs_bind_pairI [OF map_block_spec [OF t]], goal_cases)
      case (1 ok u)
      show ?case
      proof (cases ok)
        case False
        then have "u = t \<or> (\<exists>v. maintains t v \<and> sane v
            \<and> u = v\<lparr>mapping_blocks_top_ba := mapping_blocks_ba v\<rparr>)"
          using 1 by simp
        then show ?thesis
        proof
          assume "u = t"
          then show ?thesis
            using False at maintains_shape [OF mt] maintains_fields [OF mt] by simp
        next
          assume "\<exists>v. maintains t v \<and> sane v \<and> u = v\<lparr>mapping_blocks_top_ba := mapping_blocks_ba v\<rparr>"
          then obtain v where v: "maintains t v" "sane v"
            "u = v\<lparr>mapping_blocks_top_ba := mapping_blocks_ba v\<rparr>" by blast
          have mv: "maintains s v" by (rule maintains_trans [OF mt v(1)])
          have "same_shape s u" using maintains_shape [OF mv] by (simp add: v(3) same_shape_def)
          then show ?thesis
            using False used_up_attached [OF v(1,2) at] maintains_fields [OF mv] v(3) by simp
        qed
      next
        case True
        then obtain pb where pb: "spare_block t pb" "u = mapped_to t block pb" using 1 by auto
        have au: "attached_ok u" unfolding pb(2) by (rule mapped_to_ok [OF at pb(1) t(4)])
        have get: "aget (block_mapping u) block = Some (word_of_nat pb)"
          using t(4) inst_lengths(1) [OF t(1)] by (simp add: pb(2) mapped_to_def aget_def)
        have g: "good s pb" "pb \<noteq> mapped_block" "mapping_blocks_ba s < pb"
          "pb \<le> mapping_blocks_top_ba s"
          using pb(1) ng works_good_mono [OF w] works_fields [OF w] by (auto simp: spare_block_def)
        have su: "same_shape s u"
          using maintains_shape [OF mt] by (simp add: pb(2) mapped_to_def same_shape_def)
        have fu: "block_mapping u = (block_mapping s)[block := word_of_nat pb]"
          "data_block_count u = data_block_count s" "block_count u = block_count s"
          using maintains_fields [OF mt] by (simp_all add: pb(2) mapped_to_def)
        have fin: "remapped s block mapped_block (True, v)" if "maintains u v" "attached_ok v" for v
          using that g fu nle same_shape_trans [OF su maintains_shape [OF that(1)]]
            maintains_fields [OF that(1)] by auto
        have nok: "(\<not> ok) = False" using True by simp
        show ?thesis
          unfolding nok if_False get bind.bind_lunit Let_def
          by (rule runs_mono [OF remap_tail [OF au, unfolded Let_def]]) (use fin in auto)
      qed
    qed
  qed
qed

end
