(* ===== verification/Nmbm_Create.thy ===== *)
theory Nmbm_Create
  imports Nmbm_Ops
begin

text \<open>
  Bringing NMBM up: the layout computed at initialisation is the one all operations rely on,
  the search for the signature ends, and creating the tables on a new chip runs for every
  behaviour of the driver and leaves an instance in order.
\<close>

section \<open>Initialisation\<close>

lemma ALIGN_ge:
  assumes "geom s"
  shows "x \<le> ALIGN x (pg_size s)" "ALIGN x (pg_size s) < x + pg_size s"
  using ALIGN_power2 [of "pg_size s" "pg_shift s" x] assms by (simp_all add: geom_def)

lemma spare_block_count_bounds:
  "2 \<le> nmbm_get_spare_block_count n" "nmbm_get_spare_block_count n < 2147483648"
proof -
  have "add32 n 1 < 4294967296" unfolding add32_def by (rule u32_of_bound)
  then have "add32 n 1 div 2 < 2147483648" by simp
  then show "2 \<le> nmbm_get_spare_block_count n" "nmbm_get_spare_block_count n < 2147483648"
    by (simp_all add: nmbm_get_spare_block_count_def Let_def)
qed

text \<open>
  A chip the manager can be brought up on: the geometry of the descriptor, between 1 and 65535
  blocks of at most 512 MiB.
\<close>

definition chip :: "('d, 'z) bmtd_scheme \<Rightarrow> bool" where
  "chip s \<longleftrightarrow> geom s \<and> 0 < total_blks s \<and> total_blks s < 65536 \<and> blk_shift s \<le> 29"

lemma init_fields:
  fixes s :: "'d nmbm"
  defines "t \<equiv> nmbm_init_structure s"
  shows "block_count t = total_blks s" "length (block_state t) = (total_blks s + 15) div 16"
    "length (block_mapping t) = total_blks s" "rawpage_size t = pg_size s + mtd_oobsize s"
    "state_table_size t = 4 * ((total_blks s + 15) div 16)" "mapping_table_size t = 4 * total_blks s"
    "info_table_size t = ALIGN 32 (pg_size s) + ALIGN (4 * ((total_blks s + 15) div 16)) (pg_size s)
       + ALIGN (4 * total_blks s) (pg_size s)"
    "length (info_table_cache t) = info_table_size t"
    "it_state_table_off (info_table t) = word_of_nat (ALIGN 32 (pg_size s))"
    "it_mapping_table_off (info_table t) = word_of_nat (ALIGN 32 (pg_size s)
       + ALIGN (4 * ((total_blks s + 15) div 16)) (pg_size s))"
    "mapping_blocks_top_ba t = mapping_blocks_top_ba s" "max_ratio t = max_ratio s"
    "max_reserved_blocks t = max_reserved_blocks s" "signature t = signature s"
    "force_create t = force_create s" "total_blks t = total_blks s" "protected t = protected s"
    "info_table_spare_blocks t < 2147483648"
  unfolding t_def
  by (simp_all add: nmbm_init_structure_def Let_def mult.commute add.commute
      spare_block_count_bounds)

lemma init_geom: "geom (nmbm_init_structure s) = geom s"
  by (simp add: geom_def nmbm_init_structure_def Let_def)

lemma init_inst:
  fixes s :: "'d nmbm"
  assumes "chip s" "mapping_blocks_top_ba s \<le> total_blks s"
  shows "inst (nmbm_init_structure s)"
proof -
  have g: "geom s" "total_blks s < 65536" "blk_shift s \<le> 29" "0 < total_blks s"
    using assms(1) by (simp_all add: chip_def)
  have b: "blk_size s = 2 ^ blk_shift s" "pg_size s = 2 ^ pg_shift s" "pg_shift s \<le> blk_shift s"
    using g(1) by (simp_all add: geom_def)
  have "blk_size s \<le> 2 ^ 29" using b(1) g(3) power_increasing [of "blk_shift s" 29 "2 :: nat"] by simp
  moreover have "pg_size s \<le> blk_size s"
    using b power_increasing [of "pg_shift s" "blk_shift s" "2 :: nat"] by simp
  ultimately have pg: "pg_size s \<le> 536870912" "blk_size s \<le> 536870912" by simp_all
  let ?st = "4 * ((total_blks s + 15) div 16)" and ?mp = "4 * total_blks s"
  let ?so = "ALIGN 32 (pg_size s)"
  let ?mo = "?so + ALIGN ?st (pg_size s)"
  have st: "?st \<le> ?mp + 4" by linarith
  note a = ALIGN_ge [OF g(1), of 32] ALIGN_ge [OF g(1), of ?st] ALIGN_ge [OF g(1), of ?mp]
  have sz: "?mo + ALIGN ?mp (pg_size s) < 2147483648"
    using a pg st g(2) by linarith
  have u: "unat (word_of_nat ?so :: u32) = ?so" "unat (word_of_nat ?mo :: u32) = ?mo"
    using sz by (simp_all add: unat_of_nat del: of_nat_add)
  have blk: "blk_size (nmbm_init_structure s) = blk_size s"
    by (simp add: nmbm_init_structure_def Let_def)
  have pgs: "pg_size (nmbm_init_structure s) = pg_size s" "mtd_oobsize (nmbm_init_structure s) = mtd_oobsize s"
    by (simp_all add: nmbm_init_structure_def Let_def)
  show ?thesis
    using sz u a pg g assms(2) init_fields(18) [of s]
    unfolding inst_def ok_def tables_def init_geom init_fields blk pgs
    by simp
qed

text \<open>
  The allocation \<open>nmbm_calc_structure_size\<close> asks for is exactly what the three arrays take up
  behind the structure, one after the other.
\<close>

lemma structure_size_exact:
  "nmbm_pointers (nmbm_init_structure s) n =
    (n, n + info_table_size (nmbm_init_structure s),
     n + info_table_size (nmbm_init_structure s) + state_table_size (nmbm_init_structure s),
     nmbm_calc_structure_size s n)"
  by (simp add: nmbm_pointers_def Let_def nmbm_calc_structure_size_def init_fields mult.commute
      add.commute add.left_commute)

section \<open>The signature\<close>

lemma check_header_runs:
  assumes "n \<le> length data"
  shows "runs (nmbm_check_header E data n) (\<lambda>_. True)"
  using assms by (simp add: nmbm_check_header_def Let_def vcg)

lemma sig_pages_spec:
  assumes "ok s" "length sig = 48" "pg = pg_size s"
  shows "runs (nmbm_sig_pages_loop E s addr sig off lim pg) (\<lambda>(r, t). io_only s t
    \<and> (\<forall>g. r = Some g \<longrightarrow> h_magic (sig_header g) = NMBM_MAGIC_SIGNATURE \<and> length (sig_padding g) = 7))"
  using assms
proof (induction "lim - off" arbitrary: s sig off rule: less_induct)
  case less
  show ?case
  proof (cases "off < lim")
    case False
    then show ?thesis by (subst nmbm_sig_pages_loop.simps) simp
  next
    case True
    have pg: "pg \<noteq> 0" using less.prems by (simp add: ok_def geom_def)
    show ?thesis
      apply (subst nmbm_sig_pages_loop.simps)
      unfolding if_P [OF True] if_not_P [OF pg]
    proof (rule runs_bindI [OF read_data_spec [OF less.prems(1), of _ sig]], goal_cases)
      case 1
      then show ?case using less.prems(2) by simp
    next
      case (2 x)
      obtain r b t where x: "x = (r, b, t)" by (cases x)
      have io: "io_only s t" and b: "length b = 48" using 2 x less.prems(2) by auto
      have "runs (if r \<noteq> 0 then Some False else nmbm_check_header E b 48) (\<lambda>_. True)"
        using check_header_runs [of 48 b E] b by simp
      then show ?case
        unfolding x prod.case
      proof (rule runs_bindI, goal_cases)
        case (1 ok)
        have "runs (nmbm_sig_pages_loop E t addr b (off + pg) lim pg) (\<lambda>(r, u). io_only t u
          \<and> (\<forall>g. r = Some g \<longrightarrow> h_magic (sig_header g) = NMBM_MAGIC_SIGNATURE \<and> length (sig_padding g) = 7))"
          by (rule less.hyps)
             (use True pg b io_only_ok [OF io less.prems(1)] io_only_fields [OF io] less.prems(3) in auto)
        then have "runs (nmbm_sig_pages_loop E t addr b (off + pg) lim pg) (\<lambda>(r, u). io_only s u
          \<and> (\<forall>g. r = Some g \<longrightarrow> h_magic (sig_header g) = NMBM_MAGIC_SIGNATURE \<and> length (sig_padding g) = 7))"
          by (rule runs_mono) (auto intro: io_only_trans [OF io])
        then show ?case using io b by (simp add: bytes_signature_def)
      qed
    qed
  qed
qed

text \<open>
  The search goes down from the last block of the chip and ends, for every behaviour of the
  driver, at the block below the limit, provided that there is one.
\<close>

lemma find_signature_loop_spec:
  assumes "ok s" "0 < limit" "ba < 65536"
  shows "runs (nmbm_find_signature_loop E s ba limit) (\<lambda>(r, t). io_only s t
    \<and> (\<forall>g b. r = Some (g, b) \<longrightarrow> limit - 1 \<le> b \<and> b < ba
        \<and> h_magic (sig_header g) = NMBM_MAGIC_SIGNATURE \<and> length (sig_padding g) = 7))"
  using assms(1,3)
proof (induction ba arbitrary: s rule: less_induct)
  case (less ba)
  show ?case
  proof (cases "limit \<le> ba")
    case False
    then show ?thesis by (subst nmbm_find_signature_loop.simps) simp
  next
    case True
    have sub: "sub32 ba 1 = ba - 1" using True assms(2) less.prems by simp
    obtain bad d where ck: "nmbm_check_bad_phys_block E s (ba - 1) = (bad, s\<lparr>dev := d\<rparr>)"
      by (rule check_bad_phys_blockE)
    have rec: "runs (nmbm_find_signature_loop E t (ba - 1) limit) (\<lambda>(r, t). io_only s t
      \<and> (\<forall>g b. r = Some (g, b) \<longrightarrow> limit - 1 \<le> b \<and> b < ba
        \<and> h_magic (sig_header g) = NMBM_MAGIC_SIGNATURE \<and> length (sig_padding g) = 7))"
      if io: "io_only s t" for t
    proof -
      have lt: "ba - 1 < ba" "ba - 1 < 65536" using True assms(2) less.prems by simp_all
      show ?thesis
        by (rule runs_mono [OF less.IH [OF lt(1) io_only_ok [OF io less.prems(1)] lt(2)]])
           (use lt in \<open>auto intro: io_only_trans [OF io]\<close>)
    qed
    have dv: "ok (s\<lparr>dev := d\<rparr>)" using less.prems by simp
    have pg: "blk_size (s\<lparr>dev := d\<rparr>) = blk_size s" "pg_size (s\<lparr>dev := d\<rparr>) = pg_size s"
      "ba2addr (s\<lparr>dev := d\<rparr>) = ba2addr s" by (simp_all add: fun_eq_iff ba2addr_def)
    show ?thesis
    proof (cases bad)
      case b: True
      show ?thesis using True sub ck b rec [of "s\<lparr>dev := d\<rparr>"]
        by (subst nmbm_find_signature_loop.simps) (simp add: Let_def)
    next
      case b: False
      have "runs (Option.bind (nmbm_sig_pages_loop E (s\<lparr>dev := d\<rparr>) (ba2addr s (ba - 1))
          (replicate 48 0) 0 (blk_size s) (pg_size s)) (\<lambda>(r, s). case r of
            Some sig \<Rightarrow> Some (Some (sig, ba - 1), s)
          | None \<Rightarrow> nmbm_find_signature_loop E s (ba - 1) limit)) (\<lambda>(r, t). io_only s t
        \<and> (\<forall>g b. r = Some (g, b) \<longrightarrow> limit - 1 \<le> b \<and> b < ba
          \<and> h_magic (sig_header g) = NMBM_MAGIC_SIGNATURE \<and> length (sig_padding g) = 7))"
        by (rule runs_bind_pairI [OF sig_pages_spec [OF dv]])
           (use True assms(2) rec in \<open>auto split: option.split\<close>)
      then show ?thesis using True sub ck b
        by (subst nmbm_find_signature_loop.simps) (simp add: Let_def del: One_nat_def)
    qed
  qed
qed

lemma find_signature_spec:
  assumes "ok s" "0 < nmbm_signature_limit s" "total_blks s < 65536"
  shows "runs (nmbm_find_signature E s) (\<lambda>(r, t). io_only s t
    \<and> (\<forall>g b. r = Some (g, b) \<longrightarrow> nmbm_signature_limit s - 1 \<le> b \<and> b < total_blks s
        \<and> h_magic (sig_header g) = NMBM_MAGIC_SIGNATURE \<and> length (sig_padding g) = 7))"
  unfolding nmbm_find_signature_def by (rule find_signature_loop_spec [OF assms])

text \<open>
  With a limit of 0 the address wraps around, and on a chip whose blocks are all bad the search
  never ends.
\<close>

lemma find_signature_loop_diverges:
  assumes "\<And>d a. fst (k_isbad E d a) \<noteq> 0"
  shows "nmbm_find_signature_loop E s ba 0 = None"
proof -
  have "E' = E \<longrightarrow> limit = 0 \<longrightarrow> False" if "nmbm_find_signature_loop E' s ba limit = Some y"
    for E' :: "'a kernel" and s ba limit y
    using that
  proof (induction E' s ba limit y
      rule: nmbm_find_signature_loop.raw_induct [rotated 1, consumes 1, case_names step])
    case (step f E' s ba limit y)
    obtain bad d where ck: "nmbm_check_bad_phys_block E s (sub32 ba 1) = (bad, s\<lparr>dev := d\<rparr>)"
      by (rule check_bad_phys_blockE)
    then have bad using assms [of "dev s" "ba2addr s (sub32 ba 1)"]
      by (simp add: nmbm_check_bad_phys_block_def case_prod_beta Let_def)
    then show ?case using step ck
      by (cases y; cases "limit = 0") (auto simp: Let_def simp del: One_nat_def, metis less_irrefl_nat)
  qed
  then show ?thesis by (cases "nmbm_find_signature_loop E s ba 0") (simp, blast)
qed

section \<open>A new chip\<close>

lemma remap_tail_loop_spec:
  assumes "attached_ok s" "n \<le> block_count s" "data_block_count s = lb"
  shows "runs (nmbm_remap_tail E s lb n) attached_ok"
  using assms
proof (induction "n - lb" arbitrary: s lb)
  case 0
  then show ?case by (subst nmbm_remap_tail.simps) simp
next
  case (Suc k)
  have lt: "lb < n" and k: "k = n - Suc lb" using Suc.hyps(2) by auto
  have s: "inst s" "sane s" "mapping_blocks_top_ba s < block_count s" "lb < block_count s"
    using Suc.prems lt by (simp_all add: attached_ok_def)
  have "runs (Option.bind (nmbm_map_block E s lb) (\<lambda>(success, s).
      if \<not> success then Some s
      else nmbm_remap_tail E (s\<lparr>data_block_count := data_block_count s + 1\<rparr>) (Suc lb) n)) attached_ok"
  proof (rule runs_bind_pairI [OF map_block_spec [OF s]], goal_cases)
    case (1 r t)
    show ?case
    proof (cases r)
      case False
      then show ?thesis using 1 Suc.prems(1) by (auto intro: used_up_attached)
    next
      case True
      then obtain pb where pb: "spare_block s pb" "t = mapped_to s lb pb" using 1 by auto
      let ?u = "t\<lparr>data_block_count := data_block_count t + 1\<rparr>"
      have at: "attached_ok t" unfolding pb(2) by (rule mapped_to_ok [OF Suc.prems(1) pb(1) s(4)])
      have d: "data_block_count t = lb" "block_count t = block_count s"
        using Suc.prems(3) by (simp_all add: pb(2) mapped_to_def)
      have p: "pb < block_count s" using pb(1) s(3) by (simp add: spare_block_def)
      have "unat (block_mapping t ! lb) < block_count t"
        using p s(4) inst_lengths(1,2) [OF s(1)] d
        by (simp add: pb(2) mapped_to_def unat_of_nat)
      then have "attached_ok ?u"
        using at d s(4) by (auto simp: attached_ok_def less_Suc_eq)
      then have "runs (nmbm_remap_tail E ?u (Suc lb) n) attached_ok"
        by (intro Suc.hyps(1) [OF k]) (use d Suc.prems(2) in simp_all)
      then show ?thesis using True by simp
    qed
  qed
  then show ?case using lt by (subst nmbm_remap_tail.simps) simp
qed

text \<open>An instance whose tables are filled in but not yet on flash.\<close>

definition fresh :: "'d nmbm \<Rightarrow> bool" where
  "fresh s \<longleftrightarrow> inst s \<and> mgmt_start_ba s \<le> block_count s \<and> data_block_count s \<le> block_count s
     \<and> (\<forall>lb < data_block_count s. unat (block_mapping s ! lb) < block_count s)"

lemma create_info_table_spec:
  assumes "fresh s" "mgmt_start_ba s < signature_ba s" "signature_ba s < block_count s"
  shows "runs (nmbm_create_info_table E s) (\<lambda>(r, t). r \<longrightarrow> attached_ok t)"
proof -
  have i: "inst s" "mgmt_start_ba s \<le> block_count s" "data_block_count s \<le> block_count s"
    "\<forall>lb < data_block_count s. unat (block_mapping s ! lb) < block_count s"
    using assms(1) by (simp_all add: fresh_def)
  note l = inst_lengths [OF i(1)]
  have wl: "walk_limit s (int (mgmt_start_ba s)) = mgmt_start_ba s"
    using assms(2,3) l(2) by (simp add: walk_limit_def)
  have walk: "runs (nmbm_block_walk s False (signature_ba s) 1 (int (mgmt_start_ba s)))
      (\<lambda>r. \<forall>top. r = Some top \<longrightarrow> mgmt_start_ba s < top \<and> top < block_count s)"
    using block_walk_desc_spec [OF l(4), of 1 "signature_ba s" "int (mgmt_start_ba s)"] assms(3) wl
    by (auto elim!: runs_mono split: option.splits)
  show ?thesis
    unfolding nmbm_create_info_table_def
  proof (rule runs_bindI [OF walk], goal_cases)
    case (1 x)
    show ?case
    proof (cases x)
      case None
      then show ?thesis by simp
    next
      case (Some tp)
      have tp: "mgmt_start_ba s < tp" "tp < block_count s" using 1 Some by simp_all
      define s1 where "s1 = s\<lparr>mapping_blocks_top_ba := tp\<rparr>"
      have f1: "mapping_blocks_top_ba s1 = tp" "mgmt_start_ba s1 = mgmt_start_ba s"
        "block_count s1 = block_count s" "data_block_count s1 = data_block_count s"
        "block_mapping s1 = block_mapping s"
        by (simp_all add: s1_def)
      have i1: "inst s1" using i(1) tp by (simp add: s1_def inst_def ok_def geom_def tables_def)
      have at: "attached_ok t" if "maintains s1 t" "sane t" for t
        using that i f1 tp maintains_inst [OF that(1) i1] maintains_fields [OF that(1)]
        by (simp add: attached_ok_def)
      show ?thesis
        unfolding Some option.case Let_def s1_def [symmetric]
      proof (rule runs_bind_pairI [OF generate_spec [OF i1]], goal_cases)
        case (1 r0 s2)
        have m2: "maintains s1 s2" using 1 by simp
        have i2: "inst s2" by (rule maintains_inst [OF m2 i1])
        have le: "mgmt_start_ba s2 \<le> mapping_blocks_top_ba s2"
          using maintains_fields [OF m2] f1 tp by simp
        show ?case
        proof (rule runs_bindI [OF rebuild_spec [OF i2 le]], goal_cases)
          case (1 y)
          obtain r t where y: "y = (r, t)" by (cases y)
          show ?case
          proof (cases r)
            case False
            then show ?thesis using y by simp
          next
            case True
            then have t: "maintains s2 t" "placed t" using 1 y by simp_all
            have a: "attached_ok t"
              by (rule at [OF maintains_trans [OF m2 t(1)] placed_sane [OF t(2)]])
            have mg: "mgmt_start_ba t \<le> block_count t"
              using maintains_fields [OF maintains_trans [OF m2 t(1)]] f1 i(2) by simp
            have "runs (Option.bind (nmbm_remap_tail E t (data_block_count t) (mgmt_start_ba t))
                (nmbm_update_info_table E)) (\<lambda>(r, t). r \<longrightarrow> attached_ok t)"
            proof (rule runs_bindI [OF remap_tail_loop_spec [OF a mg refl]], goal_cases)
              case (1 u)
              then have u: "inst u" "sane u" by (simp_all add: attached_ok_def)
              show ?case
                by (rule runs_mono [OF update_spec [OF u]])
                   (use 1 in \<open>auto simp: updated_def intro: maintains_attached\<close>)
            qed
            then show ?thesis using True y by simp
          qed
        qed
      qed
    qed
  qed
qed

lemma mgmt_boundary_le:
  assumes "limit \<le> count" "count < 65536"
  shows "mgmt_boundary limit count reserved \<le> count"
  using assms by (auto simp: mgmt_boundary_def)

lemma mgmt_start_bound:
  assumes "count < 65536" "ratio \<le> 16"
  shows "u32_of (int count * int (sub32 16 ratio)) div 16 \<le> count"
proof -
  define m where "m = 16 - ratio"
  have r: "sub32 16 ratio = m" using assms by (simp add: m_def)
  have "count * m \<le> count * 16" by (intro mult_le_mono2) (simp add: m_def)
  then have b: "count * m \<le> 16 * count" "count * m < 4294967296"
    using assms(1) by linarith+
  define p where "p = count * m"
  have "u32_of (int p) = p" using b(2) unfolding p_def [symmetric] by simp
  moreover have "count * m div 16 \<le> count" using div_le_mono [OF b(1), of 16] by simp
  ultimately show ?thesis unfolding p_def by (simp add: r)
qed

text \<open>Marking blocks bad and then building the factory mapping gives a fresh instance.\<close>

lemma scan_build_spec:
  assumes "inst s" "mgmt_start_ba s \<le> block_count s"
  shows "runs (Option.bind (nmbm_scan_badblocks E s) nmbm_build_mapping_table)
    (\<lambda>t. fresh t \<and> signature t = signature s \<and> mgmt_start_ba t = mgmt_start_ba s
       \<and> block_count t = block_count s)"
  unfolding nmbm_scan_badblocks_def
proof (rule runs_bindI [OF scan_badblocks_loop_spec [OF inst_ok [OF assms(1)] order.refl]],
    goal_cases)
  case (1 u)
  have mu: "maintains s u" by (rule works_maintains [OF 1])
  have iu: "inst u" by (rule maintains_inst [OF mu assms(1)])
  note l = inst_lengths [OF iu]
  have mg: "mgmt_start_ba u \<le> block_count u" using assms(2) maintains_fields [OF mu] by simp
  define gs where "gs = filter (not_bad u) [0..<mgmt_start_ba u]"
  have gs: "length gs \<le> mgmt_start_ba u" "\<forall>b \<in> set gs. b < block_count u"
    using mg length_filter_le [of "not_bad u" "[0..<mgmt_start_ba u]"] by (auto simp: gs_def)
  define t where "t = u\<lparr>data_block_count := length gs,
     block_mapping := map word_of_nat gs @ replicate (block_count u - length gs) (- 1)\<rparr>"
  have bm: "nmbm_build_mapping_table u = Some t"
    using build_mapping_table_eq [OF l(4) mg] by (simp add: Let_def t_def gs_def)
  have it: "inst t"
    using iu gs(1) mg l(1) by (simp add: t_def inst_def ok_def geom_def tables_def)
  have "unat (block_mapping t ! lb) < block_count u" if "lb < length gs" for lb
  proof -
    have "gs ! lb < block_count u" using gs(2) that by simp
    then show ?thesis using that l(2) by (simp add: t_def nth_append unat_of_nat)
  qed
  then have "fresh t" using it mg gs(1) by (simp add: fresh_def) (simp add: t_def)
  moreover have "signature t = signature s"
    using 1 by (auto simp: t_def works_def elim!: degradesE)
  ultimately show ?case
    using bm maintains_fields [OF mu] by (simp add: t_def)
qed

text \<open>The signature the manager writes is one that its search accepts.\<close>

definition new_signature :: "'d nmbm \<Rightarrow> nmbm_signature" where
  "new_signature s = (signature s)\<lparr>
     sig_header := (sig_header (signature s))\<lparr>h_magic := NMBM_MAGIC_SIGNATURE,
       h_version := NMBM_VER, h_size := word_of_nat sizeof_signature\<rparr>,
     sig_nand_size := nand_size_of s, sig_block_size := word_of_nat (blk_size s),
     sig_page_size := word_of_nat (pg_size s), sig_spare_size := word_of_nat (mtd_oobsize s),
     sig_mgmt_start_pb := word_of_nat (mgmt_start_ba s),
     sig_max_try_count := word_of_nat NMBM_TRY_COUNT\<rparr>"

lemma new_signature_checksum:
  assumes "length (sig_padding (signature s)) = 7"
  shows "runs (nmbm_update_checksum E (signature_bytes (new_signature s))) (\<lambda>b. length b = 48)"
proof -
  have p: "length (sig_padding (new_signature s)) = 7" using assms by (simp add: new_signature_def)
  have "bytes_header (signature_bytes (new_signature s)) = sig_header (new_signature s)"
    using header.of_bytes_bytes [of "sig_header (new_signature s)"] by (simp add: signature_bytes_def)
  moreover have "length (signature_bytes (new_signature s)) = 48"
    by (rule signature.length_bytes [OF p])
  ultimately show ?thesis
    using update_checksum_runs [of "signature_bytes (new_signature s)" E]
    by (simp add: new_signature_def)
qed

lemma fresh_sets [simp]:
  "fresh (s\<lparr>signature := g\<rparr>) = fresh s" "fresh (s\<lparr>signature_ba := b\<rparr>) = fresh s"
  by (simp_all add: fresh_def inst_def ok_def geom_def tables_def)

lemma works_fresh:
  assumes "works A s t" "fresh s"
  shows "fresh t"
proof -
  have m: "maintains s t" by (rule works_maintains [OF assms(1)])
  show ?thesis
    using assms(2) maintains_inst [OF m] maintains_fields [OF m] by (simp add: fresh_def)
qed

lemma sign_and_create_spec:
  assumes "fresh s" "length (sig_padding (signature s)) = 7"
  shows "runs (Option.bind (nmbm_write_signature E s (mgmt_start_ba s) (signature s)) (\<lambda>(r, s).
      case r of None \<Rightarrow> Some (False, s)
      | Some ba \<Rightarrow> nmbm_create_info_table E (s\<lparr>signature_ba := ba\<rparr>))) (\<lambda>(r, t). r \<longrightarrow> attached_ok t)"
proof -
  have i: "inst s" using assms(1) by (simp add: fresh_def)
  show ?thesis
  proof (rule runs_bind_pairI [OF write_signature_spec [OF inst_ok [OF i] assms(2)]], goal_cases)
    case (1 r t)
    show ?case
    proof (cases r)
      case None
      then show ?thesis by simp
    next
      case (Some ba)
      have b: "mgmt_start_ba s < ba" "ba \<le> block_count s - 1"
        using 1 Some by (auto simp: signature_at_def)
      have "fresh t" using 1 works_fresh [OF _ assms(1)] by auto
      moreover have "mgmt_start_ba t = mgmt_start_ba s" "block_count t = block_count s"
        using 1 by (auto simp: works_fields)
      ultimately show ?thesis
        using Some b inst_lengths(3) [OF i] create_info_table_spec [of "t\<lparr>signature_ba := ba\<rparr>" E]
        by simp
    qed
  qed
qed

lemma bytes_signature_padding: "length b = 48 \<Longrightarrow> length (sig_padding (bytes_signature b)) = 7"
  by (simp add: bytes_signature_def)

lemma create_new_spec:
  assumes "inst s" "max_ratio s \<le> 16" "length (sig_padding (signature s)) = 7"
  shows "runs (nmbm_create_new E s) (\<lambda>(r, t). r \<longrightarrow> attached_ok t)"
proof -
  note l = inst_lengths [OF assms(1)]
  define b1 where "b1 = u32_of (int (block_count s) * int (sub32 16 (max_ratio s))) div 16"
  define s1 where "s1 = s\<lparr>mgmt_start_ba := mgmt_boundary b1 (block_count s) (max_reserved_blocks s)\<rparr>"
  have i1: "inst s1" using assms(1) by (simp add: s1_def inst_def ok_def geom_def tables_def)
  have mg: "mgmt_start_ba s1 \<le> block_count s1"
    using mgmt_boundary_le [OF mgmt_start_bound [OF l(2) assms(2)] l(2)] by (simp add: s1_def b1_def)
  have e: "nmbm_create_new E s = Option.bind (Option.bind (nmbm_scan_badblocks E s1)
      nmbm_build_mapping_table) (\<lambda>s. Option.bind (nmbm_update_checksum E (signature_bytes (new_signature s)))
      (\<lambda>b. let s = s\<lparr>signature := bytes_signature b\<rparr>
        in Option.bind (nmbm_write_signature E s (mgmt_start_ba s) (signature s)) (\<lambda>(r, s).
      case r of None \<Rightarrow> Some (False, s)
      | Some ba \<Rightarrow> nmbm_create_info_table E (s\<lparr>signature_ba := ba\<rparr>))))"
    by (simp add: nmbm_create_new_def Let_def s1_def b1_def new_signature_def)
  show ?thesis
    unfolding e
  proof (rule runs_bindI [OF scan_build_spec [OF i1 mg]], goal_cases)
    case (1 t)
    then have f: "fresh t" and p: "length (sig_padding (signature t)) = 7"
      using assms(3) by (simp_all add: s1_def)
    show ?case
    proof (rule runs_bindI [OF new_signature_checksum [OF p]], goal_cases)
      case (1 b)
      then show ?case
        using sign_and_create_spec [of "t\<lparr>signature := bytes_signature b\<rparr>" E] f
          bytes_signature_padding [OF 1]
        by (simp add: Let_def)
    qed
  qed
qed

section \<open>Attaching\<close>

text \<open>
  On a chip on which the search finds no signature, attaching runs for every behaviour of the
  driver; it creates the tables only when told to, and success means an instance in order.
\<close>

lemma attach_new_spec:
  assumes "chip s" "max_ratio s \<le> 16" "length (sig_padding (signature s)) = 7"
    "mapping_blocks_top_ba s \<le> total_blks s"
    "nmbm_find_signature E (nmbm_init_structure s) = Some (None, u)"
    "io_only (nmbm_init_structure s) u"
  shows "runs (nmbm_attach E (Some s)) (\<lambda>(r, t).
    (if force_create s then r = 0 \<or> r = - ENODEV else r = - ENODEV)
    \<and> (\<exists>v. t = Some v \<and> (r = 0 \<longrightarrow> attached_ok v)))"
proof -
  have i: "inst u" by (rule maintains_inst [OF maintains_io [OF assms(6)] init_inst [OF assms(1,4)]])
  obtain d b where u: "u = (nmbm_init_structure s)\<lparr>dev := d, data_buf := b\<rparr>"
    using assms(6) unfolding io_only_def by blast
  have f: "max_ratio u \<le> 16" "length (sig_padding (signature u)) = 7" "force_create u = force_create s"
    using assms(2,3) by (simp_all add: u init_fields)
  show ?thesis
  proof (cases "force_create s")
    case False
    then show ?thesis using assms(5) f by (simp add: nmbm_attach_def Let_def)
  next
    case True
    have "runs (Option.bind (nmbm_create_new E u) (\<lambda>(success, s).
        Some (if \<not> success then - ENODEV else 0, Some s))) (\<lambda>(r, t). (r = 0 \<or> r = - ENODEV)
      \<and> (\<exists>v. t = Some v \<and> (r = 0 \<longrightarrow> attached_ok v)))"
      by (rule runs_bind_pairI [OF create_new_spec [OF i f(1,2)]]) simp
    then show ?thesis using assms(5) f True by (simp add: nmbm_attach_def Let_def)
  qed
qed

text \<open>A signature of another version or geometry is refused before the tables are looked at.\<close>

lemma attach_refuses:
  assumes "nmbm_find_signature E (nmbm_init_structure s) = Some (Some (sg, ba), u)"
    "h_version (sig_header sg) \<noteq> NMBM_VER \<or> sig_nand_size sg \<noteq> nand_size_of u
      \<or> unat (sig_block_size sg) \<noteq> blk_size u \<or> unat (sig_page_size sg) \<noteq> pg_size u
      \<or> unat (sig_spare_size sg) \<noteq> mtd_oobsize u"
  shows "nmbm_attach E (Some s) = Some (- EINVAL, Some (u\<lparr>signature := sg, signature_ba := ba\<rparr>))"
proof -
  have "nand_size_of (u\<lparr>signature := sg, signature_ba := ba\<rparr>) = nand_size_of u"
    by (simp add: nand_size_of_def)
  then show ?thesis using assms by (auto simp: nmbm_attach_def Let_def)
qed

end
