(* ===== verification/Bmt_Bbt.thy ===== *)
theory Bmt_Bbt
  imports Bmt_Device
begin

text \<open>
  The BBT manager (\<open>mtk_bmt_bbt.c\<close>): a table of two bits for each block in one page of flash,
  and a mapping that skips the bad blocks of a range instead of storing where each block went.
  \<open>bbt_buf\<close> holds the table.
\<close>

section \<open>The table\<close>

text \<open>The signature is the string \<open>mtknand\<close>.\<close>

definition bbt_sig :: "byte list" where
  "bbt_sig = [0x6d, 0x74, 0x6b, 0x6e, 0x61, 0x6e, 0x64]"

definition bbt_block_is_bad :: "('d, 'z) bmtd_scheme \<Rightarrow> nat \<Rightarrow> bool option" where
  "bbt_block_is_bad s block =
     do {
       cur \<leftarrow> aget (bbt_buf s) (block div 4);
       Some (cur AND push_bit ((block mod 4) * 2) 3 \<noteq> 0)
     }"

definition bbt_update_block ::
  "('d, 'z) bmtd_scheme \<Rightarrow> nat \<Rightarrow> bool \<Rightarrow> ('d, 'z) bmtd_scheme option" where
  "bbt_update_block s block bad =
     do {
       let mask = push_bit ((block mod 4) * 2) 3;
       cur \<leftarrow> aget (bbt_buf s) (block div 4);
       buf \<leftarrow> aset (bbt_buf s) (block div 4) (if bad then cur OR mask else cur AND NOT mask);
       Some (s\<lparr>bbt_buf := buf\<rparr>)
     }"

definition bbt_store :: "'d kernel \<Rightarrow> ('d, 'z) bmtd_scheme \<Rightarrow> ('d, 'z) bmtd_scheme option" where
  "bbt_store E s =
     do {
       let (_, s) = bbt_nand_erase E s (bmt_blk_idx s);
       (_, s) \<leftarrow> write_bmt E bbt_sig s (bmt_blk_idx s) (bbt_buf s);
       Some s
     }"

definition bbt_set_block_state ::
  "'d kernel \<Rightarrow> ('d, 'z) bmtd_scheme \<Rightarrow> nat \<Rightarrow> bool \<Rightarrow> ('d, 'z) bmtd_scheme option" where
  "bbt_set_block_state E s block bad =
     do { s \<leftarrow> bbt_update_block s block bad; bbt_store E s }"

section \<open>The mapping\<close>

text \<open>
  The first loop counts the bad blocks it passes while it skips \<open>ofs\<close> good ones. It yields the
  block it stopped at, the good blocks left to skip and the bad ones seen. The second goes
  down over the bad blocks.
\<close>

function bbt_skip_loop ::
  "('d, 'z) bmtd_scheme \<Rightarrow> int \<Rightarrow> int \<Rightarrow> int \<Rightarrow> int \<Rightarrow> (int \<times> int \<times> int) option" where
  "bbt_skip_loop s i end_blk ofs bad_blocks =
     (if i < end_blk then do {
        bad \<leftarrow> bbt_block_is_bad s (u16 i);
        if bad then bbt_skip_loop s (i + 1) end_blk ofs (bad_blocks + 1)
        else if ofs \<noteq> 0 then bbt_skip_loop s (i + 1) end_blk (s32 (ofs - 1)) bad_blocks
        else Some (i, ofs, bad_blocks)
      } else Some (i, ofs, bad_blocks))"
  by pat_completeness auto
termination
  by (relation "measure (\<lambda>(s, i, e, ofs, bad). nat (e - i))") auto

declare bbt_skip_loop.simps [simp del]

partial_function (option) bbt_overflow_loop ::
  "('d, 'z) bmtd_scheme \<Rightarrow> int \<Rightarrow> int \<Rightarrow> int \<Rightarrow> int option option" where
  "bbt_overflow_loop s i ofs bad_blocks =
     (if bad_blocks > 0 then do {
        bad \<leftarrow> bbt_block_is_bad s (u16 i);
        if \<not> bad then bbt_overflow_loop s (s32 (i - 1)) ofs bad_blocks
        else if bad_blocks - 1 \<le> ofs then Some (Some i)
        else bbt_overflow_loop s (s32 (i - 1)) ofs (bad_blocks - 1)
      } else Some None)"

definition get_mapping_block_index_bbt :: "('d, 'z) bmtd_scheme \<Rightarrow> int \<Rightarrow> int option" where
  "get_mapping_block_index_bbt s block =
     (case mapping_block_in_range s block of
        None \<Rightarrow> Some block
      | Some (start, end_blk) \<Rightarrow> do {
          let start = start div 2 ^ blk_shift s;
          let end_blk = end_blk div 2 ^ blk_shift s;
          let ofs = s32 (block - start);
          (i, ofs, bad_blocks) \<leftarrow> bbt_skip_loop s start end_blk ofs 0;
          if i < end_blk then Some i
          else do {
            r \<leftarrow> bbt_overflow_loop s (s32 (end_blk - 1)) ofs bad_blocks;
            Some (case r of Some i \<Rightarrow> i | None \<Rightarrow> block)
          }
        })"

definition remap_block_bbt ::
  "'d kernel \<Rightarrow> ('d, 'z) bmtd_scheme \<Rightarrow> nat \<Rightarrow> nat \<Rightarrow> int \<Rightarrow> (bool \<times> ('d, 'z) bmtd_scheme) option"
where
  "remap_block_bbt E s block mapped_blk copy_len =
     (case mapping_block_in_range s (int block) of
        None \<Rightarrow> Some (False, s)
      | Some _ \<Rightarrow> do {
          s \<leftarrow> bbt_set_block_state E s mapped_blk True;
          b \<leftarrow> get_mapping_block_index_bbt s (int block);
          let new_blk = u16 b;
          let (_, s) = bbt_nand_erase E s new_blk;
          let (_, s) = (if copy_len > 0 then bbt_nand_copy E s new_blk mapped_blk copy_len
                        else (0, s));
          Some (True, s)
        })"

definition unmap_block_bbt ::
  "'d kernel \<Rightarrow> ('d, 'z) bmtd_scheme \<Rightarrow> nat \<Rightarrow> ('d, 'z) bmtd_scheme option" where
  "unmap_block_bbt E s block = bbt_set_block_state E s block False"

section \<open>Attaching\<close>

text \<open>
  The table is looked for in the last five blocks, from the highest down: the fuel is the
  number of blocks left. The OOB buffer of the code is uninitialised; a driver that reports
  success has filled it.
\<close>

fun bbt_read_tries ::
  "nat \<Rightarrow> 'd kernel \<Rightarrow> ('d, 'z) bmtd_scheme \<Rightarrow> byte list \<Rightarrow> int \<Rightarrow> int \<times> ('d, 'z) bmtd_scheme"
where
  "bbt_read_tries 0 E s oob_buf i = (- EIO, s)"
| "bbt_read_tries (Suc n) E s oob_buf i =
     (let page = u32_of (i * 2 ^ (blk_shift s - pg_shift s));
          (ret, buf, oob_buf, s) = bbt_nand_read E s page (bbt_buf s) (pg_size s) oob_buf 8;
          s = s\<lparr>bbt_buf := buf\<rparr>
      in if ret \<noteq> 0 then bbt_read_tries n E s oob_buf (i - 1)
         else if oob_buf ! 0 \<noteq> 0xff then bbt_read_tries n E s oob_buf (i - 1)
         else if take 7 (drop 1 oob_buf) \<noteq> bbt_sig then bbt_read_tries n E s oob_buf (i - 1)
         else (0, s\<lparr>bmt_blk_idx := u16 i\<rparr>))"

definition mtk_bmt_read_bbt :: "'d kernel \<Rightarrow> ('d, 'z) bmtd_scheme \<Rightarrow> int \<times> ('d, 'z) bmtd_scheme" where
  "mtk_bmt_read_bbt E s = bbt_read_tries 5 E s (replicate 8 0) (int (total_blks s) - 1)"

definition mtk_bmt_init_bbt ::
  "'d kernel \<Rightarrow> ('d, 'z) bmtd_scheme \<Rightarrow> bool \<Rightarrow> int \<times> ('d, 'z) bmtd_scheme" where
  "mtk_bmt_init_bbt E s alloc =
     (let buf_size = round_up (total_blks s div 4) (blk_size s)
      in if \<not> alloc then (- ENOMEM, s)
         else
           let s = s\<lparr>bbt_buf := replicate buf_size 0xff\<rparr>;
               s = s\<lparr>mtd_size := nat ((int (mtd_size s) - 4 * int (mtd_erasesize s)) mod 2 ^ 64)\<rparr>;
               (ret, s) = mtk_bmt_read_bbt E s
           in if ret \<noteq> 0 then (ret, s) else (0, s\<lparr>bmt_pgs := buf_size div pg_size s\<rparr>))"

section \<open>Debugging\<close>

text \<open>A row of the listing: its address and, for each of four blocks, whether it is bad.\<close>

fun bbt_rows :: "('d, 'z) bmtd_scheme \<Rightarrow> nat list \<Rightarrow> (nat \<times> bool list) list option" where
  "bbt_rows s [] = Some []"
| "bbt_rows s (i # is) =
     do {
       cur \<leftarrow> aget (bbt_buf s) i;
       rows \<leftarrow> bbt_rows s is;
       Some ((u32_of (int (4 * i) * int (blk_size s)),
              map (\<lambda>k. drop_bit (2 * k) cur AND 3 \<noteq> 0) [0..<4]) # rows)
     }"

definition mtk_bmt_debug_bbt ::
  "'d kernel \<Rightarrow> ('d, 'z) bmtd_scheme \<Rightarrow> u64 \<Rightarrow>
     (int \<times> (nat \<times> bool list) list \<times> ('d, 'z) bmtd_scheme) option" where
  "mtk_bmt_debug_bbt E s val =
     (if val = 0 then do {
        rows \<leftarrow> bbt_rows s [0..<(total_blks s + 3) div 4];
        Some (0, rows, s)
      }
      else if val = 100 then do {
        s \<leftarrow> bbt_store E (s\<lparr>bmt_blk_idx := u16 (int (total_blks s) - 1)\<rparr>);
        Some (0, [], s)
      }
      else Some (0, [], s))"

definition mtk_bmt_bbt_ops :: "'d kernel \<Rightarrow> ('d, 'z) bmtd_scheme bmt_ops" where
  "mtk_bmt_bbt_ops E = \<lparr>op_sig = bbt_sig, op_remap_block = remap_block_bbt E,
     op_unmap_block = unmap_block_bbt E, op_get_mapping_block = get_mapping_block_index_bbt\<rparr>"

end
