(* ===== verification/Bmt_V2.thy ===== *)
theory Bmt_V2
  imports Bmt_Device
begin

text \<open>
  The BMT manager, version 2 (\<open>mtk_bmt_v2.c\<close>): a table \<open>bb_tbl\<close> with the physical block of every
  data block, and a pool \<open>bmt_tbl\<close> of spare blocks, one of which holds the tables themselves.

  Both tables lie in the page buffer \<open>bbt_buf\<close>, behind the four bytes of signature and version:
  \<open>bb_tbl[i]\<close> is the \<open>u16\<close> at offset \<open>4 + 2 * i\<close>, and \<open>bmt_tbl[i]\<close>, the pair \<open>{block, mapped}\<close>,
  lies at \<open>4 + 2 * table_size + 4 * i\<close>. An access outside the buffer is undefined.
\<close>

section \<open>The tables in the buffer\<close>

abbreviation (input) NO_MAPPED :: nat where "NO_MAPPED \<equiv> 0"
abbreviation (input) NORMAL_MAPPED :: nat where "NORMAL_MAPPED \<equiv> 1"
abbreviation (input) BMT_MAPPED :: nat where "BMT_MAPPED \<equiv> 2"
abbreviation (input) BMT_TBL_DEF_VAL :: nat where "BMT_TBL_DEF_VAL \<equiv> 0"
abbreviation (input) BBMT_VERSION :: byte where "BBMT_VERSION \<equiv> 2"
abbreviation (input) BBPOOL_RATIO :: nat where "BBPOOL_RATIO \<equiv> 2"
abbreviation (input) sizeof_bbbt :: nat where "sizeof_bbbt \<equiv> 4"
abbreviation (input) sizeof_bbmt :: nat where "sizeof_bbmt \<equiv> 4"

definition get16 :: "byte list \<Rightarrow> nat \<Rightarrow> nat option" where
  "get16 buf off = map_option le_nat (memget buf off 2)"

definition set16 :: "byte list \<Rightarrow> nat \<Rightarrow> nat \<Rightarrow> byte list option" where
  "set16 buf off v = memput buf off (le_bytes 2 v)"

definition bmt_off :: "('d, 'z) bmtd_scheme \<Rightarrow> nat" where
  "bmt_off s = sizeof_bbbt + 2 * table_size s"

definition get_bb :: "('d, 'z) bmtd_scheme \<Rightarrow> nat \<Rightarrow> nat option" where
  "get_bb s i = get16 (bbt_buf s) (sizeof_bbbt + 2 * i)"

definition get_block :: "('d, 'z) bmtd_scheme \<Rightarrow> nat \<Rightarrow> nat option" where
  "get_block s i = get16 (bbt_buf s) (bmt_off s + sizeof_bbmt * i)"

definition get_mapped :: "('d, 'z) bmtd_scheme \<Rightarrow> nat \<Rightarrow> nat option" where
  "get_mapped s i = get16 (bbt_buf s) (bmt_off s + sizeof_bbmt * i + 2)"

definition put_bb :: "('d, 'z) bmtd_scheme \<Rightarrow> nat \<Rightarrow> nat \<Rightarrow> ('d, 'z) bmtd_scheme option" where
  "put_bb s i v = do { b \<leftarrow> set16 (bbt_buf s) (sizeof_bbbt + 2 * i) v; Some (s\<lparr>bbt_buf := b\<rparr>) }"

definition put_block :: "('d, 'z) bmtd_scheme \<Rightarrow> nat \<Rightarrow> nat \<Rightarrow> ('d, 'z) bmtd_scheme option" where
  "put_block s i v =
     do { b \<leftarrow> set16 (bbt_buf s) (bmt_off s + sizeof_bbmt * i) v; Some (s\<lparr>bbt_buf := b\<rparr>) }"

definition put_mapped :: "('d, 'z) bmtd_scheme \<Rightarrow> nat \<Rightarrow> nat \<Rightarrow> ('d, 'z) bmtd_scheme option" where
  "put_mapped s i v =
     do { b \<leftarrow> set16 (bbt_buf s) (bmt_off s + sizeof_bbmt * i + 2) v; Some (s\<lparr>bbt_buf := b\<rparr>) }"

text \<open>The pointer \<open>bmtd.bbt\<close> must not be null when a table is reached through it.\<close>

definition bbt_deref :: "('d, 'z) bmtd_scheme \<Rightarrow> 'a option \<Rightarrow> 'a option" where
  "bbt_deref s m = (if bbt_set s then m else None)"

section \<open>Scanning for bad blocks\<close>

text \<open>
  The fuel is \<open>bb_max - loop\<close>, the bad blocks still tolerated. The four OOB bytes are
  uninitialised before the first read.
\<close>

fun find_valid_block_loop ::
  "nat \<Rightarrow> 'd kernel \<Rightarrow> ('d, 'z) bmtd_scheme \<Rightarrow> byte list \<Rightarrow> nat \<Rightarrow> nat \<times> ('d, 'z) bmtd_scheme"
where
  "find_valid_block_loop n E s fdm block =
     (if block \<ge> total_blks s then (0, s)
      else
        let (ret, buf, fdm, s) = bbt_nand_read E s (blk_pg s block) (data_buf s) (pg_size s) fdm 4;
            s = s\<lparr>data_buf := buf\<rparr>
        in if ret \<noteq> 0 \<or> fdm ! 0 \<noteq> 0xff
           then (case n of
                   0 \<Rightarrow> (0, s)
                 | Suc n \<Rightarrow> find_valid_block_loop n E s fdm (u16 (int block + 1)))
           else (block, s))"

declare find_valid_block_loop.simps [simp del]

definition find_valid_block ::
  "'d kernel \<Rightarrow> ('d, 'z) bmtd_scheme \<Rightarrow> nat \<Rightarrow> nat \<times> ('d, 'z) bmtd_scheme" where
  "find_valid_block E s block = find_valid_block_loop (bb_max s) E s (replicate 4 0) block"

function scan_data_loop ::
  "'d kernel \<Rightarrow> ('d, 'z) bmtd_scheme \<Rightarrow> nat \<Rightarrow> nat \<Rightarrow> (bool \<times> ('d, 'z) bmtd_scheme) option" where
  "scan_data_loop E s i n =
     (if i < n then do {
        prev \<leftarrow> get_bb s (i - 1);
        let (block, s) = find_valid_block E s (u16 (int prev + 1));
        s \<leftarrow> put_bb s i block;
        if block = 0 then Some (False, s) else scan_data_loop E s (Suc i) n
      } else Some (True, s))"
  by pat_completeness auto
termination
  by (relation "measure (\<lambda>(E, s, i, n). n - i)") auto

declare scan_data_loop.simps [simp del]

partial_function (option) scan_pool_loop ::
  "'d kernel \<Rightarrow> ('d, 'z) bmtd_scheme \<Rightarrow> nat \<Rightarrow> nat \<Rightarrow> (nat \<times> ('d, 'z) bmtd_scheme) option" where
  "scan_pool_loop E s block i =
     (let (block, s) = find_valid_block E s block in
      if block \<noteq> 0 then do {
        s \<leftarrow> put_block s i block;
        s \<leftarrow> put_mapped s i NO_MAPPED;
        scan_pool_loop E s (u16 (int block + 1)) (i + 1)
      } else Some (i, s))"

definition scan_bad_blocks ::
  "'d kernel \<Rightarrow> ('d, 'z) bmtd_scheme \<Rightarrow> (int \<times> ('d, 'z) bmtd_scheme) option" where
  "scan_bad_blocks E s =
     do {
       s \<leftarrow> put_bb s 0 0;
       (success, s) \<leftarrow> scan_data_loop E s 1 (pool_lba s);
       if \<not> success then Some (- 1, s)
       else do {
         last \<leftarrow> get_bb s (max 1 (pool_lba s) - 1);
         let s = s\<lparr>pool_pba := u16 (int last + 1)\<rparr>;
         if int (pool_pba s) \<ge> int (total_blks s) - 2 then Some (- 1, s)
         else do {
           (i, s) \<leftarrow> scan_pool_loop E s (pool_pba s) 0;
           let s = s\<lparr>bmt_blk_idx := u16 (int i - 1)\<rparr>;
           s \<leftarrow> put_mapped s (bmt_blk_idx s) BMT_MAPPED;
           Some (if i < 1 then (- 1, s) else (0, s))
         }
       }
     }"

section \<open>The tables on flash\<close>

definition BMT_str :: "byte list" where
  "BMT_str = [0x42, 0x4d, 0x54]"

definition bmt_sig :: "byte list" where
  "bmt_sig = [0x62, 0x6d, 0x74]"

definition is_valid_bmt :: "byte list \<Rightarrow> byte list \<Rightarrow> bool" where
  "is_valid_bmt buf fdm \<longleftrightarrow>
     take 3 buf = BMT_str \<and> take 3 (drop OOB_SIGNATURE_OFFSET fdm) = bmt_sig
     \<and> take 1 (drop 3 buf) = [BBMT_VERSION]"

partial_function (option) get_bmt_index_loop :: "('d, 'z) bmtd_scheme \<Rightarrow> nat \<Rightarrow> nat option" where
  "get_bmt_index_loop s i =
     do {
       block \<leftarrow> get_block s i;
       if block \<noteq> BMT_TBL_DEF_VAL then do {
         mapped \<leftarrow> get_mapped s i;
         if mapped = BMT_MAPPED then Some (u16 (int i)) else get_bmt_index_loop s (i + 1)
       } else Some 0
     }"

definition get_bmt_index :: "('d, 'z) bmtd_scheme \<Rightarrow> nat option" where
  "get_bmt_index s = get_bmt_index_loop s 0"

text \<open>
  One attempt to store the tables in pool entry \<open>n\<close>; an entry that fails is dropped.
\<close>

definition upload_entry ::
  "'d kernel \<Rightarrow> ('d, 'z) bmtd_scheme \<Rightarrow> nat \<Rightarrow> (bool \<times> ('d, 'z) bmtd_scheme) option" where
  "upload_entry E s n =
     do {
       block \<leftarrow> get_block s n;
       let (ret, s) = bbt_nand_erase E s block;
       if ret \<noteq> 0 then do { s \<leftarrow> put_block s n 0; Some (False, s) }
       else do {
         b \<leftarrow> memput (bbt_buf s) 0 BMT_str;
         b \<leftarrow> memput b 3 [BBMT_VERSION];
         let s = s\<lparr>bbt_buf := b\<rparr>;
         (ret, s) \<leftarrow> write_bmt E bmt_sig s block (bbt_buf s);
         if ret \<noteq> 0 then do { s \<leftarrow> put_block s n 0; Some (False, s) }
         else Some (True, s)
       }
     }"

text \<open>The argument is \<open>n + 1\<close>, so that 0 stands for the negative \<open>n\<close>.\<close>

fun upload_bmt ::
  "'d kernel \<Rightarrow> ('d, 'z) bmtd_scheme \<Rightarrow> nat \<Rightarrow> (nat \<times> ('d, 'z) bmtd_scheme) option" where
  "upload_bmt E s 0 = Some (65535, s)"
| "upload_bmt E s (Suc n) =
     do {
       mapped \<leftarrow> get_mapped s n;
       if mapped = NORMAL_MAPPED then Some (65535, s)
       else do {
         (success, s) \<leftarrow> upload_entry E s n;
         if success then Some (u16 (int n), s) else upload_bmt E s n
       }
     }"

definition upload_index ::
  "'d kernel \<Rightarrow> ('d, 'z) bmtd_scheme \<Rightarrow> ('d, 'z) bmtd_scheme option" where
  "upload_index E s =
     do {
       (n, s) \<leftarrow> upload_bmt E s (Suc (bmt_blk_idx s));
       Some (s\<lparr>bmt_blk_idx := n\<rparr>)
     }"

section \<open>Mapping blocks\<close>

function pool_loop ::
  "('d, 'z) bmtd_scheme \<Rightarrow> nat \<Rightarrow> nat \<Rightarrow> (nat \<times> ('d, 'z) bmtd_scheme) option" where
  "pool_loop s i n =
     (if i < n then do {
        block \<leftarrow> get_block s i;
        mapped \<leftarrow> get_mapped s i;
        if block \<noteq> 0 \<and> mapped = NO_MAPPED then do {
          s \<leftarrow> put_mapped s i NORMAL_MAPPED;
          block \<leftarrow> get_block s i;
          Some (block, s)
        } else pool_loop s (Suc i) n
      } else Some (0, s))"
  by pat_completeness auto
termination
  by (relation "measure (\<lambda>(s, i, n). n - i)") auto

declare pool_loop.simps [simp del]

definition find_valid_block_in_pool ::
  "('d, 'z) bmtd_scheme \<Rightarrow> (nat \<times> ('d, 'z) bmtd_scheme) option" where
  "find_valid_block_in_pool s =
     (if bmt_blk_idx s = 0 then Some (0, s) else pool_loop s 0 (bmt_blk_idx s))"

definition remap_block_v2 ::
  "'d kernel \<Rightarrow> ('d, 'z) bmtd_scheme \<Rightarrow> nat \<Rightarrow> nat \<Rightarrow> int \<Rightarrow> (bool \<times> ('d, 'z) bmtd_scheme) option"
where
  "remap_block_v2 E s block mapped_block copy_len =
     bbt_deref s (do {
       (new_block, s) \<leftarrow> find_valid_block_in_pool s;
       if new_block = 0 then Some (False, s)
       else do {
         s \<leftarrow> put_bb s block new_block;
         let (_, s) = bbt_nand_erase E s new_block;
         let (_, s) = (if copy_len > 0 then bbt_nand_copy E s new_block mapped_block copy_len
                       else (0, s));
         s \<leftarrow> upload_index E s;
         Some (True, s)
       }
     })"

definition get_mapping_block_index_v2 :: "('d, 'z) bmtd_scheme \<Rightarrow> int \<Rightarrow> int option" where
  "get_mapping_block_index_v2 s block =
     (if block \<ge> int (pool_lba s) then Some block
      else case mapping_block_in_range s block of
        None \<Rightarrow> Some block
      | Some _ \<Rightarrow>
          bbt_deref s (if block < 0 then None else map_option int (get_bb s (nat block))))"

definition unmap_block_v2 ::
  "'d kernel \<Rightarrow> ('d, 'z) bmtd_scheme \<Rightarrow> nat \<Rightarrow> ('d, 'z) bmtd_scheme option" where
  "unmap_block_v2 E s block =
     bbt_deref s (do { s \<leftarrow> put_bb s block block; upload_index E s })"

section \<open>Debugging\<close>

text \<open>
  The bit mask of the pool entries in use is a list of booleans, as long as the words allocated.
\<close>

fun pool_index :: "('d, 'z) bmtd_scheme \<Rightarrow> nat \<Rightarrow> nat list \<Rightarrow> nat option option" where
  "pool_index s b [] = Some None"
| "pool_index s b (k # ks) =
     do {
       block \<leftarrow> get_block s k;
       if b \<noteq> block then pool_index s b ks else Some (Some k)
     }"

fun mask_loop :: "('d, 'z) bmtd_scheme \<Rightarrow> bool list \<Rightarrow> nat list \<Rightarrow> bool list option" where
  "mask_loop s used [] = Some used"
| "mask_loop s used (i # is) =
     do {
       b \<leftarrow> get_bb s i;
       if b = i then mask_loop s used is
       else do {
         k \<leftarrow> pool_index s b [0..<bmt_blk_idx s];
         case k of
           None \<Rightarrow> mask_loop s used is
         | Some k \<Rightarrow> do { used \<leftarrow> aset used k True; mask_loop s used is }
       }
     }"

definition main_blocks :: "('d, 'z) bmtd_scheme \<Rightarrow> nat" where
  "main_blocks s = mtd_size s div 2 ^ blk_shift s"

definition mtk_bmt_get_mapping_mask :: "('d, 'z) bmtd_scheme \<Rightarrow> bool \<Rightarrow> bool list option option" where
  "mtk_bmt_get_mapping_mask s alloc =
     bbt_deref s (if \<not> alloc then Some None
       else map_option Some
         (mask_loop s (replicate (64 * (bmt_blk_idx s div 64 + 1)) False) [1..<main_blocks s]))"

fun v2_remaps :: "('d, 'z) bmtd_scheme \<Rightarrow> nat list \<Rightarrow> (nat \<times> nat) list option" where
  "v2_remaps s [] = Some []"
| "v2_remaps s (i # is) =
     do {
       b \<leftarrow> get_bb s i;
       r \<leftarrow> v2_remaps s is;
       Some (if b = i then r else (i, b) # r)
     }"

datatype pool_mark = Mapped_unused | Mapped_used | Holds_table | Unknown

fun v2_pool :: "('d, 'z) bmtd_scheme \<Rightarrow> bool list \<Rightarrow> nat list \<Rightarrow> (nat \<times> pool_mark \<times> nat) list option"
where
  "v2_pool s used [] = Some []"
| "v2_pool s used (i # is) =
     do {
       mapped \<leftarrow> get_mapped s i;
       block \<leftarrow> get_block s i;
       u \<leftarrow> aget used i;
       r \<leftarrow> v2_pool s used is;
       Some (if mapped = NO_MAPPED then r
             else if mapped = NORMAL_MAPPED
               then (i, if u then Mapped_used else Mapped_unused, block) # r
             else if mapped = BMT_MAPPED then (i, Holds_table, block) # r
             else (i, Unknown, block) # r)
     }"

text \<open>Freeing the pool entries that are marked as mapped but that no data block is mapped to.\<close>

fun v2_free_loop ::
  "('d, 'z) bmtd_scheme \<Rightarrow> bool list \<Rightarrow> nat list \<Rightarrow> nat \<Rightarrow> (nat \<times> ('d, 'z) bmtd_scheme) option"
where
  "v2_free_loop s used [] n_remap = Some (n_remap, s)"
| "v2_free_loop s used (i # is) n_remap =
     do {
       mapped \<leftarrow> get_mapped s i;
       if mapped \<noteq> NORMAL_MAPPED then v2_free_loop s used is n_remap
       else do {
         u \<leftarrow> aget used i;
         if u then v2_free_loop s used is n_remap
         else do {
           s \<leftarrow> put_mapped s i NO_MAPPED;
           v2_free_loop s used is (n_remap + 1)
         }
       }
     }"

definition mtk_bmt_debug_v2 ::
  "'d kernel \<Rightarrow> ('d, 'z) bmtd_scheme \<Rightarrow> u64 \<Rightarrow> bool \<Rightarrow>
     (int \<times> (nat \<times> nat) list \<times> (nat \<times> pool_mark \<times> nat) list \<times> ('d, 'z) bmtd_scheme) option"
where
  "mtk_bmt_debug_v2 E s val alloc =
     do {
       used \<leftarrow> mtk_bmt_get_mapping_mask s alloc;
       case used of
         None \<Rightarrow> Some (- ENOMEM, [], [], s)
       | Some used \<Rightarrow>
           if val = 0 then do {
             remaps \<leftarrow> v2_remaps s [1..<main_blocks s];
             pool \<leftarrow> v2_pool s used [0..<bmt_blk_idx s + 1];
             Some (0, remaps, pool, s)
           }
           else if val = 100 then do {
             (n_remap, s) \<leftarrow> v2_free_loop s used [0..<bmt_blk_idx s + 1] 0;
             s \<leftarrow> (if n_remap \<noteq> 0 then upload_index E s else Some s);
             Some (0, [], [], s)
           }
           else Some (0, [], [], s)
     }"

section \<open>Attaching\<close>

text \<open>
  The search for the tables, from the last block of the chip down to the pool. A block whose
  tables lack a valid index ends it.
\<close>

partial_function (option) find_bmt_loop ::
  "'d kernel \<Rightarrow> ('d, 'z) bmtd_scheme \<Rightarrow> nat \<Rightarrow> nat \<Rightarrow> ('d, 'z) bmtd_scheme option" where
  "find_bmt_loop E s block bufsz =
     (if \<not> bbt_set s \<and> block \<ge> pool_lba s then do {
        let (ret, buf, fdm, s) =
          bbt_nand_read E s (blk_pg s block) (bbt_buf s) bufsz (replicate 4 0) 4;
        let s = s\<lparr>bbt_buf := buf\<rparr>;
        if ret \<noteq> 0 then find_bmt_loop E s (u16 (int block - 1)) bufsz
        else if \<not> is_valid_bmt (bbt_buf s) fdm then find_bmt_loop E s (u16 (int block - 1)) bufsz
        else do {
          n \<leftarrow> get_bmt_index s;
          let s = s\<lparr>bmt_blk_idx := n\<rparr>;
          if n = 0 then Some s
          else find_bmt_loop E (s\<lparr>bbt_set := True\<rparr>) (u16 (int block - 1)) bufsz
        }
      } else Some s)"

definition create_bmt :: "'d kernel \<Rightarrow> ('d, 'z) bmtd_scheme \<Rightarrow> (int \<times> ('d, 'z) bmtd_scheme) option"
where
  "create_bmt E s =
     (if total_blks s > add32 (table_size s) (u32_of (int (table_size s) * int BBPOOL_RATIO) div 100)
      then Some (- 1, s)
      else do {
        let s = s\<lparr>bbt_set := True\<rparr>;
        b \<leftarrow> memput (bbt_buf s) (bmt_off s) (replicate (table_size s * sizeof_bbmt) 0);
        let s = s\<lparr>bbt_buf := b\<rparr>;
        (ret, s) \<leftarrow> scan_bad_blocks E s;
        if ret \<noteq> 0 then Some (- 1, s)
        else do {
          s \<leftarrow> upload_index E s;
          _ \<leftarrow> get_block s (bmt_blk_idx s);
          Some (if bmt_blk_idx s = 0 then (0, s)
                else if bmt_blk_idx s = 65535 then (- 1, s) else (0, s))
        }
      })"

text \<open>The three properties of the device tree node, absent ones \<open>None\<close>.\<close>

definition mtk_bmt_init_v2 ::
  "'d kernel \<Rightarrow> ('d, 'z) bmtd_scheme \<Rightarrow> nat option \<Rightarrow> nat option \<Rightarrow> nat option \<Rightarrow> bool \<Rightarrow>
     (int \<times> ('d, 'z) bmtd_scheme) option" where
  "mtk_bmt_init_v2 E s pool_prop offset_prop table_prop alloc =
     do {
       let bmt_pool_size = (case pool_prop of None \<Rightarrow> 80 | Some n \<Rightarrow> n);
       let s = s\<lparr>oob_offset := (case offset_prop of None \<Rightarrow> 0 | Some n \<Rightarrow> n)\<rparr>;
       let bmt_table_size = (case table_prop of None \<Rightarrow> 0x2000 | Some n \<Rightarrow> n);
       let s = s\<lparr>table_size := bmt_table_size\<rparr>;
       let pmt_block = u16 (int (total_blks s) - int bmt_pool_size - 2);
       let s = s\<lparr>mtd_size := nat (s32 (int pmt_block * 2 ^ blk_shift s) mod 2 ^ 64)\<rparr>;
       let s = s\<lparr>pool_lba := u16 (int pmt_block + 2)\<rparr>;
       let s = s\<lparr>bb_max := u16 (int (total_blks s * BBPOOL_RATIO div 100))\<rparr>;
       let bufsz = u32_of (int (round_up (sizeof_bbbt + bmt_table_size * sizeof_bbmt) (pg_size s)));
       let s = s\<lparr>bmt_pgs := bufsz div 2 ^ pg_shift s\<rparr>;
       if \<not> alloc then Some (- ENOMEM, s)
       else do {
         let s = s\<lparr>bbt_buf := replicate bufsz 0xff\<rparr>;
         let s = s\<lparr>bbt_set := False\<rparr>;
         s \<leftarrow> find_bmt_loop E s (u16 (int (total_blks s) - 1)) bufsz;
         if \<not> bbt_set s then create_bmt E s else Some (0, s)
       }
     }"

definition mtk_bmt_v2_ops :: "'d kernel \<Rightarrow> ('d, 'z) bmtd_scheme bmt_ops" where
  "mtk_bmt_v2_ops E = \<lparr>op_sig = bmt_sig, op_remap_block = remap_block_v2 E,
     op_unmap_block = unmap_block_v2 E, op_get_mapping_block = get_mapping_block_index_v2\<rparr>"

end
