(* ===== verification/Bmt_Front.thy ===== *)
theory Bmt_Front
  imports Nmbm_Attach Bmt_Bbt Bmt_V2
begin

text \<open>
  The front end (\<open>mtk_bmt.c\<close>): the MTD operations that replace the driver's, which translate
  block addresses with the manager's mapping and remap blocks that fail, the debugfs hooks,
  and attaching and detaching.

  The driver's \<open>_read_oob\<close> and \<open>_write_oob\<close> are called with the mode of the caller's request;
  the kernel record \<open>K\<close> of the read and write operations is the driver in that mode.
\<close>

definition mtk_bmt_remap_block ::
  "('d, 'z) bmtd_scheme bmt_ops \<Rightarrow> ('d, 'z) bmtd_scheme \<Rightarrow> nat \<Rightarrow> nat \<Rightarrow> int \<Rightarrow>
     (bool \<times> ('d, 'z) bmtd_scheme) option" where
  "mtk_bmt_remap_block ops s block mapped_block copy_len =
     (case mapping_block_in_range s (s32 (int block)) of
        None \<Rightarrow> Some (False, s)
      | Some _ \<Rightarrow> op_remap_block ops s (u16 (int block)) (u16 (int mapped_block)) copy_len)"

section \<open>Reading and writing\<close>

text \<open>
  The locals of a request: the address, the caller's buffers with the positions the pointers
  have reached, the OOB length still asked for and its offset, what has been transferred so
  far, and for a read the two result variables.
\<close>

record request =
  q_addr :: nat
  q_len :: nat
  q_ooblen :: nat
  q_dat :: "byte list"
  q_pos :: nat
  q_oob :: "byte list"
  q_oobpos :: nat
  q_cur_ooblen :: nat
  q_ooboffs :: nat
  q_retlen :: nat
  q_oobretlen :: nat
  q_retry :: nat
  q_ret :: int
  q_bitflips :: int

datatype progress = Return int | Again

definition sub64 :: "nat \<Rightarrow> nat \<Rightarrow> nat" where
  "sub64 a b = nat ((int a - int b) mod 2 ^ 64)"

definition blk_offset :: "('d, 'z) bmtd_scheme \<Rightarrow> nat \<Rightarrow> nat" where
  "blk_offset s addr = addr AND sub32 (blk_size s) 1"

definition blk_index :: "('d, 'z) bmtd_scheme \<Rightarrow> nat \<Rightarrow> nat" where
  "blk_index s addr = u32_of (int (addr div 2 ^ blk_shift s))"

text \<open>What a transfer of \<open>n\<close> data and \<open>m\<close> OOB bytes does to the request.\<close>

definition advance :: "('d, 'z) bmtd_scheme \<Rightarrow> request \<Rightarrow> nat \<Rightarrow> nat \<Rightarrow> nat \<Rightarrow> nat \<Rightarrow> request" where
  "advance s q cur_len offset n m =
     q\<lparr>q_retlen := q_retlen q + n, q_oobretlen := q_oobretlen q + m, q_ooboffs := 0,
       q_pos := q_pos q + n, q_oobpos := q_oobpos q + m,
       q_cur_ooblen := sub64 (q_cur_ooblen q) m,
       q_addr := q_addr q + (if cur_len = 0 then sub32 (mtd_erasesize s) offset else cur_len),
       q_retry := 0\<rparr>"

definition read_result :: "request \<Rightarrow> int" where
  "read_result q = (if q_ret q < 0 then q_ret q else q_bitflips q)"

text \<open>
  The body of the read loop: the part up to the return of the driver, and what is done with the
  driver's answer \<open>r\<close>.
\<close>

definition mtk_bmt_read_done ::
  "('d, 'z) bmtd_scheme bmt_ops \<Rightarrow> ('d, 'z) bmtd_scheme \<Rightarrow> request \<Rightarrow> nat \<Rightarrow> nat \<Rightarrow> nat \<Rightarrow> nat \<Rightarrow>
     mtd_rd \<Rightarrow> (progress \<times> request \<times> ('d, 'z) bmtd_scheme) option" where
  "mtk_bmt_read_done ops s q block cur_block offset cur_len r =
     (let cur_ret = rd_ret r;
          q = (if cur_ret < 0 then q\<lparr>q_ret := cur_ret\<rparr>
               else q\<lparr>q_bitflips := max (q_bitflips q) cur_ret\<rparr>)
      in if cur_ret < 0 \<and> cur_ret \<noteq> - EUCLEAN then do {
           (ok, s) \<leftarrow> mtk_bmt_remap_block ops s block cur_block (int (mtd_erasesize s));
           if ok \<and> q_retry q < 10 then Some (Again, q\<lparr>q_retry := q_retry q + 1\<rparr>, s)
           else Some (Return (read_result q), q, s)
         } else do {
           (_, s) \<leftarrow>
             (if mtd_bitflip_threshold s \<noteq> 0 \<and> u32_of cur_ret \<ge> mtd_bitflip_threshold s
              then mtk_bmt_remap_block ops s block cur_block (int (mtd_erasesize s))
              else Some (False, s));
           Some (Again, advance s q cur_len offset (rd_retlen r) (rd_oobretlen r), s)
         })"

definition mtk_bmt_read_step ::
  "'d kernel \<Rightarrow> ('d, 'z) bmtd_scheme bmt_ops \<Rightarrow> ('d, 'z) bmtd_scheme \<Rightarrow> request \<Rightarrow>
     (progress \<times> request \<times> ('d, 'z) bmtd_scheme) option" where
  "mtk_bmt_read_step K ops s q =
     do {
       let offset = blk_offset s (q_addr q);
       let block = blk_index s (q_addr q);
       cur_block \<leftarrow> op_get_mapping_block ops s (s32 (int block));
       if cur_block < 0 then Some (Return (- EIO), q, s)
       else do {
         let cur_from = nat cur_block * 2 ^ blk_shift s + offset;
         let cur_len = min (sub32 (mtd_erasesize s) offset)
                           (u32_of (int (q_len q) - int (q_retlen q)));
         let (r, d) = k_read K (dev s) cur_from cur_len (q_ooboffs q) (q_cur_ooblen q);
         dat \<leftarrow> memput (q_dat q) (q_pos q) (take cur_len (rd_dat r));
         oob \<leftarrow> memput (q_oob q) (q_oobpos q) (take (q_cur_ooblen q) (rd_oob r));
         mtk_bmt_read_done ops (s\<lparr>dev := d\<rparr>) (q\<lparr>q_dat := dat, q_oob := oob\<rparr>) block
           (nat cur_block) offset cur_len r
       }
     }"

partial_function (option) mtk_bmt_read_loop ::
  "'d kernel \<Rightarrow> ('d, 'z) bmtd_scheme bmt_ops \<Rightarrow> ('d, 'z) bmtd_scheme \<Rightarrow> request \<Rightarrow>
     (int \<times> request \<times> ('d, 'z) bmtd_scheme) option" where
  "mtk_bmt_read_loop K ops s q =
     (if q_retlen q < q_len q \<or> q_oobretlen q < q_ooblen q then do {
        (p, q, s) \<leftarrow> mtk_bmt_read_step K ops s q;
        case p of Return r \<Rightarrow> Some (r, q, s) | Again \<Rightarrow> mtk_bmt_read_loop K ops s q
      } else Some (read_result q, q, s))"

definition start_request :: "nat \<Rightarrow> byte list \<Rightarrow> nat \<Rightarrow> byte list \<Rightarrow> nat \<Rightarrow> nat \<Rightarrow> request" where
  "start_request addr dat len oob ooblen ooboffs =
     \<lparr>q_addr = addr, q_len = len, q_ooblen = ooblen, q_dat = dat, q_pos = 0, q_oob = oob,
      q_oobpos = 0, q_cur_ooblen = ooblen, q_ooboffs = ooboffs, q_retlen = 0, q_oobretlen = 0,
      q_retry = 0, q_ret = 0, q_bitflips = 0\<rparr>"

definition mtk_bmt_read ::
  "'d kernel \<Rightarrow> ('d, 'z) bmtd_scheme bmt_ops \<Rightarrow> ('d, 'z) bmtd_scheme \<Rightarrow> nat \<Rightarrow> byte list \<Rightarrow> nat \<Rightarrow>
     byte list \<Rightarrow> nat \<Rightarrow> nat \<Rightarrow> (int \<times> request \<times> ('d, 'z) bmtd_scheme) option" where
  "mtk_bmt_read K ops s from dat len oob ooblen ooboffs =
     mtk_bmt_read_loop K ops s (start_request from dat len oob ooblen ooboffs)"

definition mtk_bmt_write_done ::
  "('d, 'z) bmtd_scheme bmt_ops \<Rightarrow> ('d, 'z) bmtd_scheme \<Rightarrow> request \<Rightarrow> nat \<Rightarrow> nat \<Rightarrow> nat \<Rightarrow> nat \<Rightarrow>
     mtd_wr \<Rightarrow> (progress \<times> request \<times> ('d, 'z) bmtd_scheme) option" where
  "mtk_bmt_write_done ops s q block cur_block offset cur_len w =
     (if wr_ret w < 0 then do {
        (ok, s) \<leftarrow> mtk_bmt_remap_block ops s block cur_block (int offset);
        if ok \<and> q_retry q < 10 then Some (Again, q\<lparr>q_retry := q_retry q + 1\<rparr>, s)
        else Some (Return (wr_ret w), q, s)
      } else
        Some (Again, advance s q cur_len offset (wr_retlen w) (wr_oobretlen w), s))"

definition mtk_bmt_write_step ::
  "'d kernel \<Rightarrow> ('d, 'z) bmtd_scheme bmt_ops \<Rightarrow> ('d, 'z) bmtd_scheme \<Rightarrow> request \<Rightarrow>
     (progress \<times> request \<times> ('d, 'z) bmtd_scheme) option" where
  "mtk_bmt_write_step K ops s q =
     do {
       let offset = blk_offset s (q_addr q);
       let block = blk_index s (q_addr q);
       cur_block \<leftarrow> op_get_mapping_block ops s (s32 (int block));
       if cur_block < 0 then Some (Return (- EIO), q, s)
       else do {
         let cur_to = nat cur_block * 2 ^ blk_shift s + offset;
         let cur_len = min (sub32 (blk_size s) offset)
                           (u32_of (int (q_len q) - int (q_retlen q)));
         dat \<leftarrow> memget (q_dat q) (q_pos q) cur_len;
         oob \<leftarrow> memget (q_oob q) (q_oobpos q) (q_cur_ooblen q);
         let (w, d) = k_write K (dev s) cur_to dat (q_ooboffs q) oob;
         mtk_bmt_write_done ops (s\<lparr>dev := d\<rparr>) q block (nat cur_block) offset cur_len w
       }
     }"

partial_function (option) mtk_bmt_write_loop ::
  "'d kernel \<Rightarrow> ('d, 'z) bmtd_scheme bmt_ops \<Rightarrow> ('d, 'z) bmtd_scheme \<Rightarrow> request \<Rightarrow>
     (int \<times> request \<times> ('d, 'z) bmtd_scheme) option" where
  "mtk_bmt_write_loop K ops s q =
     (if q_retlen q < q_len q \<or> q_oobretlen q < q_ooblen q then do {
        (p, q, s) \<leftarrow> mtk_bmt_write_step K ops s q;
        case p of Return r \<Rightarrow> Some (r, q, s) | Again \<Rightarrow> mtk_bmt_write_loop K ops s q
      } else Some (0, q, s))"

definition mtk_bmt_write ::
  "'d kernel \<Rightarrow> ('d, 'z) bmtd_scheme bmt_ops \<Rightarrow> ('d, 'z) bmtd_scheme \<Rightarrow> nat \<Rightarrow> byte list \<Rightarrow> nat \<Rightarrow>
     byte list \<Rightarrow> nat \<Rightarrow> nat \<Rightarrow> (int \<times> request \<times> ('d, 'z) bmtd_scheme) option" where
  "mtk_bmt_write K ops s to dat len oob ooblen ooboffs =
     mtk_bmt_write_loop K ops s (start_request to dat len oob ooblen ooboffs)"

section \<open>Erasing\<close>

text \<open>
  The result is the return value and \<open>fail_addr\<close> when it was set. \<open>ret\<close> is \<open>None\<close> while the C
  variable is uninitialised; returning it then is undefined. \<open>~mtd->erasesize_mask\<close> is 32 bits
  wide, so the address is cut to 32 bits.
\<close>

partial_function (option) mtk_bmt_erase_loop ::
  "'d kernel \<Rightarrow> ('d, 'z) bmtd_scheme bmt_ops \<Rightarrow> ('d, 'z) bmtd_scheme \<Rightarrow> nat \<Rightarrow> nat \<Rightarrow> nat \<Rightarrow>
     int option \<Rightarrow> (int \<times> nat option \<times> ('d, 'z) bmtd_scheme) option" where
  "mtk_bmt_erase_loop K ops s start_addr end_addr retry_count ret =
     (if start_addr < end_addr then do {
        let orig_block = u16 (int (start_addr div 2 ^ blk_shift s));
        block \<leftarrow> op_get_mapping_block ops s (int orig_block);
        if block < 0 then Some (- EIO, None, s)
        else do {
          let (ret, d) = k_erase K (dev s) (nat block * 2 ^ blk_shift s) (blk_size s);
          let s = s\<lparr>dev := d\<rparr>;
          if ret \<noteq> 0 then do {
            (ok, s) \<leftarrow> mtk_bmt_remap_block ops s orig_block (nat block) 0;
            if ok \<and> retry_count < 10
            then mtk_bmt_erase_loop K ops s start_addr end_addr (retry_count + 1) (Some ret)
            else Some (ret, Some start_addr, s)
          }
          else mtk_bmt_erase_loop K ops s (start_addr + mtd_erasesize s) end_addr 0 (Some ret)
        }
      } else (case ret of None \<Rightarrow> None | Some r \<Rightarrow> Some (r, None, s)))"

definition mtk_bmt_mtd_erase ::
  "'d kernel \<Rightarrow> ('d, 'z) bmtd_scheme bmt_ops \<Rightarrow> ('d, 'z) bmtd_scheme \<Rightarrow> nat \<Rightarrow> nat \<Rightarrow>
     (int \<times> nat option \<times> ('d, 'z) bmtd_scheme) option" where
  "mtk_bmt_mtd_erase K ops s addr len =
     (let start_addr = addr AND (2 ^ 32 - 1 - mtd_erasesize_mask s); end_addr = addr + len
      in mtk_bmt_erase_loop K ops s start_addr end_addr 0 None)"

section \<open>Bad block marks\<close>

text \<open>The fuel is the number of retries left. A negative mapping result is cut to 16 bits.\<close>

fun mtk_bmt_isbad_tries ::
  "nat \<Rightarrow> 'd kernel \<Rightarrow> ('d, 'z) bmtd_scheme bmt_ops \<Rightarrow> ('d, 'z) bmtd_scheme \<Rightarrow> nat \<Rightarrow>
     (int \<times> ('d, 'z) bmtd_scheme) option" where
  "mtk_bmt_isbad_tries n K ops s orig_block =
     do {
       b \<leftarrow> op_get_mapping_block ops s (int orig_block);
       let block = u16 b;
       let (ret, d) = k_isbad K (dev s) (block * 2 ^ blk_shift s);
       let s = s\<lparr>dev := d\<rparr>;
       if ret \<noteq> 0 then do {
         (ok, s) \<leftarrow> mtk_bmt_remap_block ops s orig_block block (int (blk_size s));
         case n of
           0 \<Rightarrow> Some (ret, s)
         | Suc n \<Rightarrow> if ok then mtk_bmt_isbad_tries n K ops s orig_block else Some (ret, s)
       } else Some (ret, s)
     }"

declare mtk_bmt_isbad_tries.simps [simp del]

definition mtk_bmt_block_isbad ::
  "'d kernel \<Rightarrow> ('d, 'z) bmtd_scheme bmt_ops \<Rightarrow> ('d, 'z) bmtd_scheme \<Rightarrow> nat \<Rightarrow>
     (int \<times> ('d, 'z) bmtd_scheme) option" where
  "mtk_bmt_block_isbad K ops s ofs =
     mtk_bmt_isbad_tries 10 K ops s (u16 (int (ofs div 2 ^ blk_shift s)))"

definition mtk_bmt_block_markbad ::
  "'d kernel \<Rightarrow> ('d, 'z) bmtd_scheme bmt_ops \<Rightarrow> ('d, 'z) bmtd_scheme \<Rightarrow> nat \<Rightarrow>
     (int \<times> ('d, 'z) bmtd_scheme) option" where
  "mtk_bmt_block_markbad K ops s ofs =
     do {
       let orig_block = u16 (int (ofs div 2 ^ blk_shift s));
       block \<leftarrow> op_get_mapping_block ops s (int orig_block);
       if block < 0 then Some (- EIO, s)
       else do {
         (_, s) \<leftarrow> mtk_bmt_remap_block ops s orig_block (nat block) (int (blk_size s));
         let (r, d) = k_markbad K (dev s) (nat block * 2 ^ blk_shift s);
         Some (r, s\<lparr>dev := d\<rparr>)
       }
     }"

section \<open>debugfs\<close>

definition mtk_bmt_debug_repair ::
  "'d kernel \<Rightarrow> ('d, 'z) bmtd_scheme bmt_ops \<Rightarrow> ('d, 'z) bmtd_scheme \<Rightarrow> nat \<Rightarrow>
     (int \<times> ('d, 'z) bmtd_scheme) option" where
  "mtk_bmt_debug_repair K ops s val =
     do {
       let block = s32 (int (val div 2 ^ blk_shift s));
       prev_block \<leftarrow> op_get_mapping_block ops s block;
       if prev_block < 0 then Some (- EIO, s)
       else do {
         s \<leftarrow> op_unmap_block ops s (u16 block);
         new_block \<leftarrow> op_get_mapping_block ops s block;
         if new_block < 0 then Some (- EIO, s)
         else if prev_block = new_block then Some (0, s)
         else do {
           let (_, s) = bbt_nand_erase K s (u16 new_block);
           let (_, s) = bbt_nand_copy K s (u16 new_block) (u16 prev_block) (int (blk_size s));
           Some (0, s)
         }
       }
     }"

definition mtk_bmt_debug_mark_good ::
  "('d, 'z) bmtd_scheme bmt_ops \<Rightarrow> ('d, 'z) bmtd_scheme \<Rightarrow> nat \<Rightarrow>
     (int \<times> ('d, 'z) bmtd_scheme) option" where
  "mtk_bmt_debug_mark_good ops s val =
     do { s \<leftarrow> op_unmap_block ops s (u16 (int (val div 2 ^ blk_shift s))); Some (0, s) }"

definition mtk_bmt_debug_mark_bad ::
  "('d, 'z) bmtd_scheme bmt_ops \<Rightarrow> ('d, 'z) bmtd_scheme \<Rightarrow> nat \<Rightarrow>
     (int \<times> ('d, 'z) bmtd_scheme) option" where
  "mtk_bmt_debug_mark_bad ops s val =
     do {
       let block = u32_of (int (val div 2 ^ blk_shift s));
       cur_block \<leftarrow> op_get_mapping_block ops s (s32 (int block));
       if cur_block < 0 then Some (- EIO, s)
       else do {
         (_, s) \<leftarrow> mtk_bmt_remap_block ops s block (nat cur_block) (int (blk_size s));
         Some (0, s)
       }
     }"

section \<open>Attaching and detaching\<close>

text \<open>
  \<open>struct mtd_info\<close> as far as it is used here. Its five operations are the driver's or, once
  replaced, the front end's.
\<close>

datatype mtd_hooks = Driver_ops | Bmt_ops

record 'd mtd_info =
  m_dev :: 'd
  m_size :: nat
  m_erasesize :: nat
  m_erasesize_mask :: nat
  m_writesize :: nat
  m_oobsize :: nat
  m_bitflip_threshold :: nat
  m_ecc_strength :: nat
  m_ops :: mtd_hooks

text \<open>The global \<open>bmtd\<close> with the manager in charge; detached, \<open>bmtd.mtd\<close> is null.\<close>

datatype 'd attached =
    Detached
  | BMT_v2 "'d bmtd"
  | NMBM "'d nmbm"
  | BBT "'d bmtd"

definition mtk_bmt_replace_ops :: "'d mtd_info \<Rightarrow> 'd mtd_info" where
  "mtk_bmt_replace_ops m = m\<lparr>m_ops := Bmt_ops\<rparr>"

text \<open>The device as an attached manager leaves it, and what detaching restores.\<close>

definition mtd_of :: "('d, 'z) bmtd_scheme \<Rightarrow> 'd mtd_info \<Rightarrow> 'd mtd_info" where
  "mtd_of s m = m\<lparr>m_dev := dev s, m_size := mtd_size s, m_oobsize := mtd_oobsize s\<rparr>"

definition mtk_bmt_detach ::
  "('d, 'z) bmtd_scheme \<Rightarrow> 'd mtd_info \<Rightarrow> 'd mtd_info \<times> 'd attached" where
  "mtk_bmt_detach s m =
     ((mtd_of s m)\<lparr>m_ops := Driver_ops,
        m_size := nat (s32 (int (total_blks s) * 2 ^ blk_shift s) mod 2 ^ 64)\<rparr>, Detached)"

text \<open>
  The descriptor \<open>mtk_bmt_attach\<close> fills in before it calls the manager's \<open>init\<close>. The page
  buffer is filled with \<open>0xff\<close>.
\<close>

definition attach_desc :: "'d mtd_info \<Rightarrow> node \<Rightarrow> 'd bmtd" where
  "attach_desc m np =
     (let oobsize = (case of_overridden_oobsize np of
                       None \<Rightarrow> m_oobsize m
                     | Some n \<Rightarrow> if n < m_oobsize m then n else m_oobsize m);
          shift = u16 (int (ffs (m_erasesize m)) - 1)
      in \<lparr>dev = m_dev m, mtd_size = m_size m, mtd_erasesize = m_erasesize m,
          mtd_erasesize_mask = m_erasesize_mask m, mtd_writesize = m_writesize m,
          mtd_oobsize = oobsize, mtd_bitflip_threshold = m_bitflip_threshold m,
          mtd_ecc_strength = m_ecc_strength m, bbt_buf = [], bbt_set = False, data_buf = [],
          table_size = 0, pg_size = m_writesize m, blk_size = m_erasesize m,
          pg_shift = u16 (int (ffs (m_writesize m)) - 1), blk_shift = shift,
          pool_lba = 0, pool_pba = 0, bb_max = 0,
          total_blks = u16 (int (m_size m div 2 ^ shift)), bmt_blk_idx = 0, bmt_pgs = 0,
          remap_range = of_remap_range np, oob_offset = 0\<rparr>)"

definition attach_init :: "'d kernel \<Rightarrow> 'd bmtd \<Rightarrow> node \<Rightarrow> 'd mtd_info \<Rightarrow>
     (int \<times> 'd mtd_info \<times> 'd attached) option" where
  "attach_init E s np m =
     (if of_bmt_v2 np then do {
        (ret, s) \<leftarrow> mtk_bmt_init_v2 E s (of_bmt_pool_size np) (of_bmt_oob_offset np)
                     (of_bmt_table_size np) (alloc_table np);
        Some (if ret \<noteq> 0 then (ret, mtk_bmt_detach s m) else (0, mtd_of s m, BMT_v2 s))
      }
      else if of_nmbm np then do {
        (ret, r) \<leftarrow> mtk_bmt_init_nmbm E s np;
        Some (case r of
                Inl s \<Rightarrow> (ret, mtk_bmt_detach s m)
              | Inr s \<Rightarrow> (0, mtd_of s m, NMBM s))
      }
      else do {
        let (ret, s) = mtk_bmt_init_bbt E s (alloc_table np);
        Some (if ret \<noteq> 0 then (ret, mtk_bmt_detach s m) else (0, mtd_of s m, BBT s))
      })"

definition mtk_bmt_attach ::
  "'d kernel \<Rightarrow> 'd attached \<Rightarrow> 'd mtd_info \<Rightarrow> node option \<Rightarrow>
     (int \<times> 'd mtd_info \<times> 'd attached) option" where
  "mtk_bmt_attach E st m node =
     (if st \<noteq> Detached then Some (- ENOSPC, m, st)
      else case node of
        None \<Rightarrow> Some (0, m, Detached)
      | Some np \<Rightarrow>
          if \<not> of_bmt_v2 np \<and> \<not> of_nmbm np \<and> \<not> of_bbt np then Some (0, m, Detached)
          else
            let m = mtk_bmt_replace_ops m; s = attach_desc m np
            in if \<not> alloc_data_buf np then Some (- 1, mtk_bmt_detach s m)
               else
                 let s = s\<lparr>data_buf := replicate (pg_size s + mtd_oobsize s) 0xff\<rparr>
                 in attach_init E s np m)"

end
