(* ===== verification/Bmt_Contract.thy ===== *)
theory Bmt_Contract
  imports Bmt_Front
begin

text \<open>
  The contract between the front end and a bad-block manager, and what the front end does
  over any manager that keeps it: the operations run for every behaviour of the driver, and
  they keep the manager's invariant.
\<close>

definition keeps :: "(('d, 'z) bmtd_scheme \<Rightarrow> bool) \<Rightarrow> ('d, 'z) bmtd_scheme \<Rightarrow>
    'r \<times> ('d, 'z) bmtd_scheme \<Rightarrow> bool" where
  "keeps sound s rt \<longleftrightarrow> sound (snd rt) \<and> same_shape s (snd rt)"

lemma keeps_simps [simp]: "keeps sound s (r, t) \<longleftrightarrow> sound t \<and> same_shape s t"
  by (simp add: keeps_def)

lemma keeps_dev [simp]: "keeps sound (s\<lparr>dev := d\<rparr>) = keeps sound s"
  by (simp add: keeps_def fun_eq_iff)

lemma keeps_trans: "same_shape s t \<Longrightarrow> keeps sound t rt \<Longrightarrow> keeps sound s rt"
  by (auto simp: keeps_def intro: same_shape_trans)

text \<open>The return value of an erase, with the address that failed if there is one.\<close>

definition erase_outcome :: "nat \<Rightarrow> nat \<Rightarrow> int \<Rightarrow> nat option \<Rightarrow> bool" where
  "erase_outcome start_addr end_addr r fail \<longleftrightarrow>
     (case fail of None \<Rightarrow> r = 0 \<or> r = - EIO | Some a \<Rightarrow> r \<noteq> 0 \<and> start_addr \<le> a \<and> a < end_addr)"

lemma erase_outcome_mono:
  "erase_outcome a e r f \<Longrightarrow> a' \<le> a \<Longrightarrow> erase_outcome a' e r f"
  by (auto simp: erase_outcome_def split: option.splits)

definition erased :: "(('d, 'z) bmtd_scheme \<Rightarrow> bool) \<Rightarrow> ('d, 'z) bmtd_scheme \<Rightarrow> nat \<Rightarrow> nat \<Rightarrow>
    int \<times> nat option \<times> ('d, 'z) bmtd_scheme \<Rightarrow> bool" where
  "erased sound s start_addr end_addr x \<longleftrightarrow> (case x of (r, fail, t) \<Rightarrow>
     sound t \<and> same_shape s t \<and> erase_outcome start_addr end_addr r fail)"

lemma erased_simp [simp]: "erased sound s a e (r, fail, t) \<longleftrightarrow>
    sound t \<and> same_shape s t \<and> erase_outcome a e r fail"
  by (simp add: erased_def)

section \<open>The contract\<close>

text \<open>
  \<open>sound\<close> is the manager's invariant and \<open>blocks\<close> bounds the block numbers it can be asked
  about. A lookup is defined, and is negative or a 16-bit block number; it does not look at the
  device. Remapping a block from the block a lookup gave runs and keeps the invariant.
\<close>

locale manager =
  fixes ops :: "('d, 'z) bmtd_scheme bmt_ops"
    and sound :: "('d, 'z) bmtd_scheme \<Rightarrow> bool"
    and blocks :: "('d, 'z) bmtd_scheme \<Rightarrow> nat"
  assumes sound_dev: "sound s \<Longrightarrow> sound (s\<lparr>dev := d\<rparr>)"
    and lookup_dev: "op_get_mapping_block ops (s\<lparr>dev := d\<rparr>) i = op_get_mapping_block ops s i"
    and lookup: "sound s \<Longrightarrow> b < blocks s \<Longrightarrow>
      runs (op_get_mapping_block ops s (int b)) (\<lambda>p. p < 65536)"
    and remap: "sound s \<Longrightarrow> b < blocks s \<Longrightarrow> op_get_mapping_block ops s (int b) = Some p \<Longrightarrow>
      runs (op_remap_block ops s b (u16 p) len) (keeps sound s)"
    and blocks_shape: "same_shape s t \<Longrightarrow> blocks t = blocks s"
    and blocks_bound: "blocks s \<le> 65536"
begin

lemma remap_ok:
  assumes "sound s" "b < blocks s" "op_get_mapping_block ops s (int b) = Some p" "u16 (int q) = u16 p"
  shows "runs (mtk_bmt_remap_block ops s b q len) (keeps sound s)"
proof -
  have "u16 (int b) = b" using assms(2) blocks_bound [of s] by simp
  then show ?thesis
    using remap [OF assms(1-3)] assms(1,4) by (simp add: mtk_bmt_remap_block_def split: option.splits)
qed

lemma remap_dev_ok:
  assumes "sound s" "b < blocks s" "op_get_mapping_block ops s (int b) = Some p" "u16 (int q) = u16 p"
  shows "runs (mtk_bmt_remap_block ops (s\<lparr>dev := d\<rparr>) b q len) (keeps sound s)"
proof -
  have "blocks (s\<lparr>dev := d\<rparr>) = blocks s" by (rule blocks_shape) simp
  then show ?thesis
    using remap_ok [OF sound_dev [OF assms(1)], of b d p q len] assms by (simp add: lookup_dev)
qed

lemma found:
  assumes "sound s" "b < blocks s"
  obtains p where "op_get_mapping_block ops s (int b) = Some p" "p < 65536"
  using lookup [OF assms] by (auto simp: runs_def)

lemma isbad_tries_ok:
  "sound s \<Longrightarrow> b < blocks s \<Longrightarrow> runs (mtk_bmt_isbad_tries n K ops s b) (keeps sound s)"
proof (induction n arbitrary: s)
  case (0 s)
  then obtain p where p: "op_get_mapping_block ops s (int b) = Some p" by (auto elim: found)
  obtain r d where k: "k_isbad K (dev s) (u16 p * 2 ^ blk_shift s) = (r, d)" by fastforce
  have "runs (mtk_bmt_remap_block ops (s\<lparr>dev := d\<rparr>) b (u16 p) (int (blk_size s))) (keeps sound s)"
    by (rule remap_dev_ok [OF 0 p]) (simp add: u16_bound)
  then show ?case
    using 0 by (subst mtk_bmt_isbad_tries.simps)
      (auto simp: p k sound_dev Let_def vcg elim!: runs_mono)
next
  case (Suc n s)
  then obtain p where p: "op_get_mapping_block ops s (int b) = Some p" by (auto elim: found)
  obtain r d where k: "k_isbad K (dev s) (u16 p * 2 ^ blk_shift s) = (r, d)" by fastforce
  have "runs (mtk_bmt_remap_block ops (s\<lparr>dev := d\<rparr>) b (u16 p) (int (blk_size s))) (keeps sound s)"
    by (rule remap_dev_ok [OF Suc.prems p]) (simp add: u16_bound)
  moreover have "runs (mtk_bmt_isbad_tries n K ops t b) (keeps sound s)"
    if "sound t" "same_shape s t" for t
    by (rule runs_mono [OF Suc.IH [OF that(1)]])
       (use Suc.prems(2) that in \<open>auto simp: blocks_shape intro: keeps_trans\<close>)
  ultimately show ?case
    using Suc.prems by (subst mtk_bmt_isbad_tries.simps)
      (auto simp: p k sound_dev Let_def vcg elim!: runs_mono)
qed

lemma isbad_ok:
  assumes "sound s" "ofs div 2 ^ blk_shift s < blocks s"
  shows "runs (mtk_bmt_block_isbad K ops s ofs) (keeps sound s)"
proof -
  have "u16 (int (ofs div 2 ^ blk_shift s)) = ofs div 2 ^ blk_shift s"
    using assms(2) blocks_bound [of s] by simp
  then show ?thesis using isbad_tries_ok [OF assms] by (simp add: mtk_bmt_block_isbad_def)
qed

lemma markbad_ok:
  assumes "sound s" "ofs div 2 ^ blk_shift s < blocks s"
  shows "runs (mtk_bmt_block_markbad K ops s ofs) (keeps sound s)"
proof -
  let ?b = "ofs div 2 ^ blk_shift s"
  have b: "u16 (int ?b) = ?b" using assms(2) blocks_bound [of s] by simp
  obtain p where p: "op_get_mapping_block ops s (int ?b) = Some p" "p < 65536"
    by (rule found [OF assms])
  show ?thesis
  proof (cases "p < 0")
    case True
    then show ?thesis using assms(1) p(1) b by (simp add: mtk_bmt_block_markbad_def del: of_nat_div)
  next
    case False
    then have "runs (mtk_bmt_remap_block ops s ?b (nat p) (int (blk_size s))) (keeps sound s)"
      by (intro remap_ok [OF assms p(1)]) simp
    then show ?thesis
      using False p(1) b
      by (auto simp: mtk_bmt_block_markbad_def vcg case_prod_beta sound_dev keeps_def Let_def
          simp del: of_nat_div elim!: runs_mono)
  qed
qed

lemma mark_bad_ok:
  assumes "sound s" "val div 2 ^ blk_shift s < blocks s"
  shows "runs (mtk_bmt_debug_mark_bad ops s val) (keeps sound s)"
proof -
  let ?b = "val div 2 ^ blk_shift s"
  have b: "u32_of (int ?b) = ?b" "s32 (int ?b) = int ?b"
    using assms(2) blocks_bound [of s] by (simp_all del: of_nat_div)
  obtain p where p: "op_get_mapping_block ops s (int ?b) = Some p" "p < 65536"
    by (rule found [OF assms])
  show ?thesis
  proof (cases "p < 0")
    case True
    then show ?thesis using assms(1) p(1) b by (simp add: mtk_bmt_debug_mark_bad_def del: of_nat_div)
  next
    case False
    then have "runs (mtk_bmt_remap_block ops s ?b (nat p) (int (blk_size s))) (keeps sound s)"
      by (intro remap_ok [OF assms p(1)]) simp
    then show ?thesis
      using False p(1) b
      by (auto simp: mtk_bmt_debug_mark_bad_def vcg case_prod_beta keeps_def Let_def
          simp del: of_nat_div elim!: runs_mono)
  qed
qed

text \<open>
  Erasing ends: a block is tried at most eleven times. On success every block of the range has
  been passed; otherwise the failing block is in the range, unless there is no block mapped.
\<close>

lemma erase_loop_ok:
  "sound s \<Longrightarrow> 0 < mtd_erasesize s \<Longrightarrow> end_addr \<le> blocks s * 2 ^ blk_shift s \<Longrightarrow>
     start_addr < end_addr \<or> ret = Some 0 \<Longrightarrow> retry_count \<le> 10 \<Longrightarrow>
   runs (mtk_bmt_erase_loop K ops s start_addr end_addr retry_count ret)
     (erased sound s start_addr end_addr)"
proof (induction "(end_addr - start_addr) * 12 + (11 - retry_count)"
    arbitrary: s start_addr retry_count ret rule: less_induct)
  case less
  show ?case
  proof (cases "start_addr < end_addr")
    case False
    then show ?thesis
      using less.prems by (subst mtk_bmt_erase_loop.simps) (simp add: erase_outcome_def)
  next
    case True
    let ?b = "start_addr div 2 ^ blk_shift s"
    have b: "?b < blocks s"
      using True less.prems(3) by (simp add: less_mult_imp_div_less)
    then have u: "u16 (int ?b) = ?b" using blocks_bound [of s] by (simp del: of_nat_div)
    obtain p where p: "op_get_mapping_block ops s (int ?b) = Some p" "p < 65536"
      by (rule found [OF less.prems(1) b])
    obtain r d where k: "k_erase K (dev s) (nat p * 2 ^ blk_shift s) (blk_size s) = (r, d)" by fastforce
    have go: "runs (mtk_bmt_erase_loop K ops t start' end_addr rc (Some r))
        (erased sound s start_addr end_addr)"
      if "sound t" "same_shape s t" "start_addr \<le> start'" "start' < end_addr \<or> r = 0" "rc \<le> 10"
        "(end_addr - start') * 12 + (11 - rc) < (end_addr - start_addr) * 12 + (11 - retry_count)"
      for t start' rc
      by (rule runs_mono [OF less.hyps [OF that(6,1)]])
         (use that less.prems blocks_shape [OF that(2)] in
           \<open>auto simp: same_shape_def intro: erase_outcome_mono\<close>)
    show ?thesis
    proof (cases "p < 0")
      case t: True
      then show ?thesis
        using True p less.prems(1) u
        by (subst mtk_bmt_erase_loop.simps) (simp add: erase_outcome_def del: of_nat_div)
    next
      case False
      have "runs (mtk_bmt_remap_block ops (s\<lparr>dev := d\<rparr>) ?b (nat p) 0) (keeps sound s)"
        using False by (intro remap_dev_ok [OF less.prems(1) b p(1)]) simp
      then have bad: "runs (Option.bind (mtk_bmt_remap_block ops (s\<lparr>dev := d\<rparr>) ?b (nat p) 0)
          (\<lambda>(ok, s). if ok \<and> retry_count < 10
            then mtk_bmt_erase_loop K ops s start_addr end_addr (retry_count + 1) (Some r)
            else Some (r, Some start_addr, s))) (erased sound s start_addr end_addr)"
        if "r \<noteq> 0"
        by (rule runs_bindI) (use True that in \<open>auto simp: erase_outcome_def intro!: go\<close>)
      have good: "runs (mtk_bmt_erase_loop K ops (s\<lparr>dev := d\<rparr>) (start_addr + mtd_erasesize s)
          end_addr 0 (Some r)) (erased sound s start_addr end_addr)"
        if "r = 0"
        using that less.prems(1,2,5) True by (intro go) (auto simp: sound_dev)
      show ?thesis
        using True False p u good bad
        by (subst mtk_bmt_erase_loop.simps) (simp add: k Let_def del: of_nat_div)
    qed
  qed
qed

lemma erase_ok:
  assumes "sound s" "0 < mtd_erasesize s" "addr + len \<le> blocks s * 2 ^ blk_shift s" "0 < len"
  shows "runs (mtk_bmt_mtd_erase K ops s addr len) 
    (erased sound s (addr AND (2 ^ 32 - 1 - mtd_erasesize_mask s)) (addr + len))"
proof -
  have "addr AND (2 ^ 32 - 1 - mtd_erasesize_mask s) \<le> addr"
    by (metis nat_and_le and.commute)
  then show ?thesis
    unfolding mtk_bmt_mtd_erase_def Let_def
    using assms by (intro erase_loop_ok) auto
qed

end

end
