(* ===== verification/Bmt_Requests.thy ===== *)
theory Bmt_Requests
  imports Bmt_Contract
begin

text \<open>
  Reading and writing through the front end, for requests without OOB: over a manager that keeps
  the contract and a driver that reports what it transferred, every request ends, whatever
  fails on the way; over a driver that does not fail, a read gives the bytes of the
  blocks the addresses are mapped to.
\<close>

section \<open>An error seen by a read is returned\<close>

lemma read_done_sticky:
  assumes "mtk_bmt_read_done ops s q block cur offset n r = Some (p, q', t)" "q_ret q < 0"
  shows "case p of Return r \<Rightarrow> r < 0 | Again \<Rightarrow> q_ret q' < 0"
  using assms
  by (auto simp: mtk_bmt_read_done_def Let_def read_result_def advance_def
      split: bind_splits if_splits)

lemma read_step_sticky:
  assumes "mtk_bmt_read_step K ops s q = Some (p, q', t)" "q_ret q < 0"
  shows "case p of Return r \<Rightarrow> r < 0 | Again \<Rightarrow> q_ret q' < 0"
  using assms
  by (auto simp: mtk_bmt_read_step_def Let_def split: bind_splits if_splits prod.splits
      dest!: read_done_sticky)

lemma read_loop_sticky:
  "mtk_bmt_read_loop K ops s q = Some rqt \<Longrightarrow> q_ret q < 0 \<Longrightarrow> fst rqt < 0"
proof (induction rule: mtk_bmt_read_loop.raw_induct [rotated 1, consumes 1, case_names step])
  case (step loop K ops s q rqt)
  show ?case
  proof (cases "q_retlen q < q_len q \<or> q_oobretlen q < q_ooblen q")
    case True
    obtain p q' t where p: "mtk_bmt_read_step K ops s q = Some (p, q', t)"
      and r: "(case p of Return r \<Rightarrow> Some (r, q', t) | Again \<Rightarrow> loop K ops t q') = Some rqt"
      using step(2) unfolding if_P [OF True] bind_eq_Some_conv by auto
    have "case p of Return r \<Rightarrow> r < 0 | Again \<Rightarrow> q_ret q' < 0"
      by (rule read_step_sticky [OF p step(3)])
    then show ?thesis using r step(1) by (cases p) auto
  next
    case False
    then show ?thesis using step(2,3) by (auto simp: read_result_def)
  qed
qed

section \<open>Requests without OOB\<close>

text \<open>
  A device whose erase size is the block size, the shift fitting its type; and how far the request
  has come: the buffer position follows \<open>retlen\<close>, nothing of the OOB buffer is asked for, and
  what is left lies below the last block the manager answers for.
\<close>

definition whole_blocks :: "('d, 'z) bmtd_scheme \<Rightarrow> bool" where
  "whole_blocks s \<longleftrightarrow> mtd_erasesize s = 2 ^ blk_shift s \<and> blk_size s = 2 ^ blk_shift s \<and> blk_shift s < 32"

definition moving :: "nat \<Rightarrow> ('d, 'z) bmtd_scheme \<Rightarrow> request \<Rightarrow> bool" where
  "moving n s q \<longleftrightarrow> q_ooblen q = 0 \<and> q_oobretlen q = 0 \<and> q_cur_ooblen q = 0
     \<and> q_oobpos q \<le> length (q_oob q) \<and> q_pos q = q_retlen q \<and> q_retlen q \<le> q_len q
     \<and> q_len q \<le> length (q_dat q) \<and> q_len q < 4294967296 \<and> q_retry q \<le> 10
     \<and> q_addr q + (q_len q - q_retlen q) \<le> n * 2 ^ blk_shift s"

definition left :: "request \<Rightarrow> nat" where
  "left q = (q_len q - q_retlen q) * 12 + (11 - q_retry q)"

lemma whole_blocks_shape: "same_shape s t \<Longrightarrow> whole_blocks t = whole_blocks s"
  by (simp add: whole_blocks_def same_shape_def)

lemma moving_shape: "same_shape s t \<Longrightarrow> moving n t q = moving n s q"
  by (simp add: moving_def same_shape_def)

lemma blk_offset_eq: "whole_blocks s \<Longrightarrow> blk_offset s a = a mod 2 ^ blk_shift s"
proof -
  assume w: "whole_blocks s"
  then have "(2 :: nat) ^ blk_shift s < 2 ^ 32"
    by (intro power_strict_increasing) (simp_all add: whole_blocks_def)
  then have "sub32 (blk_size s) 1 = 2 ^ blk_shift s - 1" using w by (simp add: whole_blocks_def)
  then show ?thesis unfolding blk_offset_def by (simp only: nat_and_mask)
qed

lemma blk_index_eq: "a div 2 ^ blk_shift s < 65536 \<Longrightarrow> blk_index s a = a div 2 ^ blk_shift s"
  by (simp add: blk_index_def del: of_nat_div)

lemma moving_block:
  assumes "moving n s q" "q_retlen q < q_len q"
  shows "q_addr q div 2 ^ blk_shift s < n"
proof (rule less_mult_imp_div_less)
  have "q_addr q < q_addr q + (q_len q - q_retlen q)" using assms(2) by simp
  also have "\<dots> \<le> n * 2 ^ blk_shift s" using assms(1) unfolding moving_def by blast
  finally show "q_addr q < n * 2 ^ blk_shift s" .
qed

text \<open>The length of the next transfer: the rest of the block or of the request.\<close>

lemma chunk_len:
  assumes "whole_blocks s" "moving n s q" "q_retlen q < q_len q"
  defines "m \<equiv> min (sub32 (2 ^ blk_shift s) (blk_offset s (q_addr q)))
                     (u32_of (int (q_len q) - int (q_retlen q)))"
  shows "m = min (2 ^ blk_shift s - q_addr q mod 2 ^ blk_shift s) (q_len q - q_retlen q)"
    "0 < m" "m \<le> q_len q - q_retlen q"
proof -
  let ?z = "2 ^ blk_shift s :: nat"
  have z: "?z < 2 ^ 32" using assms(1) by (intro power_strict_increasing) (simp_all add: whole_blocks_def)
  have o: "q_addr q mod ?z < ?z" by simp
  then have "sub32 ?z (blk_offset s (q_addr q)) = ?z - q_addr q mod ?z"
    using z less_imp_le [OF o] unfolding blk_offset_eq [OF assms(1)] by (intro sub32_eq) simp_all
  moreover have "u32_of (int (q_len q) - int (q_retlen q)) = q_len q - q_retlen q"
    unfolding sub32_def [symmetric] using assms(2,3) by (intro sub32_eq) (simp_all add: moving_def)
  ultimately show "m = min (?z - q_addr q mod ?z) (q_len q - q_retlen q)" by (simp add: m_def)
  then show "0 < m" "m \<le> q_len q - q_retlen q" using o assms(3) by simp_all
qed

lemma moving_advance:
  assumes "moving n s q" "0 < m" "m \<le> q_len q - q_retlen q"
  shows "moving n s (advance s q m offset m 0)" "left (advance s q m offset m 0) < left q"
  using assms by (auto simp: moving_def advance_def left_def sub64_def)

lemma moving_retry:
  assumes "moving n s q" "q_retry q < 10"
  shows "moving n s (q\<lparr>q_retry := q_retry q + 1\<rparr>)" "left (q\<lparr>q_retry := q_retry q + 1\<rparr>) < left q"
  using assms by (auto simp: moving_def left_def)

section \<open>Every request ends\<close>

text \<open>
  What the driver reports of a transfer without OOB: unless it fails, all of it was made.
\<close>

definition reports_reads :: "'d kernel \<Rightarrow> bool" where
  "reports_reads K \<longleftrightarrow> (\<forall>d a n offs. let r = fst (k_read K d a n offs 0) in
     (rd_ret r < 0 \<and> rd_ret r \<noteq> - EUCLEAN) \<or> rd_retlen r = n \<and> rd_oobretlen r = 0)"

definition reports_writes :: "'d kernel \<Rightarrow> bool" where
  "reports_writes K \<longleftrightarrow> (\<forall>d a dat offs. let w = fst (k_write K d a dat offs []) in
     wr_ret w < 0 \<or> wr_retlen w = length dat \<and> wr_oobretlen w = 0)"

text \<open>A step ends the request with an error or brings it nearer to its end.\<close>

definition stepped :: "(('d, 'z) bmtd_scheme \<Rightarrow> bool) \<Rightarrow> nat \<Rightarrow> ('d, 'z) bmtd_scheme \<Rightarrow> request \<Rightarrow>
    progress \<times> request \<times> ('d, 'z) bmtd_scheme \<Rightarrow> bool" where
  "stepped sound n s q x \<longleftrightarrow> (case x of (p, q', t) \<Rightarrow> sound t \<and> same_shape s t \<and> q_len q' = q_len q
     \<and> length (q_dat q') = length (q_dat q)
     \<and> (case p of Return r \<Rightarrow> r < 0 | Again \<Rightarrow> moving n s q' \<and> left q' < left q))"

lemma stepped_simps [simp]:
  "stepped sound n s q (Return r, q', t) \<longleftrightarrow> sound t \<and> same_shape s t \<and> q_len q' = q_len q
     \<and> length (q_dat q') = length (q_dat q) \<and> r < 0"
  "stepped sound n s q (Again, q', t) \<longleftrightarrow> sound t \<and> same_shape s t \<and> q_len q' = q_len q
     \<and> length (q_dat q') = length (q_dat q) \<and> moving n s q' \<and> left q' < left q"
  by (simp_all add: stepped_def)

lemma advance_keeps [simp]: "q_len (advance s q m off a b) = q_len q"
  "q_dat (advance s q m off a b) = q_dat q"
  by (simp_all add: advance_def)

lemma moving_sets [simp]:
  "moving n s (q\<lparr>q_ret := r\<rparr>) = moving n s q" "moving n s (q\<lparr>q_bitflips := f\<rparr>) = moving n s q"
  "left (q\<lparr>q_ret := r\<rparr>) = left q" "left (q\<lparr>q_bitflips := f\<rparr>) = left q"
  "moving n (s\<lparr>dev := d\<rparr>) q = moving n s q"
  by (simp_all add: moving_def left_def)

lemma moving_bufs:
  "length dat = length (q_dat q) \<Longrightarrow> length oob = length (q_oob q) \<Longrightarrow>
     moving n s (q\<lparr>q_dat := dat, q_oob := oob\<rparr>) = moving n s q"
  "left (q\<lparr>q_dat := dat, q_oob := oob\<rparr>) = left q"
  "q_len (q\<lparr>q_dat := dat, q_oob := oob\<rparr>) = q_len q"
  "q_retlen (q\<lparr>q_dat := dat, q_oob := oob\<rparr>) = q_retlen q"
  by (simp_all add: moving_def left_def)

lemma stepped_dev: "stepped sound n (s\<lparr>dev := d\<rparr>) q = stepped sound n s q"
  by (simp add: stepped_def fun_eq_iff split: progress.split)

lemma stepped_bufs:
  "stepped sound n (s\<lparr>dev := d\<rparr>) (q\<lparr>q_dat := dat, q_oob := oob\<rparr>) x \<Longrightarrow>
     length dat = length (q_dat q) \<Longrightarrow> stepped sound n s q x"
  unfolding stepped_def by (simp add: moving_bufs split: prod.splits progress.splits)

context manager
begin

lemma blocks_dev: "blocks (s\<lparr>dev := d\<rparr>) = blocks s"
  by (rule blocks_shape) simp

lemma read_done_ok:
  assumes "sound s" "b < blocks s" "op_get_mapping_block ops s (int b) = Some p" "0 \<le> p"
    "moving n s q" "0 < m" "m \<le> q_len q - q_retlen q"
    "(rd_ret r < 0 \<and> rd_ret r \<noteq> - EUCLEAN) \<or> rd_retlen r = m \<and> rd_oobretlen r = 0"
  shows "runs (mtk_bmt_read_done ops s q b (nat p) off m r) (stepped sound n s q)"
proof -
  have rm: "runs (mtk_bmt_remap_block ops s b (nat p) len) (keeps sound s)" for len
    using assms(4) by (intro remap_ok [OF assms(1-3)]) simp
  define q1 where "q1 = (if rd_ret r < 0 then q\<lparr>q_ret := rd_ret r\<rparr>
     else q\<lparr>q_bitflips := max (q_bitflips q) (rd_ret r)\<rparr>)"
  have q1: "moving n s q1" "left q1 = left q" "q_len q1 = q_len q" "q_dat q1 = q_dat q"
    "q_retlen q1 = q_retlen q" "rd_ret r < 0 \<Longrightarrow> q_ret q1 < 0"
    using assms(5) by (simp_all add: q1_def)
  show ?thesis
  proof (cases "rd_ret r < 0 \<and> rd_ret r \<noteq> - EUCLEAN")
    case True
    then have "runs (Option.bind (mtk_bmt_remap_block ops s b (nat p) (int (mtd_erasesize s)))
        (\<lambda>(ok, s). if ok \<and> q_retry q1 < 10 then Some (Again, q1\<lparr>q_retry := q_retry q1 + 1\<rparr>, s)
           else Some (Return (read_result q1), q1, s))) (stepped sound n s q)"
      using moving_retry [OF q1(1)] q1
      by (intro runs_bindI [OF rm]) (auto simp: keeps_def read_result_def)
    then show ?thesis
      using True unfolding mtk_bmt_read_done_def Let_def q1_def [symmetric] by simp
  next
    case False
    then have r: "rd_retlen r = m" "rd_oobretlen r = 0" using assms(8) by auto
    have m: "m \<le> q_len q1 - q_retlen q1" using assms(7) q1 by simp
    have adv: "moving n s (advance t q1 m off m 0)" "left (advance t q1 m off m 0) < left q"
      if "same_shape s t" for t
      using moving_advance [of n t q1 m off] q1 assms(6) m that by (simp_all add: moving_shape)
    have "runs (if mtd_bitflip_threshold s \<noteq> 0 \<and> mtd_bitflip_threshold s \<le> u32_of (rd_ret r)
        then mtk_bmt_remap_block ops s b (nat p) (int (mtd_erasesize s)) else Some (False, s))
        (keeps sound s)"
      using rm assms(1) by simp
    then have "runs (Option.bind (if mtd_bitflip_threshold s \<noteq> 0 \<and>
          mtd_bitflip_threshold s \<le> u32_of (rd_ret r)
        then mtk_bmt_remap_block ops s b (nat p) (int (mtd_erasesize s)) else Some (False, s))
        (\<lambda>(_, s). Some (Again, advance s q1 m off m 0, s))) (stepped sound n s q)"
      by (rule runs_bindI) (use adv q1 in \<open>auto simp: keeps_def\<close>)
    then show ?thesis
      unfolding mtk_bmt_read_done_def Let_def q1_def [symmetric] if_not_P [OF False] r .
  qed
qed

lemma read_step_ok:
  assumes "sound s" "whole_blocks s" "moving (blocks s) s q" "q_retlen q < q_len q" "reports_reads K"
  shows "runs (mtk_bmt_read_step K ops s q) (stepped sound (blocks s) s q)"
proof -
  let ?b = "q_addr q div 2 ^ blk_shift s"
  have b: "?b < blocks s" by (rule moving_block [OF assms(3,4)])
  then have i: "blk_index s (q_addr q) = ?b" using blocks_bound [of s] by (intro blk_index_eq) simp
  have s32: "s32 (int ?b) = int ?b" using b blocks_bound [of s] by (simp del: of_nat_div)
  obtain p where p: "op_get_mapping_block ops s (int ?b) = Some p" "p < 65536"
    by (rule found [OF assms(1) b])
  define m where "m = min (sub32 (2 ^ blk_shift s) (blk_offset s (q_addr q)))
                     (u32_of (int (q_len q) - int (q_retlen q)))"
  note m = chunk_len [OF assms(2-4), folded m_def]
  have es: "mtd_erasesize s = 2 ^ blk_shift s" using assms(2) by (simp add: whole_blocks_def)
  have qz: "q_cur_ooblen q = 0" "q_pos q = q_retlen q" "q_oobpos q \<le> length (q_oob q)"
    "q_len q \<le> length (q_dat q)"
    using assms(3) by (simp_all add: moving_def)
  obtain r d where k: "k_read K (dev s) (nat p * 2 ^ blk_shift s + blk_offset s (q_addr q)) m
      (q_ooboffs q) 0 = (r, d)" by fastforce
  have rep: "(rd_ret r < 0 \<and> rd_ret r \<noteq> - EUCLEAN) \<or> rd_retlen r = m \<and> rd_oobretlen r = 0"
    using assms(5) k unfolding reports_reads_def by (metis fst_conv)
  have "q_pos q + length (take m (rd_dat r)) \<le> length (q_dat q)" using qz m(3) assms(4) by simp
  then obtain dat where dat: "memput (q_dat q) (q_pos q) (take m (rd_dat r)) = Some dat"
    by (simp add: memput_def)
  note dat = dat memput_length [OF dat]
  have oob: "memput (q_oob q) (q_oobpos q) [] = Some (q_oob q)" using qz by (simp add: memput_def)
  have st: "runs (mtk_bmt_read_done ops (s\<lparr>dev := d\<rparr>) (q\<lparr>q_dat := dat, q_oob := q_oob q\<rparr>) ?b
      (nat p) off m r) (stepped sound (blocks s) s q)" if "0 \<le> p" for off
  proof (rule runs_mono [OF read_done_ok [where n = "blocks s"]], goal_cases)
    case (9 x)
    then show ?case using dat(2) by (rule stepped_bufs)
  qed (use that assms(1,3) p b m(2,3) rep dat(2) sound_dev blocks_dev in
      \<open>simp_all only: lookup_dev moving_bufs moving_sets\<close>)
  show ?thesis
  proof (cases "p < 0")
    case True
    then show ?thesis
      using p(1) assms(1) by (simp add: mtk_bmt_read_step_def i s32 del: of_nat_div)
  next
    case False
    then show ?thesis
      using p(1) st by (simp add: mtk_bmt_read_step_def i s32 Let_def es m_def [symmetric] qz(1) k dat
          oob del: of_nat_div)
  qed
qed

end

text \<open>
  A read without OOB ends. A result that is not negative means that all that was asked for has
  been transferred.
\<close>

definition read_ended :: "(('d, 'z) bmtd_scheme \<Rightarrow> bool) \<Rightarrow> ('d, 'z) bmtd_scheme \<Rightarrow> request \<Rightarrow>
    int \<times> request \<times> ('d, 'z) bmtd_scheme \<Rightarrow> bool" where
  "read_ended sound s q x \<longleftrightarrow> (case x of (r, q', t) \<Rightarrow> sound t \<and> same_shape s t
     \<and> length (q_dat q') = length (q_dat q) \<and> (0 \<le> r \<longrightarrow> q_retlen q' = q_len q))"

context manager
begin

lemma read_loop_ok:
  "sound s \<Longrightarrow> whole_blocks s \<Longrightarrow> moving (blocks s) s q \<Longrightarrow> reports_reads K \<Longrightarrow>
     runs (mtk_bmt_read_loop K ops s q) (read_ended sound s q)"
proof (induction "left q" arbitrary: s q rule: less_induct)
  case less
  have oob: "q_oobretlen q = 0" "q_ooblen q = 0" "q_retlen q \<le> q_len q"
    using less.prems(3) by (simp_all add: moving_def)
  show ?case
  proof (cases "q_retlen q < q_len q")
    case False
    then show ?thesis
      using less.prems oob by (subst mtk_bmt_read_loop.simps) (simp add: read_ended_def)
  next
    case True
    show ?thesis
    proof (subst mtk_bmt_read_loop.simps, simp only: True simp_thms if_True,
        rule runs_bindI [OF read_step_ok [OF less.prems(1-3) True less.prems(4)]], goal_cases)
      case (1 x)
      obtain p q' t where x: "x = (p, q', t)" by (cases x)
      show ?case
      proof (cases p)
        case (Return r)
        then show ?thesis using 1 x by (simp add: read_ended_def)
      next
        case Again
        then have s: "sound t" "same_shape s t" "moving (blocks s) s q'" "left q' < left q"
          "q_len q' = q_len q" "length (q_dat q') = length (q_dat q)"
          using 1 x by simp_all
        have "runs (mtk_bmt_read_loop K ops t q') (read_ended sound t q')"
          using s less.prems by (intro less.hyps)
            (simp_all add: whole_blocks_shape blocks_shape moving_shape)
        then have "runs (mtk_bmt_read_loop K ops t q') (read_ended sound s q)"
          by (rule runs_mono) (use s in \<open>auto simp: read_ended_def intro: same_shape_trans\<close>)
        then show ?thesis using x Again by simp
      qed
    qed
  qed
qed

lemma read_ok:
  assumes "sound s" "whole_blocks s" "reports_reads K" "from + len \<le> blocks s * 2 ^ blk_shift s"
    "len \<le> length dat" "len < 4294967296"
  shows "runs (mtk_bmt_read K ops s from dat len oob 0 ooboffs) (\<lambda>(r, q, t). sound t \<and> same_shape s t
    \<and> length (q_dat q) = length dat \<and> (0 \<le> r \<longrightarrow> q_retlen q = len))"
proof -
  have "moving (blocks s) s (start_request from dat len oob 0 ooboffs)"
    using assms by (simp add: moving_def start_request_def)
  from read_loop_ok [OF assms(1,2) this assms(3)]
  show ?thesis
    unfolding mtk_bmt_read_def by (rule runs_mono) (auto simp: read_ended_def start_request_def)
qed

lemma write_done_ok:
  assumes "sound s" "b < blocks s" "op_get_mapping_block ops s (int b) = Some p" "0 \<le> p"
    "moving n s q" "0 < m" "m \<le> q_len q - q_retlen q"
    "wr_ret w < 0 \<or> wr_retlen w = m \<and> wr_oobretlen w = 0"
  shows "runs (mtk_bmt_write_done ops s q b (nat p) off m w) (stepped sound n s q)"
proof (cases "wr_ret w < 0")
  case True
  have rm: "runs (mtk_bmt_remap_block ops s b (nat p) len) (keeps sound s)" for len
    using assms(4) by (intro remap_ok [OF assms(1-3)]) simp
  have "runs (Option.bind (mtk_bmt_remap_block ops s b (nat p) (int off))
      (\<lambda>(ok, s). if ok \<and> q_retry q < 10 then Some (Again, q\<lparr>q_retry := q_retry q + 1\<rparr>, s)
         else Some (Return (wr_ret w), q, s))) (stepped sound n s q)"
    using moving_retry [OF assms(5)] True by (intro runs_bindI [OF rm]) (auto simp: keeps_def)
  then show ?thesis using True by (simp add: mtk_bmt_write_done_def)
next
  case False
  then show ?thesis
    using assms(1,8) moving_advance [OF assms(5-7)] by (simp add: mtk_bmt_write_done_def)
qed

lemma write_step_ok:
  assumes "sound s" "whole_blocks s" "moving (blocks s) s q" "q_retlen q < q_len q" "reports_writes K"
  shows "runs (mtk_bmt_write_step K ops s q) (stepped sound (blocks s) s q)"
proof -
  let ?b = "q_addr q div 2 ^ blk_shift s"
  have b: "?b < blocks s" by (rule moving_block [OF assms(3,4)])
  then have i: "blk_index s (q_addr q) = ?b" using blocks_bound [of s] by (intro blk_index_eq) simp
  have s32: "s32 (int ?b) = int ?b" using b blocks_bound [of s] by (simp del: of_nat_div)
  obtain p where p: "op_get_mapping_block ops s (int ?b) = Some p" "p < 65536"
    by (rule found [OF assms(1) b])
  define m where "m = min (sub32 (2 ^ blk_shift s) (blk_offset s (q_addr q)))
                     (u32_of (int (q_len q) - int (q_retlen q)))"
  note m = chunk_len [OF assms(2-4), folded m_def]
  have es: "blk_size s = 2 ^ blk_shift s" using assms(2) by (simp add: whole_blocks_def)
  have qz: "q_cur_ooblen q = 0" "q_pos q = q_retlen q" "q_oobpos q \<le> length (q_oob q)"
    "q_len q \<le> length (q_dat q)"
    using assms(3) by (simp_all add: moving_def)
  have "q_pos q + m \<le> length (q_dat q)" using qz m(3) assms(4) by simp
  then obtain dat where dat: "memget (q_dat q) (q_pos q) m = Some dat" and len: "length dat = m"
    by (simp add: memget_def)
  have oob: "memget (q_oob q) (q_oobpos q) 0 = Some []" using qz by (simp add: memget_def)
  obtain w d where k: "k_write K (dev s) (nat p * 2 ^ blk_shift s + blk_offset s (q_addr q)) dat
      (q_ooboffs q) [] = (w, d)" by fastforce
  have rep: "wr_ret w < 0 \<or> wr_retlen w = m \<and> wr_oobretlen w = 0"
    using assms(5) k len unfolding reports_writes_def by (metis fst_conv)
  have st: "runs (mtk_bmt_write_done ops (s\<lparr>dev := d\<rparr>) q ?b (nat p) off m w)
      (stepped sound (blocks s) s q)" if "0 \<le> p" for off
  proof (rule runs_mono [OF write_done_ok [where n = "blocks s"]], goal_cases)
    case (9 x)
    then show ?case by (simp only: stepped_dev)
  qed (use that assms(1,3) p b m(2,3) rep sound_dev blocks_dev in
      \<open>simp_all only: lookup_dev moving_sets\<close>)
  show ?thesis
  proof (cases "p < 0")
    case True
    then show ?thesis
      using p(1) assms(1) by (simp add: mtk_bmt_write_step_def i s32 del: of_nat_div)
  next
    case False
    then show ?thesis
      using p(1) st by (simp add: mtk_bmt_write_step_def i s32 Let_def es m_def [symmetric] qz(1) dat
          oob k del: of_nat_div)
  qed
qed

lemma write_loop_ok:
  "sound s \<Longrightarrow> whole_blocks s \<Longrightarrow> moving (blocks s) s q \<Longrightarrow> reports_writes K \<Longrightarrow>
     runs (mtk_bmt_write_loop K ops s q) (read_ended sound s q)"
proof (induction "left q" arbitrary: s q rule: less_induct)
  case less
  have oob: "q_oobretlen q = 0" "q_ooblen q = 0" "q_retlen q \<le> q_len q"
    using less.prems(3) by (simp_all add: moving_def)
  show ?case
  proof (cases "q_retlen q < q_len q")
    case False
    then show ?thesis
      using less.prems oob by (subst mtk_bmt_write_loop.simps) (simp add: read_ended_def)
  next
    case True
    show ?thesis
    proof (subst mtk_bmt_write_loop.simps, simp only: True simp_thms if_True,
        rule runs_bindI [OF write_step_ok [OF less.prems(1-3) True less.prems(4)]], goal_cases)
      case (1 x)
      obtain p q' t where x: "x = (p, q', t)" by (cases x)
      show ?case
      proof (cases p)
        case (Return r)
        then show ?thesis using 1 x by (simp add: read_ended_def)
      next
        case Again
        then have s: "sound t" "same_shape s t" "moving (blocks s) s q'" "left q' < left q"
          "q_len q' = q_len q" "length (q_dat q') = length (q_dat q)"
          using 1 x by simp_all
        have "runs (mtk_bmt_write_loop K ops t q') (read_ended sound t q')"
          using s less.prems by (intro less.hyps)
            (simp_all add: whole_blocks_shape blocks_shape moving_shape)
        then have "runs (mtk_bmt_write_loop K ops t q') (read_ended sound s q)"
          by (rule runs_mono) (use s in \<open>auto simp: read_ended_def intro: same_shape_trans\<close>)
        then show ?thesis using x Again by simp
      qed
    qed
  qed
qed

lemma write_ok:
  assumes "sound s" "whole_blocks s" "reports_writes K" "to + len \<le> blocks s * 2 ^ blk_shift s"
    "len \<le> length dat" "len < 4294967296"
  shows "runs (mtk_bmt_write K ops s to dat len oob 0 ooboffs) (\<lambda>(r, q, t). sound t \<and> same_shape s t
    \<and> (0 \<le> r \<longrightarrow> q_retlen q = len))"
proof -
  have "moving (blocks s) s (start_request to dat len oob 0 ooboffs)"
    using assms by (simp add: moving_def start_request_def)
  from write_loop_ok [OF assms(1,2) this assms(3)]
  show ?thesis
    unfolding mtk_bmt_write_def by (rule runs_mono) (auto simp: read_ended_def start_request_def)
qed

end

end
