(* ===== verification/Bmt_Disk.thy ===== *)
theory Bmt_Disk
  imports Bmt_Requests
begin

text \<open>
  What the front end is for: over a driver whose flash holds what was written to it, and a
  manager that gives every block a place of its own, requests read and write an ideal disk. The
  abstraction \<open>disk\<close> gives the byte at every address of the device as the caller sees it; reading
  returns its bytes and writing replaces them, at any address and length.
\<close>

section \<open>The ideal disk\<close>

definition patch :: "nat \<Rightarrow> byte list \<Rightarrow> (nat \<Rightarrow> byte) \<Rightarrow> nat \<Rightarrow> byte" where
  "patch a bs m x = (if a \<le> x \<and> x < a + length bs then bs ! (x - a) else m x)"

definition slice :: "(nat \<Rightarrow> byte) \<Rightarrow> nat \<Rightarrow> nat \<Rightarrow> byte list" where
  "slice m a n = map m [a..<a + n]"

lemma patch_nil [simp]: "patch a [] m = m"
  by (auto simp: patch_def fun_eq_iff)

lemma patch_append: "patch (a + length bs) cs (patch a bs m) = patch a (bs @ cs) m"
  by (auto simp: patch_def fun_eq_iff nth_append)

lemma length_slice [simp]: "length (slice m a n) = n"
  by (simp add: slice_def)

lemma slice_zero [simp]: "slice m a 0 = []"
  by (simp add: slice_def)

lemma slice_append: "slice m a n @ slice m (a + n) k = slice m a (n + k)"
proof -
  have "[a..<a + (n + k)] = [a..<a + n] @ [a + n..<a + n + k]"
    using upt_add_eq_append [of a "a + n" k] by (simp add: add.assoc)
  then show ?thesis by (simp add: slice_def)
qed

lemma slice_patch: "slice (patch a bs m) a (length bs) = bs"
  by (rule nth_equalityI) (simp_all add: slice_def patch_def)

lemma slice_cong: "(\<And>x. a \<le> x \<Longrightarrow> x < a + n \<Longrightarrow> m x = m' x) \<Longrightarrow> slice m a n = slice m' a n"
  by (simp add: slice_def)

section \<open>The driver and the manager\<close>

text \<open>
  A driver that never fails, over a device state whose contents are given by \<open>mem\<close>: a read gives the
  bytes that are there, a write puts its bytes there, neither does anything else.
\<close>

definition stores :: "'d kernel \<Rightarrow> ('d \<Rightarrow> nat \<Rightarrow> byte) \<Rightarrow> bool" where
  "stores K mem \<longleftrightarrow>
     (\<forall>d a n offs. case k_read K d a n offs 0 of (r, d') \<Rightarrow>
        rd_ret r = 0 \<and> rd_dat r = slice (mem d) a n \<and> rd_retlen r = n \<and> rd_oobretlen r = 0
        \<and> mem d' = mem d)
   \<and> (\<forall>d a dat offs. case k_write K d a dat offs [] of (w, d') \<Rightarrow>
        wr_ret w = 0 \<and> wr_retlen w = length dat \<and> wr_oobretlen w = 0
        \<and> mem d' = patch a dat (mem d))"

text \<open>
  The place of an address on the chip, for an address whose block has one, and the disk the
  front end presents.
\<close>

definition placed_block :: "('d, 'z) bmtd_scheme bmt_ops \<Rightarrow> ('d, 'z) bmtd_scheme \<Rightarrow> nat \<Rightarrow> bool" where
  "placed_block ops s b \<longleftrightarrow> (case op_get_mapping_block ops s (int b) of Some p \<Rightarrow> 0 \<le> p | None \<Rightarrow> False)"

definition place :: "('d, 'z) bmtd_scheme bmt_ops \<Rightarrow> ('d, 'z) bmtd_scheme \<Rightarrow> nat \<Rightarrow> nat" where
  "place ops s x =
     nat (the (op_get_mapping_block ops s (int (x div 2 ^ blk_shift s)))) * 2 ^ blk_shift s
       + x mod 2 ^ blk_shift s"

definition disk :: "('d, 'z) bmtd_scheme bmt_ops \<Rightarrow> ('d \<Rightarrow> nat \<Rightarrow> byte) \<Rightarrow> ('d, 'z) bmtd_scheme \<Rightarrow>
    nat \<Rightarrow> byte" where
  "disk ops mem s x = mem (dev s) (place ops s x)"

definition on_disk :: "('d, 'z) bmtd_scheme bmt_ops \<Rightarrow> ('d, 'z) bmtd_scheme \<Rightarrow> nat \<Rightarrow> nat \<Rightarrow> bool" where
  "on_disk ops s a n \<longleftrightarrow> (\<forall>x. a \<le> x \<longrightarrow> x < a + n \<longrightarrow> placed_block ops s (x div 2 ^ blk_shift s))"

lemma on_disk_tail: "on_disk ops s a (m + n) \<Longrightarrow> on_disk ops s (a + m) n"
  by (simp add: on_disk_def)

lemma placed_blockE:
  assumes "placed_block ops s b"
  obtains p where "op_get_mapping_block ops s (int b) = Some (int p)"
proof -
  obtain q where "op_get_mapping_block ops s (int b) = Some q" "0 \<le> q"
    using assms by (auto simp: placed_block_def split: option.splits)
  then show ?thesis using that [of "nat q"] by simp
qed

text \<open>Within a block places are consecutive.\<close>

lemma div_within:
  fixes x :: nat
  assumes "x mod z + i < z"
  shows "(x + i) div z = x div z" "(x + i) mod z = x mod z + i"
proof -
  have z: "z \<noteq> 0" using assms by auto
  have e: "x + i = (x mod z + i) + z * (x div z)" by simp
  show "(x + i) div z = x div z"
    by (subst e, subst div_mult_self2 [OF z]) (simp add: assms)
  show "(x + i) mod z = x mod z + i"
    by (subst e, subst mod_mult_self2) (simp add: assms)
qed

lemma place_within:
  assumes "op_get_mapping_block ops s (int (x div 2 ^ blk_shift s)) = Some (int p)"
    "x mod 2 ^ blk_shift s + i < 2 ^ blk_shift s"
  shows "place ops s (x + i) = p * 2 ^ blk_shift s + (x mod 2 ^ blk_shift s + i)"
  using assms(1) unfolding place_def div_within [OF assms(2)] by simp

lemma slice_within:
  assumes "op_get_mapping_block ops s (int (x div 2 ^ blk_shift s)) = Some (int p)"
    "x mod 2 ^ blk_shift s + n \<le> 2 ^ blk_shift s"
  shows "slice (mem (dev s)) (p * 2 ^ blk_shift s + x mod 2 ^ blk_shift s) n = slice (disk ops mem s) x n"
  by (rule nth_equalityI)
     (use place_within [OF assms(1)] assms(2) in \<open>auto simp: slice_def disk_def add.assoc\<close>)

section \<open>Reading\<close>

definition unchanged_but :: "('d \<Rightarrow> nat \<Rightarrow> byte) \<Rightarrow> ('d, 'z) bmtd_scheme \<Rightarrow> ('d, 'z) bmtd_scheme \<Rightarrow> bool" where
  "unchanged_but mem s t \<longleftrightarrow> t = s\<lparr>dev := dev t\<rparr> \<and> mem (dev t) = mem (dev s)"

definition read_disk :: "('d \<Rightarrow> nat \<Rightarrow> byte) \<Rightarrow> ('d, 'z) bmtd_scheme bmt_ops \<Rightarrow> ('d, 'z) bmtd_scheme \<Rightarrow>
    request \<Rightarrow> int \<times> request \<times> ('d, 'z) bmtd_scheme \<Rightarrow> bool" where
  "read_disk mem ops s q x \<longleftrightarrow> (case x of (r, q', t) \<Rightarrow>
     r = 0 \<and> q_retlen q' = q_len q \<and> unchanged_but mem s t
     \<and> q_dat q' = take (q_retlen q) (q_dat q)
         @ slice (disk ops mem s) (q_addr q) (q_len q - q_retlen q) @ drop (q_len q) (q_dat q))"

lemma chunk_within:
  assumes "whole_blocks s" "moving n s q" "q_retlen q < q_len q"
    "m = min (sub32 (2 ^ blk_shift s) (blk_offset s (q_addr q))) (u32_of (int (q_len q) - int (q_retlen q)))"
  shows "q_addr q mod 2 ^ blk_shift s + m \<le> 2 ^ blk_shift s" "0 < m" "m \<le> q_len q - q_retlen q"
proof -
  note c = chunk_len [OF assms(1-3), folded assms(4)]
  show "0 < m" "m \<le> q_len q - q_retlen q" by (fact c)+
  have "m \<le> 2 ^ blk_shift s - q_addr q mod 2 ^ blk_shift s" unfolding c(1) by (rule min.cobounded1)
  moreover have "q_addr q mod 2 ^ blk_shift s < 2 ^ blk_shift s" by simp
  ultimately show "q_addr q mod 2 ^ blk_shift s + m \<le> 2 ^ blk_shift s" by linarith
qed

text \<open>Where a step of a request starts: the block, the rest of it, and the buffers.\<close>

lemma step_start:
  assumes "moving n s q" "n \<le> 65536" "q_retlen q < q_len q" "on_disk ops s (q_addr q) (q_len q - q_retlen q)"
  obtains p where "blk_index s (q_addr q) = q_addr q div 2 ^ blk_shift s"
    "op_get_mapping_block ops s (s32 (int (q_addr q div 2 ^ blk_shift s))) = Some (int p)"
    "op_get_mapping_block ops s (int (q_addr q div 2 ^ blk_shift s)) = Some (int p)"
    "q_addr q div 2 ^ blk_shift s < n"
proof -
  let ?b = "q_addr q div 2 ^ blk_shift s"
  have b: "?b < n" by (rule moving_block [OF assms(1,3)])
  then have "blk_index s (q_addr q) = ?b" using assms(2) by (intro blk_index_eq) simp
  moreover have "s32 (int ?b) = int ?b" using b assms(2) by (simp del: of_nat_div)
  moreover have "placed_block ops s ?b" using assms(3,4) by (auto simp: on_disk_def)
  ultimately show ?thesis using that b by (metis placed_blockE)
qed

lemma moving_fields:
  assumes "moving n s q"
  shows "q_cur_ooblen q = 0" "q_pos q = q_retlen q" "q_oobpos q \<le> length (q_oob q)"
    "q_len q \<le> length (q_dat q)" "q_ooblen q = 0" "q_oobretlen q = 0" "q_retlen q \<le> q_len q"
  using assms by (simp_all add: moving_def)

lemma moving_dat: "length dat = length (q_dat q) \<Longrightarrow> moving n s (q\<lparr>q_dat := dat\<rparr>) = moving n s q"
  by (simp add: moving_def)

lemma read_chunk:
  "r \<le> length dat \<Longrightarrow> length bs = m \<Longrightarrow> r + m \<le> l \<Longrightarrow> l \<le> length dat \<Longrightarrow>
    take (r + m) (take r dat @ bs @ drop (r + m) dat) @ cs @ drop l (take r dat @ bs @ drop (r + m) dat)
      = take r dat @ (bs @ cs) @ drop l dat"
  by simp

context manager
begin

lemma place_dev: "place ops (s\<lparr>dev := d\<rparr>) = place ops s"
  by (simp add: place_def lookup_dev fun_eq_iff)

lemma disk_dev: "mem d = mem (dev s) \<Longrightarrow> disk ops mem (s\<lparr>dev := d\<rparr>) = disk ops mem s"
  by (simp add: disk_def place_dev fun_eq_iff)

lemma on_disk_dev: "on_disk ops (s\<lparr>dev := d\<rparr>) = on_disk ops s"
  by (simp add: on_disk_def placed_block_def lookup_dev fun_eq_iff)

lemma read_done_disk:
  assumes "rd_ret r = 0" "rd_retlen r = m" "rd_oobretlen r = 0" "q_bitflips q = 0"
  shows "mtk_bmt_read_done ops s q b p off m r = Some (Again, advance s q m off m 0, s)"
proof -
  have q: "q\<lparr>q_bitflips := 0\<rparr> = q" using assms(4) by (cases q) simp
  have "\<not> (mtd_bitflip_threshold s \<noteq> 0 \<and> mtd_bitflip_threshold s \<le> u32_of 0)" by auto
  then show ?thesis
    by (simp only: mtk_bmt_read_done_def Let_def assms max.idem q less_irrefl simp_thms if_False
        bind.bind_lunit case_prod_conv)
qed

lemma read_step_disk:
  assumes "stores K mem" "whole_blocks s" "moving (blocks s) s q" "q_retlen q < q_len q"
    "q_bitflips q = 0" "on_disk ops s (q_addr q) (q_len q - q_retlen q)"
  obtains d m off where "0 < m" "m \<le> q_len q - q_retlen q" "mem d = mem (dev s)"
    "mtk_bmt_read_step K ops s q = Some (Again, advance s (q\<lparr>q_dat := take (q_retlen q) (q_dat q)
       @ slice (disk ops mem s) (q_addr q) m @ drop (q_retlen q + m) (q_dat q)\<rparr>) m off m 0, s\<lparr>dev := d\<rparr>)"
proof -
  let ?z = "2 ^ blk_shift s :: nat" and ?o = "blk_offset s (q_addr q)"
  obtain p where p: "blk_index s (q_addr q) = q_addr q div ?z"
    "op_get_mapping_block ops s (s32 (int (q_addr q div ?z))) = Some (int p)"
    "op_get_mapping_block ops s (int (q_addr q div ?z)) = Some (int p)"
    by (rule step_start [OF assms(3) blocks_bound assms(4,6)])
  define m where "m = min (sub32 ?z ?o) (u32_of (int (q_len q) - int (q_retlen q)))"
  note m = chunk_within [OF assms(2-4) m_def]
  note q = moving_fields [OF assms(3)]
  have es: "mtd_erasesize s = ?z" using assms(2) by (simp add: whole_blocks_def)
  obtain r d where k: "k_read K (dev s) (p * ?z + ?o) m (q_ooboffs q) 0 = (r, d)" by fastforce
  have "rd_ret r = 0 \<and> rd_dat r = slice (mem (dev s)) (p * ?z + ?o) m \<and> rd_retlen r = m
      \<and> rd_oobretlen r = 0 \<and> mem d = mem (dev s)"
    using assms(1) k unfolding stores_def by (metis (mono_tags, lifting) case_prod_conv)
  then have r: "rd_ret r = 0" "rd_dat r = slice (disk ops mem s) (q_addr q) m" "rd_retlen r = m"
    "rd_oobretlen r = 0" "mem d = mem (dev s)"
    using slice_within [OF p(3) m(1)] by (simp_all add: blk_offset_eq [OF assms(2)])
  define dat where "dat = take (q_retlen q) (q_dat q) @ slice (disk ops mem s) (q_addr q) m
     @ drop (q_retlen q + m) (q_dat q)"
  have dat: "memput (q_dat q) (q_retlen q) (take m (rd_dat r)) = Some dat"
    using q m(3) by (simp add: memput_def r dat_def)
  have oob: "memput (q_oob q) (q_oobpos q) [] = Some (q_oob q)" using q by (simp add: memput_def)
  have same: "q\<lparr>q_dat := dat, q_oob := q_oob q\<rparr> = q\<lparr>q_dat := dat\<rparr>" by (cases q) simp
  have "mtk_bmt_read_done ops (s\<lparr>dev := d\<rparr>) (q\<lparr>q_dat := dat, q_oob := q_oob q\<rparr>) b p ?o m r =
      Some (Again, advance s (q\<lparr>q_dat := dat\<rparr>) m ?o m 0, s\<lparr>dev := d\<rparr>)" for b
    by (simp add: read_done_disk r(1,3,4) assms(5) same advance_def)
  then have "mtk_bmt_read_step K ops s q = Some (Again, advance s (q\<lparr>q_dat := dat\<rparr>) m ?o m 0, s\<lparr>dev := d\<rparr>)"
    using p by (simp add: mtk_bmt_read_step_def Let_def es m_def [symmetric] q(1,2) k dat oob
        del: of_nat_div)
  then show ?thesis using that m r(5) unfolding dat_def by blast
qed

lemma read_loop_disk:
  "stores K mem \<Longrightarrow> whole_blocks s \<Longrightarrow> moving (blocks s) s q \<Longrightarrow> q_ret q = 0 \<Longrightarrow> q_bitflips q = 0 \<Longrightarrow>
   on_disk ops s (q_addr q) (q_len q - q_retlen q) \<Longrightarrow>
   runs (mtk_bmt_read_loop K ops s q) (read_disk mem ops s q)"
proof (induction "q_len q - q_retlen q" arbitrary: s q rule: less_induct)
  case less
  note q = moving_fields [OF less.prems(3)]
  show ?case
  proof (cases "q_retlen q < q_len q")
    case False
    then show ?thesis
      using q less.prems(4,5) by (subst mtk_bmt_read_loop.simps)
        (simp add: read_disk_def read_result_def unchanged_but_def)
  next
    case True
    obtain d m off where step: "0 < m" "m \<le> q_len q - q_retlen q" "mem d = mem (dev s)"
      "mtk_bmt_read_step K ops s q = Some (Again, advance s (q\<lparr>q_dat := take (q_retlen q) (q_dat q)
       @ slice (disk ops mem s) (q_addr q) m @ drop (q_retlen q + m) (q_dat q)\<rparr>) m off m 0, s\<lparr>dev := d\<rparr>)"
      by (rule read_step_disk [OF less.prems(1-3) True less.prems(5,6)])
    define q1 where "q1 = q\<lparr>q_dat := take (q_retlen q) (q_dat q)
       @ slice (disk ops mem s) (q_addr q) m @ drop (q_retlen q + m) (q_dat q)\<rparr>"
    define q2 where "q2 = advance s q1 m off m 0"
    have "length (q_dat q1) = length (q_dat q)" using q step(2) by (simp add: q1_def)
    then have mv: "moving (blocks s) s q1" using less.prems(3) by (simp add: q1_def moving_dat)
    have f: "q_retlen q2 = q_retlen q + m" "q_len q2 = q_len q" "q_addr q2 = q_addr q + m"
      "q_ret q2 = 0" "q_bitflips q2 = 0" "q_dat q2 = q_dat q1"
      using less.prems(4,5) step(1) by (simp_all add: q2_def q1_def advance_def)
    have mv2: "moving (blocks s) s q2"
      unfolding q2_def using mv step(1,2) by (intro moving_advance(1)) (simp_all add: q1_def)
    have sum: "m + (q_len q - (q_retlen q + m)) = q_len q - q_retlen q" using step(2) by simp
    have rest: "on_disk ops s (q_addr q + m) (q_len q - (q_retlen q + m))"
      by (rule on_disk_tail) (simp only: sum less.prems(6))
    have "runs (mtk_bmt_read_loop K ops (s\<lparr>dev := d\<rparr>) q2) (read_disk mem ops (s\<lparr>dev := d\<rparr>) q2)"
      using less.prems(1,2) step(1,2) mv2 rest
      by (intro less.hyps) (simp_all add: f blocks_dev on_disk_dev whole_blocks_def)
    then have "runs (mtk_bmt_read_loop K ops (s\<lparr>dev := d\<rparr>) q2) (read_disk mem ops s q)"
    proof (rule runs_mono, clarify)
      fix r q' t assume "read_disk mem ops (s\<lparr>dev := d\<rparr>) q2 (r, q', t)"
      moreover have "slice M (q_addr q) m @ slice M (q_addr q + m) (q_len q - (q_retlen q + m)) =
          slice M (q_addr q) (q_len q - q_retlen q)" for M
        by (simp only: slice_append sum)
      ultimately show "read_disk mem ops s q (r, q', t)"
        using step(2,3) q
        by (simp add: read_disk_def f q1_def disk_dev unchanged_but_def read_chunk)
    qed
    then show ?thesis
      using True step(4) by (subst mtk_bmt_read_loop.simps) (simp add: q1_def q2_def)
  qed
qed

lemma read_refines:
  assumes "stores K mem" "whole_blocks s" "from + len \<le> blocks s * 2 ^ blk_shift s"
    "len \<le> length dat" "len < 4294967296" "on_disk ops s from len"
  shows "runs (mtk_bmt_read K ops s from dat len oob 0 ooboffs) (\<lambda>(r, q, t).
    r = 0 \<and> q_retlen q = len \<and> unchanged_but mem s t
    \<and> q_dat q = slice (disk ops mem s) from len @ drop len dat)"
proof -
  let ?q = "start_request from dat len oob 0 ooboffs"
  have "moving (blocks s) s ?q" using assms by (simp add: moving_def start_request_def)
  from read_loop_disk [OF assms(1,2) this] show ?thesis
    unfolding mtk_bmt_read_def using assms(6)
    by (auto simp: read_disk_def start_request_def elim!: runs_mono)
qed

end

section \<open>Writing\<close>

text \<open>
  For writing, a manager must give every block a place of its own: two blocks never share one.
\<close>

locale placement = manager +
  assumes lookup_inj: "sound s \<Longrightarrow> b < blocks s \<Longrightarrow> c < blocks s \<Longrightarrow>
      op_get_mapping_block ops s (int b) = Some p \<Longrightarrow> op_get_mapping_block ops s (int c) = Some p \<Longrightarrow>
      0 \<le> p \<Longrightarrow> b = c"

definition covers :: "nat \<Rightarrow> ('d, 'z) bmtd_scheme bmt_ops \<Rightarrow> ('d, 'z) bmtd_scheme \<Rightarrow> nat \<Rightarrow> bool" where
  "covers n ops s x \<longleftrightarrow> x div 2 ^ blk_shift s < n \<and> placed_block ops s (x div 2 ^ blk_shift s)"

text \<open>A write that ends well has replaced its bytes on the disk and nothing else.\<close>

definition wrote_disk :: "nat \<Rightarrow> ('d \<Rightarrow> nat \<Rightarrow> byte) \<Rightarrow> ('d, 'z) bmtd_scheme bmt_ops \<Rightarrow>
    ('d, 'z) bmtd_scheme \<Rightarrow> nat \<Rightarrow> byte list \<Rightarrow> ('d, 'z) bmtd_scheme \<Rightarrow> bool" where
  "wrote_disk n mem ops s a bs t \<longleftrightarrow> t = s\<lparr>dev := dev t\<rparr>
     \<and> (\<forall>x. covers n ops s x \<longrightarrow> disk ops mem t x = patch a bs (disk ops mem s) x)"

lemma write_done_disk:
  "wr_ret w = 0 \<Longrightarrow> wr_retlen w = m \<Longrightarrow> wr_oobretlen w = 0 \<Longrightarrow>
     mtk_bmt_write_done ops s q b p off m w = Some (Again, advance s q m off m 0, s)"
  by (simp add: mtk_bmt_write_done_def)

context placement
begin

lemma place_in_chunk:
  assumes "sound s" "op_get_mapping_block ops s (int (a div 2 ^ blk_shift s)) = Some (int p)"
    "a div 2 ^ blk_shift s < blocks s" "covers (blocks s) ops s x"
    "a mod 2 ^ blk_shift s + m \<le> 2 ^ blk_shift s"
  defines "pa \<equiv> p * 2 ^ blk_shift s + a mod 2 ^ blk_shift s"
  shows "pa \<le> place ops s x \<and> place ops s x < pa + m \<longleftrightarrow> a \<le> x \<and> x < a + m"
    "pa \<le> place ops s x \<Longrightarrow> place ops s x < pa + m \<Longrightarrow> place ops s x - pa = x - a"
proof -
  let ?z = "2 ^ blk_shift s :: nat"
  obtain r where r: "op_get_mapping_block ops s (int (x div ?z)) = Some (int r)" "x div ?z < blocks s"
    using assms(4) by (auto simp: covers_def elim: placed_blockE)
  have pl: "place ops s x = r * ?z + x mod ?z" by (simp add: place_def r(1))
  have z: "x mod ?z < ?z" "a mod ?z < ?z" by simp_all
  have e: "a = a div ?z * ?z + a mod ?z" "x = x div ?z * ?z + x mod ?z"
    by (rule div_mult_mod_eq [symmetric])+
  have hit: "x div ?z = a div ?z \<and> r = p" if "pa \<le> place ops s x" "place ops s x < pa + m"
  proof -
    have "p * ?z \<le> r * ?z + x mod ?z" "r * ?z + x mod ?z < p * ?z + ?z"
      using that assms(5) unfolding pa_def pl by linarith+
    then have "(r * ?z + x mod ?z) div ?z = p" by (intro div_nat_eqI) (simp_all add: mult.commute)
    then have "r = p" using z by simp
    then show ?thesis using lookup_inj [OF assms(1) r(2) assms(3) r(1)] assms(2) by simp
  qed
  have hits: "x div ?z = a div ?z \<and> r = p" if "a \<le> x" "x < a + m"
  proof -
    have "a div ?z * ?z \<le> x" "x < a div ?z * ?z + ?z" using that assms(5) e by linarith+
    then have "x div ?z = a div ?z" by (intro div_nat_eqI) (simp_all add: mult.commute)
    then show ?thesis using r(1) assms(2) by simp
  qed
  have same: "pa \<le> place ops s x \<longleftrightarrow> a \<le> x" "place ops s x < pa + m \<longleftrightarrow> x < a + m"
    "place ops s x - pa = x - a" if k: "x div ?z = a div ?z \<and> r = p"
  proof -
    have x: "x = a div ?z * ?z + x mod ?z" using e(2) k by simp
    have p: "place ops s x = p * ?z + x mod ?z" using pl k by simp
    show "pa \<le> place ops s x \<longleftrightarrow> a \<le> x" "place ops s x < pa + m \<longleftrightarrow> x < a + m"
      "place ops s x - pa = x - a"
      using e(1) x unfolding pa_def p by linarith+
  qed
  show "pa \<le> place ops s x \<and> place ops s x < pa + m \<longleftrightarrow> a \<le> x \<and> x < a + m"
    using hit hits same by blast
  show "pa \<le> place ops s x \<Longrightarrow> place ops s x < pa + m \<Longrightarrow> place ops s x - pa = x - a"
    using hit same by blast
qed

lemma disk_patched:
  assumes "sound s" "op_get_mapping_block ops s (int (a div 2 ^ blk_shift s)) = Some (int p)"
    "a div 2 ^ blk_shift s < blocks s" "covers (blocks s) ops s x"
    "a mod 2 ^ blk_shift s + length bs \<le> 2 ^ blk_shift s"
    "mem d = patch (p * 2 ^ blk_shift s + a mod 2 ^ blk_shift s) bs (mem (dev s))"
  shows "disk ops mem (s\<lparr>dev := d\<rparr>) x = patch a bs (disk ops mem s) x"
  using place_in_chunk [OF assms(1-5)] assms(6)
  by (auto simp: disk_def place_dev patch_def)

lemma covers_dev: "covers n ops (s\<lparr>dev := d\<rparr>) = covers n ops s"
  by (simp add: covers_def placed_block_def lookup_dev fun_eq_iff)

lemma wrote_disk_trans:
  assumes "wrote_disk n mem ops s a bs t" "wrote_disk n mem ops t (a + length bs) cs u"
  shows "wrote_disk n mem ops s a (bs @ cs) u"
proof -
  obtain d where t: "t = s\<lparr>dev := d\<rparr>" using assms(1) by (auto simp: wrote_disk_def)
  moreover have "u = s\<lparr>dev := dev u\<rparr>" using assms(2) unfolding t wrote_disk_def by simp
  ultimately show ?thesis
    using assms by (simp add: wrote_disk_def covers_dev patch_append [symmetric] patch_def)
qed

lemma write_step_disk:
  assumes "sound s" "stores K mem" "whole_blocks s" "moving (blocks s) s q" "q_retlen q < q_len q"
    "on_disk ops s (q_addr q) (q_len q - q_retlen q)"
  obtains d m off where "0 < m" "m \<le> q_len q - q_retlen q"
    "mtk_bmt_write_step K ops s q = Some (Again, advance s q m off m 0, s\<lparr>dev := d\<rparr>)"
    "wrote_disk (blocks s) mem ops s (q_addr q) (take m (drop (q_retlen q) (q_dat q))) (s\<lparr>dev := d\<rparr>)"
proof -
  let ?z = "2 ^ blk_shift s :: nat" and ?o = "blk_offset s (q_addr q)"
  obtain p where p: "blk_index s (q_addr q) = q_addr q div ?z"
    "op_get_mapping_block ops s (s32 (int (q_addr q div ?z))) = Some (int p)"
    "op_get_mapping_block ops s (int (q_addr q div ?z)) = Some (int p)"
    "q_addr q div ?z < blocks s"
    by (rule step_start [OF assms(4) blocks_bound assms(5,6)])
  define m where "m = min (sub32 ?z ?o) (u32_of (int (q_len q) - int (q_retlen q)))"
  note m = chunk_within [OF assms(3-5) m_def]
  note q = moving_fields [OF assms(4)]
  have es: "blk_size s = ?z" using assms(3) by (simp add: whole_blocks_def)
  define dat where "dat = take m (drop (q_retlen q) (q_dat q))"
  have dat: "memget (q_dat q) (q_retlen q) m = Some dat" "length dat = m"
    using q m(3) by (simp_all add: memget_def dat_def)
  have oob: "memget (q_oob q) (q_oobpos q) 0 = Some []" using q by (simp add: memget_def)
  obtain w d where k: "k_write K (dev s) (p * ?z + ?o) dat (q_ooboffs q) [] = (w, d)" by fastforce
  have w: "wr_ret w = 0 \<and> wr_retlen w = m \<and> wr_oobretlen w = 0 \<and> mem d = patch (p * ?z + ?o) dat (mem (dev s))"
    using assms(2) k dat(2) unfolding stores_def by (metis (mono_tags, lifting) case_prod_conv)
  then have "mtk_bmt_write_step K ops s q = Some (Again, advance s q m ?o m 0, s\<lparr>dev := d\<rparr>)"
    using p by (simp add: mtk_bmt_write_step_def Let_def es m_def [symmetric] q(1,2) k dat oob
        write_done_disk advance_def del: of_nat_div)
  moreover have "mem d = patch (p * ?z + q_addr q mod ?z) dat (mem (dev s))"
    using w by (simp add: blk_offset_eq [OF assms(3)])
  then have "wrote_disk (blocks s) mem ops s (q_addr q) dat (s\<lparr>dev := d\<rparr>)"
    using disk_patched [OF assms(1) p(3,4)] m(1) dat(2) by (simp add: wrote_disk_def)
  ultimately show ?thesis using that m unfolding dat_def by blast
qed

lemma write_loop_disk:
  "sound s \<Longrightarrow> stores K mem \<Longrightarrow> whole_blocks s \<Longrightarrow> moving (blocks s) s q \<Longrightarrow>
   on_disk ops s (q_addr q) (q_len q - q_retlen q) \<Longrightarrow>
   runs (mtk_bmt_write_loop K ops s q) (\<lambda>(r, q', t). r = 0 \<and> q_retlen q' = q_len q
     \<and> wrote_disk (blocks s) mem ops s (q_addr q)
         (take (q_len q - q_retlen q) (drop (q_retlen q) (q_dat q))) t)"
proof (induction "q_len q - q_retlen q" arbitrary: s q rule: less_induct)
  case less
  note q = moving_fields [OF less.prems(4)]
  show ?case
  proof (cases "q_retlen q < q_len q")
    case False
    then show ?thesis
      using q by (subst mtk_bmt_write_loop.simps) (simp add: wrote_disk_def)
  next
    case True
    obtain d m off where step: "0 < m" "m \<le> q_len q - q_retlen q"
      "mtk_bmt_write_step K ops s q = Some (Again, advance s q m off m 0, s\<lparr>dev := d\<rparr>)"
      "wrote_disk (blocks s) mem ops s (q_addr q) (take m (drop (q_retlen q) (q_dat q))) (s\<lparr>dev := d\<rparr>)"
      by (rule write_step_disk [OF less.prems(1-4) True less.prems(5)])
    define q2 where "q2 = advance s q m off m 0"
    have f: "q_retlen q2 = q_retlen q + m" "q_len q2 = q_len q" "q_addr q2 = q_addr q + m"
      "q_dat q2 = q_dat q"
      using step(1) by (simp_all add: q2_def advance_def)
    have mv: "moving (blocks s) s q2" unfolding q2_def by (rule moving_advance(1) [OF less.prems(4) step(1,2)])
    have sum: "m + (q_len q - (q_retlen q + m)) = q_len q - q_retlen q" using step(2) by simp
    have rest: "on_disk ops s (q_addr q + m) (q_len q - (q_retlen q + m))"
      by (rule on_disk_tail) (simp only: sum less.prems(5))
    have dat: "take m (drop (q_retlen q) (q_dat q))
        @ take (q_len q - (q_retlen q + m)) (drop (q_retlen q + m) (q_dat q))
      = take (q_len q - q_retlen q) (drop (q_retlen q) (q_dat q))"
      using take_add [of m "q_len q - (q_retlen q + m)" "drop (q_retlen q) (q_dat q)"]
      by (simp only: sum drop_drop add.commute [of m "q_retlen q"])
    have len: "length (take m (drop (q_retlen q) (q_dat q))) = m" using step(2) q by simp
    have "runs (mtk_bmt_write_loop K ops (s\<lparr>dev := d\<rparr>) q2) (\<lambda>(r, q', t). r = 0 \<and> q_retlen q' = q_len q2
      \<and> wrote_disk (blocks (s\<lparr>dev := d\<rparr>)) mem ops (s\<lparr>dev := d\<rparr>) (q_addr q2)
         (take (q_len q2 - q_retlen q2) (drop (q_retlen q2) (q_dat q2))) t)"
      using less.prems(1-3) step(1,2) mv rest
      by (intro less.hyps) (simp_all add: f blocks_dev on_disk_dev whole_blocks_def sound_dev)
    then have "runs (mtk_bmt_write_loop K ops (s\<lparr>dev := d\<rparr>) q2) (\<lambda>(r, q', t). r = 0
      \<and> q_retlen q' = q_len q \<and> wrote_disk (blocks s) mem ops s (q_addr q)
         (take (q_len q - q_retlen q) (drop (q_retlen q) (q_dat q))) t)"
      using wrote_disk_trans [OF step(4), unfolded len]
      by (auto simp: f blocks_dev dat [symmetric] elim!: runs_mono)
    then show ?thesis
      using True step(3) by (subst mtk_bmt_write_loop.simps) (simp add: q2_def)
  qed
qed

lemma write_refines:
  assumes "sound s" "stores K mem" "whole_blocks s" "to + len \<le> blocks s * 2 ^ blk_shift s"
    "len \<le> length dat" "len < 4294967296" "on_disk ops s to len"
  shows "runs (mtk_bmt_write K ops s to dat len oob 0 ooboffs) (\<lambda>(r, q, t).
    r = 0 \<and> q_retlen q = len \<and> wrote_disk (blocks s) mem ops s to (take len dat) t)"
proof -
  let ?q = "start_request to dat len oob 0 ooboffs"
  have "moving (blocks s) s ?q" using assms by (simp add: moving_def start_request_def)
  from write_loop_disk [OF assms(1-3) this] show ?thesis
    unfolding mtk_bmt_write_def using assms(7)
    by (auto simp: start_request_def elim!: runs_mono)
qed

text \<open>What has been written is what is read back.\<close>

lemma write_read:
  assumes "sound s" "stores K mem" "whole_blocks s" "a + len \<le> blocks s * 2 ^ blk_shift s"
    "len \<le> length dat" "len < 4294967296" "on_disk ops s a len" "len \<le> length buf"
  shows "runs (mtk_bmt_write K ops s a dat len oob 0 ooboffs) (\<lambda>(r, q, t). r = 0 \<and>
    runs (mtk_bmt_read K ops t a buf len oob' 0 ooboffs') (\<lambda>(r', q', u).
      r' = 0 \<and> take len (q_dat q') = take len dat))"
proof (rule runs_mono [OF write_refines [OF assms(1-7)]], goal_cases)
  case (1 x)
  obtain r q t where x: "x = (r, q, t)" by (cases x)
  have w: "wrote_disk (blocks s) mem ops s a (take len dat) t" and r: "r = 0" using 1 x by simp_all
  obtain d where t: "t = s\<lparr>dev := d\<rparr>" using w by (auto simp: wrote_disk_def)
  have n: "length (take len dat) = len" using assms(5) by simp
  have cov: "covers (blocks s) ops s x" if "a \<le> x" "x < a + len" for x
  proof -
    have "x < blocks s * 2 ^ blk_shift s" using that assms(4) by simp
    then show ?thesis
      using assms(7) that by (simp add: covers_def on_disk_def less_mult_imp_div_less)
  qed
  have "slice (disk ops mem t) a len = slice (patch a (take len dat) (disk ops mem s)) a len"
    using w cov by (intro slice_cong) (simp add: wrote_disk_def)
  then have sl: "slice (disk ops mem t) a len = take len dat"
    using slice_patch [of a "take len dat"] by (simp only: n)
  have "runs (mtk_bmt_read K ops t a buf len oob' 0 ooboffs') (\<lambda>(r, q, u).
    r = 0 \<and> q_retlen q = len \<and> unchanged_but mem t u
    \<and> q_dat q = slice (disk ops mem t) a len @ drop len buf)"
    using assms(2,3,4,6,7,8) unfolding t
    by (intro read_refines) (simp_all add: whole_blocks_def blocks_dev on_disk_dev)
  then have "runs (mtk_bmt_read K ops t a buf len oob' 0 ooboffs') (\<lambda>(r', q', u).
      r' = 0 \<and> take len (q_dat q') = take len dat)"
    by (rule runs_mono) (use assms(5) in \<open>auto simp: sl\<close>)
  then show ?case using x r by simp
qed

end

end
