(* ===== verification/Bmt_Demo.thy ===== *)
theory Bmt_Demo
  imports Nmbm_Create Bmt_Disk
begin

text \<open>
  Small concrete instances on which the properties are shown to apply: a driver that answers
  every request with success, a chip of 32 blocks of two pages, and an NMBM instance attached
  to it with two copies of the info table.
\<close>

definition demo_crc :: "u32 \<Rightarrow> byte list \<Rightarrow> u32" where
  "demo_crc c bs = foldl (\<lambda>c b. push_bit 1 c XOR ucast b) c bs"

definition demo_kernel :: "unit kernel" where
  "demo_kernel = \<lparr>k_read = (\<lambda>d addr n offs m. (\<lparr>rd_ret = 0, rd_dat = replicate n 0xff,
       rd_oob = replicate m 0xff, rd_retlen = n, rd_oobretlen = m\<rparr>, d)),
     k_write = (\<lambda>d addr dat offs oob. (\<lparr>wr_ret = 0, wr_retlen = length dat,
       wr_oobretlen = length oob\<rparr>, d)),
     k_erase = (\<lambda>d addr n. (0, d)), k_isbad = (\<lambda>d addr. (0, d)), k_markbad = (\<lambda>d addr. (0, d)),
     k_crc32_le = demo_crc, k_oobavail = 4, k_big_endian = False\<rparr>"

lemma demo_crc_streams: "crc_streams demo_kernel"
  by (simp add: crc_streams_def demo_kernel_def demo_crc_def)

definition chip_desc :: "'d \<Rightarrow> 'd bmtd" where
  "chip_desc d = \<lparr>dev = d, mtd_size = 4096, mtd_erasesize = 128, mtd_erasesize_mask = 127,
     mtd_writesize = 64, mtd_oobsize = 4, mtd_bitflip_threshold = 0, mtd_ecc_strength = 0,
     bbt_buf = [], bbt_set = False, data_buf = replicate 68 0xff, table_size = 0, pg_size = 64,
     blk_size = 128, pg_shift = 6, blk_shift = 7, pool_lba = 0, pool_pba = 0, bb_max = 0,
     total_blks = 32, bmt_blk_idx = 0, bmt_pgs = 0, remap_range = [], oob_offset = 0\<rparr>"

definition demo_desc :: "unit bmtd" where
  "demo_desc = chip_desc ()"

lemmas demo_desc_defs = demo_desc_def chip_desc_def

text \<open>A driver over a flash that holds what is written to it.\<close>

definition demo_store :: "(nat \<Rightarrow> byte) kernel" where
  "demo_store = \<lparr>k_read = (\<lambda>d a n offs m. (\<lparr>rd_ret = 0, rd_dat = slice d a n,
       rd_oob = replicate m 0xff, rd_retlen = n, rd_oobretlen = m\<rparr>, d)),
     k_write = (\<lambda>d a dat offs oob. (\<lparr>wr_ret = 0, wr_retlen = length dat,
       wr_oobretlen = length oob\<rparr>, patch a dat d)),
     k_erase = (\<lambda>d a n. (0, patch a (replicate n 0xff) d)), k_isbad = (\<lambda>d a. (0, d)),
     k_markbad = (\<lambda>d a. (0, d)), k_crc32_le = demo_crc, k_oobavail = 4, k_big_endian = True\<rparr>"

lemma demo_stores: "stores demo_store (\<lambda>d. d)"
  by (simp add: stores_def demo_store_def)

definition demo_raw :: "unit nmbm" where
  "demo_raw = (zero_instance demo_desc)\<lparr>max_ratio := 8, max_reserved_blocks := 256\<rparr>"

definition demo :: "unit nmbm" where
  "demo = demo_raw\<lparr>rawpage_size := 68, rawblock_size := 136, rawchip_size := 4352,
     info_table_cache := replicate 256 0xff, info_table_size := 256,
     info_table_spare_blocks := 2,
     info_table := \<lparr>it_header = zero_header, it_write_count = 0, it_state_table_off = 64,
       it_mapping_table_off = 128, it_padding = 0\<rparr>,
     block_state := [0xffffffff, 0xffffffff], state_table_size := 8,
     block_mapping := map word_of_nat [0..<16] @ replicate 16 (- 1), mapping_table_size := 128,
     block_count := 32, data_block_count := 16, mgmt_start_ba := 16, main_table_ba := 16,
     backup_table_ba := 18, mapping_blocks_ba := 20, mapping_blocks_top_ba := 30,
     signature_ba := 31\<rparr>"

lemmas demo_defs = demo_def demo_raw_def demo_desc_defs zero_instance_def bmtd.defs nmbm.defs

lemma demo_tables: "tables demo"
  by (simp add: tables_def demo_defs)

lemma demo_ok: "ok demo"
  by (simp add: ok_def geom_def demo_tables) (simp add: demo_defs)

lemma demo_inst: "inst demo"
  by (simp add: inst_def demo_ok) (simp add: demo_defs)

lemma demo_placed: "placed demo"
  by (simp add: placed_def demo_defs)

lemma demo_sane: "sane demo"
  by (simp add: sane_def demo_placed) (simp add: demo_defs)

lemma demo_attached: "attached_ok demo"
proof -
  have "unat (map word_of_nat [0..<16] ! i :: u32) < 32" if "i < 16" for i
    using that by (simp add: unat_of_nat)
  then show ?thesis
    by (simp add: attached_ok_def demo_inst demo_sane) (simp add: demo_defs nth_append)
qed

lemma demo_chip: "chip demo_raw"
  by (simp add: chip_def geom_def demo_defs)

text \<open>A driver to which every block is bad.\<close>

definition demo_bad_kernel :: "unit kernel" where
  "demo_bad_kernel = demo_kernel\<lparr>k_isbad := (\<lambda>d addr. (1, d))\<rparr>"

lemma demo_check_bad: "nmbm_check_bad_phys_block demo_bad_kernel s b = (True, s)"
  by (cases s) (simp add: nmbm_check_bad_phys_block_def demo_bad_kernel_def Let_def)

lemma demo_find_loop_bad:
  fixes s :: "unit nmbm"
  assumes "0 < limit" "ba < 65536"
  shows "nmbm_find_signature_loop demo_bad_kernel s ba limit = Some (None, s)"
  using assms
proof (induction ba)
  case (Suc ba)
  then show ?case
    by (subst nmbm_find_signature_loop.simps)
       (simp add: demo_check_bad Let_def)
qed (subst nmbm_find_signature_loop.simps, simp)

lemma demo_init: "total_blks (nmbm_init_structure demo_raw) = 32"
  "max_ratio (nmbm_init_structure demo_raw) = 8"
  "max_reserved_blocks (nmbm_init_structure demo_raw) = 256"
  "force_create (nmbm_init_structure demo_raw) = False"
  by (simp_all add: init_fields) (simp_all add: demo_defs)

lemma demo_limit: "nmbm_signature_limit (nmbm_init_structure demo_raw) = 16"
  by (simp add: nmbm_signature_limit_def mgmt_boundary_def demo_init Let_def)

lemma demo_find_bad: "nmbm_find_signature demo_bad_kernel (nmbm_init_structure demo_raw) =
    Some (None, nmbm_init_structure demo_raw)"
  by (simp add: nmbm_find_signature_def demo_limit demo_init demo_find_loop_bad)

end
