(* ===== verification/Nmbm_Image.thy ===== *)
theory Nmbm_Image
  imports Nmbm_Ops
begin

text \<open>
  The info table on flash and in memory: an image that is generated passes the checks made when
  a table is loaded, and taking it over gives back the tables it was generated from. The header
  check alone does not bound the offsets it checks.
\<close>

section \<open>Round trip\<close>

lemma table_image_parts:
  assumes "inst s"
  defines "so \<equiv> unat (it_state_table_off (info_table s))"
    and "mo \<equiv> unat (it_mapping_table_off (info_table s))"
  shows "take 32 (table_image s) = info_header_bytes (next_table s)"
    "take (state_table_size s) (drop so (table_image s)) = words_bytes (block_state s)"
    "take (mapping_table_size s) (drop mo (table_image s)) = words_bytes (block_mapping s)"
  using inst_bounds [OF assms(1)]
  by (simp_all add: table_image_def Let_def so_def mo_def)

lemma checksum_parts:
  assumes "drop 16 c = drop 16 (b :: byte list)" "16 \<le> k"
  shows "drop k c = drop k b"
proof -
  have "drop (k - 16) (drop 16 c) = drop (k - 16) (drop 16 b)" by (simp only: assms(1))
  then show ?thesis using assms(2) by simp
qed

text \<open>
  The header of the image with its checksum: the new table header, whose own header carries the
  checksum.
\<close>

lemma bytes_info_header_parts:
  assumes "drop 16 c = drop 16 (b :: byte list)" "bytes_header c = (bytes_header b)\<lparr>h_checksum := k\<rparr>"
  shows "bytes_info_header c = (bytes_info_header b)\<lparr>it_header := (it_header (bytes_info_header b))\<lparr>h_checksum := k\<rparr>\<rparr>"
  using assms(2) checksum_parts [OF assms(1), of 20] checksum_parts [OF assms(1), of 24]
    checksum_parts [OF assms(1), of 28] assms(1)
  by (simp add: bytes_info_header_def)

text \<open>
  A state whose cache holds such an image, and what loading looks at in it.
\<close>

lemma generate_image:
  assumes "inst s" "crc_streams E"
  shows "runs (nmbm_generate_info_table_cache E s) (\<lambda>(r, t). \<exists>c k.
    t = s\<lparr>info_table := next_table s, info_table_cache := c\<rparr>
    \<and> nmbm_check_header E c (info_table_size s) = Some True
    \<and> length c = info_table_size s \<and> drop 16 c = drop 16 (table_image s)
    \<and> bytes_header c = (bytes_header (table_image s))\<lparr>h_checksum := k\<rparr>)"
proof -
  note b = inst_bounds [OF assms(1)]
  have sz: "unat (h_size (bytes_header (table_image s))) = info_table_size s"
    using b(4) by (simp add: header_table_image assms(1) next_table_def unat_of_nat)
  have "runs (nmbm_update_checksum E (table_image s))
     (\<lambda>c. nmbm_check_header E c (info_table_size s) = Some True
        \<and> length c = length (table_image s)
        \<and> (\<exists>k. bytes_header c = (bytes_header (table_image s))\<lparr>h_checksum := k\<rparr>)
        \<and> drop 16 c = drop 16 (table_image s))"
    by (rule update_checksum_check [OF assms(2)])
       (use b(1-4) in \<open>simp_all add: sz length_table_image assms(1)\<close>)
  then show ?thesis
    unfolding generate_eq [OF assms(1)] runs_bind
    by (rule runs_mono) (use length_table_image [OF assms(1)] in auto)
qed

lemma image_header:
  assumes "inst s"
  shows "bytes_info_header (table_image s) = next_table s"
  by (simp add: table_image_def Let_def)

lemma header_check_image:
  assumes "inst s" "info_table_size u = info_table_size s" "state_table_size u = state_table_size s"
    "mapping_table_size u = mapping_table_size s"
    "bytes_info_header c = (next_table s)\<lparr>it_header := (it_header (next_table s))\<lparr>h_checksum := k\<rparr>\<rparr>"
  shows "nmbm_check_info_table_header u c"
proof -
  let ?so = "it_state_table_off (info_table s)" and ?mo = "it_mapping_table_off (info_table s)"
  note b = inst_bounds [OF assms(1)]
  have le: "?so \<le> ?mo" using b(2) by (simp add: word_le_nat_alt)
  then have "unat (?mo - ?so) = unat ?mo - unat ?so" by (simp add: unat_sub)
  then have "state_table_size s \<le> unat (?mo - ?so)" using b(2,6) by simp
  moreover have "sub32 (info_table_size s) (unat ?mo) = info_table_size s - unat ?mo"
    using b(3,4) by simp
  moreover have "unat (word_of_nat (info_table_size s) :: u32) = info_table_size s"
    using b(4) by (simp add: unat_of_nat)
  ultimately show ?thesis
    using b(3,7)
    by (simp add: nmbm_check_info_table_header_def Let_def assms(2-5) next_table_def)
qed

lemma take_over_image:
  assumes "inst s" "length c = info_table_size s" "drop 16 c = drop 16 (table_image s)"
    "bytes_info_header c = (next_table s)\<lparr>it_header := (it_header (next_table s))\<lparr>h_checksum := k\<rparr>\<rparr>"
    "info_table_cache u = c" "state_table_size u = state_table_size s"
    "mapping_table_size u = mapping_table_size s"
  shows "nmbm_take_over_table u = Some (u\<lparr>info_table := bytes_info_header c,
     block_state := block_state s, block_mapping := block_mapping s\<rparr>)"
proof -
  let ?so = "unat (it_state_table_off (info_table s))"
  let ?mo = "unat (it_mapping_table_off (info_table s))"
  note b = inst_bounds [OF assms(1)] and p = table_image_parts [OF assms(1)]
  have "memget c ?so (state_table_size s) = Some (words_bytes (block_state s))"
    using b p(2) assms(2) checksum_parts [OF assms(3), of ?so] by (simp add: memget_def)
  moreover have "memget c ?mo (mapping_table_size s) = Some (words_bytes (block_mapping s))"
    using b p(3) assms(2) checksum_parts [OF assms(3), of ?mo] by (simp add: memget_def)
  ultimately show ?thesis
    by (simp add: nmbm_take_over_table_def Let_def assms(4-7) next_table_def)
qed

section \<open>What the header check lets through\<close>

text \<open>
  The two offset checks subtract unsigned 32-bit values. A mapping table offset beyond the end
  of the table passes, because the second difference wraps around; using it is an access
  outside the table.
\<close>

lemma header_check_wraps:
  assumes "info_table_size s < mo" "mo < 4294967296" "mapping_table_size s < 2147483648"
    "state_table_size s \<le> mo" "info_table_size s < 2147483648"  "mo \<le> 2147483648"
    "bytes_info_header c = \<lparr>it_header = \<lparr>h_magic = NMBM_MAGIC_INFO_TABLE, h_version = v,
       h_size = word_of_nat (info_table_size s), h_checksum = k\<rparr>, it_write_count = n,
       it_state_table_off = 0, it_mapping_table_off = word_of_nat mo, it_padding = pd\<rparr>"
  shows "nmbm_check_info_table_header s c"
    "length c = info_table_size s \<Longrightarrow> 0 < mapping_table_size s \<Longrightarrow>
       info_table_cache s = c \<Longrightarrow> nmbm_take_over_table s = None"
proof -
  have u: "unat (word_of_nat mo :: u32) = mo"
    "unat (word_of_nat (info_table_size s) :: u32) = info_table_size s"
    using assms by (simp_all add: unat_of_nat)
  have "int (info_table_size s) - int mo = - (int mo - int (info_table_size s))" by simp
  then have "(int (info_table_size s) - int mo) mod 4294967296
      = 4294967296 + (int (info_table_size s) - int mo)"
    using assms(1,2) by (subst mod_add_self1 [symmetric]) (rule mod_pos_pos_trivial, auto)
  then have s: "mapping_table_size s \<le> sub32 (info_table_size s) mo"
    using assms by (simp add: sub32_def u32_of_def)
  show "nmbm_check_info_table_header s c"
    using assms s by (simp add: nmbm_check_info_table_header_def Let_def u)
  show "nmbm_take_over_table s = None"
    if "length c = info_table_size s" "0 < mapping_table_size s" "info_table_cache s = c"
    using that assms(1) u(1) by (simp add: nmbm_take_over_table_def Let_def assms(7) memget_def)
qed

end
