(* ===== verification/Nmbm_Manager.thy ===== *)
theory Nmbm_Manager
  imports Nmbm_Ops Bmt_Requests
begin

text \<open>
  NMBM keeps the front end's contract: an attached instance answers every lookup with \<open>-1\<close> or
  a block of the chip, and remapping keeps it attached.
\<close>

lemma uint_less: "uint (w :: u32) < int n \<longleftrightarrow> unat w < n"
  using of_nat_less_iff [of "unat w" n, where 'a = int] by simp

lemma uint_ge: "- 1 \<le> uint (w :: u32)"
  by (rule order_trans [of _ 0]) simp_all

lemma sint_small:
  assumes "unat (w :: u32) < 2147483648"
  shows "sint w = uint w"
proof -
  have "uint w < 2 ^ 31" using assms uint_less [of w 2147483648] by simp
  moreover have "- (2 ^ 31) \<le> uint w" by (rule order_trans [of _ 0]) simp_all
  ultimately show ?thesis by (simp add: sint_uint signed_take_bit_int_eq_self)
qed

lemma attached_lookup:
  assumes "attached_ok s" "b < data_block_count s"
  shows "get_mapping_block_index_nmbm s (int b) = Some (int (unat (block_mapping s ! b)))"
    "unat (block_mapping s ! b) < block_count s" "uint (block_mapping s ! b) < int (block_count s)"
proof -
  have l: "length (block_mapping s) = block_count s" "block_count s < 65536"
    using assms(1) inst_lengths [of s] by (simp_all add: attached_ok_def)
  show u: "unat (block_mapping s ! b) < block_count s"
    using assms by (simp add: attached_ok_def)
  then show "uint (block_mapping s ! b) < int (block_count s)" by (simp only: uint_less)
  have "b < block_count s" using assms by (simp add: attached_ok_def)
  then show "get_mapping_block_index_nmbm s (int b) = Some (int (unat (block_mapping s ! b)))"
    using assms(2) l u by (simp add: get_mapping_block_index_nmbm_def aget_def sint_small)
qed

lemma attached_lookup_none:
  "data_block_count s \<le> b \<Longrightarrow> b < 65536 \<Longrightarrow> get_mapping_block_index_nmbm s (int b) = Some (- 1)"
  by (simp add: get_mapping_block_index_nmbm_def)

lemma attached_dev: "attached_ok (s\<lparr>dev := d\<rparr>) = attached_ok s"
  by (simp add: attached_ok_def inst_def sane_def placed_def ok_def geom_def tables_def)

lemma remap_keeps:
  assumes "attached_ok s" "b < 65536" "get_mapping_block_index_nmbm s (int b) = Some p"
  shows "runs (remap_block_nmbm E s b (u16 p) len) (keeps attached_ok s)"
proof (cases "b < data_block_count s")
  case True
  have "u16 (uint (block_mapping s ! b)) = nat (uint (block_mapping s ! b))"
    using attached_lookup(3) [OF assms(1) True] inst_lengths(2) [of s] assms(1)
    by (intro u16_id) (simp_all add: attached_ok_def)
  then have "u16 p < block_count s"
    using assms(3) attached_lookup [OF assms(1) True] by (simp add: nat_less_iff)
  then show ?thesis
    by (rule runs_mono [OF remap_spec [OF assms(1)]]) (auto simp: remapped_def keeps_def)
next
  case False
  then show ?thesis using assms(1) by (simp add: remap_block_nmbm_def)
qed

interpretation nm: manager "mtk_bmt_nmbm_ops E" attached_ok "\<lambda>_. 65536"
proof (unfold_locales, goal_cases)
  case (3 s b)
  then show ?case
  proof (cases "b < data_block_count s")
    case True
    have "block_count s < 65536" using 3 inst_lengths(2) [of s] by (simp add: attached_ok_def)
    then show ?thesis
      using attached_lookup [OF 3(1) True] uint_ge by (simp add: mtk_bmt_nmbm_ops_def)
  next
    case False
    then show ?thesis using 3 attached_lookup_none [of s b] by (simp add: mtk_bmt_nmbm_ops_def)
  qed
next
  case (4 s b p len)
  then show ?case using remap_keeps [of s b p E len] by (simp add: mtk_bmt_nmbm_ops_def)
qed (simp_all add: attached_dev mtk_bmt_nmbm_ops_def get_mapping_block_index_nmbm_def)

end
