(* ===== verification/Nmbm_Properties.thy ===== *)
theory Nmbm_Properties
  imports Bmt_Demo Nmbm_Image Nmbm_Manager
begin

text \<open>
  The properties of the NMBM manager, each stated over the model of the code and shown to apply
  to a concrete instance where it has hypotheses.
\<close>

section \<open>Remapping\<close>

text \<open>
  C1: for every behaviour of the driver \<open>remap_block_nmbm\<close> returns, without an access outside its
  tables. When it returns true, exactly the mapping of the one block has changed, to a block of
  the spare area that was good and is not the one it had; when it returns false no mapping has
  changed. The instance stays in order either way.
\<close>

theorem remap_correct:
  assumes "attached_ok s" "mapped_block < block_count s"
  shows "runs (remap_block_nmbm E s block mapped_block copy_len) (\<lambda>(r, t).
    attached_ok t \<and> same_shape s t \<and> data_block_count t = data_block_count s
    \<and> block_count t = block_count s
    \<and> (if r then block < data_block_count s \<and> (\<exists>pb. mapping_blocks_ba s < pb
          \<and> pb \<le> mapping_blocks_top_ba s \<and> good s pb \<and> pb \<noteq> mapped_block
          \<and> block_mapping t = (block_mapping s)[block := word_of_nat pb])
       else block_mapping t = block_mapping s))"
  using remap_spec [OF assms] by (simp add: remapped_def)

theorem remap_correct_witness:
  "runs (remap_block_nmbm demo_kernel demo 3 3 128) (\<lambda>(r, t).
    attached_ok t \<and> same_shape demo t \<and> data_block_count t = data_block_count demo
    \<and> block_count t = block_count demo
    \<and> (if r then 3 < data_block_count demo \<and> (\<exists>pb. mapping_blocks_ba demo < pb
          \<and> pb \<le> mapping_blocks_top_ba demo \<and> good demo pb \<and> pb \<noteq> 3
          \<and> block_mapping t = (block_mapping demo)[3 := word_of_nat pb])
       else block_mapping t = block_mapping demo))"
  by (rule remap_correct [OF demo_attached]) (simp add: demo_defs)





text \<open>
  C8: creating the management structures on a chip without any returns for every behaviour of the
  driver, and when it succeeds the instance is in order and every data block is mapped
  to a block of the chip.
\<close>

theorem create_new_correct:
  assumes "inst s" "max_ratio s \<le> 16" "length (sig_padding (signature s)) = 7"
  shows "runs (nmbm_create_new E s) (\<lambda>(r, t). r \<longrightarrow> attached_ok t)"
  by (rule create_new_spec [OF assms])

theorem create_new_correct_witness:
  "runs (nmbm_create_new demo_kernel demo) (\<lambda>(r, t). r \<longrightarrow> attached_ok t)"
  by (rule create_new_correct [OF demo_inst]) (simp_all add: demo_defs)



section \<open>Mapping\<close>

text \<open>
  The factory mapping table maps the data blocks, in order, to the blocks below the management
  area that are not bad; the entries behind them are \<open>-1\<close>.
\<close>

theorem factory_mapping:
  assumes "tables s" "mgmt_start_ba s \<le> block_count s"
  shows "nmbm_build_mapping_table s =
    (let gs = filter (\<lambda>b. bst (block_state s) b \<noteq> BLOCK_ST_BAD) [0..<mgmt_start_ba s]
     in Some (s\<lparr>data_block_count := length gs,
          block_mapping := map word_of_nat gs @ replicate (block_count s - length gs) (- 1)\<rparr>))"
  using build_mapping_table_eq [OF assms] by (simp add: not_bad_def [abs_def])

theorem factory_mapping_witness:
  "nmbm_build_mapping_table demo =
    (let gs = filter (\<lambda>b. bst (block_state demo) b \<noteq> BLOCK_ST_BAD) [0..<mgmt_start_ba demo]
     in Some (demo\<lparr>data_block_count := length gs,
          block_mapping := map word_of_nat gs @ replicate (block_count demo - length gs) (- 1)\<rparr>))"
  by (rule factory_mapping [OF demo_tables]) (simp add: demo_defs)

text \<open>
  A lookup of a mapped data block gives the physical block its mapping entry holds, a block of
  the chip; the lookup of any other 16-bit block number gives \<open>-1\<close>.
\<close>

theorem lookup_correct:
  assumes "attached_ok s" "b < 65536"
  shows "get_mapping_block_index_nmbm s (int b) =
      Some (if b < data_block_count s then int (unat (block_mapping s ! b)) else - 1)
    \<and> (b < data_block_count s \<longrightarrow> unat (block_mapping s ! b) < block_count s)"
  using attached_lookup [OF assms(1), of b] attached_lookup_none [of s b] assms(2) by auto

theorem lookup_correct_witness:
  "get_mapping_block_index_nmbm demo (int 5) = Some (int (unat (block_mapping demo ! 5)))
    \<and> unat (block_mapping demo ! 5) < block_count demo"
proof -
  have "5 < data_block_count demo" by (simp add: demo_defs)
  then show ?thesis using lookup_correct [OF demo_attached, of 5] by simp
qed

text \<open>
  \<open>nmbm_map_block\<close> maps the block to the highest good block of the spare area when there is
  one, whatever the driver does.
\<close>

theorem map_block_highest:
  assumes "inst s" "sane s" "mapping_blocks_top_ba s < block_count s" "lb < block_count s"
    "mapping_blocks_ba s < pb" "pb \<le> mapping_blocks_top_ba s" "good s pb"
    "\<forall>b. pb < b \<longrightarrow> b \<le> mapping_blocks_top_ba s \<longrightarrow> \<not> good s b"
  shows "nmbm_map_block E s lb = Some (True, s\<lparr>
     block_mapping := (block_mapping s)[lb := word_of_nat pb],
     mapping_blocks_top_ba := mapping_blocks_top_ba s - 1,
     block_mapping_changed := block_mapping_changed s + 1\<rparr>)"
proof -
  have "filter (good s) [Suc pb..<Suc (mapping_blocks_top_ba s)] = []"
    using assms(8) by (auto simp: filter_empty_conv)
  then have "spare_block s pb"
    using assms(5-7) by (simp only: spare_block_def ngood_def list.size simp_thms)
  then show ?thesis using map_block_eq [OF assms(1-4)] by (simp add: mapped_to_def)
qed

theorem map_block_highest_witness:
  "nmbm_map_block demo_kernel demo 3 = Some (True, demo\<lparr>
     block_mapping := (block_mapping demo)[3 := word_of_nat 30],
     mapping_blocks_top_ba := mapping_blocks_top_ba demo - 1,
     block_mapping_changed := block_mapping_changed demo + 1\<rparr>)"
  by (rule map_block_highest [OF demo_inst demo_sane])
     (simp_all add: demo_defs good_def bst_def)

text \<open>
  C11: when the highest good spare block lies below the top of the spare area, two data blocks
  mapped one after the other get the same physical block: the top is lowered by one, not to
  the block that was handed out.
\<close>

theorem map_block_twice:
  assumes "attached_ok s" "lb < block_count s" "lb' < block_count s" "lb \<noteq> lb'"
    "spare_block s pb" "pb < mapping_blocks_top_ba s"
  shows "runs (nmbm_map_block E s lb) (\<lambda>(r, t). r \<and> runs (nmbm_map_block E t lb') (\<lambda>(r', u).
    r' \<and> block_mapping u ! lb = word_of_nat pb \<and> block_mapping u ! lb' = word_of_nat pb))"
proof -
  have a: "inst s" "sane s" "mapping_blocks_top_ba s < block_count s"
    using assms(1) by (simp_all add: attached_ok_def)
  let ?t = "mapped_to s lb pb"
  have t: "attached_ok ?t" by (rule mapped_to_ok [OF assms(1,5,2)])
  have "nmbm_map_block E ?t lb' = Some (True, mapped_to ?t lb' pb)"
    using t assms(3) spare_again [OF assms(5,6)]
    by (intro map_block_eq) (simp_all add: attached_ok_def mapped_to_def)
  then show ?thesis
    using map_block_eq [OF a assms(2,5)] inst_lengths(1) [OF a(1)] assms(2-4)
    by (simp add: mapped_to_def)
qed

definition demo_gap :: "unit nmbm" where
  "demo_gap = demo\<lparr>block_state := [0xffffffff, 0xcfffffff]\<rparr>"

lemma demo_gap_attached: "attached_ok demo_gap"
  using demo_attached
  by (simp add: demo_gap_def attached_ok_def inst_def sane_def ok_def geom_def tables_def placed_def)
     (simp add: demo_defs)

theorem map_block_twice_witness:
  "runs (nmbm_map_block demo_kernel demo_gap 3) (\<lambda>(r, t). r \<and>
    runs (nmbm_map_block demo_kernel t 4) (\<lambda>(r', u). r'
      \<and> block_mapping u ! 3 = word_of_nat 29 \<and> block_mapping u ! 4 = word_of_nat 29))"
  by (rule map_block_twice [OF demo_gap_attached])
     (simp_all add: demo_gap_def demo_defs spare_block_def good_def bst_def ngood_def upt_rec)

section \<open>Block states\<close>

text \<open>
  Setting the state of a block makes it the state that is read back, leaves the state of
  every other block, and reports a change exactly when the state is a different one, in
  which case the change counter is raised.
\<close>

theorem block_state_set_get:
  assumes "b div 16 < length (block_state s)" "v AND 3 = v"
  shows "runs (nmbm_set_block_state s b v) (\<lambda>(r, t). nmbm_get_block_state t b = Some v
    \<and> (\<forall>c. c \<noteq> b \<longrightarrow> nmbm_get_block_state t c = nmbm_get_block_state s c)
    \<and> r = (nmbm_get_block_state s b \<noteq> Some v)
    \<and> block_state_changed t = block_state_changed s + (if r then 1 else 0))"
  using assms
  by (simp add: nmbm_set_block_state_eq nmbm_get_block_state_eq bst_bset_same bst_bset_other)

theorem block_state_set_get_witness:
  "runs (nmbm_set_block_state demo 17 0) (\<lambda>(r, t). nmbm_get_block_state t 17 = Some 0
    \<and> (\<forall>c. c \<noteq> 17 \<longrightarrow> nmbm_get_block_state t c = nmbm_get_block_state demo c)
    \<and> r = (nmbm_get_block_state demo 17 \<noteq> Some 0)
    \<and> block_state_changed t = block_state_changed demo + (if r then 1 else 0))"
  by (rule block_state_set_get) (simp_all add: demo_defs)

text \<open>
  Reserving up to \<open>count\<close> good blocks from \<open>ba\<close> on finds the good block that has
  \<open>count\<close> good ones before it or, when there are too few, the last good one; it
  fails only when there is none at all.
\<close>

theorem try_reserve_correct:
  assumes "tables s" "count < 2147483648"
  shows "runs (nmbm_try_reserve_blocks s ba count 0 limit) (\<lambda>r. case r of
      Some nba \<Rightarrow> ba \<le> nba \<and> nba < min (u32_of limit) (block_count s - 1) \<and> good s nba
        \<and> ngood s ba nba = min count (ngood s ba (min (u32_of limit) (block_count s - 1)) - 1)
    | None \<Rightarrow> ngood s ba (min (u32_of limit) (block_count s - 1)) = 0)"
  using try_reserve_spec [OF assms, of ba limit] by (simp only: walk_limit_def)

theorem try_reserve_correct_witness:
  "runs (nmbm_try_reserve_blocks demo 18 2 0 30) (\<lambda>r. case r of
      Some nba \<Rightarrow> 18 \<le> nba \<and> nba < min (u32_of 30) (block_count demo - 1) \<and> good demo nba
        \<and> ngood demo 18 nba = min 2 (ngood demo 18 (min (u32_of 30) (block_count demo - 1)) - 1)
    | None \<Rightarrow> ngood demo 18 (min (u32_of 30) (block_count demo - 1)) = 0)"
  by (rule try_reserve_correct [OF demo_tables]) simp

section \<open>The info tables\<close>

text \<open>
  Rescuing the main info table, when the table just written to the spare area is the only
  one left, never loses it: on success the main table lies in front of the blocks used for
  mapping and its state is recorded, and otherwise the instance is read-only.
\<close>

theorem rescue_main_keeps_table:
  assumes "inst s" "placed s" "backup_table_ba s \<noteq> 0" "block_mapping_changed s = 0"
    "block_state_changed s = 0"
  shows "runs (nmbm_rescue_main_info_table E s) (\<lambda>(r, t). maintains s t
    \<and> (if r then mgmt_start_ba t \<le> main_table_ba t \<and> main_table_ba t < mapping_blocks_ba t
             \<and> block_mapping_changed t = 0
       else protected t))"
proof -
  have "settled s s" using assms(4,5) by (simp add: settled_def)
  then have "runs (nmbm_rescue_main_info_table E s) (kept s)"
    by (intro rescue_main_spec [OF assms(1) maintains_refl assms(2) _ assms(3)])
  then show ?thesis
    by (rule runs_mono) (auto simp: kept_def placed_def settled_def split: if_splits)
qed

theorem rescue_main_keeps_table_witness:
  "runs (nmbm_rescue_main_info_table demo_kernel demo) (\<lambda>(r, t). maintains demo t
    \<and> (if r then mgmt_start_ba t \<le> main_table_ba t \<and> main_table_ba t < mapping_blocks_ba t
             \<and> block_mapping_changed t = 0
       else protected t))"
  by (rule rescue_main_keeps_table [OF demo_inst demo_placed]) (simp_all add: demo_defs)

text \<open>
  The header check of a stored info table subtracts the mapping table's offset from the
  table size in 32 bits: an offset beyond the end of the table passes it, and taking the
  table over then reads behind the buffer.
\<close>

theorem header_check_wraps_around:
  assumes "info_table_size s < mo" "mo \<le> 2147483648" "mapping_table_size s < 2147483648"
    "state_table_size s \<le> mo" "info_table_size s < 2147483648" "0 < mapping_table_size s"
    "bytes_info_header (info_table_cache s) = \<lparr>it_header = \<lparr>h_magic = NMBM_MAGIC_INFO_TABLE,
       h_version = v, h_size = word_of_nat (info_table_size s), h_checksum = k\<rparr>,
       it_write_count = n, it_state_table_off = 0, it_mapping_table_off = word_of_nat mo,
       it_padding = pd\<rparr>"
    "length (info_table_cache s) = info_table_size s"
  shows "nmbm_check_info_table_header s (info_table_cache s) \<and> nmbm_take_over_table s = None"
  using header_check_wraps [OF assms(1) _ assms(3-5,2,7)] assms(2,6,8) by simp

definition demo_bad_table :: "unit nmbm" where
  "demo_bad_table = demo\<lparr>info_table_cache := info_header_bytes
     \<lparr>it_header = \<lparr>h_magic = NMBM_MAGIC_INFO_TABLE, h_version = NMBM_VER, h_size = 256,
        h_checksum = 0\<rparr>, it_write_count = 1, it_state_table_off = 0,
      it_mapping_table_off = 4096, it_padding = 0\<rparr> @ replicate 224 0\<rparr>"

theorem header_check_wraps_around_witness:
  "nmbm_check_info_table_header demo_bad_table (info_table_cache demo_bad_table)
   \<and> nmbm_take_over_table demo_bad_table = None"
  by (rule header_check_wraps_around [where mo = 4096 and v = NMBM_VER and k = 0 and n = 1 and pd = 0])
     (simp_all add: demo_bad_table_def demo_defs)

text \<open>
  A checksum that \<open>nmbm_update_checksum\<close> stores in a structure is accepted by
  \<open>nmbm_check_header\<close>, and nothing but the checksum field has changed.
\<close>

theorem checksum_accepted:
  assumes "crc_streams E" "16 \<le> unat (h_size (bytes_header data))"
    "unat (h_size (bytes_header data)) \<le> length data"
  shows "runs (nmbm_update_checksum E data) (\<lambda>data'.
    nmbm_check_header E data' (length data) = Some True \<and> length data' = length data
    \<and> (\<exists>c. bytes_header data' = (bytes_header data)\<lparr>h_checksum := c\<rparr>)
    \<and> drop 16 data' = drop 16 data)"
  by (rule update_checksum_check [OF assms assms(3)])

theorem checksum_accepted_witness:
  "runs (nmbm_update_checksum demo_kernel (info_header_bytes (info_table demo
       \<lparr>it_header := zero_header\<lparr>h_size := 32\<rparr>\<rparr>))) (\<lambda>data'.
    nmbm_check_header demo_kernel data' 32 = Some True \<and> length data' = 32
    \<and> (\<exists>c. bytes_header data' = (bytes_header (info_header_bytes (info_table demo
         \<lparr>it_header := zero_header\<lparr>h_size := 32\<rparr>\<rparr>)))\<lparr>h_checksum := c\<rparr>)
    \<and> drop 16 data' = drop 16 (info_header_bytes (info_table demo
         \<lparr>it_header := zero_header\<lparr>h_size := 32\<rparr>\<rparr>)))"
proof -
  let ?d = "info_header_bytes (info_table demo\<lparr>it_header := zero_header\<lparr>h_size := 32\<rparr>\<rparr>)"
  have "unat (h_size (bytes_header ?d)) = 32"
    by (simp add: info_header_bytes_def zero_header_def)
  then show ?thesis
    using checksum_accepted [OF demo_crc_streams, of ?d] by simp
qed

section \<open>Attaching\<close>

text \<open>
  Attaching a chip on which no signature is found returns for every behaviour of the driver.
  Without \<open>force-create\<close> it refuses with \<open>-ENODEV\<close>; with it the result is 0, and then the instance
  is in order, or \<open>-ENODEV\<close>.
\<close>

theorem attach_new_correct:
  assumes "chip s" "max_ratio s \<le> 16" "length (sig_padding (signature s)) = 7"
    "mapping_blocks_top_ba s \<le> total_blks s"
    "nmbm_find_signature E (nmbm_init_structure s) = Some (None, u)"
    "io_only (nmbm_init_structure s) u"
  shows "runs (nmbm_attach E (Some s)) (\<lambda>(r, t).
    (if force_create s then r = 0 \<or> r = - ENODEV else r = - ENODEV)
    \<and> (\<exists>v. t = Some v \<and> (r = 0 \<longrightarrow> attached_ok v)))"
  by (rule attach_new_spec [OF assms])

theorem attach_new_correct_witness:
  "runs (nmbm_attach demo_bad_kernel (Some demo_raw)) (\<lambda>(r, t).
    (if force_create demo_raw then r = 0 \<or> r = - ENODEV else r = - ENODEV)
    \<and> (\<exists>v. t = Some v \<and> (r = 0 \<longrightarrow> attached_ok v)))"
  by (rule attach_new_correct [OF demo_chip _ _ _ demo_find_bad]) (simp_all add: demo_defs)

text \<open>
  For a signature limit above 0 the search for the signature ends, and the
  block it reports is not more than one below the limit; the signature there has the magic.
\<close>

theorem find_signature_ends:
  assumes "ok s" "0 < nmbm_signature_limit s" "total_blks s < 65536"
  shows "runs (nmbm_find_signature E s) (\<lambda>(r, t). io_only s t
    \<and> (\<forall>g b. r = Some (g, b) \<longrightarrow> nmbm_signature_limit s \<le> Suc b \<and> b < total_blks s
        \<and> h_magic (sig_header g) = NMBM_MAGIC_SIGNATURE))"
  by (rule runs_mono [OF find_signature_spec [OF assms]]) auto

theorem find_signature_ends_witness:
  "runs (nmbm_find_signature demo_kernel demo) (\<lambda>(r, t). io_only demo t
    \<and> (\<forall>g b. r = Some (g, b) \<longrightarrow> nmbm_signature_limit demo \<le> Suc b \<and> b < total_blks demo
        \<and> h_magic (sig_header g) = NMBM_MAGIC_SIGNATURE))"
  by (rule find_signature_ends [OF demo_ok])
     (simp_all add: nmbm_signature_limit_def mgmt_boundary_def demo_defs Let_def)

text \<open>
  For a signature limit of 0, which a chip of fewer than sixteen blocks has, the search does
  not end on a chip whose blocks are all bad: the unsigned block number wraps around.
\<close>

theorem find_signature_diverges:
  assumes "\<And>d a. fst (k_isbad E d a) \<noteq> 0" "nmbm_signature_limit s = 0"
  shows "nmbm_find_signature E s = None"
  using find_signature_loop_diverges [OF assms(1)] assms(2) by (simp add: nmbm_find_signature_def)

theorem find_signature_diverges_witness:
  "nmbm_find_signature demo_bad_kernel (demo\<lparr>total_blks := 8\<rparr>) = None"
  by (rule find_signature_diverges)
     (simp_all add: demo_bad_kernel_def nmbm_signature_limit_def mgmt_boundary_def demo_defs Let_def)

text \<open>
  \<open>nmbm_init_structure\<close> lays out an info table in which the header, the state table and the
  mapping table follow each other without overlap and fit, for every chip of fewer than 65536
  blocks.
\<close>

theorem init_structure_layout:
  assumes "chip s" "mapping_blocks_top_ba s \<le> total_blks s"
  shows "let t = nmbm_init_structure s in inst t
    \<and> 32 \<le> unat (it_state_table_off (info_table t))
    \<and> unat (it_state_table_off (info_table t)) + state_table_size t
        \<le> unat (it_mapping_table_off (info_table t))
    \<and> unat (it_mapping_table_off (info_table t)) + mapping_table_size t \<le> info_table_size t"
  using init_inst [OF assms] by (simp add: inst_def Let_def)

theorem init_structure_layout_witness:
  "let t = nmbm_init_structure demo_raw in inst t
    \<and> 32 \<le> unat (it_state_table_off (info_table t))
    \<and> unat (it_state_table_off (info_table t)) + state_table_size t
        \<le> unat (it_mapping_table_off (info_table t))
    \<and> unat (it_mapping_table_off (info_table t)) + mapping_table_size t \<le> info_table_size t"
  by (rule init_structure_layout [OF demo_chip]) (simp add: demo_defs)

text \<open>
  The memory \<open>nmbm_calc_structure_size\<close> asks for is exactly what the pointers laid out behind
  the instance use: the last table ends where the allocation does.
\<close>

theorem structure_size_used:
  "nmbm_pointers (nmbm_init_structure s) n =
    (n, n + info_table_size (nmbm_init_structure s),
     n + info_table_size (nmbm_init_structure s) + state_table_size (nmbm_init_structure s),
     nmbm_calc_structure_size s n)"
  by (rule structure_size_exact)

text \<open>
  The result of \<open>nmbn_read_data\<close> is 0 or an error, never a positive number of bit flips, and
  the buffer keeps its size.
\<close>

theorem read_data_never_positive:
  assumes "ok s" "n \<le> length buf"
  shows "runs (nmbn_read_data E s addr buf n) (\<lambda>(r, b, t). io_only s t
    \<and> length b = length buf \<and> r \<le> 0)"
  by (rule read_data_spec [OF assms])

theorem read_data_never_positive_witness:
  "runs (nmbn_read_data demo_kernel demo 130 (replicate 200 0) 200) (\<lambda>(r, b, t). io_only demo t
    \<and> length b = length (replicate 200 0 :: byte list) \<and> r \<le> 0)"
  by (rule read_data_never_positive [OF demo_ok]) simp

text \<open>
  The signature is written to the highest block above the limit that is good, that is,
  one that could be erased and written.
\<close>

theorem write_signature_correct:
  assumes "ok s" "length (sig_padding sg) = 7"
  shows "runs (nmbm_write_signature E s limit sg) (\<lambda>(r, t). degrades s t
    \<and> (case r of
        Some b \<Rightarrow> limit < b \<and> b < block_count s \<and> good t b
          \<and> ngood t (Suc b) (block_count s) = 0
      | None \<Rightarrow> ngood t (Suc limit) (block_count s) = 0))"
proof -
  have "0 < block_count s" using assms(1) by (simp add: ok_def tables_def)
  then show ?thesis
    by (intro runs_mono [OF write_signature_spec [OF assms]])
       (auto simp: works_def signature_at_def split: option.splits)
qed

theorem write_signature_correct_witness:
  "runs (nmbm_write_signature demo_kernel demo 20 (signature demo)) (\<lambda>(r, t). degrades demo t
    \<and> (case r of
        Some b \<Rightarrow> 20 < b \<and> b < block_count demo \<and> good t b
          \<and> ngood t (Suc b) (block_count demo) = 0
      | None \<Rightarrow> ngood t (Suc 20) (block_count demo) = 0))"
  by (rule write_signature_correct [OF demo_ok]) (simp add: demo_defs)

section \<open>Under the front end\<close>



text \<open>
  Asking whether a block is bad, which remaps it when it is, and marking one bad end for
  every behaviour of the driver and keep the instance in order.
\<close>

theorem bad_marks_over_nmbm:
  assumes "attached_ok s" "ofs div 2 ^ blk_shift s < 65536"
  shows "runs (mtk_bmt_block_isbad K (mtk_bmt_nmbm_ops E) s ofs) (\<lambda>(r, t). attached_ok t \<and> same_shape s t)
    \<and> runs (mtk_bmt_block_markbad K (mtk_bmt_nmbm_ops E) s ofs) (\<lambda>(r, t). attached_ok t \<and> same_shape s t)"
  using nm.isbad_ok [OF assms] nm.markbad_ok [OF assms] by (auto simp: runs_def keeps_def)

theorem bad_marks_over_nmbm_witness:
  "runs (mtk_bmt_block_isbad demo_kernel (mtk_bmt_nmbm_ops demo_kernel) demo 384)
     (\<lambda>(r, t). attached_ok t \<and> same_shape demo t)
   \<and> runs (mtk_bmt_block_markbad demo_kernel (mtk_bmt_nmbm_ops demo_kernel) demo 384)
     (\<lambda>(r, t). attached_ok t \<and> same_shape demo t)"
  by (rule bad_marks_over_nmbm [OF demo_attached]) (simp add: demo_defs)

end
