(* ===== verification/Bbt_Map.thy ===== *)
theory Bbt_Map
  imports Bmt_Bbt
begin

text \<open>
  The mapping of the BBT manager: the logical blocks of a range go to its good blocks in order,
  and those for which none is left to its bad blocks in order, so the mapping permutes the
  range. Without a configured range it is the identity.
\<close>

section \<open>The table\<close>

definition bbad :: "('d, 'z) bmtd_scheme \<Rightarrow> nat \<Rightarrow> bool" where
  "bbad s b \<longleftrightarrow> bbt_buf s ! (b div 4) AND push_bit ((b mod 4) * 2) 3 \<noteq> 0"

lemma block_is_bad_eq:
  "b < 4 * length (bbt_buf s) \<Longrightarrow> bbt_block_is_bad s b = Some (bbad s b)"
  by (simp add: bbt_block_is_bad_def aget_def bbad_def less_mult_imp_div_less mult.commute)

lemma mask3_byte: "(3 :: byte) = mask 2"
  by (simp add: mask_eq_exp_minus_1)

lemma bbad_field_same:
  assumes "i < 4"
  shows "(u OR push_bit (i * 2) (3 :: byte)) AND push_bit (i * 2) 3 \<noteq> 0"
    "(u AND NOT (push_bit (i * 2) (3 :: byte))) AND push_bit (i * 2) 3 = 0"
proof -
  have "bit ((u OR push_bit (i * 2) (3 :: byte)) AND push_bit (i * 2) 3) (i * 2)"
    unfolding mask3_byte using assms by (simp add: bit_simps)
  then show "(u OR push_bit (i * 2) (3 :: byte)) AND push_bit (i * 2) 3 \<noteq> 0" by auto
  show "(u AND NOT (push_bit (i * 2) (3 :: byte))) AND push_bit (i * 2) 3 = 0"
    by (rule bit_eqI) (auto simp: bit_simps)
qed

lemma bbad_field_other:
  assumes "i \<noteq> j"
  shows "(u OR push_bit (i * 2) (3 :: byte)) AND push_bit (j * 2) 3 = u AND push_bit (j * 2) 3"
    "(u AND NOT (push_bit (i * 2) (3 :: byte))) AND push_bit (j * 2) 3 = u AND push_bit (j * 2) 3"
proof -
  have d: "\<not> (bit (push_bit (i * 2) (3 :: byte)) n \<and> bit (push_bit (j * 2) (3 :: byte)) n)" for n
    unfolding mask3_byte using assms by (auto simp: bit_simps)
  show "(u OR push_bit (i * 2) (3 :: byte)) AND push_bit (j * 2) 3 = u AND push_bit (j * 2) 3"
    "(u AND NOT (push_bit (i * 2) (3 :: byte))) AND push_bit (j * 2) 3 = u AND push_bit (j * 2) 3"
    using d by (auto intro!: bit_eqI simp: bit_and_iff bit_or_iff bit_not_iff)
qed

lemma update_block_spec:
  assumes "b < 4 * length (bbt_buf s)"
  shows "runs (bbt_update_block s b bad) (\<lambda>t. \<exists>buf. t = s\<lparr>bbt_buf := buf\<rparr>
    \<and> length buf = length (bbt_buf s) \<and> (\<forall>c. bbad t c = (if c = b then bad else bbad s c)))"
proof -
  have b: "b div 4 < length (bbt_buf s)"
    using assms by (simp add: less_mult_imp_div_less mult.commute)
  let ?m = "push_bit ((b mod 4) * 2) (3 :: byte)"
  let ?v = "if bad then bbt_buf s ! (b div 4) OR ?m else bbt_buf s ! (b div 4) AND NOT ?m"
  have "((bbt_buf s)[b div 4 := ?v] ! (c div 4) AND push_bit ((c mod 4) * 2) 3 \<noteq> 0)
      = (if c = b then bad else bbad s c)" for c
  proof (cases "c = b")
    case True
    then show ?thesis using b bbad_field_same [of "b mod 4"] by simp
  next
    case False
    show ?thesis
    proof (cases "c div 4 = b div 4")
      case True
      then have "b mod 4 \<noteq> c mod 4" using False by (metis div_mult_mod_eq)
      then show ?thesis using True False b bbad_field_other [of "b mod 4" "c mod 4"]
        by (simp add: bbad_def)
    next
      case d: False
      then show ?thesis using False by (simp add: bbad_def)
    qed
  qed
  then show ?thesis using b by (auto simp: bbt_update_block_def vcg bbad_def Let_def)
qed

interpretation bbt_states: block_table
    bbt_block_is_bad "\<lambda>s b v. bbt_update_block s b v" "\<lambda>s b. b < 4 * length (bbt_buf s)" "\<lambda>_. True"
proof unfold_locales
  fix s :: "('a, 'b) bmtd_scheme" and b
  assume "b < 4 * length (bbt_buf s)"
  then show "runs (bbt_block_is_bad s b) (\<lambda>_. True)" by (simp add: block_is_bad_eq)
next
  fix s :: "('a, 'b) bmtd_scheme" and b v
  assume b: "b < 4 * length (bbt_buf s)"
  show "runs (bbt_update_block s b v) (\<lambda>t. bbt_block_is_bad t b = Some v
      \<and> (\<forall>c. c < 4 * length (bbt_buf s) \<longrightarrow> c \<noteq> b \<longrightarrow> bbt_block_is_bad t c = bbt_block_is_bad s c)
      \<and> (\<lambda>c. c < 4 * length (bbt_buf t)) = (\<lambda>c. c < 4 * length (bbt_buf s)))"
    by (rule runs_mono [OF update_block_spec [OF b, of v]]) (use b in \<open>auto simp: block_is_bad_eq\<close>)
qed

section \<open>The mapping\<close>

definition ranked :: "('d, 'z) bmtd_scheme \<Rightarrow> nat \<Rightarrow> nat \<Rightarrow> nat list" where
  "ranked s st en = filter (\<lambda>b. \<not> bbad s b) [st..<en] @ filter (bbad s) [st..<en]"

text \<open>The blocks of the range in the order they are handed out are the blocks of the range.\<close>

lemma ranked_perm: "set (ranked s st en) = {st..<en}" "length (ranked s st en) = en - st"
  "distinct (ranked s st en)"
proof -
  show "set (ranked s st en) = {st..<en}" by (auto simp: ranked_def)
  have "length (ranked s st en) = length [st..<en]"
    unfolding ranked_def length_append by (subst add.commute) (rule sum_length_filter_compl)
  then show "length (ranked s st en) = en - st" by simp
  show "distinct (ranked s st en)" by (auto simp: ranked_def)
qed

lemma u16_nat: "n < 65536 \<Longrightarrow> u16 (int n) = n"
  by simp

lemma skip_loop_eq:
  assumes "en \<le> 65536" "en \<le> 4 * length (bbt_buf s)" "i \<le> en" "ofs < 65536"
  shows "bbt_skip_loop s (int i) (int en) (int ofs) b =
    (let gs = filter (\<lambda>b. \<not> bbad s b) [i..<en]
     in if ofs < length gs then Some (int (gs ! ofs), 0, b + int (length (filter (bbad s) [i..<gs ! ofs])))
        else Some (int en, int (ofs - length gs), b + int (length (filter (bbad s) [i..<en]))))"
  using assms(3,4)
proof (induction "en - i" arbitrary: i ofs b)
  case 0
  then show ?case by (subst bbt_skip_loop.simps) simp
next
  case (Suc k)
  have lt: "i < en" and k: "k = en - Suc i" using Suc.hyps(2) by auto
  have bad: "bbt_block_is_bad s (u16 (int i)) = Some (bbad s i)"
    using lt assms(1,2) by (simp add: block_is_bad_eq)
  have nx: "int i + 1 = int (Suc i)" by simp
  have up: "[i..<en] = i # [Suc i..<en]" using lt by (rule upt_conv_Cons)
  have up2: "[i..<filter (\<lambda>b. \<not> bbad s b) [Suc i..<en] ! n]
      = i # [Suc i..<filter (\<lambda>b. \<not> bbad s b) [Suc i..<en] ! n]"
    if "n < length (filter (\<lambda>b. \<not> bbad s b) [Suc i..<en])" for n
    using nth_mem [OF that] by (intro upt_conv_Cons) auto
  note step = bbt_skip_loop.simps [of s "int i" "int en" "int ofs" b]
  show ?case
  proof (cases "bbad s i")
    case True
    have "bbt_skip_loop s (int i) (int en) (int ofs) b
        = bbt_skip_loop s (int (Suc i)) (int en) (int ofs) (b + 1)"
      using step bad True lt by (simp add: nx)
    then show ?thesis
      using Suc.hyps(1) [OF k, of ofs "b + 1"] True Suc.prems lt up up2 [of ofs]
      by (auto simp: Let_def)
  next
    case False
    show ?thesis
    proof (cases ofs)
      case 0
      then show ?thesis using step bad False lt up by simp
    next
      case (Suc o')
      have "s32 (int ofs - 1) = int o'" using Suc Suc.prems(2) by simp
      then have "bbt_skip_loop s (int i) (int en) (int ofs) b
          = bbt_skip_loop s (int (Suc i)) (int en) (int o') b"
        using step bad False lt Suc by (simp add: nx)
      then show ?thesis
        using Suc.hyps(1) [OF k, of o' b] False Suc Suc.prems lt up up2 [of o']
        by (auto simp: Let_def)
    qed
  qed
qed

lemma overflow_loop_eq:
  assumes "en \<le> 65536" "en \<le> 4 * length (bbt_buf s)"
    "ofs < length (filter (bbad s) [st..<en])"
  shows "bbt_overflow_loop s (int en - 1) (int ofs) (int (length (filter (bbad s) [st..<en])))
    = Some (Some (int (filter (bbad s) [st..<en] ! ofs)))"
  using assms
proof (induction en)
  case (Suc e)
  have st: "st \<le> e" using Suc.prems(3) by (cases "st \<le> e") auto
  have bad: "bbt_block_is_bad s (u16 (int e)) = Some (bbad s e)"
    using Suc.prems by (simp add: block_is_bad_eq)
  have nx: "int (Suc e) - 1 = int e" by simp
  have pr: "s32 (int e - 1) = int e - 1" using Suc.prems by simp
  have up: "filter (bbad s) [st..<Suc e] = filter (bbad s) [st..<e] @ (if bbad s e then [e] else [])"
    using st by simp
  let ?n = "length (filter (bbad s) [st..<e])"
  show ?case
  proof (cases "bbad s e")
    case True
    show ?thesis
    proof (cases "ofs = ?n")
      case t: True
      then show ?thesis unfolding nx
        using bad True up by (subst bbt_overflow_loop.simps) simp
    next
      case False
      then have "ofs < ?n" using Suc.prems(3) up True by simp
      then show ?thesis unfolding nx
        using bad True up Suc.IH Suc.prems pr
        by (subst bbt_overflow_loop.simps) (simp add: nth_append)
    qed
  next
    case False
    then show ?thesis unfolding nx
      using bad up Suc.IH Suc.prems pr
      by (subst bbt_overflow_loop.simps) auto
  qed
qed simp

lemma get_mapping_eq:
  assumes r: "mapping_block_in_range s (int b) = Some (int lo, int hi)"
    and d: "st = lo div 2 ^ blk_shift s" "en = hi div 2 ^ blk_shift s"
    and b: "st \<le> b" "b < en" "en \<le> 65536" "en \<le> 4 * length (bbt_buf s)"
  shows "get_mapping_block_index_bbt s (int b) = Some (int (ranked s st en ! (b - st)))"
proof -
  let ?gs = "filter (\<lambda>b. \<not> bbad s b) [st..<en]" and ?bs = "filter (bbad s) [st..<en]"
  have len: "length ?gs + length ?bs = en - st"
    using ranked_perm(2) [of s st en] by (simp add: ranked_def)
  have se: "int lo div 2 ^ blk_shift s = int st" "int hi div 2 ^ blk_shift s = int en"
    unfolding d by (simp_all add: zdiv_int)
  have ofs: "s32 (int b - int st) = int (b - st)" using b by simp
  have sk: "bbt_skip_loop s (int st) (int en) (int (b - st)) 0 =
    (if b - st < length ?gs then Some (int (?gs ! (b - st)), 0, int (length (filter (bbad s) [st..<?gs ! (b - st)])))
     else Some (int en, int (b - st - length ?gs), int (length ?bs)))"
    using skip_loop_eq [of en s st "b - st" 0] b by (simp add: Let_def)
  show ?thesis
  proof (cases "b - st < length ?gs")
    case True
    then have "?gs ! (b - st) \<in> set ?gs" by (rule nth_mem)
    then have "?gs ! (b - st) < en" by simp
    then show ?thesis
      using True sk by (simp add: get_mapping_block_index_bbt_def r se ofs Let_def ranked_def nth_append)
  next
    case False
    then have o: "b - st - length ?gs < length ?bs" using len b by linarith
    have "s32 (int en - 1) = int en - 1" using b by simp
    moreover have "ranked s st en ! (b - st) = ?bs ! (b - st - length ?gs)"
      using False by (simp add: ranked_def nth_append)
    ultimately show ?thesis
      using False sk overflow_loop_eq [OF b(3,4) o]
      by (simp add: get_mapping_block_index_bbt_def r se ofs Let_def)
  qed
qed

text \<open>
  Without a range in the device tree the bounds are \<open>0\<close> and the number of blocks, which are
  shifted as if they were addresses: nothing is ever skipped.
\<close>

lemma get_mapping_identity:
  assumes "remap_range s = []" "total_blks s < 2 ^ blk_shift s" "0 \<le> block" "block < 2147483648"
  shows "get_mapping_block_index_bbt s block = Some block"
proof -
  have "int (total_blks s) div 2 ^ blk_shift s = 0"
    using zdiv_int [of "total_blks s" "2 ^ blk_shift s"] div_less [OF assms(2)] by simp
  moreover have "bbt_overflow_loop s i ofs 0 = Some None" for i ofs
    by (subst bbt_overflow_loop.simps) simp
  moreover have "bbt_skip_loop s 0 0 ofs 0 = Some (0, ofs, 0)" for ofs
    by (subst bbt_skip_loop.simps) simp
  ultimately show ?thesis
    using assms by (simp add: get_mapping_block_index_bbt_def mapping_block_in_range_def Let_def)
qed

end
