(* ===== verification/Bbt_Manager.thy ===== *)
theory Bbt_Manager
  imports Bbt_Map Bmt_Disk
begin

text \<open>
  The BBT manager keeps the front end's contract when its table covers the chip and the ranges
  of the device tree are ranges of whole blocks within it.
\<close>

definition bbt_range_ok :: "('d, 'z) bmtd_scheme \<Rightarrow> nat \<times> nat \<Rightarrow> bool" where
  "bbt_range_ok s r \<longleftrightarrow> snd r < 2147483648 \<and> snd r \<le> total_blks s * 2 ^ blk_shift s
     \<and> snd r mod 2 ^ blk_shift s = 0"

definition bbt_ok :: "('d, 'z) bmtd_scheme \<Rightarrow> bool" where
  "bbt_ok s \<longleftrightarrow> total_blks s < 65536 \<and> total_blks s * 2 ^ blk_shift s \<le> 4294967296
     \<and> total_blks s \<le> 4 * length (bbt_buf s)
     \<and> u32_of (int (bmt_pgs s) * 2 ^ pg_shift s) \<le> length (bbt_buf s)
     \<and> (remap_range s = [] \<longrightarrow> total_blks s < 2 ^ blk_shift s)
     \<and> (\<forall>r \<in> set (remap_range s). bbt_range_ok s r)"

lemma range_search_mem:
  "range_search rs a = Some p \<Longrightarrow>
     \<exists>r \<in> set rs. fst r \<le> a \<and> a < snd r \<and> p = (s32 (int (fst r)), s32 (int (snd r)))"
  by (induction rs a rule: range_search.induct) (auto split: if_splits)

lemma range_search_none:
  "range_search rs a = None \<Longrightarrow> (lo, hi) \<in> set rs \<Longrightarrow> a < lo \<or> hi \<le> a"
  by (induction rs a rule: range_search.induct) (auto split: if_splits)

lemma bbt_in_range:
  assumes "bbt_ok s" "b < total_blks s" "mapping_block_in_range s (int b) = Some p"
    "remap_range s \<noteq> []"
  obtains lo hi where "p = (int lo, int hi)" "lo div 2 ^ blk_shift s \<le> b" "b < hi div 2 ^ blk_shift s"
    "hi div 2 ^ blk_shift s \<le> total_blks s" "(lo, hi) \<in> set (remap_range s)"
proof -
  let ?z = "2 ^ blk_shift s :: nat"
  have "b * ?z < total_blks s * ?z" using assms(2) by simp
  also have "\<dots> \<le> 4294967296" using assms(1) by (simp add: bbt_ok_def)
  finally have "b * ?z < 4294967296" .
  then have "u32_of (int (b * ?z)) = b * ?z" by (simp del: of_nat_mult)
  then obtain lo hi where r: "(lo, hi) \<in> set (remap_range s)" "lo \<le> b * ?z" "b * ?z < hi"
      "p = (s32 (int lo), s32 (int hi))"
    using assms(3,4) range_search_mem [of "remap_range s" "b * ?z" p]
    by (fastforce simp: mapping_block_in_range_def)
  then have h: "hi < 2147483648" "hi \<le> total_blks s * ?z" "hi mod ?z = 0"
    using assms(1) by (auto simp: bbt_ok_def bbt_range_ok_def)
  have "lo div ?z \<le> b" using div_le_mono [OF r(2), of ?z] by simp
  moreover obtain k where k: "hi = k * ?z" using h(3) by (auto simp: mod_eq_0_iff_dvd dvd_def mult.commute)
  then have "b < hi div ?z" "hi div ?z \<le> total_blks s" using r(3) h(2) by simp_all
  moreover have "p = (int lo, int hi)" using r h by simp
  ultimately show ?thesis using r(1) that by blast
qed

text \<open>
  Where a block goes when there are ranges: a block of none of them stays, a block of a range goes
  to one of the same range.
\<close>

lemma bbt_where:
  assumes "bbt_ok s" "b < total_blks s" "remap_range s \<noteq> []"
  obtains (outside) "get_mapping_block_index_bbt s (int b) = Some (int b)"
      "\<And>lo hi. (lo, hi) \<in> set (remap_range s) \<Longrightarrow> b * 2 ^ blk_shift s < lo \<or> hi \<le> b * 2 ^ blk_shift s"
    | (inside) lo hi st en where "(lo, hi) \<in> set (remap_range s)"
      "st = lo div 2 ^ blk_shift s" "en = hi div 2 ^ blk_shift s" "st \<le> b" "b < en"
      "get_mapping_block_index_bbt s (int b) = Some (int (ranked s st en ! (b - st)))"
      "st \<le> ranked s st en ! (b - st)" "ranked s st en ! (b - st) < en" "en \<le> total_blks s"
proof (cases "mapping_block_in_range s (int b)")
  case None
  let ?z = "2 ^ blk_shift s :: nat"
  have "b * ?z < total_blks s * ?z" using assms(2) by simp
  also have "\<dots> \<le> 4294967296" using assms(1) by (simp add: bbt_ok_def)
  finally have "u32_of (int (b * ?z)) = b * ?z" by (simp del: of_nat_mult)
  then have "range_search (remap_range s) (b * ?z) = None"
    using None assms(3) by (simp add: mapping_block_in_range_def)
  then show ?thesis
    using None by (intro outside) (auto simp: get_mapping_block_index_bbt_def range_search_none)
next
  case (Some p)
  then obtain lo hi where r: "p = (int lo, int hi)" "lo div 2 ^ blk_shift s \<le> b"
    "b < hi div 2 ^ blk_shift s" "hi div 2 ^ blk_shift s \<le> total_blks s" "(lo, hi) \<in> set (remap_range s)"
    using bbt_in_range [OF assms(1,2) _ assms(3)] by metis
  let ?st = "lo div 2 ^ blk_shift s" and ?en = "hi div 2 ^ blk_shift s"
  have eq: "get_mapping_block_index_bbt s (int b) = Some (int (ranked s ?st ?en ! (b - ?st)))"
    using Some r assms(1) by (intro get_mapping_eq) (auto simp: bbt_ok_def)
  have "ranked s ?st ?en ! (b - ?st) \<in> {?st..<?en}"
    unfolding ranked_perm(1) [of s, symmetric] by (rule nth_mem) (use r in \<open>simp add: ranked_perm(2)\<close>)
  then show ?thesis using r by (intro inside [OF r(5) refl refl r(2,3) eq]) simp_all
qed

lemma bbt_lookup:
  assumes "bbt_ok s" "b < total_blks s"
  shows "runs (get_mapping_block_index_bbt s (int b)) (\<lambda>p. 0 \<le> p \<and> p < int (total_blks s))"
proof (cases "remap_range s = []")
  case True
  have "get_mapping_block_index_bbt s (int b) = Some (int b)"
    by (rule get_mapping_identity [OF True]) (use assms True in \<open>auto simp: bbt_ok_def\<close>)
  then show ?thesis using assms(2) by simp
next
  case False
  show ?thesis
    by (cases rule: bbt_where [OF assms False]) (use assms(2) in auto)
qed

lemma bbt_ok_same:
  assumes "same_shape s t" "bmt_pgs t = bmt_pgs s" "length (bbt_buf t) = length (bbt_buf s)"
  shows "bbt_ok t = bbt_ok s"
  using assms unfolding same_shape_def by (simp add: bbt_ok_def bbt_range_ok_def)

lemma io_only_bbt:
  assumes "io_only s t"
  shows "bmt_pgs t = bmt_pgs s" "bbt_buf t = bbt_buf s" "same_shape s t"
proof -
  obtain d b where "t = s\<lparr>dev := d, data_buf := b\<rparr>" using assms unfolding io_only_def by blast
  then show "bmt_pgs t = bmt_pgs s" "bbt_buf t = bbt_buf s" "same_shape s t"
    using io_only_shape [OF assms] by simp_all
qed

lemma write_bmt_io:
  assumes "u32_of (int (bmt_pgs s) * 2 ^ pg_shift s) \<le> length dat"
  shows "runs (write_bmt E sig s b dat) (\<lambda>(r, t). io_only s t)"
  using assms by (simp add: write_bmt_def vcg case_prod_beta)

lemma bbt_store_io:
  assumes "bbt_ok s"
  shows "runs (bbt_store E s) (\<lambda>t. io_only s t)"
proof -
  obtain r t where t: "bbt_nand_erase E s (bmt_blk_idx s) = (r, t)" by fastforce
  have io: "io_only s t" using bbt_nand_erase_io [of s E "bmt_blk_idx s"] t by simp
  have "bbt_ok t" using bbt_ok_same io_only_bbt [OF io] assms by metis
  then have "runs (write_bmt E bbt_sig t b (bbt_buf t)) (\<lambda>(r, u). io_only s u)" for b
    by (intro runs_mono [OF write_bmt_io]) (auto simp: bbt_ok_def intro: io_only_trans [OF io])
  then have "runs (write_bmt E bbt_sig t b (bbt_buf t)) (\<lambda>x. io_only s (snd x))" for b
    by (simp add: case_prod_unfold)
  then show ?thesis by (simp add: bbt_store_def t runs_bind case_prod_beta)
qed

text \<open>Marking a block changes the state of that block in the table, and stores the table.\<close>

lemma set_block_state_spec:
  assumes "bbt_ok s" "b < total_blks s"
  shows "runs (bbt_set_block_state E s b bad) (\<lambda>t. bbt_ok t \<and> same_shape s t
    \<and> (\<forall>c. bbad t c = (if c = b then bad else bbad s c)))"
  unfolding bbt_set_block_state_def
proof (rule runs_bindI [OF update_block_spec], goal_cases)
  case 1
  then show ?case using assms by (simp add: bbt_ok_def)
next
  case (2 u)
  then obtain buf where u: "u = s\<lparr>bbt_buf := buf\<rparr>" "length buf = length (bbt_buf s)" by blast
  have bb: "\<forall>c. bbad u c = (if c = b then bad else bbad s c)" using 2 by blast
  have sh: "same_shape s u" by (simp add: u same_shape_def)
  have ok: "bbt_ok u" using bbt_ok_same [OF sh] u assms(1) by simp
  show ?case
  proof (rule runs_mono [OF bbt_store_io [OF ok]], intro conjI)
    fix t assume io: "io_only u t"
    note f = io_only_bbt [OF io]
    have bbad_same: "bbad t = bbad u" using f(2) by (simp add: bbad_def fun_eq_iff)
    show "bbt_ok t" using bbt_ok_same [OF f(3)] f ok by simp
    show "same_shape s t" by (rule same_shape_trans [OF sh f(3)])
    show "\<forall>c. bbad t c = (if c = b then bad else bbad s c)"
      using bb unfolding bbad_same .
  qed
qed

text \<open>
  Remapping a block marks the block it was mapped to as bad; the lookup then gives the next
  good block of the range.
\<close>

lemma remap_bbt_spec:
  assumes "bbt_ok s" "b < total_blks s" "p < total_blks s"
  shows "runs (remap_block_bbt E s b p len) (\<lambda>(r, t). bbt_ok t \<and> same_shape s t
    \<and> r = (mapping_block_in_range s (int b) \<noteq> None)
    \<and> (\<forall>c. bbad t c = (if r \<and> c = p then True else bbad s c)))"
proof (cases "mapping_block_in_range s (int b)")
  case None
  then show ?thesis using assms(1) by (simp add: remap_block_bbt_def)
next
  case (Some r)
  show ?thesis
    unfolding remap_block_bbt_def Some option.case
  proof (rule runs_bindI [OF set_block_state_spec [OF assms(1,3)]], goal_cases)
    case (1 t)
    then have b: "b < total_blks t" using assms(2) by (simp add: same_shape_def)
    show ?case
    proof (rule runs_bindI [OF bbt_lookup [OF _ b]], goal_cases)
      case 1
      show ?case using \<open>bbt_ok t \<and> _\<close> by simp
    next
      case (2 q)
      define v where "v = snd (bbt_nand_erase E t (u16 q))"
      define w where "w = snd (if len > 0 then bbt_nand_copy E v (u16 q) p len else (0, v))"
      have "io_only t v" by (simp add: v_def bbt_nand_erase_io)
      moreover have "io_only v w" by (simp add: w_def bbt_nand_copy_io)
      ultimately have io: "io_only t w" by (rule io_only_trans)
      note f = io_only_bbt [OF io]
      have "bbad w = bbad t" using f(2) by (simp add: bbad_def fun_eq_iff)
      moreover have "bbt_ok w" using bbt_ok_same [OF f(3)] f 1 by simp
      moreover have "same_shape s w" using 1 f(3) by (blast intro: same_shape_trans)
      ultimately show ?case
        using 1 by (cases "len > 0") (simp_all add: Let_def case_prod_beta v_def w_def)
    qed
  qed
qed

lemma is_bad_dev [simp]: "bbt_block_is_bad (s\<lparr>dev := d\<rparr>) = bbt_block_is_bad s"
  by (simp add: bbt_block_is_bad_def fun_eq_iff)

lemma skip_loop_dev: "bbt_skip_loop (s\<lparr>dev := d\<rparr>) i e ofs bad = bbt_skip_loop s i e ofs bad"
proof (induction s i e ofs bad rule: bbt_skip_loop.induct)
  case (1 s i e ofs bad)
  then show ?case
    by (subst (1 2) bbt_skip_loop.simps) (auto intro!: bind_option_cong)
qed

lemma overflow_loop_dev_le:
  "bbt_overflow_loop s i ofs bad = Some r \<Longrightarrow> bbt_overflow_loop (s\<lparr>dev := d\<rparr>) i ofs bad = Some r"
proof (induction rule: bbt_overflow_loop.raw_induct [rotated 1, consumes 1, case_names step])
  case (step loop s i ofs bad)
  then show ?case
    by (subst bbt_overflow_loop.simps) (auto split: if_splits bind_splits)
qed

lemma overflow_loop_dev: "bbt_overflow_loop (s\<lparr>dev := d\<rparr>) i ofs bad = bbt_overflow_loop s i ofs bad"
  using overflow_loop_dev_le [of s i ofs bad _ d]
    overflow_loop_dev_le [of "s\<lparr>dev := d\<rparr>" i ofs bad _ "dev s"]
  by (cases "bbt_overflow_loop s i ofs bad"; cases "bbt_overflow_loop (s\<lparr>dev := d\<rparr>) i ofs bad") simp_all

lemma dev_fields: "remap_range (s\<lparr>dev := d\<rparr>) = remap_range s"
  "blk_shift (s\<lparr>dev := d\<rparr>) = blk_shift s" "total_blks (s\<lparr>dev := d\<rparr>) = total_blks s"
  by simp_all

lemma lookup_bbt_dev:
  "get_mapping_block_index_bbt (s\<lparr>dev := d\<rparr>) b = get_mapping_block_index_bbt s b"
  unfolding get_mapping_block_index_bbt_def mapping_block_in_range_def skip_loop_dev
    overflow_loop_dev dev_fields ..

interpretation bbt: manager "mtk_bmt_bbt_ops E" bbt_ok "\<lambda>s. min (total_blks s) 65536"
proof (unfold_locales, goal_cases)
  case (1 s d)
  then show ?case by (simp add: bbt_ok_def bbt_range_ok_def)
next
  case (2 d s i)
  then show ?case by (simp add: mtk_bmt_bbt_ops_def lookup_bbt_dev)
next
  case (3 s b)
  then have b: "b < total_blks s" by simp
  have "runs (get_mapping_block_index_bbt s (int b)) (\<lambda>p. p < 65536)"
    by (rule runs_mono [OF bbt_lookup [OF 3(1) b]]) (use 3(1) in \<open>auto simp: bbt_ok_def\<close>)
  then show ?case by (simp add: mtk_bmt_bbt_ops_def)
next
  case (4 s b p len)
  then have b: "b < total_blks s" by simp
  have p: "0 \<le> p" "p < int (total_blks s)"
    using bbt_lookup [OF 4(1) b] 4(3) by (simp_all add: mtk_bmt_bbt_ops_def)
  then have "u16 p < total_blks s" using 4(1) by (simp add: bbt_ok_def)
  then show ?case
    using remap_bbt_spec [OF 4(1) b, of "u16 p" E len]
    by (auto simp: mtk_bmt_bbt_ops_def keeps_def elim!: runs_mono)
qed (auto simp: same_shape_def)

section \<open>Every block has a place of its own\<close>

text \<open>
  When the ranges start at block boundaries and do not overlap, no two blocks are mapped to the same
  one, so the BBT manager presents an ideal disk.
\<close>

definition bbt_apart :: "('d, 'z) bmtd_scheme \<Rightarrow> bool" where
  "bbt_apart s \<longleftrightarrow> bbt_ok s \<and> (\<forall>(lo, hi) \<in> set (remap_range s). lo mod 2 ^ blk_shift s = 0
     \<and> (\<forall>(lo', hi') \<in> set (remap_range s). (lo, hi) = (lo', hi') \<or> hi \<le> lo' \<or> hi' \<le> lo))"

lemma bbt_apart_range:
  assumes "bbt_apart s" "(lo, hi) \<in> set (remap_range s)"
    "lo div 2 ^ blk_shift s \<le> b" "b < hi div 2 ^ blk_shift s"
  shows "lo \<le> b * 2 ^ blk_shift s" "b * 2 ^ blk_shift s < hi"
proof -
  have "lo mod 2 ^ blk_shift s = 0" using assms(1,2) unfolding bbt_apart_def by blast
  then have "lo = lo div 2 ^ blk_shift s * 2 ^ blk_shift s" by (metis add.right_neutral div_mult_mod_eq)
  then show "lo \<le> b * 2 ^ blk_shift s" using assms(3) by (metis mult_le_mono1)
  have "Suc b * 2 ^ blk_shift s \<le> hi div 2 ^ blk_shift s * 2 ^ blk_shift s"
    using assms(4) by (intro mult_le_mono1) simp
  also have "\<dots> \<le> hi" by simp
  finally show "b * 2 ^ blk_shift s < hi" by (simp add: less_le_trans [rotated])
qed

lemma bbt_apart_same:
  assumes "bbt_apart s" "(lo, hi) \<in> set (remap_range s)" "(lo', hi') \<in> set (remap_range s)"
    "lo div 2 ^ blk_shift s \<le> b" "b < hi div 2 ^ blk_shift s"
    "lo' div 2 ^ blk_shift s \<le> b" "b < hi' div 2 ^ blk_shift s"
  shows "lo = lo'" "hi = hi'"
proof -
  have "(lo, hi) = (lo', hi') \<or> hi \<le> lo' \<or> hi' \<le> lo"
    using assms(1-3) unfolding bbt_apart_def by blast
  then show "lo = lo'" "hi = hi'"
    using bbt_apart_range [OF assms(1,2,4,5)] bbt_apart_range [OF assms(1,3,6,7)] by auto
qed

lemma bbt_lookup_inj:
  assumes "bbt_apart s" "b < total_blks s" "c < total_blks s"
    "get_mapping_block_index_bbt s (int b) = Some p" "get_mapping_block_index_bbt s (int c) = Some p"
  shows "b = c"
proof (cases "remap_range s = []")
  case True
  then show ?thesis
    using assms get_mapping_identity [OF True, of "int b"] get_mapping_identity [OF True, of "int c"]
    by (simp add: bbt_apart_def bbt_ok_def)
next
  case ne: False
  have ok: "bbt_ok s" using assms(1) by (simp add: bbt_apart_def)
  show ?thesis
  proof (cases rule: bbt_where [OF ok assms(2) ne, case_names outside inside])
    case b: outside
    show ?thesis
    proof (cases rule: bbt_where [OF ok assms(3) ne, case_names outside inside])
      case outside
      then show ?thesis using b assms(4,5) by simp
    next
      case c: (inside lo hi st en)
      then show ?thesis
        using b assms(4,5) bbt_apart_range [OF assms(1) c(1), of b] by fastforce
    qed
  next
    case b: (inside lo hi st en)
    show ?thesis
    proof (cases rule: bbt_where [OF ok assms(3) ne, case_names outside inside])
      case c: outside
      then show ?thesis
        using b assms(4,5) bbt_apart_range [OF assms(1) b(1), of c] by fastforce
    next
      case c: (inside lo' hi' st' en')
      have "ranked s st en ! (b - st) = ranked s st' en' ! (c - st')" using b(6) c(6) assms(4,5) by simp
      note x = b(7,8) c(7,8) [folded this]
      have "lo = lo'" "hi = hi'"
        using bbt_apart_same [OF assms(1) b(1) c(1) x(1,2,3,4) [unfolded b(2,3) c(2,3)]] by blast+
      then have st: "st' = st" "en' = en" using b(2,3) c(2,3) by simp_all
      have "ranked s st en ! (b - st) = ranked s st en ! (c - st)"
        using \<open>ranked s st en ! (b - st) = ranked s st' en' ! (c - st')\<close> unfolding st .
      then have "b - st = c - st"
        using ranked_perm [of s st en] b(4,5) c(4,5) by (simp add: nth_eq_iff_index_eq st)
      then show ?thesis using b(4) c(4) st by simp
    qed
  qed
qed

lemma bbt_apart_shape: "same_shape s t \<Longrightarrow> bbt_ok t \<Longrightarrow> bbt_apart s \<Longrightarrow> bbt_apart t"
  by (simp add: bbt_apart_def same_shape_def)

lemma keeps_apart: "bbt_apart s \<Longrightarrow> keeps bbt_ok s x \<Longrightarrow> keeps bbt_apart s x"
  by (auto simp: keeps_def intro: bbt_apart_shape)

interpretation bbt_disk: placement "mtk_bmt_bbt_ops E" bbt_apart "\<lambda>s. min (total_blks s) 65536"
proof (unfold_locales, goal_cases)
  case (1 s d)
  then have "bbt_ok (s\<lparr>dev := d\<rparr>)" by (intro bbt.sound_dev) (simp add: bbt_apart_def)
  then show ?case by (rule bbt_apart_shape [OF _ _ 1, rotated]) simp
next
  case (2 d s i)
  then show ?case by (rule bbt.lookup_dev)
next
  case (3 s b)
  then show ?case by (intro bbt.lookup) (simp_all add: bbt_apart_def)
next
  case (4 s b p len)
  then have "runs (op_remap_block (mtk_bmt_bbt_ops E) s b (u16 p) len) (keeps bbt_ok s)"
    by (intro bbt.remap) (simp_all add: bbt_apart_def)
  then show ?case by (rule runs_mono) (rule keeps_apart [OF 4(1)])
next
  case (7 s b c p)
  then show ?case by (intro bbt_lookup_inj [of s b c p]) (simp_all add: mtk_bmt_bbt_ops_def)
qed (auto simp: same_shape_def)

text \<open>All of the chip is on the disk.\<close>

lemma bbt_placed:
  assumes "bbt_apart s" "b < total_blks s"
  shows "placed_block (mtk_bmt_bbt_ops E) s b"
  using bbt_lookup [of s b] assms
  by (auto simp: placed_block_def bbt_apart_def mtk_bmt_bbt_ops_def runs_def)

lemma bbt_on_disk:
  assumes "bbt_apart s" "a + len \<le> min (total_blks s) 65536 * 2 ^ blk_shift s"
  shows "on_disk (mtk_bmt_bbt_ops E) s a len"
  unfolding on_disk_def
proof clarify
  fix x assume "x < a + len"
  then have "x < total_blks s * 2 ^ blk_shift s"
    using assms(2) mult_le_mono1 [of "min (total_blks s) 65536" "total_blks s" "2 ^ blk_shift s"] by linarith
  then show "placed_block (mtk_bmt_bbt_ops E) s (x div 2 ^ blk_shift s)"
    by (intro bbt_placed [OF assms(1)]) (rule less_mult_imp_div_less)
qed

lemma bbt_covers:
  assumes "x < total_blks s * 2 ^ blk_shift s" "bbt_apart s"
  shows "covers (min (total_blks s) 65536) (mtk_bmt_bbt_ops E) s x"
proof -
  have "x div 2 ^ blk_shift s < total_blks s" using assms(1) by (rule less_mult_imp_div_less)
  moreover have "total_blks s < 65536" using assms(2) by (simp add: bbt_apart_def bbt_ok_def)
  ultimately show ?thesis
    using bbt_placed [OF assms(2), of "x div 2 ^ blk_shift s" E] by (simp add: covers_def)
qed

end
