(* ===== verification/Bbt_Properties.thy ===== *)
theory Bbt_Properties
  imports Bmt_Demo Bbt_Manager
begin

text \<open>The properties of the BBT manager.\<close>

section \<open>The mapping of a range\<close>

lemma single_range:
  assumes "bbt_ok s" "remap_range s = [(lo, hi)]" "lo mod 2 ^ blk_shift s = 0"
    "lo div 2 ^ blk_shift s \<le> b" "b < hi div 2 ^ blk_shift s"
  shows "mapping_block_in_range s (int b) = Some (int lo, int hi)"
proof -
  let ?z = "2 ^ blk_shift s :: nat"
  have h: "hi < 2147483648" "hi mod ?z = 0" using assms(1,2) by (auto simp: bbt_ok_def bbt_range_ok_def)
  have "lo = lo div ?z * ?z" "hi = hi div ?z * ?z" using assms(3) h(2) by auto
  then have "lo \<le> b * ?z" "b * ?z < hi"
    using assms(4,5) by (metis mult_le_mono1, metis mult_less_mono1 zero_less_numeral zero_less_power)
  moreover from this have "b * ?z < 4294967296" using h(1) by simp
  then have "u32_of (int (b * ?z)) = b * ?z" by (simp del: of_nat_mult)
  ultimately show ?thesis using h(1) assms(2) by (simp add: mapping_block_in_range_def)
qed

lemma lookup_single:
  assumes "bbt_ok s" "remap_range s = [(lo, hi)]" "lo mod 2 ^ blk_shift s = 0"
    "lo div 2 ^ blk_shift s \<le> b" "b < hi div 2 ^ blk_shift s"
  shows "get_mapping_block_index_bbt s (int b) =
    Some (int (ranked s (lo div 2 ^ blk_shift s) (hi div 2 ^ blk_shift s) ! (b - lo div 2 ^ blk_shift s)))"
proof -
  have "hi \<le> total_blks s * 2 ^ blk_shift s" using assms(1,2) by (auto simp: bbt_ok_def bbt_range_ok_def)
  then have "hi div 2 ^ blk_shift s \<le> total_blks s"
    using div_le_mono [of hi "total_blks s * 2 ^ blk_shift s" "2 ^ blk_shift s"] by simp
  then show ?thesis
    using assms(1)
    by (intro get_mapping_eq [OF single_range [OF assms]] assms(4,5)) (auto simp: bbt_ok_def)
qed

text \<open>
  C29: the logical blocks of the configured range are mapped, in order, to the good blocks of the
  range and then to its bad ones: the mapping permutes the range.
\<close>

theorem bbt_mapping_permutes:
  assumes "bbt_ok s" "remap_range s = [(lo, hi)]" "lo mod 2 ^ blk_shift s = 0"
    "st = lo div 2 ^ blk_shift s" "en = hi div 2 ^ blk_shift s"
  shows "map (\<lambda>b. get_mapping_block_index_bbt s (int b)) [st..<en] =
    map (\<lambda>b. Some (int b)) (filter (\<lambda>b. \<not> bbad s b) [st..<en] @ filter (bbad s) [st..<en])"
    (is "?l = map _ ?r")
proof -
  have r: "?r = ranked s st en" by (simp add: ranked_def)
  show ?thesis
    unfolding r
  proof (rule nth_equalityI, goal_cases)
    case 1
    then show ?case by (simp add: ranked_perm(2))
  next
    case (2 i)
    then have i: "i < en - st" by simp
    then show ?case
      using lookup_single [OF assms(1-3), of "st + i"] assms(4,5) by (simp add: ranked_perm(2))
  qed
qed

definition demo_bbt :: "unit bmtd" where
  "demo_bbt = demo_desc\<lparr>bbt_buf := 0x0c # replicate 127 0, bmt_pgs := 2, remap_range := [(0, 2048)]\<rparr>"

lemma demo_bbt_ok: "bbt_ok demo_bbt"
  by (simp add: bbt_ok_def bbt_range_ok_def demo_bbt_def demo_desc_defs)

definition demo_disk :: "(nat \<Rightarrow> byte) bmtd" where
  "demo_disk = (chip_desc (\<lambda>a. word_of_nat a))\<lparr>bbt_buf := 0x0c # replicate 127 0, bmt_pgs := 2,
     remap_range := [(0, 2048)]\<rparr>"

lemma demo_disk_apart: "bbt_apart demo_disk"
  by (simp add: bbt_apart_def bbt_ok_def bbt_range_ok_def demo_disk_def chip_desc_def)

theorem bbt_mapping_permutes_witness:
  "map (\<lambda>b. get_mapping_block_index_bbt demo_bbt (int b)) [0..<16] =
    map (\<lambda>b. Some (int b)) (filter (\<lambda>b. \<not> bbad demo_bbt b) [0..<16] @ filter (bbad demo_bbt) [0..<16])"
  by (rule bbt_mapping_permutes [OF demo_bbt_ok, where lo = 0 and hi = 2048])
     (simp_all add: demo_bbt_def demo_desc_defs)

text \<open>
  Without a range in the device tree nothing is ever skipped: every block is mapped to itself,
  bad or not, since the bounds 0 and the number of blocks are shifted as if they were addresses.
\<close>

theorem bbt_no_range_identity:
  assumes "remap_range s = []" "total_blks s < 2 ^ blk_shift s" "0 \<le> block" "block < 2147483648"
  shows "get_mapping_block_index_bbt s block = Some block"
  by (rule get_mapping_identity [OF assms])

theorem bbt_no_range_identity_witness:
  "get_mapping_block_index_bbt (demo_bbt\<lparr>remap_range := []\<rparr>) 1 = Some 1"
  by (rule bbt_no_range_identity) (simp_all add: demo_bbt_def demo_desc_defs)

section \<open>Remapping\<close>

text \<open>
  C39: \<open>remap_block_bbt\<close> returns for every behaviour of the driver. It refuses a block outside the
  ranges and otherwise marks the block it was mapped to as bad, and no other.
\<close>

theorem bbt_remap_correct:
  assumes "bbt_ok s" "b < total_blks s" "p < total_blks s"
  shows "runs (remap_block_bbt E s b p copy_len) (\<lambda>(r, t). bbt_ok t \<and> same_shape s t
    \<and> r = (mapping_block_in_range s (int b) \<noteq> None)
    \<and> (\<forall>c. bbad t c = (if r \<and> c = p then True else bbad s c)))"
  by (rule remap_bbt_spec [OF assms])

theorem bbt_remap_correct_witness:
  "runs (remap_block_bbt demo_kernel demo_bbt 3 4 128) (\<lambda>(r, t). bbt_ok t \<and> same_shape demo_bbt t
    \<and> r = (mapping_block_in_range demo_bbt (int 3) \<noteq> None)
    \<and> (\<forall>c. bbad t c = (if r \<and> c = 4 then True else bbad demo_bbt c)))"
  by (rule bbt_remap_correct [OF demo_bbt_ok]) (simp_all add: demo_bbt_def demo_desc_defs)






end
