(* ===== verification/V2_Tables.thy ===== *)
theory V2_Tables
  imports Bmt_V2
begin

text \<open>
  The two tables of the BMT manager: reading and writing their entries in the buffer, taking a
  block from the pool, storing the tables, and the scan that builds them.
\<close>

section \<open>Entries in the buffer\<close>

lemma set16_same: "set16 buf off v = Some b \<Longrightarrow> v < 65536 \<Longrightarrow> get16 b off = Some v"
  using memget_memput_same [of buf off "le_bytes 2 v" b]
  by (simp add: get16_def set16_def le_nat_le_bytes)

lemma set16_other:
  "set16 buf off v = Some b \<Longrightarrow> o2 + 2 \<le> off \<or> off + 2 \<le> o2 \<Longrightarrow> get16 b o2 = get16 buf o2"
  using memget_memput_other [of buf off "le_bytes 2 v" b o2 2]
  by (simp add: get16_def set16_def)

lemma set16_length: "set16 buf off v = Some b \<Longrightarrow> length b = length buf"
  by (auto simp: set16_def dest: memput_length)

lemma set16_runs: "off + 2 \<le> length buf \<Longrightarrow> \<exists>b. set16 buf off v = Some b"
  by (simp add: set16_def memput_def)

lemma get16_runs:
  assumes "off + 2 \<le> length buf"
  shows "\<exists>v. get16 buf off = Some v \<and> v < 65536"
proof -
  have l: "length (take 2 (drop off buf)) = 2" using assms by simp
  have "le_nat (take 2 (drop off buf)) < 256 ^ length (take 2 (drop off buf))" by (rule le_nat_bound)
  then have "le_nat (take 2 (drop off buf)) < 65536" unfolding l by simp
  then show ?thesis using assms by (simp add: get16_def memget_def)
qed

lemma entries_apart: "j \<noteq> i \<Longrightarrow> a + k * j + 2 \<le> a + k * i \<or> a + k * i + 2 \<le> a + k * (j :: nat)"
  if "2 \<le> k" for k :: nat
proof (cases "j < i")
  case True
  then have "k * Suc j \<le> k * i" by (intro mult_le_mono2) simp
  then show ?thesis using that by simp
next
  case False
  assume "j \<noteq> i"
  with False have "k * Suc i \<le> k * j" by (intro mult_le_mono2) simp
  then show ?thesis using that by simp
qed

text \<open>
  Two states whose buffers have the same length and that agree on everything but the device and
  the buffers; and the entries \<open>n\<close> of the pool that lie in the buffer.
\<close>

definition same_v2 :: "('d, 'z) bmtd_scheme \<Rightarrow> ('d, 'z) bmtd_scheme \<Rightarrow> bool" where
  "same_v2 s t \<longleftrightarrow> t = s\<lparr>dev := dev t, data_buf := data_buf t, bbt_buf := bbt_buf t\<rparr>
     \<and> length (bbt_buf t) = length (bbt_buf s) \<and> length (data_buf t) = length (data_buf s)"

lemma same_v2_refl [simp]: "same_v2 s s"
  by (simp add: same_v2_def)

lemma same_v2_trans: "same_v2 s t \<Longrightarrow> same_v2 t u \<Longrightarrow> same_v2 s u"
  unfolding same_v2_def by (cases s; cases t; cases u) simp

lemma same_v2_buf [simp]: "length b = length (bbt_buf s) \<Longrightarrow> same_v2 s (s\<lparr>bbt_buf := b\<rparr>)"
  by (simp add: same_v2_def)

lemma same_v2_dev [simp]: "same_v2 s (t\<lparr>dev := d\<rparr>) = same_v2 s t"
  unfolding same_v2_def by (cases s; cases t) simp

lemma same_v2_io: "io_only s t \<Longrightarrow> same_v2 s t \<and> bbt_buf t = bbt_buf s"
  unfolding same_v2_def io_only_def by (cases s; cases t) simp

lemma same_v2_fields:
  assumes "same_v2 s t"
  shows "table_size t = table_size s" "total_blks t = total_blks s" "bmt_blk_idx t = bmt_blk_idx s"
    "bmt_pgs t = bmt_pgs s" "pg_shift t = pg_shift s" "pool_lba t = pool_lba s" "bb_max t = bb_max s"
    "length (bbt_buf t) = length (bbt_buf s)" "bmt_off t = bmt_off s" "bbt_set t = bbt_set s"
    "length (data_buf t) = length (data_buf s)"
proof -
  obtain d b c where "t = s\<lparr>dev := d, data_buf := b, bbt_buf := c\<rparr>"
    "length c = length (bbt_buf s)" "length b = length (data_buf s)"
    using assms unfolding same_v2_def by blast
  then show "table_size t = table_size s" "total_blks t = total_blks s"
    "bmt_blk_idx t = bmt_blk_idx s" "bmt_pgs t = bmt_pgs s" "pg_shift t = pg_shift s"
    "pool_lba t = pool_lba s" "bb_max t = bb_max s"
    "length (bbt_buf t) = length (bbt_buf s)" "bmt_off t = bmt_off s" "bbt_set t = bbt_set s"
    "length (data_buf t) = length (data_buf s)"
    by (simp_all add: bmt_off_def)
qed

definition pool_in :: "('d, 'z) bmtd_scheme \<Rightarrow> nat \<Rightarrow> bool" where
  "pool_in s n \<longleftrightarrow> bmt_off s + 4 * n \<le> length (bbt_buf s)"

lemma pool_in_same: "same_v2 s t \<Longrightarrow> pool_in t n = pool_in s n"
  by (simp add: pool_in_def same_v2_fields)

lemma pool_in_mono: "pool_in s n \<Longrightarrow> m \<le> n \<Longrightarrow> pool_in s m"
  by (simp add: pool_in_def)

lemma get_entry_runs:
  assumes "pool_in s n" "i < n"
  shows "\<exists>v. get_block s i = Some v \<and> v < 65536" "\<exists>v. get_mapped s i = Some v \<and> v < 65536"
  using assms get16_runs [of "bmt_off s + 4 * i" "bbt_buf s"]
    get16_runs [of "bmt_off s + 4 * i + 2" "bbt_buf s"]
  by (simp_all add: pool_in_def get_block_def get_mapped_def)

lemma put_block_spec:
  assumes "pool_in s n" "i < n" "v < 65536"
  shows "runs (put_block s i v) (\<lambda>t. same_v2 s t \<and> get_block t i = Some v
    \<and> (\<forall>j. j \<noteq> i \<longrightarrow> get_block t j = get_block s j) \<and> get_mapped t = get_mapped s
    \<and> (\<forall>k < table_size s. get_bb t k = get_bb s k))"
proof -
  obtain b where b: "set16 (bbt_buf s) (bmt_off s + 4 * i) v = Some b"
    using set16_runs [of "bmt_off s + 4 * i" "bbt_buf s" v] assms by (auto simp: pool_in_def)
  have o: "bmt_off (s\<lparr>bbt_buf := b\<rparr>) = bmt_off s" by (simp add: bmt_off_def)
  have "get16 b (bmt_off s + 4 * j) = get16 (bbt_buf s) (bmt_off s + 4 * j)" if "j \<noteq> i" for j
    by (rule set16_other [OF b]) (use entries_apart [OF _ that, of 4 "bmt_off s"] in simp)
  moreover have "get16 b (bmt_off s + 4 * j + 2) = get16 (bbt_buf s) (bmt_off s + 4 * j + 2)" for j
    by (rule set16_other [OF b]) presburger
  moreover have "get16 b (4 + 2 * k) = get16 (bbt_buf s) (4 + 2 * k)" if "k < table_size s" for k
    by (rule set16_other [OF b]) (use that in \<open>simp add: bmt_off_def\<close>)
  ultimately show ?thesis
    using b set16_length [OF b] set16_same [OF b assms(3)]
    by (simp add: put_block_def get_block_def get_mapped_def get_bb_def o fun_eq_iff)
qed

lemma put_mapped_spec:
  assumes "pool_in s n" "i < n" "v < 65536"
  shows "runs (put_mapped s i v) (\<lambda>t. same_v2 s t \<and> get_mapped t i = Some v
    \<and> (\<forall>j. j \<noteq> i \<longrightarrow> get_mapped t j = get_mapped s j) \<and> get_block t = get_block s
    \<and> (\<forall>k < table_size s. get_bb t k = get_bb s k))"
proof -
  obtain b where b: "set16 (bbt_buf s) (bmt_off s + 4 * i + 2) v = Some b"
    using set16_runs [of "bmt_off s + 4 * i + 2" "bbt_buf s" v] assms by (auto simp: pool_in_def)
  have o: "bmt_off (s\<lparr>bbt_buf := b\<rparr>) = bmt_off s" by (simp add: bmt_off_def)
  have "get16 b (bmt_off s + 4 * j + 2) = get16 (bbt_buf s) (bmt_off s + 4 * j + 2)" if "j \<noteq> i" for j
    by (rule set16_other [OF b]) (use entries_apart [OF _ that, of 4 "bmt_off s"] in simp)
  moreover have "get16 b (bmt_off s + 4 * j) = get16 (bbt_buf s) (bmt_off s + 4 * j)" for j
    by (rule set16_other [OF b]) presburger
  moreover have "get16 b (4 + 2 * k) = get16 (bbt_buf s) (4 + 2 * k)" if "k < table_size s" for k
    by (rule set16_other [OF b]) (use that in \<open>simp add: bmt_off_def\<close>)
  ultimately show ?thesis
    using b set16_length [OF b] set16_same [OF b assms(3)]
    by (simp add: put_mapped_def get_block_def get_mapped_def get_bb_def o fun_eq_iff)
qed

lemma put_bb_spec:
  assumes "i < table_size s" "bmt_off s \<le> length (bbt_buf s)" "v < 65536"
  shows "runs (put_bb s i v) (\<lambda>t. same_v2 s t \<and> get_bb t i = Some v
    \<and> (\<forall>j. j \<noteq> i \<longrightarrow> get_bb t j = get_bb s j)
    \<and> get_block t = get_block s \<and> get_mapped t = get_mapped s)"
proof -
  obtain b where b: "set16 (bbt_buf s) (4 + 2 * i) v = Some b"
    using set16_runs [of "4 + 2 * i" "bbt_buf s" v] assms by (auto simp: bmt_off_def)
  have o: "bmt_off (s\<lparr>bbt_buf := b\<rparr>) = bmt_off s" by (simp add: bmt_off_def)
  have "get16 b (4 + 2 * j) = get16 (bbt_buf s) (4 + 2 * j)" if "j \<noteq> i" for j
    by (rule set16_other [OF b]) (use entries_apart [OF _ that, of 2 4] in simp)
  moreover have "get16 b (bmt_off s + 4 * j) = get16 (bbt_buf s) (bmt_off s + 4 * j)"
    "get16 b (bmt_off s + 4 * j + 2) = get16 (bbt_buf s) (bmt_off s + 4 * j + 2)" for j
    by (rule set16_other [OF b], use assms(1) in \<open>simp add: bmt_off_def\<close>)+
  ultimately show ?thesis
    using b set16_length [OF b] set16_same [OF b assms(3)]
    by (simp add: put_bb_def get_block_def get_mapped_def get_bb_def o fun_eq_iff)
qed

section \<open>Taking a block from the pool\<close>

definition free_entry :: "('d, 'z) bmtd_scheme \<Rightarrow> nat \<Rightarrow> bool" where
  "free_entry s i \<longleftrightarrow> get_block s i \<noteq> Some 0 \<and> get_mapped s i = Some NO_MAPPED"

text \<open>
  The first free entry is taken and marked; nothing else in the tables changes.
\<close>

definition taken :: "('d, 'z) bmtd_scheme \<Rightarrow> nat \<Rightarrow> nat \<times> ('d, 'z) bmtd_scheme \<Rightarrow> bool" where
  "taken s n = (\<lambda>(b, t). same_v2 s t \<and> get_block t = get_block s
     \<and> (\<forall>k < table_size s. get_bb t k = get_bb s k)
     \<and> (if b = 0 then t = s \<and> (\<forall>i < n. \<not> free_entry s i)
        else \<exists>i < n. free_entry s i \<and> (\<forall>j < i. \<not> free_entry s j) \<and> get_block s i = Some b
          \<and> get_mapped t i = Some NORMAL_MAPPED
          \<and> (\<forall>j. j \<noteq> i \<longrightarrow> get_mapped t j = get_mapped s j)))"

lemma pool_loop_spec:
  assumes "pool_in s n" "\<forall>j < i. \<not> free_entry s j" "i \<le> n"
  shows "runs (pool_loop s i n) (taken s n)"
  using assms(2,3)
proof (induction "n - i" arbitrary: i)
  case 0
  then show ?case by (subst pool_loop.simps) (simp add: taken_def)
next
  case (Suc k)
  have lt: "i < n" and k: "k = n - Suc i" using Suc.hyps(2) by auto
  obtain b m where bm: "get_block s i = Some b" "get_mapped s i = Some m"
    using get_entry_runs [OF assms(1) lt] by auto
  show ?case
  proof (cases "b \<noteq> 0 \<and> m = 0")
    case False
    then have "\<not> free_entry s i" using bm by (simp add: free_entry_def)
    then have "runs (pool_loop s (Suc i) n) (taken s n)"
      using Suc.prems lt by (intro Suc.hyps(1) [OF k]) (auto simp: less_Suc_eq)
    then show ?thesis using bm lt False by (subst pool_loop.simps) auto
  next
    case True
    have f: "free_entry s i" using True bm by (simp add: free_entry_def)
    have "runs (Option.bind (put_mapped s i 1) (\<lambda>s. Option.bind (get_block s i) (\<lambda>b. Some (b, s))))
        (taken s n)"
      by (rule runs_bindI [OF put_mapped_spec [OF assms(1) lt]])
         (use True bm f lt Suc.prems in \<open>auto simp: taken_def\<close>)
    then show ?thesis using bm lt True by (subst pool_loop.simps) simp
  qed
qed

lemma find_in_pool_spec:
  assumes "pool_in s (bmt_blk_idx s)"
  shows "runs (find_valid_block_in_pool s) (taken s (bmt_blk_idx s))"
  using pool_loop_spec [OF assms, of 0] by (simp add: find_valid_block_in_pool_def taken_def)

section \<open>Storing the tables\<close>

definition bmt_len :: "('d, 'z) bmtd_scheme \<Rightarrow> nat" where
  "bmt_len s = u32_of (int (bmt_pgs s) * 2 ^ pg_shift s)"

text \<open>One attempt leaves the entries as they are on success and drops the block on failure.\<close>

lemma front_bytes_other:
  assumes "memput buf 0 d = Some b" "length d \<le> 4" "4 \<le> off"
  shows "get16 b off = get16 buf off"
  using memget_memput_other [OF assms(1), of off 2] assms(2,3) by (simp add: get16_def)

lemma upload_entry_spec:
  assumes "pool_in s n" "i < n" "bmt_len s \<le> length (bbt_buf s)"
  shows "runs (upload_entry E s i) (\<lambda>(r, t). same_v2 s t \<and> get_mapped t = get_mapped s
    \<and> (\<forall>j. j \<noteq> i \<longrightarrow> get_block t j = get_block s j)
    \<and> get_block t i = (if r then get_block s i else Some 0)
    \<and> (\<forall>k < table_size s. get_bb t k = get_bb s k))"
proof -
  obtain blk where blk: "get_block s i = Some blk" using get_entry_runs [OF assms(1,2)] by auto
  obtain ret s1 where er: "bbt_nand_erase E s blk = (ret, s1)" by (cases "bbt_nand_erase E s blk")
  have s1: "same_v2 s s1" "bbt_buf s1 = bbt_buf s"
    using same_v2_io [OF bbt_nand_erase_io [of s E blk]] er by simp_all
  have e1: "get_block s1 = get_block s" "get_mapped s1 = get_mapped s" "get_bb s1 = get_bb s"
    using s1 same_v2_fields [OF s1(1)] by (simp_all add: get_block_def get_mapped_def get_bb_def fun_eq_iff)
  have drop_it: "runs (Option.bind (put_block t i 0) (\<lambda>s. Some (False, s)))
      (\<lambda>(r, t). same_v2 s t \<and> get_mapped t = get_mapped s
        \<and> (\<forall>j. j \<noteq> i \<longrightarrow> get_block t j = get_block s j)
        \<and> get_block t i = (if r then get_block s i else Some 0)
        \<and> (\<forall>k < table_size s. get_bb t k = get_bb s k))"
    if "same_v2 s t" "get_block t = get_block s" "get_mapped t = get_mapped s"
      "\<forall>k < table_size s. get_bb t k = get_bb s k" for t
  proof (rule runs_bindI [OF put_block_spec [of t n i 0]], goal_cases)
    case 1
    then show ?case using assms pool_in_same [OF that(1)] by simp
  next
    case (4 u)
    then show ?case
      using that same_v2_fields(1) [OF that(1)] by (auto intro: same_v2_trans)
  qed (use assms in simp_all)
  show ?thesis
  proof (cases "ret = 0")
    case False
    then show ?thesis
      using blk er drop_it [of s1] s1 e1 by (simp add: upload_entry_def)
  next
    case True
    have len: "4 \<le> length (bbt_buf s1)"
      using assms(1,2) s1 by (simp add: pool_in_def bmt_off_def)
    obtain b1 where b1: "memput (bbt_buf s1) 0 BMT_str = Some b1" "length b1 = length (bbt_buf s1)"
      using len by (simp add: memput_def BMT_str_def)
    obtain b2 where b2: "memput b1 3 [BBMT_VERSION] = Some b2" "length b2 = length b1"
      using len b1(2) by (simp add: memput_def)
    have other: "get16 b2 off = get16 (bbt_buf s1) off" if "4 \<le> off" for off
      using front_bytes_other [OF b1(1) _ that] memget_memput_other [OF b2(1), of off 2] that
      by (simp add: BMT_str_def get16_def)
    define s2 where "s2 = s1\<lparr>bbt_buf := b2\<rparr>"
    have e2: "get_block s2 = get_block s" "get_mapped s2 = get_mapped s" "get_bb s2 = get_bb s"
      using other e1 by (simp_all add: s2_def get_block_def get_mapped_def get_bb_def bmt_off_def fun_eq_iff)
    have s2: "same_v2 s s2" "bbt_buf s2 = b2"
      using s1 b1 b2 by (auto simp: s2_def intro: same_v2_trans)
    have m: "memget b2 0 (u32_of (int (bmt_pgs s2) * 2 ^ pg_shift s2)) \<noteq> None"
      using assms(3) same_v2_fields [OF s2(1)] s2(2) by (simp add: memget_def bmt_len_def)
    then obtain r3 d3 where wr: "write_bmt E bmt_sig s2 blk b2 = Some (r3, s2\<lparr>dev := d3\<rparr>)"
      by (auto simp: write_bmt_def case_prod_beta)
    let ?s3 = "s2\<lparr>dev := d3\<rparr>"
    have s3: "same_v2 s ?s3" "get_block ?s3 = get_block s" "get_mapped ?s3 = get_mapped s"
      "get_bb ?s3 = get_bb s"
      using s2(1) e2 by (simp_all add: get_block_def get_mapped_def get_bb_def bmt_off_def fun_eq_iff)
    show ?thesis
      using True blk er b1 b2 s2 wr s3 drop_it [of ?s3]
      by (simp add: upload_entry_def Let_def s2_def [symmetric])
  qed
qed

text \<open>
  Storing the tables, tried from entry \<open>n - 1\<close> down: the entries above the one used have been
  dropped, one that holds mapped data is never used, and nothing else changes.
\<close>

definition uploaded :: "('d, 'z) bmtd_scheme \<Rightarrow> nat \<Rightarrow> nat \<times> ('d, 'z) bmtd_scheme \<Rightarrow> bool" where
  "uploaded s n = (\<lambda>(k, t). same_v2 s t \<and> get_mapped t = get_mapped s
     \<and> (\<forall>j < table_size s. get_bb t j = get_bb s j)
     \<and> (if k = 65535 then \<exists>m \<le> n. (m = 0 \<or> get_mapped s (m - 1) = Some NORMAL_MAPPED)
            \<and> (\<forall>j. get_block t j = (if m \<le> j \<and> j < n then Some 0 else get_block s j))
        else k < n \<and> get_mapped s k \<noteq> Some NORMAL_MAPPED
          \<and> (\<forall>j. get_block t j = (if k < j \<and> j < n then Some 0 else get_block s j))))"

lemma upload_bmt_spec:
  assumes "pool_in s n" "bmt_len s \<le> length (bbt_buf s)" "n \<le> 65535"
  shows "runs (upload_bmt E s n) (uploaded s n)"
  using assms
proof (induction n arbitrary: s)
  case 0
  then show ?case by (simp add: uploaded_def)
next
  case (Suc n)
  obtain m where m: "get_mapped s n = Some m" using get_entry_runs(2) [OF Suc.prems(1), of n] by auto
  show ?case
  proof (cases "m = 1")
    case True
    then show ?thesis using m by (auto simp: uploaded_def intro!: exI [of _ "Suc n"])
  next
    case False
    have "runs (Option.bind (upload_entry E s n) (\<lambda>(success, s).
        if success then Some (u16 (int n), s) else upload_bmt E s n)) (uploaded s (Suc n))"
    proof (rule runs_bind_pairI [OF upload_entry_spec [OF Suc.prems(1) lessI Suc.prems(2)]], goal_cases)
      case (1 r t)
      show ?case
      proof (cases r)
        case True
        then have "get_block t = get_block s" using 1 by (metis ext)
        then show ?thesis using 1 True m \<open>m \<noteq> 1\<close> Suc.prems(3) by (auto simp: uploaded_def)
      next
        case False
        have t: "same_v2 s t" "get_mapped t = get_mapped s" "table_size t = table_size s"
          using 1 same_v2_fields by auto
        have "runs (upload_bmt E t n) (uploaded t n)"
          by (rule Suc.IH)
             (use Suc.prems pool_in_same [OF t(1)] pool_in_mono [of s "Suc n" n] same_v2_fields [OF t(1)]
                in \<open>simp_all add: bmt_len_def\<close>)
        moreover have "uploaded s (Suc n) x" if "uploaded t n x" for x
        proof (cases x)
          case (Pair k u)
          show ?thesis
          proof (cases "k = 65535")
            case True
            with that Pair obtain m' where m': "m' \<le> n"
              "m' = 0 \<or> get_mapped s (m' - 1) = Some 1"
              "\<forall>j. get_block u j = (if m' \<le> j \<and> j < n then Some 0 else get_block t j)"
              using t(2) by (auto simp: uploaded_def)
            have "get_block u j = (if m' \<le> j \<and> j < Suc n then Some 0 else get_block s j)" for j
              using m' 1 False by (cases "j = n") (auto simp: less_Suc_eq)
            then show ?thesis
              using that Pair True m' t 1
              by (auto simp: uploaded_def intro: same_v2_trans intro!: exI [of _ m'])
          next
            case k: False
            have "get_block u j = (if k < j \<and> j < Suc n then Some 0 else get_block s j)" for j
              using that Pair k 1 False by (cases "j = n") (auto simp: uploaded_def less_Suc_eq)
            then show ?thesis
              using that Pair k t 1 by (auto simp: uploaded_def intro: same_v2_trans)
          qed
        qed
        ultimately show ?thesis using False by (auto elim!: runs_mono)
      qed
    qed
    then show ?thesis using m False by simp
  qed
qed

text \<open>
  The index the tables are found by again is that of the entry marked as holding them. After a
  fallback to a lower entry no entry in use carries the mark: the search finds none.
\<close>

lemma get_bmt_index_loop_none:
  assumes "i \<le> k" "get_block s k = Some 0"
    "\<forall>j < k. (\<exists>b. get_block s j = Some b) \<and> (\<exists>m. get_mapped s j = Some m \<and> m \<noteq> BMT_MAPPED)"
  shows "get_bmt_index_loop s i = Some 0"
  using assms(1)
proof (induction "k - i" arbitrary: i)
  case 0
  then show ?case using assms(2) by (subst get_bmt_index_loop.simps) simp
next
  case (Suc n)
  then have lt: "i < k" by simp
  obtain b m where "get_block s i = Some b" "get_mapped s i = Some m" "m \<noteq> 2"
    using assms(3) lt by blast
  then show ?case
    using Suc.hyps(1) [of "Suc i"] Suc.hyps(2) lt
    by (subst get_bmt_index_loop.simps) auto
qed

lemma fallback_unfindable:
  assumes "pool_in s n" "bmt_len s \<le> length (bbt_buf s)" "n \<le> 65535"
    "\<forall>j. Suc j < n \<longrightarrow> get_mapped s j \<noteq> Some BMT_MAPPED"
    "upload_bmt E s n = Some (k, t)" "Suc k < n"
  shows "get_bmt_index t = Some 0"
proof -
  have u: "uploaded s n (k, t)"
    using upload_bmt_spec [OF assms(1-3), of E] assms(5) by (simp add: runs_def)
  have k: "k \<noteq> 65535" using assms(3,6) by simp
  have z: "get_block t (Suc k) = Some 0" using u k assms(6) by (simp add: uploaded_def)
  have "(\<exists>b. get_block t j = Some b) \<and> (\<exists>m. get_mapped t j = Some m \<and> m \<noteq> 2)" if "j < Suc k" for j
  proof -
    have j: "j < n" "Suc j < n" using that assms(6) by simp_all
    have "get_block t j = get_block s j" "get_mapped t j = get_mapped s j"
      using u k that by (auto simp: uploaded_def)
    then show ?thesis using get_entry_runs [OF assms(1) j(1)] assms(4) j(2) by auto
  qed
  then show ?thesis
    unfolding get_bmt_index_def by (intro get_bmt_index_loop_none [of 0 "Suc k"] z) simp_all
qed

section \<open>The scan\<close>

lemma find_valid_block_loop_spec:
  "case find_valid_block_loop n E s fdm block of (b, t) \<Rightarrow>
     io_only s t \<and> (b = 0 \<or> block \<le> b \<and> b < total_blks s)" if "total_blks s < 65536"
  using that
proof (induction n arbitrary: s fdm block)
  case 0
  then show ?case
    by (subst find_valid_block_loop.simps)
       (simp add: bbt_nand_read_def case_prod_beta Let_def)
next
  case (Suc n)
  show ?case
  proof (cases "block < total_blks s")
    case False
    then show ?thesis by (subst find_valid_block_loop.simps) simp
  next
    case True
    obtain ret b f d where rd: "bbt_nand_read E s (blk_pg s block) (data_buf s) (pg_size s) fdm 4
        = (ret, b, f, s\<lparr>dev := d\<rparr>)" and lb: "length b = length (data_buf s)"
      by (simp add: bbt_nand_read_def case_prod_beta)
    let ?t = "s\<lparr>dev := d, data_buf := b\<rparr>"
    have io: "io_only s ?t" using lb by simp
    have "u16 (int block + 1) = Suc block" using True Suc.prems by simp
    then have step: "find_valid_block_loop (Suc n) E s fdm block =
        (if ret \<noteq> 0 \<or> f ! 0 \<noteq> 0xff then find_valid_block_loop n E ?t f (Suc block) else (block, ?t))"
      using True rd by (subst find_valid_block_loop.simps) (simp add: Let_def)
    have "case find_valid_block_loop n E ?t f (Suc block) of (b, u) \<Rightarrow>
        io_only ?t u \<and> (b = 0 \<or> Suc block \<le> b \<and> b < total_blks ?t)"
      using Suc.IH [where s = ?t and fdm = f and block = "Suc block"] Suc.prems by simp
    then show ?thesis
      unfolding step using io True by (auto intro: io_only_trans [OF io])
  qed
qed

lemma find_valid_block_spec:
  assumes "total_blks s < 65536" "find_valid_block E s block = (b, t)"
  shows "io_only s t" "b = 0 \<or> block \<le> b \<and> b < total_blks s"
  using find_valid_block_loop_spec [OF assms(1), where n = "bb_max s" and E = E
      and fdm = "replicate 4 0" and block = block] assms(2)
  by (simp_all add: find_valid_block_def)

text \<open>
  The table of data blocks is strictly increasing when the scan of the data area succeeds.
\<close>

definition increasing :: "('d, 'z) bmtd_scheme \<Rightarrow> nat \<Rightarrow> bool" where
  "increasing s n \<longleftrightarrow> (\<forall>i < n. \<exists>b. get_bb s i = Some b \<and> b < total_blks s
     \<and> (\<forall>j < i. \<exists>a. get_bb s j = Some a \<and> a < b))"

lemma increasing_Suc:
  assumes "increasing s i" "0 < i" "get_bb s (i - 1) = Some p" "p < v" "v < total_blks t"
    "get_bb t i = Some v" "\<forall>j. j \<noteq> i \<longrightarrow> get_bb t j = get_bb s j" "total_blks t = total_blks s"
  shows "increasing t (Suc i)"
proof -
  have below: "\<exists>a. get_bb t j = Some a \<and> a < v" if "j < i" for j
  proof (cases "j = i - 1")
    case True
    then show ?thesis using assms that by simp
  next
    case False
    then have "j < i - 1" using that by simp
    moreover have "i - 1 < i" using assms(2) by simp
    ultimately obtain a where "get_bb s j = Some a" "a < p"
      using assms(1,3) unfolding increasing_def by (metis option.inject)
    then show ?thesis using assms(4,7) that by auto
  qed
  have "\<exists>b. get_bb t x = Some b \<and> b < total_blks t \<and> (\<forall>j < x. \<exists>a. get_bb t j = Some a \<and> a < b)"
    if "x < Suc i" for x
  proof (cases "x = i")
    case True
    then show ?thesis using assms(5,6) below by auto
  next
    case False
    then have x: "x < i" using that by simp
    then obtain b where "get_bb s x = Some b" "b < total_blks s"
      "\<forall>j < x. \<exists>a. get_bb s j = Some a \<and> a < b"
      using assms(1) unfolding increasing_def by blast
    then show ?thesis using assms(7,8) x by auto
  qed
  then show ?thesis by (simp add: increasing_def)
qed

lemma scan_data_spec:
  assumes "total_blks s < 65536" "bmt_off s \<le> length (bbt_buf s)" "n \<le> table_size s"
    "0 < i" "i \<le> max 1 n" "increasing s i"
  shows "runs (scan_data_loop E s i n) (\<lambda>(r, t). same_v2 s t \<and> (r \<longrightarrow> increasing t (max 1 n)))"
  using assms
proof (induction "n - i" arbitrary: i s)
  case 0
  then have "max 1 n = i" "\<not> i < n" by simp_all
  then show ?case using 0 by (subst scan_data_loop.simps) simp
next
  case (Suc k)
  have lt: "i < n" and k: "k = n - Suc i" using Suc.hyps(2) by auto
  obtain p where p: "get_bb s (i - 1) = Some p" "p < total_blks s"
    using Suc.prems(4,6) unfolding increasing_def by (meson diff_less zero_less_one)
  obtain b t where fv: "find_valid_block E s (p + 1) = (b, t)"
    by (cases "find_valid_block E s (p + 1)")
  note f = find_valid_block_spec [OF Suc.prems(1) fv]
  have u: "u16 (int p + 1) = p + 1" using p(2) Suc.prems(1) by simp
  have t: "same_v2 s t" "bbt_buf t = bbt_buf s" using same_v2_io [OF f(1)] by simp_all
  note ft = same_v2_fields [OF t(1)]
  have e: "get_bb t = get_bb s" using t(2) by (simp add: get_bb_def fun_eq_iff)
  have bl: "b < 65536" using f(2) Suc.prems(1) by auto
  have "runs (Option.bind (put_bb t i b) (\<lambda>s. if b = 0 then Some (False, s)
      else scan_data_loop E s (Suc i) n)) (\<lambda>(r, t). same_v2 s t \<and> (r \<longrightarrow> increasing t (max 1 n)))"
  proof (rule runs_bindI [OF put_bb_spec [of i t b]], goal_cases)
    case (4 v)
    have sv: "same_v2 s v" using 4 t(1) by (blast intro: same_v2_trans)
    show ?case
    proof (cases "b = 0")
      case True
      then show ?thesis using sv by simp
    next
      case False
      have "increasing v (Suc i)"
        by (rule increasing_Suc [OF Suc.prems(6,4) p(1)])
           (use False f(2) 4 e same_v2_fields [OF sv] in auto)
      then have "runs (scan_data_loop E v (Suc i) n) (\<lambda>(r, t). same_v2 v t \<and> (r \<longrightarrow> increasing t (max 1 n)))"
        by (intro Suc.hyps(1) [OF k]) (use Suc.prems same_v2_fields [OF sv] lt in simp_all)
      then show ?thesis
        using False by (auto elim!: runs_mono intro: same_v2_trans [OF sv])
    qed
  qed (use Suc.prems ft lt bl in simp_all)
  then show ?case using lt p u fv by (subst scan_data_loop.simps) simp
qed

text \<open>
  The pool gets the good blocks of the rest of the chip in increasing order: entry \<open>j\<close> holds a
  block of at least \<open>lo + (j - i)\<close>, below that of entry \<open>j + 1\<close>.
\<close>

definition pool_up :: "('d, 'z) bmtd_scheme \<Rightarrow> nat \<Rightarrow> nat \<Rightarrow> nat \<Rightarrow> bool" where
  "pool_up s lo i n \<longleftrightarrow> (\<forall>j. i \<le> j \<longrightarrow> j < n \<longrightarrow> (\<exists>b. get_block s j = Some b \<and> lo \<le> b
     \<and> b < total_blks s \<and> (Suc j < n \<longrightarrow> (\<exists>c. get_block s (Suc j) = Some c \<and> b < c))))"

lemma pool_up_Cons:
  assumes "get_block s i = Some b" "lo \<le> b" "b < total_blks s" "pool_up s (Suc b) (Suc i) n"
  shows "pool_up s lo i n"
  unfolding pool_up_def
proof (intro allI impI)
  fix j assume j: "i \<le> j" "j < n"
  show "\<exists>b. get_block s j = Some b \<and> lo \<le> b \<and> b < total_blks s
      \<and> (Suc j < n \<longrightarrow> (\<exists>c. get_block s (Suc j) = Some c \<and> b < c))"
  proof (cases "j = i")
    case True
    have "\<exists>c. get_block s (Suc i) = Some c \<and> b < c" if "Suc i < n"
    proof -
      have "\<exists>c. get_block s (Suc i) = Some c \<and> Suc b \<le> c"
        using assms(4) that unfolding pool_up_def by blast
      then show ?thesis by auto
    qed
    then show ?thesis using True assms(1-3) by blast
  next
    case False
    then have "Suc i \<le> j" using j by simp
    then obtain c where "get_block s j = Some c" "Suc b \<le> c" "c < total_blks s"
      "Suc j < n \<longrightarrow> (\<exists>d. get_block s (Suc j) = Some d \<and> c < d)"
      using assms(4) j unfolding pool_up_def by blast
    then show ?thesis using assms(2) by (intro exI [of _ c]) simp
  qed
qed

lemma scan_pool_spec:
  assumes "total_blks s < 65536" "pool_in s (total_blks s)" "i \<le> block" "block \<le> total_blks s"
  shows "runs (scan_pool_loop E s block i) (\<lambda>(n, t). same_v2 s t \<and> i \<le> n \<and> n \<le> total_blks s
    \<and> pool_up t block i n \<and> (\<forall>j. i \<le> j \<longrightarrow> j < n \<longrightarrow> get_mapped t j = Some NO_MAPPED)
    \<and> (\<forall>j < i. get_block t j = get_block s j \<and> get_mapped t j = get_mapped s j)
    \<and> (\<forall>k < table_size s. get_bb t k = get_bb s k))"
  using assms
proof (induction "total_blks s - block" arbitrary: s block i rule: less_induct)
  case less
  obtain b s1 where fv: "find_valid_block E s block = (b, s1)" by (cases "find_valid_block E s block")
  note f = find_valid_block_spec [OF less.prems(1) fv]
  have s1: "same_v2 s s1" "bbt_buf s1 = bbt_buf s" using same_v2_io [OF f(1)] by simp_all
  have e1: "get_block s1 = get_block s" "get_mapped s1 = get_mapped s" "get_bb s1 = get_bb s"
    using s1 same_v2_fields [OF s1(1)] by (simp_all add: get_block_def get_mapped_def get_bb_def fun_eq_iff)
  show ?case
  proof (cases "b = 0")
    case True
    then show ?thesis using fv s1 e1 less.prems
      by (subst scan_pool_loop.simps) (simp add: pool_up_def)
  next
    case False
    then have b: "block \<le> b" "b < total_blks s" using f(2) by simp_all
    have p1: "pool_in s1 (total_blks s)" using pool_in_same [OF s1(1)] less.prems(2) by simp
    have i: "i < total_blks s" "b < 65536" "u16 (int b + 1) = Suc b"
      using b less.prems by simp_all
    have "runs (Option.bind (put_block s1 i b) (\<lambda>s. Option.bind (put_mapped s i 0) (\<lambda>s.
        scan_pool_loop E s (Suc b) (i + 1)))) (\<lambda>(n, t). same_v2 s t \<and> i \<le> n \<and> n \<le> total_blks s
    \<and> pool_up t block i n \<and> (\<forall>j. i \<le> j \<longrightarrow> j < n \<longrightarrow> get_mapped t j = Some 0)
    \<and> (\<forall>j < i. get_block t j = get_block s j \<and> get_mapped t j = get_mapped s j)
    \<and> (\<forall>k < table_size s. get_bb t k = get_bb s k))"
    proof (rule runs_bindI [OF put_block_spec [OF p1 i(1,2)]], goal_cases)
      case (1 s2)
      note c1 = 1
      have p2: "pool_in s2 (total_blks s)" using pool_in_same [of s1 s2] 1 p1 by simp
      show ?case
      proof (rule runs_bindI [OF put_mapped_spec [OF p2 i(1)]], goal_cases)
        case 1
        then show ?case by simp
      next
        case (2 s3)
        have s3: "same_v2 s s3" using s1(1) c1 2 by (blast intro: same_v2_trans)
        note f3 = same_v2_fields [OF s3]
        have e3: "get_block s3 i = Some b" "get_mapped s3 i = Some 0"
          "\<forall>j. j \<noteq> i \<longrightarrow> get_block s3 j = get_block s j \<and> get_mapped s3 j = get_mapped s j"
          "\<forall>k < table_size s. get_bb s3 k = get_bb s k"
          using c1 2 e1 same_v2_fields(1) [OF s1(1)] same_v2_fields(1) [of s1 s2] by auto
        have "runs (scan_pool_loop E s3 (Suc b) (i + 1)) (\<lambda>(n, t). same_v2 s3 t \<and> i + 1 \<le> n
          \<and> n \<le> total_blks s3 \<and> pool_up t (Suc b) (i + 1) n
          \<and> (\<forall>j. i + 1 \<le> j \<longrightarrow> j < n \<longrightarrow> get_mapped t j = Some 0)
          \<and> (\<forall>j < i + 1. get_block t j = get_block s3 j \<and> get_mapped t j = get_mapped s3 j)
          \<and> (\<forall>k < table_size s3. get_bb t k = get_bb s3 k))"
          by (rule less.hyps) (use b less.prems f3 pool_in_same [OF s3] in simp_all)
        then show ?case
        proof (rule runs_mono, clarify, goal_cases)
          case (1 n t)
          have st: "same_v2 s3 t" using 1 by blast
          have ti: "get_block t i = Some b" "get_mapped t i = Some 0" using 1 e3 by simp_all
          have tt: "total_blks t = total_blks s" using same_v2_fields [OF st] f3 by simp
          have "pool_up t block i n"
            by (rule pool_up_Cons [OF ti(1) b(1)]) (use b tt 1 in simp_all)
          moreover have "get_mapped t j = Some 0" if "i \<le> j" "j < n" for j
            using 1 ti that by (cases "j = i") auto
          ultimately show ?case
            using 1 e3 f3 same_v2_trans [OF s3 st] by auto
        qed
      qed
    qed
    then show ?thesis using fv False i(3)
      by (subst scan_pool_loop.simps) simp
  qed
qed

text \<open>
  A scan that succeeds: the data table is increasing, the pool lies behind it and is increasing,
  all its entries are free but the last, which is to hold the tables.
\<close>

definition scanned :: "('d, 'z) bmtd_scheme \<Rightarrow> bool" where
  "scanned t \<longleftrightarrow> increasing t (pool_lba t)
     \<and> (\<forall>i < pool_lba t. \<exists>b. get_bb t i = Some b \<and> b < pool_pba t)
     \<and> pool_up t (pool_pba t) 0 (Suc (bmt_blk_idx t))
     \<and> get_mapped t (bmt_blk_idx t) = Some BMT_MAPPED
     \<and> (\<forall>j < bmt_blk_idx t. get_mapped t j = Some NO_MAPPED)"

lemma increasing_same:
  assumes "increasing s n" "\<forall>k < n. get_bb t k = get_bb s k" "total_blks t = total_blks s"
  shows "increasing t n"
proof -
  have "\<exists>b. get_bb t i = Some b \<and> b < total_blks t \<and> (\<forall>j < i. \<exists>a. get_bb t j = Some a \<and> a < b)"
    if i: "i < n" for i
  proof -
    obtain b where "get_bb s i = Some b" "b < total_blks s"
      "\<forall>j < i. \<exists>a. get_bb s j = Some a \<and> a < b"
      using assms(1) i unfolding increasing_def by blast
    then show ?thesis using assms(2,3) i by auto
  qed
  then show ?thesis by (simp add: increasing_def)
qed

lemma increasing_last:
  assumes "increasing s n" "i < n" "get_bb s (n - 1) = Some l"
  shows "\<exists>b. get_bb s i = Some b \<and> b \<le> l"
proof (cases "i = n - 1")
  case False
  then have "i < n - 1" "n - 1 < n" using assms(2) by simp_all
  then obtain a where "get_bb s i = Some a" "a < l"
    using assms(1,3) unfolding increasing_def by (metis option.inject)
  then show ?thesis by auto
qed (use assms in simp)

lemma scan_bad_blocks_spec:
  assumes "total_blks s < 65536" "0 < total_blks s" "pool_in s 65536" "pool_lba s \<le> table_size s"
    "0 < pool_lba s"
  shows "runs (scan_bad_blocks E s) (\<lambda>(r, t). (r = 0 \<or> r = - 1) \<and> (r = 0 \<longrightarrow> scanned t))"
  unfolding scan_bad_blocks_def
proof (rule runs_bindI [OF put_bb_spec [of 0 s 0]], goal_cases)
  case 2
  then show ?case using assms(3) by (simp add: pool_in_def)
next
  case (4 s0)
  note f0 = same_v2_fields [of s s0]
  have "increasing s0 1" using 4 f0 assms(2) by (simp add: increasing_def)
  then have "runs (scan_data_loop E s0 1 (pool_lba s0))
      (\<lambda>(r, t). same_v2 s0 t \<and> (r \<longrightarrow> increasing t (max 1 (pool_lba s0))))"
    by (intro scan_data_spec) (use 4 f0 assms in \<open>simp_all add: pool_in_def\<close>)
  then show ?case
  proof (rule runs_bind_pairI, goal_cases)
    case (1 r s1)
    have s1: "same_v2 s s1" using 4 1 by (blast intro: same_v2_trans)
    note f1 = same_v2_fields [OF s1]
    show ?case
    proof (cases r)
      case False
      then show ?thesis by simp
    next
      case True
      have mx: "max 1 (pool_lba s1) = pool_lba s" "pool_lba s0 = pool_lba s"
        using f1 assms(5) 4 f0 by simp_all
      have inc: "increasing s1 (pool_lba s)" using 1 True mx assms(5) by simp
      then obtain l where l: "get_bb s1 (pool_lba s - 1) = Some l" "l < total_blks s"
        using assms(5) f1 unfolding increasing_def by (metis diff_less zero_less_one)
      define s2 where "s2 = s1\<lparr>pool_pba := u16 (int l + 1)\<rparr>"
      have f2: "pool_pba s2 = Suc l" "pool_lba s2 = pool_lba s" "total_blks s2 = total_blks s"
        "table_size s2 = table_size s"
        using l assms(1) f1 by (simp_all add: s2_def)
      have e2: "get_block s2 = get_block s1" "get_mapped s2 = get_mapped s1" "get_bb s2 = get_bb s1"
        by (simp_all add: s2_def get_block_def get_mapped_def get_bb_def bmt_off_def fun_eq_iff)
      have p2: "pool_in s2 (total_blks s2)" "pool_in s2 65536"
        using assms(1,3) f2 f1 by (simp_all add: s2_def pool_in_def bmt_off_def)
      show ?thesis
      proof (cases "int (pool_pba s2) \<ge> int (total_blks s2) - 2")
        case t: True
        then show ?thesis using True l mx by (simp add: s2_def Let_def)
      next
        case False
        have "runs (Option.bind (scan_pool_loop E s2 (pool_pba s2) 0) (\<lambda>(i, s).
            let s = s\<lparr>bmt_blk_idx := u16 (int i - 1)\<rparr>
            in Option.bind (put_mapped s (bmt_blk_idx s) BMT_MAPPED) (\<lambda>s.
              Some (if i < 1 then (- 1 :: int, s) else (0, s)))))
          (\<lambda>(r, t). (r = 0 \<or> r = - 1) \<and> (r = 0 \<longrightarrow> scanned t))"
        proof (rule runs_bind_pairI [OF scan_pool_spec [OF _ p2(1)]], goal_cases)
          case (4 n s3)
          define s4 where "s4 = s3\<lparr>bmt_blk_idx := u16 (int n - 1)\<rparr>"
          have f4: "bmt_blk_idx s4 = u16 (int n - 1)" by (simp add: s4_def)
          have s3: "same_v2 s2 s3" using 4 by simp
          have p4: "pool_in s4 65536"
            using same_v2_fields [OF s3] p2(2) by (simp add: s4_def pool_in_def bmt_off_def)
          have e4: "get_block s4 = get_block s3" "get_mapped s4 = get_mapped s3"
            "get_bb s4 = get_bb s3" "total_blks s4 = total_blks s3" "pool_pba s4 = pool_pba s3"
            "pool_lba s4 = pool_lba s3" "table_size s4 = table_size s3"
            by (simp_all add: s4_def get_block_def get_mapped_def get_bb_def bmt_off_def fun_eq_iff)
          have pp: "pool_pba s3 = pool_pba s2"
            using s3 unfolding same_v2_def by (cases s2; cases s3) simp
          show ?case
            unfolding Let_def s4_def [symmetric] f4
          proof (rule runs_bindI [OF put_mapped_spec [OF p4 u16_bound [of "int n - 1"]]], goal_cases)
            case 1
            then show ?case by simp
          next
            case (2 t)
            show ?case
            proof (cases "n = 0")
              case True
              then show ?thesis by simp
            next
              case False
              have n: "u16 (int n - 1) = n - 1" "Suc (n - 1) = n"
                using False 4 f2 assms(1) by simp_all
              note ft = same_v2_fields [of s4 t]
              have tp: "pool_pba t = Suc l"
                using 2 pp f2 e4 unfolding same_v2_def by (cases s4; cases t) simp
              have fs: "total_blks t = total_blks s" "pool_lba t = pool_lba s" "bmt_blk_idx t = n - 1"
                using 2 ft e4 f4 n same_v2_fields [OF s3] f2 by simp_all
              have bb: "get_bb t k = get_bb s1 k" if "k < table_size s" for k
                using 2 4 e4 e2 that same_v2_fields [OF s3] f2 by auto
              have "increasing t (pool_lba s)"
                by (rule increasing_same [OF inc]) (use bb assms(4) fs f1 in auto)
              moreover have "\<exists>b. get_bb t i = Some b \<and> b < Suc l" if "i < pool_lba s" for i
                using increasing_last [OF inc that l(1)] bb that assms(4) by auto
              moreover have "pool_up t (Suc l) 0 n"
                using 2 4 e4 f2 fs same_v2_fields [OF s3] by (simp add: pool_up_def)
              moreover have "get_mapped t j = Some 0" if "j < n - 1" for j
                using 2 4 e4 n that by auto
              ultimately have "scanned t" using 2 n fs tp by (simp add: scanned_def)
              then show ?thesis using False by simp
            qed
          qed
        qed (use f2 l assms in simp_all)
        then show ?thesis using True False l mx by (simp add: s2_def Let_def)
      qed
    qed
  qed
qed (use assms in simp_all)

end
