(* ===== verification/V2_Properties.thy ===== *)
theory V2_Properties
  imports Bmt_Demo V2_Tables
begin

text \<open>The properties of the BMT manager, version 2.\<close>

definition demo_v2 :: "unit bmtd" where
  "demo_v2 = demo_desc\<lparr>bbt_buf := replicate 262160 0, bbt_set := True, table_size := 4,
     pool_lba := 4, pool_pba := 4, bb_max := 1, bmt_blk_idx := 3, bmt_pgs := 1\<rparr>"

lemma demo_v2_fields: "total_blks demo_v2 = 32" "table_size demo_v2 = 4" "pool_lba demo_v2 = 4"
  "bmt_blk_idx demo_v2 = 3" "bmt_len demo_v2 = 64" "length (bbt_buf demo_v2) = 262160"
  "bmt_off demo_v2 = 12"
  by (simp_all add: demo_v2_def demo_desc_defs bmt_len_def bmt_off_def)

text \<open>
  The block taken from the pool is that of the first entry that holds a block and is not
  mapped; that entry is marked as mapped, no other entry and no block of either table changes,
  and 0 is returned only when there is no such entry.
\<close>

theorem pool_take_correct:
  assumes "pool_in s (bmt_blk_idx s)"
  shows "runs (find_valid_block_in_pool s) (\<lambda>(b, t). same_v2 s t \<and> get_block t = get_block s
     \<and> (\<forall>k < table_size s. get_bb t k = get_bb s k)
     \<and> (if b = 0 then t = s \<and> (\<forall>i < bmt_blk_idx s. \<not> free_entry s i)
        else \<exists>i < bmt_blk_idx s. free_entry s i \<and> (\<forall>j < i. \<not> free_entry s j)
          \<and> get_block s i = Some b \<and> get_mapped t i = Some NORMAL_MAPPED
          \<and> (\<forall>j. j \<noteq> i \<longrightarrow> get_mapped t j = get_mapped s j)))"
  using find_in_pool_spec [OF assms] by (simp add: taken_def)

theorem pool_take_correct_witness:
  "runs (find_valid_block_in_pool demo_v2) (\<lambda>(b, t). same_v2 demo_v2 t \<and> get_block t = get_block demo_v2
     \<and> (\<forall>k < table_size demo_v2. get_bb t k = get_bb demo_v2 k)
     \<and> (if b = 0 then t = demo_v2 \<and> (\<forall>i < bmt_blk_idx demo_v2. \<not> free_entry demo_v2 i)
        else \<exists>i < bmt_blk_idx demo_v2. free_entry demo_v2 i \<and> (\<forall>j < i. \<not> free_entry demo_v2 j)
          \<and> get_block demo_v2 i = Some b \<and> get_mapped t i = Some NORMAL_MAPPED
          \<and> (\<forall>j. j \<noteq> i \<longrightarrow> get_mapped t j = get_mapped demo_v2 j)))"
  by (rule pool_take_correct) (simp add: pool_in_def demo_v2_fields)



text \<open>
  When the upload falls back to a lower entry than it was given, the stored tables cannot be
  found again: the search for the entry marked \<open>BMT_MAPPED\<close> ends at the dropped entry above it
  and gives 0, which the loader takes for an invalid table.
\<close>

theorem upload_fallback_lost:
  assumes "pool_in s n" "bmt_len s \<le> length (bbt_buf s)" "n \<le> 65535"
    "\<forall>j. Suc j < n \<longrightarrow> get_mapped s j \<noteq> Some BMT_MAPPED"
    "upload_bmt E s n = Some (k, t)" "Suc k < n"
  shows "get_bmt_index t = Some 0"
  by (rule fallback_unfindable [OF assms])

definition demo_worn :: "unit bmtd" where
  "demo_worn = demo_desc\<lparr>bbt_buf := [0, 0, 0, 0, 28, 0, 0, 0, 29, 0, 0, 0, 30, 0, 2, 0],
     bbt_set := True, bmt_blk_idx := 2\<rparr>"

definition demo_worn_kernel :: "unit kernel" where
  "demo_worn_kernel = demo_kernel\<lparr>k_erase := (\<lambda>d addr n. (if addr = 3840 then - 5 else 0, d))\<rparr>"

lemma le_bytes_2 [simp]: "le_bytes 2 x = [word_of_nat x, word_of_nat (x div 256)]"
  by (simp add: numeral_2_eq_2)

definition demo_worn_result :: "unit bmtd" where
  "demo_worn_result = demo_worn\<lparr>bbt_buf := [0x42, 0x4d, 0x54, 2, 28, 0, 0, 0, 29, 0, 0, 0, 0, 0, 2, 0]\<rparr>"

lemmas v2_entry_defs = get_block_def get_mapped_def put_block_def get16_def set16_def bmt_off_def
  memget_def memput_def

lemma demo_worn_upload:
  "upload_bmt demo_worn_kernel demo_worn (Suc (Suc (Suc 0))) = Some (1, demo_worn_result)"
  by (simp add: upload_entry_def bbt_nand_erase_def write_bmt_def demo_worn_kernel_def
      demo_kernel_def demo_worn_def demo_worn_result_def demo_desc_defs v2_entry_defs Let_def BMT_str_def)

theorem upload_fallback_lost_witness: "get_bmt_index demo_worn_result = Some 0"
proof -
  have m: "get_mapped demo_worn j \<noteq> Some 2" if "Suc j < 3" for j
  proof -
    have "j = 0 \<or> j = 1" using that by linarith
    then show ?thesis by (auto simp: demo_worn_def demo_desc_defs v2_entry_defs)
  qed
  show ?thesis
    by (rule upload_fallback_lost [where s = demo_worn and n = "Suc (Suc (Suc 0))" and k = 1
          and E = demo_worn_kernel, OF _ _ _ _ demo_worn_upload])
       (use m in \<open>simp_all add: pool_in_def bmt_len_def bmt_off_def demo_worn_def demo_desc_defs numeral_3_eq_3\<close>)
qed



section \<open>The size of the buffer\<close>






end
