(* ===== verification/En75_State.thy ===== *)
theory En75_State
  imports Bmt_Device
begin

text \<open>
  The data of the EcoNet manager (\<open>target/linux/econet/files/drivers/mtd/nand/en75_bmt.c\<close>): the two
  tables stored on flash with their layout in memory and their checksums, the context, and the
  functions that neither read nor write the flash.

  The tables are copied between flash and memory as they are, so the layout follows the byte
  order of the CPU, \<open>k_big_endian\<close>.
\<close>

section \<open>Constants\<close>

definition MAX_BMT_SIZE :: nat where "MAX_BMT_SIZE = 256"
definition MAX_BBT_SIZE :: nat where "MAX_BBT_SIZE = 1000"
definition REQUIRED_GOOD_BLOCKS :: "nat \<Rightarrow> nat" where
  "REQUIRED_GOOD_BLOCKS total_blocks = total_blocks * 8 div 100"
definition BLOCK_WORN_MARK :: byte where "BLOCK_WORN_MARK = 0x55"

lemmas en75_sizes = MAX_BMT_SIZE_def MAX_BBT_SIZE_def

section \<open>The tables\<close>

text \<open>
  \<open>struct bmt_table\<close> and \<open>struct bbt_table\<close>, with the fields of their headers. \<open>mt_sig\<close> has 3 bytes,
  \<open>mt_reserved\<close> 13, \<open>mt_table\<close> 256 entries; \<open>ft_sig\<close> has 4 bytes, \<open>ft_reserved\<close> 2, \<open>ft_table\<close>
  1000 entries.
\<close>

record bmt_entry =
  e_from :: "16 word"
  e_to :: "16 word"

record bmt_table =
  mt_sig :: "byte list"
  mt_version :: byte
  mt_bad_count :: byte
  mt_size :: byte
  mt_cksum :: byte
  mt_reserved :: "byte list"
  mt_table :: "bmt_entry list"

record bbt_table =
  ft_sig :: "byte list"
  ft_cksum :: u32
  ft_version :: byte
  ft_size :: byte
  ft_reserved :: "byte list"
  ft_table :: "16 word list"

definition BMT_SIG :: "byte list" where "BMT_SIG = [0x42, 0x4d, 0x54]"
definition RAWB_SIG :: "byte list" where "RAWB_SIG = [0x52, 0x41, 0x57, 0x42]"

definition zero_entry :: bmt_entry where
  "zero_entry = \<lparr>e_from = 0, e_to = 0\<rparr>"

text \<open>The layout in memory.\<close>

definition half_bytes :: "bool \<Rightarrow> 16 word \<Rightarrow> byte list" where
  "half_bytes be w = (let b = le_bytes 2 (unat w) in if be then rev b else b)"

definition of_half :: "bool \<Rightarrow> byte list \<Rightarrow> 16 word" where
  "of_half be bs = word_of_nat (le_nat (if be then rev (take 2 bs) else take 2 bs))"

definition word_bytes :: "bool \<Rightarrow> u32 \<Rightarrow> byte list" where
  "word_bytes be w = (if be then rev (le32 w) else le32 w)"

definition of_word :: "bool \<Rightarrow> byte list \<Rightarrow> u32" where
  "of_word be bs = of_le32 (if be then rev (take 4 bs) else bs)"

definition halves_bytes :: "bool \<Rightarrow> 16 word list \<Rightarrow> byte list" where
  "halves_bytes be ws = concat (map (half_bytes be) ws)"

fun bytes_halves :: "bool \<Rightarrow> byte list \<Rightarrow> 16 word list" where
  "bytes_halves be (a # b # bs) = of_half be [a, b] # bytes_halves be bs"
| "bytes_halves be _ = []"

fun entry_halves :: "bmt_entry list \<Rightarrow> 16 word list" where
  "entry_halves [] = []"
| "entry_halves (e # es) = e_from e # e_to e # entry_halves es"

fun halves_entries :: "16 word list \<Rightarrow> bmt_entry list" where
  "halves_entries (f # t # ws) = \<lparr>e_from = f, e_to = t\<rparr> # halves_entries ws"
| "halves_entries _ = []"

definition entries_bytes :: "bool \<Rightarrow> bmt_entry list \<Rightarrow> byte list" where
  "entries_bytes be es = halves_bytes be (entry_halves es)"

definition bmt_bytes :: "bool \<Rightarrow> bmt_table \<Rightarrow> byte list" where
  "bmt_bytes be t = mt_sig t @ [mt_version t, mt_bad_count t, mt_size t, mt_cksum t]
     @ mt_reserved t @ entries_bytes be (mt_table t)"

definition bytes_bmt :: "bool \<Rightarrow> byte list \<Rightarrow> bmt_table" where
  "bytes_bmt be bs = \<lparr>mt_sig = take 3 bs, mt_version = bs ! 3, mt_bad_count = bs ! 4,
     mt_size = bs ! 5, mt_cksum = bs ! 6, mt_reserved = take 13 (drop 7 bs),
     mt_table = halves_entries (bytes_halves be (take 1024 (drop 20 bs)))\<rparr>"

definition bbt_bytes :: "bool \<Rightarrow> bbt_table \<Rightarrow> byte list" where
  "bbt_bytes be t = ft_sig t @ word_bytes be (ft_cksum t) @ [ft_version t, ft_size t]
     @ ft_reserved t @ halves_bytes be (ft_table t)"

definition bytes_bbt :: "bool \<Rightarrow> byte list \<Rightarrow> bbt_table" where
  "bytes_bbt be bs = \<lparr>ft_sig = take 4 bs, ft_cksum = of_word be (take 4 (drop 4 bs)),
     ft_version = bs ! 8, ft_size = bs ! 9, ft_reserved = take 2 (drop 10 bs),
     ft_table = bytes_halves be (take 2000 (drop 12 bs))\<rparr>"

section \<open>The context\<close>

datatype block_status = BS_INVALID | BS_AVAILABLE | BS_BAD | BS_MAPPED | BS_BMT | BS_BBT | BS_NEED_ERASE

record block_info =
  bi_index :: nat
  bi_status :: block_status

text \<open>
  \<open>struct en75_bmt_m\<close>, whose pointer \<open>mtk\<close> is the one descriptor \<open>bmtd\<close>, as its extension. The array
  \<open>rblocks\<close> is the list of its elements; \<open>can_remap_ranges\<close> is \<open>None\<close> for the null pointer. The
  dirty counters are 8 bits wide.
\<close>

record 'd en75 = "'d bmtd" +
  en_bbt :: bbt_table
  en_bmt :: bmt_table
  rblocks :: "block_info list"
  reserve_begin :: nat
  can_remap_count :: nat
  can_remap_ranges :: "(nat \<times> nat) list option"
  bbt_dirty :: "8 word"
  bmt_dirty :: "8 word"
  can_write_factory_bbt :: bool

section \<open>Functions in memory\<close>

definition bbt_checksum :: "bool \<Rightarrow> bbt_table \<Rightarrow> 16 word" where
  "bbt_checksum be bbt =
     foldl (\<lambda>checksum b. checksum + ucast b) (ucast (ft_version bbt) + ucast (ft_size bbt))
       (halves_bytes be (ft_table bbt))"

definition bmt_checksum :: "bool \<Rightarrow> bmt_table \<Rightarrow> nat \<Rightarrow> byte" where
  "bmt_checksum be bmt check_entries =
     foldl (\<lambda>checksum b. checksum + b) (mt_version bmt + mt_size bmt)
       (take (min check_entries MAX_BMT_SIZE * 4) (entries_bytes be (mt_table bmt)))"

definition reserve_block_count :: "('d, 'z) en75_scheme \<Rightarrow> int" where
  "reserve_block_count s = s32 (int (total_blks s) - int (reserve_begin s))"

text \<open>The pointer to a block of the reserve area is its index; \<open>Inl\<close> is an error pointer.\<close>

fun first_available :: "block_info list \<Rightarrow> nat list \<Rightarrow> (int + nat) option" where
  "first_available rs [] = Some (Inl (- ENOSPC))"
| "first_available rs (i # is) =
     do {
       b \<leftarrow> aget rs i;
       if bi_status b = BS_AVAILABLE then Some (Inr i) else first_available rs is
     }"

definition find_available_block :: "('d, 'z) en75_scheme \<Rightarrow> bool \<Rightarrow> (int + nat) option" where
  "find_available_block s start_from_end =
     (let limit = nat (reserve_block_count s)
      in first_available (rblocks s) (if start_from_end then [0..<limit] else rev [0..<limit]))"

text \<open>The kernel's \<open>sort\<close> with the order of the unsigned numbers.\<close>

definition sort_bbt :: "bbt_table \<Rightarrow> bbt_table" where
  "sort_bbt bbt = (let n = unat (ft_size bbt)
     in bbt\<lparr>ft_table := sort (take n (ft_table bbt)) @ drop n (ft_table bbt)\<rparr>)"

fun shift_past :: "16 word list \<Rightarrow> int \<Rightarrow> int" where
  "shift_past [] block = block"
| "shift_past (f # fs) block = shift_past fs (if uint f \<le> block then block + 1 else block)"

definition get_mapping_block_bbt :: "('d, 'z) en75_scheme \<Rightarrow> int \<Rightarrow> int" where
  "get_mapping_block_bbt s block =
     (let block = shift_past (take (unat (ft_size (en_bbt s))) (ft_table (en_bbt s))) block
      in if block \<ge> int (reserve_begin s) \<or> block < 0 then - EINVAL else block)"

fun bmt_find :: "bmt_entry list \<Rightarrow> int \<Rightarrow> int" where
  "bmt_find [] block = block"
| "bmt_find (e # es) block = (if uint (e_from e) = block then uint (e_to e) else bmt_find es block)"

definition get_mapping_block :: "('d, 'z) en75_scheme \<Rightarrow> int \<Rightarrow> int" where
  "get_mapping_block s block =
     (let block = get_mapping_block_bbt s block
      in if block < 0 then block
         else bmt_find (rev (take (unat (mt_size (en_bmt s))) (mt_table (en_bmt s)))) block)"

definition block_index_is_sane :: "('d, 'z) en75_scheme \<Rightarrow> nat \<Rightarrow> bool \<Rightarrow> bool" where
  "block_index_is_sane s bi user_block =
     (if bi \<ge> total_blks s then False
      else if user_block \<and> bi \<ge> reserve_begin s then False
      else if \<not> user_block \<and> bi < reserve_begin s then False
      else True)"

end
