(* ===== verification/En75_Write.thy ===== *)
theory En75_Write
  imports En75_State
begin

text \<open>
  What the EcoNet manager writes (\<open>en75_bmt.c\<close>): writing and erasing a block of the area it is
  meant for, the pending erases, storing the two tables, remapping and unmapping a block.
\<close>

section \<open>Writing and erasing a block\<close>

fun w_write_tries ::
  "nat \<Rightarrow> 'd kernel \<Rightarrow> ('d, 'z) en75_scheme \<Rightarrow> nat \<Rightarrow> byte list \<Rightarrow> byte list \<Rightarrow> int \<Rightarrow>
     int \<times> ('d, 'z) en75_scheme" where
  "w_write_tries 0 E s addr dat oob ret = (ret, s)"
| "w_write_tries (Suc n) E s addr dat oob ret =
     (let (w, d) = k_write E (dev s) addr dat 0 oob; s = s\<lparr>dev := d\<rparr>
      in if wr_ret w = 0 then (0, s) else w_write_tries n E s addr dat oob (wr_ret w))"

text \<open>\<open>WRITE_TRIES\<close> and \<open>ERASE_TRIES\<close> are 3, so \<open>ret\<close> is always assigned.\<close>

definition w_write ::
  "'d kernel \<Rightarrow> ('d, 'z) en75_scheme \<Rightarrow> nat \<Rightarrow> bool \<Rightarrow> byte list \<Rightarrow> bool \<Rightarrow>
     int \<times> ('d, 'z) en75_scheme" where
  "w_write E s bi user_area buf oob =
     (if \<not> block_index_is_sane s bi user_area then (- EINVAL, s)
      else w_write_tries 3 E s (bi * 2 ^ blk_shift s) (if oob then [] else buf) (if oob then buf else []) 0)"

definition w_mark_bad ::
  "'d kernel \<Rightarrow> ('d, 'z) en75_scheme \<Rightarrow> nat \<Rightarrow> bool \<Rightarrow> int \<times> ('d, 'z) en75_scheme" where
  "w_mark_bad E s bi user_area = w_write E s bi user_area [BLOCK_WORN_MARK, 0xff, 0xff, 0xff] True"

fun w_erase_tries ::
  "nat \<Rightarrow> 'd kernel \<Rightarrow> ('d, 'z) en75_scheme \<Rightarrow> nat \<Rightarrow> int \<Rightarrow> int \<times> ('d, 'z) en75_scheme" where
  "w_erase_tries 0 E s bi ret = (ret, s)"
| "w_erase_tries (Suc n) E s bi ret =
     (let (ret, s) = bbt_nand_erase E s bi in if ret = 0 then (ret, s) else w_erase_tries n E s bi ret)"

definition w_erase_one ::
  "'d kernel \<Rightarrow> ('d, 'z) en75_scheme \<Rightarrow> nat \<Rightarrow> bool \<Rightarrow> int \<times> ('d, 'z) en75_scheme" where
  "w_erase_one E s bi user_area =
     (if \<not> block_index_is_sane s bi user_area then (- EINVAL, s) else w_erase_tries 3 E s bi 0)"

section \<open>Loops over the reserve area\<close>

text \<open>A loop over indices whose body may be undefined.\<close>

fun for_each :: "'i list \<Rightarrow> ('i \<Rightarrow> 's \<Rightarrow> 's option) \<Rightarrow> 's \<Rightarrow> 's option" where
  "for_each [] body s = Some s"
| "for_each (i # is) body s = do { s \<leftarrow> body i s; for_each is body s }"

definition set_status :: "nat \<Rightarrow> block_status \<Rightarrow> ('d, 'z) en75_scheme \<Rightarrow> ('d, 'z) en75_scheme option" where
  "set_status i st s =
     do {
       b \<leftarrow> aget (rblocks s) i;
       rs \<leftarrow> aset (rblocks s) i (b\<lparr>bi_status := st\<rparr>);
       Some (s\<lparr>rblocks := rs\<rparr>)
     }"

definition w_erase_pending_block ::
  "'d kernel \<Rightarrow> nat \<Rightarrow> ('d, 'z) en75_scheme \<Rightarrow> ('d, 'z) en75_scheme option" where
  "w_erase_pending_block E i s =
     do {
       bif \<leftarrow> aget (rblocks s) i;
       if bi_status bif \<noteq> BS_NEED_ERASE then Some s
       else do {
         let (ret, s) = w_erase_one E s (bi_index bif) False;
         if ret \<noteq> 0 then do {
           let s = (if ret = - EINVAL then s else snd (w_mark_bad E s (bi_index bif) False));
           set_status i BS_BAD s
         } else set_status i BS_AVAILABLE s
       }
     }"

definition w_erase_pending :: "'d kernel \<Rightarrow> ('d, 'z) en75_scheme \<Rightarrow> ('d, 'z) en75_scheme option" where
  "w_erase_pending E s =
     for_each [0..<nat (reserve_block_count s)] (w_erase_pending_block E) s"

definition mark_for_erasure ::
  "('d, 'z) en75_scheme \<Rightarrow> block_status \<Rightarrow> ('d, 'z) en75_scheme option" where
  "mark_for_erasure s with_status =
     for_each [0..<nat (reserve_block_count s)]
       (\<lambda>i s. do {
          b \<leftarrow> aget (rblocks s) i;
          if bi_status b = with_status then set_status i BS_NEED_ERASE s else Some s
        }) s"

section \<open>Storing the tables\<close>

text \<open>
  The fuel is the number of blocks still to be tried, \<open>UPDATE_TABLE_TRIES\<close> at first. The result
  is an error or the index of the block that was written.
\<close>

fun w_update_tries ::
  "nat \<Rightarrow> 'd kernel \<Rightarrow> ('d, 'z) en75_scheme \<Rightarrow> bool \<Rightarrow> byte list \<Rightarrow>
     ((int + nat) \<times> ('d, 'z) en75_scheme) option" where
  "w_update_tries 0 E s start_from_end buf = Some (Inl (- EIO), s)"
| "w_update_tries (Suc n) E s start_from_end buf =
     do {
       bif \<leftarrow> find_available_block s start_from_end;
       case bif of
         Inl e \<Rightarrow> Some (Inl e, s)
       | Inr i \<Rightarrow> do {
           b \<leftarrow> aget (rblocks s) i;
           let (ret, s) = w_write E s (bi_index b) False buf False;
           if ret \<noteq> 0 then do {
             s \<leftarrow> set_status i BS_NEED_ERASE s;
             w_update_tries n E s start_from_end buf
           } else Some (Inr i, s)
         }
     }"

definition w_update_table ::
  "'d kernel \<Rightarrow> ('d, 'z) en75_scheme \<Rightarrow> bool \<Rightarrow> byte list \<Rightarrow>
     ((int + nat) \<times> ('d, 'z) en75_scheme) option" where
  "w_update_table E s start_from_end buf = w_update_tries 3 E s start_from_end buf"

text \<open>
  The BMT is cleared behind its last entry up to the number of blocks in the reserve area, which
  the code does not compare with the size of the table.
\<close>

definition clear_bmt_tail :: "('d, 'z) en75_scheme \<Rightarrow> ('d, 'z) en75_scheme option" where
  "clear_bmt_tail s =
     for_each [unat (mt_size (en_bmt s))..<nat (reserve_block_count s)]
       (\<lambda>i s. do {
          t \<leftarrow> aset (mt_table (en_bmt s)) i zero_entry;
          Some (s\<lparr>en_bmt := (en_bmt s)\<lparr>mt_table := t\<rparr>\<rparr>)
        }) s"

definition w_sync_bmt :: "'d kernel \<Rightarrow> ('d, 'z) en75_scheme \<Rightarrow> (int \<times> ('d, 'z) en75_scheme) option" where
  "w_sync_bmt E s =
     (if bmt_dirty s = 0 then Some (0, s)
      else do {
        let dirty = bmt_dirty s;
        s \<leftarrow> clear_bmt_tail s;
        let s = s\<lparr>en_bmt := (en_bmt s)\<lparr>mt_cksum :=
               bmt_checksum (k_big_endian E) (en_bmt s) (unat (mt_size (en_bmt s)))\<rparr>\<rparr>;
        (r, s) \<leftarrow> w_update_table E s True (bmt_bytes (k_big_endian E) (en_bmt s));
        case r of
          Inl e \<Rightarrow> Some (e, s)
        | Inr i \<Rightarrow> do {
            s \<leftarrow> mark_for_erasure s BS_BMT;
            s \<leftarrow> set_status i BS_BMT s;
            Some (0, s\<lparr>bmt_dirty := bmt_dirty s - dirty\<rparr>)
          }
      })"

definition w_sync_bbt :: "'d kernel \<Rightarrow> ('d, 'z) en75_scheme \<Rightarrow> (int \<times> ('d, 'z) en75_scheme) option" where
  "w_sync_bbt E s =
     (if bbt_dirty s = 0 \<or> \<not> can_write_factory_bbt s then Some (0, s)
      else do {
        let dirty = bbt_dirty s;
        let n = unat (ft_size (en_bbt s));
        let s = s\<lparr>en_bbt := (en_bbt s)\<lparr>ft_table :=
               take n (ft_table (en_bbt s)) @ replicate (MAX_BBT_SIZE - n) 0\<rparr>\<rparr>;
        let s = s\<lparr>en_bbt := (en_bbt s)\<lparr>ft_cksum :=
               ucast (bbt_checksum (k_big_endian E) (en_bbt s))\<rparr>\<rparr>;
        (r, s) \<leftarrow> w_update_table E s False (bbt_bytes (k_big_endian E) (en_bbt s));
        case r of
          Inl e \<Rightarrow> Some (e, s)
        | Inr i \<Rightarrow> do {
            s \<leftarrow> mark_for_erasure s BS_BBT;
            s \<leftarrow> set_status i BS_BBT s;
            Some (0, s\<lparr>bbt_dirty := bbt_dirty s - dirty\<rparr>)
          }
      })"

definition w_sync_tables :: "'d kernel \<Rightarrow> ('d, 'z) en75_scheme \<Rightarrow> (int \<times> ('d, 'z) en75_scheme) option" where
  "w_sync_tables E s =
     do {
       s \<leftarrow> w_erase_pending E s;
       (ret, s) \<leftarrow> w_sync_bmt E s;
       if ret \<noteq> 0 then Some (ret, s)
       else do {
         (ret, s) \<leftarrow> w_sync_bbt E s;
         if ret \<noteq> 0 then Some (ret, s)
         else do {
           s \<leftarrow> w_erase_pending E s;
           Some (0, s)
         }
       }
     }"

section \<open>Remapping and unmapping\<close>

definition w_make_mapping ::
  "'d kernel \<Rightarrow> ('d, 'z) en75_scheme \<Rightarrow> block_info \<Rightarrow> nat \<Rightarrow> int \<times> ('d, 'z) en75_scheme" where
  "w_make_mapping E s replacement_block bad_block_index =
     (if bad_block_index \<ge> reserve_begin s then (- EINVAL, s)
      else if bi_status replacement_block \<noteq> BS_AVAILABLE then (- EINVAL, s)
      else w_write E s (bi_index replacement_block) False
             ([0xff, 0xff] @ half_bytes (k_big_endian E) (word_of_nat bad_block_index)) True)"

text \<open>Copying is tried \<open>REMAP_COPY_TRIES = 10\<close> times; a failure is only logged.\<close>

fun w_copy_tries ::
  "nat \<Rightarrow> 'd kernel \<Rightarrow> ('d, 'z) en75_scheme \<Rightarrow> nat \<Rightarrow> nat \<Rightarrow> int \<Rightarrow> ('d, 'z) en75_scheme" where
  "w_copy_tries 0 E s dest src copy_len = s"
| "w_copy_tries (Suc n) E s dest src copy_len =
     (let (ret, s) = bbt_nand_copy E s dest src copy_len
      in if ret = 0 then s else w_copy_tries n E s dest src copy_len)"

fun bmt_index_of :: "bmt_entry list \<Rightarrow> nat \<Rightarrow> nat option" where
  "bmt_index_of [] block = None"
| "bmt_index_of (e # es) block =
     (if unat (e_from e) = block then Some 0 else map_option Suc (bmt_index_of es block))"

definition bmt_used :: "('d, 'z) en75_scheme \<Rightarrow> bmt_entry list" where
  "bmt_used s = take (unat (mt_size (en_bmt s))) (mt_table (en_bmt s))"

text \<open>The entry of a block is replaced, or a new one appended.\<close>

definition bmt_enter :: "('d, 'z) en75_scheme \<Rightarrow> nat \<Rightarrow> nat \<Rightarrow> ('d, 'z) en75_scheme option" where
  "bmt_enter s block new_index =
     (let bmt = en_bmt s in
      case bmt_index_of (bmt_used s) block of
        Some i \<Rightarrow> do {
          e \<leftarrow> aget (mt_table bmt) i;
          t \<leftarrow> aset (mt_table bmt) i (e\<lparr>e_to := word_of_nat new_index\<rparr>);
          Some (s\<lparr>en_bmt := bmt\<lparr>mt_table := t\<rparr>, bmt_dirty := bmt_dirty s + 1\<rparr>)
        }
      | None \<Rightarrow> do {
          t \<leftarrow> aset (mt_table bmt) (unat (mt_size bmt))
                 \<lparr>e_from = word_of_nat block, e_to = word_of_nat new_index\<rparr>;
          Some (s\<lparr>en_bmt := bmt\<lparr>mt_size := mt_size bmt + 1, mt_table := t\<rparr>, bmt_dirty := bmt_dirty s + 1\<rparr>)
        })"

definition w_remap_block ::
  "'d kernel \<Rightarrow> ('d, 'z) en75_scheme \<Rightarrow> nat \<Rightarrow> nat option \<Rightarrow> int \<Rightarrow>
     (int \<times> ('d, 'z) en75_scheme) option" where
  "w_remap_block E s block maybe_mapped_block copy_len =
     (if mt_size (en_bmt s) = 0xff then Some (- ENOSPC, s)
      else do {
        new_block \<leftarrow> find_available_block s False;
        case new_block of
          Inl _ \<Rightarrow> Some (- ENOSPC, s)
        | Inr i \<Rightarrow> do {
            new_info \<leftarrow> aget (rblocks s) i;
            let (ret, s) = w_make_mapping E s new_info block;
            if ret \<noteq> 0 then do {
              s \<leftarrow> set_status i BS_NEED_ERASE s;
              Some (ret, s)
            } else do {
              copy_from \<leftarrow> (case maybe_mapped_block of
                              None \<Rightarrow> Some block
                            | Some j \<Rightarrow> map_option bi_index (aget (rblocks s) j));
              let s = (if copy_len \<noteq> 0 then w_copy_tries 10 E s (bi_index new_info) copy_from copy_len else s);
              s \<leftarrow> bmt_enter s block (bi_index new_info);
              s \<leftarrow> set_status i BS_MAPPED s;
              let (_, s) = w_mark_bad E s block True;
              s \<leftarrow> (case maybe_mapped_block of
                      None \<Rightarrow> Some s | Some j \<Rightarrow> set_status j BS_NEED_ERASE s);
              Some (0, s)
            }
          }
      })"

datatype unmap_erase = UE_NO_ERASE | UE_ATTEMPT_ERASE | UE_REQUIRE_ERASE

text \<open>The index of the block of the reserve area with a given number.\<close>

fun rblock_index :: "block_info list \<Rightarrow> nat list \<Rightarrow> nat \<Rightarrow> nat option option" where
  "rblock_index rs [] block = Some None"
| "rblock_index rs (j # js) block =
     do {
       b \<leftarrow> aget rs j;
       if bi_index b = block then Some (Some j) else rblock_index rs js block
     }"

definition w_unmap_block ::
  "'d kernel \<Rightarrow> ('d, 'z) en75_scheme \<Rightarrow> nat \<Rightarrow> unmap_erase \<Rightarrow> (int \<times> ('d, 'z) en75_scheme) option" where
  "w_unmap_block E s block erase =
     (case bmt_index_of (bmt_used s) block of
        None \<Rightarrow> Some (- EINVAL, s)
      | Some bmt_index \<Rightarrow> do {
          e \<leftarrow> aget (mt_table (en_bmt s)) bmt_index;
          mapped_block \<leftarrow> rblock_index (rblocks s) [0..<nat (reserve_block_count s)] (unat (e_to e));
          case mapped_block of
            None \<Rightarrow> Some (- EINVAL, s)
          | Some j \<Rightarrow> do {
              b \<leftarrow> aget (rblocks s) j;
              let (ret, s) = (if erase \<noteq> UE_NO_ERASE then w_erase_one E s (bi_index b) False else (0, s));
              if ret \<noteq> 0 \<and> erase = UE_REQUIRE_ERASE then Some (ret, s)
              else do {
                let bmt_size = unat (mt_size (en_bmt s)) - 1;
                last \<leftarrow> aget (mt_table (en_bmt s)) bmt_size;
                t \<leftarrow> aset (mt_table (en_bmt s)) bmt_index last;
                t \<leftarrow> aset t bmt_size zero_entry;
                let s = s\<lparr>en_bmt := (en_bmt s)\<lparr>mt_size := word_of_nat bmt_size, mt_table := t\<rparr>,
                         bmt_dirty := bmt_dirty s + 1\<rparr>;
                s \<leftarrow> set_status j BS_NEED_ERASE s;
                Some (0, s)
              }
            }
        })"

end
