(* ===== verification/En75_Init.thy ===== *)
theory En75_Init
  imports En75_Write
begin

text \<open>
  Starting the EcoNet manager (\<open>en75_bmt.c\<close>): scanning the reserve area for the tables, rebuilding a
  table that is missing, setting the factory bad blocks, and the operations the front end calls.
\<close>

section \<open>Reading block marks\<close>

datatype block_is_bad = BB_GOOD | BB_FACTORY_BAD | BB_WORN | BB_UNKNOWN_BAD

definition fdm_is_bad :: "byte list \<Rightarrow> block_is_bad" where
  "fdm_is_bad fdm =
     (if fdm ! 0 = 0xff \<and> fdm ! 1 = 0xff then BB_GOOD
      else if fdm ! 0 = BLOCK_WORN_MARK then BB_WORN
      else if fdm ! 0 = 0 \<or> fdm ! 1 = 0 then BB_FACTORY_BAD
      else BB_UNKNOWN_BAD)"

definition fdm_is_mapped :: "byte list \<Rightarrow> bool" where
  "fdm_is_mapped fdm =
     (if fdm ! 0 \<noteq> 0xff \<or> fdm ! 1 \<noteq> 0xff then False else fdm ! 2 \<noteq> 0xff \<or> fdm ! 3 \<noteq> 0xff)"

text \<open>
  \<open>bbt_nand_read(blk_pg(i), data_buf, pg_size, fdm, sizeof(fdm))\<close>. The local buffer \<open>fdm\<close> of
  the reconstruction loops is not initialised; it is not looked at unless the driver reports
  success, and a driver that does has filled it.
\<close>

definition read_fdm ::
  "'d kernel \<Rightarrow> ('d, 'z) en75_scheme \<Rightarrow> nat \<Rightarrow> byte list \<Rightarrow> int \<times> byte list \<times> ('d, 'z) en75_scheme" where
  "read_fdm E s i fdm =
     (let (ret, dat, fdm, s) = bbt_nand_read E s (blk_pg s i) (data_buf s) (pg_size s) fdm 4
      in (ret, fdm, s\<lparr>data_buf := dat\<rparr>))"

section \<open>Rebuilding the tables\<close>

text \<open>
  The second \<open>memset\<close> is given the address of the whole table and the size of its entries: it clears
  the header again and leaves the last twenty bytes of the entries.
\<close>

definition empty_bmt :: "bool \<Rightarrow> bmt_table \<Rightarrow> bmt_table option" where
  "empty_bmt be bmt =
     do {
       m \<leftarrow> memput (bmt_bytes be bmt) 0 (replicate 20 0xff);
       m \<leftarrow> memput m 0 (replicate 1024 0);
       Some ((bytes_bmt be m)\<lparr>mt_sig := BMT_SIG, mt_version := 1, mt_size := 0\<rparr>)
     }"

definition r_reconstruct_bmt_block ::
  "'d kernel \<Rightarrow> nat \<Rightarrow> ('d, 'z) en75_scheme \<Rightarrow> ('d, 'z) en75_scheme option" where
  "r_reconstruct_bmt_block E i s =
     do {
       let (ret, fdm, s) = read_fdm E s i (replicate 4 0);
       if ret < 0 \<or> fdm_is_bad fdm \<noteq> BB_GOOD then Some s
       else do {
         let mapped_block = of_half (k_big_endian E) (drop 2 fdm);
         if unat mapped_block \<ge> reserve_begin s then Some s
         else do {
           t \<leftarrow> aset (mt_table (en_bmt s)) (unat (mt_size (en_bmt s)))
                  \<lparr>e_from = mapped_block, e_to = word_of_nat i\<rparr>;
           Some (s\<lparr>en_bmt := (en_bmt s)\<lparr>mt_size := mt_size (en_bmt s) + 1, mt_table := t\<rparr>\<rparr>)
         }
       }
     }"

definition r_reconstruct_bmt ::
  "'d kernel \<Rightarrow> ('d, 'z) en75_scheme \<Rightarrow> ('d, 'z) en75_scheme option" where
  "r_reconstruct_bmt E s =
     do {
       bmt \<leftarrow> empty_bmt (k_big_endian E) (en_bmt s);
       let s = s\<lparr>en_bmt := bmt, bmt_dirty := bmt_dirty s + 1\<rparr>;
       for_each (rev [reserve_begin s..<total_blks s]) (r_reconstruct_bmt_block E) s
     }"

definition empty_bbt :: bbt_table where
  "empty_bbt = \<lparr>ft_sig = RAWB_SIG, ft_cksum = 0xffffffff, ft_version = 1, ft_size = 0,
     ft_reserved = [0xff, 0xff], ft_table = replicate MAX_BBT_SIZE 0\<rparr>"

definition r_reconstruct_bbt_block ::
  "'d kernel \<Rightarrow> nat \<Rightarrow> ('d, 'z) en75_scheme \<Rightarrow> ('d, 'z) en75_scheme option" where
  "r_reconstruct_bbt_block E i s =
     (if bmt_index_of (bmt_used s) i \<noteq> None then Some s
      else do {
        let (ret, fdm, s) = read_fdm E s i (replicate 4 0);
        if ret = 0 \<and> (fdm_is_bad fdm = BB_GOOD \<or> fdm_is_bad fdm = BB_WORN) then Some s
        else do {
          t \<leftarrow> aset (ft_table (en_bbt s)) (unat (ft_size (en_bbt s))) (word_of_nat i);
          Some (s\<lparr>en_bbt := (en_bbt s)\<lparr>ft_size := ft_size (en_bbt s) + 1, ft_table := t\<rparr>\<rparr>)
        }
      })"

text \<open>\<open>r_reconstruct_bbt\<close>, which is only called with the context's own table as its output.\<close>

definition r_reconstruct_bbt ::
  "'d kernel \<Rightarrow> ('d, 'z) en75_scheme \<Rightarrow> (int \<times> ('d, 'z) en75_scheme) option" where
  "r_reconstruct_bbt E s =
     (if mt_version (en_bmt s) = 0 then Some (- EINVAL, s)
      else do {
        let s = s\<lparr>en_bbt := empty_bbt\<rparr>;
        s \<leftarrow> for_each [0..<reserve_begin s] (r_reconstruct_bbt_block E) s;
        Some (0, s\<lparr>en_bbt := sort_bbt (en_bbt s)\<rparr>)
      })"

section \<open>Scanning the reserve area\<close>

definition block_is_erased :: "byte list \<Rightarrow> nat \<Rightarrow> byte list \<Rightarrow> nat \<Rightarrow> bool" where
  "block_is_erased data datalen oob ooblen =
     (list_all (\<lambda>b. b = 0xff) (take datalen data) \<and> list_all (\<lambda>b. b = 0xff) (take ooblen oob))"

text \<open>Parsing a table: \<open>Some None\<close> is \<open>-EINVAL\<close>, which leaves the output as it was.\<close>

definition try_parse_bbt :: "bool \<Rightarrow> byte list \<Rightarrow> nat \<Rightarrow> bbt_table option option" where
  "try_parse_bbt be buf len =
     (if len < 2012 then Some None
      else do {
        m \<leftarrow> memget buf 0 2012;
        let workspace = bytes_bbt be m;
        if ft_sig workspace \<noteq> RAWB_SIG then Some None
        else if ft_cksum workspace \<noteq> ucast (bbt_checksum be workspace) then Some None
        else Some (Some (sort_bbt workspace))
      })"

definition try_parse_bmt :: "bool \<Rightarrow> byte list \<Rightarrow> nat \<Rightarrow> bmt_table option option" where
  "try_parse_bmt be buf len =
     (if len < 1044 then Some None
      else do {
        m \<leftarrow> memget buf 0 1044;
        let workspace = bytes_bmt be m;
        if mt_sig workspace \<noteq> BMT_SIG then Some None
        else if mt_cksum workspace \<noteq> bmt_checksum be workspace (unat (mt_size workspace)) then Some None
        else Some (Some workspace)
      })"

text \<open>\<open>INITIAL_READ_TRIES\<close> is 3.\<close>

fun read_fdm_tries ::
  "nat \<Rightarrow> 'd kernel \<Rightarrow> ('d, 'z) en75_scheme \<Rightarrow> nat \<Rightarrow> byte list \<Rightarrow> int \<Rightarrow>
     int \<times> byte list \<times> ('d, 'z) en75_scheme" where
  "read_fdm_tries 0 E s i fdm ret = (ret, fdm, s)"
| "read_fdm_tries (Suc n) E s i fdm ret =
     (let (ret, fdm, s) = read_fdm E s i fdm
      in if ret = 0 then (ret, fdm, s) else read_fdm_tries n E s i fdm ret)"

text \<open>What a block of the reserve area holds, taking over a table found in it.\<close>

definition classify_block ::
  "'d kernel \<Rightarrow> ('d, 'z) en75_scheme \<Rightarrow> int \<Rightarrow> byte list \<Rightarrow> (block_status \<times> ('d, 'z) en75_scheme) option"
where
  "classify_block E s ret fdm =
     (if ret \<noteq> 0 \<or> fdm_is_bad fdm \<noteq> BB_GOOD then Some (BS_BAD, s)
      else if fdm_is_mapped fdm then Some (BS_MAPPED, s)
      else do {
        bbt \<leftarrow> try_parse_bbt (k_big_endian E) (data_buf s) (pg_size s);
        case bbt of
          Some t \<Rightarrow> Some (BS_BBT, s\<lparr>en_bbt := t\<rparr>)
        | None \<Rightarrow> do {
            bmt \<leftarrow> try_parse_bmt (k_big_endian E) (data_buf s) (pg_size s);
            case bmt of
              Some t \<Rightarrow> Some (BS_BMT, s\<lparr>en_bmt := t\<rparr>)
            | None \<Rightarrow>
                if block_is_erased (data_buf s) (pg_size s) fdm 4 then Some (BS_AVAILABLE, s)
                else Some (BS_NEED_ERASE, s)
          }
      })"

text \<open>
  The loop goes down from the last block; the result is the value of \<open>cursor\<close> behind it. The array
  grows as blocks are entered.
\<close>

fun r_scan_loop ::
  "nat \<Rightarrow> 'd kernel \<Rightarrow> ('d, 'z) en75_scheme \<Rightarrow> byte list \<Rightarrow> nat \<Rightarrow> (nat \<times> ('d, 'z) en75_scheme) option" where
  "r_scan_loop 0 E s fdm good_blocks = Some (0, s)"
| "r_scan_loop (Suc c) E s fdm good_blocks =
     do {
       let cursor = Suc c;
       let (ret, fdm, s) = read_fdm_tries 3 E s cursor fdm 0;
       (st, s) \<leftarrow> classify_block E s ret fdm;
       let s = s\<lparr>rblocks := rblocks s @ [\<lparr>bi_index = u16 (int cursor), bi_status = st\<rparr>]\<rparr>;
       let good_blocks = good_blocks + (if st \<noteq> BS_BAD then 1 else 0);
       if good_blocks \<ge> REQUIRED_GOOD_BLOCKS (u16 (int (total_blks s))) then Some (cursor, s)
       else r_scan_loop c E s fdm good_blocks
     }"

text \<open>
  \<open>alloc\<close> is the result of the allocation of \<open>rblocks\<close>, made once when the loop is entered. The
  variable \<open>total_blks\<close> is 16 bits wide.
\<close>

definition r_scan_reserve ::
  "'d kernel \<Rightarrow> bool \<Rightarrow> ('d, 'z) en75_scheme \<Rightarrow> (int \<times> ('d, 'z) en75_scheme) option" where
  "r_scan_reserve E alloc s =
     (let last = int (u16 (int (total_blks s))) - 1
      in if last > 0 \<and> \<not> alloc then Some (- ENOMEM, s\<lparr>rblocks := []\<rparr>)
         else if last < 0 then Some (0, s\<lparr>reserve_begin := u16 last\<rparr>)
         else do {
           (cursor, s) \<leftarrow> r_scan_loop (nat last) E (s\<lparr>rblocks := []\<rparr>) (replicate 4 0) 0;
           if cursor = 0 then Some (- ENOSPC, s)
           else Some (0, s\<lparr>reserve_begin := u16 (int cursor)\<rparr>)
         })"

section \<open>Factory bad blocks\<close>

text \<open>
  One round of the loop that empties the BBT, for index \<open>i\<close>. The entry is overwritten before the
  block to erase is read from it.
\<close>

definition clear_factory_block ::
  "'d kernel \<Rightarrow> nat list \<Rightarrow> nat \<Rightarrow> ('d, 'z) en75_scheme \<Rightarrow> ('d, 'z) en75_scheme option" where
  "clear_factory_block E blocks i s =
     do {
       f \<leftarrow> aget (ft_table (en_bbt s)) i;
       let readd = unat f \<in> set blocks;
       let size = ft_size (en_bbt s) - 1;
       last \<leftarrow> aget (ft_table (en_bbt s)) (unat size);
       t \<leftarrow> aset (ft_table (en_bbt s)) i last;
       t \<leftarrow> aset t (unat size) 0;
       let s = s\<lparr>en_bbt := (en_bbt s)\<lparr>ft_size := size, ft_table := t\<rparr>\<rparr>;
       if readd then Some s
       else do {
         f \<leftarrow> aget t i;
         Some (snd (w_erase_one E s (unat f) True))
       }
     }"

definition unmap_factory_block ::
  "'d kernel \<Rightarrow> nat \<Rightarrow> ('d, 'z) en75_scheme \<Rightarrow> ('d, 'z) en75_scheme option" where
  "unmap_factory_block E b s =
     (if get_mapping_block s (s32 (int b)) < int (reserve_begin s) then Some s
      else do { (_, s) \<leftarrow> w_unmap_block E s (u16 (int b)) UE_NO_ERASE; Some s })"

definition add_factory_block ::
  "'d kernel \<Rightarrow> nat \<Rightarrow> ('d, 'z) en75_scheme \<Rightarrow> ('d, 'z) en75_scheme option" where
  "add_factory_block E b s =
     (if b \<in> set (map unat (take (unat (ft_size (en_bbt s))) (ft_table (en_bbt s)))) then Some s
      else do {
        t \<leftarrow> aset (ft_table (en_bbt s)) (unat (ft_size (en_bbt s))) (word_of_nat b);
        let s = s\<lparr>en_bbt := (en_bbt s)\<lparr>ft_size := ft_size (en_bbt s) + 1, ft_table := t\<rparr>\<rparr>;
        Some (snd (w_mark_bad E s (u16 (int b)) True))
      })"

definition w_factory_badblocks ::
  "'d kernel \<Rightarrow> ('d, 'z) en75_scheme \<Rightarrow> nat list \<Rightarrow> (int \<times> ('d, 'z) en75_scheme) option" where
  "w_factory_badblocks E s blocks =
     (let fs = map unat (take (unat (ft_size (en_bbt s))) (ft_table (en_bbt s))) in
      if ft_version (en_bbt s) = 0 then Some (- EINVAL, s)
      else if mt_version (en_bmt s) = 0 then Some (- EINVAL, s)
      else if \<not> list_all (\<lambda>b. b < reserve_begin s) blocks then Some (- EINVAL, s)
      else if length blocks > MAX_BBT_SIZE then Some (- ENOSPC, s)
      else if \<not> can_write_factory_bbt s then
        (if length fs \<noteq> length blocks then Some (- EIO, s)
         else if \<not> list_all (\<lambda>b. b \<in> set fs) blocks then Some (- EIO, s)
         else Some (0, s))
      else do {
        s \<leftarrow> for_each (rev [0..<length fs]) (clear_factory_block E blocks) s;
        s \<leftarrow> for_each blocks (unmap_factory_block E) s;
        s \<leftarrow> for_each blocks (add_factory_block E) s;
        Some (0, s\<lparr>en_bbt := sort_bbt (en_bbt s), bbt_dirty := bbt_dirty s + 1\<rparr>)
      })"

section \<open>Ranges that may be remapped\<close>

text \<open>
  \<open>alloc\<close> is the result of the allocation. After one has failed, a later one would leave the first
  elements of the array uninitialised.
\<close>

definition add_remap_range ::
  "bool \<Rightarrow> ('d, 'z) en75_scheme \<Rightarrow> nat \<Rightarrow> nat \<Rightarrow> (int \<times> ('d, 'z) en75_scheme) option" where
  "add_remap_range alloc s begin_block size_blocks =
     (if begin_block + size_blocks > reserve_begin s then Some (- EINVAL, s)
      else if \<not> alloc then Some (- ENOMEM, s\<lparr>can_remap_ranges := None\<rparr>)
      else case can_remap_ranges s of
        None \<Rightarrow> if can_remap_count s = 0
          then Some (0, s\<lparr>can_remap_ranges := Some [(begin_block, u16 (int (begin_block + size_blocks)))],
                         can_remap_count := 1\<rparr>)
          else None
      | Some rs \<Rightarrow>
          Some (0, s\<lparr>can_remap_ranges := Some (rs @ [(begin_block, u16 (int (begin_block + size_blocks)))]),
                    can_remap_count := u16 (int (can_remap_count s) + 1)\<rparr>))"

section \<open>Initialisation\<close>

text \<open>
  What the device tree and the allocator answer: the properties of the node, the partitions with their
  \<open>reg\<close> cells, the results of the allocation of \<open>rblocks\<close> and of the one for every range.
\<close>

record en75_node =
  of_assert_reserve_size :: "int option"
  of_can_write_factory_bbt :: bool
  of_factory_badblocks :: "nat list option"
  of_enable_remap :: bool
  of_partitions :: "(nat \<times> nat) option list"
  alloc_rblocks :: bool
  alloc_ranges :: "nat \<Rightarrow> bool"

text \<open>
  A child of the partitions node, with its \<open>reg\<close> property. The loop over them asks the device's own
  node, not the partition's, whether remapping is enabled.
\<close>

definition add_partition ::
  "(nat \<Rightarrow> bool) \<Rightarrow> bool \<Rightarrow> (nat \<times> nat) option \<Rightarrow> ('d, 'z) en75_scheme \<Rightarrow> ('d, 'z) en75_scheme option"
where
  "add_partition alloc np_enabled reg s =
     (if \<not> np_enabled then Some s
      else case reg of
        None \<Rightarrow> Some s
      | Some (start, sz) \<Rightarrow>
          if start mod 2 ^ blk_shift s \<noteq> 0 then Some s
          else if sz mod 2 ^ blk_shift s \<noteq> 0 then Some s
          else do {
            (_, s) \<leftarrow> add_remap_range (alloc (can_remap_count s)) s
                          (u16 (int (start div 2 ^ blk_shift s))) (u16 (int (sz div 2 ^ blk_shift s)));
            Some s
          })"

definition w_add_ranges :: "('d, 'z) en75_scheme \<Rightarrow> en75_node \<Rightarrow> ('d, 'z) en75_scheme option" where
  "w_add_ranges s np =
     (if of_enable_remap np
      then do { (_, s) \<leftarrow> add_remap_range (alloc_ranges np (can_remap_count s)) s 0 (reserve_begin s); Some s }
      else for_each (of_partitions np) (add_partition (alloc_ranges np) (of_enable_remap np)) s)"

text \<open>Which tables are there and which have to be rebuilt.\<close>

definition w_find_tables ::
  "'d kernel \<Rightarrow> ('d, 'z) en75_scheme \<Rightarrow> en75_node \<Rightarrow> (int \<times> ('d, 'z) en75_scheme) option" where
  "w_find_tables E s np =
     (if ft_version (en_bbt s) \<noteq> 0 then
        (if mt_version (en_bmt s) = 0 then do { s \<leftarrow> r_reconstruct_bmt E s; Some (0, s) } else Some (0, s))
      else if \<not> can_write_factory_bbt s then Some (- EIO, s)
      else if of_factory_badblocks np \<noteq> None then
        (if mt_version (en_bmt s) = 0 then do { s \<leftarrow> r_reconstruct_bmt E s; Some (0, s) } else Some (0, s))
      else if mt_version (en_bmt s) \<noteq> 0 then r_reconstruct_bbt E s
      else do { s \<leftarrow> r_reconstruct_bmt E s; r_reconstruct_bbt E s })"

definition w_init ::
  "'d kernel \<Rightarrow> ('d, 'z) en75_scheme \<Rightarrow> en75_node \<Rightarrow> (int \<times> ('d, 'z) en75_scheme) option" where
  "w_init E s np =
     do {
       (ret, s) \<leftarrow> r_scan_reserve E (alloc_rblocks np) s;
       if ret \<noteq> 0 then Some (ret, s)
       else if (case of_assert_reserve_size np of
                  None \<Rightarrow> False | Some n \<Rightarrow> n \<noteq> reserve_block_count s) then Some (- EINVAL, s)
       else do {
         let s = (if of_can_write_factory_bbt np then s\<lparr>can_write_factory_bbt := True\<rparr> else s);
         s \<leftarrow> w_add_ranges s np;
         (ret, s) \<leftarrow> w_find_tables E s np;
         if ret \<noteq> 0 then Some (ret, s)
         else do {
           (ret, s) \<leftarrow> (case of_factory_badblocks np of
                         None \<Rightarrow> Some (0, s) | Some blocks \<Rightarrow> w_factory_badblocks E s blocks);
           if ret \<noteq> 0 then Some (ret, s)
           else Some (0, s\<lparr>mtd_size := nat (s32 ((int (reserve_begin s) - uint (ft_size (en_bbt s)))
                                  * 2 ^ blk_shift s) mod 2 ^ 64)\<rparr>)
         }
       }
     }"

definition pub_init ::
  "'d kernel \<Rightarrow> ('d, 'z) en75_scheme \<Rightarrow> en75_node \<Rightarrow> (int \<times> ('d, 'z) en75_scheme) option" where
  "pub_init E s np =
     do {
       (ret, s) \<leftarrow> w_init E s np;
       if ret = 0 then do { (_, s) \<leftarrow> w_sync_tables E s; Some (ret, s) } else Some (ret, s)
     }"

section \<open>The operations of the manager\<close>

text \<open>The static context before \<open>pub_init\<close>.\<close>

definition zero_bmt :: bmt_table where
  "zero_bmt = \<lparr>mt_sig = replicate 3 0, mt_version = 0, mt_bad_count = 0, mt_size = 0, mt_cksum = 0,
     mt_reserved = replicate 13 0, mt_table = replicate MAX_BMT_SIZE zero_entry\<rparr>"

definition zero_bbt :: bbt_table where
  "zero_bbt = \<lparr>ft_sig = replicate 4 0, ft_cksum = 0, ft_version = 0, ft_size = 0,
     ft_reserved = replicate 2 0, ft_table = replicate MAX_BBT_SIZE 0\<rparr>"

definition zero_en75 :: "'d bmtd \<Rightarrow> 'd en75" where
  "zero_en75 s = bmtd.extend s \<lparr>en_bbt = zero_bbt, en_bmt = zero_bmt, rblocks = [], reserve_begin = 0,
     can_remap_count = 0, can_remap_ranges = None, bbt_dirty = 0, bmt_dirty = 0,
     can_write_factory_bbt = False\<rparr>"

definition in_remap_range :: "('d, 'z) en75_scheme \<Rightarrow> nat \<Rightarrow> bool option" where
  "in_remap_range s user_block =
     (if can_remap_count s = 0 then Some False
      else case can_remap_ranges s of
        None \<Rightarrow> None
      | Some rs \<Rightarrow> Some (list_ex (\<lambda>(b, e). b \<le> user_block \<and> user_block < e) (take (can_remap_count s) rs)))"

text \<open>\<open>block\<close> is a \<open>u16\<close>, so the test for a negative number is never true.\<close>

definition pub_remap_block ::
  "'d kernel \<Rightarrow> ('d, 'z) en75_scheme \<Rightarrow> nat \<Rightarrow> nat \<Rightarrow> int \<Rightarrow> (bool \<times> ('d, 'z) en75_scheme) option" where
  "pub_remap_block E s user_block mapped_block_idx copy_len =
     do {
       in_range \<leftarrow> in_remap_range s user_block;
       if \<not> in_range then Some (False, s)
       else do {
         let block = u16 (get_mapping_block_bbt s (int user_block));
         if user_block \<ge> reserve_begin s then Some (False, s)
         else do {
           mapped \<leftarrow> (if mapped_block_idx \<noteq> block
                      then rblock_index (rblocks s) [0..<nat (reserve_block_count s)] mapped_block_idx
                      else Some None);
           if mapped_block_idx \<noteq> block \<and> mapped = None then Some (False, s)
           else do {
             (ret, s) \<leftarrow> w_remap_block E s block mapped copy_len;
             (_, s) \<leftarrow> w_sync_tables E s;
             Some (ret \<noteq> - ENOSPC, s)
           }
         }
       }
     }"

definition pub_unmap_block ::
  "'d kernel \<Rightarrow> ('d, 'z) en75_scheme \<Rightarrow> nat \<Rightarrow> ('d, 'z) en75_scheme option" where
  "pub_unmap_block E s user_block =
     (let block = get_mapping_block_bbt s (int user_block) in
      if block < 0 \<or> user_block \<ge> reserve_begin s then Some s
      else do {
        (_, s) \<leftarrow> w_unmap_block E s (nat block) UE_REQUIRE_ERASE;
        (_, s) \<leftarrow> w_sync_tables E s;
        Some s
      })"

definition pub_get_mapping_block :: "('d, 'z) en75_scheme \<Rightarrow> int \<Rightarrow> int option" where
  "pub_get_mapping_block s user_block = Some (get_mapping_block s user_block)"

definition pub_debug :: "nat \<Rightarrow> int" where
  "pub_debug val = 0"

text \<open>The initialiser of \<open>en75_bmt_ops\<close> leaves the signature out.\<close>

definition en75_bmt_ops :: "'d kernel \<Rightarrow> ('d, 'z) en75_scheme bmt_ops" where
  "en75_bmt_ops E = \<lparr>op_sig = [], op_remap_block = pub_remap_block E,
     op_unmap_block = pub_unmap_block E, op_get_mapping_block = pub_get_mapping_block\<rparr>"

end
