(* ===== verification/En75_Map.thy ===== *)
theory En75_Map
  imports En75_Init
begin

text \<open>
  The mapping of the EcoNet manager: a user block goes past the factory bad blocks to the block of the
  user area with its rank among the good ones, and from there to the block of the reserve area the
  BMT has for it.
\<close>

section \<open>Past the factory bad blocks\<close>

definition fbs :: "('d, 'z) en75_scheme \<Rightarrow> nat list" where
  "fbs s = map unat (take (unat (ft_size (en_bbt s))) (ft_table (en_bbt s)))"

definition user_blocks :: "('d, 'z) en75_scheme \<Rightarrow> nat list" where
  "user_blocks s = filter (\<lambda>b. b \<notin> set (fbs s)) [0..<reserve_begin s]"

lemma uint_int_nat:
  "uint w \<le> int n \<longleftrightarrow> unat w \<le> n" "int n < uint w \<longleftrightarrow> n < unat w" "uint w = int n \<longleftrightarrow> unat w = n"
  for w :: "'a :: len word"
  by (metis of_nat_le_iff uint_nat, metis of_nat_less_iff uint_nat, metis of_nat_eq_iff uint_nat)

lemma shift_past_above: "\<forall>f \<in> set fs. b < unat f \<Longrightarrow> shift_past fs (int b) = int b"
  by (induction fs) (auto simp: uint_int_nat)

lemma shift_past_rank:
  "sorted_wrt (<) (map unat fs) \<Longrightarrow> \<exists>p. shift_past fs (int b) = int p \<and> b \<le> p
     \<and> p \<notin> set (map unat fs) \<and> length (filter (\<lambda>f. f < p) (map unat fs)) + b = p"
proof (induction fs arbitrary: b)
  case (Cons f fs)
  have above: "\<forall>g \<in> set fs. unat f < unat g" using Cons.prems by simp
  show ?case
  proof (cases "unat f \<le> b")
    case True
    obtain p where p: "shift_past fs (int (Suc b)) = int p" "Suc b \<le> p" "p \<notin> set (map unat fs)"
      "length (filter (\<lambda>f. f < p) (map unat fs)) + Suc b = p"
      using Cons.IH [of "Suc b"] Cons.prems by auto
    then have "unat f < p" using True by simp
    then have "shift_past (f # fs) (int b) = int p" "p \<notin> set (map unat (f # fs))"
      "length (filter (\<lambda>f. f < p) (map unat (f # fs))) + b = p"
      using p True by (simp_all add: uint_int_nat add.commute [of 1])
    then show ?thesis using p(2) by (intro exI [of _ p]) simp
  next
    case False
    then have "\<forall>g \<in> set fs. b < unat g" using above by auto
    then have "shift_past (f # fs) (int b) = int b" using shift_past_above False by (simp add: uint_int_nat)
    moreover have "filter (\<lambda>g. g < b) (map unat (f # fs)) = []"
      using False above by (auto simp: filter_empty_conv)
    moreover have "b \<notin> set (map unat (f # fs))" using False above by auto
    ultimately show ?thesis by (intro exI [of _ b]) simp
  qed
qed simp

text \<open>An element of a filtered range is found at its rank.\<close>

lemma nth_filter_rank:
  assumes "P p" "p < n"
  shows "length (filter P [0..<p]) < length (filter P [0..<n])"
    "filter P [0..<n] ! length (filter P [0..<p]) = p"
proof -
  have "[0..<n] = [0..<p] @ p # [Suc p..<n]"
    using assms(2) upt_add_eq_append [of 0 p "n - p"] by (simp add: upt_conv_Cons)
  then have "filter P [0..<n] = filter P [0..<p] @ p # filter P [Suc p..<n]" using assms(1) by simp
  then show "length (filter P [0..<p]) < length (filter P [0..<n])"
    "filter P [0..<n] ! length (filter P [0..<p]) = p" by simp_all
qed

lemma length_filter_notin:
  assumes "distinct fs"
  shows "length (filter (\<lambda>b. b \<notin> set fs) [0..<p]) + length (filter (\<lambda>f. f < p) fs) = p"
proof -
  have "set (filter (\<lambda>b. b \<in> set fs) [0..<p]) = set (filter (\<lambda>f. f < p) fs)" by auto
  then have "length (filter (\<lambda>b. b \<in> set fs) [0..<p]) = length (filter (\<lambda>f. f < p) fs)"
    using assms by (metis distinct_card distinct_filter distinct_upt)
  moreover have "length (filter (\<lambda>b. b \<in> set fs) [0..<p]) + length (filter (\<lambda>b. b \<notin> set fs) [0..<p]) = p"
    using sum_length_filter_compl [of "\<lambda>b. b \<in> set fs" "[0..<p]"] by simp
  ultimately show ?thesis by simp
qed

lemma mapping_bbt_eq:
  assumes "sorted_wrt (<) (fbs s)"
  shows "get_mapping_block_bbt s (int b) =
    (if b < length (user_blocks s) then int (user_blocks s ! b) else - EINVAL)"
proof -
  obtain p where p: "shift_past (take (unat (ft_size (en_bbt s))) (ft_table (en_bbt s))) (int b) = int p"
    "p \<notin> set (fbs s)" "length (filter (\<lambda>f. f < p) (fbs s)) + b = p"
    using shift_past_rank [of _ b] assms unfolding fbs_def by blast
  have "distinct (fbs s)" using assms by (simp add: strict_sorted_iff)
  then have b: "length (filter (\<lambda>b. b \<notin> set (fbs s)) [0..<p]) = b"
    using length_filter_notin [of "fbs s" p] p(3) by simp
  show ?thesis
  proof (cases "p < reserve_begin s")
    case True
    then have "b < length (user_blocks s)" "user_blocks s ! b = p"
      using nth_filter_rank [of "\<lambda>b. b \<notin> set (fbs s)" p "reserve_begin s"] p(2) b
      by (simp_all add: user_blocks_def)
    then show ?thesis using p(1) True by (simp add: get_mapping_block_bbt_def Let_def)
  next
    case False
    then have "[0..<p] = [0..<reserve_begin s] @ [reserve_begin s..<p]"
      using upt_add_eq_append [of 0 "reserve_begin s" "p - reserve_begin s"] by simp
    then have "length (user_blocks s) \<le> b" using b by (simp add: user_blocks_def)
    then show ?thesis using p(1) False by (simp add: get_mapping_block_bbt_def Let_def)
  qed
qed

lemma user_blocks_below: "b < length (user_blocks s) \<Longrightarrow> user_blocks s ! b < reserve_begin s"
  using nth_mem [of b "user_blocks s"] by (auto simp: user_blocks_def)

lemma user_blocks_distinct: "distinct (user_blocks s)"
  by (simp add: user_blocks_def)

section \<open>Through the BMT\<close>

lemma bmt_find_none: "\<forall>e \<in> set es. uint (e_from e) \<noteq> b \<Longrightarrow> bmt_find es b = b"
  by (induction es) auto

lemma bmt_find_mem:
  "bmt_find es b \<noteq> b \<Longrightarrow> \<exists>e \<in> set es. uint (e_from e) = b \<and> bmt_find es b = uint (e_to e)"
  by (induction es) (auto split: if_splits)

lemma bmt_find_spec:
  "(\<exists>e \<in> set es. uint (e_from e) = b \<and> bmt_find es b = uint (e_to e))
   \<or> (\<forall>e \<in> set es. uint (e_from e) \<noteq> b) \<and> bmt_find es b = b"
  by (induction es) auto

lemma bmt_find_cases:
  obtains (entry) e where "e \<in> set es" "uint (e_from e) = b" "bmt_find es b = uint (e_to e)"
  | (none) "\<forall>e \<in> set es. uint (e_from e) \<noteq> b" "bmt_find es b = b"
  using bmt_find_spec [of es b] by blast

text \<open>With different blocks in the entries the order of the search does not matter.\<close>

lemma bmt_find_distinct:
  "distinct (map e_from es) \<Longrightarrow> e \<in> set es \<Longrightarrow> bmt_find es (uint (e_from e)) = uint (e_to e)"
  by (induction es) (auto simp: image_iff word_uint_eq_iff [symmetric])

lemma bmt_find_bound: "b < 65536 \<Longrightarrow> bmt_find es b < 65536"
proof (cases rule: bmt_find_cases [of es b])
  case (entry e)
  then show ?thesis using uint_lt2p [of "e_to e"] by simp
qed simp

lemma get_mapping_bound:
  assumes "reserve_begin s < 65536"
  shows "- EINVAL \<le> get_mapping_block s b" "get_mapping_block s b < 65536"
proof -
  have r: "- EINVAL \<le> get_mapping_block_bbt s b" "get_mapping_block_bbt s b < 65536"
    using assms by (auto simp: get_mapping_block_bbt_def Let_def)
  then show "get_mapping_block s b < 65536"
    by (auto simp: get_mapping_block_def Let_def intro: bmt_find_bound)
  have "0 \<le> c \<Longrightarrow> 0 \<le> bmt_find es c" for es c
    by (cases rule: bmt_find_cases [of es c]) auto
  then show "- EINVAL \<le> get_mapping_block s b"
    using r by (auto simp: get_mapping_block_def Let_def intro: order_trans [of _ 0])
qed

end
