(* ===== verification/En75_Ops.thy ===== *)
theory En75_Ops
  imports En75_Map
begin

text \<open>
  What the operations of the EcoNet manager do to the context: they run for every behaviour of the
  driver, the blocks of the reserve area keep their places, and everything but an explicit remapping
  leaves the mapping alone.
\<close>

section \<open>Loops\<close>

lemma for_each_append:
  "for_each (xs @ ys) body s = do { s \<leftarrow> for_each xs body s; for_each ys body s }"
proof (induction xs arbitrary: s)
  case (Cons x xs)
  then show ?case by (cases "body x s") simp_all
qed simp

lemma for_each_Nil [simp]: "for_each [] body = Some"
  by (rule ext) simp

lemma for_each_snoc: "for_each (xs @ [x]) body s = do { s \<leftarrow> for_each xs body s; body x s }"
  by (simp add: for_each_append)

lemma runs_for_each:
  "(\<And>i s. i \<in> set is \<Longrightarrow> P s \<Longrightarrow> runs (body i s) P) \<Longrightarrow> P s \<Longrightarrow> runs (for_each is body s) P"
proof (induction "is" arbitrary: s)
  case (Cons i "is")
  then show ?case by (auto intro: runs_bindI [of _ P])
qed simp

section \<open>The context\<close>

text \<open>
  The reserve area is the array \<open>rblocks\<close>, highest block first, and not larger than the BMT; the tables
  have their sizes. The block numbers stay below \<open>-EINVAL\<close> cut to 16 bits, which is 65514.
\<close>

definition en_ok :: "('d, 'z) en75_scheme \<Rightarrow> bool" where
  "en_ok s \<longleftrightarrow> reserve_begin s \<le> total_blks s \<and> total_blks s < 65514
     \<and> map bi_index (rblocks s) = rev [reserve_begin s..<total_blks s]
     \<and> total_blks s - reserve_begin s \<le> MAX_BMT_SIZE
     \<and> length (mt_table (en_bmt s)) = MAX_BMT_SIZE \<and> length (ft_table (en_bbt s)) = MAX_BBT_SIZE
     \<and> (can_remap_count s \<noteq> 0 \<longrightarrow> can_remap_ranges s \<noteq> None)"

lemma en_ok_length:
  assumes "en_ok s"
  shows "length (rblocks s) = total_blks s - reserve_begin s" "length (rblocks s) \<le> 256"
proof -
  have "length (map bi_index (rblocks s)) = length (rev [reserve_begin s..<total_blks s])"
    using assms by (simp add: en_ok_def)
  then show "length (rblocks s) = total_blks s - reserve_begin s" by simp
  then show "length (rblocks s) \<le> 256" using assms by (simp add: en_ok_def en75_sizes)
qed

lemma en_ok_count: "en_ok s \<Longrightarrow> nat (reserve_block_count s) = length (rblocks s)"
  unfolding en_ok_length(1) by (auto simp: en_ok_def reserve_block_count_def nat_diff_distrib)

text \<open>A state in which at most the marks of the reserve area differ, none of a mapped block.\<close>

definition same_map :: "('d, 'z) en75_scheme \<Rightarrow> ('d, 'z) en75_scheme \<Rightarrow> bool" where
  "same_map s t \<longleftrightarrow> same_shape s t \<and> reserve_begin t = reserve_begin s
     \<and> can_remap_count t = can_remap_count s \<and> can_remap_ranges t = can_remap_ranges s
     \<and> map bi_index (rblocks t) = map bi_index (rblocks s)
     \<and> (\<forall>i < length (rblocks s). bi_status (rblocks s ! i) = BS_MAPPED \<longrightarrow> bi_status (rblocks t ! i) = BS_MAPPED)
     \<and> mt_size (en_bmt t) = mt_size (en_bmt s) \<and> bmt_used t = bmt_used s
     \<and> length (mt_table (en_bmt t)) = length (mt_table (en_bmt s))
     \<and> fbs t = fbs s \<and> length (ft_table (en_bbt t)) = length (ft_table (en_bbt s))"

lemma same_map_refl [simp]: "same_map s s"
  by (simp add: same_map_def)

lemma same_map_length: "same_map s t \<Longrightarrow> length (rblocks t) = length (rblocks s)"
  unfolding same_map_def by (metis length_map)

lemma same_map_trans: "same_map s t \<Longrightarrow> same_map t u \<Longrightarrow> same_map s u"
  using same_map_length [of s t] by (auto simp: same_map_def intro: same_shape_trans)

lemma same_map_ok: "same_map s t \<Longrightarrow> en_ok s \<Longrightarrow> en_ok t"
  by (simp add: same_map_def en_ok_def same_shape_def)

lemma same_map_shape: "same_map s t \<Longrightarrow> same_shape s t"
  by (simp add: same_map_def)

text \<open>Access to the device changes nothing of the context.\<close>

lemma io_only_en75:
  assumes "io_only s (t :: ('d, 'z) en75_scheme)"
  obtains d b where "t = s\<lparr>dev := d, data_buf := b\<rparr>"
  using assms unfolding io_only_def by blast

lemma io_only_context:
  assumes "io_only s (t :: ('d, 'z) en75_scheme)"
  shows "rblocks t = rblocks s" "en_bmt t = en_bmt s" "en_bbt t = en_bbt s" "bmt_dirty t = bmt_dirty s"
    "bbt_dirty t = bbt_dirty s" "reserve_begin t = reserve_begin s" "total_blks t = total_blks s"
    "can_write_factory_bbt t = can_write_factory_bbt s" "same_map s t"
  using assms by (auto elim!: io_only_en75 simp: same_map_def same_shape_def bmt_used_def fbs_def)

lemma w_write_tries_io: "io_only s (snd (w_write_tries n E s addr dat oob ret))"
proof (induction n arbitrary: s ret)
  case (Suc n)
  have "io_only s (snd (w_write_tries n E (s\<lparr>dev := d\<rparr>) addr dat oob ret))" for d ret
    using Suc [of "s\<lparr>dev := d\<rparr>"] by simp
  then show ?case by (simp add: Let_def case_prod_beta)
qed simp

lemma w_write_io: "io_only s (snd (w_write E s bi user_area buf oob))"
  by (simp add: w_write_def w_write_tries_io)

lemma w_mark_bad_io: "io_only s (snd (w_mark_bad E s bi user_area))"
  by (simp add: w_mark_bad_def w_write_io)

lemma w_erase_tries_io: "io_only s (snd (w_erase_tries n E s bi ret))"
proof (induction n arbitrary: s ret)
  case (Suc n)
  then show ?case
    using bbt_nand_erase_io [of s E bi] by (auto simp: Let_def case_prod_beta intro: io_only_trans)
qed simp

lemma w_erase_one_io: "io_only s (snd (w_erase_one E s bi user_area))"
  by (simp add: w_erase_one_def w_erase_tries_io)

lemma w_make_mapping_io: "io_only s (snd (w_make_mapping E s b bad))"
  by (simp add: w_make_mapping_def w_write_io)

lemma w_copy_tries_io: "io_only s (w_copy_tries n E s dest src len)"
proof (induction n arbitrary: s)
  case (Suc n)
  then show ?case
    using bbt_nand_copy_io [of s E dest src len] by (auto simp: Let_def case_prod_beta intro: io_only_trans)
qed simp

lemma read_fdm_io: "io_only s (snd (snd (read_fdm E s i fdm)))"
  by (simp add: read_fdm_def bbt_nand_read_def Let_def case_prod_beta io_only_def)

section \<open>Marks of the reserve area\<close>

lemma set_status_eq:
  "i < length (rblocks s) \<Longrightarrow>
     set_status i st s = Some (s\<lparr>rblocks := (rblocks s)[i := (rblocks s ! i)\<lparr>bi_status := st\<rparr>]\<rparr>)"
  by (simp add: set_status_def aget_def aset_def)

lemma set_status_same_map:
  assumes "i < length (rblocks s)" "bi_status (rblocks s ! i) \<noteq> BS_MAPPED"
  shows "runs (set_status i st s) (\<lambda>t. same_map s t \<and> bmt_dirty t = bmt_dirty s \<and> bbt_dirty t = bbt_dirty s)"
proof -
  have "map bi_index ((rblocks s)[i := (rblocks s ! i)\<lparr>bi_status := st\<rparr>]) = map bi_index (rblocks s)"
    using assms(1) by (simp add: map_update list_update_same_conv)
  then show ?thesis
    using assms unfolding set_status_eq [OF assms(1)]
    by (auto simp: same_map_def same_shape_def bmt_used_def fbs_def nth_list_update)
qed

lemma w_erase_pending_block_ok:
  assumes "i < length (rblocks s)"
  shows "runs (w_erase_pending_block E i s)
    (\<lambda>t. same_map s t \<and> bmt_dirty t = bmt_dirty s \<and> bbt_dirty t = bbt_dirty s)"
proof (cases "bi_status (rblocks s ! i) = BS_NEED_ERASE")
  case True
  let ?b = "bi_index (rblocks s ! i)"
  define t where "t = snd (w_erase_one E s ?b False)"
  have st: "io_only s t" by (simp add: t_def w_erase_one_io)
  have ok: "runs (set_status i st u)
      (\<lambda>v. same_map s v \<and> bmt_dirty v = bmt_dirty s \<and> bbt_dirty v = bbt_dirty s)"
    if "io_only s u" for u st
  proof -
    note c = io_only_context [OF that]
    have "runs (set_status i st u) (\<lambda>v. same_map u v \<and> bmt_dirty v = bmt_dirty u \<and> bbt_dirty v = bbt_dirty u)"
      using assms True by (intro set_status_same_map) (simp_all add: c(1))
    then show ?thesis
      by (rule runs_mono) (use c in \<open>auto intro: same_map_trans\<close>)
  qed
  have "io_only s (snd (w_mark_bad E t ?b False))" using st w_mark_bad_io by (rule io_only_trans)
  then show ?thesis
    using assms True st ok unfolding w_erase_pending_block_def
    by (simp add: Let_def case_prod_beta t_def [symmetric] aget_def)
next
  case False
  then show ?thesis using assms by (simp add: w_erase_pending_block_def vcg)
qed

lemma w_erase_pending_count:
  assumes "nat (reserve_block_count s) = length (rblocks s)"
  shows "runs (w_erase_pending E s)
    (\<lambda>t. same_map s t \<and> bmt_dirty t = bmt_dirty s \<and> bbt_dirty t = bbt_dirty s)"
  unfolding w_erase_pending_def assms
proof (rule runs_for_each)
  fix i t assume "i \<in> set [0..<length (rblocks s)]"
    "same_map s t \<and> bmt_dirty t = bmt_dirty s \<and> bbt_dirty t = bbt_dirty s"
  then show "runs (w_erase_pending_block E i t)
      (\<lambda>t. same_map s t \<and> bmt_dirty t = bmt_dirty s \<and> bbt_dirty t = bbt_dirty s)"
    using w_erase_pending_block_ok [of i t E] same_map_length [of s t]
    by (auto elim!: runs_mono intro: same_map_trans)
qed simp

lemmas w_erase_pending_ok = w_erase_pending_count [OF en_ok_count]

text \<open>Marking blocks for erasure gives every block with the status the new one, in place.\<close>

definition erase_status :: "block_status \<Rightarrow> block_info \<Rightarrow> block_info" where
  "erase_status st b = (if bi_status b = st then b\<lparr>bi_status := BS_NEED_ERASE\<rparr> else b)"

lemma mark_loop_eq:
  "n \<le> length (rblocks s) \<Longrightarrow>
   for_each [0..<n] (\<lambda>i s. do {
       b \<leftarrow> aget (rblocks s) i;
       if bi_status b = st then set_status i BS_NEED_ERASE s else Some s
     }) s = Some (s\<lparr>rblocks := map (erase_status st) (take n (rblocks s)) @ drop n (rblocks s)\<rparr>)"
proof (induction n)
  case (Suc n)
  let ?r = "map (erase_status st) (take n (rblocks s)) @ drop n (rblocks s)"
  have n: "n < length (rblocks s)" using Suc.prems by simp
  then have nth: "?r ! n = rblocks s ! n" by (simp add: nth_append)
  have upd: "?r[n := erase_status st (rblocks s ! n)] =
      map (erase_status st) (take (Suc n) (rblocks s)) @ drop (Suc n) (rblocks s)"
    using n by (simp add: list_update_append take_Suc_conv_app_nth Cons_nth_drop_Suc [symmetric])
  have id: "?r[n := rblocks s ! n] = ?r" by (subst nth [symmetric], rule list_update_id)
  have len: "n < length ?r" using n by simp
  define r where "r = ?r"
  have "do { b \<leftarrow> aget (rblocks (s\<lparr>rblocks := r\<rparr>)) n;
       if bi_status b = st then set_status n BS_NEED_ERASE (s\<lparr>rblocks := r\<rparr>) else Some (s\<lparr>rblocks := r\<rparr>) }
     = Some (s\<lparr>rblocks := r[n := erase_status st (rblocks s ! n)]\<rparr>)"
    using len nth id unfolding r_def [symmetric]
    by (simp add: aget_def set_status_eq erase_status_def)
  then show ?case
    using Suc.IH n unfolding r_def by (simp add: for_each_snoc upd)
qed simp

lemma mark_for_erasure_eq:
  assumes "en_ok s"
  shows "mark_for_erasure s st = Some (s\<lparr>rblocks := map (erase_status st) (rblocks s)\<rparr>)"
  unfolding mark_for_erasure_def en_ok_count [OF assms] using mark_loop_eq [of "length (rblocks s)" s st] by simp

lemma mark_same_map:
  assumes "st \<noteq> BS_MAPPED"
  shows "same_map s (s\<lparr>rblocks := map (erase_status st) (rblocks s)\<rparr>)"
proof -
  have "bi_index \<circ> erase_status st = bi_index" by (auto simp: erase_status_def)
  then show ?thesis
    using assms by (simp add: same_map_def same_shape_def bmt_used_def fbs_def erase_status_def)
qed

section \<open>Storing the tables\<close>

lemma reserve_block_sane:
  assumes "en_ok s" "i < length (rblocks s)"
  shows "block_index_is_sane s (bi_index (rblocks s ! i)) False"
proof -
  have "bi_index (rblocks s ! i) \<in> set (map bi_index (rblocks s))" using assms(2) by simp
  then have "bi_index (rblocks s ! i) \<in> set (rev [reserve_begin s..<total_blks s])"
    using assms(1) unfolding en_ok_def by metis
  then show ?thesis by (simp add: block_index_is_sane_def)
qed

lemma first_available_ok:
  "set is \<subseteq> {..<length rs} \<Longrightarrow> runs (first_available rs is) (\<lambda>r. case r of
     Inl e \<Rightarrow> e = - ENOSPC \<and> (\<forall>i \<in> set is. bi_status (rs ! i) \<noteq> BS_AVAILABLE)
   | Inr i \<Rightarrow> i \<in> set is \<and> bi_status (rs ! i) = BS_AVAILABLE)"
  by (induction "is") (auto simp: vcg elim!: runs_mono split: sum.splits)

lemma find_available_ok:
  assumes "en_ok s"
  shows "runs (find_available_block s e) (\<lambda>r. case r of
     Inl e \<Rightarrow> e = - ENOSPC \<and> (\<forall>b \<in> set (rblocks s). bi_status b \<noteq> BS_AVAILABLE)
   | Inr i \<Rightarrow> i < length (rblocks s) \<and> bi_status (rblocks s ! i) = BS_AVAILABLE)"
proof -
  have "runs (find_available_block s e) (\<lambda>r. case r of
     Inl e \<Rightarrow> e = - ENOSPC \<and> (\<forall>i \<in> set [0..<length (rblocks s)]. bi_status (rblocks s ! i) \<noteq> BS_AVAILABLE)
   | Inr i \<Rightarrow> i \<in> set [0..<length (rblocks s)] \<and> bi_status (rblocks s ! i) = BS_AVAILABLE)"
    using first_available_ok [of "[0..<length (rblocks s)]" "rblocks s"]
      first_available_ok [of "rev [0..<length (rblocks s)]" "rblocks s"]
    unfolding find_available_block_def Let_def en_ok_count [OF assms] set_rev
    by (cases e) (simp_all only: if_True if_False set_upt atLeast0LessThan subset_refl)
  then show ?thesis
    by (rule runs_mono) (auto simp: set_conv_nth split: sum.splits)
qed

lemma w_update_tries_ok:
  "en_ok s \<Longrightarrow> runs (w_update_tries n E s e buf) (\<lambda>(r, t).
     same_map s t \<and> bmt_dirty t = bmt_dirty s \<and> bbt_dirty t = bbt_dirty s \<and> (case r of
       Inl e \<Rightarrow> e \<noteq> 0
     | Inr i \<Rightarrow> i < length (rblocks t) \<and> bi_status (rblocks t ! i) = BS_AVAILABLE))"
proof (induction n arbitrary: s)
  case (Suc n)
  obtain r where r: "find_available_block s e = Some r" "case r of
     Inl e \<Rightarrow> e = - ENOSPC \<and> (\<forall>b \<in> set (rblocks s). bi_status b \<noteq> BS_AVAILABLE)
   | Inr i \<Rightarrow> i < length (rblocks s) \<and> bi_status (rblocks s ! i) = BS_AVAILABLE"
    using find_available_ok [OF Suc.prems, of e] by (auto simp: runs_def)
  show ?case
  proof (cases r)
    case (Inl e)
    then show ?thesis using r by simp
  next
    case (Inr i)
    then have i: "i < length (rblocks s)" "bi_status (rblocks s ! i) = BS_AVAILABLE" using r(2) by simp_all
    obtain ret t where w: "w_write E s (bi_index (rblocks s ! i)) False buf False = (ret, t)" by fastforce
    have io: "io_only s t" using w_write_io [of s E "bi_index (rblocks s ! i)" False buf False] w by simp
    note c = io_only_context [OF io]
    have "runs (set_status i BS_NEED_ERASE t) (\<lambda>u. same_map t u \<and> bmt_dirty u = bmt_dirty t \<and> bbt_dirty u = bbt_dirty t)"
      using i by (intro set_status_same_map) (simp_all add: c(1))
    then have "runs (do { s \<leftarrow> set_status i BS_NEED_ERASE t; w_update_tries n E s e buf }) (\<lambda>(r, u).
      same_map s u \<and> bmt_dirty u = bmt_dirty s \<and> bbt_dirty u = bbt_dirty s \<and> (case r of
       Inl e \<Rightarrow> e \<noteq> 0
     | Inr i \<Rightarrow> i < length (rblocks u) \<and> bi_status (rblocks u ! i) = BS_AVAILABLE))"
    proof (rule runs_bindI)
      fix u assume u: "same_map t u \<and> bmt_dirty u = bmt_dirty t \<and> bbt_dirty u = bbt_dirty t"
      then have su: "same_map s u" using c(9) by (blast intro: same_map_trans)
      show "runs (w_update_tries n E u e buf) (\<lambda>(r, v).
        same_map s v \<and> bmt_dirty v = bmt_dirty s \<and> bbt_dirty v = bbt_dirty s \<and> (case r of
         Inl e \<Rightarrow> e \<noteq> 0
       | Inr i \<Rightarrow> i < length (rblocks v) \<and> bi_status (rblocks v ! i) = BS_AVAILABLE))"
        by (rule runs_mono [OF Suc.IH [OF same_map_ok [OF su Suc.prems]]])
           (use u su c in \<open>auto intro: same_map_trans\<close>)
    qed
    then show ?thesis using r(1) Inr i w c by (simp add: aget_def)
  qed
qed simp

lemma clear_bmt_tail_ok:
  assumes "en_ok s"
  shows "runs (clear_bmt_tail s) (\<lambda>t. \<exists>tb. t = s\<lparr>en_bmt := (en_bmt s)\<lparr>mt_table := tb\<rparr>\<rparr>
    \<and> length tb = MAX_BMT_SIZE
    \<and> take (unat (mt_size (en_bmt s))) tb = take (unat (mt_size (en_bmt s))) (mt_table (en_bmt s)))"
  unfolding clear_bmt_tail_def en_ok_count [OF assms]
proof (rule runs_for_each)
  let ?P = "\<lambda>t. \<exists>tb. t = s\<lparr>en_bmt := (en_bmt s)\<lparr>mt_table := tb\<rparr>\<rparr> \<and> length tb = MAX_BMT_SIZE
    \<and> take (unat (mt_size (en_bmt s))) tb = take (unat (mt_size (en_bmt s))) (mt_table (en_bmt s))"
  show "?P s" using assms by (intro exI [of _ "mt_table (en_bmt s)"]) (simp add: en_ok_def)
  fix i t assume i: "i \<in> set [unat (mt_size (en_bmt s))..<length (rblocks s)]" and t: "?P t"
  then show "runs (do { tb \<leftarrow> aset (mt_table (en_bmt t)) i zero_entry;
      Some (t\<lparr>en_bmt := (en_bmt t)\<lparr>mt_table := tb\<rparr>\<rparr>) }) ?P"
    using en_ok_length(2) [OF assms] by (auto simp: vcg en75_sizes)
qed

text \<open>Storing a table marks the block it went to, a block that was available.\<close>

lemma stored_ok:
  assumes "en_ok s" "i < length (rblocks s)" "bi_status (rblocks s ! i) = BS_AVAILABLE"
    "st = BS_BMT \<or> st = BS_BBT"
  shows "runs (do { s \<leftarrow> mark_for_erasure s st; set_status i st s })
    (\<lambda>t. same_map s t \<and> bmt_dirty t = bmt_dirty s \<and> bbt_dirty t = bbt_dirty s
      \<and> en_bmt t = en_bmt s \<and> en_bbt t = en_bbt s
      \<and> (\<forall>j < length (rblocks s). bi_status (rblocks t ! j) = st \<longleftrightarrow> j = i))"
proof -
  let ?m = "s\<lparr>rblocks := map (erase_status st) (rblocks s)\<rparr>"
  have m: "same_map s ?m" using assms(4) by (intro mark_same_map) auto
  have i: "rblocks ?m ! i = rblocks s ! i" using assms by (auto simp: erase_status_def)
  have "same_map ?m (?m\<lparr>rblocks := (rblocks ?m)[i := (rblocks ?m ! i)\<lparr>bi_status := st\<rparr>]\<rparr>)"
    using set_status_same_map [of i ?m st] assms(2,3) i by (simp add: set_status_eq)
  then have "same_map s (?m\<lparr>rblocks := (rblocks ?m)[i := (rblocks ?m ! i)\<lparr>bi_status := st\<rparr>]\<rparr>)"
    by (rule same_map_trans [OF m])
  moreover have "bi_status (((map (erase_status st) (rblocks s))[i := b\<lparr>bi_status := st\<rparr>]) ! j) = st \<longleftrightarrow> j = i"
    if "j < length (rblocks s)" for j b
    using that assms(2,4) by (auto simp: nth_list_update erase_status_def)
  ultimately show ?thesis
    using assms(2) by (simp add: mark_for_erasure_eq [OF assms(1)] set_status_eq)
qed

lemma en_bmt_same_map:
  "bmt_used (s\<lparr>en_bmt := b\<rparr>) = bmt_used s \<Longrightarrow> mt_size b = mt_size (en_bmt s) \<Longrightarrow>
     length (mt_table b) = length (mt_table (en_bmt s)) \<Longrightarrow> same_map s (s\<lparr>en_bmt := b\<rparr>)"
  by (simp add: same_map_def same_shape_def fbs_def)

lemma en_bbt_same_map:
  "fbs (s\<lparr>en_bbt := b\<rparr>) = fbs s \<Longrightarrow> length (ft_table b) = length (ft_table (en_bbt s)) \<Longrightarrow>
     same_map s (s\<lparr>en_bbt := b\<rparr>)"
  by (simp add: same_map_def same_shape_def bmt_used_def)

lemma same_map_dirty [simp]:
  "same_map s (t\<lparr>bmt_dirty := d\<rparr>) = same_map s t" "same_map s (t\<lparr>bbt_dirty := d\<rparr>) = same_map s t"
  "same_map (s\<lparr>bmt_dirty := d\<rparr>) t = same_map s t" "same_map (s\<lparr>bbt_dirty := d\<rparr>) t = same_map s t"
  by (simp_all add: same_map_def same_shape_def bmt_used_def fbs_def)

lemma w_update_then_store:
  assumes "en_ok s" "st = BS_BMT \<or> st = BS_BBT"
  shows "runs (do { (r, s) \<leftarrow> w_update_table E s e buf;
      case r of Inl e \<Rightarrow> Some (Inl e, s)
      | Inr i \<Rightarrow> do { s \<leftarrow> mark_for_erasure s st; s \<leftarrow> set_status i st s; Some (Inr i, s) } })
    (\<lambda>(r, t). same_map s t \<and> bmt_dirty t = bmt_dirty s \<and> bbt_dirty t = bbt_dirty s \<and> (case r of
       Inl e \<Rightarrow> e \<noteq> 0
     | Inr i \<Rightarrow> i < length (rblocks t) \<and> (\<forall>j < length (rblocks t). bi_status (rblocks t ! j) = st \<longleftrightarrow> j = i)))"
  unfolding w_update_table_def
proof (rule runs_bind_pairI [OF w_update_tries_ok [OF assms(1)]])
  fix r :: "int + nat" and t
  assume t: "same_map s t \<and> bmt_dirty t = bmt_dirty s \<and> bbt_dirty t = bbt_dirty s \<and> (case r of
       Inl e \<Rightarrow> e \<noteq> 0
     | Inr i \<Rightarrow> i < length (rblocks t) \<and> bi_status (rblocks t ! i) = BS_AVAILABLE)"
  show "runs (case r of Inl e \<Rightarrow> Some (Inl e, t)
      | Inr i \<Rightarrow> do { s \<leftarrow> mark_for_erasure t st; s \<leftarrow> set_status i st s; Some (Inr i, s) })
    (\<lambda>(r, t). same_map s t \<and> bmt_dirty t = bmt_dirty s \<and> bbt_dirty t = bbt_dirty s \<and> (case r of
       Inl e \<Rightarrow> e \<noteq> 0
     | Inr i \<Rightarrow> i < length (rblocks t) \<and> (\<forall>j < length (rblocks t). bi_status (rblocks t ! j) = st \<longleftrightarrow> j = i)))"
  proof (cases r)
    case (Inl e)
    then show ?thesis using t by simp
  next
    case (Inr i)
    then have i: "i < length (rblocks t)" "bi_status (rblocks t ! i) = BS_AVAILABLE" using t by simp_all
    have "en_ok t" using t assms(1) same_map_ok by blast
    from stored_ok [OF this i assms(2)] obtain u where u:
      "do { s \<leftarrow> mark_for_erasure t st; set_status i st s } = Some u" "same_map t u"
      "bmt_dirty u = bmt_dirty t" "bbt_dirty u = bbt_dirty t"
      "\<forall>j < length (rblocks t). bi_status (rblocks u ! j) = st \<longleftrightarrow> j = i"
      by (auto simp: runs_def)
    then have eq: "do { s \<leftarrow> mark_for_erasure t st; s \<leftarrow> set_status i st s; Some (Inr i, s) } =
        Some (Inr i :: int + nat, u)"
      by (auto simp: bind_eq_Some_conv)
    have "same_map s u" using t u(2) by (blast intro: same_map_trans)
    then show ?thesis
      using t u i(1) same_map_length [OF u(2)] unfolding Inr sum.case eq by simp
  qed
qed

text \<open>
  After storing the BMT its counter of changes is zero and exactly one block of the reserve area is
  marked as the one that holds it; likewise for the BBT.
\<close>

definition stored_in :: "block_status \<Rightarrow> ('d, 'z) en75_scheme \<Rightarrow> bool" where
  "stored_in st t \<longleftrightarrow> (\<exists>i < length (rblocks t). \<forall>j < length (rblocks t).
     bi_status (rblocks t ! j) = st \<longleftrightarrow> j = i)"

lemma stored_in_dirty [simp]: "stored_in st (t\<lparr>bmt_dirty := d\<rparr>) = stored_in st t"
  "stored_in st (t\<lparr>bbt_dirty := d\<rparr>) = stored_in st t"
  by (simp_all add: stored_in_def)

lemma w_sync_bmt_ok:
  assumes "en_ok s"
  shows "runs (w_sync_bmt E s) (\<lambda>(ret, t). same_map s t \<and> bbt_dirty t = bbt_dirty s
    \<and> (ret = 0 \<longrightarrow> bmt_dirty t = 0 \<and> (bmt_dirty s \<noteq> 0 \<longrightarrow> stored_in BS_BMT t)))"
proof (cases "bmt_dirty s = 0")
  case False
  obtain u tb where u: "clear_bmt_tail s = Some u" "u = s\<lparr>en_bmt := (en_bmt s)\<lparr>mt_table := tb\<rparr>\<rparr>"
    "length tb = MAX_BMT_SIZE"
    "take (unat (mt_size (en_bmt s))) tb = take (unat (mt_size (en_bmt s))) (mt_table (en_bmt s))"
    using clear_bmt_tail_ok [OF assms] by (auto simp: runs_def)
  define v where "v = u\<lparr>en_bmt := (en_bmt u)\<lparr>mt_cksum :=
     bmt_checksum (k_big_endian E) (en_bmt u) (unat (mt_size (en_bmt u)))\<rparr>\<rparr>"
  define buf where "buf = bmt_bytes (k_big_endian E) (en_bmt v)"
  have v: "v = s\<lparr>en_bmt := en_bmt v\<rparr>" by (simp add: v_def u(2))
  have sv: "same_map s v"
    by (subst v, rule en_bmt_same_map)
       (use u(3,4) assms in \<open>simp_all add: v_def u(2) bmt_used_def en_ok_def\<close>)
  have d: "bmt_dirty v = bmt_dirty s" "bbt_dirty v = bbt_dirty s" by (simp_all add: v_def u(2))
  have eq: "w_sync_bmt E s = do { (r, t) \<leftarrow> do { (r, s) \<leftarrow> w_update_table E v True buf;
      case r of Inl e \<Rightarrow> Some (Inl e, s)
      | Inr i \<Rightarrow> do { s \<leftarrow> mark_for_erasure s BS_BMT; s \<leftarrow> set_status i BS_BMT s; Some (Inr i, s) } };
      case r of Inl e \<Rightarrow> Some (e, t) | Inr i \<Rightarrow> Some (0, t\<lparr>bmt_dirty := bmt_dirty t - bmt_dirty s\<rparr>) }"
    unfolding w_sync_bmt_def if_not_P [OF False] Let_def u(1) bind.bind_lunit
      v_def [symmetric] buf_def [symmetric]
    by (auto intro!: bind_option_cong split: sum.splits)
  show ?thesis
    unfolding eq
  proof (rule runs_bind_pairI [OF w_update_then_store [OF same_map_ok [OF sv assms]]])
    fix r :: "int + nat" and t
    assume t: "same_map v t \<and> bmt_dirty t = bmt_dirty v \<and> bbt_dirty t = bbt_dirty v \<and> (case r of
       Inl e \<Rightarrow> e \<noteq> 0
     | Inr i \<Rightarrow> i < length (rblocks t) \<and> (\<forall>j < length (rblocks t). bi_status (rblocks t ! j) = BS_BMT \<longleftrightarrow> j = i))"
    then have "same_map s t" using sv by (blast intro: same_map_trans)
    then show "runs (case r of Inl e \<Rightarrow> Some (e, t) | Inr i \<Rightarrow> Some (0, t\<lparr>bmt_dirty := bmt_dirty t - bmt_dirty s\<rparr>))
      (\<lambda>(ret, t). same_map s t \<and> bbt_dirty t = bbt_dirty s
        \<and> (ret = 0 \<longrightarrow> bmt_dirty t = 0 \<and> (bmt_dirty s \<noteq> 0 \<longrightarrow> stored_in BS_BMT t)))"
      using t d by (auto simp: stored_in_def split: sum.splits)
  qed simp
qed (simp add: w_sync_bmt_def)

lemma w_sync_bbt_ok:
  assumes "en_ok s"
  shows "runs (w_sync_bbt E s) (\<lambda>(ret, t). same_map s t \<and> bmt_dirty t = bmt_dirty s
    \<and> (ret = 0 \<longrightarrow> can_write_factory_bbt s \<longrightarrow> bbt_dirty t = 0
        \<and> (bbt_dirty s \<noteq> 0 \<longrightarrow> stored_in BS_BBT t)))"
proof (cases "bbt_dirty s = 0 \<or> \<not> can_write_factory_bbt s")
  case False
  let ?n = "unat (ft_size (en_bbt s))"
  define u where "u = s\<lparr>en_bbt := (en_bbt s)\<lparr>ft_table :=
     take ?n (ft_table (en_bbt s)) @ replicate (MAX_BBT_SIZE - ?n) 0\<rparr>\<rparr>"
  define v where "v = u\<lparr>en_bbt := (en_bbt u)\<lparr>ft_cksum := ucast (bbt_checksum (k_big_endian E) (en_bbt u))\<rparr>\<rparr>"
  define buf where "buf = bbt_bytes (k_big_endian E) (en_bbt v)"
  have n: "?n \<le> MAX_BBT_SIZE" "length (ft_table (en_bbt s)) = MAX_BBT_SIZE"
    using byte_bound [of "ft_size (en_bbt s)"] assms by (simp_all add: en75_sizes en_ok_def)
  have v: "v = s\<lparr>en_bbt := en_bbt v\<rparr>" by (simp add: v_def u_def)
  have sv: "same_map s v"
    by (subst v, rule en_bbt_same_map) (use n in \<open>simp_all add: v_def u_def fbs_def\<close>)
  have d: "bmt_dirty v = bmt_dirty s" "bbt_dirty v = bbt_dirty s" by (simp_all add: v_def u_def)
  have eq: "w_sync_bbt E s = do { (r, t) \<leftarrow> do { (r, s) \<leftarrow> w_update_table E v False buf;
      case r of Inl e \<Rightarrow> Some (Inl e, s)
      | Inr i \<Rightarrow> do { s \<leftarrow> mark_for_erasure s BS_BBT; s \<leftarrow> set_status i BS_BBT s; Some (Inr i, s) } };
      case r of Inl e \<Rightarrow> Some (e, t) | Inr i \<Rightarrow> Some (0, t\<lparr>bbt_dirty := bbt_dirty t - bbt_dirty s\<rparr>) }"
    unfolding w_sync_bbt_def if_not_P [OF False] Let_def u_def [symmetric] v_def [symmetric]
      buf_def [symmetric]
    by (auto intro!: bind_option_cong split: sum.splits)
  show ?thesis
    unfolding eq
  proof (rule runs_bind_pairI [OF w_update_then_store [OF same_map_ok [OF sv assms]]])
    fix r :: "int + nat" and t
    assume t: "same_map v t \<and> bmt_dirty t = bmt_dirty v \<and> bbt_dirty t = bbt_dirty v \<and> (case r of
       Inl e \<Rightarrow> e \<noteq> 0
     | Inr i \<Rightarrow> i < length (rblocks t) \<and> (\<forall>j < length (rblocks t). bi_status (rblocks t ! j) = BS_BBT \<longleftrightarrow> j = i))"
    then have "same_map s t" using sv by (blast intro: same_map_trans)
    then show "runs (case r of Inl e \<Rightarrow> Some (e, t) | Inr i \<Rightarrow> Some (0, t\<lparr>bbt_dirty := bbt_dirty t - bbt_dirty s\<rparr>))
      (\<lambda>(ret, t). same_map s t \<and> bmt_dirty t = bmt_dirty s
        \<and> (ret = 0 \<longrightarrow> can_write_factory_bbt s \<longrightarrow> bbt_dirty t = 0
            \<and> (bbt_dirty s \<noteq> 0 \<longrightarrow> stored_in BS_BBT t)))"
      using t d by (auto simp: stored_in_def split: sum.splits)
  qed simp
qed (auto simp: w_sync_bbt_def)

text \<open>
  Storing the tables ends for every behaviour of the driver and leaves the mapping alone; when it
  reports success no change of the BMT is left to be stored.
\<close>

lemma w_sync_tables_ok:
  assumes "en_ok s"
  shows "runs (w_sync_tables E s) (\<lambda>(ret, t). same_map s t \<and> (ret = 0 \<longrightarrow> bmt_dirty t = 0))"
  unfolding w_sync_tables_def
proof (rule runs_bindI [OF w_erase_pending_ok [OF assms]])
  fix u assume "same_map s u \<and> bmt_dirty u = bmt_dirty s \<and> bbt_dirty u = bbt_dirty s"
  then have u: "same_map s u" and uo: "en_ok u" using assms same_map_ok by blast+
  show "runs (do { (ret, s) \<leftarrow> w_sync_bmt E u;
      if ret \<noteq> 0 then Some (ret, s)
      else do { (ret, s) \<leftarrow> w_sync_bbt E s;
        if ret \<noteq> 0 then Some (ret, s) else do { s \<leftarrow> w_erase_pending E s; Some (0, s) } } })
    (\<lambda>(ret, t). same_map s t \<and> (ret = 0 \<longrightarrow> bmt_dirty t = 0))"
  proof (rule runs_bind_pairI [OF w_sync_bmt_ok [OF uo]], goal_cases)
    case (1 ret v)
    then have v: "same_map s v" "en_ok v" using u uo same_map_ok same_map_trans by blast+
    have "runs (do { (ret, s) \<leftarrow> w_sync_bbt E v;
        if ret \<noteq> 0 then Some (ret, s) else do { s \<leftarrow> w_erase_pending E s; Some (0, s) } })
      (\<lambda>(ret, t). same_map s t \<and> (ret = 0 \<longrightarrow> bmt_dirty t = 0))" if "bmt_dirty v = 0"
    proof (rule runs_bind_pairI [OF w_sync_bbt_ok [OF v(2)]], goal_cases)
      case (1 ret w)
      then have w: "same_map s w" "en_ok w" using v same_map_ok same_map_trans by blast+
      have "runs (do { s \<leftarrow> w_erase_pending E w; Some (0, s) })
        (\<lambda>(ret, t). same_map s t \<and> (ret = 0 \<longrightarrow> bmt_dirty t = 0))"
        by (rule runs_bindI [OF w_erase_pending_ok [OF w(2)]])
           (use 1 w that in \<open>auto intro: same_map_trans\<close>)
      then show ?case using w by auto
    qed
    then show ?case using 1 v by auto
  qed
qed

end
