(* ===== verification/En75_Remap.thy ===== *)
theory En75_Remap
  imports En75_Ops
begin

text \<open>
  Remapping and unmapping in the EcoNet manager, against the abstract mapping: the BMT stands for a
  finite map from worn blocks to blocks of the reserve area, remapping adds one entry to it and
  unmapping removes one.
\<close>

section \<open>The abstract mapping\<close>

definition bmt_map :: "('d, 'z) en75_scheme \<Rightarrow> nat \<Rightarrow> nat option" where
  "bmt_map s = map_of (map (\<lambda>e. (unat (e_from e), unat (e_to e))) (bmt_used s))"

definition mapped_info :: "('d, 'z) en75_scheme \<Rightarrow> nat \<Rightarrow> bool" where
  "mapped_info s t \<longleftrightarrow> (\<exists>b \<in> set (rblocks s). bi_index b = t \<and> bi_status b = BS_MAPPED)"

lemma mapped_info_nth:
  "mapped_info s t \<longleftrightarrow> (\<exists>i < length (rblocks s). bi_index (rblocks s ! i) = t \<and> bi_status (rblocks s ! i) = BS_MAPPED)"
  unfolding mapped_info_def Bex_def in_set_conv_nth by metis

text \<open>
  A sound context: the BBT is in order, no block has two entries in the BMT and no two entries share a
  block, the entries are for blocks of the user area and lead to blocks marked as mapped.
\<close>

definition en_sound :: "('d, 'z) en75_scheme \<Rightarrow> bool" where
  "en_sound s \<longleftrightarrow> en_ok s \<and> sorted_wrt (<) (fbs s)
     \<and> distinct (map e_from (bmt_used s)) \<and> distinct (map e_to (bmt_used s))
     \<and> (\<forall>e \<in> set (bmt_used s). unat (e_from e) < reserve_begin s \<and> mapped_info s (unat (e_to e)))"

lemma unat_eq_iff: "unat a = unat b \<longleftrightarrow> a = b" for a b :: "'a :: len word"
  by (simp add: word_unat_eq_iff)

lemma distinct_unat: "distinct (map (\<lambda>e. unat (f e)) es) \<longleftrightarrow> distinct (map f es)"
  for f :: "'b \<Rightarrow> 'a :: len word"
  by (simp add: distinct_map inj_on_def unat_eq_iff)

lemma bmt_map_mem:
  assumes "distinct (map e_from (bmt_used s))"
  shows "bmt_map s b = Some t \<longleftrightarrow> (\<exists>e \<in> set (bmt_used s). unat (e_from e) = b \<and> unat (e_to e) = t)"
proof -
  have "distinct (map fst (map (\<lambda>e. (unat (e_from e), unat (e_to e))) (bmt_used s)))"
    using assms by (simp add: comp_def distinct_unat)
  then show ?thesis
    unfolding bmt_map_def by (auto simp: map_of_eq_Some_iff)
qed

lemma bmt_map_none: "bmt_map s b = None \<longleftrightarrow> (\<forall>e \<in> set (bmt_used s). unat (e_from e) \<noteq> b)"
  unfolding bmt_map_def by (force simp: map_of_eq_None_iff)

lemma bmt_find_map:
  assumes "distinct (map e_from (bmt_used s))"
  shows "bmt_find (rev (bmt_used s)) (int b) = (case bmt_map s b of Some t \<Rightarrow> int t | None \<Rightarrow> int b)"
proof (cases "bmt_map s b")
  case None
  then have "\<forall>e \<in> set (rev (bmt_used s)). uint (e_from e) \<noteq> int b"
    by (simp add: bmt_map_none uint_int_nat)
  then show ?thesis using None by (simp add: bmt_find_none)
next
  case (Some t)
  then obtain e where e: "e \<in> set (bmt_used s)" "unat (e_from e) = b" "unat (e_to e) = t"
    using bmt_map_mem [OF assms] by blast
  have "bmt_find (rev (bmt_used s)) (uint (e_from e)) = uint (e_to e)"
    by (rule bmt_find_distinct) (use assms e in \<open>simp_all add: rev_map [symmetric]\<close>)
  then show ?thesis using Some e by (metis option.simps(5) uint_nat)
qed

text \<open>A lookup in terms of the abstract mapping.\<close>

lemma en_mapping_eq:
  assumes "en_sound s"
  shows "get_mapping_block s (int b) = (if b < length (user_blocks s)
    then (case bmt_map s (user_blocks s ! b) of Some t \<Rightarrow> int t | None \<Rightarrow> int (user_blocks s ! b))
    else - EINVAL)"
  using assms mapping_bbt_eq [of s b] bmt_find_map [of s]
  by (simp add: en_sound_def get_mapping_block_def Let_def bmt_used_def)

lemma mapped_info_bounds:
  assumes "en_ok s" "mapped_info s t"
  shows "reserve_begin s \<le> t" "t < total_blks s"
proof -
  have "t \<in> set (map bi_index (rblocks s))" using assms(2) by (auto simp: mapped_info_def)
  then have "t \<in> set (rev [reserve_begin s..<total_blks s])" using assms(1) unfolding en_ok_def by metis
  then show "reserve_begin s \<le> t" "t < total_blks s" by simp_all
qed

lemma bmt_map_sound:
  assumes "en_sound s" "bmt_map s b = Some t"
  shows "b < reserve_begin s" "reserve_begin s \<le> t" "t < total_blks s" "mapped_info s t"
proof -
  obtain e where "e \<in> set (bmt_used s)" "unat (e_from e) = b" "unat (e_to e) = t"
    using bmt_map_mem [of s b t] assms by (auto simp: en_sound_def)
  then show "b < reserve_begin s" "mapped_info s t" using assms(1) by (auto simp: en_sound_def)
  then show "reserve_begin s \<le> t" "t < total_blks s"
    using mapped_info_bounds assms(1) by (auto simp: en_sound_def)
qed

lemma bmt_map_inj:
  assumes "en_sound s" "bmt_map s b = Some t" "bmt_map s c = Some t"
  shows "b = c"
proof -
  obtain e f where "e \<in> set (bmt_used s)" "unat (e_from e) = b" "unat (e_to e) = t"
    "f \<in> set (bmt_used s)" "unat (e_from f) = c" "unat (e_to f) = t"
    using bmt_map_mem [of s b t] bmt_map_mem [of s c t] assms by (auto simp: en_sound_def)
  moreover have "inj_on e_to (set (bmt_used s))" using assms(1) by (simp add: en_sound_def distinct_map)
  ultimately show ?thesis by (metis inj_onD unat_eq_iff)
qed

text \<open>Different user blocks go to different blocks of the chip.\<close>

lemma get_mapping_inj:
  assumes "en_sound s" "get_mapping_block s (int b) = get_mapping_block s (int c)"
    "0 \<le> get_mapping_block s (int b)"
  shows "b = c"
proof -
  have bc: "b < length (user_blocks s)" "c < length (user_blocks s)"
    using assms by (auto simp: en_mapping_eq split: if_splits)
  let ?u = "user_blocks s ! b" and ?v = "user_blocks s ! c"
  have u: "?u < reserve_begin s" "?v < reserve_begin s" using bc user_blocks_below by blast+
  have "?u = ?v"
  proof (cases "bmt_map s ?u"; cases "bmt_map s ?v")
    fix t r assume "bmt_map s ?u = Some t" "bmt_map s ?v = Some r"
    then show ?thesis using assms bc bmt_map_inj [OF assms(1), of ?u t ?v] by (simp add: en_mapping_eq)
  qed (use assms bc u bmt_map_sound(2) [OF assms(1)] in \<open>fastforce simp: en_mapping_eq\<close>)+
  then show ?thesis using bc nth_eq_iff_index_eq [OF user_blocks_distinct] by blast
qed

section \<open>What keeps the mapping\<close>

lemma same_map_mapped_info:
  assumes "same_map s t" "mapped_info s k"
  shows "mapped_info t k"
proof -
  obtain i where i: "i < length (rblocks s)" "bi_index (rblocks s ! i) = k" "bi_status (rblocks s ! i) = BS_MAPPED"
    using assms(2) by (auto simp: mapped_info_def in_set_conv_nth)
  have "length (rblocks t) = length (rblocks s)" "map bi_index (rblocks t) = map bi_index (rblocks s)"
    using assms(1) same_map_length by (auto simp: same_map_def)
  then have "bi_index (rblocks t ! i) = bi_index (rblocks s ! i)" using i(1) by (metis nth_map)
  then show ?thesis
    using i assms(1) \<open>length (rblocks t) = length (rblocks s)\<close>
    by (auto simp: mapped_info_def same_map_def in_set_conv_nth intro!: bexI [of _ "rblocks t ! i"])
qed

lemma same_map_sound:
  assumes "same_map s t" "en_sound s"
  shows "en_sound t" "bmt_map t = bmt_map s" "user_blocks t = user_blocks s"
proof -
  have "bmt_used t = bmt_used s" "fbs t = fbs s" "reserve_begin t = reserve_begin s"
    using assms(1) by (simp_all add: same_map_def)
  then show "en_sound t" "bmt_map t = bmt_map s" "user_blocks t = user_blocks s"
    using assms same_map_ok [OF assms(1)] same_map_mapped_info [OF assms(1)]
    by (auto simp: en_sound_def bmt_map_def user_blocks_def)
qed

section \<open>Entering a block\<close>

definition enter :: "bmt_entry list \<Rightarrow> nat \<Rightarrow> nat \<Rightarrow> bmt_entry list" where
  "enter es b n = (case bmt_index_of es b of
     Some i \<Rightarrow> es[i := (es ! i)\<lparr>e_to := word_of_nat n\<rparr>]
   | None \<Rightarrow> es @ [\<lparr>e_from = word_of_nat b, e_to = word_of_nat n\<rparr>])"

lemma enter_simps:
  "enter [] b n = [\<lparr>e_from = word_of_nat b, e_to = word_of_nat n\<rparr>]"
  "enter (e # es) b n = (if unat (e_from e) = b then e\<lparr>e_to := word_of_nat n\<rparr> # es else e # enter es b n)"
  by (auto simp: enter_def split: option.splits)

lemma bmt_index_of_bound: "bmt_index_of es b = Some i \<Longrightarrow> i < length es \<and> unat (e_from (es ! i)) = b"
  by (induction es arbitrary: i) (auto split: if_splits)

lemma bmt_index_of_none: "bmt_index_of es b = None \<longleftrightarrow> b \<notin> set (map (\<lambda>e. unat (e_from e)) es)"
  by (induction es) auto

lemma enter_map:
  assumes "b < 65536" "n < 65536"
  shows "map_of (map (\<lambda>e. (unat (e_from e), unat (e_to e))) (enter es b n)) =
    (map_of (map (\<lambda>e. (unat (e_from e), unat (e_to e))) es))(b \<mapsto> n)"
  using assms by (induction es) (auto simp: enter_simps unat_of_nat fun_eq_iff)

lemma enter_from:
  "set (map e_from (enter es b n)) \<subseteq> insert (word_of_nat b) (set (map e_from es))"
  "b < 65536 \<Longrightarrow> distinct (map e_from es) \<Longrightarrow> distinct (map e_from (enter es b n))"
proof -
  show sub: "set (map e_from (enter es b n)) \<subseteq> insert (word_of_nat b) (set (map e_from es))" for es
    by (induction es) (auto simp: enter_simps)
  show "distinct (map e_from (enter es b n))" if "b < 65536" "distinct (map e_from es)"
    using that(2)
  proof (induction es)
    case (Cons e es)
    have "e_from e = word_of_nat b \<Longrightarrow> unat (e_from e) = b" using that(1) by (simp add: unat_of_nat)
    then show ?case using Cons sub [of es] by (auto simp: enter_simps)
  qed (simp add: enter_simps)
qed

lemma enter_to:
  "set (map e_to (enter es b n)) \<subseteq> insert (word_of_nat n) (set (map e_to es))"
  "word_of_nat n \<notin> set (map e_to es) \<Longrightarrow> distinct (map e_to es) \<Longrightarrow> distinct (map e_to (enter es b n))"
proof -
  show sub: "set (map e_to (enter es b n)) \<subseteq> insert (word_of_nat n) (set (map e_to es))" for es
    by (induction es) (auto simp: enter_simps)
  show "distinct (map e_to (enter es b n))" if "word_of_nat n \<notin> set (map e_to es)" "distinct (map e_to es)"
    using that
  proof (induction es)
    case (Cons e es)
    then show ?case using sub [of es] by (auto simp: enter_simps)
  qed (simp add: enter_simps)
qed

lemma used_length:
  assumes "en_ok s"
  shows "length (bmt_used s) = unat (mt_size (en_bmt s))" "length (bmt_used s) \<le> length (mt_table (en_bmt s))"
  using byte_bound [of "mt_size (en_bmt s)"] assms by (simp_all add: bmt_used_def en_ok_def en75_sizes)

text \<open>\<open>bmt_enter\<close> is \<open>enter\<close> on the entries in use.\<close>

lemma bmt_enter_eq:
  assumes "en_ok s" "mt_size (en_bmt s) \<noteq> 0xff"
  obtains bmt where "bmt_enter s block n = Some (s\<lparr>en_bmt := bmt, bmt_dirty := bmt_dirty s + 1\<rparr>)"
    "length (mt_table bmt) = MAX_BMT_SIZE"
    "take (unat (mt_size bmt)) (mt_table bmt) = enter (bmt_used s) block n"
proof (cases "bmt_index_of (bmt_used s) block")
  case None
  let ?k = "unat (mt_size (en_bmt s))"
  let ?e = "\<lparr>e_from = word_of_nat block, e_to = word_of_nat n\<rparr>"
  have "?k \<noteq> 255" using assms(2) by (simp add: word_unat_eq_iff)
  then have k: "?k < 255" using byte_bound [of "mt_size (en_bmt s)"] by simp
  then have "unat (mt_size (en_bmt s) + 1) = Suc ?k" by (simp add: unat_word_ariths)
  moreover have "?k < length (mt_table (en_bmt s))" "length (mt_table (en_bmt s)) = MAX_BMT_SIZE"
    using k assms(1) by (simp_all add: en_ok_def en75_sizes)
  ultimately show ?thesis
    using None by (intro that [of "(en_bmt s)\<lparr>mt_size := mt_size (en_bmt s) + 1,
        mt_table := (mt_table (en_bmt s))[?k := ?e]\<rparr>"])
      (simp_all add: bmt_enter_def aset_def enter_def Let_def bmt_used_def take_Suc_conv_app_nth)
next
  case (Some i)
  let ?k = "unat (mt_size (en_bmt s))"
  have i: "i < ?k" "i < length (mt_table (en_bmt s))" "length (mt_table (en_bmt s)) = MAX_BMT_SIZE"
    using bmt_index_of_bound [OF Some] used_length [OF assms(1)] assms(1) by (simp_all add: en_ok_def)
  then show ?thesis
    using Some by (intro that [of "(en_bmt s)\<lparr>mt_table := (mt_table (en_bmt s))[i :=
        (mt_table (en_bmt s) ! i)\<lparr>e_to := word_of_nat n\<rparr>]\<rparr>"])
      (simp_all add: bmt_enter_def aset_def aget_def enter_def Let_def bmt_used_def take_update_swap)
qed

section \<open>Remapping\<close>

text \<open>What remapping leaves alone.\<close>

definition en_frame :: "('d, 'z) en75_scheme \<Rightarrow> ('d, 'z) en75_scheme \<Rightarrow> bool" where
  "en_frame s t \<longleftrightarrow> same_shape s t \<and> reserve_begin t = reserve_begin s \<and> fbs t = fbs s
     \<and> map bi_index (rblocks t) = map bi_index (rblocks s)
     \<and> length (ft_table (en_bbt t)) = length (ft_table (en_bbt s))
     \<and> can_remap_count t = can_remap_count s \<and> can_remap_ranges t = can_remap_ranges s"

lemma same_map_frame: "same_map s t \<Longrightarrow> en_frame s t"
  by (simp add: same_map_def en_frame_def)

lemma en_frame_trans: "en_frame s t \<Longrightarrow> en_frame t u \<Longrightarrow> en_frame s u"
  by (auto simp: en_frame_def intro: same_shape_trans)

lemma en_frame_blocks: "en_frame s t \<Longrightarrow> user_blocks t = user_blocks s"
  by (simp add: en_frame_def user_blocks_def)

lemma en_frame_ok: "en_frame s t \<Longrightarrow> en_ok s \<Longrightarrow> length (mt_table (en_bmt t)) = MAX_BMT_SIZE \<Longrightarrow> en_ok t"
  by (simp add: en_frame_def en_ok_def same_shape_def)

lemma en_ok_distinct: "en_ok s \<Longrightarrow> distinct (map bi_index (rblocks s))"
  by (simp add: en_ok_def)

text \<open>A new entry for a block, leading to a block of the reserve area that was free.\<close>

lemma entered_sound:
  assumes "en_sound s" "en_frame s t" "block < reserve_begin s" "\<not> mapped_info s n"
    "bmt_used t = enter (bmt_used s) block n" "length (mt_table (en_bmt t)) = MAX_BMT_SIZE"
    "mapped_info t n" "\<And>k. mapped_info s k \<Longrightarrow> bmt_map s block \<noteq> Some k \<Longrightarrow> mapped_info t k"
  shows "en_sound t" "bmt_map t = (bmt_map s)(block \<mapsto> n)"
proof -
  have ok: "en_ok s" "en_ok t" using assms en_frame_ok by (auto simp: en_sound_def)
  have n: "n < 65536" using mapped_info_bounds [OF ok(2) assms(7)] ok(2) by (simp add: en_ok_def)
  have b: "block < 65536" using assms(3) ok(1) by (simp add: en_ok_def)
  have new: "word_of_nat n \<notin> set (map e_to (bmt_used s))"
  proof
    assume "word_of_nat n \<in> set (map e_to (bmt_used s))"
    then obtain e where "e \<in> set (bmt_used s)" "e_to e = word_of_nat n" by auto
    then have "mapped_info s (unat (word_of_nat n :: 16 word))" using assms(1) by (auto simp: en_sound_def)
    then show False using assms(4) n by (simp add: unat_of_nat)
  qed
  show m: "bmt_map t = (bmt_map s)(block \<mapsto> n)"
    unfolding bmt_map_def assms(5) using b n by (rule enter_map)
  have d: "distinct (map e_from (bmt_used t))" "distinct (map e_to (bmt_used t))"
    using assms(1) enter_from(2) [OF b] enter_to(2) [OF new] by (auto simp: assms(5) en_sound_def)
  have "unat (e_from e) < reserve_begin t \<and> mapped_info t (unat (e_to e))" if "e \<in> set (bmt_used t)" for e
  proof -
    have e: "bmt_map t (unat (e_from e)) = Some (unat (e_to e))" using that bmt_map_mem [OF d(1)] by blast
    show ?thesis
    proof (cases "unat (e_from e) = block")
      case True
      then show ?thesis using e m assms(2,3,7) by (simp add: en_frame_def)
    next
      case False
      then have old: "bmt_map s (unat (e_from e)) = Some (unat (e_to e))" using e m by simp
      have "bmt_map s block \<noteq> Some (unat (e_to e))"
        using bmt_map_inj [OF assms(1) old] False by blast
      then show ?thesis
        using bmt_map_sound [OF assms(1) old] assms(2,8) by (simp add: en_frame_def)
    qed
  qed
  then show "en_sound t"
    using ok(2) d assms(1,2) by (auto simp: en_sound_def en_frame_def)
qed

text \<open>Setting the status of one block of the reserve area.\<close>

lemma set_status_spec:
  assumes "i < length (rblocks s)" "distinct (map bi_index (rblocks s))"
  shows "runs (set_status i st s) (\<lambda>t. (\<exists>rs. t = s\<lparr>rblocks := rs\<rparr>)
    \<and> map bi_index (rblocks t) = map bi_index (rblocks s)
    \<and> (\<forall>k. mapped_info t k \<longleftrightarrow> (if k = bi_index (rblocks s ! i) then st = BS_MAPPED else mapped_info s k)))"
proof -
  let ?b = "(rblocks s ! i)\<lparr>bi_status := st\<rparr>"
  have idx: "map bi_index ((rblocks s)[i := ?b]) = map bi_index (rblocks s)"
    using assms(1) by (simp add: map_update list_update_same_conv)
  have inj: "j = i" if "j < length (rblocks s)" "bi_index (rblocks s ! j) = bi_index (rblocks s ! i)" for j
    using assms that nth_eq_iff_index_eq [of "map bi_index (rblocks s)" j i] by simp
  have "mapped_info (s\<lparr>rblocks := (rblocks s)[i := ?b]\<rparr>) k \<longleftrightarrow> (\<exists>j < length (rblocks s).
      bi_index (rblocks s ! j) = k \<and> (if j = i then st else bi_status (rblocks s ! j)) = BS_MAPPED)" for k
    unfolding mapped_info_nth using assms(1) by (intro ex_cong1 conj_cong) (simp_all add: nth_list_update)
  moreover have "(\<exists>j < length (rblocks s). bi_index (rblocks s ! j) = k \<and>
        (if j = i then st else bi_status (rblocks s ! j)) = BS_MAPPED) \<longleftrightarrow>
      (if k = bi_index (rblocks s ! i) then st = BS_MAPPED else mapped_info s k)" for k
    unfolding mapped_info_nth using assms(1) inj by metis
  ultimately have "mapped_info (s\<lparr>rblocks := (rblocks s)[i := ?b]\<rparr>) k \<longleftrightarrow>
      (if k = bi_index (rblocks s ! i) then st = BS_MAPPED else mapped_info s k)" for k by simp
  then show ?thesis using idx by (auto simp: set_status_eq [OF assms(1)])
qed

definition available_info :: "('d, 'z) en75_scheme \<Rightarrow> nat \<Rightarrow> bool" where
  "available_info s t \<longleftrightarrow> (\<exists>i < length (rblocks s). bi_index (rblocks s ! i) = t \<and> bi_status (rblocks s ! i) = BS_AVAILABLE)"

lemma available_not_mapped: "en_ok s \<Longrightarrow> available_info s k \<Longrightarrow> \<not> mapped_info s k"
  using nth_eq_iff_index_eq [OF en_ok_distinct, of s]
  by (fastforce simp: available_info_def mapped_info_nth)

lemma mapped_info_io: "io_only s t \<Longrightarrow> mapped_info t = mapped_info (s :: ('d, 'z) en75_scheme)"
  by (simp add: mapped_info_def io_only_context(1) fun_eq_iff)

lemma mapped_info_bmt [simp]: "mapped_info (s\<lparr>en_bmt := b, bmt_dirty := d\<rparr>) = mapped_info s"
  by (simp add: mapped_info_def fun_eq_iff)

lemma en_frame_bmt [simp]: "en_frame s (t\<lparr>en_bmt := b, bmt_dirty := d\<rparr>) = en_frame s t"
  by (simp add: en_frame_def same_shape_def fbs_def)

lemma en_frame_rblocks:
  "map bi_index rs = map bi_index (rblocks s) \<Longrightarrow> en_frame s (s\<lparr>rblocks := rs\<rparr>)"
  by (simp add: en_frame_def same_shape_def fbs_def)

lemma make_mapping_user:
  assumes "w_make_mapping E s b block = (0, t)"
  shows "block < reserve_begin s"
  using assms by (auto simp: w_make_mapping_def split: if_splits)

text \<open>
  The outcome of a remapping: on success the block has a new entry, to a block of the reserve area
  that was available; otherwise the mapping is what it was.
\<close>

definition en_remapped :: "('d, 'z) en75_scheme \<Rightarrow> nat \<Rightarrow> int \<times> ('d, 'z) en75_scheme \<Rightarrow> bool" where
  "en_remapped s block x \<longleftrightarrow> (case x of (ret, t) \<Rightarrow> en_sound t \<and> en_frame s t
     \<and> (if ret = 0 then block < reserve_begin s
          \<and> (\<exists>n. available_info s n \<and> bmt_map t = (bmt_map s)(block \<mapsto> n))
        else bmt_map t = bmt_map s))"

lemma same_map_remapped:
  "en_sound s \<Longrightarrow> same_map s t \<Longrightarrow> ret \<noteq> 0 \<Longrightarrow> en_remapped s block (ret, t)"
  by (simp add: en_remapped_def same_map_sound same_map_frame)

text \<open>The marks after a remapping: the new block is mapped, the old one is not.\<close>

lemma set_statusE:
  assumes "i < length (rblocks s)" "distinct (map bi_index (rblocks s))"
  obtains rs where "set_status i st s = Some (s\<lparr>rblocks := rs\<rparr>)"
    "map bi_index rs = map bi_index (rblocks s)"
    "\<forall>k. mapped_info (s\<lparr>rblocks := rs\<rparr>) k \<longleftrightarrow> (if k = bi_index (rblocks s ! i) then st = BS_MAPPED else mapped_info s k)"
proof -
  obtain t where t: "set_status i st s = Some t" "\<exists>rs. t = s\<lparr>rblocks := rs\<rparr>"
    "map bi_index (rblocks t) = map bi_index (rblocks s)"
    "\<forall>k. mapped_info t k \<longleftrightarrow> (if k = bi_index (rblocks s ! i) then st = BS_MAPPED else mapped_info s k)"
    using runs_total [OF set_status_spec [OF assms, of st]] by blast
  then obtain rs where rs: "t = s\<lparr>rblocks := rs\<rparr>" by blast
  show ?thesis by (rule that [of rs]) (use t rs in simp_all)
qed

lemma remap_marks:
  assumes "en_ok s" "i < length (rblocks s)" "\<And>j. maybe = Some j \<Longrightarrow> j < length (rblocks s) \<and> j \<noteq> i"
  shows "runs (do {
      s \<leftarrow> set_status i BS_MAPPED s;
      let (_, s) = w_mark_bad E s block True;
      case maybe of None \<Rightarrow> Some s | Some j \<Rightarrow> set_status j BS_NEED_ERASE s })
    (\<lambda>y. en_frame s y \<and> en_bmt y = en_bmt s \<and> mapped_info y (bi_index (rblocks s ! i))
      \<and> (\<forall>k. mapped_info s k \<longrightarrow> (\<forall>j. maybe = Some j \<longrightarrow> k \<noteq> bi_index (rblocks s ! j)) \<longrightarrow> mapped_info y k))"
proof -
  obtain rs where rs: "set_status i BS_MAPPED s = Some (s\<lparr>rblocks := rs\<rparr>)"
    "map bi_index rs = map bi_index (rblocks s)"
    "\<forall>k. mapped_info (s\<lparr>rblocks := rs\<rparr>) k \<longleftrightarrow>
        (if k = bi_index (rblocks s ! i) then BS_MAPPED = BS_MAPPED else mapped_info s k)"
    by (rule set_statusE [where st = BS_MAPPED, OF assms(2) en_ok_distinct [OF assms(1)]])
  define x where "x = snd (w_mark_bad E (s\<lparr>rblocks := rs\<rparr>) block True)"
  have io: "io_only (s\<lparr>rblocks := rs\<rparr>) x" by (simp add: x_def w_mark_bad_io)
  note c = io_only_context [OF io]
  have x: "en_frame s x" "en_bmt x = en_bmt s" "rblocks x = rs" "mapped_info x = mapped_info (s\<lparr>rblocks := rs\<rparr>)"
    using c en_frame_trans [OF en_frame_rblocks [OF rs(2)] same_map_frame [OF c(9)]] mapped_info_io [OF io]
    by simp_all
  show ?thesis
  proof (cases maybe)
    case None
    then show ?thesis using x rs by (simp add: x_def [symmetric] case_prod_beta Let_def)
  next
    case (Some j)
    have len: "length rs = length (rblocks s)" using rs(2) by (metis length_map)
    have j: "j < length (rblocks s)" "j \<noteq> i" "j < length (rblocks x)" using assms(3) [OF Some] len x(3) by simp_all
    have dx: "distinct (map bi_index (rblocks x))" using rs(2) x(3) en_ok_distinct [OF assms(1)] by simp
    obtain qs where qs: "set_status j BS_NEED_ERASE x = Some (x\<lparr>rblocks := qs\<rparr>)"
      "map bi_index qs = map bi_index (rblocks x)"
      "\<forall>k. mapped_info (x\<lparr>rblocks := qs\<rparr>) k \<longleftrightarrow>
          (if k = bi_index (rblocks x ! j) then BS_NEED_ERASE = BS_MAPPED else mapped_info x k)"
      by (rule set_statusE [where st = BS_NEED_ERASE, OF j(3) dx])
    have idx: "bi_index (rblocks x ! j) = bi_index (rblocks s ! j)" using j(1) len rs(2) x(3) by (metis nth_map)
    have ne: "bi_index (rblocks s ! i) \<noteq> bi_index (rblocks s ! j)"
      using en_ok_distinct [OF assms(1)] assms(2) j nth_eq_iff_index_eq [of "map bi_index (rblocks s)" i j] by simp
    have "en_frame s (x\<lparr>rblocks := qs\<rparr>)" using en_frame_trans [OF x(1) en_frame_rblocks [OF qs(2)]] .
    then show ?thesis
      using Some x(2,4) rs(1,3) qs(1,3) idx ne by (simp add: x_def [symmetric] case_prod_beta Let_def)
  qed
qed

text \<open>The part of the remapping after the new block has been written.\<close>

lemma remap_rest:
  assumes "en_sound s" "io_only s u" "block < reserve_begin s" "mt_size (en_bmt s) \<noteq> 0xff"
    "i < length (rblocks s)" "bi_status (rblocks s ! i) = BS_AVAILABLE"
    "\<And>j. maybe = Some j \<Longrightarrow> j < length (rblocks s) \<and> bmt_map s block = Some (bi_index (rblocks s ! j))"
  shows "runs (do {
      s \<leftarrow> bmt_enter u block (bi_index (rblocks s ! i));
      s \<leftarrow> set_status i BS_MAPPED s;
      let (_, s) = w_mark_bad E s block True;
      case maybe of None \<Rightarrow> Some s | Some j \<Rightarrow> set_status j BS_NEED_ERASE s }) (\<lambda>y. en_remapped s block (0, y))"
proof -
  let ?n = "bi_index (rblocks s ! i)"
  have ok: "en_ok s" using assms(1) by (simp add: en_sound_def)
  have free: "available_info s ?n" "\<not> mapped_info s ?n"
    using assms(5,6) available_not_mapped [OF ok] by (auto simp: available_info_def)
  note c = io_only_context [OF assms(2)]
  obtain bmt where e: "bmt_enter u block ?n = Some (u\<lparr>en_bmt := bmt, bmt_dirty := bmt_dirty u + 1\<rparr>)"
    "length (mt_table bmt) = MAX_BMT_SIZE" "take (unat (mt_size bmt)) (mt_table bmt) = enter (bmt_used u) block ?n"
    by (rule bmt_enter_eq [OF same_map_ok [OF c(9) ok], of block ?n]) (use assms(4) c(2) in simp)
  define v where "v = u\<lparr>en_bmt := bmt, bmt_dirty := bmt_dirty u + 1\<rparr>"
  have v: "en_frame s v" "rblocks v = rblocks s" "en_bmt v = bmt" "mapped_info v = mapped_info s"
    using same_map_frame [OF c(9)] c(1) mapped_info_io [OF assms(2)] by (simp_all add: v_def)
  have vok: "en_ok v" by (rule en_frame_ok [OF v(1) ok]) (simp add: v(3) e(2))
  have ne: "j \<noteq> i" if "maybe = Some j" for j
    using assms(7) [OF that] bmt_map_sound(4) [OF assms(1)] free(2) by blast
  have "runs (do {
      s \<leftarrow> set_status i BS_MAPPED v;
      let (_, s) = w_mark_bad E s block True;
      case maybe of None \<Rightarrow> Some s | Some j \<Rightarrow> set_status j BS_NEED_ERASE s }) (\<lambda>y. en_remapped s block (0, y))"
  proof (rule runs_mono [OF remap_marks [OF vok, of i maybe E block]], goal_cases)
    case (3 y)
    then have y: "en_frame s y" "en_bmt y = bmt" "mapped_info y ?n"
      "\<And>k. mapped_info s k \<Longrightarrow> bmt_map s block \<noteq> Some k \<Longrightarrow> mapped_info y k"
      using v en_frame_trans [OF v(1)] assms(7) by auto
    have used: "bmt_used y = enter (bmt_used s) block ?n"
      using e(3) y(2) c(2) by (simp add: bmt_used_def)
    have "length (mt_table (en_bmt y)) = MAX_BMT_SIZE" using y(2) e(2) by simp
    from entered_sound [OF assms(1) y(1) assms(3) free(2) used this y(3,4)]
    show ?case using y(1) free(1) assms(3) by (auto simp: en_remapped_def)
  qed (use assms(5,7) ne v(2) in auto)
  then show ?thesis unfolding e(1) v_def [symmetric] by simp
qed

lemma w_remap_block_spec:
  assumes "en_sound s" "\<And>j. maybe = Some j \<Longrightarrow> j < length (rblocks s) \<and> bmt_map s block = Some (bi_index (rblocks s ! j))"
  shows "runs (w_remap_block E s block maybe copy_len) (en_remapped s block)"
proof (cases "mt_size (en_bmt s) = 0xff")
  case True
  then show ?thesis using assms(1) by (simp add: w_remap_block_def same_map_remapped)
next
  case False
  have ok: "en_ok s" using assms(1) by (simp add: en_sound_def)
  obtain r where r: "find_available_block s False = Some r" "case r of
     Inl e \<Rightarrow> e = - ENOSPC \<and> (\<forall>b \<in> set (rblocks s). bi_status b \<noteq> BS_AVAILABLE)
   | Inr i \<Rightarrow> i < length (rblocks s) \<and> bi_status (rblocks s ! i) = BS_AVAILABLE"
    using find_available_ok [OF ok, of False] by (auto simp: runs_def)
  show ?thesis
  proof (cases r)
    case (Inl e)
    then show ?thesis using r(1) False assms(1) by (simp add: w_remap_block_def same_map_remapped)
  next
    case (Inr i)
    then have i: "i < length (rblocks s)" "bi_status (rblocks s ! i) = BS_AVAILABLE" using r(2) by simp_all
    obtain ret t where t: "w_make_mapping E s (rblocks s ! i) block = (ret, t)" by fastforce
    have io: "io_only s t" using w_make_mapping_io [of s E "rblocks s ! i" block] t by simp
    note c = io_only_context [OF io]
    have fail: "runs (do { s \<leftarrow> set_status i BS_NEED_ERASE t; Some (ret, s) }) (en_remapped s block)" if "ret \<noteq> 0"
    proof (rule runs_bindI [OF set_status_same_map])
      show "i < length (rblocks t)" "bi_status (rblocks t ! i) \<noteq> BS_MAPPED" using i c(1) by simp_all
      fix u assume "same_map t u \<and> bmt_dirty u = bmt_dirty t \<and> bbt_dirty u = bbt_dirty t"
      then show "runs (Some (ret, u)) (en_remapped s block)"
        using same_map_trans [OF c(9)] same_map_remapped [OF assms(1) _ that] by simp
    qed
    have copied: "io_only s (w_copy_tries 10 E t (bi_index (rblocks s ! i)) src copy_len)" for src
      using io w_copy_tries_io by (rule io_only_trans)
    have good: "runs (do {
        copy_from \<leftarrow> (case maybe of None \<Rightarrow> Some block | Some j \<Rightarrow> map_option bi_index (aget (rblocks t) j));
        let s' = (if copy_len \<noteq> 0 then w_copy_tries 10 E t (bi_index (rblocks s ! i)) copy_from copy_len else t);
        s' \<leftarrow> bmt_enter s' block (bi_index (rblocks s ! i));
        s' \<leftarrow> set_status i BS_MAPPED s';
        let (_, s') = w_mark_bad E s' block True;
        s' \<leftarrow> (case maybe of None \<Rightarrow> Some s' | Some j \<Rightarrow> set_status j BS_NEED_ERASE s');
        Some (0, s') }) (en_remapped s block)" if "ret = 0"
    proof -
      have b: "block < reserve_begin s" using t that by (auto intro: make_mapping_user)
      have rest: "runs (do {
          s' \<leftarrow> bmt_enter u block (bi_index (rblocks s ! i));
          s' \<leftarrow> set_status i BS_MAPPED s';
          let (_, s') = w_mark_bad E s' block True;
          s' \<leftarrow> (case maybe of None \<Rightarrow> Some s' | Some j \<Rightarrow> set_status j BS_NEED_ERASE s');
          Some (0, s') }) (en_remapped s block)" if "io_only s u" for u
        using remap_rest [OF assms(1) that b False i, of maybe E] assms(2)
        by (simp add: runs_bind case_prod_beta Let_def)
      have "(case maybe of None \<Rightarrow> Some block | Some j \<Rightarrow> map_option bi_index (aget (rblocks t) j)) \<noteq> None"
        using assms(2) c(1) by (auto simp: aget_def split: option.splits)
      then show ?thesis using rest copied io by (auto simp: Let_def)
    qed
    show ?thesis
      unfolding w_remap_block_def if_not_P [OF False] r(1) Inr bind.bind_lunit sum.case aget_def if_P [OF i(1)] t
        Let_def case_prod_conv
      using fail good unfolding aget_def Let_def by simp
  qed
qed

section \<open>Unmapping\<close>

text \<open>The last entry takes the place of the one that is removed.\<close>

definition remove_at :: "nat \<Rightarrow> 'a list \<Rightarrow> 'a list" where
  "remove_at i xs = take (length xs - 1) (xs[i := last xs])"

lemma remove_at_snoc:
  "i \<le> length ys \<Longrightarrow> remove_at i (ys @ [l]) = (if i = length ys then ys else ys[i := l])"
  by (auto simp: remove_at_def list_update_append)

lemma map_remove_at: "map f (remove_at i xs) = remove_at i (map f xs)"
proof (cases "xs = []")
  case False
  then show ?thesis by (simp add: remove_at_def take_map [symmetric] map_update last_map)
qed (simp add: remove_at_def)

lemma remove_at_set:
  assumes "distinct xs" "i < length xs"
  shows "set (remove_at i xs) = set xs - {xs ! i}" "distinct (remove_at i xs)"
proof -
  obtain ys l where xs: "xs = ys @ [l]" using assms(2) by (cases xs rule: rev_cases) auto
  have d: "distinct ys" "l \<notin> set ys" using assms(1) by (simp_all add: xs)
  have "set (remove_at i xs) = set xs - {xs ! i} \<and> distinct (remove_at i xs)"
  proof (cases "i = length ys")
    case True
    then show ?thesis using d by (simp add: xs remove_at_snoc)
  next
    case False
    then have i: "i < length ys" using assms(2) by (simp add: xs)
    then show ?thesis
      using d nth_mem [OF i]
      by (auto simp: xs remove_at_snoc nth_append set_update_distinct intro!: distinct_list_update)
  qed
  then show "set (remove_at i xs) = set xs - {xs ! i}" "distinct (remove_at i xs)" by blast+
qed

lemma rblock_index_ok:
  "set js \<subseteq> {..<length rs} \<Longrightarrow> runs (rblock_index rs js b) (\<lambda>r. case r of
     None \<Rightarrow> \<forall>j \<in> set js. bi_index (rs ! j) \<noteq> b
   | Some j \<Rightarrow> j \<in> set js \<and> bi_index (rs ! j) = b)"
  by (induction js) (auto simp: vcg elim!: runs_mono split: option.splits)

text \<open>A context in which one entry has been removed.\<close>

lemma removed_sound:
  assumes "en_sound s" "en_frame s t" "i < length (bmt_used s)" "bmt_used t = remove_at i (bmt_used s)"
    "length (mt_table (en_bmt t)) = MAX_BMT_SIZE"
    "\<And>k. mapped_info s k \<Longrightarrow> k \<noteq> unat (e_to (bmt_used s ! i)) \<Longrightarrow> mapped_info t k"
  shows "en_sound t" "bmt_map t = (bmt_map s)(unat (e_from (bmt_used s ! i)) := None)"
proof -
  let ?e = "bmt_used s ! i"
  have ds: "distinct (map e_from (bmt_used s))" "distinct (map e_to (bmt_used s))"
    using assms(1) by (simp_all add: en_sound_def)
  then have du: "distinct (bmt_used s)" by (simp add: distinct_map)
  have set_t: "set (bmt_used t) = set (bmt_used s) - {?e}"
    unfolding assms(4) by (rule remove_at_set(1) [OF du assms(3)])
  have dt: "distinct (map e_from (bmt_used t))" "distinct (map e_to (bmt_used t))"
    using remove_at_set(2) [OF ds(1)] remove_at_set(2) [OF ds(2)] assms(3)
    by (simp_all add: assms(4) map_remove_at)
  have mem: "?e \<in> set (bmt_used s)" using assms(3) by (rule nth_mem)
  have inj: "e = ?e" if "e \<in> set (bmt_used s)" "e_from e = e_from ?e \<or> e_to e = e_to ?e" for e
    using that mem ds by (auto simp: distinct_map inj_on_def)
  have "bmt_map t b = Some c \<longleftrightarrow> ((bmt_map s)(unat (e_from ?e) := None)) b = Some c" for b c
    using bmt_map_mem [OF dt(1), of b c] bmt_map_mem [OF ds(1), of b c] inj
    by (auto simp: set_t unat_eq_iff)
  then show "bmt_map t = (bmt_map s)(unat (e_from ?e) := None)"
    by (intro ext) (metis not_Some_eq)
  have "unat (e_from e) < reserve_begin t \<and> mapped_info t (unat (e_to e))" if "e \<in> set (bmt_used t)" for e
  proof -
    have e: "e \<in> set (bmt_used s)" "e \<noteq> ?e" using that by (simp_all add: set_t)
    then have "unat (e_to e) \<noteq> unat (e_to ?e)" using inj by (auto simp: unat_eq_iff)
    then show ?thesis using e assms(1,2,6) by (auto simp: en_sound_def en_frame_def)
  qed
  then show "en_sound t"
    using dt assms(1,2) en_frame_ok [OF assms(2) _ assms(5)] by (auto simp: en_sound_def en_frame_def)
qed

text \<open>Taking an entry out of the table in memory.\<close>

lemma table_removed:
  assumes "en_ok s" "i < length (bmt_used s)"
  defines "k \<equiv> unat (mt_size (en_bmt s)) - 1"
  shows "i < length (mt_table (en_bmt s))" "k < length (mt_table (en_bmt s))"
    "mt_table (en_bmt s) ! i = bmt_used s ! i" "unat (word_of_nat k :: byte) = k"
    "take k ((mt_table (en_bmt s))[i := mt_table (en_bmt s) ! k, k := zero_entry]) = remove_at i (bmt_used s)"
proof -
  let ?n = "unat (mt_size (en_bmt s))"
  have n: "i < ?n" "?n \<le> length (mt_table (en_bmt s))" "?n < 256" "length (bmt_used s) = ?n"
    using used_length [OF assms(1)] assms(2) byte_bound [of "mt_size (en_bmt s)"] by simp_all
  then show "i < length (mt_table (en_bmt s))" "k < length (mt_table (en_bmt s))"
    "mt_table (en_bmt s) ! i = bmt_used s ! i"
    by (simp_all add: k_def bmt_used_def)
  have "k < 256" using n(3) by (simp add: k_def)
  then show "unat (word_of_nat k :: byte) = k" by (simp add: unat_of_nat)
  have "bmt_used s \<noteq> []" using n by auto
  then have "last (bmt_used s) = mt_table (en_bmt s) ! k"
    using n(1,2,4) by (simp add: last_conv_nth bmt_used_def k_def)
  then show "take k ((mt_table (en_bmt s))[i := mt_table (en_bmt s) ! k, k := zero_entry]) = remove_at i (bmt_used s)"
    unfolding remove_at_def n(4) k_def [symmetric]
    by (simp add: bmt_used_def take_update_swap k_def min_def list_update_beyond)
qed

definition en_unmapped :: "('d, 'z) en75_scheme \<Rightarrow> nat \<Rightarrow> int \<times> ('d, 'z) en75_scheme \<Rightarrow> bool" where
  "en_unmapped s block x \<longleftrightarrow> (case x of (ret, t) \<Rightarrow> en_sound t \<and> en_frame s t
     \<and> bmt_map t = (if ret = 0 then (bmt_map s)(block := None) else bmt_map s))"

lemma same_map_unmapped:
  "en_sound s \<Longrightarrow> same_map s t \<Longrightarrow> ret \<noteq> 0 \<Longrightarrow> en_unmapped s block (ret, t)"
  by (simp add: en_unmapped_def same_map_sound same_map_frame)

lemma w_unmap_block_spec:
  assumes "en_sound s"
  shows "runs (w_unmap_block E s block erase) (en_unmapped s block)"
proof (cases "bmt_index_of (bmt_used s) block")
  case None
  then show ?thesis using assms by (simp add: w_unmap_block_def same_map_unmapped)
next
  case (Some i)
  have ok: "en_ok s" using assms by (simp add: en_sound_def)
  have i: "i < length (bmt_used s)" "unat (e_from (bmt_used s ! i)) = block"
    using bmt_index_of_bound [OF Some] by simp_all
  note t = table_removed [OF ok i(1)]
  let ?to = "unat (e_to (bmt_used s ! i))"
  have "mapped_info s ?to" using assms nth_mem [OF i(1)] by (simp add: en_sound_def)
  then obtain j' where "j' < length (rblocks s)" "bi_index (rblocks s ! j') = ?to"
    by (auto simp: mapped_info_nth)
  then obtain j where j: "rblock_index (rblocks s) [0..<length (rblocks s)] ?to = Some (Some j)"
    "j < length (rblocks s)" "bi_index (rblocks s ! j) = ?to"
    using rblock_index_ok [of "[0..<length (rblocks s)]" "rblocks s" ?to]
    by (fastforce simp: runs_def split: option.splits)
  obtain ret u where u: "(if erase \<noteq> UE_NO_ERASE then w_erase_one E s (bi_index (rblocks s ! j)) False
      else (0, s)) = (ret, u)" by fastforce
  have io: "io_only s u"
    using u w_erase_one_io [of s E "bi_index (rblocks s ! j)" False] by (auto split: if_splits)
  note c = io_only_context [OF io]
  define k where "k = unat (mt_size (en_bmt s)) - 1"
  define v where "v = u\<lparr>en_bmt := (en_bmt s)\<lparr>mt_size := word_of_nat k,
     mt_table := (mt_table (en_bmt s))[i := mt_table (en_bmt s) ! k, k := zero_entry]\<rparr>,
     bmt_dirty := bmt_dirty u + 1\<rparr>"
  have v: "en_frame s v" "rblocks v = rblocks s" "mapped_info v = mapped_info s"
    using same_map_frame [OF c(9)] c(1) mapped_info_io [OF io] by (simp_all add: v_def)
  have used: "bmt_used v = remove_at i (bmt_used s)"
    using t(4,5) by (simp add: bmt_used_def v_def k_def)
  have len: "length (mt_table (en_bmt v)) = MAX_BMT_SIZE" using ok by (simp add: v_def en_ok_def)
  have fin: "runs (do { s \<leftarrow> set_status j BS_NEED_ERASE v; Some (0, s) }) (en_unmapped s block)"
  proof -
    obtain rs where rs: "set_status j BS_NEED_ERASE v = Some (v\<lparr>rblocks := rs\<rparr>)"
      "map bi_index rs = map bi_index (rblocks v)"
      "\<forall>k. mapped_info (v\<lparr>rblocks := rs\<rparr>) k \<longleftrightarrow>
          (if k = bi_index (rblocks v ! j) then BS_NEED_ERASE = BS_MAPPED else mapped_info v k)"
      by (rule set_statusE [where st = BS_NEED_ERASE and i = j and s = v])
         (use j(2) v(2) en_ok_distinct [OF ok] in simp_all)
    have f: "en_frame s (v\<lparr>rblocks := rs\<rparr>)" by (rule en_frame_trans [OF v(1) en_frame_rblocks [OF rs(2)]])
    have "bmt_used (v\<lparr>rblocks := rs\<rparr>) = remove_at i (bmt_used s)" using used by (simp add: bmt_used_def)
    from removed_sound [OF assms f i(1) this]
    have "en_sound (v\<lparr>rblocks := rs\<rparr>)" "bmt_map (v\<lparr>rblocks := rs\<rparr>) = (bmt_map s)(block := None)"
      using len rs(3) v(2,3) j(3) i(2) by simp_all
    then show ?thesis using rs(1) f by (simp add: en_unmapped_def)
  qed
  have "en_unmapped s block (ret, u)" if "ret \<noteq> 0" using same_map_unmapped [OF assms c(9) that] .
  then show ?thesis
    using Some t(1-3) j u c(1,2) fin [unfolded v_def k_def]
    by (simp add: w_unmap_block_def en_ok_count [OF ok] aget_def aset_def Let_def)
qed

end
