(* ===== verification/En75_Manager.thy ===== *)
theory En75_Manager
  imports En75_Remap Bmt_Disk
begin

text \<open>
  The operations the EcoNet manager gives the front end: remapping a user block changes the place of
  that block only, and the manager keeps the front end's contract, with a place of its own for
  every block.
\<close>

section \<open>Remapping a user block\<close>

definition may_remap :: "('d, 'z) en75_scheme \<Rightarrow> nat \<Rightarrow> bool" where
  "may_remap s b \<longleftrightarrow> in_remap_range s b = Some True \<and> b < reserve_begin s"

lemma in_remap_range_ok: "en_ok s \<Longrightarrow> runs (in_remap_range s b) (\<lambda>_. True)"
  by (auto simp: in_remap_range_def en_ok_def split: option.splits)

text \<open>The block of the user area the code works on; a failed lookup is cut to 16 bits.\<close>

lemma user_block_word:
  assumes "en_sound s"
  shows "u16 (get_mapping_block_bbt s (int b)) =
    (if b < length (user_blocks s) then user_blocks s ! b else 65514)"
proof -
  have "reserve_begin s < 65536" using assms by (simp add: en_sound_def en_ok_def)
  then have "b < length (user_blocks s) \<Longrightarrow> user_blocks s ! b < 65536"
    using user_blocks_below [of b s] by simp
  then show ?thesis
    using assms mapping_bbt_eq [of s b] by (simp add: en_sound_def u16_def)
qed

text \<open>
  Whether a remapping has to succeed: remapping is allowed for the block, which is on the device, there
  is room in the BMT and a block in the reserve area, and the driver's writes succeed.
\<close>

definition writes_ok :: "'d kernel \<Rightarrow> bool" where
  "writes_ok E \<longleftrightarrow> (\<forall>d a dat offs oob. wr_ret (fst (k_write E d a dat offs oob)) = 0)"

definition must_remap :: "'d kernel \<Rightarrow> ('d, 'z) en75_scheme \<Rightarrow> nat \<Rightarrow> bool" where
  "must_remap E s b \<longleftrightarrow> writes_ok E \<and> may_remap s b \<and> b < length (user_blocks s)
     \<and> mt_size (en_bmt s) \<noteq> 0xff \<and> (\<exists>n. available_info s n)"

lemma w_write_ok:
  "writes_ok E \<Longrightarrow> block_index_is_sane s bi u \<Longrightarrow> fst (w_write E s bi u buf oob) = 0"
  by (simp add: w_write_def writes_ok_def numeral_3_eq_3 case_prod_beta Let_def)

lemma w_remap_block_ret:
  assumes "w_remap_block E s block maybe copy_len = Some (ret, t)" "writes_ok E" "en_ok s"
    "block < reserve_begin s" "mt_size (en_bmt s) \<noteq> 0xff" "available_info s n"
  shows "ret = 0"
proof -
  obtain r where r: "find_available_block s False = Some r" "case r of
     Inl e \<Rightarrow> e = - ENOSPC \<and> (\<forall>b \<in> set (rblocks s). bi_status b \<noteq> BS_AVAILABLE)
   | Inr i \<Rightarrow> i < length (rblocks s) \<and> bi_status (rblocks s ! i) = BS_AVAILABLE"
    using find_available_ok [OF assms(3), of False] by (auto simp: runs_def)
  then obtain i where i: "r = Inr i" "i < length (rblocks s)" "bi_status (rblocks s ! i) = BS_AVAILABLE"
    using assms(6) by (cases r) (auto simp: available_info_def)
  have "fst (w_make_mapping E s (rblocks s ! i) block) = 0"
    using assms(4) i(3) w_write_ok [OF assms(2) reserve_block_sane [OF assms(3) i(2)]]
    by (simp add: w_make_mapping_def)
  then obtain u where u: "w_make_mapping E s (rblocks s ! i) block = (0, u)"
    by (cases "w_make_mapping E s (rblocks s ! i) block") simp
  show ?thesis
    using assms(1) unfolding w_remap_block_def if_not_P [OF assms(5)] r(1) i(1) bind.bind_lunit sum.case
      aget_def if_P [OF i(2)] u
    by (auto simp: Let_def case_prod_beta bind_eq_Some_conv)
qed

text \<open>
  The outcome of \<open>pub_remap_block\<close>: the context is sound, and the mapping is what it was or has one
  new entry, for the user block's own block of the user area; the latter when it has to succeed.
\<close>

definition newly_mapped :: "('d, 'z) en75_scheme \<Rightarrow> nat \<Rightarrow> ('d, 'z) en75_scheme \<Rightarrow> bool" where
  "newly_mapped s b t \<longleftrightarrow> (\<exists>n. available_info s n \<and> bmt_map t = (bmt_map s)(user_blocks s ! b \<mapsto> n))"

definition pub_remapped :: "'d kernel \<Rightarrow> ('d, 'z) en75_scheme \<Rightarrow> nat \<Rightarrow> bool \<times> ('d, 'z) en75_scheme \<Rightarrow> bool" where
  "pub_remapped E s b x \<longleftrightarrow> (case x of (r, t) \<Rightarrow> en_sound t \<and> en_frame s t
     \<and> (bmt_map t = bmt_map s
        \<or> r \<and> may_remap s b \<and> b < length (user_blocks s) \<and> newly_mapped s b t)
     \<and> (must_remap E s b \<longrightarrow> r \<and> newly_mapped s b t))"

lemma en_frame_refl [simp]: "en_frame s s"
  by (simp add: en_frame_def)

lemma pub_remap_block_spec:
  assumes "en_sound s" "mapped_idx = u16 (get_mapping_block s (int b))" "b < 65536"
  shows "runs (pub_remap_block E s b mapped_idx copy_len) (pub_remapped E s b)"
proof -
  have ok: "en_ok s" using assms(1) by (simp add: en_sound_def)
  obtain r where r: "in_remap_range s b = Some r" using in_remap_range_ok [OF ok, of b] by (auto simp: runs_def)
  let ?blk = "u16 (get_mapping_block_bbt s (int b))"
  show ?thesis
  proof (cases "r \<and> b < reserve_begin s")
    case False
    then have "\<not> must_remap E s b" using r by (auto simp: must_remap_def may_remap_def)
    then show ?thesis using r False assms(1) by (auto simp: pub_remap_block_def pub_remapped_def Let_def)
  next
    case True
    then have may: "may_remap s b" using r by (simp add: may_remap_def)
    have remap: "runs (do { (ret, s) \<leftarrow> w_remap_block E s ?blk maybe copy_len;
        (_, s) \<leftarrow> w_sync_tables E s; Some (ret \<noteq> - ENOSPC, s) }) (pub_remapped E s b)"
      if m: "\<And>j. maybe = Some j \<Longrightarrow> j < length (rblocks s) \<and> bmt_map s ?blk = Some (bi_index (rblocks s ! j))"
      for maybe
    proof (rule runs_bind_pairI)
      show "runs (w_remap_block E s ?blk maybe copy_len)
          (\<lambda>(ret, t). en_remapped s ?blk (ret, t) \<and> (must_remap E s b \<longrightarrow> ret = 0))"
        using w_remap_block_spec [OF assms(1) m, where E = E and copy_len = copy_len]
          w_remap_block_ret [of E s ?blk maybe copy_len]
          ok user_block_word [OF assms(1), of b] user_blocks_below [of b s]
        unfolding runs_def must_remap_def by fastforce
      fix ret t assume ret: "en_remapped s ?blk (ret, t) \<and> (must_remap E s b \<longrightarrow> ret = 0)"
      then have t: "en_remapped s ?blk (ret, t)" by simp
      then have st: "en_sound t" "en_ok t" "en_frame s t" by (auto simp: en_remapped_def en_sound_def)
      show "runs (do { (_, s) \<leftarrow> w_sync_tables E t; Some (ret \<noteq> - ENOSPC, s) }) (pub_remapped E s b)"
      proof (rule runs_bind_pairI [OF w_sync_tables_ok [OF st(2)]])
        fix q v assume "same_map t v \<and> (q = 0 \<longrightarrow> bmt_dirty v = 0)"
        then have v: "en_sound v" "bmt_map v = bmt_map t" "en_frame s v"
          using same_map_sound [OF _ st(1)] same_map_frame en_frame_trans [OF st(3)] by blast+
        have "?blk < reserve_begin s \<Longrightarrow> b < length (user_blocks s) \<and> ?blk = user_blocks s ! b"
          using ok user_block_word [OF assms(1), of b] by (auto simp: en_ok_def split: if_splits)
        then show "runs (Some (ret \<noteq> - ENOSPC, v)) (pub_remapped E s b)"
          using t ret v may by (auto simp: en_remapped_def pub_remapped_def newly_mapped_def split: if_splits)
      qed
    qed
    show ?thesis
    proof (cases "mapped_idx = ?blk")
      case eq: True
      then show ?thesis using r True remap [of None] by (simp add: pub_remap_block_def Let_def)
    next
      case ne: False
      then have bl: "b < length (user_blocks s)" "?blk = user_blocks s ! b"
        using user_block_word [OF assms(1), of b] assms(2) en_mapping_eq [OF assms(1), of b]
        by (auto simp: u16_def split: if_splits)
      have u: "user_blocks s ! b < 65536" using user_blocks_below [OF bl(1)] ok by (simp add: en_ok_def)
      obtain t where t: "bmt_map s ?blk = Some t"
        using ne bl assms(2) en_mapping_eq [OF assms(1), of b] u by (auto simp: u16_def split: option.splits)
      have "t < 65536" using bmt_map_sound(3) [OF assms(1) t] ok by (simp add: en_ok_def)
      then have mt: "mapped_idx = t" using bl t assms(2) en_mapping_eq [OF assms(1), of b] by (simp add: u16_def)
      have "mapped_info s mapped_idx" using bmt_map_sound(4) [OF assms(1) t] mt by simp
      then obtain j' where "j' < length (rblocks s)" "bi_index (rblocks s ! j') = mapped_idx"
        by (auto simp: mapped_info_nth)
      then obtain j where j: "rblock_index (rblocks s) [0..<length (rblocks s)] mapped_idx = Some (Some j)"
        "j < length (rblocks s)" "bi_index (rblocks s ! j) = mapped_idx"
        using rblock_index_ok [of "[0..<length (rblocks s)]" "rblocks s" mapped_idx]
        by (fastforce simp: runs_def split: option.splits)
      show ?thesis
        using r True ne j t mt remap [of "Some j"]
        by (simp add: pub_remap_block_def Let_def en_ok_count [OF ok])
    qed
  qed
qed

lemma pub_unmap_block_spec:
  assumes "en_sound s"
  shows "runs (pub_unmap_block E s b) (\<lambda>t. en_sound t \<and> en_frame s t
    \<and> (bmt_map t = bmt_map s
       \<or> b < length (user_blocks s) \<and> bmt_map t = (bmt_map s)(user_blocks s ! b := None)))"
proof (cases "get_mapping_block_bbt s (int b) < 0 \<or> b \<ge> reserve_begin s")
  case True
  then show ?thesis using assms by (auto simp: pub_unmap_block_def Let_def)
next
  case False
  then have b: "b < length (user_blocks s)" "nat (get_mapping_block_bbt s (int b)) = user_blocks s ! b"
    using mapping_bbt_eq [of s b] assms by (auto simp: en_sound_def split: if_splits)
  have "runs (do { (_, s) \<leftarrow> w_unmap_block E s (user_blocks s ! b) UE_REQUIRE_ERASE;
      (_, s) \<leftarrow> w_sync_tables E s; Some s }) (\<lambda>t. en_sound t \<and> en_frame s t
    \<and> (bmt_map t = bmt_map s \<or> b < length (user_blocks s) \<and> bmt_map t = (bmt_map s)(user_blocks s ! b := None)))"
  proof (rule runs_bindI [OF w_unmap_block_spec [OF assms]], clarify)
    fix ret t assume t: "en_unmapped s (user_blocks s ! b) (ret, t)"
    then have st: "en_sound t" "en_ok t" "en_frame s t" by (auto simp: en_unmapped_def en_sound_def)
    show "runs (do { (_, s) \<leftarrow> w_sync_tables E t; Some s }) (\<lambda>t. en_sound t \<and> en_frame s t
      \<and> (bmt_map t = bmt_map s \<or> b < length (user_blocks s) \<and> bmt_map t = (bmt_map s)(user_blocks s ! b := None)))"
    proof (rule runs_bind_pairI [OF w_sync_tables_ok [OF st(2)]])
      fix q v assume "same_map t v \<and> (q = 0 \<longrightarrow> bmt_dirty v = 0)"
      then have "en_sound v" "bmt_map v = bmt_map t" "en_frame s v"
        using same_map_sound [OF _ st(1)] same_map_frame en_frame_trans [OF st(3)] by blast+
      then show "runs (Some v) (\<lambda>t. en_sound t \<and> en_frame s t
        \<and> (bmt_map t = bmt_map s \<or> b < length (user_blocks s) \<and> bmt_map t = (bmt_map s)(user_blocks s ! b := None)))"
        using t b(1) by (simp add: en_unmapped_def)
    qed
  qed
  then show ?thesis using False b(2) by (simp add: pub_unmap_block_def Let_def)
qed

section \<open>The contract\<close>

lemma en_sound_dev: "en_sound s \<Longrightarrow> en_sound (s\<lparr>dev := d\<rparr>)"
  by (rule same_map_sound(1) [OF io_only_context(9)]) auto

lemma get_mapping_dev: "get_mapping_block (s\<lparr>dev := d\<rparr>) = get_mapping_block s"
  by (simp add: get_mapping_block_def get_mapping_block_bbt_def Let_def fun_eq_iff)

interpretation en75: placement "en75_bmt_ops E" en_sound "\<lambda>s. min (total_blks s) 65536"
proof (unfold_locales, goal_cases)
  case (1 s d)
  then show ?case by (rule en_sound_dev)
next
  case (2 d s i)
  then show ?case by (simp add: en75_bmt_ops_def pub_get_mapping_block_def get_mapping_dev)
next
  case (3 s b)
  then have "reserve_begin s < 65536" by (simp add: en_sound_def en_ok_def)
  then show ?case by (simp add: en75_bmt_ops_def pub_get_mapping_block_def get_mapping_bound)
next
  case (4 s b p len)
  then have "runs (pub_remap_block E s b (u16 p) len) (pub_remapped E s b)"
    by (intro pub_remap_block_spec) (simp_all add: en75_bmt_ops_def pub_get_mapping_block_def)
  then show ?case
    by (auto simp: en75_bmt_ops_def keeps_def pub_remapped_def en_frame_def elim!: runs_mono)
next
  case (7 s b c p)
  then show ?case
    by (intro get_mapping_inj [of s b c]) (simp_all add: en75_bmt_ops_def pub_get_mapping_block_def)
qed (auto simp: same_shape_def)

text \<open>The blocks of the device that are on the chip are on the disk.\<close>

lemma en75_placed:
  assumes "en_sound s" "b < length (user_blocks s)"
  shows "placed_block (en75_bmt_ops E) s b"
  using assms by (simp add: placed_block_def en75_bmt_ops_def pub_get_mapping_block_def en_mapping_eq split: option.split)

lemma length_user_blocks: "length (user_blocks s) \<le> reserve_begin s"
  using length_filter_le [of "\<lambda>b. b \<notin> set (fbs s)" "[0..<reserve_begin s]"] by (simp add: user_blocks_def)

lemma en75_on_disk:
  assumes "en_sound s" "a + len \<le> length (user_blocks s) * 2 ^ blk_shift s"
  shows "on_disk (en75_bmt_ops E) s a len" "a + len \<le> min (total_blks s) 65536 * 2 ^ blk_shift s"
proof -
  show "on_disk (en75_bmt_ops E) s a len"
    unfolding on_disk_def
  proof clarify
    fix x assume "x < a + len"
    then have "x < length (user_blocks s) * 2 ^ blk_shift s" using assms(2) by simp
    then show "placed_block (en75_bmt_ops E) s (x div 2 ^ blk_shift s)"
      by (intro en75_placed [OF assms(1)]) (rule less_mult_imp_div_less)
  qed
  have "length (user_blocks s) \<le> min (total_blks s) 65536"
    using length_user_blocks [of s] assms(1) by (simp add: en_sound_def en_ok_def)
  then have "length (user_blocks s) * 2 ^ blk_shift s \<le> min (total_blks s) 65536 * 2 ^ blk_shift s"
    by (rule mult_le_mono1)
  then show "a + len \<le> min (total_blks s) 65536 * 2 ^ blk_shift s" using assms(2) by (rule order_trans [rotated])
qed

lemma en75_covers:
  assumes "x < length (user_blocks s) * 2 ^ blk_shift s" "en_sound s"
  shows "covers (min (total_blks s) 65536) (en75_bmt_ops E) s x"
proof -
  have "x div 2 ^ blk_shift s < length (user_blocks s)" using assms(1) by (rule less_mult_imp_div_less)
  then show ?thesis
    using en75_placed [OF assms(2), of "x div 2 ^ blk_shift s" E] length_user_blocks [of s] assms(2)
    by (simp add: covers_def en_sound_def en_ok_def)
qed

end
