(* ===== verification/En75_Tables.thy ===== *)
theory En75_Tables
  imports En75_Ops Bmt_Disk
begin

text \<open>
  The tables of the EcoNet manager on flash: a table that was stored is read back as it was, in
  either byte order; the checksum of the BMT does not depend on the byte order nor on how many
  cleared entries it is taken over.
\<close>

section \<open>Layout\<close>

lemma le_bytes_two: "le_bytes 2 x = [word_of_nat x, word_of_nat (x div 256)]"
  by (simp add: numeral_2_eq_2)

lemma half_bytes_two: obtains a b where "half_bytes be w = [a, b]"
  by (simp add: half_bytes_def le_bytes_two Let_def) (cases be; simp)

lemma length_half_bytes [simp]: "length (half_bytes be w) = 2"
  by (simp add: half_bytes_def Let_def)

lemma half_nat: "word_of_nat (unat (w :: 16 word) mod 65536) = w"
proof -
  have "unat w < 65536" using unsigned_less [of w] by simp
  then show ?thesis by simp
qed

lemma of_half_bytes: "of_half be (half_bytes be w) = w"
  using le_nat_le_bytes [of 2 "unat w"] half_nat [of w]
  by (simp add: of_half_def half_bytes_def Let_def del: le_bytes.simps)

lemma length_halves_bytes [simp]: "length (halves_bytes be ws) = 2 * length ws"
  by (induction ws) (simp_all add: halves_bytes_def)

lemma bytes_halves_bytes [simp]: "bytes_halves be (halves_bytes be ws) = ws"
proof (induction ws)
  case (Cons w ws)
  obtain a b where ab: "half_bytes be w = [a, b]" by (rule half_bytes_two)
  then have "of_half be [a, b] = w" using of_half_bytes [of be w] by simp
  then show ?case using Cons ab by (simp add: halves_bytes_def)
qed (simp add: halves_bytes_def)

lemma halves_entries_halves [simp]: "halves_entries (entry_halves es) = es"
  by (induction es) simp_all

lemma length_entry_halves [simp]: "length (entry_halves es) = 2 * length es"
  by (induction es) simp_all

lemma length_entries_bytes [simp]: "length (entries_bytes be es) = 4 * length es"
  by (simp add: entries_bytes_def)

lemma entry_halves_append: "entry_halves (xs @ ys) = entry_halves xs @ entry_halves ys"
  by (induction xs) simp_all

lemma halves_bytes_append: "halves_bytes be (xs @ ys) = halves_bytes be xs @ halves_bytes be ys"
  by (simp add: halves_bytes_def)

lemma entries_bytes_append: "entries_bytes be (xs @ ys) = entries_bytes be xs @ entries_bytes be ys"
  by (simp add: entries_bytes_def entry_halves_append halves_bytes_append)

lemma take_entries_bytes: "take (4 * n) (entries_bytes be es) = entries_bytes be (take n es)"
proof (cases "n \<le> length es")
  case True
  then have "entries_bytes be es = entries_bytes be (take n es) @ entries_bytes be (drop n es)"
    by (metis append_take_drop_id entries_bytes_append)
  then show ?thesis using True by simp
qed simp

text \<open>Tables with the sizes their types have in C.\<close>

definition bmt_sized :: "bmt_table \<Rightarrow> bool" where
  "bmt_sized t \<longleftrightarrow> length (mt_sig t) = 3 \<and> length (mt_reserved t) = 13 \<and> length (mt_table t) = MAX_BMT_SIZE"

definition bbt_sized :: "bbt_table \<Rightarrow> bool" where
  "bbt_sized t \<longleftrightarrow> length (ft_sig t) = 4 \<and> length (ft_reserved t) = 2 \<and> length (ft_table t) = MAX_BBT_SIZE"

lemma length_bmt_bytes: "bmt_sized t \<Longrightarrow> length (bmt_bytes be t) = 1044"
  by (simp add: bmt_sized_def bmt_bytes_def en75_sizes)

lemma length_word_bytes [simp]: "length (word_bytes be w) = 4"
  by (simp add: word_bytes_def)

lemma length_bbt_bytes: "bbt_sized t \<Longrightarrow> length (bbt_bytes be t) = 2012"
  by (simp add: bbt_sized_def bbt_bytes_def en75_sizes)

lemma list_of_length:
  "length xs = 3 \<Longrightarrow> \<exists>a b c. xs = [a, b, c]" "length xs = 2 \<Longrightarrow> \<exists>a b. xs = [a, b]"
  "length xs = 4 \<Longrightarrow> \<exists>a b c d. xs = [a, b, c, d]"
  by (auto simp: eval_nat_numeral length_Suc_conv)

lemma bytes_bmt_bytes:
  assumes "bmt_sized t"
  shows "bytes_bmt be (bmt_bytes be t) = t"
proof -
  obtain a b c where s: "mt_sig t = [a, b, c]" using assms list_of_length(1) by (metis bmt_sized_def)
  have r: "length (mt_reserved t) = 13" and l: "length (mt_table t) = 256"
    using assms by (simp_all add: bmt_sized_def en75_sizes)
  have "drop 20 (bmt_bytes be t) = entries_bytes be (mt_table t)"
    using r by (simp add: bmt_bytes_def s)
  then have "take 1024 (drop 20 (bmt_bytes be t)) = entries_bytes be (mt_table t)" using l by simp
  moreover have "take 3 (bmt_bytes be t) = mt_sig t" "bmt_bytes be t ! 3 = mt_version t"
    "bmt_bytes be t ! 4 = mt_bad_count t" "bmt_bytes be t ! 5 = mt_size t" "bmt_bytes be t ! 6 = mt_cksum t"
    "take 13 (drop 7 (bmt_bytes be t)) = mt_reserved t"
    using r by (simp_all add: bmt_bytes_def s eval_nat_numeral)
  ultimately show ?thesis by (simp add: bytes_bmt_def entries_bytes_def)
qed

lemma of_word_bytes: "of_word be (word_bytes be w) = w"
  using of_le32_le32 [of w "[]"] by (simp add: of_word_def word_bytes_def)

lemma bytes_bbt_bytes:
  assumes "bbt_sized t"
  shows "bytes_bbt be (bbt_bytes be t) = t"
proof -
  obtain a b c d where s: "ft_sig t = [a, b, c, d]" using assms list_of_length(3) by (metis bbt_sized_def)
  obtain e f where r: "ft_reserved t = [e, f]" using assms list_of_length(2) by (metis bbt_sized_def)
  obtain p q u v where w: "word_bytes be (ft_cksum t) = [p, q, u, v]"
    using list_of_length(3) [OF length_word_bytes] by metis
  have l: "length (ft_table t) = 1000" using assms by (simp add: bbt_sized_def en75_sizes)
  have "drop 12 (bbt_bytes be t) = halves_bytes be (ft_table t)" by (simp add: bbt_bytes_def s r w)
  then have "take 2000 (drop 12 (bbt_bytes be t)) = halves_bytes be (ft_table t)" using l by simp
  moreover have "take 4 (bbt_bytes be t) = ft_sig t" "bbt_bytes be t ! 8 = ft_version t"
    "bbt_bytes be t ! 9 = ft_size t" "take 2 (drop 10 (bbt_bytes be t)) = ft_reserved t"
    "take 4 (drop 4 (bbt_bytes be t)) = word_bytes be (ft_cksum t)"
    by (simp_all add: bbt_bytes_def s r w eval_nat_numeral)
  ultimately show ?thesis by (simp add: bytes_bbt_def of_word_bytes)
qed

section \<open>Stored tables are read back\<close>

lemma parse_stored_bmt:
  assumes "bmt_sized t" "mt_sig t = BMT_SIG" "mt_cksum t = bmt_checksum be t (unat (mt_size t))"
    "1044 \<le> len"
  shows "try_parse_bmt be (bmt_bytes be t @ rest) len = Some (Some t)"
  using assms by (simp add: try_parse_bmt_def memget_def length_bmt_bytes bytes_bmt_bytes Let_def)

lemma sort_bbt_id: "sorted (take (unat (ft_size t)) (ft_table t)) \<Longrightarrow> sort_bbt t = t"
  by (simp add: sort_bbt_def Let_def sorted_sort_id)

lemma parse_stored_bbt:
  assumes "bbt_sized t" "ft_sig t = RAWB_SIG" "ft_cksum t = ucast (bbt_checksum be t)"
    "sorted (take (unat (ft_size t)) (ft_table t))" "2012 \<le> len"
  shows "try_parse_bbt be (bbt_bytes be t @ rest) len = Some (Some t)"
  using assms by (simp add: try_parse_bbt_def memget_def length_bbt_bytes bytes_bbt_bytes Let_def sort_bbt_id)

section \<open>The checksum of the BMT\<close>

lemma foldl_sum_list: "foldl (\<lambda>c b. c + b) a bs = a + sum_list bs" for a :: "'a :: comm_monoid_add"
  by (induction bs arbitrary: a) (simp_all add: ac_simps)

lemma sum_half_bytes: "sum_list (half_bytes be w) = sum_list (half_bytes False w)"
  by (simp add: half_bytes_def Let_def)

lemma sum_halves_bytes: "sum_list (halves_bytes be ws) = sum_list (halves_bytes False ws)"
  by (induction ws) (simp_all add: halves_bytes_def sum_half_bytes [of be])

lemma sum_zero_entries: "\<forall>e \<in> set es. e = zero_entry \<Longrightarrow> sum_list (entries_bytes be es) = 0"
proof (induction es)
  case (Cons e es)
  have "sum_list (half_bytes be 0) = 0" by (simp add: half_bytes_def le_bytes_two Let_def)
  then show ?case using Cons by (simp add: entries_bytes_def halves_bytes_def zero_entry_def)
qed (simp add: entries_bytes_def halves_bytes_def)

lemma bmt_checksum_sum:
  "bmt_checksum be t n = mt_version t + mt_size t + sum_list (entries_bytes be (take (min n MAX_BMT_SIZE) (mt_table t)))"
  unfolding bmt_checksum_def foldl_sum_list mult.commute [of _ 4] take_entries_bytes ..

text \<open>Entries that are zero do not count, so it does not matter how many of them are taken in.\<close>

lemma bmt_checksum_zeros:
  assumes "length (mt_table t) = MAX_BMT_SIZE" "k \<le> n"
    "\<forall>i. k \<le> i \<longrightarrow> i < n \<longrightarrow> i < MAX_BMT_SIZE \<longrightarrow> mt_table t ! i = zero_entry"
  shows "bmt_checksum be t n = bmt_checksum be' t k"
proof -
  let ?m = "min n MAX_BMT_SIZE" and ?l = "min k MAX_BMT_SIZE"
  have le: "?l \<le> ?m" using assms(2) by simp
  then have "take ?m (mt_table t) = take ?l (mt_table t) @ take (?m - ?l) (drop ?l (mt_table t))"
    by (metis le_add_diff_inverse take_add)
  moreover have "\<forall>e \<in> set (take (?m - ?l) (drop ?l (mt_table t))). e = zero_entry"
    using assms(1,3) by (auto simp: in_set_conv_nth)
  ultimately have "sum_list (entries_bytes be (take ?m (mt_table t))) =
      sum_list (entries_bytes be (take ?l (mt_table t)))"
    by (simp add: entries_bytes_append sum_zero_entries)
  also have "\<dots> = sum_list (entries_bytes be' (take ?l (mt_table t)))"
    unfolding entries_bytes_def by (subst (1 2) sum_halves_bytes) simp
  finally show ?thesis by (simp add: bmt_checksum_sum)
qed

section \<open>The BMT on flash\<close>

lemma w_write_stores:
  assumes "stores E mem" "block_index_is_sane s bi u"
  obtains d where "w_write E s bi u buf False = (0, s\<lparr>dev := d\<rparr>)"
    "mem d = patch (bi * 2 ^ blk_shift s) buf (mem (dev s))"
proof -
  obtain w d where k: "k_write E (dev s) (bi * 2 ^ blk_shift s) buf 0 [] = (w, d)" by fastforce
  have "wr_ret w = 0 \<and> mem d = patch (bi * 2 ^ blk_shift s) buf (mem (dev s))"
    using assms(1) k unfolding stores_def by (metis (mono_tags, lifting) case_prod_conv)
  then show ?thesis using assms(2) k by (intro that [of d]) (simp_all add: w_write_def numeral_3_eq_3)
qed

lemma w_update_stores:
  assumes "stores E mem" "en_ok s"
  shows "runs (w_update_table E s e buf) (\<lambda>(r, t). case r of
     Inl err \<Rightarrow> \<forall>b \<in> set (rblocks s). bi_status b \<noteq> BS_AVAILABLE
   | Inr i \<Rightarrow> i < length (rblocks s) \<and> bi_status (rblocks s ! i) = BS_AVAILABLE \<and> (\<exists>d. t = s\<lparr>dev := d\<rparr>
       \<and> mem d = patch (bi_index (rblocks s ! i) * 2 ^ blk_shift s) buf (mem (dev s))))"
proof -
  obtain r where r: "find_available_block s e = Some r" "case r of
     Inl e \<Rightarrow> e = - ENOSPC \<and> (\<forall>b \<in> set (rblocks s). bi_status b \<noteq> BS_AVAILABLE)
   | Inr i \<Rightarrow> i < length (rblocks s) \<and> bi_status (rblocks s ! i) = BS_AVAILABLE"
    using find_available_ok [OF assms(2), of e] by (auto simp: runs_def)
  show ?thesis
  proof (cases r)
    case (Inl a)
    then show ?thesis using r by (simp add: w_update_table_def numeral_3_eq_3)
  next
    case (Inr i)
    then have i: "i < length (rblocks s)" "bi_status (rblocks s ! i) = BS_AVAILABLE" using r(2) by simp_all
    obtain d where "w_write E s (bi_index (rblocks s ! i)) False buf False = (0, s\<lparr>dev := d\<rparr>)"
      "mem d = patch (bi_index (rblocks s ! i) * 2 ^ blk_shift s) buf (mem (dev s))"
      by (rule w_write_stores [OF assms(1) reserve_block_sane [OF assms(2) i(1)]])
    then show ?thesis using r(1) Inr i by (auto simp: w_update_table_def numeral_3_eq_3 aget_def)
  qed
qed

text \<open>The block of the reserve area marked as the one that holds the BMT does hold it.\<close>

definition bmt_on_flash :: "bool \<Rightarrow> ('d \<Rightarrow> nat \<Rightarrow> byte) \<Rightarrow> ('d, 'z) en75_scheme \<Rightarrow> bool" where
  "bmt_on_flash be mem t \<longleftrightarrow> (\<exists>i < length (rblocks t). bi_status (rblocks t ! i) = BS_BMT
     \<and> try_parse_bmt be (slice (mem (dev t)) (bi_index (rblocks t ! i) * 2 ^ blk_shift t) 1044) 1044
       = Some (Some (en_bmt t)))"

lemma sync_bmt_on_flash:
  assumes "stores E mem" "en_ok s" "bmt_sized (en_bmt s)" "mt_sig (en_bmt s) = BMT_SIG" "bmt_dirty s \<noteq> 0"
    "\<exists>b \<in> set (rblocks s). bi_status b = BS_AVAILABLE"
  shows "runs (w_sync_bmt E s) (\<lambda>(ret, t). ret = 0 \<and>
    bmt_on_flash (k_big_endian E) mem t \<and> bmt_used t = bmt_used s)"
proof -
  let ?be = "k_big_endian E"
  obtain u tb where u: "clear_bmt_tail s = Some u" "u = s\<lparr>en_bmt := (en_bmt s)\<lparr>mt_table := tb\<rparr>\<rparr>"
    "length tb = MAX_BMT_SIZE"
    "take (unat (mt_size (en_bmt s))) tb = take (unat (mt_size (en_bmt s))) (mt_table (en_bmt s))"
    using clear_bmt_tail_ok [OF assms(2)] by (auto simp: runs_def)
  define v where "v = u\<lparr>en_bmt := (en_bmt u)\<lparr>mt_cksum := bmt_checksum ?be (en_bmt u) (unat (mt_size (en_bmt u)))\<rparr>\<rparr>"
  have v: "bmt_sized (en_bmt v)" "mt_sig (en_bmt v) = BMT_SIG" "bmt_used v = bmt_used s"
    "mt_cksum (en_bmt v) = bmt_checksum ?be (en_bmt v) (unat (mt_size (en_bmt v)))"
    "rblocks v = rblocks s" "dev v = dev s" "blk_shift v = blk_shift s"
    using assms(3,4) u(3,4) by (simp_all add: v_def u(2) bmt_sized_def bmt_used_def bmt_checksum_def)
  have sv: "same_map s v"
  proof -
    have "same_map s (s\<lparr>en_bmt := en_bmt v\<rparr>)"
      using v(1,3) assms(3) by (intro en_bmt_same_map) (simp_all add: bmt_sized_def bmt_used_def v_def u(2))
    moreover have "s\<lparr>en_bmt := en_bmt v\<rparr> = v" by (simp add: v_def u(2))
    ultimately show ?thesis by simp
  qed
  have vok: "en_ok v" by (rule same_map_ok [OF sv assms(2)])
  have buf: "length (bmt_bytes ?be (en_bmt v)) = 1044" by (rule length_bmt_bytes [OF v(1)])
  have parse: "try_parse_bmt ?be (bmt_bytes ?be (en_bmt v)) 1044 = Some (Some (en_bmt v))"
    using parse_stored_bmt [OF v(1,2,4), of 1044 "[]"] by simp
  obtain r w where w: "w_update_table E v True (bmt_bytes ?be (en_bmt v)) = Some (r, w)" "case r of
     Inl err \<Rightarrow> \<forall>b \<in> set (rblocks v). bi_status b \<noteq> BS_AVAILABLE
   | Inr i \<Rightarrow> i < length (rblocks v) \<and> bi_status (rblocks v ! i) = BS_AVAILABLE \<and> (\<exists>d. w = v\<lparr>dev := d\<rparr>
       \<and> mem d = patch (bi_index (rblocks v ! i) * 2 ^ blk_shift v) (bmt_bytes ?be (en_bmt v)) (mem (dev v)))"
    using w_update_stores [OF assms(1) vok, of True "bmt_bytes ?be (en_bmt v)"] unfolding runs_def by auto
  have eq: "w_sync_bmt E s = (case r of Inl e \<Rightarrow> Some (e, w)
      | Inr i \<Rightarrow> do { s' \<leftarrow> mark_for_erasure w BS_BMT; s' \<leftarrow> set_status i BS_BMT s';
          Some (0, s'\<lparr>bmt_dirty := bmt_dirty s' - bmt_dirty s\<rparr>) })"
    using assms(5) w(1) unfolding w_sync_bmt_def Let_def u(1) by (simp add: v_def u(2))
  show ?thesis
  proof (cases r)
    case (Inl e)
    then have "\<forall>b \<in> set (rblocks s). bi_status b \<noteq> BS_AVAILABLE" using w(2) v(5) by simp
    then show ?thesis using assms(6) by blast
  next
    case (Inr i)
    then obtain d where d: "i < length (rblocks v)" "bi_status (rblocks v ! i) = BS_AVAILABLE" "w = v\<lparr>dev := d\<rparr>"
      "mem d = patch (bi_index (rblocks v ! i) * 2 ^ blk_shift v) (bmt_bytes ?be (en_bmt v)) (mem (dev v))"
      using w(2) by auto
    have wok: "en_ok w" using vok by (simp add: d(3) en_ok_def)
    have sl: "slice (mem d) (bi_index (rblocks v ! i) * 2 ^ blk_shift v) 1044 = bmt_bytes ?be (en_bmt v)"
      using slice_patch [of _ "bmt_bytes ?be (en_bmt v)"] by (simp only: d(4) buf)
    have "bi_index (erase_status BS_BMT b) = bi_index b" for b by (simp add: erase_status_def)
    then have "runs (do { s' \<leftarrow> mark_for_erasure w BS_BMT; s' \<leftarrow> set_status i BS_BMT s';
        Some (0, s'\<lparr>bmt_dirty := bmt_dirty s' - bmt_dirty s\<rparr>) })
      (\<lambda>(ret, t). ret = 0 \<and> bmt_on_flash ?be mem t \<and> bmt_used t = bmt_used s)"
      using d(1) sl parse v(3)
      by (auto simp: mark_for_erasure_eq [OF wok [unfolded d(3)]] set_status_eq d(3) bmt_on_flash_def bmt_used_def
          intro!: exI [of _ i])
    then show ?thesis by (simp add: eq Inr)
  qed
qed

end
