(* ===== verification/En75_Scan.thy ===== *)
theory En75_Scan
  imports En75_Tables En75_Remap
begin

text \<open>
  Starting the EcoNet manager: where the scan puts the bottom of the reserve area, what is rebuilt when a
  table is missing, and how the factory bad blocks are set.
\<close>

section \<open>Scanning\<close>

definition usable :: "block_info list \<Rightarrow> nat" where
  "usable bs = length (filter (\<lambda>b. bi_status b \<noteq> BS_BAD) bs)"

lemma usable_simps [simp]: "usable [] = 0"
  "usable (b # bs) = (if bi_status b \<noteq> BS_BAD then 1 else 0) + usable bs"
  by (simp_all add: usable_def)

text \<open>A state in which only the device, the buffer and the two tables differ.\<close>

definition tables_only :: "('d, 'z) en75_scheme \<Rightarrow> ('d, 'z) en75_scheme \<Rightarrow> bool" where
  "tables_only s t \<longleftrightarrow> (\<exists>d b f m. t = s\<lparr>dev := d, data_buf := b, en_bbt := f, en_bmt := m\<rparr>
     \<and> length b = length (data_buf s)
     \<and> (bbt_sized (en_bbt s) \<longrightarrow> bbt_sized f) \<and> (bmt_sized (en_bmt s) \<longrightarrow> bmt_sized m))"

lemma tables_only_refl [simp]: "tables_only s s"
  unfolding tables_only_def by (intro exI [of _ "dev s"] exI [of _ "data_buf s"] exI [of _ "en_bbt s"] exI [of _ "en_bmt s"]) simp

lemma tables_only_trans: "tables_only s t \<Longrightarrow> tables_only t u \<Longrightarrow> tables_only s u"
  unfolding tables_only_def by (cases s; cases t; cases u) auto

lemma io_tables_only: "io_only s (t :: ('d, 'z) en75_scheme) \<Longrightarrow> tables_only s t"
  unfolding io_only_def tables_only_def by (cases s; cases t) auto

lemma tables_only_context:
  assumes "tables_only s t"
  shows "rblocks t = rblocks s" "reserve_begin t = reserve_begin s" "total_blks t = total_blks s"
    "pg_size t = pg_size s" "length (data_buf t) = length (data_buf s)" "same_shape s t"
    "bmt_dirty t = bmt_dirty s" "bbt_dirty t = bbt_dirty s"
    "can_remap_count t = can_remap_count s" "can_remap_ranges t = can_remap_ranges s"
    "can_write_factory_bbt t = can_write_factory_bbt s"
    "bbt_sized (en_bbt s) \<Longrightarrow> bbt_sized (en_bbt t)" "bmt_sized (en_bmt s) \<Longrightarrow> bmt_sized (en_bmt t)"
  using assms by (auto simp: tables_only_def same_shape_def)

lemma read_fdm_tries_io: "io_only s (snd (snd (read_fdm_tries n E s i fdm ret)))"
proof (induction n arbitrary: s fdm ret)
  case (Suc n)
  obtain r f t where r: "read_fdm E s i fdm = (r, f, t)" by (cases "read_fdm E s i fdm")
  then have "io_only s t" using read_fdm_io [of s E i fdm] by simp
  then show ?case using Suc [of t f r] r by (auto intro: io_only_trans)
qed simp

lemma length_bytes_halves [simp]: "length (bytes_halves be bs) = length bs div 2"
  by (induction be bs rule: bytes_halves.induct) auto

lemma length_halves_entries [simp]: "length (halves_entries ws) = length ws div 2"
  by (induction ws rule: halves_entries.induct) auto

lemma bytes_sized:
  "length bs = 1044 \<Longrightarrow> bmt_sized (bytes_bmt be bs)" "length cs = 2012 \<Longrightarrow> bbt_sized (bytes_bbt be cs)"
  by (simp_all add: bytes_bmt_def bmt_sized_def bytes_bbt_def bbt_sized_def en75_sizes)

lemma sort_sized: "bbt_sized t \<Longrightarrow> bbt_sized (sort_bbt t)"
  using byte_bound [of "ft_size t"] by (simp add: bbt_sized_def sort_bbt_def Let_def en75_sizes)

lemma try_parse_ok:
  assumes "len \<le> length buf"
  shows "runs (try_parse_bbt be buf len) (\<lambda>r. \<forall>t. r = Some t \<longrightarrow> bbt_sized t \<and> sorted (take (unat (ft_size t)) (ft_table t)))"
    "runs (try_parse_bmt be buf len) (\<lambda>r. \<forall>t. r = Some t \<longrightarrow> bmt_sized t)"
proof -
  have "sorted (take (unat (ft_size t)) (ft_table (sort_bbt t)))" for t
    by (cases "length (ft_table t) \<le> unat (ft_size t)") (simp_all add: sort_bbt_def Let_def min_def)
  moreover have "ft_size (sort_bbt t) = ft_size t" for t by (simp add: sort_bbt_def Let_def)
  ultimately show "runs (try_parse_bbt be buf len)
      (\<lambda>r. \<forall>t. r = Some t \<longrightarrow> bbt_sized t \<and> sorted (take (unat (ft_size t)) (ft_table t)))"
    using assms by (auto simp: try_parse_bbt_def Let_def vcg intro!: sort_sized bytes_sized)
  show "runs (try_parse_bmt be buf len) (\<lambda>r. \<forall>t. r = Some t \<longrightarrow> bmt_sized t)"
    using assms by (auto simp: try_parse_bmt_def Let_def vcg intro!: bytes_sized)
qed

lemma classify_ok:
  assumes "pg_size s \<le> length (data_buf s)"
  shows "runs (classify_block E s ret fdm) (\<lambda>(st, t). tables_only s t)"
proof -
  have one: "tables_only s (s\<lparr>en_bbt := t\<rparr>)" if "bbt_sized t" for t
    using that unfolding tables_only_def
    by (intro exI [of _ "dev s"] exI [of _ "data_buf s"] exI [of _ t] exI [of _ "en_bmt s"]) simp
  have two: "tables_only s (s\<lparr>en_bmt := t\<rparr>)" if "bmt_sized t" for t
    using that unfolding tables_only_def
    by (intro exI [of _ "dev s"] exI [of _ "data_buf s"] exI [of _ "en_bbt s"] exI [of _ t]) simp
  obtain f where f: "try_parse_bbt (k_big_endian E) (data_buf s) (pg_size s) = Some f" "\<forall>t. f = Some t \<longrightarrow> bbt_sized t"
    using try_parse_ok(1) [OF assms, where be = "k_big_endian E"] by (auto simp: runs_def)
  obtain m where m: "try_parse_bmt (k_big_endian E) (data_buf s) (pg_size s) = Some m" "\<forall>t. m = Some t \<longrightarrow> bmt_sized t"
    using try_parse_ok(2) [OF assms, where be = "k_big_endian E"] by (auto simp: runs_def)
  show ?thesis
    using one two f m by (auto simp: classify_block_def split: option.split)
qed

text \<open>
  The scan goes down from block \<open>c\<close>: it ends with the first block with which enough usable blocks have
  been seen, or with none left.
\<close>

definition scanned :: "nat \<Rightarrow> nat \<Rightarrow> nat \<Rightarrow> block_info list \<Rightarrow> nat \<Rightarrow> bool" where
  "scanned req c g bs cursor \<longleftrightarrow>
     (if cursor = 0 then map bi_index bs = rev [1..<Suc c] \<and> (bs = [] \<or> g + usable bs < req)
      else cursor \<le> c \<and> map bi_index bs = rev [cursor..<Suc c] \<and> req \<le> g + usable bs
        \<and> (length bs = 1 \<or> g + usable (butlast bs) < req))"

lemma scanned_step:
  assumes "scanned req c (g + (if bi_status b \<noteq> BS_BAD then 1 else 0)) bs cursor"
    "g + (if bi_status b \<noteq> BS_BAD then 1 else 0) < req" "bi_index b = Suc c"
  shows "scanned req (Suc c) g (b # bs) cursor"
proof (cases "cursor = 0")
  case True
  then show ?thesis using assms by (auto simp: scanned_def)
next
  case False
  then have c: "cursor \<le> c" "map bi_index bs = rev [cursor..<Suc c]" using assms(1) by (simp_all add: scanned_def)
  then have "bs \<noteq> []" by auto
  then show ?thesis using False assms c by (auto simp: scanned_def)
qed

lemma scan_loop_ok:
  "pg_size s \<le> length (data_buf s) \<Longrightarrow> c < 65536 \<Longrightarrow> total_blks s < 65536 \<Longrightarrow>
   runs (r_scan_loop c E s fdm g) (\<lambda>(cursor, t). \<exists>bs u. tables_only s u
     \<and> t = u\<lparr>rblocks := rblocks s @ bs\<rparr>
     \<and> scanned (REQUIRED_GOOD_BLOCKS (total_blks s)) c g bs cursor)"
proof (induction c arbitrary: s fdm g)
  case 0
  have "tables_only s s \<and> s = s\<lparr>rblocks := rblocks s @ []\<rparr> \<and>
      scanned (REQUIRED_GOOD_BLOCKS (total_blks s)) 0 g [] 0" by (simp add: scanned_def)
  then show ?case unfolding r_scan_loop.simps runs_Some case_prod_conv by blast
next
  case (Suc c)
  let ?req = "REQUIRED_GOOD_BLOCKS (total_blks s)"
  obtain ret f t where t: "read_fdm_tries 3 E s (Suc c) fdm 0 = (ret, f, t)" by (cases "read_fdm_tries 3 E s (Suc c) fdm 0")
  have io: "tables_only s t" using read_fdm_tries_io [of s 3 E "Suc c" fdm 0] t by (intro io_tables_only) simp
  note ct = tables_only_context [OF io]
  obtain st u where u: "classify_block E t ret f = Some (st, u)" "tables_only t u"
    using classify_ok [of t E ret f] ct(4,5) Suc.prems(1) by (auto simp: runs_def)
  have su: "tables_only s u" by (rule tables_only_trans [OF io u(2)])
  note cu = tables_only_context [OF su]
  let ?b = "\<lparr>bi_index = Suc c, bi_status = st\<rparr>"
  let ?v = "u\<lparr>rblocks := rblocks s @ [?b]\<rparr>"
  let ?g = "g + (if st \<noteq> BS_BAD then 1 else 0)"
  have idx: "u16 (int (Suc c)) = Suc c" "u16 (int (total_blks s)) = total_blks s"
    using Suc.prems by (simp_all del: of_nat_Suc)
  have step: "r_scan_loop (Suc c) E s fdm g =
      (if ?req \<le> ?g then Some (Suc c, ?v) else r_scan_loop c E ?v f ?g)"
    using t u(1) cu(1,3) by (simp add: Let_def idx del: of_nat_Suc)
  show ?case
  proof (cases "?req \<le> ?g")
    case True
    then have "scanned ?req (Suc c) g [?b] (Suc c)" by (auto simp: scanned_def)
    then show ?thesis using step True su by auto
  next
    case False
    have "runs (r_scan_loop c E ?v f ?g) (\<lambda>(cursor, t). \<exists>bs w. tables_only ?v w
        \<and> t = w\<lparr>rblocks := rblocks ?v @ bs\<rparr> \<and> scanned (REQUIRED_GOOD_BLOCKS (total_blks ?v)) c ?g bs cursor)"
      using Suc.prems cu(3-5) by (intro Suc.IH) simp_all
    then have "runs (r_scan_loop c E ?v f ?g) (\<lambda>(cursor, t). \<exists>bs u. tables_only s u
        \<and> t = u\<lparr>rblocks := rblocks s @ bs\<rparr> \<and> scanned ?req (Suc c) g bs cursor)"
    proof (rule runs_mono, clarify)
      fix cursor t bs w
      assume w: "tables_only ?v w" "scanned (REQUIRED_GOOD_BLOCKS (total_blks ?v)) c ?g bs cursor"
      have "tables_only u (w\<lparr>rblocks := rblocks s\<rparr>)"
        using w(1) cu(1) unfolding tables_only_def by (cases u; cases w) auto
      then have "tables_only s (w\<lparr>rblocks := rblocks s\<rparr>)" by (rule tables_only_trans [OF su])
      moreover have "scanned ?req (Suc c) g (?b # bs) cursor"
        using scanned_step [of ?req c g ?b bs cursor] w(2) False cu(3) by simp
      moreover have "w\<lparr>rblocks := rblocks ?v @ bs\<rparr> = (w\<lparr>rblocks := rblocks s\<rparr>)\<lparr>rblocks := rblocks s @ ?b # bs\<rparr>"
        by simp
      ultimately show "\<exists>bs' x. tables_only s x \<and> w\<lparr>rblocks := rblocks ?v @ bs\<rparr> = x\<lparr>rblocks := rblocks s @ bs'\<rparr>
          \<and> scanned ?req (Suc c) g bs' cursor" by blast
    qed
    then show ?thesis using step False by simp
  qed
qed

text \<open>
  The reserve area ends up as small as it can be: it holds as many usable blocks as are required, its
  lowest block is needed for that, and there are not enough blocks otherwise.
\<close>

lemma scan_reserve_ok:
  assumes "pg_size s \<le> length (data_buf s)" "1 < total_blks s" "total_blks s < 65536"
  shows "runs (r_scan_reserve E True s) (\<lambda>(ret, t). \<exists>bs u n. tables_only s u
    \<and> t = u\<lparr>rblocks := bs, reserve_begin := n\<rparr>
    \<and> (if ret = 0 then 0 < n \<and> n < total_blks s \<and> map bi_index bs = rev [n..<total_blks s]
         \<and> REQUIRED_GOOD_BLOCKS (total_blks s) \<le> usable bs
         \<and> (length bs = 1 \<or> usable (butlast bs) < REQUIRED_GOOD_BLOCKS (total_blks s))
       else ret = - ENOSPC \<and> map bi_index bs = rev [1..<total_blks s]
         \<and> usable bs < REQUIRED_GOOD_BLOCKS (total_blks s)))"
proof -
  let ?s = "s\<lparr>rblocks := []\<rparr>" and ?c = "total_blks s - 1"
  have last: "int (u16 (int (total_blks s))) - 1 = int ?c" "Suc ?c = total_blks s" using assms by simp_all
  obtain cursor t bs u where r: "r_scan_loop ?c E ?s (replicate 4 0) 0 = Some (cursor, t)"
    "tables_only ?s u" "t = u\<lparr>rblocks := bs\<rparr>"
    "scanned (REQUIRED_GOOD_BLOCKS (total_blks s)) ?c 0 bs cursor"
  proof -
    have "runs (r_scan_loop ?c E ?s (replicate 4 0) 0) (\<lambda>(cursor, t). \<exists>bs u. tables_only ?s u
     \<and> t = u\<lparr>rblocks := bs\<rparr> \<and> scanned (REQUIRED_GOOD_BLOCKS (total_blks s)) ?c 0 bs cursor)"
      by (rule runs_mono [OF scan_loop_ok]) (use assms in auto)
    then show ?thesis using that by (auto simp: runs_def)
  qed
  have tu: "tables_only s (u\<lparr>rblocks := rblocks s\<rparr>)"
    using r(2) unfolding tables_only_def by (cases u; cases s) auto
  have eq: "r_scan_reserve E True s = (if cursor = 0 then Some (- ENOSPC, t)
      else Some (0, t\<lparr>reserve_begin := u16 (int cursor)\<rparr>))"
    using r(1) assms(2) unfolding r_scan_reserve_def Let_def last(1) nat_int by simp
  show ?thesis
  proof (cases "cursor = 0")
    case True
    then have "bs \<noteq> []" "map bi_index bs = rev [1..<total_blks s]"
      using r(4) last(2) assms(2) by (auto simp: scanned_def)
    then have "\<exists>bs' u' n. tables_only s u' \<and> t = u'\<lparr>rblocks := bs', reserve_begin := n\<rparr>
        \<and> map bi_index bs' = rev [1..<total_blks s] \<and> usable bs' < REQUIRED_GOOD_BLOCKS (total_blks s)"
      using True r(3,4) tu by (intro exI [of _ bs] exI [of _ "u\<lparr>rblocks := rblocks s\<rparr>"] exI [of _ "reserve_begin u"])
        (simp add: scanned_def)
    then show ?thesis using eq True by simp
  next
    case False
    then have b: "cursor \<le> ?c" "map bi_index bs = rev [cursor..<total_blks s]"
      "REQUIRED_GOOD_BLOCKS (total_blks s) \<le> usable bs"
      "length bs = 1 \<or> usable (butlast bs) < REQUIRED_GOOD_BLOCKS (total_blks s)"
      using r(4) last(2) by (simp_all add: scanned_def)
    then have "u16 (int cursor) = cursor" using assms(3) by simp
    then have "\<exists>bs' u' n. tables_only s u' \<and> t\<lparr>reserve_begin := u16 (int cursor)\<rparr> = u'\<lparr>rblocks := bs', reserve_begin := n\<rparr>
        \<and> 0 < n \<and> n < total_blks s \<and> map bi_index bs' = rev [n..<total_blks s]
        \<and> REQUIRED_GOOD_BLOCKS (total_blks s) \<le> usable bs'
        \<and> (length bs' = 1 \<or> usable (butlast bs') < REQUIRED_GOOD_BLOCKS (total_blks s))"
      using False b r(3) tu assms(2)
      by (intro exI [of _ bs] exI [of _ "u\<lparr>rblocks := rblocks s\<rparr>"] exI [of _ cursor]) simp
    then show ?thesis using eq False by simp
  qed
qed

section \<open>Rebuilding the BMT\<close>

lemma replicate_four: "replicate (4 + k) x = x # x # x # x # replicate k x"
  by (simp add: eval_nat_numeral)

text \<open>Clearing the table leaves its last five entries as they were.\<close>

lemma empty_bmt_eq:
  assumes "bmt_sized t"
  shows "empty_bmt be t = Some \<lparr>mt_sig = BMT_SIG, mt_version = 1, mt_bad_count = 0, mt_size = 0, mt_cksum = 0,
    mt_reserved = replicate 13 0, mt_table = replicate 251 zero_entry @ drop 251 (mt_table t)\<rparr>"
proof -
  let ?es = "replicate 251 zero_entry @ drop 251 (mt_table t)"
  have l: "length (bmt_bytes be t) = 1044" "length (mt_table t) = 256"
    using assms by (simp_all add: length_bmt_bytes bmt_sized_def en75_sizes)
  have dr: "drop 20 (bmt_bytes be t) = entries_bytes be (mt_table t)"
    using assms by (simp add: bmt_bytes_def bmt_sized_def)
  have "entries_bytes be (mt_table t) = entries_bytes be (take 251 (mt_table t)) @ entries_bytes be (drop 251 (mt_table t))"
    by (simp add: entries_bytes_append [symmetric])
  then have "drop 1004 (entries_bytes be (mt_table t)) = entries_bytes be (drop 251 (mt_table t))" using l by simp
  then have tail: "drop 1024 (bmt_bytes be t) = entries_bytes be (drop 251 (mt_table t))"
    unfolding dr [symmetric] by simp
  have "half_bytes be 0 = [0, 0]" by (simp add: half_bytes_def le_bytes_two Let_def)
  then have z: "entries_bytes be (zero_entry # es) = 0 # 0 # 0 # 0 # entries_bytes be es" for es
    by (simp add: entries_bytes_def halves_bytes_def zero_entry_def)
  have zs: "entries_bytes be (replicate n zero_entry) = replicate (4 * n) 0" for n
    by (induction n) (simp add: entries_bytes_def halves_bytes_def, simp add: z replicate_four)
  obtain m where m: "memput (bmt_bytes be t) 0 (replicate 20 0xff) = Some m"
    "memput m 0 (replicate 1024 0) = Some (replicate 1024 0 @ drop 1024 (bmt_bytes be t))"
    using l(1) by (simp add: memput_def)
  have "replicate 1024 (0 :: byte) = replicate 20 0 @ replicate 1004 0" by (simp add: replicate_add [symmetric])
  then have bs: "replicate 1024 0 @ drop 1024 (bmt_bytes be t) = replicate 20 0 @ entries_bytes be ?es"
    using zs [of 251] tail by (simp add: entries_bytes_append)
  have "bytes_bmt be (replicate 20 0 @ entries_bytes be ?es) = \<lparr>mt_sig = replicate 3 0, mt_version = 0,
      mt_bad_count = 0, mt_size = 0, mt_cksum = 0, mt_reserved = replicate 13 0, mt_table = ?es\<rparr>"
  proof -
    have "length (entries_bytes be ?es) = 1024" using l(2) by simp
    then have "take 1024 (entries_bytes be ?es) = entries_bytes be ?es" by simp
    then have "halves_entries (bytes_halves be (take 1024 (drop 20 (replicate 20 0 @ entries_bytes be ?es)))) = ?es"
      by (simp add: entries_bytes_def)
    moreover have "take n (drop k (replicate 20 0 @ entries_bytes be ?es)) = replicate n 0" if "n + k \<le> 20" for n k
      using that by (simp add: min_def)
    moreover have "(replicate 20 0 @ entries_bytes be ?es) ! k = 0" if "k < 20" for k
      using that by (simp add: nth_append)
    ultimately show ?thesis by (simp add: bytes_bmt_def)
  qed
  then show ?thesis using m(1) m(2) bs by (simp add: empty_bmt_def)
qed

section \<open>The context while it is built\<close>

text \<open>\<open>en_ok\<close> without its bound on the size of the reserve area, which the code does not check.\<close>

definition en_base :: "('d, 'z) en75_scheme \<Rightarrow> bool" where
  "en_base s \<longleftrightarrow> reserve_begin s \<le> total_blks s \<and> total_blks s < 65514
     \<and> map bi_index (rblocks s) = rev [reserve_begin s..<total_blks s]
     \<and> bmt_sized (en_bmt s) \<and> bbt_sized (en_bbt s)
     \<and> (can_remap_count s \<noteq> 0 \<longrightarrow> can_remap_ranges s \<noteq> None)"

lemma en_base_ok:
  "en_base s \<Longrightarrow> total_blks s - reserve_begin s \<le> MAX_BMT_SIZE \<Longrightarrow> en_ok s"
  by (simp add: en_base_def en_ok_def bmt_sized_def bbt_sized_def)

lemma en_base_count:
  assumes "en_base s"
  shows "nat (reserve_block_count s) = length (rblocks s)"
proof -
  have "length (map bi_index (rblocks s)) = length (rev [reserve_begin s..<total_blks s])"
    using assms by (simp add: en_base_def)
  then show ?thesis
    using assms by (auto simp: en_base_def reserve_block_count_def nat_diff_distrib)
qed

lemma en_base_io: "io_only s t \<Longrightarrow> en_base s \<Longrightarrow> en_base (t :: ('d, 'z) en75_scheme)"
  by (auto simp: en_base_def elim!: io_only_en75)

lemma en_base_bmt: "en_base s \<Longrightarrow> bmt_sized m \<Longrightarrow> en_base (s\<lparr>en_bmt := m\<rparr>)"
  by (simp add: en_base_def)

lemma en_base_bbt: "en_base s \<Longrightarrow> bbt_sized f \<Longrightarrow> en_base (s\<lparr>en_bbt := f\<rparr>)"
  by (simp add: en_base_def)

lemma en_base_dirty [simp]: "en_base (s\<lparr>bmt_dirty := d\<rparr>) = en_base s" "en_base (s\<lparr>bbt_dirty := d\<rparr>) = en_base s"
  "en_base (s\<lparr>can_write_factory_bbt := w\<rparr>) = en_base s" "en_base (s\<lparr>mtd_size := n\<rparr>) = en_base s"
  by (simp_all add: en_base_def)

lemma size_index: "bmt_sized m \<Longrightarrow> unat (b :: byte) < length (mt_table m)"
  "bbt_sized f \<Longrightarrow> unat b < length (ft_table f)"
  using byte_bound [of b] by (simp_all add: bmt_sized_def bbt_sized_def en75_sizes)

lemma en_base_status:
  assumes "en_base s" "i < length (rblocks s)"
  shows "runs (set_status i st s) en_base"
proof -
  have "map bi_index ((rblocks s)[i := (rblocks s ! i)\<lparr>bi_status := st\<rparr>]) = map bi_index (rblocks s)"
    using assms(2) by (simp add: map_update list_update_same_conv)
  then show ?thesis using assms by (simp add: set_status_eq en_base_def)
qed

text \<open>Rebuilding keeps it.\<close>

lemma reconstruct_bmt_block_base:
  assumes "en_base s"
  shows "runs (r_reconstruct_bmt_block E i s) (\<lambda>t. en_base t \<and> bbt_dirty t = bbt_dirty s \<and> en_bbt t = en_bbt s)"
proof -
  obtain ret fdm t where t: "read_fdm E s i (replicate 4 0) = (ret, fdm, t)"
    by (cases "read_fdm E s i (replicate 4 0)")
  then have io: "io_only s t" using read_fdm_io [of s E i "replicate 4 0"] by simp
  have b: "en_base t" by (rule en_base_io [OF io assms])
  note c = io_only_context [OF io]
  have "unat (mt_size (en_bmt t)) < length (mt_table (en_bmt t))"
    using b by (simp add: en_base_def size_index)
  moreover have "bmt_sized ((en_bmt t)\<lparr>mt_size := n, mt_table := (mt_table (en_bmt t))[k := e]\<rparr>)" for n k e
    using b by (simp add: en_base_def bmt_sized_def)
  ultimately show ?thesis
    using b c(3,5) by (auto simp: r_reconstruct_bmt_block_def t Let_def vcg intro!: en_base_bmt)
qed

lemma reconstruct_bmt_base:
  fixes s :: "('d, 'z) en75_scheme"
  assumes "en_base s"
  shows "runs (r_reconstruct_bmt E s) (\<lambda>t. en_base t \<and> bbt_dirty t = bbt_dirty s \<and> en_bbt t = en_bbt s)"
proof -
  obtain m where m: "empty_bmt (k_big_endian E) (en_bmt s) = Some m" "bmt_sized m"
    using assms empty_bmt_eq [of "en_bmt s" "k_big_endian E"]
    by (auto simp: en_base_def bmt_sized_def en75_sizes BMT_SIG_def)
  have "runs (for_each (rev [reserve_begin s..<total_blks s]) (r_reconstruct_bmt_block E)
      (s\<lparr>en_bmt := m, bmt_dirty := bmt_dirty s + 1\<rparr>))
    (\<lambda>t. en_base t \<and> bbt_dirty t = bbt_dirty s \<and> en_bbt t = en_bbt s)"
  proof (rule runs_for_each)
    fix i and t :: "('d, 'z) en75_scheme" assume "en_base t \<and> bbt_dirty t = bbt_dirty s \<and> en_bbt t = en_bbt s"
    then show "runs (r_reconstruct_bmt_block E i t) (\<lambda>t. en_base t \<and> bbt_dirty t = bbt_dirty s \<and> en_bbt t = en_bbt s)"
      using reconstruct_bmt_block_base [of t E i] by auto
  qed (use assms m(2) in \<open>simp add: en_base_def\<close>)
  then show ?thesis using m(1) by (simp add: r_reconstruct_bmt_def)
qed

lemma reconstruct_bbt_block_base:
  assumes "en_base s"
  shows "runs (r_reconstruct_bbt_block E i s) (\<lambda>t. en_base t \<and> bbt_dirty t = bbt_dirty s)"
proof -
  obtain ret fdm t where t: "read_fdm E s i (replicate 4 0) = (ret, fdm, t)"
    by (cases "read_fdm E s i (replicate 4 0)")
  then have io: "io_only s t" using read_fdm_io [of s E i "replicate 4 0"] by simp
  have b: "en_base t" by (rule en_base_io [OF io assms])
  have "unat (ft_size (en_bbt t)) < length (ft_table (en_bbt t))"
    using b by (simp add: en_base_def size_index)
  moreover have "bbt_sized ((en_bbt t)\<lparr>ft_size := n, ft_table := (ft_table (en_bbt t))[k := e]\<rparr>)" for n k e
    using b by (simp add: en_base_def bbt_sized_def)
  ultimately show ?thesis
    using b assms io_only_context(5) [OF io]
    by (auto simp: r_reconstruct_bbt_block_def t Let_def vcg intro!: en_base_bbt)
qed

text \<open>Rebuilding the BBT does not count as a change of it.\<close>

lemma reconstruct_bbt_base:
  fixes s :: "('d, 'z) en75_scheme"
  assumes "en_base s"
  shows "runs (r_reconstruct_bbt E s) (\<lambda>(ret, t). en_base t \<and> bbt_dirty t = bbt_dirty s)"
proof -
  have "bbt_sized empty_bbt" by (simp add: empty_bbt_def bbt_sized_def RAWB_SIG_def)
  then have "runs (for_each [0..<reserve_begin s] (r_reconstruct_bbt_block E) (s\<lparr>en_bbt := empty_bbt\<rparr>))
    (\<lambda>t. en_base t \<and> bbt_dirty t = bbt_dirty s)"
  proof (intro runs_for_each)
    fix i and t :: "('d, 'z) en75_scheme" assume "en_base t \<and> bbt_dirty t = bbt_dirty s"
    then show "runs (r_reconstruct_bbt_block E i t) (\<lambda>t. en_base t \<and> bbt_dirty t = bbt_dirty s)"
      using reconstruct_bbt_block_base [of t E i] by auto
  qed (use assms in \<open>simp add: en_base_bbt\<close>)
  then have "runs (do { s \<leftarrow> for_each [0..<reserve_begin s] (r_reconstruct_bbt_block E) (s\<lparr>en_bbt := empty_bbt\<rparr>);
      Some (0 :: int, s\<lparr>en_bbt := sort_bbt (en_bbt s)\<rparr>) }) (\<lambda>(ret, t). en_base t \<and> bbt_dirty t = bbt_dirty s)"
    by (rule runs_bindI) (auto simp: en_base_def sort_sized)
  then show ?thesis using assms by (auto simp: r_reconstruct_bbt_def)
qed

end
