(* ===== verification/En75_Boot.thy ===== *)
theory En75_Boot
  imports En75_Scan
begin

text \<open>
  The rest of the start of the EcoNet manager: the factory bad blocks, the ranges that may be remapped,
  and \<open>w_init\<close> as a whole, which keeps to the memory of its tables whatever the flash holds.
\<close>

section \<open>Single operations\<close>

lemma w_mark_bad_base: "en_base s \<Longrightarrow> en_base (snd (w_mark_bad E s b u))"
  by (rule en_base_io [OF w_mark_bad_io])

lemma w_erase_one_base: "en_base s \<Longrightarrow> en_base (snd (w_erase_one E s b u))"
  by (rule en_base_io [OF w_erase_one_io])

text \<open>The largest block is unmapped with the last entry of the table moved to the place of its entry.\<close>

lemma w_unmap_block_base:
  assumes "en_base s"
  shows "runs (w_unmap_block E s block erase) (\<lambda>(ret, t). en_base t \<and> bbt_dirty t = bbt_dirty s)"
proof (cases "bmt_index_of (bmt_used s) block")
  case None
  then show ?thesis using assms by (simp add: w_unmap_block_def)
next
  case (Some i)
  have len: "length (mt_table (en_bmt s)) = 256" using assms by (simp add: en_base_def bmt_sized_def en75_sizes)
  have i: "i < 256" using bmt_index_of_bound(1) [OF Some] len by (simp add: bmt_used_def)
  let ?to = "unat (e_to (mt_table (en_bmt s) ! i))"
  obtain q where q: "rblock_index (rblocks s) [0..<length (rblocks s)] ?to = Some q"
    "case q of None \<Rightarrow> True | Some j \<Rightarrow> j < length (rblocks s) \<and> bi_index (rblocks s ! j) = ?to"
    using rblock_index_ok [of "[0..<length (rblocks s)]" "rblocks s" ?to]
    by (fastforce simp: runs_def split: option.splits)
  show ?thesis
  proof (cases q)
    case None
    then show ?thesis
      using Some q(1) i len assms by (simp add: w_unmap_block_def en_base_count [OF assms] aget_def)
  next
    case (Some j)
    then have j: "j < length (rblocks s)" using q(2) by simp
    obtain ret u where u: "(if erase \<noteq> UE_NO_ERASE then w_erase_one E s (bi_index (rblocks s ! j)) False
        else (0, s)) = (ret, u)" by fastforce
    have io: "io_only s u"
      using u w_erase_one_io [of s E "bi_index (rblocks s ! j)" False] by (auto split: if_splits)
    note c = io_only_context [OF io]
    have ub: "en_base u" by (rule en_base_io [OF io assms])
    have k: "unat (mt_size (en_bmt s)) - 1 < 256" using byte_bound [of "mt_size (en_bmt s)"] by simp
    define k where "k = unat (mt_size (en_bmt s)) - 1"
    define v where "v = u\<lparr>en_bmt := (en_bmt s)\<lparr>mt_size := word_of_nat k,
       mt_table := (mt_table (en_bmt s))[i := mt_table (en_bmt s) ! k, k := zero_entry]\<rparr>,
       bmt_dirty := bmt_dirty u + 1\<rparr>"
    have "bmt_sized (en_bmt v)" using assms by (simp add: v_def en_base_def bmt_sized_def)
    then have v: "en_base v" "rblocks v = rblocks s" "bbt_dirty v = bbt_dirty s"
      using ub c(1,5) by (simp_all add: v_def en_base_def)
    have fin: "runs (do { s \<leftarrow> set_status j BS_NEED_ERASE v; Some (0 :: int, s) })
        (\<lambda>(ret, t). en_base t \<and> bbt_dirty t = bbt_dirty s)"
      using en_base_status [OF v(1), of j BS_NEED_ERASE] j v(2,3) by (simp add: set_status_eq)
    show ?thesis
      using \<open>bmt_index_of (bmt_used s) block = Some i\<close> q(1) Some i j k len u ub c(1,2,5) fin [unfolded v_def k_def]
      by (simp add: w_unmap_block_def en_base_count [OF assms] aget_def aset_def Let_def k_def)
  qed
qed

section \<open>Factory bad blocks\<close>

lemma fbs_length: "bbt_sized (en_bbt s) \<Longrightarrow> length (fbs s) = unat (ft_size (en_bbt s))"
  using byte_bound [of "ft_size (en_bbt s)"] by (simp add: fbs_def bbt_sized_def en75_sizes)

lemma bbt_update_sized:
  "bbt_sized t \<Longrightarrow> bbt_sized (t\<lparr>ft_size := n, ft_table := (ft_table t)[i := a]\<rparr>)"
  "bbt_sized t \<Longrightarrow> bbt_sized (t\<lparr>ft_size := n, ft_table := (ft_table t)[i := a, j := b]\<rparr>)"
  by (simp_all add: bbt_sized_def)

text \<open>
  Taking the last entry out of the BBT while it is being emptied: the block that is erased is not the
  block of the entry but block 0, because the entry is cleared before it is read.
\<close>

lemma clear_factory_block_eq:
  assumes "bbt_sized (en_bbt s)" "unat (ft_size (en_bbt s)) = Suc i"
  defines "v \<equiv> s\<lparr>en_bbt := (en_bbt s)\<lparr>ft_size := ft_size (en_bbt s) - 1, ft_table := (ft_table (en_bbt s))[i := 0]\<rparr>\<rparr>"
  shows "clear_factory_block E blocks i s =
    Some (if unat (ft_table (en_bbt s) ! i) \<in> set blocks then v else snd (w_erase_one E v 0 True))"
proof -
  have i: "i < 256" "i < length (ft_table (en_bbt s))"
    using byte_bound [of "ft_size (en_bbt s)"] assms(1,2) by (simp_all add: bbt_sized_def en75_sizes)
  have "1 \<le> ft_size (en_bbt s)" using assms(2) by (simp add: word_le_nat_alt)
  then have "unat (ft_size (en_bbt s) - 1) = i" using assms(2) by (simp add: unat_sub)
  then show ?thesis using i by (simp add: clear_factory_block_def aget_def aset_def Let_def v_def)
qed

lemma clear_factory_block_base:
  assumes "en_base s" "i < 256"
  shows "runs (clear_factory_block E blocks i s) en_base"
proof -
  have s: "bbt_sized (en_bbt s)" "length (ft_table (en_bbt s)) = 1000"
    using assms by (simp_all add: en_base_def bbt_sized_def en75_sizes)
  have "unat w < 1000" for w :: byte using byte_bound [of w] by simp
  moreover have "en_base (s\<lparr>en_bbt := (en_bbt s)\<lparr>ft_size := n, ft_table := (ft_table (en_bbt s))[i := a, j := b]\<rparr>\<rparr>)"
    for n a b j by (rule en_base_bbt [OF assms(1) bbt_update_sized(2) [OF s(1)]])
  ultimately show ?thesis
    using assms(2) s(2) by (auto simp: clear_factory_block_def Let_def vcg intro: w_erase_one_base)
qed

lemma unmap_factory_block_base:
  assumes "en_base s"
  shows "runs (unmap_factory_block E b s) en_base"
  using assms
  by (auto simp: unmap_factory_block_def intro!: runs_bind_pairI [OF w_unmap_block_base [OF assms]])

lemma add_factory_block_base:
  assumes "en_base s"
  shows "runs (add_factory_block E b s) en_base"
proof -
  have s: "bbt_sized (en_bbt s)" using assms by (simp add: en_base_def)
  have "en_base (s\<lparr>en_bbt := (en_bbt s)\<lparr>ft_size := n, ft_table := (ft_table (en_bbt s))[j := a]\<rparr>\<rparr>)"
    for n a j by (rule en_base_bbt [OF assms bbt_update_sized(1) [OF s]])
  then show ?thesis
    using assms size_index(2) [OF s, of "ft_size (en_bbt s)"]
    by (auto simp: add_factory_block_def Let_def vcg intro: w_mark_bad_base)
qed

lemma factory_badblocks_base:
  assumes "en_base s"
  shows "runs (w_factory_badblocks E s blocks) (\<lambda>(ret, t). en_base t)"
proof -
  have n: "length (fbs s) < 256"
    using assms fbs_length [of s] byte_bound [of "ft_size (en_bbt s)"] by (simp add: en_base_def)
  have "runs (do { s \<leftarrow> for_each (rev [0..<length (fbs s)]) (clear_factory_block E blocks) s;
        s \<leftarrow> for_each blocks (unmap_factory_block E) s;
        s \<leftarrow> for_each blocks (add_factory_block E) s;
        Some (0 :: int, s\<lparr>en_bbt := sort_bbt (en_bbt s), bbt_dirty := bbt_dirty s + 1\<rparr>) })
      (\<lambda>(ret, t). en_base t)"
  proof (intro runs_bindI)
    show "runs (for_each (rev [0..<length (fbs s)]) (clear_factory_block E blocks) s) en_base"
      by (rule runs_for_each) (use assms n in \<open>auto intro: clear_factory_block_base\<close>)
    show "runs (for_each blocks (unmap_factory_block E) t) en_base" if "en_base t" for t
      by (rule runs_for_each) (use that in \<open>auto intro: unmap_factory_block_base\<close>)
    show "runs (for_each blocks (add_factory_block E) t) en_base" if "en_base t" for t
      by (rule runs_for_each) (use that in \<open>auto intro: add_factory_block_base\<close>)
    show "runs (Some (0 :: int, t\<lparr>en_bbt := sort_bbt (en_bbt t), bbt_dirty := bbt_dirty t + 1\<rparr>))
        (\<lambda>(ret, t). en_base t)" if "en_base t" for t
      using that by (simp add: en_base_def sort_sized)
  qed
  then show ?thesis
    using assms by (simp add: w_factory_badblocks_def fbs_def Let_def del: for_each.simps)
qed

section \<open>Ranges that may be remapped\<close>

lemma add_remap_range_base:
  assumes "en_base s"
  shows "runs (add_remap_range True s b n) (\<lambda>(ret, t). en_base t)"
  using assms by (auto simp: add_remap_range_def en_base_def split: option.splits)

lemma w_add_ranges_base:
  assumes "en_base s" "\<And>n. alloc_ranges np n"
  shows "runs (w_add_ranges s np) en_base"
proof -
  have "runs (add_partition (alloc_ranges np) en reg t) en_base" if "en_base t" for en reg t
    using that assms(2)
    by (auto simp: add_partition_def split: option.split intro!: runs_bind_pairI [OF add_remap_range_base [OF that]])
  then show ?thesis
    using assms
    by (auto simp: w_add_ranges_def intro!: runs_for_each runs_bind_pairI [OF add_remap_range_base [OF assms(1)]])
qed

lemma w_add_ranges_bbt: "w_add_ranges s np = Some t \<Longrightarrow> en_bbt t = en_bbt s"
proof -
  have add: "add_remap_range a s b n = Some (r, t) \<Longrightarrow> en_bbt t = en_bbt s" for a s b n r t
    by (auto simp: add_remap_range_def split: if_splits option.splits)
  have "for_each parts (add_partition a e) s = Some t \<Longrightarrow> en_bbt t = en_bbt s" for parts a e s t
  proof (induction parts arbitrary: s)
    case (Cons p parts)
    then obtain u where u: "add_partition a e p s = Some u" "for_each parts (add_partition a e) u = Some t"
      by (auto simp: bind_eq_Some_conv)
    then have "en_bbt u = en_bbt s"
      by (auto simp: add_partition_def bind_eq_Some_conv dest: add split: if_splits option.splits)
    then show ?case using Cons.IH [OF u(2)] by simp
  qed simp
  then show "w_add_ranges s np = Some t \<Longrightarrow> en_bbt t = en_bbt s"
    by (auto simp: w_add_ranges_def bind_eq_Some_conv dest: add split: if_splits)
qed

text \<open>The ranges of the partitions are never entered: the loop over them is run only when it skips all.\<close>

lemma w_add_ranges_none:
  assumes "\<not> of_enable_remap np"
  shows "w_add_ranges s np = Some s"
proof -
  have "for_each parts (add_partition a False) s = Some s" for parts a
    by (induction parts) (simp_all add: add_partition_def)
  then show ?thesis using assms by (simp add: w_add_ranges_def)
qed

section \<open>The start as a whole\<close>

lemma w_find_tables_base:
  assumes "en_base s"
  shows "runs (w_find_tables E s np) (\<lambda>(ret, t). en_base t)"
proof -
  have m: "runs (do { s \<leftarrow> r_reconstruct_bmt E s; Some (0 :: int, s) }) (\<lambda>(ret, t). en_base t)"
    by (rule runs_bindI [OF reconstruct_bmt_base [OF assms]]) simp
  have b: "runs (r_reconstruct_bbt E t) (\<lambda>(ret, t). en_base t)" if "en_base t" for t
    by (rule runs_mono [OF reconstruct_bbt_base [OF that]]) auto
  have "runs (do { s \<leftarrow> r_reconstruct_bmt E s; r_reconstruct_bbt E s }) (\<lambda>(ret, t). en_base t)"
    by (rule runs_bindI [OF reconstruct_bmt_base [OF assms]]) (simp add: b)
  then show ?thesis using assms m b [OF assms] by (simp add: w_find_tables_def)
qed

text \<open>What \<open>w_init\<close> is called with: the buffer holds a page, the tables have their sizes, memory can be had.\<close>

definition can_start :: "('d, 'z) en75_scheme \<Rightarrow> en75_node \<Rightarrow> bool" where
  "can_start s np \<longleftrightarrow> pg_size s \<le> length (data_buf s) \<and> 1 < total_blks s \<and> total_blks s < 65514
     \<and> bmt_sized (en_bmt s) \<and> bbt_sized (en_bbt s) \<and> can_remap_count s = 0
     \<and> alloc_rblocks np \<and> (\<forall>n. alloc_ranges np n)"

lemma scan_reserve_base:
  assumes "can_start s np"
  shows "runs (r_scan_reserve E (alloc_rblocks np) s) (\<lambda>(ret, t). ret = 0 \<longrightarrow> en_base t)"
proof -
  have s: "pg_size s \<le> length (data_buf s)" "1 < total_blks s" "total_blks s < 65514" "total_blks s < 65536"
    "bmt_sized (en_bmt s)" "bbt_sized (en_bbt s)" "can_remap_count s = 0" "alloc_rblocks np"
    using assms by (auto simp: can_start_def)
  have ctx: "total_blks u = total_blks s \<and> can_remap_count u = 0 \<and> bbt_sized (en_bbt u) \<and> bmt_sized (en_bmt u)"
    if "tables_only s u" for u
    using tables_only_context(3,9,12,13) [OF that] s(5-7) by metis
  have "r_scan_reserve E (alloc_rblocks np) s = r_scan_reserve E True s" using s(8) by simp
  moreover have "runs (r_scan_reserve E True s) (\<lambda>(ret, t). ret = 0 \<longrightarrow> en_base t)"
  proof (rule runs_mono [OF scan_reserve_ok [OF s(1,2,4)]], clarify)
    fix ret t bs u n
    assume u: "tables_only s u" and "if (0 :: int) = 0
       then 0 < n \<and> n < total_blks s \<and> map bi_index bs = rev [n..<total_blks s]
         \<and> REQUIRED_GOOD_BLOCKS (total_blks s) \<le> usable bs
         \<and> (length bs = 1 \<or> usable (butlast bs) < REQUIRED_GOOD_BLOCKS (total_blks s))
       else 0 = - ENOSPC \<and> map bi_index bs = rev [1..<total_blks s]
         \<and> usable bs < REQUIRED_GOOD_BLOCKS (total_blks s)"
    then have "n < total_blks s" "map bi_index bs = rev [n..<total_blks s]" by simp_all
    then show "en_base (u\<lparr>rblocks := bs, reserve_begin := n\<rparr>)"
      using ctx [OF u] s(3) by (simp add: en_base_def)
  qed
  ultimately show ?thesis by simp
qed

lemma w_init_base:
  assumes "can_start s np"
  shows "runs (w_init E s np) (\<lambda>(ret, t). ret = 0 \<longrightarrow> en_base t)"
proof -
  have alloc: "alloc_ranges np n" for n using assms by (simp add: can_start_def)
  have fin: "runs (do {
      (ret, s) \<leftarrow> (case of_factory_badblocks np of None \<Rightarrow> Some (0, t) | Some blocks \<Rightarrow> w_factory_badblocks E t blocks);
      if ret \<noteq> 0 then Some (ret, s)
      else Some (0, s\<lparr>mtd_size := nat (s32 ((int (reserve_begin s) - uint (ft_size (en_bbt s)))
                                  * 2 ^ blk_shift s) mod 2 ^ 64)\<rparr>) })
    (\<lambda>(ret, t). ret = 0 \<longrightarrow> en_base t)" if "en_base t" for t :: "('a, 'b) en75_scheme"
  proof (rule runs_bind_pairI [where P = "\<lambda>ret t. en_base t"])
    show "runs (case of_factory_badblocks np of None \<Rightarrow> Some (0, t) | Some blocks \<Rightarrow> w_factory_badblocks E t blocks)
        (\<lambda>(ret, t). en_base t)"
      using that factory_badblocks_base [OF that] by (simp split: option.split)
  qed simp
  have tab: "runs (do {
      s \<leftarrow> w_add_ranges t np;
      (ret, s) \<leftarrow> w_find_tables E s np;
      if ret \<noteq> 0 then Some (ret, s)
      else do {
        (ret, s) \<leftarrow> (case of_factory_badblocks np of None \<Rightarrow> Some (0, s) | Some blocks \<Rightarrow> w_factory_badblocks E s blocks);
        if ret \<noteq> 0 then Some (ret, s)
        else Some (0, s\<lparr>mtd_size := nat (s32 ((int (reserve_begin s) - uint (ft_size (en_bbt s)))
                                  * 2 ^ blk_shift s) mod 2 ^ 64)\<rparr>) } })
    (\<lambda>(ret, t). ret = 0 \<longrightarrow> en_base t)" if "en_base t" for t :: "('a, 'b) en75_scheme"
    by (rule runs_bindI [OF w_add_ranges_base [OF that alloc]], rule runs_bind_pairI [OF w_find_tables_base])
       (use fin in simp_all)
  show ?thesis
    unfolding w_init_def
    by (rule runs_bind_pairI [OF scan_reserve_base [OF assms]]) (use tab in \<open>auto simp: Let_def\<close>)
qed

text \<open>A list of factory bad blocks does not make up for a missing BBT: the start fails.\<close>

lemma find_tables_no_bbt:
  assumes "en_base s" "ft_version (en_bbt s) = 0" "of_factory_badblocks np = Some blocks"
  shows "runs (w_find_tables E s np) (\<lambda>(ret, t). ret \<noteq> 0 \<or> ft_version (en_bbt t) = 0)"
proof -
  have "runs (do { s \<leftarrow> r_reconstruct_bmt E s; Some (0 :: int, s) }) (\<lambda>(ret, t). ret \<noteq> 0 \<or> ft_version (en_bbt t) = 0)"
    by (rule runs_bindI [OF reconstruct_bmt_base [OF assms(1)]]) (use assms(2) in auto)
  then show ?thesis using assms by (simp add: w_find_tables_def)
qed

section \<open>The size of the reserve area\<close>

text \<open>The loop that clears the BMT behind its entries leaves the table when the reserve area is larger.\<close>

lemma clear_tail_overruns:
  "length (mt_table (en_bmt s)) = 256 \<Longrightarrow> 256 < m \<Longrightarrow> n \<le> 256 \<Longrightarrow>
   for_each [n..<m] (\<lambda>i s. do { t \<leftarrow> aset (mt_table (en_bmt s)) i zero_entry;
       Some (s\<lparr>en_bmt := (en_bmt s)\<lparr>mt_table := t\<rparr>\<rparr>) }) s = None"
proof (induction "256 - n" arbitrary: n s)
  case 0
  then have "n = 256" by simp
  then show ?case using 0 by (simp add: upt_conv_Cons aset_def)
next
  case (Suc k)
  then have n: "n < 256" "n < m" by simp_all
  have "for_each [Suc n..<m] (\<lambda>i s. do { t \<leftarrow> aset (mt_table (en_bmt s)) i zero_entry;
       Some (s\<lparr>en_bmt := (en_bmt s)\<lparr>mt_table := t\<rparr>\<rparr>) }) (s\<lparr>en_bmt := (en_bmt s)\<lparr>mt_table := t\<rparr>\<rparr>) = None"
    if "length t = 256" for t
    using Suc.hyps(1) [of "Suc n" "s\<lparr>en_bmt := (en_bmt s)\<lparr>mt_table := t\<rparr>\<rparr>"] Suc.hyps(2) Suc.prems that n by simp
  then show ?case using n Suc.prems(1) by (simp add: upt_conv_Cons aset_def)
qed

lemma sync_bmt_overruns:
  assumes "nat (reserve_block_count s) = length (rblocks s)" "MAX_BMT_SIZE < length (rblocks s)"
    "length (mt_table (en_bmt s)) = MAX_BMT_SIZE" "bmt_dirty s \<noteq> 0"
  shows "w_sync_bmt E s = None"
proof -
  have "clear_bmt_tail s = None"
    unfolding clear_bmt_tail_def assms(1)
    using assms(2,3) byte_bound [of "mt_size (en_bmt s)"]
    by (intro clear_tail_overruns) (simp_all add: en75_sizes)
  then show ?thesis using assms(4) by (simp add: w_sync_bmt_def Let_def)
qed

text \<open>The reserve area has that size on every chip of 3213 blocks or more.\<close>

lemma usable_le: "usable bs \<le> length bs"
  by (simp add: usable_def)

lemma large_chip_reserve:
  assumes "pg_size s \<le> length (data_buf s)" "3213 \<le> total_blks s" "total_blks s < 65536"
  shows "runs (r_scan_reserve E True s) (\<lambda>(ret, t). ret = 0 \<longrightarrow> MAX_BMT_SIZE < length (rblocks t))"
proof -
  have "257 \<le> REQUIRED_GOOD_BLOCKS (total_blks s)" using assms(2) by (simp add: REQUIRED_GOOD_BLOCKS_def)
  then have large: "256 < length bs" if "REQUIRED_GOOD_BLOCKS (total_blks s) \<le> usable bs" for bs
    using that usable_le [of bs] by simp
  have total: "1 < total_blks s" using assms(2) by simp
  show ?thesis
    by (rule runs_mono [OF scan_reserve_ok [OF assms(1) total assms(3)]])
       (auto simp: en75_sizes dest!: large split: if_splits)
qed

end
