(* ===== verification/En75_Properties.thy ===== *)
theory En75_Properties
  imports Bmt_Demo En75_Manager En75_Boot
begin

text \<open>The properties of the EcoNet manager, with a chip of 32 blocks to which they apply.\<close>

section \<open>An instance\<close>

text \<open>
  Block 3 is bad from the factory, block 5 is worn and mapped to block 30; block 31 holds the BMT and two
  blocks of the reserve area are free.
\<close>

definition demo_bbt_table :: bbt_table where
  "demo_bbt_table = zero_bbt\<lparr>ft_sig := RAWB_SIG, ft_version := 1, ft_size := 1, ft_table := 3 # replicate 999 0\<rparr>"

definition demo_bmt_table :: bmt_table where
  "demo_bmt_table = zero_bmt\<lparr>mt_sig := BMT_SIG, mt_version := 1, mt_size := 1,
     mt_table := \<lparr>e_from = 5, e_to = 30\<rparr> # replicate 255 zero_entry\<rparr>"

definition demo_en75 :: "(nat \<Rightarrow> byte) en75" where
  "demo_en75 = (zero_en75 (chip_desc (\<lambda>a. word_of_nat a)))\<lparr>en_bbt := demo_bbt_table, en_bmt := demo_bmt_table,
     rblocks := [\<lparr>bi_index = 31, bi_status = BS_BMT\<rparr>, \<lparr>bi_index = 30, bi_status = BS_MAPPED\<rparr>,
       \<lparr>bi_index = 29, bi_status = BS_AVAILABLE\<rparr>, \<lparr>bi_index = 28, bi_status = BS_AVAILABLE\<rparr>],
     reserve_begin := 28, can_remap_count := 1, can_remap_ranges := Some [(0, 28)], bmt_dirty := 1,
     can_write_factory_bbt := True\<rparr>"

lemmas demo_en75_defs = demo_en75_def zero_en75_def demo_bbt_table_def demo_bmt_table_def zero_bbt_def zero_bmt_def
  chip_desc_def bmtd.defs

lemma demo_rest: "rev [28..<32] = [31, 30, 29, 28 :: nat]"
  by (simp add: upt_rec)

lemma demo_en75_sized: "bmt_sized (en_bmt demo_en75)" "bbt_sized (en_bbt demo_en75)"
  by (simp_all add: demo_en75_defs bmt_sized_def bbt_sized_def en75_sizes BMT_SIG_def RAWB_SIG_def)

lemma demo_en75_ok: "en_ok demo_en75"
  using demo_en75_sized by (simp add: en_ok_def bmt_sized_def bbt_sized_def) (simp add: demo_en75_defs demo_rest en75_sizes)

lemma demo_en75_base: "en_base demo_en75"
  using demo_en75_sized by (simp add: en_base_def) (simp add: demo_en75_defs demo_rest)

lemma demo_en75_sound: "en_sound demo_en75"
  using demo_en75_ok by (simp add: en_sound_def) (simp add: demo_en75_defs fbs_def bmt_used_def mapped_info_def)

lemma demo_fbs: "fbs demo_en75 = [3]"
  by (simp add: fbs_def demo_en75_defs)

lemma demo_user_blocks: "length (user_blocks demo_en75) = 27" "user_blocks demo_en75 ! 4 = 5" "user_blocks demo_en75 ! 6 = 7"
proof -
  have "[0..<28] = [0, 1, 2, 3 :: nat] @ [4..<28]" by (simp add: upt_rec)
  then have u: "user_blocks demo_en75 = [0, 1, 2] @ [4..<28]"
    unfolding user_blocks_def demo_fbs by (simp add: demo_en75_defs)
  show "length (user_blocks demo_en75) = 27" "user_blocks demo_en75 ! 4 = 5" "user_blocks demo_en75 ! 6 = 7"
    unfolding u by (simp_all add: nth_append)
qed

lemma demo_bmt_map: "bmt_map demo_en75 = [5 \<mapsto> 30]"
  by (simp add: bmt_map_def bmt_used_def demo_en75_defs fun_eq_iff)

lemma demo_fields: "total_blks demo_en75 = 32" "blk_shift demo_en75 = 7" "mtd_erasesize demo_en75 = 128"
  "blk_size demo_en75 = 128"
  by (simp_all add: demo_en75_defs)

section \<open>The mapping\<close>

text \<open>
  C21: a user block is mapped past the factory bad blocks to the good block of its rank in the user area,
  and from there through the BMT; a block behind the last one is refused. No two user blocks share a
  block of the chip, and none is mapped to a factory bad block.
\<close>

theorem en75_mapping:
  assumes "en_sound s"
  shows "pub_get_mapping_block s (int b) = Some (if b < length (user_blocks s)
      then (case bmt_map s (user_blocks s ! b) of Some t \<Rightarrow> int t | None \<Rightarrow> int (user_blocks s ! b))
      else - EINVAL)
    \<and> inj_on (get_mapping_block s \<circ> int) {..<length (user_blocks s)}
    \<and> get_mapping_block s (int b) \<notin> int ` set (fbs s) \<inter> {..<int (reserve_begin s)}"
proof (intro conjI)
  show "pub_get_mapping_block s (int b) = Some (if b < length (user_blocks s)
      then (case bmt_map s (user_blocks s ! b) of Some t \<Rightarrow> int t | None \<Rightarrow> int (user_blocks s ! b))
      else - EINVAL)"
    unfolding pub_get_mapping_block_def en_mapping_eq [OF assms] ..
  show "inj_on (get_mapping_block s \<circ> int) {..<length (user_blocks s)}"
  proof (rule inj_onI)
    fix b c assume "b \<in> {..<length (user_blocks s)}" "c \<in> {..<length (user_blocks s)}"
      and eq: "(get_mapping_block s \<circ> int) b = (get_mapping_block s \<circ> int) c"
    then have "0 \<le> get_mapping_block s (int b)" by (simp add: en_mapping_eq [OF assms] split: option.split)
    then show "b = c" using eq by (intro get_mapping_inj [OF assms]) simp_all
  qed
  have "user_blocks s ! b \<notin> set (fbs s)" if "b < length (user_blocks s)"
    using nth_mem [OF that] by (simp add: user_blocks_def)
  then show "get_mapping_block s (int b) \<notin> int ` set (fbs s) \<inter> {..<int (reserve_begin s)}"
    using bmt_map_sound(2) [OF assms, of "user_blocks s ! b"]
    by (fastforce simp: en_mapping_eq [OF assms] split: if_splits option.splits)
qed

theorem en75_mapping_witness:
  "pub_get_mapping_block demo_en75 4 = Some 30 \<and> pub_get_mapping_block demo_en75 6 = Some 7
    \<and> pub_get_mapping_block demo_en75 27 = Some (- EINVAL)"
  using en75_mapping [OF demo_en75_sound, of 4] en75_mapping [OF demo_en75_sound, of 6]
    en75_mapping [OF demo_en75_sound, of 27]
  by (simp add: demo_user_blocks demo_bmt_map)

section \<open>Remapping\<close>

text \<open>
  C20: \<open>pub_remap_block\<close> returns for every behaviour of the driver and keeps the context sound. The mapping
  is what it was, or it has one new entry, for the block of the user area that stands for the user
  block, to a block of the reserve area that was free. It has the new entry whenever remapping is allowed
  there, the table has room, a block is free and the driver's writes succeed.
\<close>

theorem en75_remap_correct:
  assumes "en_sound s" "b < 65536" "pub_get_mapping_block s (int b) = Some p"
  shows "runs (pub_remap_block E s b (u16 p) copy_len) (pub_remapped E s b)"
  using assms by (intro pub_remap_block_spec) (simp_all add: pub_get_mapping_block_def)

theorem en75_remap_correct_witness:
  "must_remap demo_store demo_en75 6
   \<and> runs (pub_remap_block demo_store demo_en75 6 (u16 7) 128) (pub_remapped demo_store demo_en75 6)"
proof
  have "writes_ok demo_store" by (simp add: writes_ok_def demo_store_def)
  moreover have "may_remap demo_en75 6" "mt_size (en_bmt demo_en75) \<noteq> 0xff"
    by (simp_all add: may_remap_def in_remap_range_def demo_en75_defs)
  moreover have "available_info demo_en75 29"
    unfolding available_info_def by (intro exI [of _ 2]) (simp add: demo_en75_defs)
  ultimately show "must_remap demo_store demo_en75 6" by (auto simp: must_remap_def demo_user_blocks)
  have "pub_get_mapping_block demo_en75 (int 6) = Some 7"
    by (simp add: pub_get_mapping_block_def en_mapping_eq [OF demo_en75_sound, of 6, simplified] demo_user_blocks demo_bmt_map)
  then show "runs (pub_remap_block demo_store demo_en75 6 (u16 7) 128) (pub_remapped demo_store demo_en75 6)"
    by (intro en75_remap_correct [OF demo_en75_sound]) simp_all
qed

text \<open>
  C37: \<open>pub_unmap_block\<close> returns for every behaviour of the driver, keeps the context sound and removes at most
  the entry of the user block's own block.
\<close>

theorem en75_unmap_correct:
  assumes "en_sound s"
  shows "runs (pub_unmap_block E s b) (\<lambda>t. en_sound t \<and> user_blocks t = user_blocks s
    \<and> (bmt_map t = bmt_map s
       \<or> b < length (user_blocks s) \<and> bmt_map t = (bmt_map s)(user_blocks s ! b := None)))"
  by (rule runs_mono [OF pub_unmap_block_spec [OF assms]]) (auto simp: en_frame_def user_blocks_def)

theorem en75_unmap_correct_witness:
  "runs (pub_unmap_block demo_store demo_en75 4) (\<lambda>t. en_sound t \<and> user_blocks t = user_blocks demo_en75
    \<and> (bmt_map t = bmt_map demo_en75 \<or> 4 < length (user_blocks demo_en75)
       \<and> bmt_map t = (bmt_map demo_en75)(user_blocks demo_en75 ! 4 := None)))"
  by (rule en75_unmap_correct [OF demo_en75_sound])

text \<open>
  A user block behind the end of the user area that lies in a range and below the reserve area is
  reported as remapped although the mapping cannot have changed: the failed lookup is stored in
  16 unsigned bits and the check for a negative number does not see it.
\<close>

lemma remap_beyond_user_area:
  assumes "en_sound s" "may_remap s b" "length (user_blocks s) \<le> b" "b < 65536"
    "available_info s n" "mt_size (en_bmt s) \<noteq> 0xff"
  shows "runs (pub_remap_block E s b 65514 copy_len) (\<lambda>(r, t). r \<and> bmt_map t = bmt_map s)"
proof -
  have ok: "en_ok s" using assms(1) by (simp add: en_sound_def)
  have blk: "u16 (get_mapping_block_bbt s (int b)) = 65514" using user_block_word [OF assms(1), of b] assms(3) by simp
  have beyond: "\<not> 65514 < reserve_begin s" using ok by (simp add: en_ok_def)
  have "runs (pub_remap_block E s b (u16 (get_mapping_block s (int b))) copy_len) (pub_remapped E s b)"
    by (rule pub_remap_block_spec [OF assms(1) refl assms(4)])
  then have m: "runs (pub_remap_block E s b 65514 copy_len) (\<lambda>(r, t). bmt_map t = bmt_map s)"
    using assms(3) by (auto simp: en_mapping_eq [OF assms(1)] pub_remapped_def u16_def elim!: runs_mono)
  have ret: "r \<noteq> - ENOSPC" if w: "w_remap_block E s 65514 None copy_len = Some (r, t)" for r t
  proof -
    obtain q where q: "find_available_block s False = Some q" "case q of
       Inl e \<Rightarrow> e = - ENOSPC \<and> (\<forall>b \<in> set (rblocks s). bi_status b \<noteq> BS_AVAILABLE)
     | Inr i \<Rightarrow> i < length (rblocks s) \<and> bi_status (rblocks s ! i) = BS_AVAILABLE"
      using find_available_ok [OF ok, of False] by (auto simp: runs_def)
    then obtain i where i: "q = Inr i" "i < length (rblocks s)"
      using assms(5) by (cases q) (auto simp: available_info_def)
    then show ?thesis
      using w beyond assms(6) q(1)
      by (auto simp: w_remap_block_def w_make_mapping_def aget_def bind_eq_Some_conv)
  qed
  have "pub_remap_block E s b 65514 copy_len = do {
      (ret, s) \<leftarrow> w_remap_block E s 65514 None copy_len;
      (_, s) \<leftarrow> w_sync_tables E s;
      Some (ret \<noteq> - ENOSPC, s) }"
    using assms(2) blk by (simp add: pub_remap_block_def may_remap_def Let_def)
  then have "safely (pub_remap_block E s b 65514 copy_len) (\<lambda>(r, t). r)"
    using ret by (auto simp: safely_def bind_eq_Some_conv)
  then show ?thesis using m by (auto simp: safely_def runs_def)
qed

section \<open>The disk the front end presents\<close>

text \<open>
  C15: over a flash that holds what is written to it, the front end and the EcoNet manager refine an
  ideal disk of the good blocks of the user area: a read at any address gives its bytes and changes
  nothing, and a write puts its bytes there and changes no other byte of the disk.
\<close>

theorem en75_refines_disk:
  assumes "en_sound s" "stores K mem" "whole_blocks s"
    "a + len \<le> length (user_blocks s) * 2 ^ blk_shift s" "len \<le> length dat" "len < 4294967296"
  shows "runs (mtk_bmt_read K (en75_bmt_ops E) s a dat len oob 0 ooboffs) (\<lambda>(r, q, t).
      r = 0 \<and> q_retlen q = len \<and> unchanged_but mem s t
      \<and> q_dat q = slice (disk (en75_bmt_ops E) mem s) a len @ drop len dat)
    \<and> runs (mtk_bmt_write K (en75_bmt_ops E) s a dat len oob 0 ooboffs) (\<lambda>(r, q, t).
      r = 0 \<and> q_retlen q = len \<and> (\<forall>x < length (user_blocks s) * 2 ^ blk_shift s.
        disk (en75_bmt_ops E) mem t x = patch a (take len dat) (disk (en75_bmt_ops E) mem s) x))"
proof -
  note on = en75_on_disk [OF assms(1,4)]
  show ?thesis
    using en75.read_refines [OF assms(2,3) on(2) assms(5,6) on(1), of E]
      runs_mono [OF en75.write_refines [OF assms(1-3) on(2) assms(5,6) on(1)]] en75_covers [OF _ assms(1), of _ E]
    by (auto simp: wrote_disk_def)
qed

theorem en75_refines_disk_witness:
  "runs (mtk_bmt_read demo_store (en75_bmt_ops demo_store) demo_en75 500 (replicate 300 1) 300 [] 0 0)
     (\<lambda>(r, q, t). r = 0 \<and> q_retlen q = 300 \<and> unchanged_but (\<lambda>d. d) demo_en75 t
      \<and> q_dat q = slice (disk (en75_bmt_ops demo_store) (\<lambda>d. d) demo_en75) 500 300 @ drop 300 (replicate 300 1))
   \<and> runs (mtk_bmt_write demo_store (en75_bmt_ops demo_store) demo_en75 500 (replicate 300 1) 300 [] 0 0)
     (\<lambda>(r, q, t). r = 0 \<and> q_retlen q = 300 \<and> (\<forall>x < length (user_blocks demo_en75) * 2 ^ blk_shift demo_en75.
        disk (en75_bmt_ops demo_store) (\<lambda>d. d) t x =
        patch 500 (take 300 (replicate 300 1)) (disk (en75_bmt_ops demo_store) (\<lambda>d. d) demo_en75) x))"
  by (rule en75_refines_disk [OF demo_en75_sound demo_stores])
     (simp_all add: demo_user_blocks demo_fields whole_blocks_def)

section \<open>The tables\<close>




text \<open>
  C24: storing the BMT while a block of the reserve area is free succeeds: then a block marked as the one
  that holds the BMT holds an image that parses to the table in memory, whose entries are unchanged.
\<close>

theorem en75_bmt_on_flash:
  assumes "stores E mem" "en_ok s" "bmt_sized (en_bmt s)" "mt_sig (en_bmt s) = BMT_SIG" "bmt_dirty s \<noteq> 0"
    "\<exists>b \<in> set (rblocks s). bi_status b = BS_AVAILABLE"
  shows "runs (w_sync_bmt E s) (\<lambda>(ret, t). ret = 0 \<and>
    bmt_on_flash (k_big_endian E) mem t \<and> bmt_used t = bmt_used s)"
  by (rule sync_bmt_on_flash [OF assms])

theorem en75_bmt_on_flash_witness:
  "runs (w_sync_bmt demo_store demo_en75) (\<lambda>(ret, t). ret = 0 \<and>
    bmt_on_flash (k_big_endian demo_store) (\<lambda>d. d) t \<and> bmt_used t = bmt_used demo_en75)"
  by (rule en75_bmt_on_flash [OF demo_stores demo_en75_ok demo_en75_sized(1)]) (simp_all add: demo_en75_defs)

text \<open>
  C38: storing the tables is undefined when the reserve area has more than 256 blocks and the BMT has
  changed: the loop that clears the table behind its entries runs to the size of the reserve area.
\<close>

theorem en75_sync_overruns:
  assumes "nat (reserve_block_count s) = length (rblocks s)" "MAX_BMT_SIZE < length (rblocks s)"
    "length (mt_table (en_bmt s)) = MAX_BMT_SIZE" "bmt_dirty s \<noteq> 0"
  shows "w_sync_tables E s = None"
proof (cases "w_erase_pending E s")
  case (Some u)
  then have u: "same_map s u" "bmt_dirty u = bmt_dirty s"
    using w_erase_pending_count [OF assms(1), of E] by (auto simp: runs_def)
  then have "reserve_block_count u = reserve_block_count s" "length (rblocks u) = length (rblocks s)"
    "length (mt_table (en_bmt u)) = MAX_BMT_SIZE"
    using assms(3) same_map_length [OF u(1)] by (simp_all add: same_map_def same_shape_def reserve_block_count_def)
  then have "w_sync_bmt E u = None" using assms u(2) by (intro sync_bmt_overruns) simp_all
  then show ?thesis using Some by (simp add: w_sync_tables_def)
qed (simp add: w_sync_tables_def)

definition demo_large :: "(nat \<Rightarrow> byte) en75" where
  "demo_large = demo_en75\<lparr>total_blks := 285,
     rblocks := map (\<lambda>i. \<lparr>bi_index = i, bi_status = BS_AVAILABLE\<rparr>) (rev [28..<285])\<rparr>"

theorem en75_sync_overruns_witness: "w_sync_tables demo_store demo_large = None"
  by (rule en75_sync_overruns) (simp_all add: demo_large_def demo_en75_defs reserve_block_count_def en75_sizes)

section \<open>Starting\<close>

text \<open>
  C35: the scan makes the reserve area as small as it can be: its blocks are the highest ones of the chip, in
  descending order, with as many usable ones as are required and none to spare, and it fails exactly
  when all blocks but the first together have too few.
\<close>

theorem en75_scan_correct:
  assumes "pg_size s \<le> length (data_buf s)" "1 < total_blks s" "total_blks s < 65536"
  shows "runs (r_scan_reserve E True s) (\<lambda>(ret, t).
    if ret = 0 then 0 < reserve_begin t \<and> reserve_begin t < total_blks s
      \<and> map bi_index (rblocks t) = rev [reserve_begin t..<total_blks s]
      \<and> REQUIRED_GOOD_BLOCKS (total_blks s) \<le> usable (rblocks t)
      \<and> (length (rblocks t) = 1 \<or> usable (butlast (rblocks t)) < REQUIRED_GOOD_BLOCKS (total_blks s))
    else ret = - ENOSPC \<and> map bi_index (rblocks t) = rev [1..<total_blks s]
      \<and> usable (rblocks t) < REQUIRED_GOOD_BLOCKS (total_blks s))"
  by (rule runs_mono [OF scan_reserve_ok [OF assms]]) auto

definition demo_unstarted :: "(nat \<Rightarrow> byte) en75" where
  "demo_unstarted = zero_en75 (chip_desc (\<lambda>a. word_of_nat a))"

theorem en75_scan_correct_witness:
  "runs (r_scan_reserve demo_store True demo_unstarted) (\<lambda>(ret, t).
    if ret = 0 then 0 < reserve_begin t \<and> reserve_begin t < total_blks demo_unstarted
      \<and> map bi_index (rblocks t) = rev [reserve_begin t..<total_blks demo_unstarted]
      \<and> REQUIRED_GOOD_BLOCKS (total_blks demo_unstarted) \<le> usable (rblocks t)
      \<and> (length (rblocks t) = 1 \<or> usable (butlast (rblocks t)) < REQUIRED_GOOD_BLOCKS (total_blks demo_unstarted))
    else ret = - ENOSPC \<and> map bi_index (rblocks t) = rev [1..<total_blks demo_unstarted]
      \<and> usable (rblocks t) < REQUIRED_GOOD_BLOCKS (total_blks demo_unstarted))"
  by (rule en75_scan_correct) (simp_all add: demo_unstarted_def demo_en75_defs)


definition demo_np :: en75_node where
  "demo_np = \<lparr>of_assert_reserve_size = None, of_can_write_factory_bbt = True, of_factory_badblocks = None,
     of_enable_remap = False, of_partitions = [Some (0, 1024)], alloc_rblocks = True,
     alloc_ranges = (\<lambda>n. True)\<rparr>"

lemma demo_can_start: "can_start demo_unstarted demo_np"
  using demo_en75_sized
  by (simp add: can_start_def demo_unstarted_def demo_np_def demo_en75_defs bmt_sized_def bbt_sized_def en75_sizes)


text \<open>
  The start fails when no BBT was found and the device tree lists the factory bad blocks, although the
  code means to rebuild the table from the list: setting the blocks refuses a table without a version.
\<close>

theorem en75_list_without_bbt_fails:
  fixes s :: "('d, 'z) en75_scheme"
  assumes "can_start s np" "r_scan_reserve E True s = Some (0, u)" "ft_version (en_bbt u) = 0"
    "of_factory_badblocks np = Some blocks"
  shows "runs (w_init E s np) (\<lambda>(ret, t). ret \<noteq> 0)"
proof -
  have alloc: "alloc_rblocks np" "\<And>n. alloc_ranges np n" using assms(1) by (simp_all add: can_start_def)
  have u: "en_base u" using scan_reserve_base [OF assms(1), of E] assms(2) alloc(1) by simp
  have fails: "w_factory_badblocks E t blocks = Some (- EINVAL, t)" if "ft_version (en_bbt t) = 0"
    for t :: "('d, 'z) en75_scheme"
    using that by (simp add: w_factory_badblocks_def Let_def)
  define v where "v = (if of_can_write_factory_bbt np then u\<lparr>can_write_factory_bbt := True\<rparr> else u)"
  have v: "en_base v" "ft_version (en_bbt v) = 0" using u assms(3) by (simp_all add: v_def)
  obtain w where w: "w_add_ranges v np = Some w" "en_base w" "en_bbt w = en_bbt v"
    using w_add_ranges_base [OF v(1) alloc(2)] w_add_ranges_bbt [of v np] by (auto simp: runs_def)
  then obtain ret x where x: "w_find_tables E w np = Some (ret, x)" "ret \<noteq> 0 \<or> ft_version (en_bbt x) = 0"
    using find_tables_no_bbt [of w np blocks E] v(2) assms(4) by (auto simp: runs_def)
  then show ?thesis
    using assms(2,4) alloc(1) w(1) fails by (auto simp: w_init_def v_def Let_def)
qed

lemma demo_read_fdm:
  assumes "length fdm = 4"
  shows "\<exists>dat. read_fdm demo_store s i fdm = (0, replicate 4 0xff, s\<lparr>data_buf := dat\<rparr>)"
  using assms by (cases s) (simp add: read_fdm_def bbt_nand_read_def demo_store_def overlay_def Let_def)

lemma demo_classify:
  assumes "pg_size s = 64"
  shows "\<exists>st. classify_block demo_store s 0 (replicate 4 0xff) = Some (st, s) \<and> st \<noteq> BS_BAD"
  using assms
  by (simp add: classify_block_def fdm_is_bad_def fdm_is_mapped_def try_parse_bbt_def try_parse_bmt_def numeral_eq_Suc)

lemma demo_scan:
  "\<exists>u. r_scan_reserve demo_store True demo_unstarted = Some (0, u) \<and> ft_version (en_bbt u) = 0"
proof -
  have step: "\<exists>dat st. r_scan_loop (Suc c) demo_store s fdm g =
      (let t = s\<lparr>data_buf := dat, rblocks := rblocks s @ [\<lparr>bi_index = u16 (int (Suc c)), bi_status = st\<rparr>]\<rparr>
       in if 2 \<le> Suc g then Some (Suc c, t) else r_scan_loop c demo_store t (replicate 4 0xff) (Suc g))"
    if h: "length fdm = 4" "pg_size s = 64" "total_blks s = 32" for s :: "(nat \<Rightarrow> byte) en75" and c fdm g
  proof -
    obtain dat where d: "read_fdm demo_store s (Suc c) fdm = (0, replicate 4 0xff, s\<lparr>data_buf := dat\<rparr>)"
      using demo_read_fdm [OF h(1)] by blast
    obtain st where "classify_block demo_store (s\<lparr>data_buf := dat\<rparr>) 0 (replicate 4 0xff) = Some (st, s\<lparr>data_buf := dat\<rparr>)"
      "st \<noteq> BS_BAD"
      using demo_classify [of "s\<lparr>data_buf := dat\<rparr>"] h(2) by auto
    then show ?thesis
      using d h(3) by (intro exI [of _ dat] exI [of _ st]) (simp add: numeral_3_eq_3 REQUIRED_GOOD_BLOCKS_def Let_def)
  qed
  define s where "s = demo_unstarted\<lparr>rblocks := []\<rparr>"
  have s: "pg_size s = 64" "total_blks s = 32" "ft_version (en_bbt s) = 0" "total_blks demo_unstarted = 32"
    by (simp_all add: s_def demo_unstarted_def demo_en75_defs)
  obtain dat st where one: "r_scan_loop 31 demo_store s (replicate 4 0) 0 = r_scan_loop 30 demo_store
      (s\<lparr>data_buf := dat, rblocks := rblocks s @ [\<lparr>bi_index = u16 31, bi_status = st\<rparr>]\<rparr>) (replicate 4 0xff) 1"
    using step [of "replicate 4 0" s 30 0] s by (auto simp: Let_def)
  obtain t where "r_scan_loop 30 demo_store
      (s\<lparr>data_buf := dat, rblocks := rblocks s @ [\<lparr>bi_index = u16 31, bi_status = st\<rparr>]\<rparr>) (replicate 4 0xff) 1 = Some (30, t)"
    "en_bbt t = en_bbt s"
    using step [of "replicate 4 0xff"
      "s\<lparr>data_buf := dat, rblocks := rblocks s @ [\<lparr>bi_index = u16 31, bi_status = st\<rparr>]\<rparr>" 29 1] s by (auto simp: Let_def)
  then show ?thesis using one s by (simp add: r_scan_reserve_def Let_def s_def [symmetric])
qed

theorem en75_list_without_bbt_fails_witness:
  "runs (w_init demo_store demo_unstarted (demo_np\<lparr>of_factory_badblocks := Some [3]\<rparr>)) (\<lambda>(ret, t). ret \<noteq> 0)"
proof -
  obtain u where "r_scan_reserve demo_store True demo_unstarted = Some (0, u)" "ft_version (en_bbt u) = 0"
    using demo_scan by blast
  moreover have "can_start demo_unstarted (demo_np\<lparr>of_factory_badblocks := Some [3]\<rparr>)"
    using demo_can_start by (simp add: can_start_def)
  ultimately show ?thesis by (intro en75_list_without_bbt_fails) simp_all
qed

text \<open>
  Emptying the BBT erases the wrong block: when the only factory bad block is taken off the list, the code
  erases block 0 of the chip instead of it.
\<close>

theorem en75_clear_erases_block_zero:
  fixes s :: "('d, 'z) en75_scheme"
  assumes "en_base s" "ft_size (en_bbt s) = 1" "ft_version (en_bbt s) \<noteq> 0" "mt_version (en_bmt s) \<noteq> 0"
    "can_write_factory_bbt s"
  shows "\<exists>v :: ('d, 'z) en75_scheme. dev v = dev s \<and> runs (w_factory_badblocks E s [])
    (\<lambda>(ret, t). ret = 0 \<and> ft_size (en_bbt t) = 0 \<and> dev t = dev (snd (w_erase_one E v 0 True)))"
proof -
  let ?v = "s\<lparr>en_bbt := (en_bbt s)\<lparr>ft_size := 0, ft_table := (ft_table (en_bbt s))[0 := 0]\<rparr>\<rparr>"
  have sized: "bbt_sized (en_bbt s)" using assms(1) by (simp add: en_base_def)
  have one: "clear_factory_block E [] 0 s = Some (snd (w_erase_one E ?v 0 True))"
    using clear_factory_block_eq [OF sized, of 0 E "[]"] assms(2) by simp
  have "length (fbs s) = 1" using fbs_length [OF sized] assms(2) by simp
  moreover have "en_bbt (snd (w_erase_one E ?v 0 True)) = en_bbt ?v"
    by (rule io_only_context(3) [OF w_erase_one_io])
  ultimately have "runs (w_factory_badblocks E s []) (\<lambda>(ret, t). ret = 0 \<and> ft_size (en_bbt t) = 0
      \<and> dev t = dev (snd (w_erase_one E ?v 0 True)))"
    using assms(3-5) one by (simp add: w_factory_badblocks_def fbs_def Let_def sort_bbt_def)
  moreover have "dev ?v = dev s" by simp
  ultimately show ?thesis by blast
qed

theorem en75_clear_erases_block_zero_witness:
  "\<exists>v :: (nat \<Rightarrow> byte) en75. dev v = dev demo_en75 \<and> runs (w_factory_badblocks demo_store demo_en75 [])
    (\<lambda>(ret, t). ret = 0 \<and> ft_size (en_bbt t) = 0 \<and> dev t = dev (snd (w_erase_one demo_store v 0 True)))"
  by (rule en75_clear_erases_block_zero [OF demo_en75_base]) (simp_all add: demo_en75_defs)

text \<open>
  Rebuilding the BMT starts from a table that is not empty: the clearing goes from the start of the table
  with the number of bytes of the entries, so the last five entries keep what they held.
\<close>

theorem en75_rebuilt_bmt_stale:
  assumes "bmt_sized t"
  shows "empty_bmt be t = Some \<lparr>mt_sig = BMT_SIG, mt_version = 1, mt_bad_count = 0, mt_size = 0, mt_cksum = 0,
    mt_reserved = replicate 13 0, mt_table = replicate 251 zero_entry @ drop 251 (mt_table t)\<rparr>"
  by (rule empty_bmt_eq [OF assms])

theorem en75_rebuilt_bmt_stale_witness:
  "let t = demo_bmt_table\<lparr>mt_table := replicate 255 zero_entry @ [\<lparr>e_from = 5, e_to = 30\<rparr>]\<rparr>
   in map_option (\<lambda>m. last (mt_table m)) (empty_bmt True t) = Some \<lparr>e_from = 5, e_to = 30\<rparr>"
  unfolding Let_def
  by (subst en75_rebuilt_bmt_stale)
     (simp_all add: demo_bmt_table_def zero_bmt_def bmt_sized_def en75_sizes BMT_SIG_def)

text \<open>
  The ranges of the partitions are never taken over: the loop over the partitions asks the device's own
  node whether remapping is enabled, and that is known to be false there.
\<close>

theorem en75_partition_ranges_ignored:
  assumes "\<not> of_enable_remap np"
  shows "w_add_ranges s np = Some s"
  by (rule w_add_ranges_none [OF assms])

theorem en75_partition_ranges_ignored_witness:
  "w_add_ranges demo_en75 demo_np = Some demo_en75 \<and> of_partitions demo_np = [Some (0, 1024)]"
  using en75_partition_ranges_ignored [of demo_np demo_en75] by (simp add: demo_np_def)

end
