(* ===== verification/Split_Base.thy ===== *)
theory Split_Base
  imports Bmt_Disk
begin

text \<open>
  Splitting a firmware partition (\<open>target/linux/generic/files/drivers/mtd/mtdsplit/\<close>): the partition as
  the parsers see it, the result of a parser, and \<open>mtdsplit.c\<close>, which finds the root file system.
\<close>

abbreviation (input) ENOENT :: int where "ENOENT \<equiv> 2"

section \<open>The partition\<close>

text \<open>
  The fields of \<open>struct mtd_info\<close> the parsers read, and what the kernel does for them. \<open>f_read d a n\<close> is
  \<open>mtd_read\<close> of \<open>n\<close> bytes at \<open>a\<close>: its result, the number of bytes read and the bytes. \<open>f_alloc n\<close>
  tells whether the \<open>n\<close>-th allocation succeeds, \<open>f_size_t\<close> is the number of values of a \<open>size_t\<close>.
  \<open>f_offset\<close> is \<open>mtdpart_get_offset\<close> and \<open>f_master_erasesize\<close> the block size of \<open>mtd_get_master\<close>.
\<close>

record 'd flash =
  f_read :: "'d \<Rightarrow> nat \<Rightarrow> nat \<Rightarrow> int \<times> nat \<times> byte list \<times> 'd"
  f_name :: string
  f_size :: nat
  f_erasesize :: nat
  f_offset :: nat
  f_master_erasesize :: nat
  f_is_nand :: bool
  f_big_endian :: bool
  f_size_t :: nat
  f_alloc :: "nat \<Rightarrow> bool"

text \<open>A partition of the result; its offset and size are 64 bits wide.\<close>

record part =
  p_name :: string
  p_offset :: nat
  p_size :: nat
  p_mask_flags :: nat

definition mk_part :: "string \<Rightarrow> nat \<Rightarrow> nat \<Rightarrow> part" where
  "mk_part name off sz = \<lparr>p_name = name, p_offset = off, p_size = sz, p_mask_flags = 0\<rparr>"

lemma mk_part_simps [simp]: "p_name (mk_part n a b) = n" "p_offset (mk_part n a b) = a"
  "p_size (mk_part n a b) = b" "p_mask_flags (mk_part n a b) = 0"
  by (simp_all add: mk_part_def)

text \<open>A parser returns a number or an error, and the partitions it has stored for the caller.\<close>

type_synonym 'd parsed = "(int \<times> part list \<times> 'd) option"

section \<open>Numbers\<close>

definition szt :: "'d flash \<Rightarrow> int \<Rightarrow> nat" where
  "szt F i = nat (i mod int (f_size_t F))"

definition u64 :: "int \<Rightarrow> nat" where
  "u64 i = nat (i mod 18446744073709551616)"

lemma u32_of_small: "n < 4294967296 \<Longrightarrow> u32_of (int n) = n"
  by simp

lemma szt_small [simp]: "n < f_size_t F \<Longrightarrow> szt F (int n) = n"
  by (simp add: szt_def)

lemma szt_bound: "0 < f_size_t F \<Longrightarrow> szt F i < f_size_t F"
  by (simp add: szt_def nat_less_iff)

lemma u64_small [simp]: "0 \<le> i \<Longrightarrow> i < 18446744073709551616 \<Longrightarrow> u64 i = nat i"
  by (simp add: u64_def)

lemma u64_diff: "a \<le> b \<Longrightarrow> b < 18446744073709551616 \<Longrightarrow> u64 (int b - int a) = b - a"
  by (simp add: nat_diff_distrib)

definition le_at :: "nat \<Rightarrow> nat \<Rightarrow> byte list \<Rightarrow> nat" where
  "le_at n off bs = le_nat (take n (drop off bs))"

definition be_at :: "nat \<Rightarrow> nat \<Rightarrow> byte list \<Rightarrow> nat" where
  "be_at n off bs = le_nat (rev (take n (drop off bs)))"

text \<open>A field in the byte order of the CPU.\<close>

definition cpu_at :: "'d flash \<Rightarrow> nat \<Rightarrow> nat \<Rightarrow> byte list \<Rightarrow> nat" where
  "cpu_at F n off bs = (if f_big_endian F then be_at n off bs else le_at n off bs)"

lemma le_at_bound: "le_at n off bs < 256 ^ n"
proof -
  have "256 ^ length (take n (drop off bs)) \<le> (256 :: nat) ^ n" by (intro power_increasing) simp_all
  then show ?thesis using le_nat_bound [of "take n (drop off bs)"] unfolding le_at_def by linarith
qed

lemma be_at_bound: "be_at n off bs < 256 ^ n"
proof -
  have "256 ^ length (rev (take n (drop off bs))) \<le> (256 :: nat) ^ n" by (intro power_increasing) simp_all
  then show ?thesis using le_nat_bound [of "rev (take n (drop off bs))"] unfolding be_at_def by linarith
qed

section \<open>mtdsplit.c\<close>

datatype part_type = PART_TYPE_UNK | PART_TYPE_SQUASHFS | PART_TYPE_JFFS2 | PART_TYPE_UBI

definition SQUASHFS_MAGIC :: nat where "SQUASHFS_MAGIC = 0x73717368"
definition UBI_EC_MAGIC :: nat where "UBI_EC_MAGIC = 0x55424923"

text \<open>
  The kernel's \<open>mtd_div_by_eb\<close> and the size of a block are 32 bits wide, and so are their products, whatever
  the width of the result.
\<close>

definition mtd_rounddown_to_eb :: "nat \<Rightarrow> 'd flash \<Rightarrow> nat" where
  "mtd_rounddown_to_eb sz F =
     (if sz mod f_erasesize F = 0 then sz
      else u32_of (int (u32_of (int (sz div f_erasesize F)) * f_erasesize F)))"

definition mtd_roundup_to :: "nat \<Rightarrow> nat \<Rightarrow> nat" where
  "mtd_roundup_to sz es =
     (if sz mod es = 0 then sz else u32_of (int (u32_of (int (u32_of (int (sz div es)) + 1)) * es)))"

definition mtd_roundup_to_eb :: "nat \<Rightarrow> 'd flash \<Rightarrow> nat" where
  "mtd_roundup_to_eb sz F = mtd_roundup_to sz (f_erasesize F)"

lemma mtd_rounddown_small:
  assumes "sz < 4294967296"
  shows "mtd_rounddown_to_eb sz F = sz div f_erasesize F * f_erasesize F"
proof -
  have "sz div f_erasesize F < 4294967296" "sz div f_erasesize F * f_erasesize F < 4294967296"
    using assms div_le_dividend [of sz "f_erasesize F"] div_times_less_eq_dividend [of sz "f_erasesize F"]
    by linarith+
  then show ?thesis
    by (auto simp: mtd_rounddown_to_eb_def u32_of_small simp del: of_nat_mult of_nat_div)
qed

lemma mtd_roundup_small:
  assumes "0 < es" "sz + es < 4294967296" "sz mod es \<noteq> 0"
  shows "mtd_roundup_to sz es = (sz div es + 1) * es"
proof -
  have "sz div es \<le> sz" "sz div es * es \<le> sz" by simp_all
  then have "sz div es + 1 < 4294967296" "(sz div es + 1) * es < 4294967296"
    using assms unfolding add_mult_distrib by linarith+
  then show ?thesis using assms(3)
    by (simp add: mtd_roundup_to_def u32_of_small del: of_nat_mult of_nat_div of_nat_Suc of_nat_add mult_Suc
        add_mult_distrib Suc_eq_plus1)
qed

text \<open>The kernel's \<open>round_up\<close>.\<close>

definition roundup_to :: "nat \<Rightarrow> nat \<Rightarrow> nat" where
  "roundup_to sz es = (if sz mod es = 0 then sz else (sz div es + 1) * es)"

definition mtd_next_eb :: "'d flash \<Rightarrow> nat \<Rightarrow> nat" where
  "mtd_next_eb F offset = szt F (int (mtd_rounddown_to_eb offset F + f_erasesize F))"

text \<open>
  Reading a structure: an error of \<open>mtd_read\<close> is returned, a short read is \<open>-EIO\<close>. Most parsers do it
  in this way.
\<close>

definition read_struct :: "'d flash \<Rightarrow> 'd \<Rightarrow> nat \<Rightarrow> nat \<Rightarrow> (int + byte list) \<times> 'd" where
  "read_struct F d a n =
     (let (err, retlen, bs, d) = f_read F d a n
      in if err \<noteq> 0 then (Inl err, d) else if retlen \<noteq> n then (Inl (- EIO), d) else (Inr bs, d))"

definition mtd_get_squashfs_len :: "'d flash \<Rightarrow> 'd \<Rightarrow> nat \<Rightarrow> (int + nat) \<times> 'd" where
  "mtd_get_squashfs_len F d offset =
     (case read_struct F d offset 48 of
        (Inl _, d) \<Rightarrow> (Inl (- EIO), d)
      | (Inr sb, d) \<Rightarrow>
          if le_at 4 0 sb \<noteq> SQUASHFS_MAGIC then (Inl (- EINVAL), d)
          else let retlen = szt F (int (le_at 8 40 sb)) in
            if retlen = 0 then (Inl (- ENOENT), d)
            else if szt F (int (offset + retlen)) > f_size F then (Inl (- EINVAL), d)
            else (Inr retlen, d))"

definition rootfs_type :: "'d flash \<Rightarrow> byte list \<Rightarrow> part_type option" where
  "rootfs_type F magic =
     (if le_at 4 0 magic = SQUASHFS_MAGIC then Some PART_TYPE_SQUASHFS
      else if cpu_at F 4 0 magic = 0x19852003 then Some PART_TYPE_JFFS2
      else if be_at 4 0 magic = UBI_EC_MAGIC then Some PART_TYPE_UBI
      else None)"

definition mtd_check_rootfs_magic :: "'d flash \<Rightarrow> 'd \<Rightarrow> nat \<Rightarrow> (int + part_type) \<times> 'd" where
  "mtd_check_rootfs_magic F d offset =
     (case read_struct F d offset 4 of
        (Inl e, d) \<Rightarrow> (Inl e, d)
      | (Inr magic, d) \<Rightarrow> (case rootfs_type F magic of Some ty \<Rightarrow> (Inr ty, d) | None \<Rightarrow> (Inl (- EINVAL), d)))"

partial_function (option) find_rootfs_loop ::
  "'d flash \<Rightarrow> 'd \<Rightarrow> nat \<Rightarrow> nat \<Rightarrow> ((int + nat \<times> part_type) \<times> 'd) option" where
  "find_rootfs_loop F d offset limit =
     (if offset < limit then
        (case mtd_check_rootfs_magic F d offset of
           (Inl _, d) \<Rightarrow> find_rootfs_loop F d (mtd_next_eb F offset) limit
         | (Inr ty, d) \<Rightarrow> Some (Inr (offset, ty), d))
      else Some (Inl (- ENOENT), d))"

text \<open>\<open>from\<close> and \<open>limit\<close> are of the type \<open>size_t\<close>.\<close>

definition mtd_find_rootfs_from ::
  "'d flash \<Rightarrow> 'd \<Rightarrow> nat \<Rightarrow> nat \<Rightarrow> ((int + nat \<times> part_type) \<times> 'd) option" where
  "mtd_find_rootfs_from F d from limit = find_rootfs_loop F d (szt F (int from)) (szt F (int limit))"

section \<open>Scanning erase blocks\<close>

text \<open>
  The loop \<open>for (offset = 0; offset < size; offset += erasesize)\<close> of several parsers. Its body gives the
  variables that are used behind the loop, and whether the loop is left.
\<close>

partial_function (option) eb_scan ::
  "'d flash \<Rightarrow> (nat \<Rightarrow> 'd \<Rightarrow> ('r \<times> bool) \<times> 'd) \<Rightarrow> nat \<Rightarrow> 'r \<Rightarrow> 'd \<Rightarrow> (nat \<times> 'r \<times> 'd) option" where
  "eb_scan F body offset r d =
     (if offset < f_size F then
        (case body offset d of
           ((r, stop), d) \<Rightarrow>
             if stop then Some (offset, r, d)
             else eb_scan F body (szt F (int (offset + f_erasesize F))) r d)
      else Some (offset, r, d))"

end
