(* ===== verification/Split_Search.thy ===== *)
theory Split_Search
  imports Split_Base
begin

text \<open>
  The search for the root file system and the scan over erase blocks: both end on a partition whose
  size leaves room for a block in a \<open>size_t\<close>, and the search finds the first candidate.
\<close>

section \<open>The partition and its driver\<close>

text \<open>
  \<open>mtd_read\<close> does not read beyond the partition and its errors are negative; \<open>reads_mem\<close> is a driver that never fails over a flash
  that holds \<open>mem\<close>.
\<close>

definition flash_ok :: "'d flash \<Rightarrow> bool" where
  "flash_ok F \<longleftrightarrow> 0 < f_erasesize F \<and> f_size F + f_erasesize F < 4294967296
     \<and> 4294967296 \<le> f_size_t F \<and> f_size_t F \<le> 18446744073709551616"

definition reads_within :: "'d flash \<Rightarrow> bool" where
  "reads_within F \<longleftrightarrow> (\<forall>d a n. case f_read F d a n of (err, retlen, bs, d') \<Rightarrow>
     err \<le> 0 \<and> (err = 0 \<longrightarrow> retlen = n \<longrightarrow> length bs = n \<and> (0 < n \<longrightarrow> a + n \<le> f_size F)))"

definition reads_mem :: "'d flash \<Rightarrow> (nat \<Rightarrow> byte) \<Rightarrow> bool" where
  "reads_mem F mem \<longleftrightarrow> (\<forall>d a n. case f_read F d a n of (err, retlen, bs, d') \<Rightarrow>
     if n = 0 \<or> a + n \<le> f_size F then err = 0 \<and> retlen = n \<and> bs = slice mem a n else err < 0)"

lemma reads_mem_within: "reads_mem F mem \<Longrightarrow> reads_within F"
  unfolding reads_within_def
proof (intro allI)
  fix d a n assume "reads_mem F mem"
  obtain err retlen bs d' where r: "f_read F d a n = (err, retlen, bs, d')" by (metis prod_cases4)
  have "if n = 0 \<or> a + n \<le> f_size F then err = 0 \<and> retlen = n \<and> bs = slice mem a n else err < 0"
    using \<open>reads_mem F mem\<close> r unfolding reads_mem_def by (metis (mono_tags, lifting) case_prod_conv)
  then show "case f_read F d a n of (err, retlen, bs, d') \<Rightarrow>
     err \<le> 0 \<and> (err = 0 \<longrightarrow> retlen = n \<longrightarrow> length bs = n \<and> (0 < n \<longrightarrow> a + n \<le> f_size F))"
    using r by (auto split: if_splits)
qed

lemma read_struct_within:
  assumes "reads_within F" "read_struct F d a n = (Inr bs, d')" "0 < n"
  shows "length bs = n" "a + n \<le> f_size F"
proof -
  obtain err retlen x d2 where r: "f_read F d a n = (err, retlen, x, d2)" by (metis prod_cases4)
  have "err = 0 \<longrightarrow> retlen = n \<longrightarrow> length x = n \<and> a + n \<le> f_size F"
    using assms(1,3) r unfolding reads_within_def by (metis (mono_tags, lifting) case_prod_conv)
  then show "length bs = n" "a + n \<le> f_size F"
    using assms(2) r by (auto simp: read_struct_def split: if_splits)
qed

lemma read_struct_error:
  assumes "reads_within F" "read_struct F d a n = (Inl e, d')"
  shows "e < 0"
proof -
  obtain err retlen x d2 where r: "f_read F d a n = (err, retlen, x, d2)" by (metis prod_cases4)
  have "err \<le> 0" using assms(1) r unfolding reads_within_def by (metis (mono_tags, lifting) case_prod_conv)
  then show ?thesis using assms(2) r by (auto simp: read_struct_def split: if_splits)
qed

lemma read_struct_mem:
  assumes "reads_mem F mem" "0 < n"
  obtains d' where "a + n \<le> f_size F" "read_struct F d a n = (Inr (slice mem a n), d')"
  | e d' where "\<not> a + n \<le> f_size F" "read_struct F d a n = (Inl e, d')" "e < 0"
proof -
  obtain err retlen x d2 where r: "f_read F d a n = (err, retlen, x, d2)" by (metis prod_cases4)
  have "if a + n \<le> f_size F then err = 0 \<and> retlen = n \<and> x = slice mem a n else err < 0"
    using assms r unfolding reads_mem_def by (metis (mono_tags, lifting) case_prod_conv not_gr_zero)
  then show ?thesis
    using that r by (cases "a + n \<le> f_size F") (auto simp: read_struct_def)
qed

section \<open>The candidates\<close>

text \<open>The search looks at its start and at the start of every later erase block.\<close>

definition candidate :: "'d flash \<Rightarrow> nat \<Rightarrow> nat \<Rightarrow> bool" where
  "candidate F from c \<longleftrightarrow> c = from \<or> from < c \<and> f_erasesize F dvd c"

definition rootfs_at :: "'d flash \<Rightarrow> (nat \<Rightarrow> byte) \<Rightarrow> nat \<Rightarrow> part_type option" where
  "rootfs_at F mem c = (if c + 4 \<le> f_size F then rootfs_type F (slice mem c 4) else None)"

lemma next_eb:
  assumes "flash_ok F" "offset < f_size F"
  shows "mtd_next_eb F offset = (offset div f_erasesize F + 1) * f_erasesize F"
    "offset < mtd_next_eb F offset" "mtd_next_eb F offset \<le> offset + f_erasesize F"
proof -
  let ?e = "f_erasesize F"
  have e: "0 < ?e" "f_size F + ?e \<le> f_size_t F" using assms(1) by (simp_all add: flash_ok_def)
  have r: "mtd_rounddown_to_eb offset F = offset div ?e * ?e"
    using assms by (intro mtd_rounddown_small) (simp add: flash_ok_def)
  have d: "offset div ?e * ?e + offset mod ?e = offset" by simp
  have m: "offset mod ?e < ?e" using e(1) by simp
  have "offset div ?e * ?e + ?e < f_size_t F" using d e(2) assms(2) by linarith
  then show n: "mtd_next_eb F offset = (offset div ?e + 1) * ?e"
    by (simp add: mtd_next_eb_def r algebra_simps del: of_nat_add of_nat_mult)
  show "offset < mtd_next_eb F offset" "mtd_next_eb F offset \<le> offset + ?e"
    using d m n add_mult_distrib [of "offset div ?e" 1 ?e] by linarith+
qed

lemma between_ebs:
  assumes "flash_ok F" "offset < f_size F" "candidate F offset c" "c \<noteq> offset"
  shows "candidate F (mtd_next_eb F offset) c"
proof -
  let ?e = "f_erasesize F"
  have c: "offset < c" "?e dvd c" using assms(3,4) by (auto simp: candidate_def)
  then obtain k where k: "c = k * ?e" by (metis dvdE mult.commute)
  have e: "0 < ?e" using assms(1) by (simp add: flash_ok_def)
  have "offset div ?e < k" using c(1) unfolding k by (simp add: div_less_iff_less_mult [OF e])
  then have "(offset div ?e + 1) * ?e \<le> c" unfolding k by (intro mult_le_mono1) simp
  then show ?thesis using next_eb(1) [OF assms(1,2)] c(2) by (auto simp: candidate_def)
qed

lemma after_eb:
  assumes "flash_ok F" "offset < f_size F" "candidate F (mtd_next_eb F offset) c"
  shows "candidate F offset c" "offset < c"
  using assms(3) next_eb [OF assms(1,2)] by (auto simp: candidate_def)

section \<open>The search\<close>

definition found :: "'d flash \<Rightarrow> nat \<Rightarrow> nat \<Rightarrow> int + nat \<times> part_type \<Rightarrow> bool" where
  "found F from limit r \<longleftrightarrow> (case r of Inl e \<Rightarrow> e = - ENOENT
     | Inr (c, ty) \<Rightarrow> candidate F from c \<and> c < limit \<and> c + 4 \<le> f_size F)"

lemma check_rootfs_within:
  assumes "reads_within F" "mtd_check_rootfs_magic F d c = (Inr ty, d')"
  shows "c + 4 \<le> f_size F"
  using assms read_struct_within(2) [OF assms(1), of d c 4]
  by (auto simp: mtd_check_rootfs_magic_def split: sum.splits prod.splits)

lemma check_rootfs_error:
  assumes "reads_within F" "mtd_check_rootfs_magic F d c = (Inl e, d')"
  shows "e < 0"
  using assms read_struct_error [OF assms(1)]
  by (auto simp: mtd_check_rootfs_magic_def split: sum.splits prod.splits option.splits)

lemma find_loop_ends:
  assumes "flash_ok F" "limit \<le> f_size F" "reads_within F"
  shows "runs (find_rootfs_loop F d offset limit) (\<lambda>(r, d). found F offset limit r)"
proof (induction "limit - offset" arbitrary: offset d rule: less_induct)
  case less
  show ?case
  proof (cases "offset < limit")
    case True
    then have o: "offset < f_size F" using assms(2) by simp
    obtain r d' where r: "mtd_check_rootfs_magic F d offset = (r, d')" by fastforce
    show ?thesis
    proof (cases r)
      case (Inl e)
      have "runs (find_rootfs_loop F d' (mtd_next_eb F offset) limit) (\<lambda>(r, d). found F (mtd_next_eb F offset) limit r)"
        using next_eb(2) [OF assms(1) o] True by (intro less.hyps) linarith
      then have "runs (find_rootfs_loop F d' (mtd_next_eb F offset) limit) (\<lambda>(r, d). found F offset limit r)"
        by (rule runs_mono) (auto simp: found_def dest: after_eb(1) [OF assms(1) o] split: sum.splits)
      then show ?thesis using True r Inl by (subst find_rootfs_loop.simps) simp
    next
      case (Inr ty)
      then have "offset + 4 \<le> f_size F" using check_rootfs_within [OF assms(3)] r by simp
      then show ?thesis
        using True r Inr by (subst find_rootfs_loop.simps) (simp add: found_def candidate_def)
    qed
  next
    case False
    then show ?thesis by (subst find_rootfs_loop.simps) (simp add: found_def)
  qed
qed

lemma find_rootfs_ends:
  assumes "flash_ok F" "reads_within F" "from < f_size_t F"
  shows "runs (mtd_find_rootfs_from F d from (f_size F)) (\<lambda>(r, d). found F from (f_size F) r)"
proof -
  have "szt F (int (f_size F)) = f_size F" "szt F (int from) = from" using assms by (simp_all add: flash_ok_def)
  then show ?thesis using find_loop_ends [OF assms(1) order_refl assms(2)] by (simp add: mtd_find_rootfs_from_def)
qed

text \<open>Over a flash that holds \<open>mem\<close> the first candidate with a magic number is found.\<close>

definition first_rootfs :: "'d flash \<Rightarrow> (nat \<Rightarrow> byte) \<Rightarrow> nat \<Rightarrow> nat \<Rightarrow> int + nat \<times> part_type \<Rightarrow> bool" where
  "first_rootfs F mem from limit r \<longleftrightarrow> (case r of
     Inl e \<Rightarrow> e = - ENOENT \<and> (\<forall>c < limit. candidate F from c \<longrightarrow> rootfs_at F mem c = None)
   | Inr (c, ty) \<Rightarrow> candidate F from c \<and> c < limit \<and> rootfs_at F mem c = Some ty
       \<and> (\<forall>b < c. candidate F from b \<longrightarrow> rootfs_at F mem b = None))"

lemma check_rootfs_mem:
  assumes "reads_mem F mem"
  obtains ty d' where "mtd_check_rootfs_magic F d c = (Inr ty, d')" "rootfs_at F mem c = Some ty"
  | e d' where "mtd_check_rootfs_magic F d c = (Inl e, d')" "rootfs_at F mem c = None" "e < 0"
proof (cases rule: read_struct_mem [OF assms zero_less_numeral [of "num.Bit0 (num.Bit0 num.One)"], of c d,
    case_names inside beyond])
  case (inside d')
  then show ?thesis
    using that by (cases "rootfs_type F (slice mem c 4)") (auto simp: mtd_check_rootfs_magic_def rootfs_at_def)
next
  case (beyond e d')
  then show ?thesis using that by (auto simp: mtd_check_rootfs_magic_def rootfs_at_def)
qed

lemma find_loop_first:
  assumes "flash_ok F" "limit \<le> f_size F" "reads_mem F mem"
  shows "runs (find_rootfs_loop F d offset limit) (\<lambda>(r, d). first_rootfs F mem offset limit r)"
proof (induction "limit - offset" arbitrary: offset d rule: less_induct)
  case less
  show ?case
  proof (cases "offset < limit")
    case True
    then have o: "offset < f_size F" using assms(2) by simp
    show ?thesis
    proof (cases rule: check_rootfs_mem [OF assms(3), of d offset, case_names yes no])
      case (yes ty d')
      have "\<not> candidate F offset b" if "b < offset" for b using that by (auto simp: candidate_def)
      then show ?thesis
        using True yes by (subst find_rootfs_loop.simps) (auto simp: first_rootfs_def candidate_def)
    next
      case (no e d')
      have "runs (find_rootfs_loop F d' (mtd_next_eb F offset) limit) (\<lambda>(r, d). first_rootfs F mem (mtd_next_eb F offset) limit r)"
        using next_eb(2) [OF assms(1) o] True by (intro less.hyps) linarith
      moreover have "first_rootfs F mem offset limit r" if "first_rootfs F mem (mtd_next_eb F offset) limit r" for r
      proof -
        have "rootfs_at F mem c = None" if "candidate F offset c" "candidate F (mtd_next_eb F offset) c \<Longrightarrow> rootfs_at F mem c = None" for c
          using that no(2) between_ebs [OF assms(1) o] by (cases "c = offset") auto
        then show ?thesis
          using that after_eb [OF assms(1) o] by (auto simp: first_rootfs_def split: sum.splits)
      qed
      ultimately have "runs (find_rootfs_loop F d' (mtd_next_eb F offset) limit) (\<lambda>(r, d). first_rootfs F mem offset limit r)"
        by (auto elim!: runs_mono)
      then show ?thesis using True no(1) by (subst find_rootfs_loop.simps) simp
    qed
  next
    case False
    have "\<not> candidate F offset c" if "c < limit" for c using that False by (auto simp: candidate_def)
    then show ?thesis using False by (subst find_rootfs_loop.simps) (simp add: first_rootfs_def)
  qed
qed

lemma find_rootfs_first:
  assumes "flash_ok F" "reads_mem F mem" "from < f_size_t F"
  shows "runs (mtd_find_rootfs_from F d from (f_size F)) (\<lambda>(r, d). first_rootfs F mem from (f_size F) r)"
proof -
  have "szt F (int (f_size F)) = f_size F" "szt F (int from) = from" using assms by (simp_all add: flash_ok_def)
  then show ?thesis using find_loop_first [OF assms(1) order_refl assms(2)] by (simp add: mtd_find_rootfs_from_def)
qed

section \<open>The scan\<close>

text \<open>
  A scan ends at the block at which its body stops, or behind the partition with what the body left for
  the last block.
\<close>

lemma eb_scan_runs:
  assumes "flash_ok F" "f_erasesize F dvd offset" "offset < f_size F + f_erasesize F"
    "\<And>c d r stop d'. c < f_size F \<Longrightarrow> f_erasesize F dvd c \<Longrightarrow> body c d = ((r, stop), d') \<Longrightarrow>
       (if stop then Q c r d' else I r d')"
    "\<And>c r d. I r d \<Longrightarrow> f_size F \<le> c \<Longrightarrow> c < f_size F + f_erasesize F \<Longrightarrow> Q c r d"
    "I r d"
  shows "runs (eb_scan F body offset r d) (\<lambda>(c, r, d). Q c r d)"
  using assms(2,3,6)
proof (induction "f_size F - offset" arbitrary: offset r d rule: less_induct)
  case less
  show ?case
  proof (cases "offset < f_size F")
    case True
    obtain r' stop d' where b: "body offset d = ((r', stop), d')" by (metis surj_pair)
    note post = assms(4) [OF True less.prems(1) b]
    have e: "0 < f_erasesize F" "f_size F + f_erasesize F \<le> f_size_t F" using assms(1) by (simp_all add: flash_ok_def)
    then have n: "szt F (int (offset + f_erasesize F)) = offset + f_erasesize F"
      using True by (simp del: of_nat_add)
    have "runs (eb_scan F body (offset + f_erasesize F) r' d') (\<lambda>(c, r, d). Q c r d)" if "\<not> stop"
      using True e less.prems(1) post that by (intro less.hyps) simp_all
    then show ?thesis using True b post n by (subst eb_scan.simps) (auto simp del: of_nat_add)
  next
    case False
    then show ?thesis using less.prems assms(5) by (subst eb_scan.simps) simp
  qed
qed

end
