(* ===== verification/Split_Fixed.thy ===== *)
theory Split_Fixed
  imports Split_Search "HOL-Library.Signed_Division"
begin

text \<open>
  The parsers whose header stands at the start of the partition: \<open>mtdsplit_squashfs.c\<close>,
  \<open>mtdsplit_lzma.c\<close>, \<open>mtdsplit_seama.c\<close>, \<open>mtdsplit_wrgg.c\<close>, \<open>mtdsplit_tplink.c\<close>, \<open>mtdsplit_eva.c\<close>,
  \<open>mtdsplit_brnimage.c\<close>, \<open>mtdsplit_minor.c\<close>, \<open>mtdsplit_h3c_vfs.c\<close>, \<open>mtdsplit_cfe_bootfs.c\<close>,
  \<open>mtdsplit_owrt_prolog.c\<close> and \<open>mtdsplit_seil.c\<close>. Fields are read from the bytes of the header at
  their offsets.
\<close>

section \<open>Results\<close>

definition rootfs_name :: "part_type \<Rightarrow> string" where
  "rootfs_name ty = (if ty = PART_TYPE_UBI then ''ubi'' else ''rootfs'')"

text \<open>The partition cut in two at \<open>ro\<close>; \<open>n\<close> is the number of the allocation.\<close>

definition split_parts :: "'d flash \<Rightarrow> string \<Rightarrow> nat \<Rightarrow> string \<Rightarrow> nat \<Rightarrow> part list" where
  "split_parts F kname ksize root ro =
     [mk_part kname 0 ksize, mk_part root ro (u64 (int (f_size F) - int ro))]"

definition give_parts :: "'d flash \<Rightarrow> nat \<Rightarrow> part list \<Rightarrow> 'd \<Rightarrow> int \<times> part list \<times> 'd" where
  "give_parts F n ps d = (if f_alloc F n then (int (length ps), ps, d) else (- ENOMEM, [], d))"

text \<open>The search from \<open>from\<close> to the end of the partition, whose error is returned.\<close>

definition with_rootfs ::
  "'d flash \<Rightarrow> 'd \<Rightarrow> nat \<Rightarrow> (nat \<Rightarrow> part_type \<Rightarrow> 'd \<Rightarrow> int \<times> part list \<times> 'd) \<Rightarrow> 'd parsed" where
  "with_rootfs F d from k =
     do {
       (r, d) \<leftarrow> mtd_find_rootfs_from F d from (f_size F);
       Some (case r of Inl e \<Rightarrow> (e, [], d) | Inr (ro, ty) \<Rightarrow> k ro ty d)
     }"

section \<open>squashfs\<close>

definition mtdsplit_parse_squashfs :: "'d flash \<Rightarrow> 'd \<Rightarrow> 'd parsed" where
  "mtdsplit_parse_squashfs F d =
     Some (case mtd_get_squashfs_len F d 0 of
       (Inl e, d) \<Rightarrow> (e, [], d)
     | (Inr squashfs_len, d) \<Rightarrow>
         let part_offset = szt F (int (f_offset F));
             off = u64 (int (u64 (int (mtd_roundup_to (szt F (int (part_offset + squashfs_len)))
                                         (f_master_erasesize F)))) - int part_offset);
             sz = mtd_rounddown_to_eb (u64 (int (f_size F) - int off)) F
         in give_parts F 0 [mk_part ''rootfs_data'' off sz] d)"

section \<open>LZMA\<close>

definition is_power_of_2 :: "nat \<Rightarrow> bool" where
  "is_power_of_2 t \<longleftrightarrow> t \<noteq> 0 \<and> and t (t - 1) = 0"

definition mtdsplit_parse_lzma :: "'d flash \<Rightarrow> 'd \<Rightarrow> 'd parsed" where
  "mtdsplit_parse_lzma F d =
     (case read_struct F d 0 13 of
        (Inl e, d) \<Rightarrow> Some (e, [], d)
      | (Inr hdr, d) \<Rightarrow>
          if le_at 1 0 hdr \<ge> 9 * 5 * 5 then Some (- EINVAL, [], d)
          else if \<not> is_power_of_2 (le_at 4 1 hdr) then Some (- EINVAL, [], d)
          else if le_at 4 9 hdr \<noteq> 0 then Some (- EINVAL, [], d)
          else with_rootfs F d (f_erasesize F)
                 (\<lambda>ro ty d. give_parts F 0 (split_parts F ''kernel'' ro ''rootfs'' ro) d))"

section \<open>Seama\<close>

definition SEAMA_MAGIC :: nat where "SEAMA_MAGIC = 0x5EA3A417"
definition MIN_ROOTFS_OFFS :: nat where "MIN_ROOTFS_OFFS = 0x80000"

definition seama_parts :: "'d flash \<Rightarrow> nat \<Rightarrow> nat \<Rightarrow> part_type \<Rightarrow> 'd \<Rightarrow> int \<times> part list \<times> 'd" where
  "seama_parts F metasize ro ty d =
     give_parts F 0 [mk_part ''kernel'' (28 + metasize) (u64 (int ro - int (28 + metasize))),
       mk_part (rootfs_name ty) ro (u64 (int (f_size F) - int ro))] d"

definition mtdsplit_parse_seama :: "'d flash \<Rightarrow> 'd \<Rightarrow> 'd parsed" where
  "mtdsplit_parse_seama F d =
     (case read_struct F d 0 28 of
        (Inl e, d) \<Rightarrow> Some (e, [], d)
      | (Inr hdr, d) \<Rightarrow>
          if be_at 4 0 hdr \<noteq> SEAMA_MAGIC then Some (- EINVAL, [], d)
          else
            let metasize = be_at 2 6 hdr;
                kernel_ent_size = szt F (int (28 + be_at 4 8 hdr + metasize))
            in if kernel_ent_size > f_size F then Some (- EINVAL, [], d)
               else (case mtd_check_rootfs_magic F d kernel_ent_size of
                   (Inr ty, d) \<Rightarrow> Some (seama_parts F metasize kernel_ent_size ty d)
                 | (Inl _, d) \<Rightarrow> with_rootfs F d MIN_ROOTFS_OFFS (seama_parts F metasize)))"

section \<open>WRGG\<close>

definition WRGG03_MAGIC :: nat where "WRGG03_MAGIC = 0x20080321"
definition WRG_MAGIC :: nat where "WRG_MAGIC = 0x20040220"

text \<open>The size of the kernel entity, \<open>None\<close> for \<open>-EINVAL\<close>; the headers have 160 and 96 bytes.\<close>

definition wrgg_size :: "'d flash \<Rightarrow> byte list \<Rightarrow> nat option" where
  "wrgg_size F hdr =
     (if le_at 4 32 hdr = WRGG03_MAGIC then
        let be = szt F (int (160 + be_at 4 104 hdr));
            n = (if be > f_size F then szt F (int (160 + le_at 4 104 hdr)) else be)
        in if n > f_size F then None else Some n
      else if le_at 4 32 hdr = WRG_MAGIC then Some (szt F (int (96 + le_at 4 40 hdr)))
      else None)"

definition mtdsplit_parse_wrgg :: "'d flash \<Rightarrow> 'd \<Rightarrow> 'd parsed" where
  "mtdsplit_parse_wrgg F d =
     (case read_struct F d 0 160 of
        (Inl e, d) \<Rightarrow> Some (e, [], d)
      | (Inr hdr, d) \<Rightarrow>
          (case wrgg_size F hdr of
             None \<Rightarrow> Some (- EINVAL, [], d)
           | Some n \<Rightarrow>
               if n > f_size F then Some (- EINVAL, [], d)
               else with_rootfs F d MIN_ROOTFS_OFFS
                      (\<lambda>ro ty d. give_parts F 0 (split_parts F ''kernel'' ro ''rootfs'' ro) d)))"

section \<open>TP-Link\<close>

text \<open>The size of the kernel and the place of the root file system, \<open>None\<close> for \<open>-EINVAL\<close>.\<close>

definition tplink_header :: "'d flash \<Rightarrow> byte list \<Rightarrow> (nat \<times> nat) option" where
  "tplink_header F hdr =
     (if le_at 4 0 hdr = 1 then
        if be_at 4 128 hdr \<noteq> 512 then None
        else Some (szt F (int (512 + be_at 4 132 hdr)), be_at 4 136 hdr)
      else if le_at 4 0 hdr = 2 \<or> le_at 4 0 hdr = 3 then
        if be_at 4 116 hdr \<noteq> 512 then None
        else Some (szt F (int (512 + be_at 4 120 hdr)), be_at 4 124 hdr)
      else None)"

definition mtdsplit_parse_tplink :: "'d flash \<Rightarrow> 'd \<Rightarrow> 'd parsed" where
  "mtdsplit_parse_tplink F d =
     (case read_struct F d 0 512 of
        (Inl e, d) \<Rightarrow> Some (e, [], d)
      | (Inr hdr, d) \<Rightarrow>
          (case tplink_header F hdr of
             None \<Rightarrow> Some (- EINVAL, [], d)
           | Some (kernel_size, rootfs_offset) \<Rightarrow>
               if kernel_size > f_size F then Some (- EINVAL, [], d)
               else (case mtd_check_rootfs_magic F d rootfs_offset of
                   (Inr _, d) \<Rightarrow>
                     Some (give_parts F 0 (split_parts F ''kernel'' kernel_size ''rootfs'' rootfs_offset) d)
                 | (Inl _, d) \<Rightarrow> with_rootfs F d MIN_ROOTFS_OFFS
                     (\<lambda>ro ty d. give_parts F 0 (split_parts F ''kernel'' kernel_size ''rootfs'' ro) d))))"

section \<open>EVA\<close>

definition EVA_MAGIC :: nat where "EVA_MAGIC = 0xfeed1281"

definition mtdsplit_parse_eva :: "'d flash \<Rightarrow> 'd \<Rightarrow> 'd parsed" where
  "mtdsplit_parse_eva F d =
     (case read_struct F d 0 8 of
        (Inl e, d) \<Rightarrow> Some (e, [], d)
      | (Inr hdr, d) \<Rightarrow>
          if le_at 4 0 hdr \<noteq> EVA_MAGIC then Some (- EINVAL, [], d)
          else
            let kernel_size = u32_of (int (le_at 4 4 hdr + 0x18));
                rootfs_offset = szt F (int (szt F (int (roundup_to kernel_size 0x10000)) + 0x100))
            in if rootfs_offset \<ge> f_size F then Some (- EINVAL, [], d)
               else (case mtd_check_rootfs_magic F d rootfs_offset of
                   (Inl e, d) \<Rightarrow> Some (e, [], d)
                 | (Inr _, d) \<Rightarrow>
                     Some (give_parts F 0 (split_parts F ''kernel'' kernel_size ''rootfs'' rootfs_offset) d)))"

section \<open>brnImage\<close>

text \<open>The last result of the check and the offset at which the loop is left.\<close>

partial_function (option) brn_loop :: "'d flash \<Rightarrow> 'd \<Rightarrow> nat \<Rightarrow> int \<Rightarrow> (int \<times> nat \<times> 'd) option" where
  "brn_loop F d rootfs_offset ret =
     (if rootfs_offset < f_size F then
        (case mtd_check_rootfs_magic F d rootfs_offset of
           (Inr _, d) \<Rightarrow> Some (0, rootfs_offset, d)
         | (Inl e, d) \<Rightarrow> brn_loop F d (szt F (int (rootfs_offset + 0x400))) e)
      else Some (ret, rootfs_offset, d))"

definition mtdsplit_parse_brnimage :: "'d flash \<Rightarrow> 'd \<Rightarrow> 'd parsed" where
  "mtdsplit_parse_brnimage F d =
     do {
       (ret, rootfs_offset, d) \<leftarrow> brn_loop F d 0 0;
       if ret \<noteq> 0 then Some (ret, [], d)
       else if rootfs_offset \<ge> f_size F then Some (- EINVAL, [], d)
       else case read_struct F d (szt F (int rootfs_offset - 12)) 4 of
         (Inl e, d) \<Rightarrow> Some (e, [], d)
       | (Inr buf, d) \<Rightarrow>
           let kernel_size = le_at 4 0 buf in
           if kernel_size > szt F (int rootfs_offset - 12) then Some (- EINVAL, [], d)
           else if kernel_size < szt F (int rootfs_offset - 1036) then Some (- EINVAL, [], d)
           else Some (give_parts F 0 [mk_part ''kernel'' 0 kernel_size,
                  mk_part ''rootfs'' rootfs_offset (szt F (int (f_size F) - int rootfs_offset - 12))] d)
     }"

section \<open>Minor\<close>

text \<open>The file names are given by their bytes: \<open>kernel\<close> and \<open>bootimage\<close>, each with its final zero.\<close>

definition name_kernel :: "byte list" where
  "name_kernel = [0x6b, 0x65, 0x72, 0x6e, 0x65, 0x6c, 0]"

definition name_bootimage :: "byte list" where
  "name_bootimage = [0x62, 0x6f, 0x6f, 0x74, 0x69, 0x6d, 0x61, 0x67, 0x65, 0]"

definition mtdsplit_parse_minor :: "'d flash \<Rightarrow> 'd \<Rightarrow> 'd parsed" where
  "mtdsplit_parse_minor F d =
     (case read_struct F d 0 140 of
        (Inl e, d) \<Rightarrow> Some (e, [], d)
      | (Inr hdr, d) \<Rightarrow>
          if cpu_at F 4 0 hdr \<noteq> 1 then Some (- ENOENT, [], d)
          else if cpu_at F 4 4 hdr \<noteq> 1 then Some (- ENOENT, [], d)
          else if cpu_at F 2 8 hdr \<noteq> 0xffff then Some (- ENOENT, [], d)
          else if take 7 (drop 10 hdr) \<noteq> name_kernel \<and> take 10 (drop 10 hdr) \<noteq> name_bootimage
            then Some (- ENOENT, [], d)
          else with_rootfs F d (f_erasesize F)
                 (\<lambda>ro ty d. give_parts F 0 (split_parts F ''kernel'' ro ''rootfs'' ro) d))"

section \<open>H3C VFS\<close>

definition FORMAT_FLAG :: nat where "FORMAT_FLAG = 0x10000400"

text \<open>\<open>openwrt-kernel.bin\<close> with its final zero.\<close>

definition FILE_ENTRY_NAME :: "byte list" where
  "FILE_ENTRY_NAME = [0x6f, 0x70, 0x65, 0x6e, 0x77, 0x72, 0x74, 0x2d, 0x6b, 0x65, 0x72, 0x6e, 0x65, 0x6c,
     0x2e, 0x62, 0x69, 0x6e, 0]"

text \<open>\<open>int\<close> arithmetic; the division of C truncates.\<close>

definition block_offset :: "'d flash \<Rightarrow> int \<Rightarrow> nat" where
  "block_offset F block =
     szt F (s32 (s32 (0x10000 * (block sdiv 63)) + 0x400 * (1 + block smod 63)))"

definition block_count :: "'d flash \<Rightarrow> nat \<Rightarrow> int" where
  "block_count F n = s32 (int (szt F (int n + 1023) div 1024))"

definition mtdsplit_h3c_vfs_parse :: "'d flash \<Rightarrow> 'd \<Rightarrow> 'd parsed" where
  "mtdsplit_h3c_vfs_parse F d =
     (if f_erasesize F \<noteq> 0x10000 then Some (- EINVAL, [], d)
      else case read_struct F d 0 4 of
        (Inl e, d) \<Rightarrow> Some (e, [], d)
      | (Inr flag, d) \<Rightarrow>
          if cpu_at F 4 0 flag \<noteq> FORMAT_FLAG then Some (- ENOENT, [], d)
          else case read_struct F d 0x800 128 of
            (Inl e, d) \<Rightarrow> Some (e, [], d)
          | (Inr entry, d) \<Rightarrow>
              if le_at 1 0 entry \<noteq> 0x3f then Some (- ENOENT, [], d)
              else if cpu_at F 4 20 entry \<noteq> 0 then Some (- ENOENT, [], d)
              else if cpu_at F 2 24 entry \<noteq> 0 then Some (- ENOENT, [], d)
              else if cpu_at F 4 28 entry \<noteq> 2 then Some (- ENOENT, [], d)
              else if take 19 (drop 32 entry) \<noteq> FILE_ENTRY_NAME then Some (- ENOENT, [], d)
              else
                let block = s32 (int (cpu_at F 4 28 entry) + block_count F (cpu_at F 4 16 entry) - 1);
                    kernel_size = szt F (int (block_offset F block + 0x400))
                in with_rootfs F d (szt F (int (mtd_roundup_to_eb kernel_size F)))
                     (\<lambda>ro ty d. give_parts F 0 (split_parts F ''kernel'' ro ''rootfs'' ro) d))"

section \<open>CFE bootfs\<close>

definition JFFS2_MAGIC_BITMASK :: nat where "JFFS2_MAGIC_BITMASK = 0x1985"

text \<open>
  The loop over the nodes of the boot file system; \<open>struct jffs2_raw_dirent\<close> has 40 bytes. What it computes is
  not used behind it.
\<close>

partial_function (option) cfe_bootfs_loop :: "'d flash \<Rightarrow> 'd \<Rightarrow> nat \<Rightarrow> 'd option" where
  "cfe_bootfs_loop F d offset =
     (case read_struct F d offset 40 of
        (Inl _, d) \<Rightarrow> Some d
      | (Inr node, d) \<Rightarrow>
          if cpu_at F 2 0 node \<noteq> JFFS2_MAGIC_BITMASK then Some d
          else
            let offset = szt F (int (offset + cpu_at F 4 4 node));
                offset = szt F (int offset + 3) div 4 * 4
            in if offset < f_size F then cfe_bootfs_loop F d offset else Some d)"

definition mtdsplit_cfe_bootfs_parse :: "'d flash \<Rightarrow> 'd \<Rightarrow> 'd parsed" where
  "mtdsplit_cfe_bootfs_parse F d =
     (if f_name F \<noteq> ''firmware'' then Some (- EINVAL, [], d)
      else do {
        d \<leftarrow> cfe_bootfs_loop F d 0;
        with_rootfs F d (f_erasesize F)
          (\<lambda>ro ty d. give_parts F 0 (split_parts F ''bootfs'' ro (rootfs_name ty) ro) d)
      })"

section \<open>Executable prolog\<close>

text \<open>\<open>OPENWRT-PROLOG-512\<close>; \<open>kstrtol\<close> is the kernel's function, given the rest of the buffer.\<close>

definition OWRT_PROLOG_MAGIC :: "byte list" where
  "OWRT_PROLOG_MAGIC = [0x4f, 0x50, 0x45, 0x4e, 0x57, 0x52, 0x54, 0x2d, 0x50, 0x52, 0x4f, 0x4c, 0x4f, 0x47,
     0x2d, 0x35, 0x31, 0x32]"

definition prolog_index :: "byte list \<Rightarrow> nat option" where
  "prolog_index buf = List.find (\<lambda>i. take 18 (drop i buf) = OWRT_PROLOG_MAGIC) [0..<480]"

definition mtdsplit_parse_owrt_prolog :: "(byte list \<Rightarrow> int + int) \<Rightarrow> 'd flash \<Rightarrow> 'd \<Rightarrow> 'd parsed" where
  "mtdsplit_parse_owrt_prolog kstrtol F d =
     (case read_struct F d 0 512 of
        (Inl e, d) \<Rightarrow> Some (e, [], d)
      | (Inr buf, d) \<Rightarrow>
          (case prolog_index buf of
             None \<Rightarrow> Some (- EINVAL, [], d)
           | Some i \<Rightarrow>
               (case kstrtol (drop (i + 19) buf) of
                  Inl e \<Rightarrow> Some (e, [], d)
                | Inr n \<Rightarrow>
                    let kernel_size = szt F (n + 512);
                        rootfs_offset = szt F (int (roundup_to kernel_size 0x20000))
                    in if rootfs_offset \<ge> f_size F then Some (- EINVAL, [], d)
                       else (case mtd_check_rootfs_magic F d rootfs_offset of
                           (Inl e, d) \<Rightarrow> Some (e, [], d)
                         | (Inr _, d) \<Rightarrow>
                             Some (give_parts F 0 (split_parts F ''kernel'' kernel_size ''rootfs'' rootfs_offset) d)))))"

section \<open>SEIL\<close>

text \<open>
  The environment of the boot loader is read as a sequence of strings \<open>var=value\<close>. \<open>until_zero\<close> cuts a string
  off the buffer and \<open>None\<close> is a string that does not end in it.
\<close>

fun until_zero :: "byte list \<Rightarrow> (byte list \<times> byte list) option" where
  "until_zero [] = None"
| "until_zero (b # bs) = (if b = 0 then Some ([], bs) else map_option (\<lambda>(s, r). (b # s, r)) (until_zero bs))"

text \<open>\<open>strchr(var, '=')\<close>: the name before the sign and what follows it, \<open>Some None\<close> when there is no sign.\<close>

fun until_equals :: "byte list \<Rightarrow> (byte list \<times> byte list) option option" where
  "until_equals [] = None"
| "until_equals (b # bs) =
     (if b = 0x3d then Some (Some ([], bs))
      else if b = 0 then Some None
      else map_option (map_option (\<lambda>(s, r). (b # s, r))) (until_equals bs))"

definition BOOTDEV :: "byte list" where
  "BOOTDEV = [0x42, 0x4f, 0x4f, 0x54, 0x44, 0x45, 0x56]"

text \<open>The fuel is the length of the buffer, of which every round takes at least two bytes.\<close>

fun seil_env :: "nat \<Rightarrow> byte list \<Rightarrow> byte list \<Rightarrow> bool option" where
  "seil_env 0 devnm buf = Some False"
| "seil_env (Suc n) devnm buf =
     (if buf = [] \<or> hd buf = 0 then Some False
      else do {
        eq \<leftarrow> until_equals buf;
        case eq of
          None \<Rightarrow> Some False
        | Some (var, rest) \<Rightarrow> do {
            (val, rest) \<leftarrow> until_zero rest;
            if var = BOOTDEV then Some (devnm = val) else seil_env n devnm rest
          }
      })"

text \<open>
  What the device tree and the kernel answer: the properties \<open>iij,bootdev-name\<close> and \<open>iij,seil-id\<close> with the
  errors of reading them, and the partition of the environment.
\<close>

record 'd seil_node =
  iij_bootdev_name :: "int + byte list"
  iij_seil_id :: "int + nat"
  bootloader_env :: "'d flash option"

definition seil_bootdev_is_active :: "'d flash \<Rightarrow> 'd seil_node \<Rightarrow> 'd \<Rightarrow> (bool \<times> 'd) option" where
  "seil_bootdev_is_active F np d =
     (case iij_bootdev_name np of
        Inl e \<Rightarrow> Some (e = - EINVAL, d)
      | Inr devnm \<Rightarrow>
          (case bootloader_env np of
             None \<Rightarrow> Some (False, d)
           | Some env \<Rightarrow>
               if \<not> f_alloc F 0 then Some (False, d)
               else case read_struct env d 0 (f_size env) of
                 (Inl _, d) \<Rightarrow> Some (False, d)
               | (Inr buf, d) \<Rightarrow> do { r \<leftarrow> seil_env (length buf) devnm buf; Some (r, d) }))"

definition mtdsplit_parse_seil_fw :: "'d seil_node \<Rightarrow> 'd flash \<Rightarrow> 'd \<Rightarrow> 'd parsed" where
  "mtdsplit_parse_seil_fw np F d =
     do {
       (active, d) \<leftarrow> seil_bootdev_is_active F np d;
       if \<not> active then Some (- ENOENT, [], d)
       else (case iij_seil_id np of
         Inl e \<Rightarrow> Some (e, [], d)
       | Inr seil_id \<Rightarrow>
           if \<not> f_alloc F 1 then Some (- ENOMEM, [], d)
           else (case read_struct F d 0 144 of
             (Inl e, d) \<Rightarrow> Some (e, [], d)
           | (Inr header, d) \<Rightarrow>
               if be_at 8 0 header \<noteq> seil_id \<or> be_at 4 92 header \<noteq> 1 then Some (- ENOENT, [], d)
               else if szt F (int (144 + be_at 4 140 header)) > f_size F then Some (- EINVAL, [], d)
               else do {
                 (r, d) \<leftarrow> mtd_find_rootfs_from F d (szt F (int (144 + be_at 4 140 header))) (f_size F);
                 (case r of
                    Inl _ \<Rightarrow> Some (- ENOENT, [], d)
                  | Inr (ro, _) \<Rightarrow>
                      if f_size F = ro then Some (- ENOENT, [], d)
                      else Some (2, split_parts F ''kernel'' ro ''rootfs'' ro, d))
               }))
     }"

end
