(* ===== verification/Split_Scan.thy ===== *)
theory Split_Scan
  imports Split_Fixed
begin

text \<open>
  The parsers that look for their header at every erase block: \<open>mtdsplit_trx.c\<close>, \<open>mtdsplit_uimage.c\<close>,
  \<open>mtdsplit_jimage.c\<close> and \<open>mtdsplit_bcm63xx.c\<close>, and \<open>mtdsplit_mstc_boot.c\<close>, which takes a uImage or a
  flattened image tree at the start.
\<close>

section \<open>TRX\<close>

definition TRX_MAGIC :: nat where "TRX_MAGIC = 0x30524448"

definition read_trx_header :: "'d flash \<Rightarrow> 'd \<Rightarrow> nat \<Rightarrow> (int + byte list) \<times> 'd" where
  "read_trx_header F d offset = read_struct F d offset 32"

text \<open>One round of the loop: \<open>trx_size\<close> and the header, and whether the loop is left.\<close>

definition trx_round :: "'d flash \<Rightarrow> nat \<Rightarrow> 'd \<Rightarrow> ((nat \<times> byte list) \<times> bool) \<times> 'd" where
  "trx_round F offset d =
     (case read_trx_header F d offset of
        (Inl _, d) \<Rightarrow> (((0, []), False), d)
      | (Inr hdr, d) \<Rightarrow>
          if le_at 4 0 hdr \<noteq> TRX_MAGIC then (((0, hdr), False), d)
          else (((le_at 4 4 hdr, hdr), szt F (int (offset + le_at 4 4 hdr)) \<le> f_size F), d))"

text \<open>The offsets of the header are not converted from little-endian order.\<close>

definition mtdsplit_parse_trx :: "'d flash \<Rightarrow> 'd \<Rightarrow> 'd parsed" where
  "mtdsplit_parse_trx F d =
     (if \<not> f_alloc F 0 then Some (- ENOMEM, [], d)
      else do {
        (offset, (trx_size, hdr), d) \<leftarrow> eb_scan F (trx_round F) 0 (0, []) d;
        if trx_size = 0 then Some (- ENOENT, [], d)
        else
          let trx_offset = szt F (int (offset + cpu_at F 4 16 hdr));
              rootfs_offset = szt F (int (offset + cpu_at F 4 20 hdr));
              rootfs_size = szt F (int (f_size F) - int rootfs_offset);
              trx_size = szt F (int rootfs_offset - int trx_offset)
          in if rootfs_size = 0 then Some (- ENOENT, [], d)
             else Some (2, [mk_part ''kernel'' trx_offset trx_size,
                            mk_part ''rootfs'' rootfs_offset rootfs_size], d)
      })"

section \<open>uImage\<close>

definition IH_MAGIC :: nat where "IH_MAGIC = 0x27051956"
definition IH_OS_LINUX :: nat where "IH_OS_LINUX = 5"
definition IH_TYPE_KERNEL :: nat where "IH_TYPE_KERNEL = 2"

text \<open>The properties of the device tree node, \<open>None\<close> when they are absent.\<close>

record uimage_node =
  is_openwrt_uimage :: bool
  openwrt_padding :: "nat option"
  openwrt_ih_magic :: "nat option"
  openwrt_ih_type :: "nat option"
  openwrt_offset :: "nat option"
  openwrt_partition_magic :: "nat option"

record uimage_conf =
  extralen :: int
  ih_magic :: nat
  ih_type :: nat
  header_offset :: nat
  part_magic :: nat

definition uimage_parse_dt :: "uimage_node \<Rightarrow> uimage_conf" where
  "uimage_parse_dt np =
     (let get = (\<lambda>prop def. if is_openwrt_uimage np then case_option def (\<lambda>v. v) prop else def)
      in \<lparr>extralen = s32 (int (get (openwrt_padding np) 0)), ih_magic = get (openwrt_ih_magic np) IH_MAGIC,
          ih_type = get (openwrt_ih_type np) IH_TYPE_KERNEL, header_offset = get (openwrt_offset np) 0,
          part_magic = get (openwrt_partition_magic np) 0\<rparr>)"

definition read_uimage_header :: "'d flash \<Rightarrow> 'd \<Rightarrow> nat \<Rightarrow> nat \<Rightarrow> (int + byte list) \<times> 'd" where
  "read_uimage_header F d offset header_len = read_struct F d offset header_len"

definition uimage_verify_default :: "byte list \<Rightarrow> nat \<Rightarrow> nat \<Rightarrow> int" where
  "uimage_verify_default buf magic ty =
     (if be_at 4 0 buf \<noteq> magic then - EINVAL
      else if le_at 1 28 buf \<noteq> IH_OS_LINUX then - EINVAL
      else if le_at 1 30 buf \<noteq> ty then - EINVAL
      else 0)"

definition uimage_round :: "uimage_conf \<Rightarrow> 'd flash \<Rightarrow> nat \<Rightarrow> 'd \<Rightarrow> (nat \<times> bool) \<times> 'd" where
  "uimage_round c F offset d =
     (case read_uimage_header F d offset (szt F (int (64 + header_offset c))) of
        (Inl _, d) \<Rightarrow> ((0, False), d)
      | (Inr buf, d) \<Rightarrow>
          if header_offset c \<noteq> 0 \<and> part_magic c \<noteq> 0 \<and> be_at 4 0 buf \<noteq> part_magic c then ((0, False), d)
          else if uimage_verify_default (drop (header_offset c) buf) (ih_magic c) (ih_type c) < 0
            then ((0, False), d)
          else
            let uimage_size = szt F (int (64 + be_at 4 12 (drop (header_offset c) buf) + header_offset c) + extralen c)
            in ((uimage_size, szt F (int (offset + uimage_size)) \<le> f_size F), d))"

text \<open>
  The partitions for an image found at \<open>offset\<close>, shared by the uImage and the jImage parser: the root
  file system follows an image at offset 0 and precedes any other. \<open>no_rootfs\<close> is the error for a root file system
  that is missing before the image.
\<close>

definition image_parts ::
  "'d flash \<Rightarrow> 'd \<Rightarrow> nat \<Rightarrow> nat \<Rightarrow> (int \<Rightarrow> int) \<Rightarrow> 'd parsed" where
  "image_parts F d offset image_size no_rootfs =
     (if offset = 0 then do {
        (r, d) \<leftarrow> mtd_find_rootfs_from F d (szt F (int (offset + image_size))) (f_size F);
        (case r of
           Inl e \<Rightarrow> Some (e, [], d)
         | Inr (ro, ty) \<Rightarrow>
             let rootfs_size = szt F (int (f_size F) - int ro)
             in if rootfs_size = 0 then Some (- ENOENT, [], d)
                else Some (2, [mk_part ''kernel'' offset (szt F (int ro - int offset)),
                               mk_part (rootfs_name ty) ro rootfs_size], d))
      }
      else (case mtd_check_rootfs_magic F d 0 of
          (Inl e, d) \<Rightarrow> Some (no_rootfs e, [], d)
        | (Inr ty, d) \<Rightarrow>
            Some (2, [mk_part (rootfs_name ty) 0 offset, mk_part ''kernel'' offset image_size], d)))"

definition mtdsplit_parse_uimage :: "uimage_node \<Rightarrow> 'd flash \<Rightarrow> 'd \<Rightarrow> 'd parsed" where
  "mtdsplit_parse_uimage np F d =
     (if \<not> f_alloc F 0 then Some (- ENOMEM, [], d)
      else if \<not> f_alloc F 1 then Some (- ENOMEM, [], d)
      else do {
        (offset, uimage_size, d) \<leftarrow> eb_scan F (uimage_round (uimage_parse_dt np) F) 0 0 d;
        if uimage_size = 0 then Some (0, [], d)
        else image_parts F d offset uimage_size (\<lambda>_. - ENOENT)
      })"

section \<open>jImage\<close>

definition STAG_MAGIC :: nat where "STAG_MAGIC = 0x2B24"
definition SCH2_MAGIC :: nat where "SCH2_MAGIC = 0x2124"

definition read_jimage_header :: "'d flash \<Rightarrow> 'd \<Rightarrow> nat \<Rightarrow> nat \<Rightarrow> (int + byte list) \<times> 'd" where
  "read_jimage_header F d offset header_len = read_struct F d offset header_len"

definition jimage_verify_default :: "'d flash \<Rightarrow> byte list \<Rightarrow> int" where
  "jimage_verify_default F buf =
     (if cpu_at F 2 2 buf \<noteq> STAG_MAGIC then - EINVAL
      else if cpu_at F 2 16 buf \<noteq> SCH2_MAGIC then - EINVAL
      else if le_at 1 0 buf \<noteq> le_at 1 1 buf then - EINVAL
      else if le_at 1 1 buf \<noteq> 0x04 then - EINVAL
      else if le_at 1 19 buf \<noteq> 0x02 then - EINVAL
      else 0)"

text \<open>The header found is at the start of the buffer, since \<open>jimage_verify_default\<close> returns 0.\<close>

definition jimage_round :: "'d flash \<Rightarrow> nat \<Rightarrow> 'd \<Rightarrow> (nat \<times> bool) \<times> 'd" where
  "jimage_round F offset d =
     (case read_jimage_header F d offset 56 of
        (Inl _, d) \<Rightarrow> ((0, False), d)
      | (Inr buf, d) \<Rightarrow>
          if jimage_verify_default F buf < 0 then ((0, False), d)
          else
            let jimage_size = szt F (int (56 + cpu_at F 4 24 buf))
            in ((jimage_size, szt F (int (offset + jimage_size)) \<le> f_size F), d))"

definition mtdsplit_parse_jimage :: "'d flash \<Rightarrow> 'd \<Rightarrow> 'd parsed" where
  "mtdsplit_parse_jimage F d =
     (if \<not> f_alloc F 0 then Some (- ENOMEM, [], d)
      else if \<not> f_alloc F 1 then Some (- ENOMEM, [], d)
      else do {
        (offset, jimage_size, d) \<leftarrow> eb_scan F (jimage_round F) 0 0 d;
        if jimage_size = 0 then Some (- ENOENT, [], d)
        else image_parts F d offset jimage_size (\<lambda>e. e)
      })"

section \<open>BCM63XX\<close>

text \<open>
  \<open>struct bcm_tag\<close> is the kernel's: its size, the check of its checksum, and its numbers as \<open>kstrtouint\<close> reads
  them from the strings cut off with a zero, \<open>None\<close> for an error. \<open>bt_extended\<close> is \<open>BCM963XX_EXTENDED_SIZE\<close>.
\<close>

record bcm_tag =
  bt_sizeof :: nat
  bt_crc_ok :: "byte list \<Rightarrow> bool"
  bt_flash_image_start :: "byte list \<Rightarrow> nat option"
  bt_kernel_address :: "byte list \<Rightarrow> nat option"
  bt_kernel_length :: "byte list \<Rightarrow> nat option"
  bt_extended :: nat

definition bcm63xx_read_image_tag ::
  "bcm_tag \<Rightarrow> 'd flash \<Rightarrow> 'd \<Rightarrow> nat \<Rightarrow> (int \<times> byte list) \<times> 'd" where
  "bcm63xx_read_image_tag T F d offset =
     (case read_struct F d offset (bt_sizeof T) of
        (Inl e, d) \<Rightarrow> ((e, []), d)
      | (Inr hdr, d) \<Rightarrow> ((if bt_crc_ok T hdr then 0 else 1, hdr), d))"

definition bcm63xx_parse_partitions :: "bcm_tag \<Rightarrow> 'd flash \<Rightarrow> byte list \<Rightarrow> 'd \<Rightarrow> int \<times> part list \<times> 'd" where
  "bcm63xx_parse_partitions T F hdr d =
     (case (bt_flash_image_start T hdr, bt_kernel_address T hdr, bt_kernel_length T hdr) of
        (Some fis, Some ka, Some kl) \<Rightarrow>
          if fis < bt_extended T \<or> ka < bt_extended T \<or> kl = 0 then (- EINVAL, [], d)
          else
            let kernel_offset = szt F (int ka - int (bt_extended T) - int (f_offset F));
                kernel = mk_part ''kernel'' kernel_offset kl;
                rootfs_offset = (if fis < ka then szt F (int fis - int (bt_extended T) - int (f_offset F))
                                 else szt F (int (kernel_offset + kl)));
                rootfs_size = (if fis < ka then szt F (int kernel_offset - int rootfs_offset)
                               else szt F (int (f_size F) - int rootfs_offset));
                rootfs = mk_part ''rootfs'' rootfs_offset rootfs_size;
                d = snd (mtd_check_rootfs_magic F d rootfs_offset)
            in give_parts F 0 (if fis < ka then [rootfs, kernel] else [kernel, rootfs]) d
      | _ \<Rightarrow> (- EINVAL, [], d))"

text \<open>The offset of this loop is a \<open>loff_t\<close>.\<close>

definition mtdsplit_parse_bcm63xx :: "bcm_tag \<Rightarrow> 'd flash \<Rightarrow> 'd \<Rightarrow> 'd parsed" where
  "mtdsplit_parse_bcm63xx T F d =
     (if f_is_nand F then Some (- EINVAL, [], d)
      else do {
        (offset, (ret, hdr), d) \<leftarrow> eb_scan (F\<lparr>f_size_t := 18446744073709551616\<rparr>)
           (\<lambda>offset d. let ((ret, hdr), d) = bcm63xx_read_image_tag T F d offset in (((ret, hdr), ret = 0), d))
           0 (1, []) d;
        Some (if ret = 0 then bcm63xx_parse_partitions T F hdr d else (- EINVAL, [], d))
      })"

section \<open>MSTC boot\<close>

text \<open>
  What the device tree answers: \<open>mstc,bootnum\<close>, the first cell of \<open>reg\<close> of the node \<open>mstc,persist\<close>
  with the errors of finding it, and the children with their numbers of cells.
\<close>

record mstc_child =
  ch_addr_cells :: nat
  ch_size_cells :: nat
  ch_reg :: "int + nat \<times> nat"
  ch_label_base :: "int + string"

record mstc_node =
  mstc_bootnum :: "int + nat"
  mstc_persist :: "int + nat"
  mstc_children :: "mstc_child list"

definition mstcboot_is_active :: "mstc_node \<Rightarrow> 'd flash \<Rightarrow> 'd \<Rightarrow> (int \<times> nat) \<times> 'd" where
  "mstcboot_is_active np parent d =
     (case mstc_bootnum np of
        Inl e \<Rightarrow> ((e, 0), d)
      | Inr bootnum_dt \<Rightarrow>
          (case mstc_persist np of
             Inl e \<Rightarrow> ((e, bootnum_dt), d)
           | Inr persist_offset \<Rightarrow>
               (case read_struct parent d (u32_of (int (persist_offset + 4))) 1 of
                  (Inl e, d) \<Rightarrow> ((e, bootnum_dt), d)
                | (Inr b, d) \<Rightarrow> ((if le_at 1 0 b = bootnum_dt then 1 else 0, bootnum_dt), d))))"

definition OF_DT_HEADER :: nat where "OF_DT_HEADER = 0xd00dfeed"

definition mstcboot_parse_image_parts :: "'d flash \<Rightarrow> 'd \<Rightarrow> 'd parsed" where
  "mstcboot_parse_image_parts F d =
     (case read_struct F d 0 64 of
        (Inl e, d) \<Rightarrow> Some (e, [], d)
      | (Inr buf, d) \<Rightarrow>
          let kern_len = (if be_at 4 0 buf = OF_DT_HEADER then be_at 4 4 buf
                          else if be_at 4 0 buf = IH_MAGIC then szt F (int (64 + be_at 4 12 buf))
                          else 0)
          in with_rootfs F d kern_len (\<lambda>ro ty d. give_parts F 0
               ((if kern_len > 0 then [mk_part ''kernel'' 0 ro] else [])
                 @ [mk_part (rootfs_name ty) ro (u64 (int (f_size F) - int ro))]) d))"

text \<open>\<open>%u\<close>.\<close>

fun decimal :: "nat \<Rightarrow> string" where
  "decimal n = (if n < 10 then [char_of (48 + n)] else decimal (n div 10) @ [char_of (48 + n mod 10)])"

text \<open>\<open>n\<close> counts the allocations of the names of an inactive image.\<close>

fun mstc_children_parts :: "'d flash \<Rightarrow> bool \<Rightarrow> nat \<Rightarrow> nat \<Rightarrow> mstc_child list \<Rightarrow> int + part list" where
  "mstc_children_parts F active bootnum n [] = Inr []"
| "mstc_children_parts F active bootnum n (c # cs) =
     (if ch_addr_cells c \<noteq> 1 \<or> ch_size_cells c \<noteq> 1 then Inl (- EINVAL)
      else case ch_reg c of
        Inl e \<Rightarrow> Inl e
      | Inr (off, sz) \<Rightarrow>
          (case ch_label_base c of
             Inl e \<Rightarrow> Inl e
           | Inr label \<Rightarrow>
               if \<not> active \<and> \<not> f_alloc F n then Inl (- ENOMEM)
               else (case mstc_children_parts F active bootnum (n + 1) cs of
                   Inl e \<Rightarrow> Inl e
                 | Inr ps \<Rightarrow> Inr (mk_part (if active then label else label @ decimal bootnum) off sz # ps))))"

definition mstcboot_parse_fixed_parts ::
  "mstc_node \<Rightarrow> 'd flash \<Rightarrow> bool \<Rightarrow> nat \<Rightarrow> int \<times> part list" where
  "mstcboot_parse_fixed_parts np F active bootnum_dt =
     (if length (mstc_children np) > 2 then (- EINVAL, [])
      else if \<not> f_alloc F 0 then (- ENOMEM, [])
      else case mstc_children_parts F active bootnum_dt 1 (mstc_children np) of
        Inl e \<Rightarrow> (e, [])
      | Inr ps \<Rightarrow> (int (length ps), ps))"

definition mtdsplit_mstcboot_parse :: "mstc_node \<Rightarrow> 'd flash \<Rightarrow> 'd flash \<Rightarrow> 'd \<Rightarrow> 'd parsed" where
  "mtdsplit_mstcboot_parse np parent F d =
     (case mstcboot_is_active np parent d of
        ((ret, bootnum_dt), d) \<Rightarrow>
          if ret < 0 then Some (ret, [], d)
          else if mstc_children np \<noteq> [] then
            (case mstcboot_parse_fixed_parts np F (ret \<noteq> 0) bootnum_dt of (r, ps) \<Rightarrow> Some (r, ps, d))
          else if ret \<noteq> 0 then mstcboot_parse_image_parts F d
          else Some (ret, [], d))"

end
