(* ===== verification/Split_Files.thy ===== *)
theory Split_Files
  imports Split_Scan
begin

text \<open>
  The parsers that follow a file format: \<open>mtdsplit_elf.c\<close>, which computes the end of an ELF loader, and
  \<open>mtdsplit_bcm_wfi.c\<close>, which looks for files in a JFFS2 file system.
\<close>

section \<open>ELF\<close>

definition ELF_MAGIC :: nat where "ELF_MAGIC = 0x7f454c46"

definition mtdsplit_elf_read_mtd :: "'d flash \<Rightarrow> 'd \<Rightarrow> nat \<Rightarrow> nat \<Rightarrow> (int + byte list) \<times> 'd" where
  "mtdsplit_elf_read_mtd F d offset len = read_struct F d offset len"

text \<open>
  The loop over the program headers, for both classes: \<open>n\<close> is the size of a header and \<open>section_end\<close> reads
  the end of its section.
\<close>

partial_function (option) elf_loop ::
  "'d flash \<Rightarrow> nat \<Rightarrow> (byte list \<Rightarrow> nat) \<Rightarrow> nat \<Rightarrow> nat \<Rightarrow> nat \<Rightarrow> nat \<Rightarrow> 'd \<Rightarrow> ((int + nat) \<times> 'd) option" where
  "elf_loop F n section_end phentsize table_end ph_entry sz d =
     (if ph_entry < table_end then
        (case mtdsplit_elf_read_mtd F d ph_entry n of
           (Inl e, d) \<Rightarrow> Some (Inl e, d)
         | (Inr ph, d) \<Rightarrow>
             elf_loop F n section_end phentsize table_end (szt F (int (ph_entry + phentsize)))
               (max sz (section_end ph)) d)
      else Some (Inr sz, d))"

text \<open>The products are of the type \<open>int\<close>; the sums are 32 and 64 bits wide before they become a \<open>size_t\<close>.\<close>

definition elf32_determine_size :: "'d flash \<Rightarrow> byte list \<Rightarrow> 'd \<Rightarrow> ((int + nat) \<times> 'd) option" where
  "elf32_determine_size F hdr d =
     (let shoff = cpu_at F 4 32 hdr; phoff = cpu_at F 4 28 hdr;
          phentsize = cpu_at F 2 42 hdr; phnum = cpu_at F 2 44 hdr
      in if shoff > 0
         then Some (Inr (u32_of (int shoff + s32 (int (cpu_at F 2 46 hdr * cpu_at F 2 48 hdr)))), d)
         else elf_loop F 28 (\<lambda>ph. u32_of (int (cpu_at F 4 4 ph + cpu_at F 4 16 ph))) phentsize
                (u32_of (int phoff + s32 (int (phentsize * phnum)))) phoff 0 d)"

definition elf64_determine_size :: "'d flash \<Rightarrow> byte list \<Rightarrow> 'd \<Rightarrow> ((int + nat) \<times> 'd) option" where
  "elf64_determine_size F hdr d =
     (let shoff = cpu_at F 8 40 hdr; phoff = cpu_at F 8 32 hdr;
          phentsize = cpu_at F 2 54 hdr; phnum = cpu_at F 2 56 hdr
      in if shoff > 0
         then Some (Inr (szt F (int (u64 (int shoff + s32 (int (cpu_at F 2 58 hdr * cpu_at F 2 60 hdr)))))), d)
         else elf_loop F 48 (\<lambda>ph. szt F (int (u64 (int (cpu_at F 8 8 ph + cpu_at F 8 32 ph))))) phentsize
                (szt F (int (u64 (int phoff + s32 (int (phentsize * phnum)))))) (szt F (int phoff)) 0 d)"

definition mtdsplit_parse_elf :: "'d flash \<Rightarrow> 'd \<Rightarrow> 'd parsed" where
  "mtdsplit_parse_elf F d =
     (case mtdsplit_elf_read_mtd F d 0 64 of
        (Inl e, d) \<Rightarrow> Some (e, [], d)
      | (Inr hdr, d) \<Rightarrow>
          if be_at 4 0 hdr \<noteq> ELF_MAGIC then Some (- EINVAL, [], d)
          else do {
            (r, d) \<leftarrow> (if le_at 1 4 hdr = 1 then elf32_determine_size F hdr d
                       else if le_at 1 4 hdr = 2 then elf64_determine_size F hdr d
                       else Some (Inl (- EINVAL), d));
            (case r of
               Inl e \<Rightarrow> Some (e, [], d)
             | Inr loader_size \<Rightarrow>
                 with_rootfs F d loader_size
                   (\<lambda>ro ty d. if ro = f_size F then (- ENOENT, [], d)
                      else give_parts F 0 (split_parts F ''kernel'' ro (rootfs_name ty) ro) d))
          })"

section \<open>JFFS2 files\<close>

definition JFFS2_NODETYPE_DIRENT :: nat where "JFFS2_NODETYPE_DIRENT = 0xe001"

text \<open>
  \<open>struct jffs2_raw_dirent\<close> has 40 bytes in front of the name; \<open>crc32\<close> of its first 32 bytes is the kernel's.
  An access to the node is an access to the buffer at its offset.
\<close>

definition jffs2_dirent_crc :: "(byte list \<Rightarrow> nat) \<Rightarrow> byte list \<Rightarrow> nat" where
  "jffs2_dirent_crc crc32 node = crc32 (take 32 node)"

definition jffs2_dirent_valid :: "(byte list \<Rightarrow> nat) \<Rightarrow> 'd flash \<Rightarrow> byte list \<Rightarrow> bool option" where
  "jffs2_dirent_valid crc32 F node =
     do {
       magic \<leftarrow> memget node 0 2;
       if cpu_at F 2 0 magic \<noteq> JFFS2_MAGIC_BITMASK then Some False
       else do {
         nodetype \<leftarrow> memget node 2 2;
         if cpu_at F 2 0 nodetype \<noteq> JFFS2_NODETYPE_DIRENT then Some False
         else do {
           ino \<leftarrow> memget node 20 4;
           if cpu_at F 4 0 ino = 0 then Some False
           else do {
             node_crc \<leftarrow> memget node 32 4;
             Some (cpu_at F 4 0 node_crc = jffs2_dirent_crc crc32 node)
           }
         }
       }
     }"

text \<open>\<open>memcmp\<close> of \<open>name\<close> with what stands at \<open>off\<close> in the buffer, which it may read to its end.\<close>

definition mem_equal :: "byte list \<Rightarrow> nat \<Rightarrow> byte list \<Rightarrow> bool option" where
  "mem_equal buf off name = do { m \<leftarrow> memget buf off (length name); Some (m = name) }"

text \<open>\<open>1-openwrt\<close>, \<open>vmlinux.lz\<close>, \<open>cferam\<close>.\<close>

definition OPENWRT_NAME :: "byte list" where
  "OPENWRT_NAME = [0x31, 0x2d, 0x6f, 0x70, 0x65, 0x6e, 0x77, 0x72, 0x74]"

definition KERNEL_NAME :: "byte list" where
  "KERNEL_NAME = [0x76, 0x6d, 0x6c, 0x69, 0x6e, 0x75, 0x78, 0x2e, 0x6c, 0x7a]"

definition CFERAM_NAME :: "byte list" where
  "CFERAM_NAME = [0x63, 0x66, 0x65, 0x72, 0x61, 0x6d]"

text \<open>
  The loop over the nodes of a block: the result is whether \<open>1-openwrt\<close> was seen when the block ends, an error,
  or \<open>nsize\<close> of the file that was found with its name, which \<open>kstrndup\<close> cuts to \<open>nsize\<close> bytes and at its zero. The
  name is read only for a caller that asks for it.
\<close>

datatype node_result = Block_done bool | Node_error int | Found_file "byte list" nat

definition name_copy :: "bool \<Rightarrow> byte list \<Rightarrow> nat \<Rightarrow> nat \<Rightarrow> byte list option" where
  "name_copy out buf off n =
     (let m = take n (drop off buf)
      in if \<not> out then Some []
         else if 0 \<in> set m \<or> length m = n then Some (takeWhile (\<lambda>b. b \<noteq> 0) m)
         else None)"

partial_function (option) jffs2_nodes ::
  "(byte list \<Rightarrow> nat) \<Rightarrow> 'd flash \<Rightarrow> bool \<Rightarrow> byte list \<Rightarrow> byte list \<Rightarrow> bool \<Rightarrow> nat \<Rightarrow> node_result option" where
  "jffs2_nodes crc32 F out buf name valid block_offs =
     (if block_offs < f_erasesize F then do {
        ok \<leftarrow> jffs2_dirent_valid crc32 F (drop block_offs buf);
        if \<not> ok then jffs2_nodes crc32 F out buf name valid (u32_of (int (block_offs + 4)))
        else do {
          openwrt \<leftarrow> mem_equal buf (block_offs + 40) OPENWRT_NAME;
          same \<leftarrow> (if openwrt then Some False else mem_equal buf (block_offs + 40) name);
          if same then
            (if \<not> valid then Some (Node_error (- EINVAL))
             else let nsize = le_at 1 (block_offs + 28) buf
                  in map_option (\<lambda>s. Found_file s nsize) (name_copy out buf (block_offs + 40) nsize))
          else jffs2_nodes crc32 F out buf name (valid \<or> openwrt)
                 (u32_of (int (u32_of (int (block_offs + cpu_at F 4 4 (drop block_offs buf)))) + 3) div 4 * 4)
        }
      } else Some (Block_done valid))"

text \<open>
  The loop over the blocks; \<open>offs\<close> and \<open>end_offs\<close> are of the type \<open>loff_t\<close>. The result is an error or the name, and the
  offset of the block.
\<close>

partial_function (option) jffs2_blocks ::
  "(byte list \<Rightarrow> nat) \<Rightarrow> 'd flash \<Rightarrow> bool \<Rightarrow> byte list \<Rightarrow> nat \<Rightarrow> bool \<Rightarrow> nat \<Rightarrow> 'd \<Rightarrow>
     ((int + byte list \<times> nat) \<times> nat \<times> 'd) option" where
  "jffs2_blocks crc32 F out name end_offs valid offs d =
     (if offs < end_offs then
        (case read_struct F d offs 2 of
           (Inl _, d) \<Rightarrow> jffs2_blocks crc32 F out name end_offs valid (offs + f_erasesize F) d
         | (Inr magic, d) \<Rightarrow>
             if cpu_at F 2 0 magic \<noteq> JFFS2_MAGIC_BITMASK
             then jffs2_blocks crc32 F out name end_offs valid (offs + f_erasesize F) d
             else (case f_read F d offs (f_erasesize F) of
                 (rc, retlen, buf, d) \<Rightarrow>
                   if rc \<noteq> 0 then Some (Inl rc, offs, d)
                   else if retlen \<noteq> f_erasesize F then Some (Inl (- EINVAL), offs, d)
                   else do {
                     r \<leftarrow> jffs2_nodes crc32 F out buf name valid 0;
                     (case r of
                        Block_done valid \<Rightarrow> jffs2_blocks crc32 F out name end_offs valid (offs + f_erasesize F) d
                      | Node_error e \<Rightarrow> Some (Inl e, offs, d)
                      | Found_file s n \<Rightarrow> Some (Inr (s, n), offs, d))
                   }))
      else Some (Inl (- ENOENT), offs, d))"

definition jffs2_find_file ::
  "(byte list \<Rightarrow> nat) \<Rightarrow> 'd flash \<Rightarrow> bool \<Rightarrow> byte list \<Rightarrow> nat \<Rightarrow> int \<Rightarrow> 'd \<Rightarrow>
     ((int + byte list \<times> nat) \<times> nat \<times> 'd) option" where
  "jffs2_find_file crc32 F out name offs sz d = jffs2_blocks crc32 F out name (nat (int offs + sz)) False offs d"

partial_function (option) ubifs_find_loop :: "'d flash \<Rightarrow> nat \<Rightarrow> nat \<Rightarrow> 'd \<Rightarrow> (int \<times> nat \<times> 'd) option" where
  "ubifs_find_loop F end_offs offs d =
     (if offs < end_offs then
        (case read_struct F d offs 4 of
           (Inl _, d) \<Rightarrow> ubifs_find_loop F end_offs (offs + f_erasesize F) d
         | (Inr magic, d) \<Rightarrow>
             if be_at 4 0 magic = UBI_EC_MAGIC then Some (0, offs, d)
             else ubifs_find_loop F end_offs (offs + f_erasesize F) d)
      else Some (- ENOENT, offs, d))"

definition ubifs_find :: "'d flash \<Rightarrow> nat \<Rightarrow> int \<Rightarrow> 'd \<Rightarrow> (int \<times> nat \<times> 'd) option" where
  "ubifs_find F offs sz d = ubifs_find_loop F (nat (int offs + sz)) offs d"

section \<open>Broadcom WFI\<close>

text \<open>
  The properties \<open>brcm,cferam\<close> and \<open>brcm,no-cferam\<close> of the node, the former without its zero. The name that is
  compared lacks its last character.
\<close>

record wfi_node =
  brcm_cferam :: "byte list option"
  brcm_no_cferam :: bool

abbreviation (input) MTD_WRITEABLE :: nat where "MTD_WRITEABLE \<equiv> 0x400"

definition cferam_name :: "wfi_node option \<Rightarrow> byte list" where
  "cferam_name np =
     (let name = (case np of None \<Rightarrow> CFERAM_NAME | Some n \<Rightarrow> case_option CFERAM_NAME (\<lambda>v. v) (brcm_cferam n));
          cferam_name_len = min 32 (length name)
      in take (if cferam_name_len > 0 then cferam_name_len - 1 else 0) name)"

text \<open>\<open>n\<close> is the number of the allocation.\<close>

definition parse_bcm_wfi ::
  "(byte list \<Rightarrow> nat) \<Rightarrow> wfi_node option \<Rightarrow> 'd flash \<Rightarrow> nat \<Rightarrow> nat \<Rightarrow> nat \<Rightarrow> bool \<Rightarrow> 'd \<Rightarrow> 'd parsed" where
  "parse_bcm_wfi crc32 np F n off sz cfe_part d =
     do {
       (ret, cfe_off, kernel_off, d) \<leftarrow>
         (if cfe_part then do {
            (r, cfe_off, d) \<leftarrow> jffs2_find_file crc32 F False (cferam_name np) off (int sz) d;
            Some (case r of Inl e \<Rightarrow> (e, cfe_off, 0, d) | Inr _ \<Rightarrow> (0, cfe_off, cfe_off + f_erasesize F, d))
          }
          else Some (0, 0, off, d));
       if ret \<noteq> 0 then Some (ret, [], d)
       else do {
         (r, kernel_off, d) \<leftarrow> jffs2_find_file crc32 F False KERNEL_NAME kernel_off
           (int sz - (int kernel_off - int off)) d;
         (case r of
            Inl e \<Rightarrow> Some (e, [], d)
          | Inr _ \<Rightarrow> do {
              (ret, rootfs_off, d) \<leftarrow> ubifs_find F (kernel_off + f_erasesize F)
                (int sz - (int (kernel_off + f_erasesize F) - int off)) d;
              if ret \<noteq> 0 then Some (ret, [], d)
              else Some (give_parts F n
                ((if cfe_part then [(mk_part ''cferam'' cfe_off (kernel_off - cfe_off))\<lparr>p_mask_flags := MTD_WRITEABLE\<rparr>]
                  else [])
                 @ [mk_part ''firmware'' kernel_off (u64 (int sz - (int kernel_off - int off))),
                    mk_part ''kernel'' kernel_off (rootfs_off - kernel_off),
                    mk_part ''ubi'' rootfs_off (u64 (int sz - (int rootfs_off - int off)))]) d)
            })
       }
     }"

definition mtdsplit_parse_bcm_wfi ::
  "(byte list \<Rightarrow> nat) \<Rightarrow> wfi_node option \<Rightarrow> 'd flash \<Rightarrow> 'd \<Rightarrow> 'd parsed" where
  "mtdsplit_parse_bcm_wfi crc32 np F d =
     (case np of
        None \<Rightarrow> Some (- EINVAL, [], d)
      | Some node \<Rightarrow>
          if \<not> f_alloc F 0 then Some (- ENOMEM, [], d)
          else parse_bcm_wfi crc32 np F 1 0 (f_size F) (\<not> brcm_no_cferam node) d)"

definition char_to_num :: "byte \<Rightarrow> int" where
  "char_to_num c = (if 0x30 \<le> c \<and> c \<le> 0x39 then uint c - 0x30 else 0)"

definition three_digits :: "byte list \<Rightarrow> int" where
  "three_digits cs = char_to_num (cs ! 0) * 100 + char_to_num (cs ! 1) * 10 + char_to_num (cs ! 2) * 1"

text \<open>
  The copy of the name is \<open>None\<close> for \<open>NULL\<close> and otherwise a string that ends with a zero.
\<close>

definition cferam_bootflag_value :: "byte list option \<Rightarrow> nat \<Rightarrow> int option" where
  "cferam_bootflag_value name name_len =
     (case name of
        None \<Rightarrow> Some (- ENOENT)
      | Some s \<Rightarrow>
          if name_len < 10 then Some (- ENOENT)
          else do {
            pfx \<leftarrow> mem_equal (s @ [0]) 0 (CFERAM_NAME @ [0x2e]);
            if \<not> pfx then Some (- ENOENT) else map_option three_digits (memget (s @ [0]) 7 3)
          })"

text \<open>
  What the two parsers with a spare image do with the result for the active one: \<open>n\<close> is the number of the next
  allocation, whose failure is not checked when there is no active image.
\<close>

definition wfi_images :: "'d flash \<Rightarrow> nat \<Rightarrow> bool \<Rightarrow> int \<times> part list \<times> 'd \<Rightarrow> 'd parsed" where
  "wfi_images F n first_active res =
     (case res of
        (ret, ps, d) \<Rightarrow>
          let img1 = mk_part ''img1'' 0 (f_size F div 2);
              img2 = mk_part ''img2'' (f_size F div 2) (f_size F - f_size F div 2)
          in if ret > 0 then
               if \<not> f_alloc F n then Some (- ENOMEM, ps, d)
               else Some (ret + 1, ps @ [if first_active then img2 else img1], d)
             else if \<not> f_alloc F n then None
             else Some (ret, [img1, img2], d))"

definition parse_active ::
  "(byte list \<Rightarrow> nat) \<Rightarrow> wfi_node option \<Rightarrow> 'd flash \<Rightarrow> nat \<Rightarrow> bool \<Rightarrow> bool \<Rightarrow> 'd \<Rightarrow> 'd parsed" where
  "parse_active crc32 np F n first_active cfe_part d =
     (if first_active then parse_bcm_wfi crc32 np F n 0 (f_size F div 2) cfe_part d
      else parse_bcm_wfi crc32 np F n (f_size F div 2) (f_size F - f_size F div 2) cfe_part d)"

text \<open>A name that was found, \<open>NULL\<close> when it was not or when \<open>kstrndup\<close> fails, and its length.\<close>

definition cfe_name :: "'d flash \<Rightarrow> nat \<Rightarrow> int + byte list \<times> nat \<Rightarrow> byte list option \<times> nat" where
  "cfe_name F n r = (case r of Inl _ \<Rightarrow> (None, 0) | Inr (s, k) \<Rightarrow> (if f_alloc F n then Some s else None, k))"

definition mtdsplit_parse_bcm_wfi_split ::
  "(byte list \<Rightarrow> nat) \<Rightarrow> wfi_node option \<Rightarrow> 'd flash \<Rightarrow> 'd \<Rightarrow> 'd parsed" where
  "mtdsplit_parse_bcm_wfi_split crc32 np F d =
     (if \<not> f_alloc F 0 then Some (- ENOMEM, [], d)
      else do {
        (r1, _, d) \<leftarrow> jffs2_find_file crc32 F True CFERAM_NAME 0 (int (f_size F div 2)) d;
        (r2, _, d) \<leftarrow> jffs2_find_file crc32 F True CFERAM_NAME (f_size F div 2)
          (int (f_size F - f_size F div 2)) d;
        bf1 \<leftarrow> (case cfe_name F 1 r1 of (name, n) \<Rightarrow> cferam_bootflag_value name n);
        bf2 \<leftarrow> (case cfe_name F 2 r2 of (name, n) \<Rightarrow> cferam_bootflag_value name n);
        res \<leftarrow> parse_active crc32 np F 3 (bf2 \<le> bf1) True d;
        wfi_images F 4 (bf2 \<le> bf1) res
      })"

section \<open>Sercomm\<close>

text \<open>\<open>eRcOmM.\<close> and three digits, at the start of a block.\<close>

definition SERCOMM_MAGIC_PFX :: "byte list" where
  "SERCOMM_MAGIC_PFX = [0x65, 0x52, 0x63, 0x4f, 0x6d, 0x4d, 0x2e]"

partial_function (option) sercomm_bootflag_loop :: "'d flash \<Rightarrow> nat \<Rightarrow> 'd \<Rightarrow> (int \<times> 'd) option" where
  "sercomm_bootflag_loop F offs d =
     (if offs < f_size F then
        (case read_struct F d offs 10 of
           (Inl _, d) \<Rightarrow> sercomm_bootflag_loop F (offs + f_erasesize F) d
         | (Inr buf, d) \<Rightarrow>
             if take 7 buf \<noteq> SERCOMM_MAGIC_PFX then sercomm_bootflag_loop F (offs + f_erasesize F) d
             else Some (three_digits (drop 7 buf), d))
      else Some (- ENOENT, d))"

definition sercomm_bootflag_value :: "'d flash \<Rightarrow> 'd \<Rightarrow> (int \<times> 'd) option" where
  "sercomm_bootflag_value F d = sercomm_bootflag_loop F 0 d"

text \<open>
  \<open>bf1\<close> and \<open>bf2\<close> are the partitions \<open>bootflag1\<close> and \<open>bootflag2\<close>, \<open>None\<close> when they are missing. \<open>erase\<close> is
  \<open>mtd_erase\<close> of \<open>bootflag2\<close> from an address, whose result is ignored.
\<close>

definition mtdsplit_parse_ser_wfi ::
  "(byte list \<Rightarrow> nat) \<Rightarrow> ('d \<Rightarrow> nat \<Rightarrow> nat \<Rightarrow> 'd) \<Rightarrow> 'd flash option \<Rightarrow> 'd flash option \<Rightarrow>
     wfi_node option \<Rightarrow> 'd flash \<Rightarrow> 'd \<Rightarrow> 'd parsed" where
  "mtdsplit_parse_ser_wfi crc32 erase mtd_bf1 mtd_bf2 np F d =
     (case (mtd_bf1, mtd_bf2) of
        (Some b1, Some b2) \<Rightarrow>
          if \<not> f_alloc F 0 then Some (- ENOMEM, [], d)
          else do {
            (bf1, d) \<leftarrow> sercomm_bootflag_value b1 d;
            (bf2, d) \<leftarrow> sercomm_bootflag_value b2 d;
            let same = (bf1 = bf2 \<and> bf2 \<ge> 0);
            let d = (if same then erase d 0 (f_size b2) else d);
            let bf2 = (if same then - ENOENT else bf2);
            res \<leftarrow> parse_active crc32 np F 1 (bf2 \<le> bf1) False d;
            wfi_images F 2 (bf2 \<le> bf1) res
          }
      | _ \<Rightarrow> Some (- ENOENT, [], d))"

end
