(* ===== verification/Split_Fit.thy ===== *)
theory Split_Fit
  imports Split_Files
begin

text \<open>
  \<open>mtdsplit_fit.c\<close>: the parser for flattened image trees. \<open>libfdt\<close> is a parameter.
\<close>

section \<open>The tree\<close>

text \<open>
  What \<open>libfdt\<close> answers for a tree given by its bytes: the offset of \<open>/images\<close> or an error, the next node
  and its depth, the place of a property in the tree and its length. A property of the node is given by its
  name.
\<close>

record libfdt =
  fdt_path_offset :: "byte list \<Rightarrow> string \<Rightarrow> int"
  fdt_next_node :: "byte list \<Rightarrow> int \<Rightarrow> int \<Rightarrow> int \<times> int"
  fdt_getprop :: "byte list \<Rightarrow> int \<Rightarrow> string \<Rightarrow> (nat \<times> int) option"

text \<open>
  The numbers are taken from the tree without a look at the length of the property: \<open>None\<close> is an access
  behind the tree, \<open>Inl\<close> an error.
\<close>

definition fit_image_get_int :: "libfdt \<Rightarrow> string \<Rightarrow> byte list \<Rightarrow> int \<Rightarrow> (int + int) option" where
  "fit_image_get_int L prop fit noffset =
     (case fdt_getprop L fit noffset prop of
        None \<Rightarrow> Some (Inl (- ENOENT))
      | Some (at, _) \<Rightarrow> do { v \<leftarrow> memget fit at 4; Some (Inr (s32 (int (be_at 4 0 v)))) })"

definition fit_image_get_data_offset :: "libfdt \<Rightarrow> byte list \<Rightarrow> int \<Rightarrow> (int + int) option" where
  "fit_image_get_data_offset L = fit_image_get_int L ''data-offset''"

definition fit_image_get_data_position :: "libfdt \<Rightarrow> byte list \<Rightarrow> int \<Rightarrow> (int + int) option" where
  "fit_image_get_data_position L = fit_image_get_int L ''data-position''"

definition fit_image_get_data_size :: "libfdt \<Rightarrow> byte list \<Rightarrow> int \<Rightarrow> (int + int) option" where
  "fit_image_get_data_size L = fit_image_get_int L ''data-size''"

text \<open>The data is given by its distance from the tree and its size.\<close>

definition fit_image_get_data :: "'d flash \<Rightarrow> libfdt \<Rightarrow> byte list \<Rightarrow> int \<Rightarrow> int + int \<times> nat" where
  "fit_image_get_data F L fit noffset =
     (case fdt_getprop L fit noffset ''data'' of
        None \<Rightarrow> Inl (- 1)
      | Some (at, len) \<Rightarrow> Inr (int at, szt F len))"

definition fdt_totalsize :: "byte list \<Rightarrow> nat" where
  "fdt_totalsize fit = be_at 4 4 fit"

definition fit_external_data :: "'d flash \<Rightarrow> libfdt \<Rightarrow> byte list \<Rightarrow> int \<Rightarrow> int \<Rightarrow> (int + int \<times> nat) option" where
  "fit_external_data F L fit noffset offset =
     map_option (\<lambda>r. case r of Inl e \<Rightarrow> Inl e | Inr len \<Rightarrow> Inr (offset, szt F len))
       (fit_image_get_data_size L fit noffset)"

definition fit_image_get_data_and_size ::
  "'d flash \<Rightarrow> libfdt \<Rightarrow> byte list \<Rightarrow> int \<Rightarrow> (int + int \<times> nat) option" where
  "fit_image_get_data_and_size F L fit noffset =
     do {
       p \<leftarrow> fit_image_get_data_position L fit noffset;
       (case p of
          Inr offset \<Rightarrow> fit_external_data F L fit noffset offset
        | Inl _ \<Rightarrow> do {
            q \<leftarrow> fit_image_get_data_offset L fit noffset;
            (case q of
               Inr offset \<Rightarrow>
                 fit_external_data F L fit noffset
                   (s32 (offset + int (u32_of (int (fdt_totalsize fit) + 3) div 4 * 4)))
             | Inl _ \<Rightarrow> Some (fit_image_get_data F L fit noffset))
          })
     }"

section \<open>The parser\<close>

text \<open>
  The properties of the node and the command line of the kernel.
\<close>

record fit_node =
  cmdline_match :: "string option"
  saved_command_line :: string
  fit_offset_prop :: "nat option"

definition strstr :: "string \<Rightarrow> string \<Rightarrow> bool" where
  "strstr s m \<longleftrightarrow> list_ex (\<lambda>i. take (length m) (drop i s) = m) [0..<length s + 1]"

text \<open>
  The search for the header, which has 40 bytes. \<open>hdr\<close> is what the variable holds, at first whatever the stack
  held. The loop is left with a header of a tree, or behind the last block with the header read there.
\<close>

partial_function (option) fit_search ::
  "'d flash \<Rightarrow> nat \<Rightarrow> byte list \<Rightarrow> nat \<Rightarrow> 'd \<Rightarrow> ((int + nat \<times> byte list) \<times> 'd) option" where
  "fit_search F offset_start hdr offset d =
     (if szt F (int (offset + 40)) \<le> f_size F then
        (case read_struct F d (szt F (int (offset + offset_start))) 40 of
           (Inl e, d) \<Rightarrow> Some (Inl e, d)
         | (Inr hdr, d) \<Rightarrow>
             if be_at 4 0 hdr \<noteq> OF_DT_HEADER
             then fit_search F offset_start hdr (szt F (int (offset + f_erasesize F))) d
             else Some (Inr (offset, hdr), d))
      else Some (Inr (offset, hdr), d))"

text \<open>The loop over the nodes below \<open>/images\<close>: the end of the data, or an error of an image.\<close>

partial_function (option) fit_images ::
  "'d flash \<Rightarrow> libfdt \<Rightarrow> byte list \<Rightarrow> int \<times> int \<Rightarrow> nat \<Rightarrow> (int + nat) option" where
  "fit_images F L fit node max_size =
     (case node of
        (noffset, ndepth) \<Rightarrow>
          if 0 \<le> noffset \<and> 0 < ndepth then
            if ndepth = 1 then do {
              r \<leftarrow> fit_image_get_data_and_size F L fit noffset;
              (case r of
                 Inl e \<Rightarrow> Some (Inl e)
               | Inr (img_data, data_size) \<Rightarrow>
                   fit_images F L fit (fdt_next_node L fit noffset ndepth)
                     (max max_size (szt F (int data_size + img_data))))
            }
            else fit_images F L fit (fdt_next_node L fit noffset ndepth) max_size
          else Some (Inr max_size))"

definition fit_rootfs_data ::
  "libfdt \<Rightarrow> 'd flash \<Rightarrow> nat \<Rightarrow> nat \<Rightarrow> nat \<Rightarrow> 'd \<Rightarrow> 'd parsed" where
  "fit_rootfs_data L F offset_start fit_offset fit_size d =
     (if \<not> f_alloc F 0 then None
      else (case f_read F d fit_offset (szt F (int (fit_size + offset_start))) of
          (err, retlen, bs, d) \<Rightarrow>
            if length bs > fit_size then None
            else if err \<noteq> 0 then Some (err, [], d)
            else
              let fit = bs @ replicate (fit_size - length bs) 0;
                  images_noffset = fdt_path_offset L fit ''/images''
              in if images_noffset < 0 then Some (- ENOENT, [], d)
                 else do {
                   r \<leftarrow> fit_images F L fit (fdt_next_node L fit images_noffset 0) 0;
                   Some (case r of
                     Inl _ \<Rightarrow> (0, [], d)
                   | Inr max_size \<Rightarrow>
                       let off = u64 (int (fit_offset + mtd_roundup_to_eb max_size F))
                       in give_parts F 1 [mk_part ''rootfs_data'' off (u64 (int (f_size F) - int off))] d)
                 }))"

definition fit_two_parts ::
  "'d flash \<Rightarrow> nat \<Rightarrow> nat \<Rightarrow> nat \<Rightarrow> nat \<Rightarrow> part_type \<Rightarrow> 'd \<Rightarrow> int \<times> part list \<times> 'd" where
  "fit_two_parts F offset_start fit_offset fit_size ro ty d =
     give_parts F 0
       [mk_part ''kernel'' fit_offset (mtd_roundup_to_eb (szt F (int (fit_size + offset_start))) F),
        mk_part (rootfs_name ty) ro (szt F (int (f_size F) - int ro))] d"

text \<open>\<open>hdr\<close> is what the stack holds at first.\<close>

definition mtdsplit_fit_parse :: "libfdt \<Rightarrow> byte list \<Rightarrow> fit_node \<Rightarrow> 'd flash \<Rightarrow> 'd \<Rightarrow> 'd parsed" where
  "mtdsplit_fit_parse L hdr np F d =
     (if case cmdline_match np of None \<Rightarrow> False | Some m \<Rightarrow> \<not> strstr (saved_command_line np) m
      then Some (- ENOENT, [], d)
      else
        let offset_start = case_option 0 (\<lambda>v. v) (fit_offset_prop np)
        in do {
          (r, d) \<leftarrow> fit_search F offset_start hdr 0 d;
          (case r of
             Inl e \<Rightarrow> Some (e, [], d)
           | Inr (fit_offset, hdr) \<Rightarrow>
               let fit_size = be_at 4 4 hdr
               in if fit_size = 0 then Some (- ENOENT, [], d)
                  else if fit_size > 0x80000 then
                    with_rootfs F d (szt F (int (fit_offset + fit_size + offset_start)))
                      (fit_two_parts F offset_start fit_offset fit_size)
                  else fit_rootfs_data L F offset_start fit_offset fit_size d)
        })"

end
