(* ===== verification/Split_Laws.thy ===== *)
theory Split_Laws
  imports Split_Fit
begin

text \<open>
  What a parser promises to the code that registers its partitions: a number of partitions that lie in the
  device and do not overlap, or an error and none. The locale \<open>splitter\<close> states it and the parsers that keep it
  are its interpretations.
\<close>

section \<open>The contract\<close>

definition part_end :: "part \<Rightarrow> nat" where
  "part_end p = p_offset p + p_size p"

definition in_part :: "part \<Rightarrow> nat \<Rightarrow> bool" where
  "in_part p x \<longleftrightarrow> p_offset p \<le> x \<and> x < part_end p"

definition laid_out :: "nat \<Rightarrow> part list \<Rightarrow> bool" where
  "laid_out n ps \<longleftrightarrow> list_all (\<lambda>p. part_end p \<le> n) ps \<and> sorted_wrt (\<lambda>p q. part_end p \<le> p_offset q) ps"

definition splits :: "'d flash \<Rightarrow> int \<times> part list \<times> 'd \<Rightarrow> bool" where
  "splits F res \<longleftrightarrow> (case res of (r, ps, d) \<Rightarrow>
     if r < 0 then ps = [] else r = int (length ps) \<and> laid_out (f_size F) ps)"

lemma splits_error [simp]: "e < 0 \<Longrightarrow> splits F (e, [], d)"
  by (simp add: splits_def)

lemma splits_give_parts: "laid_out (f_size F) ps \<Longrightarrow> splits F (give_parts F n ps d)"
  by (simp add: splits_def give_parts_def)

lemma laid_out_two:
  "p_offset p + p_size p \<le> p_offset q \<Longrightarrow> p_offset q + p_size q \<le> n \<Longrightarrow> laid_out n [p, q]"
  by (simp add: laid_out_def part_end_def)

lemma laid_out_once:
  assumes "laid_out n ps" "i < length ps" "j < length ps" "in_part (ps ! i) x" "in_part (ps ! j) x"
  shows "i = j"
proof -
  have "part_end (ps ! a) \<le> p_offset (ps ! b)" if "a < b" "b < length ps" for a b
    using assms(1) that by (auto simp: laid_out_def sorted_wrt_iff_nth_less)
  then have "\<not> i < j" "\<not> j < i" using assms(2-) unfolding in_part_def by (meson leD le_trans)+
  then show ?thesis by simp
qed

lemma laid_out_sizes: "laid_out n ps \<Longrightarrow> (\<Sum>p\<leftarrow>ps. p_size p) \<le> n"
proof -
  have "m \<le> n \<Longrightarrow> list_all (\<lambda>p. part_end p \<le> n) ps \<Longrightarrow> sorted_wrt (\<lambda>p q. part_end p \<le> p_offset q) ps \<Longrightarrow>
      list_all (\<lambda>p. m \<le> p_offset p) ps \<Longrightarrow> m + (\<Sum>p\<leftarrow>ps. p_size p) \<le> n" for m
  proof (induction ps arbitrary: m)
    case (Cons p ps)
    have "part_end p + (\<Sum>q\<leftarrow>ps. p_size q) \<le> n"
      using Cons.prems by (intro Cons.IH) (auto simp: list_all_iff)
    then show ?case using Cons.prems by (simp add: part_end_def)
  qed simp
  from this [of 0] show "laid_out n ps \<Longrightarrow> (\<Sum>p\<leftarrow>ps. p_size p) \<le> n"
    by (simp add: laid_out_def list_all_iff)
qed

lemma splits_laid_out:
  "splits F (r, ps, d) \<Longrightarrow> laid_out (f_size F) ps \<and> (if r < 0 then ps = [] else r = int (length ps))"
  by (auto simp: splits_def laid_out_def split: if_splits)

locale splitter =
  fixes parse :: "'d flash \<Rightarrow> 'd \<Rightarrow> 'd parsed"
    and usable :: "'d flash \<Rightarrow> bool"
  assumes splits: "flash_ok F \<Longrightarrow> reads_within F \<Longrightarrow> usable F \<Longrightarrow> runs (parse F d) (splits F)"
begin

lemma runs_split:
  assumes "flash_ok F" "reads_within F" "usable F" "\<And>res. splits F res \<Longrightarrow> Q res"
  shows "runs (parse F d) Q"
  using runs_mono [OF splits] assms by blast

text \<open>No byte is given to two partitions, and together they are no larger than the device.\<close>

lemma one_owner:
  assumes "flash_ok F" "reads_within F" "usable F"
  shows "runs (parse F d) (\<lambda>(r, ps, d). \<forall>x i j. i < length ps \<longrightarrow> j < length ps \<longrightarrow>
    in_part (ps ! i) x \<longrightarrow> in_part (ps ! j) x \<longrightarrow> i = j)"
  by (rule runs_split [OF assms]) (auto simp: splits_def split: if_splits dest: laid_out_once)

lemma no_larger:
  assumes "flash_ok F" "reads_within F" "usable F"
  shows "runs (parse F d) (\<lambda>(r, ps, d). (\<Sum>p\<leftarrow>ps. p_size p) \<le> f_size F)"
  by (rule runs_split [OF assms]) (auto simp: splits_def split: if_splits dest: laid_out_sizes)

end

text \<open>
  A partition that is split once more: its own partitions take its place among those of the device.
\<close>

definition shift_part :: "nat \<Rightarrow> part \<Rightarrow> part" where
  "shift_part off p = p\<lparr>p_offset := off + p_offset p\<rparr>"

definition resplit :: "nat \<Rightarrow> part list \<Rightarrow> part list \<Rightarrow> part list" where
  "resplit i qs ps = take i ps @ map (shift_part (p_offset (ps ! i))) qs @ drop (i + 1) ps"

lemma shift_part_simps [simp]: "p_offset (shift_part a p) = a + p_offset p" "part_end (shift_part a p) = a + part_end p"
  by (simp_all add: shift_part_def part_end_def)

lemma laid_out_resplit:
  assumes "laid_out n ps" "i < length ps" "laid_out (p_size (ps ! i)) qs"
  shows "laid_out n (resplit i qs ps)"
proof -
  let ?p = "ps ! i"
  have ps: "ps = take i ps @ ?p # drop (i + 1) ps" using assms(2) by (simp add: id_take_nth_drop)
  have o: "laid_out n (take i ps @ ?p # drop (i + 1) ps)" using assms(1) ps by metis
  have q: "part_end q \<le> p_size ?p" if "q \<in> set qs" for q
    using assms(3) that by (simp add: laid_out_def list_all_iff)
  have e: "p_offset ?p + p_size ?p = part_end ?p" by (simp add: part_end_def)
  have "part_end ?p \<le> n" using o by (simp add: laid_out_def)
  then have 1: "p_offset ?p + part_end q \<le> n" if "q \<in> set qs" for q using q [OF that] e by linarith
  have 2: "part_end r \<le> p_offset ?p + p_offset q" if "r \<in> set (take i ps)" "q \<in> set qs" for r q
    using o that by (fastforce simp: laid_out_def sorted_wrt_append)
  have 3: "p_offset ?p + part_end q \<le> p_offset r" if "q \<in> set qs" "r \<in> set (drop (i + 1) ps)" for r q
  proof -
    have "part_end ?p \<le> p_offset r" using o that(2) by (simp add: laid_out_def sorted_wrt_append)
    then show ?thesis using q [OF that(1)] e by linarith
  qed
  have 4: "sorted_wrt (\<lambda>p q. part_end p \<le> p_offset q) (map (shift_part (p_offset ?p)) qs)"
    using assms(3) by (simp add: laid_out_def sorted_wrt_map)
  show ?thesis
    using o 1 2 3 4 unfolding laid_out_def resplit_def by (auto simp: sorted_wrt_append list_all_iff)
qed

locale nested_splitters = outer: splitter outer_parse outer_ok + inner: splitter inner_parse inner_ok
  for outer_parse :: "'d flash \<Rightarrow> 'd \<Rightarrow> 'd parsed" and outer_ok
    and inner_parse :: "'e flash \<Rightarrow> 'e \<Rightarrow> 'e parsed" and inner_ok
begin

lemma nested:
  assumes "flash_ok F" "reads_within F" "outer_ok F"
    and "\<And>p. part_end p \<le> f_size F \<Longrightarrow> flash_ok (G p) \<and> reads_within (G p) \<and> f_size (G p) = p_size p"
  shows "runs (outer_parse F d) (\<lambda>(r, ps, d). \<forall>i < length ps. inner_ok (G (ps ! i)) \<longrightarrow>
    runs (inner_parse (G (ps ! i)) d')
      (\<lambda>(r', qs, d'). 0 \<le> r' \<longrightarrow> laid_out (f_size F) (resplit i qs ps)))"
proof (rule outer.runs_split [OF assms(1-3)], clarify)
  fix r ps d i assume s: "splits F (r, ps, d)" and i: "i < length ps" and ok: "inner_ok (G (ps ! i))"
  have l: "laid_out (f_size F) ps" using s i by (auto simp: splits_def split: if_splits)
  then have "part_end (ps ! i) \<le> f_size F" using i by (simp add: laid_out_def list_all_iff)
  note G = assms(4) [OF this]
  show "runs (inner_parse (G (ps ! i)) d') (\<lambda>(r', qs, d'). 0 \<le> r' \<longrightarrow> laid_out (f_size F) (resplit i qs ps))"
    using G ok laid_out_resplit [OF l i]
    by (intro inner.runs_split) (auto simp: splits_def split: if_splits)
qed

end

section \<open>The search\<close>

lemma runs_with_rootfs:
  fixes F :: "'d flash"
  assumes "flash_ok F" "reads_within F" "from < f_size_t F" "\<And>d. Q (- ENOENT, [], d)"
    "\<And>ro ty d. from \<le> ro \<Longrightarrow> ro + 4 \<le> f_size F \<Longrightarrow> Q (k ro ty d)"
  shows "runs (with_rootfs F d from k) Q"
  unfolding with_rootfs_def
proof (rule runs_bind_pairI [OF find_rootfs_ends [OF assms(1-3)]])
  fix r and d :: 'd assume "found F from (f_size F) r"
  then show "runs (Some (case r of Inl e \<Rightarrow> (e, [], d) | Inr (ro, ty) \<Rightarrow> k ro ty d)) Q"
    using assms(4,5) by (auto simp: found_def candidate_def split: sum.splits)
qed

lemma laid_out_split_parts:
  assumes "flash_ok F" "ksize \<le> ro" "ro \<le> f_size F"
  shows "laid_out (f_size F) (split_parts F kname ksize root ro)"
  unfolding split_parts_def using assms by (intro laid_out_two) (simp_all add: flash_ok_def u64_diff)

lemma splits_split_parts:
  assumes "flash_ok F" "ksize \<le> ro" "ro + 4 \<le> f_size F"
  shows "splits F (give_parts F n (split_parts F kname ksize root ro) d)"
  using assms by (intro splits_give_parts laid_out_split_parts) simp_all

lemma flash_ok_simps:
  assumes "flash_ok F"
  shows "f_erasesize F < f_size_t F" "n < 4294967296 \<Longrightarrow> n < f_size_t F" "0 < f_size_t F"
    "f_size F < f_size_t F" "f_size F < 4294967296" "0 < f_erasesize F"
  using assms by (auto simp: flash_ok_def)

section \<open>The parsers\<close>

text \<open>A header that is read or whose error is returned.\<close>

lemma splits_header:
  assumes "reads_within F" "\<And>hdr d. length hdr = n \<Longrightarrow> runs (k hdr d) (splits F)" "0 < n"
  shows "runs (case read_struct F d a n of (Inl e, d) \<Rightarrow> Some (e, [], d) | (Inr hdr, d) \<Rightarrow> k hdr d) (splits F)"
proof (cases "read_struct F d a n")
  case (Pair r d')
  then show ?thesis
    using assms(2) [of _ d'] read_struct_error [OF assms(1)] read_struct_within(1) [OF assms(1)] assms(3)
    by (cases r) auto
qed

lemma lzma_splits:
  assumes "flash_ok F" "reads_within F"
  shows "runs (mtdsplit_parse_lzma F d) (splits F)"
  unfolding mtdsplit_parse_lzma_def
  by (rule splits_header [OF assms(2)])
    (auto intro!: runs_with_rootfs [OF assms] splits_split_parts simp: assms(1) flash_ok_simps [OF assms(1)])

interpretation lzma: splitter mtdsplit_parse_lzma "\<lambda>_. True"
  by unfold_locales (rule lzma_splits)

lemma minor_splits:
  assumes "flash_ok F" "reads_within F"
  shows "runs (mtdsplit_parse_minor F d) (splits F)"
  unfolding mtdsplit_parse_minor_def
  by (rule splits_header [OF assms(2)])
    (auto intro!: runs_with_rootfs [OF assms] splits_split_parts simp: assms(1) flash_ok_simps [OF assms(1)])

interpretation minor: splitter mtdsplit_parse_minor "\<lambda>_. True"
  by unfold_locales (rule minor_splits)

lemma wrgg_splits:
  assumes "flash_ok F" "reads_within F"
  shows "runs (mtdsplit_parse_wrgg F d) (splits F)"
  unfolding mtdsplit_parse_wrgg_def
  by (rule splits_header [OF assms(2)])
    (auto intro!: runs_with_rootfs [OF assms] splits_split_parts
      simp: assms(1) flash_ok_simps [OF assms(1)] MIN_ROOTFS_OFFS_def split: option.splits)

interpretation wrgg: splitter mtdsplit_parse_wrgg "\<lambda>_. True"
  by unfold_locales (rule wrgg_splits)

lemma h3c_splits:
  assumes "flash_ok F" "reads_within F"
  shows "runs (mtdsplit_h3c_vfs_parse F d) (splits F)"
proof -
  have "runs (with_rootfs F d (szt F i) (\<lambda>ro ty d. give_parts F 0 (split_parts F ''kernel'' ro ''rootfs'' ro) d)) (splits F)"
    for d i
    by (rule runs_with_rootfs [OF assms])
      (simp_all add: szt_bound splits_split_parts assms(1) flash_ok_simps [OF assms(1)])
  then show ?thesis
    unfolding mtdsplit_h3c_vfs_parse_def Let_def
    by (simp only: runs_if)
      (intro conjI impI splits_header [OF assms(2)]; simp add: splits_header [OF assms(2)])
qed

interpretation h3c: splitter mtdsplit_h3c_vfs_parse "\<lambda>_. True"
  by unfold_locales (rule h3c_splits)

lemma seama_parts_split:
  assumes "flash_ok F" "28 + metasize \<le> ro" "ro + 4 \<le> f_size F"
  shows "splits F (seama_parts F metasize ro ty d)"
proof -
  have "u64 (int ro - int (28 + metasize)) = ro - (28 + metasize)" "u64 (int (f_size F) - int ro) = f_size F - ro"
    using assms by (intro u64_diff; simp add: flash_ok_def)+
  then show ?thesis
    unfolding seama_parts_def using assms by (intro splits_give_parts laid_out_two) simp_all
qed

text \<open>Where a \<open>size_t\<close> has more than 32 bits, the sum of the sizes in a Seama header does not wrap around.\<close>

definition wide_size_t :: "'d flash \<Rightarrow> bool" where
  "wide_size_t F \<longleftrightarrow> 8589934592 \<le> f_size_t F"

lemma seama_splits:
  assumes "flash_ok F" "reads_within F" "wide_size_t F"
  shows "runs (mtdsplit_parse_seama F d) (splits F)"
proof -
  have "runs (if be_at 4 0 hdr \<noteq> SEAMA_MAGIC then Some (- EINVAL, [], d)
          else
            let metasize = be_at 2 6 hdr;
                kernel_ent_size = szt F (int (28 + be_at 4 8 hdr + metasize))
            in if kernel_ent_size > f_size F then Some (- EINVAL, [], d)
               else (case mtd_check_rootfs_magic F d kernel_ent_size of
                   (Inr ty, d) \<Rightarrow> Some (seama_parts F metasize kernel_ent_size ty d)
                 | (Inl _, d) \<Rightarrow> with_rootfs F d MIN_ROOTFS_OFFS (seama_parts F metasize))) (splits F)" for hdr d
  proof -
    have m: "be_at 2 6 hdr < 65536" "be_at 4 8 hdr < 4294967296" using be_at_bound [of 2 6 hdr] be_at_bound [of 4 8 hdr] by simp_all
    then have z: "szt F (int (28 + be_at 4 8 hdr + be_at 2 6 hdr)) = 28 + be_at 4 8 hdr + be_at 2 6 hdr"
      using assms(3) by (intro szt_small) (simp add: wide_size_t_def)
    have w: "runs (with_rootfs F d MIN_ROOTFS_OFFS (seama_parts F (be_at 2 6 hdr))) (splits F)" for d
      using m by (intro runs_with_rootfs [OF assms(1,2)] seama_parts_split assms(1))
        (simp_all add: MIN_ROOTFS_OFFS_def flash_ok_simps [OF assms(1)])
    show ?thesis
      unfolding Let_def z
      by (auto split: sum.splits prod.splits simp: w dest!: check_rootfs_within [OF assms(2)]
          intro!: seama_parts_split assms(1))
  qed
  then show ?thesis unfolding mtdsplit_parse_seama_def by (intro splits_header [OF assms(2)]) simp_all
qed

interpretation seama: splitter mtdsplit_parse_seama wide_size_t
  by unfold_locales (rule seama_splits)

lemma roundup_to_bounds:
  assumes "0 < es"
  shows "sz \<le> roundup_to sz es" "roundup_to sz es < sz + es"
proof -
  have "sz div es * es + sz mod es = sz" "sz mod es < es" using assms by simp_all
  moreover have "(sz div es + 1) * es = sz div es * es + es" by (simp add: add_mult_distrib)
  ultimately have "sz \<le> roundup_to sz es \<and> roundup_to sz es < sz + es"
    using assms unfolding roundup_to_def by (cases "sz mod es = 0") (simp, simp only: if_False, linarith)
  then show "sz \<le> roundup_to sz es" "roundup_to sz es < sz + es" by simp_all
qed

lemma eva_splits:
  assumes "flash_ok F" "reads_within F" "wide_size_t F"
  shows "runs (mtdsplit_parse_eva F d) (splits F)"
proof -
  have s: "splits F (give_parts F 0 (split_parts F ''kernel'' k ''rootfs'' ro) d)"
    if k: "k < 4294967296" and ro: "ro = szt F (int (szt F (int (roundup_to k 0x10000)) + 0x100))" and n: "ro + 4 \<le> f_size F" for k ro d
  proof -
    have "roundup_to k 0x10000 < k + 0x10000" "k \<le> roundup_to k 0x10000" by (simp_all add: roundup_to_bounds)
    moreover from this have "szt F (int (roundup_to k 0x10000)) = roundup_to k 0x10000"
      using k assms(3) by (intro szt_small) (simp add: wide_size_t_def)
    moreover from calculation have "szt F (int (roundup_to k 0x10000 + 0x100)) = roundup_to k 0x10000 + 0x100"
      using k assms(3) by (intro szt_small) (simp add: wide_size_t_def)
    ultimately have "k \<le> ro" unfolding ro by simp
    then show ?thesis using n by (intro splits_split_parts assms(1))
  qed
  show ?thesis
    unfolding mtdsplit_parse_eva_def Let_def
    by (intro splits_header [OF assms(2)])
      (auto split: sum.splits prod.splits intro!: s u32_of_bound
        dest: check_rootfs_within [OF assms(2)] check_rootfs_error [OF assms(2)])
qed

interpretation eva: splitter mtdsplit_parse_eva wide_size_t
  by unfold_locales (rule eva_splits)

lemma mstc_image_splits:
  assumes "flash_ok F" "reads_within F"
  shows "runs (mstcboot_parse_image_parts F d) (splits F)"
proof -
  have o: "laid_out (f_size F) ((if b then [mk_part ''kernel'' 0 ro] else []) @ [mk_part n ro (u64 (int (f_size F) - int ro))])"
    if "ro + 4 \<le> f_size F" for b ro n
    using that assms(1) by (auto simp: laid_out_def part_end_def flash_ok_def u64_diff)
  have "runs (with_rootfs F d k (\<lambda>ro ty d. give_parts F 0 ((if b then [mk_part ''kernel'' 0 ro] else [])
           @ [mk_part (rootfs_name ty) ro (u64 (int (f_size F) - int ro))]) d)) (splits F)" if "k < f_size_t F" for d k b
    using that by (intro runs_with_rootfs [OF assms] splits_give_parts o) simp_all
  moreover have "be_at 4 4 hdr < 4294967296" for hdr using be_at_bound [of 4 4 hdr] by simp
  ultimately show ?thesis
    unfolding mstcboot_parse_image_parts_def Let_def
    by (intro splits_header [OF assms(2)]) (simp_all add: flash_ok_simps [OF assms(1)] szt_bound)
qed

interpretation mstc_image: splitter mstcboot_parse_image_parts "\<lambda>_. True"
  by unfold_locales (rule mstc_image_splits)

text \<open>
  The table of an ELF header is read entry by entry as far as the device goes, so that the loop ends, unless the
  place of the next entry wraps around.
\<close>

definition elf_usable :: "'d flash \<Rightarrow> bool" where
  "elf_usable F \<longleftrightarrow> f_size F + 65536 \<le> f_size_t F"

lemma elf_loop_ends:
  assumes "reads_within F" "elf_usable F" "0 < n" "ps < 65536" "ps = 0 \<longrightarrow> table_end \<le> ph_entry"
    "\<And>ph. e ph < f_size_t F" "sz < f_size_t F"
  shows "runs (elf_loop F n e ps table_end ph_entry sz d) (\<lambda>(r, d). case r of Inl er \<Rightarrow> er < 0 | Inr k \<Rightarrow> k < f_size_t F)"
  using assms(5,7)
proof (induction "table_end - ph_entry" arbitrary: ph_entry sz d rule: less_induct)
  case less
  show ?case
  proof (cases "ph_entry < table_end")
    case True
    obtain r d' where r: "mtdsplit_elf_read_mtd F d ph_entry n = (r, d')" by fastforce
    note r' = r [unfolded mtdsplit_elf_read_mtd_def]
    show ?thesis
    proof (cases r)
      case (Inl er)
      then show ?thesis
        using True r read_struct_error [OF assms(1)] r' by (subst elf_loop.simps) auto
    next
      case (Inr ph)
      have "ph_entry + n \<le> f_size F" using read_struct_within(2) [OF assms(1) _ assms(3)] r' Inr by blast
      then have n: "szt F (int (ph_entry + ps)) = ph_entry + ps"
        using assms(2,4) by (intro szt_small) (simp add: elf_usable_def)
      have "0 < ps" using less.prems(1) True by auto
      then have "runs (elf_loop F n e ps table_end (ph_entry + ps) (max sz (e ph)) d')
          (\<lambda>(r, d). case r of Inl er \<Rightarrow> er < 0 | Inr k \<Rightarrow> k < f_size_t F)"
        using True less.prems(2) assms(6) by (intro less.hyps) auto
      then show ?thesis using True r Inr n by (subst elf_loop.simps) (simp del: of_nat_add)
    qed
  next
    case False
    then show ?thesis using less.prems(2) by (subst elf_loop.simps) simp
  qed
qed

lemma cpu_at_bound: "cpu_at F n off bs < 256 ^ n"
  by (simp add: cpu_at_def be_at_bound le_at_bound)

lemma elf_size_ends:
  assumes "flash_ok F" "reads_within F" "elf_usable F"
  shows "runs (elf32_determine_size F hdr d) (\<lambda>(r, d). case r of Inl er \<Rightarrow> er < 0 | Inr k \<Rightarrow> k < f_size_t F)"
    "runs (elf64_determine_size F hdr d) (\<lambda>(r, d). case r of Inl er \<Rightarrow> er < 0 | Inr k \<Rightarrow> k < f_size_t F)"
proof -
  note b = flash_ok_simps [OF assms(1)]
  have c: "cpu_at F 2 off hdr < 65536" "cpu_at F 4 off hdr < 4294967296" "cpu_at F 8 off hdr < 18446744073709551616" for off
    using cpu_at_bound [of F 2 off hdr] cpu_at_bound [of F 4 off hdr] cpu_at_bound [of F 8 off hdr] by simp_all
  show "runs (elf32_determine_size F hdr d) (\<lambda>(r, d). case r of Inl er \<Rightarrow> er < 0 | Inr k \<Rightarrow> k < f_size_t F)"
    unfolding elf32_determine_size_def Let_def
    using c b by (auto intro!: elf_loop_ends [OF assms(2,3)] b(2) u32_of_bound simp: s32_def)
  show "runs (elf64_determine_size F hdr d) (\<lambda>(r, d). case r of Inl er \<Rightarrow> er < 0 | Inr k \<Rightarrow> k < f_size_t F)"
    unfolding elf64_determine_size_def Let_def
    using c b by (auto intro!: elf_loop_ends [OF assms(2,3)] szt_bound simp: s32_def)
qed

lemma elf_splits:
  assumes "flash_ok F" "reads_within F" "elf_usable F"
  shows "runs (mtdsplit_parse_elf F d) (splits F)"
proof -
  have w: "runs (with_rootfs F d k (\<lambda>ro ty d. if ro = f_size F then (- ENOENT, [], d)
      else give_parts F 0 (split_parts F ''kernel'' ro (rootfs_name ty) ro) d)) (splits F)" if "k < f_size_t F" for d k
    using that by (intro runs_with_rootfs [OF assms(1,2)]) (simp_all add: splits_split_parts assms(1))
  have "runs (do {
            (r, d) \<leftarrow> (if le_at 1 4 hdr = 1 then elf32_determine_size F hdr d
                       else if le_at 1 4 hdr = 2 then elf64_determine_size F hdr d
                       else Some (Inl (- EINVAL), d));
            (case r of
               Inl e \<Rightarrow> Some (e, [], d)
             | Inr loader_size \<Rightarrow>
                 with_rootfs F d loader_size
                   (\<lambda>ro ty d. if ro = f_size F then (- ENOENT, [], d)
                      else give_parts F 0 (split_parts F ''kernel'' ro (rootfs_name ty) ro) d))
          }) (splits F)" for hdr d
  proof (rule runs_bind_pairI [where P = "\<lambda>r d. case r of Inl er \<Rightarrow> er < 0 | Inr k \<Rightarrow> k < f_size_t F"])
    show "runs (if le_at 1 4 hdr = 1 then elf32_determine_size F hdr d
        else if le_at 1 4 hdr = 2 then elf64_determine_size F hdr d else Some (Inl (- EINVAL), d))
      (\<lambda>(r, d). case r of Inl er \<Rightarrow> er < 0 | Inr k \<Rightarrow> k < f_size_t F)"
      using elf_size_ends [OF assms] by simp
  qed (auto split: sum.splits intro: w)
  then show ?thesis
    unfolding mtdsplit_parse_elf_def mtdsplit_elf_read_mtd_def by (intro splits_header [OF assms(2)]) simp_all
qed

interpretation elf: splitter mtdsplit_parse_elf elf_usable
  by unfold_locales (rule elf_splits)

text \<open>
  The partition of \<open>squashfs\<close> begins at the first erase block of the device behind the file system, when the
  partition that was split ends at one.
\<close>

definition ends_at_block :: "'d flash \<Rightarrow> bool" where
  "ends_at_block F \<longleftrightarrow> 0 < f_master_erasesize F \<and> f_master_erasesize F dvd f_offset F + f_size F
     \<and> f_offset F + f_size F + f_master_erasesize F < 4294967296"

lemma mtd_roundup_to_least:
  assumes "0 < es" "sz + es < 4294967296"
  shows "es dvd mtd_roundup_to sz es" "sz \<le> mtd_roundup_to sz es" "es dvd n \<Longrightarrow> sz \<le> n \<Longrightarrow> mtd_roundup_to sz es \<le> n"
proof -
  show d: "es dvd mtd_roundup_to sz es"
    using mtd_roundup_small [OF assms] by (cases "sz mod es = 0") (auto simp: mtd_roundup_to_def mod_0_imp_dvd)
  have e: "mtd_roundup_to sz es = roundup_to sz es"
    using mtd_roundup_small [OF assms] by (cases "sz mod es = 0") (simp_all add: mtd_roundup_to_def roundup_to_def)
  then show "sz \<le> mtd_roundup_to sz es" using roundup_to_bounds(1) [OF assms(1)] by simp
  show "mtd_roundup_to sz es \<le> n" if n: "es dvd n" "sz \<le> n"
  proof (rule ccontr)
    assume "\<not> mtd_roundup_to sz es \<le> n"
    then have "n < mtd_roundup_to sz es" "mtd_roundup_to sz es < n + es"
      using roundup_to_bounds(2) [OF assms(1), of sz] n(2) e by simp_all
    moreover obtain a b where "n = es * a" "mtd_roundup_to sz es = es * b" using n(1) d by (auto elim!: dvdE)
    ultimately have "es * a < es * b" "es * b < es * (a + 1)" by (simp_all add: algebra_simps)
    then have "a < b" "b < a + 1" using mult_less_cancel1 by blast+
    then show False by simp
  qed
qed

definition squashfs_parts :: "'d flash \<Rightarrow> nat \<Rightarrow> part list" where
  "squashfs_parts F n =
     (let off = mtd_roundup_to (f_offset F + n) (f_master_erasesize F) - f_offset F
      in [mk_part ''rootfs_data'' off (mtd_rounddown_to_eb (f_size F - off) F)])"

lemma squashfs_result:
  assumes "flash_ok F" "ends_at_block F" "mtd_get_squashfs_len F d 0 = (Inr n, d')"
  shows "mtdsplit_parse_squashfs F d = Some (give_parts F 0 (squashfs_parts F n) d')" "n \<le> f_size F"
    "laid_out (f_size F) (squashfs_parts F n)"
proof -
  note e = assms(2) [unfolded ends_at_block_def]
  have n: "szt F (int n) \<le> f_size F \<and> n < f_size_t F"
    using assms(3) szt_bound [OF flash_ok_simps(3) [OF assms(1)]]
    by (auto simp: mtd_get_squashfs_len_def Let_def split: sum.splits prod.splits if_splits)
  then show ns: "n \<le> f_size F" by (metis szt_small)
  let ?es = "f_master_erasesize F" and ?o = "f_offset F"
  let ?r = "mtd_roundup_to (?o + n) ?es"
  have small: "?o + n + ?es < 4294967296" using ns e by linarith
  have r: "?o + n \<le> ?r" "?r \<le> ?o + f_size F"
    using mtd_roundup_to_least [of ?es "?o + n"] small e ns by simp_all
  have z: "szt F (int ?o) = ?o" "szt F (int (?o + n)) = ?o + n"
    using small flash_ok_simps(2) [OF assms(1)] by (intro szt_small; simp)+
  have u: "u64 (int ?r) = ?r" using r e by simp
  have "u64 (int ?r - int ?o) = ?r - ?o" using r e by (intro u64_diff) linarith+
  moreover have "u64 (int (f_size F) - int (?r - ?o)) = f_size F - (?r - ?o)" using r e by (intro u64_diff) linarith+
  ultimately show "mtdsplit_parse_squashfs F d = Some (give_parts F 0 (squashfs_parts F n) d')"
    using assms(3) by (simp add: mtdsplit_parse_squashfs_def squashfs_parts_def Let_def z u del: of_nat_add)
  have "mtd_rounddown_to_eb (f_size F - (?r - ?o)) F \<le> f_size F - (?r - ?o)"
  proof -
    have "f_size F - (?r - ?o) < 4294967296" using e by linarith
    then show ?thesis by (metis mtd_rounddown_small div_times_less_eq_dividend)
  qed
  then show "laid_out (f_size F) (squashfs_parts F n)"
    using r by (simp add: squashfs_parts_def Let_def laid_out_def part_end_def)
qed

lemma squashfs_splits:
  assumes "flash_ok F" "ends_at_block F"
  shows "runs (mtdsplit_parse_squashfs F d) (splits F)"
proof (cases "mtd_get_squashfs_len F d 0")
  case (Pair r d')
  show ?thesis
  proof (cases r)
    case (Inl e)
    then have "e < 0" using Pair by (auto simp: mtd_get_squashfs_len_def Let_def split: sum.splits prod.splits if_splits)
    then show ?thesis using Inl Pair by (simp add: mtdsplit_parse_squashfs_def)
  next
    case (Inr n)
    then show ?thesis using squashfs_result [OF assms] Pair splits_give_parts by (metis runs_Some)
  qed
qed

interpretation squashfs: splitter mtdsplit_parse_squashfs ends_at_block
  by unfold_locales (rule squashfs_splits)

interpretation seama_squashfs: nested_splitters mtdsplit_parse_seama wide_size_t mtdsplit_parse_squashfs ends_at_block
  by unfold_locales

end
