(* ===== verification/Split_Spec.thy ===== *)
theory Split_Spec
  imports Split_Laws
begin

text \<open>
  The scanning parsers over a flash that holds \<open>mem\<close>: the block at which the scan ends, the images of U-Boot by
  their headers, and the partitions that follow from an image.
\<close>

section \<open>The scan\<close>

text \<open>The first block at which the scan stops, or the end of the last block.\<close>

definition stops_at :: "'d flash \<Rightarrow> (nat \<Rightarrow> bool) \<Rightarrow> nat \<Rightarrow> bool" where
  "stops_at F stop c \<longleftrightarrow> f_erasesize F dvd c \<and> c < f_size F + f_erasesize F \<and> (c < f_size F \<longrightarrow> stop c)
     \<and> (\<forall>b. f_erasesize F dvd b \<longrightarrow> b < c \<longrightarrow> b < f_size F \<longrightarrow> \<not> stop b)"

text \<open>The block whose round was the last one.\<close>

definition last_round :: "'d flash \<Rightarrow> nat \<Rightarrow> nat" where
  "last_round F c = (if c < f_size F then c else c - f_erasesize F)"

lemma eb_scan_from:
  assumes "flash_ok F" "\<And>c d. c < f_size F \<Longrightarrow> \<exists>d'. body c d = ((val c, stop c), d')"
    and "f_erasesize F dvd c" "c < f_size F + f_erasesize F"
    and "\<forall>b. f_erasesize F dvd b \<longrightarrow> b < c \<longrightarrow> b < f_size F \<longrightarrow> \<not> stop b"
    and "f_size F \<le> c \<longrightarrow> r = val (c - f_erasesize F)"
  shows "runs (eb_scan F body c r d) (\<lambda>(c, r, d). stops_at F stop c \<and> r = val (last_round F c))"
  using assms(3-6)
proof (induction "f_size F - c" arbitrary: c r d rule: less_induct)
  case less
  show ?case
  proof (cases "c < f_size F")
    case True
    obtain d' where b: "body c d = ((val c, stop c), d')" using assms(2) [OF True] by blast
    have e: "0 < f_erasesize F" "f_size F + f_erasesize F \<le> f_size_t F" using assms(1) by (simp_all add: flash_ok_def)
    show ?thesis
    proof (cases "stop c")
      case True
      then show ?thesis using \<open>c < f_size F\<close> b less.prems
        by (subst eb_scan.simps) (simp add: stops_at_def last_round_def)
    next
      case False
      have n: "szt F (int (c + f_erasesize F)) = c + f_erasesize F" using True e by (intro szt_small) linarith
      have "\<not> stop b" if h: "f_erasesize F dvd b" "b < c + f_erasesize F" "b < f_size F" for b
      proof -
        obtain i where i: "c = f_erasesize F * i" using less.prems(1) by (rule dvdE)
        obtain j where j: "b = f_erasesize F * j" using h(1) by (rule dvdE)
        have "f_erasesize F * j < f_erasesize F * (i + 1)" using h(2) i j by (simp add: add_mult_distrib2)
        then have "j < i + 1" using mult_less_cancel1 by blast
        then have "b = c \<or> b < c" using i j e(1) by (cases "j = i") auto
        then show ?thesis using False less.prems(3) h by auto
      qed
      then have "runs (eb_scan F body (c + f_erasesize F) (val c) d')
          (\<lambda>(c, r, d). stops_at F stop c \<and> r = val (last_round F c))"
        using True e less.prems by (intro less.hyps) auto
      then show ?thesis using True False b n by (subst eb_scan.simps) (simp del: of_nat_add)
    qed
  next
    case False
    then show ?thesis using less.prems by (subst eb_scan.simps) (simp add: stops_at_def last_round_def)
  qed
qed

lemma eb_scan_pure:
  assumes "flash_ok F" "0 < f_size F" "\<And>c d. c < f_size F \<Longrightarrow> \<exists>d'. body c d = ((val c, stop c), d')"
  shows "runs (eb_scan F body 0 r d) (\<lambda>(c, r, d). stops_at F stop c \<and> r = val (last_round F c))"
  using assms by (intro eb_scan_from) simp_all

lemma stops_at_first:
  assumes "stops_at F stop c" "stop b" "f_erasesize F dvd b" "b < f_size F" "\<forall>a < b. \<not> (f_erasesize F dvd a \<and> stop a)"
  shows "c = b"
  using assms unfolding stops_at_def by (metis linorder_neqE_nat order_less_trans)

lemma stops_at_end:
  assumes "stops_at F stop c" "\<forall>b < f_size F. f_erasesize F dvd b \<longrightarrow> \<not> stop b"
  shows "f_size F \<le> c"
  using assms unfolding stops_at_def by (metis not_le)

section \<open>uImage\<close>

text \<open>The size of the image whose header stands at an offset, with its padding, \<open>None\<close> for no header.\<close>

definition uimage_at :: "uimage_conf \<Rightarrow> 'd flash \<Rightarrow> (nat \<Rightarrow> byte) \<Rightarrow> nat \<Rightarrow> nat option" where
  "uimage_at c F mem off =
     (let ho = header_offset c; hdr = slice mem (off + ho) 64
      in if f_size F < off + 64 + ho then None
         else if ho \<noteq> 0 \<and> part_magic c \<noteq> 0 \<and> be_at 4 0 (slice mem off 4) \<noteq> part_magic c then None
         else if be_at 4 0 hdr = ih_magic c \<and> le_at 1 28 hdr = IH_OS_LINUX \<and> le_at 1 30 hdr = ih_type c
           then Some (szt F (int (64 + be_at 4 12 hdr + ho) + extralen c))
         else None)"

definition uimage_size_at :: "uimage_conf \<Rightarrow> 'd flash \<Rightarrow> (nat \<Rightarrow> byte) \<Rightarrow> nat \<Rightarrow> nat" where
  "uimage_size_at c F mem off = (case uimage_at c F mem off of None \<Rightarrow> 0 | Some n \<Rightarrow> n)"

definition uimage_fits :: "uimage_conf \<Rightarrow> 'd flash \<Rightarrow> (nat \<Rightarrow> byte) \<Rightarrow> nat \<Rightarrow> bool" where
  "uimage_fits c F mem off =
     (case uimage_at c F mem off of None \<Rightarrow> False | Some n \<Rightarrow> szt F (int (off + n)) \<le> f_size F)"

lemma slice_drop: "drop k (slice mem a n) = slice mem (a + k) (n - k)"
  by (rule nth_equalityI) (simp_all add: slice_def ac_simps)

lemma slice_take: "take k (slice mem a n) = slice mem a (min k n)"
  by (rule nth_equalityI) (simp_all add: slice_def)

lemma be_at_slice: "off + n \<le> m \<Longrightarrow> be_at n off (slice mem a m) = be_at n 0 (slice mem (a + off) n)"
  by (simp add: be_at_def slice_drop slice_take)

lemma le_at_slice: "off + n \<le> m \<Longrightarrow> le_at n off (slice mem a m) = le_at n 0 (slice mem (a + off) n)"
  by (simp add: le_at_def slice_drop slice_take)

lemma cpu_at_slice: "off + n \<le> m \<Longrightarrow> cpu_at F n off (slice mem a m) = cpu_at F n 0 (slice mem (a + off) n)"
  by (simp add: cpu_at_def be_at_slice [of off n m] le_at_slice [of off n m])

lemma uimage_round_mem:
  assumes "reads_mem F mem" "64 + header_offset c < f_size_t F"
  shows "\<exists>d'. uimage_round c F off d = ((uimage_size_at c F mem off, uimage_fits c F mem off), d')"
proof -
  let ?n = "64 + header_offset c"
  have n: "szt F (int ?n) = ?n" using assms(2) by (intro szt_small)
  have b: "be_at 4 0 (slice mem off ?n) = be_at 4 0 (slice mem off 4)"
    using be_at_slice [of 0 4 ?n mem off] by simp
  have v: "uimage_verify_default (slice mem (off + header_offset c) 64) m t < 0 \<longleftrightarrow>
      \<not> (be_at 4 0 (slice mem (off + header_offset c) 64) = m \<and> le_at 1 28 (slice mem (off + header_offset c) 64) = IH_OS_LINUX
        \<and> le_at 1 30 (slice mem (off + header_offset c) 64) = t)" for m t
    by (simp add: uimage_verify_default_def)
  show ?thesis
  proof (cases rule: read_struct_mem [OF assms(1), of ?n off d, case_names pos inside beyond])
    case (inside d')
    then show ?thesis
      by (auto simp: uimage_round_def read_uimage_header_def n b v slice_drop uimage_size_at_def uimage_fits_def
          uimage_at_def Let_def simp del: of_nat_add)
  next
    case (beyond e d')
    then show ?thesis
      by (simp add: uimage_round_def read_uimage_header_def n uimage_size_at_def uimage_fits_def uimage_at_def Let_def
          del: of_nat_add)
  qed simp
qed

section \<open>The partitions\<close>

definition image_result ::
  "'d flash \<Rightarrow> (nat \<Rightarrow> byte) \<Rightarrow> (int \<Rightarrow> int) \<Rightarrow> nat \<Rightarrow> nat \<Rightarrow> int \<Rightarrow> part list \<Rightarrow> bool" where
  "image_result F mem no_rootfs off n r ps \<longleftrightarrow>
     (if off = 0 then
        \<exists>res. first_rootfs F mem (szt F (int n)) (f_size F) res \<and>
          (case res of
             Inl e \<Rightarrow> r = e \<and> ps = []
           | Inr (ro, ty) \<Rightarrow>
               r = 2 \<and> ps = [mk_part ''kernel'' 0 ro, mk_part (rootfs_name ty) ro (f_size F - ro)])
      else
        (case rootfs_at F mem 0 of
           None \<Rightarrow> (\<exists>e < 0. r = no_rootfs e) \<and> ps = []
         | Some ty \<Rightarrow> r = 2 \<and> ps = [mk_part (rootfs_name ty) 0 off, mk_part ''kernel'' off n]))"

lemma image_parts_mem:
  assumes "flash_ok F" "reads_mem F mem"
  shows "runs (image_parts F d off n no_rootfs) (\<lambda>(r, ps, d). image_result F mem no_rootfs off n r ps)"
proof (cases "off = 0")
  case True
  have f: "runs (mtd_find_rootfs_from F d (szt F (int n)) (f_size F)) (\<lambda>(r, d). first_rootfs F mem (szt F (int n)) (f_size F) r)"
    using assms flash_ok_simps(3) [OF assms(1)] by (intro find_rootfs_first szt_bound)
  have z: "szt F (int (f_size F) - int ro) = f_size F - ro \<and> f_size F - ro \<noteq> 0 \<and> szt F (int ro) = ro" if "ro < f_size F" for ro
  proof -
    have "int (f_size F) - int ro = int (f_size F - ro)" using that by simp
    then show ?thesis using that flash_ok_simps(4) [OF assms(1)] by (simp del: of_nat_diff)
  qed
  have eq: "image_parts F d off n no_rootfs = Option.bind (mtd_find_rootfs_from F d (szt F (int n)) (f_size F))
      (\<lambda>(r, d). case r of Inl e \<Rightarrow> Some (e, [], d)
         | Inr (ro, ty) \<Rightarrow>
             let rootfs_size = szt F (int (f_size F) - int ro)
             in if rootfs_size = 0 then Some (- ENOENT, [], d)
                else Some (2, [mk_part ''kernel'' 0 (szt F (int ro - int 0)), mk_part (rootfs_name ty) ro rootfs_size], d))"
    using True by (simp add: image_parts_def)
  show ?thesis
    unfolding eq
  proof (rule runs_bind_pairI [OF f])
    fix r d assume f: "first_rootfs F mem (szt F (int n)) (f_size F) r"
    show "runs (case r of Inl e \<Rightarrow> Some (e, [], d)
         | Inr (ro, ty) \<Rightarrow>
             let rootfs_size = szt F (int (f_size F) - int ro)
             in if rootfs_size = 0 then Some (- ENOENT, [], d)
                else Some (2, [mk_part ''kernel'' 0 (szt F (int ro - int 0)), mk_part (rootfs_name ty) ro rootfs_size], d))
      (\<lambda>(r, ps, d). image_result F mem no_rootfs off n r ps)"
    proof (cases r)
      case (Inl e)
      then show ?thesis using f True by (auto simp: image_result_def)
    next
      case (Inr x)
      obtain ro ty where x: "x = (ro, ty)" by fastforce
      then have "ro < f_size F" using f Inr by (simp add: first_rootfs_def)
      then show ?thesis using f True Inr x z [of ro] by (auto simp: image_result_def Let_def intro!: exI [of _ r])
    qed
  qed
next
  case False
  then show ?thesis
    by (cases rule: check_rootfs_mem [OF assms(2), of d 0]) (auto simp: image_parts_def image_result_def)
qed

lemma uimage_runs:
  assumes "flash_ok F" "reads_mem F mem" "f_alloc F 0" "f_alloc F 1" "0 < f_size F"
    "64 + header_offset (uimage_parse_dt np) < f_size_t F"
  shows "runs (mtdsplit_parse_uimage np F d) (\<lambda>(r, ps, d). \<exists>off.
    stops_at F (uimage_fits (uimage_parse_dt np) F mem) off \<and>
    (let n = uimage_size_at (uimage_parse_dt np) F mem (last_round F off)
     in if n = 0 then r = 0 \<and> ps = [] else image_result F mem (\<lambda>_. - ENOENT) off n r ps))"
proof -
  let ?c = "uimage_parse_dt np"
  have s: "runs (eb_scan F (uimage_round ?c F) 0 0 d) (\<lambda>(off, n, d). stops_at F (uimage_fits ?c F mem) off
      \<and> n = uimage_size_at ?c F mem (last_round F off))"
    by (rule eb_scan_pure [OF assms(1,5)]) (rule uimage_round_mem [OF assms(2,6)])
  have i: "runs (image_parts F d off n (\<lambda>_. - ENOENT)) (\<lambda>(r, ps, d). image_result F mem (\<lambda>_. - ENOENT) off n r ps)" for off n d
    by (rule image_parts_mem [OF assms(1,2)])
  have eq: "mtdsplit_parse_uimage np F d = Option.bind (eb_scan F (uimage_round ?c F) 0 0 d)
      (\<lambda>(off, n, d). if n = 0 then Some (0, [], d) else image_parts F d off n (\<lambda>_. - ENOENT))"
    using assms(3,4) by (simp add: mtdsplit_parse_uimage_def)
  show ?thesis
    unfolding eq
  proof (rule runs_bindI [OF s], clarify)
    fix off d assume off: "stops_at F (uimage_fits ?c F mem) off"
    let ?n = "uimage_size_at ?c F mem (last_round F off)"
    show "runs (if ?n = 0 then Some (0, [], d) else image_parts F d off ?n (\<lambda>_. - ENOENT))
      (\<lambda>(r, ps, d). \<exists>off. stops_at F (uimage_fits ?c F mem) off \<and>
        (let n = uimage_size_at ?c F mem (last_round F off)
         in if n = 0 then r = 0 \<and> ps = [] else image_result F mem (\<lambda>_. - ENOENT) off n r ps))"
      using off by (auto simp: Let_def intro!: runs_mono [OF i])
  qed
qed

end
