(* ===== verification/Split_Faults.thy ===== *)
theory Split_Faults
  imports Split_Spec
begin

text \<open>
  Inputs on which a parser does not return, accesses memory outside of a buffer, or returns an error together
  with partitions.
\<close>

section \<open>Loops without progress\<close>

text \<open>A node of length zero in the boot file system keeps the loop of \<open>mtdsplit_cfe_bootfs_parse\<close> at its place.\<close>

definition empty_node :: "'d flash \<Rightarrow> (nat \<Rightarrow> byte) \<Rightarrow> nat \<Rightarrow> bool" where
  "empty_node F mem off \<longleftrightarrow> off + 40 \<le> f_size F \<and> 4 dvd off \<and> off + 3 < f_size_t F
     \<and> cpu_at F 2 0 (slice mem off 40) = JFFS2_MAGIC_BITMASK \<and> cpu_at F 4 4 (slice mem off 40) = 0"

lemma cfe_bootfs_loop_diverges:
  fixes F :: "'d flash"
  assumes "reads_mem F mem" "empty_node F mem off"
  shows "cfe_bootfs_loop F d off = None"
proof -
  have "F' = F \<longrightarrow> off' = off \<longrightarrow> False" if "cfe_bootfs_loop F' d off' = Some y" for F' :: "'d flash" and d off' y
    using that
  proof (induction F' d off' y rule: cfe_bootfs_loop.raw_induct [rotated 1, consumes 1, case_names step])
    case (step f F' d off' y)
    have s: "szt F (int off) = off" "szt F (int off + 3) div 4 * 4 = off" "off < f_size F"
    proof -
      obtain k where k: "off = 4 * k" using assms(2) by (auto simp: empty_node_def elim: dvdE)
      have "szt F (int off + 3) = off + 3" using assms(2) szt_small [of "off + 3" F] by (simp add: empty_node_def)
      then show "szt F (int off + 3) div 4 * 4 = off" using k by simp
    qed (use assms(2) in \<open>simp_all add: empty_node_def\<close>)
    show ?case
    proof (intro impI)
      assume e: "F' = F" "off' = off"
      obtain d' where "read_struct F d off 40 = (Inr (slice mem off 40), d')"
        using assms by (cases rule: read_struct_mem [OF assms(1), of 40 off d]) (auto simp: empty_node_def)
      then have "f F d' off = Some y"
        using step.hyps e assms(2) s by (simp add: empty_node_def Let_def)
      then show False using step.IH e by blast
    qed
  qed
  then show ?thesis by (cases "cfe_bootfs_loop F d off") auto
qed

text \<open>So does a directory entry of length zero in the search for a file.\<close>

definition stuck_node :: "(byte list \<Rightarrow> nat) \<Rightarrow> 'd flash \<Rightarrow> byte list \<Rightarrow> byte list \<Rightarrow> nat \<Rightarrow> bool" where
  "stuck_node crc32 F buf name off \<longleftrightarrow> off < f_erasesize F \<and> 4 dvd off \<and> off + 3 < 4294967296
     \<and> jffs2_dirent_valid crc32 F (drop off buf) = Some True
     \<and> mem_equal buf (off + 40) OPENWRT_NAME = Some False \<and> mem_equal buf (off + 40) name = Some False
     \<and> cpu_at F 4 4 (drop off buf) = 0"

lemma jffs2_nodes_diverges:
  fixes F :: "'d flash"
  assumes "stuck_node crc32 F buf name off"
  shows "jffs2_nodes crc32 F out buf name valid off = None"
proof -
  have "c' = crc32 \<longrightarrow> F' = F \<longrightarrow> buf' = buf \<longrightarrow> name' = name \<longrightarrow> off' = off \<longrightarrow> False"
    if "jffs2_nodes c' F' out' buf' name' valid' off' = Some y" for c' and F' :: "'d flash" and out' buf' name' valid' off' y
    using that
  proof (induction c' F' out' buf' name' valid' off' y
      rule: jffs2_nodes.raw_induct [rotated 1, consumes 1, case_names step])
    case (step f c' F' out' buf' name' valid' off' y)
    have "u32_of (int off + 3) div 4 * 4 = off"
    proof -
      obtain k where k: "off = 4 * k" using assms by (auto simp: stuck_node_def elim: dvdE)
      have "u32_of (int off + 3) = off + 3" using assms u32_of_small [of "off + 3"] by (simp add: stuck_node_def)
      then show ?thesis using k by simp
    qed
    then have "f crc32 F out' buf name valid' off = Some y"
      if "c' = crc32" "F' = F" "buf' = buf" "name' = name" "off' = off"
      using step.hyps assms that by (simp add: stuck_node_def)
    then show ?case using step.IH by blast
  qed
  then show ?thesis by (cases "jffs2_nodes crc32 F out buf name valid off") blast+
qed

lemma jffs2_find_file_diverges:
  fixes F :: "'d flash"
  assumes "reads_mem F mem" "2 \<le> f_erasesize F" "f_erasesize F \<le> f_size F" "0 < sz"
    "stuck_node crc32 F (slice mem 0 (f_erasesize F)) name 0"
  shows "jffs2_find_file crc32 F out name 0 sz d = None"
proof -
  obtain d1 where r: "read_struct F d 0 2 = (Inr (slice mem 0 2), d1)"
    using assms(2,3) by (cases rule: read_struct_mem [OF assms(1), of 2 0 d]) auto
  obtain err retlen bs d2 where q: "f_read F d1 0 (f_erasesize F) = (err, retlen, bs, d2)" by (metis prod_cases4)
  have b: "err = 0 \<and> retlen = f_erasesize F \<and> bs = slice mem 0 (f_erasesize F)"
    using assms(1,3) q unfolding reads_mem_def by (metis (mono_tags, lifting) add_0 case_prod_conv)
  have "take 2 (slice mem 0 (f_erasesize F)) = slice mem 0 2" using assms(2) by (simp add: slice_take)
  then have m: "cpu_at F 2 0 (slice mem 0 2) = JFFS2_MAGIC_BITMASK"
    using assms(5) by (auto simp: stuck_node_def jffs2_dirent_valid_def memget_def split: if_splits)
  show ?thesis
    using assms(4) r q b m jffs2_nodes_diverges [OF assms(5)]
    unfolding jffs2_find_file_def by (subst jffs2_blocks.simps) simp
qed

section \<open>An error with partitions\<close>

definition no_jffs2 :: "'d flash \<Rightarrow> (nat \<Rightarrow> byte) \<Rightarrow> bool" where
  "no_jffs2 F mem \<longleftrightarrow> (\<forall>a. a + 2 \<le> f_size F \<longrightarrow> f_erasesize F dvd a \<longrightarrow> cpu_at F 2 0 (slice mem a 2) \<noteq> JFFS2_MAGIC_BITMASK)"

lemma jffs2_blocks_none:
  assumes "reads_mem F mem" "no_jffs2 F mem" "0 < f_erasesize F" "f_erasesize F dvd offs"
  shows "runs (jffs2_blocks crc32 F out name end_offs valid offs d) (\<lambda>(r, offs, d). r = Inl (- ENOENT))"
  using assms(4)
proof (induction "end_offs - offs" arbitrary: offs d rule: less_induct)
  case less
  show ?case
  proof (cases "offs < end_offs")
    case True
    have "runs (jffs2_blocks crc32 F out name end_offs valid (offs + f_erasesize F) d) (\<lambda>(r, offs, d). r = Inl (- ENOENT))" for d
      using True assms(3) less.prems by (intro less.hyps) auto
    note step = this
    show ?thesis
    proof (cases rule: read_struct_mem [OF assms(1), of 2 offs d, case_names pos inside beyond])
      case (inside d')
      then have "cpu_at F 2 0 (slice mem offs 2) \<noteq> JFFS2_MAGIC_BITMASK" using assms(2) less.prems by (simp add: no_jffs2_def)
      then show ?thesis using True step inside by (subst jffs2_blocks.simps) simp
    next
      case (beyond e d')
      then show ?thesis using True step by (subst jffs2_blocks.simps) simp
    qed simp
  next
    case False
    then show ?thesis by (subst jffs2_blocks.simps) simp
  qed
qed

definition both_images :: "'d flash \<Rightarrow> part list" where
  "both_images F = [mk_part ''img1'' 0 (f_size F div 2), mk_part ''img2'' (f_size F div 2) (f_size F - f_size F div 2)]"

lemma parse_bcm_wfi_none:
  assumes "reads_mem F mem" "no_jffs2 F mem" "0 < f_erasesize F" "f_erasesize F dvd off"
  shows "runs (parse_bcm_wfi crc32 np F n off sz cfe_part d) (\<lambda>(r, ps, d). r = - ENOENT \<and> ps = [])"
proof -
  have f: "runs (jffs2_find_file crc32 F False name off k d) (\<lambda>(r, offs, d). r = Inl (- ENOENT))" for name k d
    unfolding jffs2_find_file_def by (rule jffs2_blocks_none [OF assms])
  show ?thesis
  proof (cases cfe_part)
    case True
    then show ?thesis
      unfolding parse_bcm_wfi_def
      by (auto intro!: runs_bindI [OF f] simp: Option.bind_assoc)
  next
    case False
    then show ?thesis
      unfolding parse_bcm_wfi_def
      by (auto intro!: runs_bindI [OF f])
  qed
qed

lemma bcm_wfi_split_none:
  assumes "reads_mem F mem" "no_jffs2 F mem" "0 < f_erasesize F" "f_erasesize F dvd f_size F div 2"
    "f_alloc F 0" "f_alloc F 4"
  shows "runs (mtdsplit_parse_bcm_wfi_split crc32 np F d) (\<lambda>(r, ps, d). r = - ENOENT \<and> ps = both_images F)"
proof -
  have f: "runs (jffs2_find_file crc32 F True CFERAM_NAME off k d) (\<lambda>(r, offs, d). r = Inl (- ENOENT))"
    if "f_erasesize F dvd off" for off k d
    unfolding jffs2_find_file_def by (rule jffs2_blocks_none [OF assms(1-3) that])
  have p: "runs (parse_active crc32 np F 3 b True d) (\<lambda>(r, ps, d). r = - ENOENT \<and> ps = [])" for b d
    unfolding parse_active_def runs_if
    by (intro conjI impI parse_bcm_wfi_none [OF assms(1-3)]) (simp_all add: assms(4))
  show ?thesis
    unfolding mtdsplit_parse_bcm_wfi_split_def using assms(4-6)
    by (auto intro!: runs_bindI [OF f] runs_bindI [OF p] simp: cfe_name_def cferam_bootflag_value_def
        wfi_images_def both_images_def Let_def)
qed

section \<open>Accesses outside of a buffer\<close>

text \<open>
  A tree that is read with its offset in the partition: the buffer is as large as the tree, but the read takes the offset in
  addition.
\<close>

lemma fit_overrun:
  assumes "reads_mem F mem" "0 < st" "st + 40 \<le> f_size F" "f_size F < f_size_t F" "40 < f_size_t F"
    "be_at 4 0 (slice mem st 40) = OF_DT_HEADER" "fit_size = be_at 4 4 (slice mem st 40)"
    "0 < fit_size" "fit_size \<le> 0x80000" "fit_size + st \<le> f_size F"
    "cmdline_match np = None" "fit_offset_prop np = Some st"
  shows "mtdsplit_fit_parse L hdr np F d = None"
proof -
  obtain d' where r: "read_struct F d st 40 = (Inr (slice mem st 40), d')"
    using assms(3) by (cases rule: read_struct_mem [OF assms(1), of 40 st d]) auto
  have z: "szt F (int st) = st" "szt F (int (fit_size + st)) = fit_size + st" "szt F 40 = 40"
    using szt_small [of st F] szt_small [of "fit_size + st" F] szt_small [of 40 F] assms(3-5,10) by simp_all
  have "fit_search F st hdr 0 d = Some (Inr (0, slice mem st 40), d')"
    using assms r z by (subst fit_search.simps) simp
  moreover have "fit_rootfs_data L F st 0 fit_size d' = None"
  proof -
    obtain err retlen bs d2 where q: "f_read F d' 0 (fit_size + st) = (err, retlen, bs, d2)" by (metis prod_cases4)
    have "bs = slice mem 0 (fit_size + st)"
      using assms(1,10) q unfolding reads_mem_def by (metis (mono_tags, lifting) add_0 case_prod_conv)
    then show ?thesis using q z assms(2) by (simp add: fit_rootfs_data_def)
  qed
  ultimately show ?thesis using assms by (simp add: mtdsplit_fit_parse_def)
qed

text \<open>An environment of the boot loader that was erased has no end.\<close>

lemma until_equals_none: "0x3d \<notin> set buf \<Longrightarrow> 0 \<notin> set buf \<Longrightarrow> until_equals buf = None"
  by (induction buf) auto

lemma seil_env_overruns:
  assumes "buf \<noteq> []" "0x3d \<notin> set buf" "0 \<notin> set buf"
  shows "seil_env (length buf) devnm buf = None"
  using assms until_equals_none [OF assms(2,3)] by (cases buf) auto

end
