(* ===== verification/Split_Router.thy ===== *)
theory Split_Router
  imports Split_Laws
begin

text \<open>
  \<open>parsers/routerbootpart.c\<close>: the partitions of RouterBoot, which are fixed by the device tree or found on the
  flash by their magic numbers.
\<close>

abbreviation (input) RB_BLOCK_SIZE :: nat where "RB_BLOCK_SIZE \<equiv> 0x1000"
abbreviation (input) MTD_POWERUP_LOCK :: nat where "MTD_POWERUP_LOCK \<equiv> 0x2000"

section \<open>Well-known partitions\<close>

text \<open>\<open>dp_fixup\<close> tells that the size is fixed up by \<open>routerboot_dtbsfixup\<close>.\<close>

record dynpart =
  dp_name :: string
  dp_magic :: nat
  dp_fixup :: bool
  dp_offset :: nat
  dp_size :: nat
  dp_found :: bool

text \<open>The table at start; the last magic number is stored in big-endian order.\<close>

definition rb_dynparts :: "'d flash \<Rightarrow> dynpart list" where
  "rb_dynparts F =
     [\<lparr>dp_name = ''hard_config'', dp_magic = 0x64726148, dp_fixup = False, dp_offset = 0, dp_size = RB_BLOCK_SIZE, dp_found = False\<rparr>,
      \<lparr>dp_name = ''soft_config'', dp_magic = 0x74666f53, dp_fixup = False, dp_offset = 0, dp_size = RB_BLOCK_SIZE, dp_found = False\<rparr>,
      \<lparr>dp_name = ''dtb_config'', dp_magic = if f_big_endian F then 0xd00dfeed else 0xedfe0dd0, dp_fixup = True,
        dp_offset = 0, dp_size = 0, dp_found = False\<rparr>]"

definition routerboot_dtbsfixup :: "'d flash \<Rightarrow> dynpart \<Rightarrow> 'd \<Rightarrow> (int + dynpart) \<times> 'd" where
  "routerboot_dtbsfixup F p d =
     (case read_struct F d (dp_offset p) 40 of
        (Inl e, d) \<Rightarrow> (Inl e, d)
      | (Inr hdr, d) \<Rightarrow> if be_at 4 4 hdr = 0 then (Inl (- EINVAL), d) else (Inr (p\<lparr>dp_size := be_at 4 4 hdr\<rparr>), d))"

text \<open>
  The loop over the table for the word read at \<open>offset\<close>: whether all were found before, the offset with the skip over
  the partition, and the table.
\<close>

fun rb_match :: "'d flash \<Rightarrow> nat \<Rightarrow> nat \<Rightarrow> dynpart list \<Rightarrow> 'd \<Rightarrow> (bool \<times> nat \<times> dynpart list) \<times> 'd" where
  "rb_match F offset buf [] d = ((True, offset, []), d)"
| "rb_match F offset buf (p # ps) d =
     (if dp_found p then
        (case rb_match F offset buf ps d of ((allfound, offset, ps), d) \<Rightarrow> ((allfound, offset, p # ps), d))
      else if dp_magic p \<noteq> buf then
        (case rb_match F offset buf ps d of ((_, offset, ps), d) \<Rightarrow> ((False, offset, p # ps), d))
      else
        (case (if dp_fixup p then routerboot_dtbsfixup F (p\<lparr>dp_offset := offset\<rparr>) d else (Inr (p\<lparr>dp_offset := offset\<rparr>), d)) of
           (Inl _, d) \<Rightarrow>
             (case rb_match F offset buf ps d of ((_, offset', ps), d) \<Rightarrow> ((False, offset', p\<lparr>dp_offset := offset\<rparr> # ps), d))
         | (Inr p, d) \<Rightarrow>
             ((False,
               if dp_size p > RB_BLOCK_SIZE
               then szt F (int (offset + (dp_size p - RB_BLOCK_SIZE) div RB_BLOCK_SIZE * RB_BLOCK_SIZE)) else offset,
               p\<lparr>dp_found := True\<rparr> # ps), d)))"

text \<open>
  \<open>buf\<close> is what the word holds, at first whatever the stack held; the number of bytes read is not looked at. A read
  that fails is tried again at the same place.
\<close>

partial_function (option) rb_find ::
  "'d flash \<Rightarrow> byte list \<Rightarrow> nat \<Rightarrow> dynpart list \<Rightarrow> 'd \<Rightarrow> (dynpart list \<times> 'd) option" where
  "rb_find F buf offset ps d =
     (if offset < f_size F then
        (case f_read F d offset 4 of
           (err, bytes_read, bs, d) \<Rightarrow>
             if err \<noteq> 0 then rb_find F (take 4 (bs @ drop (length bs) buf)) offset ps d
             else
               let buf = take 4 (bs @ drop (length bs) buf)
               in (case rb_match F offset (cpu_at F 4 0 buf) ps d of
                   ((allfound, offset, ps), d) \<Rightarrow>
                     if allfound then Some (ps, d)
                     else rb_find F buf (szt F (int (offset + RB_BLOCK_SIZE))) ps d))
      else Some (ps, d))"

definition routerboot_find_dynparts ::
  "'d flash \<Rightarrow> byte list \<Rightarrow> dynpart list \<Rightarrow> 'd \<Rightarrow> (dynpart list \<times> 'd) option" where
  "routerboot_find_dynparts F buf ps d = rb_find F buf 0 ps d"

section \<open>The parser\<close>

text \<open>A child of the node: the names it may be given, its properties as cells, and the numbers of cells.\<close>

record rb_child =
  rc_label :: "string option"
  rc_of_name :: "string option"
  rc_node_name :: string
  rc_reg :: "nat list option"
  rc_sz :: "nat list option"
  rc_a_cells :: nat
  rc_s_cells :: nat
  rc_read_only :: bool
  rc_lock :: bool

definition rb_partname :: "rb_child \<Rightarrow> string" where
  "rb_partname c = (case rc_label c of Some n \<Rightarrow> n
     | None \<Rightarrow> (case rc_of_name c of Some n \<Rightarrow> n | None \<Rightarrow> rc_node_name c))"

definition of_read_number :: "nat list \<Rightarrow> nat" where
  "of_read_number cells = foldl (\<lambda>r c. u64 (int (r * 4294967296 + c))) 0 cells"

text \<open>The offset and the size of a child, \<open>None\<close> for a property of a wrong length.\<close>

definition rb_place :: "'d flash \<Rightarrow> dynpart list \<Rightarrow> nat \<Rightarrow> rb_child \<Rightarrow> (nat \<times> nat) option" where
  "rb_place F dyn master_ofs c =
     (case rc_reg c of
        Some reg \<Rightarrow>
          if length reg \<noteq> rc_a_cells c + rc_s_cells c then None
          else Some (szt F (int (of_read_number (take (rc_a_cells c) reg))),
                     szt F (int (of_read_number (drop (rc_a_cells c) reg))))
      | None \<Rightarrow>
          let (offset, sz) =
            (case List.find (\<lambda>p. dp_name p = rb_partname c \<and> dp_found p) dyn of
               Some p \<Rightarrow> (dp_offset p, dp_size p)
             | None \<Rightarrow> (master_ofs, 0))
          in (case rc_sz c of
                None \<Rightarrow> Some (offset, sz)
              | Some cells \<Rightarrow>
                  if length cells \<noteq> rc_s_cells c then None else Some (offset, szt F (int (of_read_number cells)))))"

text \<open>The partition that precedes, \<open>None\<close> for an overlap; one of size zero is extended.\<close>

definition rb_close :: "nat \<Rightarrow> part list \<Rightarrow> part list option" where
  "rb_close offset ps =
     (if ps = [] then Some []
      else if offset < u64 (int (p_offset (last ps) + p_size (last ps))) then None
      else if p_size (last ps) = 0
        then Some (butlast ps @ [(last ps)\<lparr>p_size := u64 (int offset - int (p_offset (last ps)))\<rparr>])
      else Some ps)"

fun rb_parts :: "'d flash \<Rightarrow> dynpart list \<Rightarrow> rb_child list \<Rightarrow> nat \<Rightarrow> part list \<Rightarrow> part list option" where
  "rb_parts F dyn [] master_ofs ps = Some ps"
| "rb_parts F dyn (c # cs) master_ofs ps =
     do {
       (offset, sz) \<leftarrow> rb_place F dyn master_ofs c;
       ps \<leftarrow> rb_close offset ps;
       if szt F (int (offset + sz)) > f_size F then None
       else
         rb_parts F dyn cs (szt F (int (szt F (int (offset + sz)) + 0xfff)) div RB_BLOCK_SIZE * RB_BLOCK_SIZE)
           (ps @ [(mk_part (rb_partname c) offset sz)\<lparr>p_mask_flags :=
              (if rc_read_only c then MTD_WRITEABLE else 0) + (if rc_lock c then MTD_POWERUP_LOCK else 0)\<rparr>])
     }"

text \<open>The table keeps what was found for the next device.\<close>

definition routerboot_partitions_parse ::
  "byte list \<Rightarrow> rb_child list option \<Rightarrow> dynpart list \<Rightarrow> 'd flash \<Rightarrow> 'd \<Rightarrow> (int \<times> part list \<times> dynpart list \<times> 'd) option" where
  "routerboot_partitions_parse buf node dyn F d =
     (case node of
        None \<Rightarrow> Some (0, [], dyn, d)
      | Some cs \<Rightarrow>
          if cs = [] then Some (0, [], dyn, d)
          else if \<not> f_alloc F 0 then Some (- ENOMEM, [], dyn, d)
          else do {
            (dyn, d) \<leftarrow> routerboot_find_dynparts F buf dyn d;
            Some (case rb_parts F dyn cs 0 [] of
              None \<Rightarrow> (- EINVAL, [], dyn, d)
            | Some ps \<Rightarrow> (int (length ps), ps, dyn, d))
          })"

section \<open>The search over a flash in memory\<close>

definition dyn_ok :: "'d flash \<Rightarrow> dynpart list \<Rightarrow> bool" where
  "dyn_ok F ps \<longleftrightarrow> list_all (\<lambda>p. (\<not> dp_fixup p \<longrightarrow> dp_size p = RB_BLOCK_SIZE) \<and>
     (dp_found p \<longrightarrow> dp_offset p < f_size F \<and> dp_size p < 4294967296)) ps"

lemma rb_dynparts_ok: "dyn_ok F (rb_dynparts F)"
  by (simp add: dyn_ok_def rb_dynparts_def)

text \<open>The skip leads behind the block and not out of a wide \<open>size_t\<close>.\<close>

definition skips :: "'d flash \<Rightarrow> nat \<Rightarrow> nat \<Rightarrow> bool" where
  "skips F offset offset' \<longleftrightarrow> offset \<le> offset' \<and> offset' + RB_BLOCK_SIZE < f_size_t F \<and> (RB_BLOCK_SIZE dvd offset \<longrightarrow> RB_BLOCK_SIZE dvd offset')"

lemma rb_skip:
  assumes "flash_ok F" "wide_size_t F" "offset < f_size F" "n < 4294967296" "RB_BLOCK_SIZE < n"
  shows "skips F offset (szt F (int (offset + (n - RB_BLOCK_SIZE) div RB_BLOCK_SIZE * RB_BLOCK_SIZE)))"
proof -
  let ?k = "(n - RB_BLOCK_SIZE) div RB_BLOCK_SIZE * RB_BLOCK_SIZE"
  have "?k \<le> n - RB_BLOCK_SIZE" by simp
  then have b: "offset + ?k + RB_BLOCK_SIZE < f_size_t F"
    using assms flash_ok_simps(5) [OF assms(1)] unfolding wide_size_t_def by linarith
  then have "szt F (int (offset + ?k)) = offset + ?k" by (intro szt_small) linarith
  then show ?thesis using b by (simp add: skips_def del: of_nat_add of_nat_mult of_nat_div)
qed

lemma dtbsfixup_within:
  assumes "routerboot_dtbsfixup F p d = (Inr p', d')"
  shows "\<exists>n < 4294967296. p' = p\<lparr>dp_size := n\<rparr>"
proof -
  have "be_at 4 4 hdr < 4294967296" for hdr using be_at_bound [of 4 4 hdr] by simp
  then show ?thesis using assms by (auto simp: routerboot_dtbsfixup_def split: sum.splits prod.splits if_splits)
qed

lemma rb_match_ok:
  assumes "flash_ok F" "wide_size_t F" "offset < f_size F" "dyn_ok F ps"
  shows "rb_match F offset buf ps d = ((allfound, offset', ps'), d') \<Longrightarrow> skips F offset offset' \<and> dyn_ok F ps'"
  using assms(4)
proof (induction ps arbitrary: d allfound offset' ps' d')
  case Nil
  then show ?case using assms flash_ok_simps(5) [OF assms(1)] by (auto simp: skips_def wide_size_t_def)
next
  case (Cons p ps)
  have ok: "dyn_ok F ps" "(\<not> dp_fixup p \<longrightarrow> dp_size p = RB_BLOCK_SIZE) \<and> (dp_found p \<longrightarrow> dp_offset p < f_size F \<and> dp_size p < 4294967296)"
    using Cons.prems(2) by (simp_all add: dyn_ok_def)
  have rest: "skips F offset o' \<and> dyn_ok F q" if "rb_match F offset buf ps d = ((a, o', q), d')" for d a o' q d'
    using Cons.IH that ok(1) by blast
  consider "dp_found p" | "\<not> dp_found p" "dp_magic p \<noteq> buf" | "\<not> dp_found p" "dp_magic p = buf" by blast
  then show ?case
  proof cases
    case 1
    then show ?thesis using Cons.prems(1) rest ok by (fastforce simp: dyn_ok_def split: prod.splits)
  next
    case 2
    then show ?thesis using Cons.prems(1) rest ok by (fastforce simp: dyn_ok_def split: prod.splits)
  next
    case 3
    obtain r d1 where r: "(if dp_fixup p then routerboot_dtbsfixup F (p\<lparr>dp_offset := offset\<rparr>) d
        else (Inr (p\<lparr>dp_offset := offset\<rparr>), d)) = (r, d1)" by fastforce
    show ?thesis
    proof (cases r)
      case (Inl e)
      then show ?thesis using 3 Cons.prems(1) rest ok r by (fastforce simp: dyn_ok_def split: prod.splits)
    next
      case (Inr q)
      have "\<exists>n < 4294967296. q = p\<lparr>dp_offset := offset, dp_size := n\<rparr> \<and> (\<not> dp_fixup p \<longrightarrow> n = RB_BLOCK_SIZE)"
      proof (cases "dp_fixup p")
        case True
        then show ?thesis using r Inr dtbsfixup_within [of F "p\<lparr>dp_offset := offset\<rparr>" d q d1] by auto
      next
        case False
        then have "q = p\<lparr>dp_offset := offset\<rparr>" "dp_size p = RB_BLOCK_SIZE" using r Inr ok(2) by auto
        then show ?thesis by (intro exI [of _ RB_BLOCK_SIZE]) (cases p, simp)
      qed
      then obtain n where n: "n < 4294967296" "q = p\<lparr>dp_offset := offset, dp_size := n\<rparr>" "\<not> dp_fixup p \<longrightarrow> n = RB_BLOCK_SIZE"
        by blast
      have "skips F offset offset" using assms flash_ok_simps(5) [OF assms(1)] by (simp add: skips_def wide_size_t_def)
      moreover have "skips F offset (szt F (int (offset + (n - RB_BLOCK_SIZE) div RB_BLOCK_SIZE * RB_BLOCK_SIZE)))" if "RB_BLOCK_SIZE < n"
        using rb_skip [OF assms(1-3) n(1) that] .
      moreover have "dyn_ok F (q\<lparr>dp_found := True\<rparr> # ps)" using n ok assms(3) by (simp add: dyn_ok_def)
      ultimately show ?thesis
        using 3 Cons.prems(1) r Inr n(2) by (auto split: if_splits simp del: of_nat_add of_nat_mult of_nat_div)
    qed
  qed
qed

lemma rb_find_ends:
  fixes F :: "'d flash"
  assumes "flash_ok F" "wide_size_t F" "reads_mem F mem" "RB_BLOCK_SIZE dvd f_size F"
  shows "RB_BLOCK_SIZE dvd offset \<Longrightarrow> dyn_ok F ps \<Longrightarrow> runs (rb_find F buf offset ps d) (\<lambda>(ps, d). dyn_ok F ps)"
proof (induction "f_size F - offset" arbitrary: buf offset ps d rule: less_induct)
  case less
  show ?case
  proof (cases "offset < f_size F")
    case True
    obtain a b where "f_size F = RB_BLOCK_SIZE * a" "offset = RB_BLOCK_SIZE * b"
      using assms(4) less.prems(1) by (auto elim!: dvdE)
    then have "offset + 4 \<le> f_size F" using True by auto
    moreover obtain err retlen bs d1 where r: "f_read F d offset 4 = (err, retlen, bs, d1)" by (metis prod_cases4)
    ultimately have e: "err = 0"
      using assms(3) unfolding reads_mem_def by (metis (mono_tags, lifting) case_prod_conv)
    let ?buf = "take 4 (bs @ drop (length bs) buf)"
    obtain allfound offset' ps' d2 where m: "rb_match F offset (cpu_at F 4 0 ?buf) ps d1 = ((allfound, offset', ps'), d2)"
      by (metis surj_pair)
    have o: "skips F offset offset'" "dyn_ok F ps'" using rb_match_ok [OF assms(1,2) True less.prems(2) m] by simp_all
    then have z: "szt F (int (offset' + RB_BLOCK_SIZE)) = offset' + RB_BLOCK_SIZE" by (intro szt_small) (simp add: skips_def)
    have "runs (rb_find F ?buf (offset' + RB_BLOCK_SIZE) ps' d2) (\<lambda>(ps, d). dyn_ok F ps)"
      using True o less.prems(1) by (intro less.hyps) (auto simp: skips_def)
    then show ?thesis using True r e m z o by (subst rb_find.simps) (auto simp del: of_nat_add)
  next
    case False
    then show ?thesis using less.prems by (subst rb_find.simps) simp
  qed
qed

text \<open>Without a device that reads, the search does not end.\<close>

lemma rb_find_diverges:
  fixes F :: "'d flash"
  assumes "\<And>d. fst (f_read F d offset 4) \<noteq> 0" "offset < f_size F"
  shows "rb_find F buf offset ps d = None"
proof -
  have "F' = F \<longrightarrow> off = offset \<longrightarrow> False" if "rb_find F' buf off ps d = Some y" for F' :: "'d flash" and buf off ps d y
    using that
  proof (induction F' buf off ps d y rule: rb_find.raw_induct [rotated 1, consumes 1, case_names step])
    case (step f F' buf off ps d y)
    show ?case
    proof (intro impI)
      assume e: "F' = F" "off = offset"
      obtain err retlen bs d1 where r: "f_read F d offset 4 = (err, retlen, bs, d1)" by (metis prod_cases4)
      then have "err \<noteq> 0" using assms(1) [of d] by simp
      then have "\<exists>b. f F b offset ps d1 = Some y" using step.hyps e r assms(2) by auto
      then show False using step.IH by blast
    qed
  qed
  then show ?thesis by (cases "rb_find F buf offset ps d") blast+
qed

section \<open>The partitions\<close>

definition small_cells :: "rb_child \<Rightarrow> bool" where
  "small_cells c \<longleftrightarrow>
     (case rc_reg c of
        Some reg \<Rightarrow> of_read_number (take (rc_a_cells c) reg) < 4294967296 \<and> of_read_number (drop (rc_a_cells c) reg) < 4294967296
      | None \<Rightarrow> (case rc_sz c of None \<Rightarrow> True | Some cells \<Rightarrow> of_read_number cells < 4294967296))"

lemma rb_place_bound:
  assumes "flash_ok F" "wide_size_t F" "dyn_ok F dyn" "small_cells c" "m \<le> f_size F" "rb_place F dyn m c = Some (off, sz)"
  shows "off + sz < f_size_t F"
proof -
  note b = flash_ok_simps [OF assms(1)]
  have z: "szt F (int n) = n" if "n < 4294967296" for n using b(2) that by (intro szt_small)
  have "off < 4294967296 \<and> sz < 4294967296"
  proof (cases "rc_reg c")
    case (Some reg)
    then show ?thesis using assms(4,6) z by (auto simp: rb_place_def small_cells_def split: if_splits)
  next
    case None
    have d: "dp_offset p < 4294967296 \<and> dp_size p < 4294967296"
      if h: "List.find (\<lambda>p. dp_name p = rb_partname c \<and> dp_found p) dyn = Some p" for p
    proof -
      have "p \<in> set dyn" "dp_found p" using h by (auto simp: find_Some_iff)
      then show ?thesis using assms(3) b(5) by (auto simp: dyn_ok_def list_all_iff)
    qed
    have m: "m < 4294967296" using assms(5) b(5) by simp
    show ?thesis
      using None assms(4,6) z d m
      by (auto simp: rb_place_def small_cells_def Let_def split: if_splits option.splits)
  qed
  then show ?thesis using assms(2) by (simp add: wide_size_t_def)
qed

lemma laid_out_snoc:
  "laid_out n ps \<Longrightarrow> list_all (\<lambda>q. part_end q \<le> p_offset p) ps \<Longrightarrow> part_end p \<le> n \<Longrightarrow> laid_out n (ps @ [p])"
  by (auto simp: laid_out_def sorted_wrt_append list_all_iff)

lemma rb_close_ok:
  assumes "flash_ok F" "laid_out (f_size F) ps" "off \<le> f_size F" "rb_close off ps = Some qs"
  shows "laid_out (f_size F) qs" "list_all (\<lambda>q. part_end q \<le> off) qs" "length qs = length ps"
proof -
  have "laid_out (f_size F) qs \<and> list_all (\<lambda>q. part_end q \<le> off) qs \<and> length qs = length ps"
  proof (cases ps rule: rev_cases)
    case Nil
    then show ?thesis using assms(2,4) by (simp add: rb_close_def)
  next
    case (snoc ps' p)
    have p: "laid_out (f_size F) ps'" "list_all (\<lambda>q. part_end q \<le> p_offset p) ps'" "part_end p \<le> f_size F"
      using assms(2) snoc by (auto simp: laid_out_def sorted_wrt_append list_all_iff)
    have e: "u64 (int (p_offset p + p_size p)) = part_end p"
      using p(3) flash_ok_simps(5) [OF assms(1)] by (simp add: part_end_def nat_add_distrib)
    have le: "part_end p \<le> off" using assms(4) snoc e by (auto simp: rb_close_def split: if_splits)
    then have s: "p_offset p \<le> off" "p_size p \<le> off" by (simp_all add: part_end_def)
    have l: "list_all (\<lambda>q. part_end q \<le> off) ps'" using p(2) s(1) by (auto simp: list_all_iff)
    show ?thesis
    proof (cases "p_size p = 0")
      case False
      then show ?thesis using assms(2,4) snoc e l le by (auto simp: rb_close_def split: if_splits)
    next
      case True
      let ?p = "p\<lparr>p_size := off - p_offset p\<rparr>"
      have "u64 (int off - int (p_offset p)) = off - p_offset p"
        using s(1) assms(3) flash_ok_simps(5) [OF assms(1)] by (intro u64_diff) simp_all
      then have q: "qs = ps' @ [?p]" using assms(4) snoc True e le by (auto simp: rb_close_def split: if_splits)
      have pe: "part_end ?p = off" using s(1) by (simp add: part_end_def)
      have "laid_out (f_size F) (ps' @ [?p])" using p pe assms(3) by (intro laid_out_snoc) simp_all
      then show ?thesis using q l pe snoc by simp
    qed
  qed
  then show "laid_out (f_size F) qs" "list_all (\<lambda>q. part_end q \<le> off) qs" "length qs = length ps" by simp_all
qed

lemma align_block:
  assumes "RB_BLOCK_SIZE dvd n" "x \<le> n"
  shows "(x + 0xfff) div RB_BLOCK_SIZE * RB_BLOCK_SIZE \<le> n"
proof -
  obtain k where k: "n = k * RB_BLOCK_SIZE" using assms(1) by (metis dvdE mult.commute)
  have "(x + 0xfff) div RB_BLOCK_SIZE < k + 1" using assms(2) k by (simp add: div_less_iff_less_mult)
  then show ?thesis unfolding k by (intro mult_le_mono1) simp
qed

lemma rb_parts_ok:
  assumes "flash_ok F" "wide_size_t F" "RB_BLOCK_SIZE dvd f_size F" "dyn_ok F dyn"
  shows "list_all small_cells cs \<Longrightarrow> m \<le> f_size F \<Longrightarrow> laid_out (f_size F) ps \<Longrightarrow>
    rb_parts F dyn cs m ps = Some qs \<Longrightarrow> laid_out (f_size F) qs"
proof (induction cs arbitrary: m ps)
  case (Cons c cs)
  note b = flash_ok_simps [OF assms(1)]
  obtain off sz ps' where st: "rb_place F dyn m c = Some (off, sz)" "rb_close off ps = Some ps'"
    "szt F (int (off + sz)) \<le> f_size F"
    using Cons.prems(4) by (auto split: bind_splits if_splits)
  have "off + sz < f_size_t F" using rb_place_bound [OF assms(1,2,4) _ Cons.prems(2) st(1)] Cons.prems(1) by simp
  then have z: "szt F (int (off + sz)) = off + sz" by (intro szt_small)
  then have fit: "off + sz \<le> f_size F" using st(3) by simp
  have a: "szt F (int (off + sz + 0xfff)) = off + sz + 0xfff"
    using fit b(5) assms(2) by (intro szt_small) (simp add: wide_size_t_def)
  have c: "laid_out (f_size F) ps'" "list_all (\<lambda>q. part_end q \<le> off) ps'"
    using rb_close_ok [OF assms(1) Cons.prems(3) _ st(2)] fit by simp_all
  define p where "p = (mk_part (rb_partname c) off sz)\<lparr>p_mask_flags :=
    (if rc_read_only c then MTD_WRITEABLE else 0) + (if rc_lock c then MTD_POWERUP_LOCK else 0)\<rparr>"
  have pp: "p_offset p = off" "part_end p = off + sz" by (simp_all add: p_def part_end_def)
  have "laid_out (f_size F) (ps' @ [p])" using c pp fit by (intro laid_out_snoc) simp_all
  moreover have "(off + sz + 0xfff) div RB_BLOCK_SIZE * RB_BLOCK_SIZE \<le> f_size F" by (rule align_block [OF assms(3) fit])
  moreover have "rb_parts F dyn cs ((off + sz + 0xfff) div RB_BLOCK_SIZE * RB_BLOCK_SIZE) (ps' @ [p]) = Some qs"
    using Cons.prems(4) st z a fit p_def by (simp del: of_nat_add)
  ultimately show ?case using Cons.IH Cons.prems(1) by simp
qed simp

text \<open>A device that reads, of whole blocks of the boot loader, and numbers of one cell in the device tree.\<close>

definition router_usable :: "rb_child list option \<Rightarrow> dynpart list \<Rightarrow> 'd flash \<Rightarrow> bool" where
  "router_usable node dyn F \<longleftrightarrow> wide_size_t F \<and> (\<exists>mem. reads_mem F mem) \<and> RB_BLOCK_SIZE dvd f_size F \<and> dyn_ok F dyn
     \<and> (case node of None \<Rightarrow> True | Some cs \<Rightarrow> list_all small_cells cs)"

definition routerboot_parse :: "byte list \<Rightarrow> rb_child list option \<Rightarrow> dynpart list \<Rightarrow> 'd flash \<Rightarrow> 'd \<Rightarrow> 'd parsed" where
  "routerboot_parse buf node dyn F d =
     map_option (\<lambda>(r, ps, dyn, d). (r, ps, d)) (routerboot_partitions_parse buf node dyn F d)"

lemma routerboot_splits:
  assumes "flash_ok F" "router_usable node dyn F"
  shows "runs (routerboot_parse buf node dyn F d) (splits F)"
proof -
  obtain mem where u: "wide_size_t F" "reads_mem F mem" "RB_BLOCK_SIZE dvd f_size F" "dyn_ok F dyn"
    "case node of None \<Rightarrow> True | Some cs \<Rightarrow> list_all small_cells cs"
    using assms(2) by (auto simp: router_usable_def)
  have none: "splits F (0, [], d)" for d by (simp add: splits_def laid_out_def)
  show ?thesis
  proof (cases "node = None \<or> node = Some [] \<or> \<not> f_alloc F 0")
    case True
    then show ?thesis using none by (auto simp: routerboot_parse_def routerboot_partitions_parse_def split: option.splits)
  next
    case False
    then obtain cs where cs: "node = Some cs" "cs \<noteq> []" "f_alloc F 0" by auto
    have "runs (rb_find F buf 0 dyn d) (\<lambda>(ps, d). dyn_ok F ps)"
      using u by (intro rb_find_ends [OF assms(1)]) simp_all
    then obtain dyn' d' where f: "rb_find F buf 0 dyn d = Some (dyn', d')" "dyn_ok F dyn'" by (auto simp: runs_def)
    have "laid_out (f_size F) ps" if "rb_parts F dyn' cs 0 [] = Some ps" for ps
      using rb_parts_ok [OF assms(1) u(1,3) f(2) _ _ _ that] u(5) cs(1) by (simp add: laid_out_def)
    then show ?thesis
      using cs f by (auto simp: routerboot_parse_def routerboot_partitions_parse_def routerboot_find_dynparts_def
          splits_def split: option.splits)
  qed
qed

interpretation routerboot: splitter "routerboot_parse buf node dyn" "router_usable node dyn" for buf node dyn
  by unfold_locales (rule routerboot_splits)

end
