(* ===== verification/Split_Properties.thy ===== *)
theory Split_Properties
  imports Split_Faults Split_Router
begin

text \<open>
  The properties of the firmware splitters, each with an instance on a small flash.
\<close>

section \<open>A flash in memory\<close>

definition mem_flash :: "(nat \<Rightarrow> byte) \<Rightarrow> nat \<Rightarrow> nat \<Rightarrow> unit flash" where
  "mem_flash mem sz es = \<lparr>f_read = (\<lambda>d a n. if n = 0 \<or> a + n \<le> sz then (0, n, slice mem a n, d) else (- EINVAL, 0, [], d)),
     f_name = ''firmware'', f_size = sz, f_erasesize = es, f_offset = 0, f_master_erasesize = es, f_is_nand = False,
     f_big_endian = False, f_size_t = 18446744073709551616, f_alloc = (\<lambda>_. True)\<rparr>"

lemma mem_flash_simps [simp]:
  "f_size (mem_flash mem sz es) = sz" "f_erasesize (mem_flash mem sz es) = es" "f_offset (mem_flash mem sz es) = 0"
  "f_master_erasesize (mem_flash mem sz es) = es" "f_size_t (mem_flash mem sz es) = 18446744073709551616"
  "f_alloc (mem_flash mem sz es) n" "f_name (mem_flash mem sz es) = ''firmware''" "\<not> f_big_endian (mem_flash mem sz es)"
  by (simp_all add: mem_flash_def)

lemma mem_flash_ok: "0 < es \<Longrightarrow> sz + es < 4294967296 \<Longrightarrow> flash_ok (mem_flash mem sz es)"
  by (simp add: flash_ok_def)

lemma mem_flash_reads: "reads_mem (mem_flash mem sz es) mem"
  by (simp add: reads_mem_def mem_flash_def)

lemmas mem_flash_within = reads_mem_within [OF mem_flash_reads]

lemma mem_flash_read [simp]:
  "read_struct (mem_flash mem sz es) d a n =
     (if n = 0 \<or> a + n \<le> sz then (Inr (slice mem a n), d) else (Inl (- EINVAL), d))"
  by (simp add: read_struct_def mem_flash_def)

text \<open>An image at the start and the magic number of squashfs at the third block of 64 bytes.\<close>

definition hsqs :: "byte list" where
  "hsqs = [0x68, 0x73, 0x71, 0x73]"

definition image_with :: "byte list \<Rightarrow> nat \<Rightarrow> byte" where
  "image_with hdr = patch 128 hsqs (patch 0 hdr (\<lambda>_. 0))"

definition lzma_image :: "unit flash" where
  "lzma_image = mem_flash (image_with [0x5d, 0, 0x80]) 256 64"

lemma lzma_image_ok: "flash_ok lzma_image" "reads_mem lzma_image (image_with [0x5d, 0, 0x80])" "reads_within lzma_image"
  by (simp_all add: lzma_image_def mem_flash_ok mem_flash_reads mem_flash_within)

lemmas image_bytes = image_with_def patch_def hsqs_def slice_def le_at_def be_at_def cpu_at_def upt_rec




section \<open>The root file system\<close>

text \<open>
  C17: \<open>mtd_find_rootfs_from\<close> ends, and over a flash that holds \<open>mem\<close> it finds the first place with the
  magic number of a file system among its start and the starts of the later erase blocks, or reports \<open>-ENOENT\<close>
  when none of them has one.
\<close>

theorem rootfs_search_first:
  assumes "flash_ok F" "reads_mem F mem" "from < f_size_t F"
  shows "runs (mtd_find_rootfs_from F d from (f_size F)) (\<lambda>(r, d'). first_rootfs F mem from (f_size F) r)"
  by (rule find_rootfs_first [OF assms])

theorem rootfs_search_first_witness:
  "runs (mtd_find_rootfs_from lzma_image () 64 256)
     (\<lambda>(r, d'). first_rootfs lzma_image (image_with [0x5d, 0, 0x80]) 64 256 r)
   \<and> first_rootfs lzma_image (image_with [0x5d, 0, 0x80]) 64 256 (Inr (128, PART_TYPE_SQUASHFS))"
proof
  show "runs (mtd_find_rootfs_from lzma_image () 64 256)
     (\<lambda>(r, d'). first_rootfs lzma_image (image_with [0x5d, 0, 0x80]) 64 256 r)"
    using rootfs_search_first [OF lzma_image_ok(1,2), of 64 "()"] by (simp add: lzma_image_def)
  have "b = 64" if "b < 128" "candidate lzma_image 64 b" for b
    using that by (auto simp: candidate_def lzma_image_def elim!: dvdE)
  then show "first_rootfs lzma_image (image_with [0x5d, 0, 0x80]) 64 256 (Inr (128, PART_TYPE_SQUASHFS))"
    by (auto simp: first_rootfs_def candidate_def lzma_image_def rootfs_at_def rootfs_type_def image_with_def hsqs_def
        patch_def slice_def le_at_def be_at_def cpu_at_def SQUASHFS_MAGIC_def UBI_EC_MAGIC_def upt_rec
        simp del: upt_Suc)
qed

section \<open>The partitions\<close>



text \<open>
  C25: \<open>mtdsplit_parse_squashfs\<close> gives one partition \<open>rootfs_data\<close>, which begins at the first erase block of the whole
  device behind the file system and is made of whole erase blocks inside of the partition, when the partition
  ends at an erase block.
\<close>

theorem squashfs_rootfs_data:
  assumes "flash_ok F" "ends_at_block F" "mtd_get_squashfs_len F d 0 = (Inr n, d')" "f_alloc F 0"
  shows "\<exists>p. mtdsplit_parse_squashfs F d = Some (1, [p], d') \<and> p_name p = ''rootfs_data'' \<and> n \<le> p_offset p
    \<and> f_master_erasesize F dvd f_offset F + p_offset p
    \<and> (\<forall>m. f_master_erasesize F dvd m \<and> f_offset F + n \<le> m \<longrightarrow> f_offset F + p_offset p \<le> m)
    \<and> part_end p \<le> f_size F \<and> f_erasesize F dvd p_size p"
proof -
  note e = assms(2) [unfolded ends_at_block_def]
  note sr = squashfs_result [OF assms(1-3)]
  let ?r = "mtd_roundup_to (f_offset F + n) (f_master_erasesize F)"
  have "f_offset F + n + f_master_erasesize F < 4294967296" using e sr(2) by linarith
  note r = mtd_roundup_to_least [OF conjunct1 [OF e] this]
  have "f_offset F \<le> ?r" using r(2) by simp
  moreover have "f_erasesize F dvd mtd_rounddown_to_eb (f_size F - (?r - f_offset F)) F"
  proof -
    have "f_size F - (?r - f_offset F) < 4294967296" using e by linarith
    then show ?thesis by (simp add: mtd_rounddown_small)
  qed
  ultimately show ?thesis
    using sr(1,3) r assms(4) by (auto simp: squashfs_parts_def Let_def give_parts_def laid_out_def)
qed

definition squashfs_image :: "unit flash" where
  "squashfs_image = mem_flash (patch 40 [100] (patch 0 hsqs (\<lambda>_. 0))) 256 64"

theorem squashfs_rootfs_data_witness:
  "\<exists>p. mtdsplit_parse_squashfs squashfs_image () = Some (1, [p], ()) \<and> p_name p = ''rootfs_data'' \<and> 100 \<le> p_offset p
    \<and> f_master_erasesize squashfs_image dvd f_offset squashfs_image + p_offset p
    \<and> (\<forall>m. f_master_erasesize squashfs_image dvd m \<and> f_offset squashfs_image + 100 \<le> m \<longrightarrow>
         f_offset squashfs_image + p_offset p \<le> m)
    \<and> part_end p \<le> f_size squashfs_image \<and> f_erasesize squashfs_image dvd p_size p"
proof (rule squashfs_rootfs_data)
  have "le_at 4 0 (slice (patch 40 [100] (patch 0 hsqs (\<lambda>_. 0))) 0 48) = SQUASHFS_MAGIC"
    "le_at 8 40 (slice (patch 40 [100] (patch 0 hsqs (\<lambda>_. 0))) 0 48) = 100"
    using le_at_slice [of 0 4 48] le_at_slice [of 40 8 48] by (simp_all add: image_bytes SQUASHFS_MAGIC_def)
  then show "mtd_get_squashfs_len squashfs_image () 0 = (Inr 100, ())"
    by (simp add: mtd_get_squashfs_len_def squashfs_image_def szt_def)
  show "flash_ok squashfs_image" "ends_at_block squashfs_image" "f_alloc squashfs_image 0"
    by (simp_all add: squashfs_image_def mem_flash_ok ends_at_block_def)
qed





section \<open>Images\<close>

text \<open>
  C12: Over a flash that holds \<open>mem\<close>, \<open>mtdsplit_parse_uimage\<close> takes the first erase block with a header that is valid for the
  settings of the device tree and whose image ends inside of the device. The partitions are the kernel and the
  first root file system behind it for an image at the start, and the root file system at the start and the image
  otherwise.
\<close>

theorem uimage_first_image:
  assumes "flash_ok F" "reads_mem F mem" "f_alloc F 0" "f_alloc F 1" "c = uimage_parse_dt np"
    and "64 + header_offset c < f_size_t F" "off < f_size F" "f_erasesize F dvd off"
    and "uimage_at c F mem off = Some n" "n \<noteq> 0" "szt F (int (off + n)) \<le> f_size F"
    and "\<forall>b < off. \<not> (f_erasesize F dvd b \<and> uimage_fits c F mem b)"
  shows "runs (mtdsplit_parse_uimage np F d) (\<lambda>(r, ps, d'). image_result F mem (\<lambda>_. - ENOENT) off n r ps)"
proof -
  have fits: "uimage_fits c F mem off" "uimage_size_at c F mem off = n"
    using assms(9,11) by (simp_all add: uimage_fits_def uimage_size_at_def)
  have "0 < f_size F" using assms(7) by simp
  note run = uimage_runs [OF assms(1-4) this assms(6) [unfolded assms(5)], folded assms(5)]
  show ?thesis
  proof (rule runs_mono [OF run], clarify)
    fix r ps d' off' assume s: "stops_at F (uimage_fits c F mem) off'"
      and res: "let n = uimage_size_at c F mem (last_round F off')
        in if n = 0 then r = 0 \<and> ps = [] else image_result F mem (\<lambda>_. - ENOENT) off' n r ps"
    have "off' = off" using stops_at_first [OF s fits(1) assms(8,7,12)] .
    then show "image_result F mem (\<lambda>_. - ENOENT) off n r ps"
      using res fits(2) assms(7,10) by (simp add: last_round_def Let_def)
  qed
qed

definition plain_node :: uimage_node where
  "plain_node = \<lparr>is_openwrt_uimage = False, openwrt_padding = None, openwrt_ih_magic = None, openwrt_ih_type = None,
     openwrt_offset = None, openwrt_partition_magic = None\<rparr>"

definition uimage_header :: "nat \<Rightarrow> byte list" where
  "uimage_header n = [0x27, 0x05, 0x19, 0x56, 0, 0, 0, 0, 0, 0, 0, 0, 0, 0, of_nat (n div 256), of_nat (n mod 256),
     0, 0, 0, 0, 0, 0, 0, 0, 0, 0, 0, 0, 5, 0, 2]"

text \<open>A root file system at the start and an image of \<open>n\<close> bytes behind it.\<close>

definition uimage_bytes :: "nat \<Rightarrow> nat \<Rightarrow> nat \<Rightarrow> byte" where
  "uimage_bytes a n = patch a (uimage_header n) (patch 0 hsqs (\<lambda>_. 0))"

lemma plain_conf: "uimage_parse_dt plain_node =
  \<lparr>extralen = 0, ih_magic = IH_MAGIC, ih_type = IH_TYPE_KERNEL, header_offset = 0, part_magic = 0\<rparr>"
  by (simp add: uimage_parse_dt_def plain_node_def s32_def)

lemma uimage_at_plain:
  assumes "off + 64 \<le> sz" "be_at 4 0 (slice mem off 4) = IH_MAGIC" "be_at 4 0 (slice mem (off + 12) 4) = n"
    "le_at 1 0 (slice mem (off + 28) 1) = IH_OS_LINUX" "le_at 1 0 (slice mem (off + 30) 1) = IH_TYPE_KERNEL"
    "64 + n < 18446744073709551616"
  shows "uimage_at (uimage_parse_dt plain_node) (mem_flash mem sz es) mem off = Some (64 + n)"
  using assms be_at_slice [of 0 4 64 mem off] be_at_slice [of 12 4 64 mem off] le_at_slice [of 28 1 64 mem off]
    le_at_slice [of 30 1 64 mem off]
  by (simp add: uimage_at_def plain_conf szt_def Let_def)

lemma uimage_at_other:
  assumes "be_at 4 0 (slice mem off 4) \<noteq> IH_MAGIC"
  shows "uimage_at (uimage_parse_dt plain_node) (mem_flash mem sz es) mem off = None"
  using assms be_at_slice [of 0 4 64 mem off] by (simp add: uimage_at_def plain_conf Let_def)

theorem uimage_first_image_witness:
  "runs (mtdsplit_parse_uimage plain_node (mem_flash (uimage_bytes 64 64) 256 64) ())
     (\<lambda>(r, ps, d'). image_result (mem_flash (uimage_bytes 64 64) 256 64) (uimage_bytes 64 64) (\<lambda>_. - ENOENT) 64 128 r ps)"
proof (rule uimage_first_image [OF mem_flash_ok mem_flash_reads _ _ refl])
  have "uimage_at (uimage_parse_dt plain_node) (mem_flash (uimage_bytes 64 64) 256 64) (uimage_bytes 64 64) 64 = Some (64 + 64)"
    by (rule uimage_at_plain)
      (simp_all add: image_bytes uimage_bytes_def uimage_header_def IH_MAGIC_def IH_OS_LINUX_def IH_TYPE_KERNEL_def)
  then show "uimage_at (uimage_parse_dt plain_node) (mem_flash (uimage_bytes 64 64) 256 64) (uimage_bytes 64 64) 64 = Some 128"
    by simp
  have "uimage_at (uimage_parse_dt plain_node) (mem_flash (uimage_bytes 64 64) 256 64) (uimage_bytes 64 64) 0 = None"
    by (rule uimage_at_other) (simp add: image_bytes uimage_bytes_def uimage_header_def IH_MAGIC_def)
  moreover have "b = 0" if "b < 64" "64 dvd b" for b :: nat using that by (auto elim!: dvdE)
  ultimately show "\<forall>b < 64. \<not> (f_erasesize (mem_flash (uimage_bytes 64 64) 256 64) dvd b
      \<and> uimage_fits (uimage_parse_dt plain_node) (mem_flash (uimage_bytes 64 64) 256 64) (uimage_bytes 64 64) b)"
    by (auto simp: uimage_fits_def)
qed (simp_all add: plain_conf szt_def)

text \<open>
  When no image fits and the last block has the header of an image that ends behind the device, the scan of
  \<open>mtdsplit_parse_uimage\<close> ends with the size of that image: the parser gives a kernel partition that begins at the end
  of the device, instead of reporting that there is no image.
\<close>

theorem uimage_stale_size:
  assumes "flash_ok F" "reads_mem F mem" "f_alloc F 0" "f_alloc F 1" "c = uimage_parse_dt np"
    and "64 + header_offset c < f_size_t F" "f_erasesize F dvd f_size F" "0 < f_size F"
    and "\<forall>b < f_size F. f_erasesize F dvd b \<longrightarrow> \<not> uimage_fits c F mem b"
    and "uimage_at c F mem (f_size F - f_erasesize F) = Some n" "n \<noteq> 0" "rootfs_at F mem 0 = Some ty"
  shows "runs (mtdsplit_parse_uimage np F d) (\<lambda>(r, ps, d'). r = 2
    \<and> ps = [mk_part (rootfs_name ty) 0 (f_size F), mk_part ''kernel'' (f_size F) n])"
proof (rule runs_mono [OF uimage_runs [OF assms(1-4,8) assms(6) [unfolded assms(5)], folded assms(5)]], clarify)
  fix r ps d' off assume s: "stops_at F (uimage_fits c F mem) off"
    and res: "let n = uimage_size_at c F mem (last_round F off)
      in if n = 0 then r = 0 \<and> ps = [] else image_result F mem (\<lambda>_. - ENOENT) off n r ps"
  have "f_size F \<le> off" "off < f_size F + f_erasesize F" "f_erasesize F dvd off"
    using stops_at_end [OF s assms(9)] s by (simp_all add: stops_at_def)
  moreover from this have "f_erasesize F dvd off - f_size F" "off - f_size F < f_erasesize F"
    using assms(7) by (simp_all add: dvd_diff_nat)
  ultimately have "off = f_size F" using nat_dvd_not_less [of "off - f_size F" "f_erasesize F"] by linarith
  then show "r = 2 \<and> ps = [mk_part (rootfs_name ty) 0 (f_size F), mk_part ''kernel'' (f_size F) n]"
    using res assms(8,10-12) by (simp add: last_round_def uimage_size_at_def image_result_def Let_def)
qed

theorem uimage_stale_size_witness:
  "runs (mtdsplit_parse_uimage plain_node (mem_flash (uimage_bytes 192 4096) 256 64) ()) (\<lambda>(r, ps, d'). r = 2
    \<and> ps = [mk_part (rootfs_name PART_TYPE_SQUASHFS) 0 (f_size (mem_flash (uimage_bytes 192 4096) 256 64)),
            mk_part ''kernel'' (f_size (mem_flash (uimage_bytes 192 4096) 256 64)) 4160])"
proof (rule uimage_stale_size [OF mem_flash_ok mem_flash_reads _ _ refl])
  let ?m = "uimage_bytes 192 4096"
  have last: "uimage_at (uimage_parse_dt plain_node) (mem_flash ?m 256 64) ?m 192 = Some (64 + 4096)"
    by (rule uimage_at_plain)
      (simp_all add: image_bytes uimage_bytes_def uimage_header_def IH_MAGIC_def IH_OS_LINUX_def IH_TYPE_KERNEL_def)
  then show "uimage_at (uimage_parse_dt plain_node) (mem_flash ?m 256 64) ?m
      (f_size (mem_flash ?m 256 64) - f_erasesize (mem_flash ?m 256 64)) = Some 4160" by simp
  have other: "uimage_at (uimage_parse_dt plain_node) (mem_flash ?m 256 64) ?m b = None" if "b \<in> {0, 64, 128}" for b
    using that by (intro uimage_at_other) (auto simp: image_bytes uimage_bytes_def uimage_header_def IH_MAGIC_def)
  have "b \<in> {0, 64, 128} \<or> b = 192" if "b < 256" "64 dvd b" for b :: nat using that by (auto elim!: dvdE)
  then have "b \<in> {0, 64, 128} \<or> b = 192" if "b < f_size (mem_flash ?m 256 64)" "f_erasesize (mem_flash ?m 256 64) dvd b" for b
    using that by (metis mem_flash_simps(1,2))
  moreover have "\<not> uimage_fits (uimage_parse_dt plain_node) (mem_flash ?m 256 64) ?m b" if "b \<in> {0, 64, 128} \<or> b = 192" for b
    using that
  proof
    assume "b \<in> {0, 64, 128}"
    then show ?thesis using other [of b] by (simp add: uimage_fits_def)
  next
    assume "b = 192"
    then show ?thesis using last by (simp add: uimage_fits_def szt_def)
  qed
  ultimately show "\<forall>b < f_size (mem_flash ?m 256 64). f_erasesize (mem_flash ?m 256 64) dvd b \<longrightarrow>
      \<not> uimage_fits (uimage_parse_dt plain_node) (mem_flash ?m 256 64) ?m b" by blast
  show "rootfs_at (mem_flash ?m 256 64) ?m 0 = Some PART_TYPE_SQUASHFS"
    by (simp add: rootfs_at_def rootfs_type_def image_bytes uimage_bytes_def uimage_header_def SQUASHFS_MAGIC_def)
qed (simp_all add: plain_conf)

section \<open>Faults\<close>

text \<open>
  A node of length zero in the boot file system keeps \<open>mtdsplit_cfe_bootfs_parse\<close> in its loop for ever; what the loop
  computes is not used by what follows.
\<close>

theorem cfe_bootfs_diverges:
  assumes "reads_mem F mem" "empty_node F mem 0" "f_name F = ''firmware''"
  shows "mtdsplit_cfe_bootfs_parse F d = None"
  using cfe_bootfs_loop_diverges [OF assms(1,2)] assms(3) by (simp add: mtdsplit_cfe_bootfs_parse_def)

theorem cfe_bootfs_diverges_witness:
  "mtdsplit_cfe_bootfs_parse (mem_flash (patch 0 [0x85, 0x19] (\<lambda>_. 0)) 256 64) () = None"
  by (rule cfe_bootfs_diverges [OF mem_flash_reads])
    (simp_all add: empty_node_def cpu_at_slice [of 0 2 40] cpu_at_slice [of 4 4 40] image_bytes JFFS2_MAGIC_BITMASK_def)

text \<open>
  So does a valid directory entry of length zero at the start of a block in \<open>jffs2_find_file\<close>, on which the parsers for WFI images
  rest.
\<close>

theorem jffs2_find_file_stuck:
  assumes "reads_mem F mem" "2 \<le> f_erasesize F" "f_erasesize F \<le> f_size F" "0 < sz"
    "stuck_node crc32 F (slice mem 0 (f_erasesize F)) name 0"
  shows "jffs2_find_file crc32 F out name 0 sz d = None"
  by (rule jffs2_find_file_diverges [OF assms])

definition stuck_bytes :: "nat \<Rightarrow> byte" where
  "stuck_bytes = patch 0 [0x85, 0x19, 0x01, 0xe0] (patch 20 [1] (\<lambda>_. 0))"

theorem jffs2_find_file_stuck_witness:
  "jffs2_find_file (\<lambda>_. 0) (mem_flash stuck_bytes 256 64) False KERNEL_NAME 0 256 () = None"
proof (rule jffs2_find_file_stuck [OF mem_flash_reads])
  show "stuck_node (\<lambda>_. 0) (mem_flash stuck_bytes 256 64)
      (slice stuck_bytes 0 (f_erasesize (mem_flash stuck_bytes 256 64))) KERNEL_NAME 0"
    by (simp add: stuck_node_def jffs2_dirent_valid_def memget_def mem_equal_def jffs2_dirent_crc_def slice_take slice_drop
        cpu_at_slice [of 4 4 64] OPENWRT_NAME_def KERNEL_NAME_def JFFS2_MAGIC_BITMASK_def JFFS2_NODETYPE_DIRENT_def)
      (simp add: stuck_bytes_def image_bytes)
qed simp_all

text \<open>
  When no block of the flash belongs to a JFFS2 file system, \<open>mtdsplit_parse_bcm_wfi_split\<close> builds the partitions of the
  two images and yet returns \<open>-ENOENT\<close>, so that its caller drops them.
\<close>

theorem bcm_wfi_split_drops_images:
  assumes "reads_mem F mem" "no_jffs2 F mem" "0 < f_erasesize F" "f_erasesize F dvd f_size F div 2"
    "f_alloc F 0" "f_alloc F 4"
  shows "runs (mtdsplit_parse_bcm_wfi_split crc32 np F d)
    (\<lambda>(r, ps, d'). r = - ENOENT \<and> ps = both_images F \<and> \<not> splits F (r, ps, d'))"
  using bcm_wfi_split_none [OF assms] by (rule runs_mono) (auto simp: splits_def both_images_def)

theorem bcm_wfi_split_drops_images_witness:
  "runs (mtdsplit_parse_bcm_wfi_split (\<lambda>_. 0) None (mem_flash (\<lambda>_. 0) 256 64) ())
    (\<lambda>(r, ps, d'). r = - ENOENT \<and> ps = both_images (mem_flash (\<lambda>_. 0) 256 64)
       \<and> \<not> splits (mem_flash (\<lambda>_. 0) 256 64) (r, ps, d'))"
  by (rule bcm_wfi_split_drops_images [OF mem_flash_reads])
    (simp_all add: no_jffs2_def image_bytes JFFS2_MAGIC_BITMASK_def)

text \<open>
  C32: A tree of at most 0x80000 bytes that stands at an offset of the partition given by \<open>openwrt,fit-offset\<close> is read into a buffer of its own
  size with a read that is larger by this offset: \<open>mtdsplit_fit_parse\<close> writes behind the buffer.
\<close>

theorem fit_offset_overruns:
  assumes "reads_mem F mem" "0 < st" "st + 40 \<le> f_size F" "f_size F < f_size_t F"
    "be_at 4 0 (slice mem st 40) = OF_DT_HEADER" "fit_size = be_at 4 4 (slice mem st 40)"
    "0 < fit_size" "fit_size \<le> 0x80000" "fit_size + st \<le> f_size F"
    "cmdline_match np = None" "fit_offset_prop np = Some st"
  shows "mtdsplit_fit_parse L hdr np F d = None"
  using assms by (intro fit_overrun) simp_all

definition fit_bytes :: "nat \<Rightarrow> byte" where
  "fit_bytes = patch 64 [0xd0, 0x0d, 0xfe, 0xed, 0, 0, 0, 100] (\<lambda>_. 0)"

theorem fit_offset_overruns_witness:
  "mtdsplit_fit_parse \<lparr>fdt_path_offset = (\<lambda>_ _. 0), fdt_next_node = (\<lambda>_ _ _. (- 1, 0)), fdt_getprop = (\<lambda>_ _ _. None)\<rparr> []
     \<lparr>cmdline_match = None, saved_command_line = [], fit_offset_prop = Some 64\<rparr> (mem_flash fit_bytes 256 64) () = None"
  by (rule fit_offset_overruns [OF mem_flash_reads, where st = 64 and fit_size = 100])
    (simp_all add: be_at_slice [of 0 4 40] be_at_slice [of 4 4 40] fit_bytes_def image_bytes OF_DT_HEADER_def)

end
