(* ===== verification/Mtd_Base.thy ===== *)
theory Mtd_Base
  imports Bmt_Disk
begin

text \<open>
  The \<open>mtd\<close> tool (\<open>package/system/mtd/src\<close>): the device it has opened, and its functions for single blocks.
\<close>

section \<open>The device and the host\<close>

text \<open>
  An open MTD device: what \<open>mtd_check_open\<close> stores in \<open>mtdsize\<close>, \<open>erasesize\<close> and \<open>mtdtype\<close>, and its system calls over
  a state of any type. \<open>v_pread\<close> gives the number of bytes read or -1 and the bytes, \<open>v_pwrite\<close> the number
  written; \<open>read\<close> and \<open>write\<close> are the same at the file position, which the model keeps itself.
\<close>

record 'd dev =
  v_size :: nat
  v_erasesize :: nat
  v_nand :: bool
  v_isbad :: "'d \<Rightarrow> nat \<Rightarrow> int \<times> 'd"
  v_erase :: "'d \<Rightarrow> nat \<Rightarrow> nat \<Rightarrow> int \<times> 'd"
  v_unlock :: "'d \<Rightarrow> nat \<Rightarrow> nat \<Rightarrow> 'd"
  v_pread :: "'d \<Rightarrow> nat \<Rightarrow> nat \<Rightarrow> int \<times> byte list \<times> 'd"
  v_pwrite :: "'d \<Rightarrow> nat \<Rightarrow> byte list \<Rightarrow> int \<times> 'd"

text \<open>The byte order of the CPU, the values of a \<open>size_t\<close>, the outcome of the allocations in their order.\<close>

record host =
  h_big_endian :: bool
  h_size_t :: nat
  h_alloc :: "nat \<Rightarrow> bool"

definition sz :: "host \<Rightarrow> int \<Rightarrow> nat" where
  "sz H i = nat (i mod int (h_size_t H))"

lemma sz_small [simp]: "n < h_size_t H \<Longrightarrow> sz H (int n) = n"
  by (simp add: sz_def)

text \<open>\<open>exit(1)\<close> and the value a function returns.\<close>

datatype 'a outcome = Exit | Done 'a

fun then_do :: "'a outcome \<times> 'd \<Rightarrow> ('a \<Rightarrow> 'd \<Rightarrow> ('b outcome \<times> 'd) option) \<Rightarrow> ('b outcome \<times> 'd) option" where
  "then_do (Exit, d) f = Some (Exit, d)"
| "then_do (Done x, d) f = f x d"

lemma then_do_mono [partial_function_mono]:
  assumes "\<And>x d. mono_option (\<lambda>f. B f x d)"
  shows "mono_option (\<lambda>f. then_do r (\<lambda>x d. B f x d))"
proof -
  obtain x d where "r = (x, d)" by (cases r)
  then show ?thesis using assms by (cases x) (simp_all add: option.const_mono)
qed

section \<open>Words\<close>

definition get_le32 :: "byte list \<Rightarrow> nat" where "get_le32 bs = le_nat (take 4 bs)"
definition get_be32 :: "byte list \<Rightarrow> nat" where "get_be32 bs = le_nat (rev (take 4 bs))"
definition get_be16 :: "byte list \<Rightarrow> nat" where "get_be16 bs = le_nat (rev (take 2 bs))"

definition cpu32 :: "host \<Rightarrow> byte list \<Rightarrow> nat" where
  "cpu32 H bs = (if h_big_endian H then get_be32 bs else get_le32 bs)"

definition put_le32 :: "nat \<Rightarrow> byte list" where "put_le32 n = le_bytes 4 n"
definition put_be32 :: "nat \<Rightarrow> byte list" where "put_be32 n = rev (le_bytes 4 n)"

definition put_cpu32 :: "host \<Rightarrow> nat \<Rightarrow> byte list" where
  "put_cpu32 H n = (if h_big_endian H then put_be32 n else put_le32 n)"

section \<open>Blocks\<close>

text \<open>\<open>offset & ~(erasesize - 1)\<close>; \<open>erasesize\<close> is 0 before a device was opened.\<close>

definition block_of :: "nat \<Rightarrow> nat \<Rightarrow> nat" where
  "block_of es offset = (if es = 0 then 0 else offset - and offset (es - 1))"

definition mtd_block_is_bad :: "'d dev \<Rightarrow> 'd \<Rightarrow> nat \<Rightarrow> int outcome \<times> 'd" where
  "mtd_block_is_bad V d offset =
     (if v_nand V then
        (case v_isbad V d offset of (r, d) \<Rightarrow> if r < 0 then (Exit, d) else (Done r, d))
      else (Done 0, d))"

definition mtd_erase_block :: "'d dev \<Rightarrow> 'd \<Rightarrow> nat \<Rightarrow> int \<times> 'd" where
  "mtd_erase_block V d offset =
     (case v_erase V (v_unlock V d offset (v_erasesize V)) offset (v_erasesize V) of
        (r, d) \<Rightarrow> (if r < 0 then - 1 else 0, d))"

text \<open>\<open>mtd_erase\<close>: a block that cannot be erased is reported and passed over.\<close>

partial_function (option) mtd_erase_loop :: "'d dev \<Rightarrow> nat \<Rightarrow> 'd \<Rightarrow> (unit outcome \<times> 'd) option" where
  "mtd_erase_loop V start d =
     (if start < v_size V then
        (case mtd_block_is_bad V d start of
           (Exit, d) \<Rightarrow> Some (Exit, d)
         | (Done bad, d) \<Rightarrow>
             mtd_erase_loop V (u32_of (int (start + v_erasesize V)))
               (if bad \<noteq> 0 then d
                else snd (v_erase V (v_unlock V d start (v_erasesize V)) start (v_erasesize V))))
      else Some (Done (), d))"

definition mtd_erase :: "'d dev option \<Rightarrow> 'd \<Rightarrow> (int outcome \<times> 'd) option" where
  "mtd_erase dv d =
     (case dv of
        None \<Rightarrow> Some (Exit, d)
      | Some V \<Rightarrow> do { (r, d) \<leftarrow> mtd_erase_loop V 0 d; Some (case r of Exit \<Rightarrow> Exit | Done _ \<Rightarrow> Done 0, d) })"

definition mtd_write_buffer :: "'d dev \<Rightarrow> 'd \<Rightarrow> byte list \<Rightarrow> nat \<Rightarrow> int \<times> 'd" where
  "mtd_write_buffer V d buf offset = (0, snd (v_pwrite V d offset buf))"

text \<open>\<open>mtd_dump\<close>: \<open>out\<close> is what was written to the standard output. The block asked about is counted from the start of the
  device, the data from \<open>part_offset\<close>. \<open>eintr\<close> tells whether a read that failed was interrupted.\<close>

partial_function (option) mtd_dump_loop ::
  "'d dev \<Rightarrow> ('d \<Rightarrow> bool) \<Rightarrow> nat \<Rightarrow> nat \<Rightarrow> int \<Rightarrow> byte list \<Rightarrow> 'd \<Rightarrow> ((int \<times> byte list) outcome \<times> 'd) option" where
  "mtd_dump_loop V eintr pos offset n out d =
     (let len = (if n > int (v_erasesize V) then v_erasesize V else nat n)
      in case v_pread V d pos len of
        (rlen, bs, d) \<Rightarrow>
          if rlen < 0 then
            if eintr d then
              (if n > 0 then mtd_dump_loop V eintr pos offset n out d else Some (Done (0, out), d))
            else Some (Done (- 1, out), d)
          else if rlen = 0 \<or> rlen \<noteq> int len then Some (Done (0, out), d)
          else (case mtd_block_is_bad V d offset of
              (Exit, d) \<Rightarrow> Some (Exit, d)
            | (Done bad, d) \<Rightarrow>
                let n' = (if bad \<noteq> 0 then n else n - rlen); out = (if bad \<noteq> 0 then out else out @ bs)
                in if n' > 0 then mtd_dump_loop V eintr (pos + len) (offset + len) n' out d
                   else Some (Done (0, out), d)))"

definition mtd_dump :: "host \<Rightarrow> ('d \<Rightarrow> bool) \<Rightarrow> 'd dev option \<Rightarrow> nat \<Rightarrow> nat \<Rightarrow> 'd \<Rightarrow> ((int \<times> byte list) outcome \<times> 'd) option" where
  "mtd_dump H eintr dv part_offset n d =
     (case dv of
        None \<Rightarrow> Some (Done (- 1, []), d)
      | Some V \<Rightarrow>
          if \<not> h_alloc H 0 then Some (Done (- 1, []), d)
          else mtd_dump_loop V eintr part_offset 0 (if n = 0 then int (v_size V) else int n) [] d)"

section \<open>A device that holds what is written\<close>

text \<open>
  The laws of a device whose contents are given by \<open>mem\<close> and whose bad blocks by \<open>bad\<close>: calls succeed within the device,
  an erase sets the block to ones.
\<close>

definition dev_holds :: "'d dev \<Rightarrow> ('d \<Rightarrow> nat \<Rightarrow> byte) \<Rightarrow> (nat \<Rightarrow> bool) \<Rightarrow> bool" where
  "dev_holds V mem bad \<longleftrightarrow>
     (\<forall>d a n. a + n \<le> v_size V \<longrightarrow> (\<exists>d'. v_pread V d a n = (int n, slice (mem d) a n, d') \<and> mem d' = mem d))
   \<and> (\<forall>d a bs. a + length bs \<le> v_size V \<longrightarrow> (\<exists>d'. v_pwrite V d a bs = (int (length bs), d') \<and> mem d' = patch a bs (mem d)))
   \<and> (\<forall>d a n. a + n \<le> v_size V \<longrightarrow> (\<exists>d'. v_erase V d a n = (0, d') \<and> mem d' = patch a (replicate n 255) (mem d)))
   \<and> (\<forall>d a n. mem (v_unlock V d a n) = mem d)
   \<and> (\<forall>d a. \<exists>d'. v_isbad V d a = (if bad a then 1 else 0, d') \<and> mem d' = mem d)"

lemma holds_pread:
  assumes "dev_holds V mem bad" "a + n \<le> v_size V"
  obtains d' where "v_pread V d a n = (int n, slice (mem d) a n, d')" "mem d' = mem d"
  using assms unfolding dev_holds_def by metis

lemma holds_pwrite:
  assumes "dev_holds V mem bad" "a + length bs \<le> v_size V"
  obtains d' where "v_pwrite V d a bs = (int (length bs), d')" "mem d' = patch a bs (mem d)"
  using assms unfolding dev_holds_def by metis

lemma holds_erase:
  assumes "dev_holds V mem bad" "a + v_erasesize V \<le> v_size V"
  obtains d' where "mtd_erase_block V d a = (0, d')" "mem d' = patch a (replicate (v_erasesize V) 255) (mem d)"
proof -
  obtain d' where "v_erase V (v_unlock V d a (v_erasesize V)) a (v_erasesize V) = (0, d')"
    "mem d' = patch a (replicate (v_erasesize V) 255) (mem (v_unlock V d a (v_erasesize V)))"
    using assms unfolding dev_holds_def by metis
  moreover have "mem (v_unlock V d a (v_erasesize V)) = mem d" using assms unfolding dev_holds_def by metis
  ultimately show ?thesis by (intro that) (simp_all add: mtd_erase_block_def)
qed

lemma holds_bad:
  assumes "dev_holds V mem bad"
  obtains d' where "mtd_block_is_bad V d a = (Done (if v_nand V \<and> bad a then 1 else 0), d')" "mem d' = mem d"
proof -
  obtain d' where "v_isbad V d a = (if bad a then 1 else 0, d')" "mem d' = mem d"
    using assms unfolding dev_holds_def by metis
  then show ?thesis using that by (cases "v_nand V") (auto simp: mtd_block_is_bad_def)
qed

lemma patch_patch: "length bs = length cs \<Longrightarrow> patch a cs (patch a bs m) = patch a cs m"
  by (auto simp: patch_def fun_eq_iff)

text \<open>Erasing a block and writing it again.\<close>

lemma holds_rewrite:
  assumes "dev_holds V mem bad" "a + v_erasesize V \<le> v_size V" "length bs = v_erasesize V"
  obtains d1 d2 where "mtd_erase_block V d a = (0, d1)" "v_pwrite V d1 a bs = (int (v_erasesize V), d2)"
    "mem d2 = patch a bs (mem d)"
proof -
  obtain d1 where e: "mtd_erase_block V d a = (0, d1)" "mem d1 = patch a (replicate (v_erasesize V) 255) (mem d)"
    using holds_erase [OF assms(1,2)] by blast
  obtain d2 where "v_pwrite V d1 a bs = (int (length bs), d2)" "mem d2 = patch a bs (mem d1)"
    using holds_pwrite [OF assms(1)] assms(2,3) by metis
  then show ?thesis using that e assms(3) patch_patch [of "replicate (v_erasesize V) 255" bs a] by simp
qed

end
