(* ===== verification/Mtd_Crc.thy ===== *)
theory Mtd_Crc
  imports Mtd_Base
begin

text \<open>
  The checksum of the \<open>mtd\<close> tool, \<open>crc32.c\<close> and \<open>crc32.h\<close>, and the polynomial behind its table.
\<close>

unbundle bit_operations_syntax

definition crc32_table :: "32 word list" where
  "crc32_table = [
     0x00000000, 0x77073096, 0xee0e612c, 0x990951ba, 0x076dc419, 0x706af48f, 0xe963a535, 0x9e6495a3,
     0x0edb8832, 0x79dcb8a4, 0xe0d5e91e, 0x97d2d988, 0x09b64c2b, 0x7eb17cbd, 0xe7b82d07, 0x90bf1d91,
     0x1db71064, 0x6ab020f2, 0xf3b97148, 0x84be41de, 0x1adad47d, 0x6ddde4eb, 0xf4d4b551, 0x83d385c7,
     0x136c9856, 0x646ba8c0, 0xfd62f97a, 0x8a65c9ec, 0x14015c4f, 0x63066cd9, 0xfa0f3d63, 0x8d080df5,
     0x3b6e20c8, 0x4c69105e, 0xd56041e4, 0xa2677172, 0x3c03e4d1, 0x4b04d447, 0xd20d85fd, 0xa50ab56b,
     0x35b5a8fa, 0x42b2986c, 0xdbbbc9d6, 0xacbcf940, 0x32d86ce3, 0x45df5c75, 0xdcd60dcf, 0xabd13d59,
     0x26d930ac, 0x51de003a, 0xc8d75180, 0xbfd06116, 0x21b4f4b5, 0x56b3c423, 0xcfba9599, 0xb8bda50f,
     0x2802b89e, 0x5f058808, 0xc60cd9b2, 0xb10be924, 0x2f6f7c87, 0x58684c11, 0xc1611dab, 0xb6662d3d,
     0x76dc4190, 0x01db7106, 0x98d220bc, 0xefd5102a, 0x71b18589, 0x06b6b51f, 0x9fbfe4a5, 0xe8b8d433,
     0x7807c9a2, 0x0f00f934, 0x9609a88e, 0xe10e9818, 0x7f6a0dbb, 0x086d3d2d, 0x91646c97, 0xe6635c01,
     0x6b6b51f4, 0x1c6c6162, 0x856530d8, 0xf262004e, 0x6c0695ed, 0x1b01a57b, 0x8208f4c1, 0xf50fc457,
     0x65b0d9c6, 0x12b7e950, 0x8bbeb8ea, 0xfcb9887c, 0x62dd1ddf, 0x15da2d49, 0x8cd37cf3, 0xfbd44c65,
     0x4db26158, 0x3ab551ce, 0xa3bc0074, 0xd4bb30e2, 0x4adfa541, 0x3dd895d7, 0xa4d1c46d, 0xd3d6f4fb,
     0x4369e96a, 0x346ed9fc, 0xad678846, 0xda60b8d0, 0x44042d73, 0x33031de5, 0xaa0a4c5f, 0xdd0d7cc9,
     0x5005713c, 0x270241aa, 0xbe0b1010, 0xc90c2086, 0x5768b525, 0x206f85b3, 0xb966d409, 0xce61e49f,
     0x5edef90e, 0x29d9c998, 0xb0d09822, 0xc7d7a8b4, 0x59b33d17, 0x2eb40d81, 0xb7bd5c3b, 0xc0ba6cad,
     0xedb88320, 0x9abfb3b6, 0x03b6e20c, 0x74b1d29a, 0xead54739, 0x9dd277af, 0x04db2615, 0x73dc1683,
     0xe3630b12, 0x94643b84, 0x0d6d6a3e, 0x7a6a5aa8, 0xe40ecf0b, 0x9309ff9d, 0x0a00ae27, 0x7d079eb1,
     0xf00f9344, 0x8708a3d2, 0x1e01f268, 0x6906c2fe, 0xf762575d, 0x806567cb, 0x196c3671, 0x6e6b06e7,
     0xfed41b76, 0x89d32be0, 0x10da7a5a, 0x67dd4acc, 0xf9b9df6f, 0x8ebeeff9, 0x17b7be43, 0x60b08ed5,
     0xd6d6a3e8, 0xa1d1937e, 0x38d8c2c4, 0x4fdff252, 0xd1bb67f1, 0xa6bc5767, 0x3fb506dd, 0x48b2364b,
     0xd80d2bda, 0xaf0a1b4c, 0x36034af6, 0x41047a60, 0xdf60efc3, 0xa867df55, 0x316e8eef, 0x4669be79,
     0xcb61b38c, 0xbc66831a, 0x256fd2a0, 0x5268e236, 0xcc0c7795, 0xbb0b4703, 0x220216b9, 0x5505262f,
     0xc5ba3bbe, 0xb2bd0b28, 0x2bb45a92, 0x5cb36a04, 0xc2d7ffa7, 0xb5d0cf31, 0x2cd99e8b, 0x5bdeae1d,
     0x9b64c2b0, 0xec63f226, 0x756aa39c, 0x026d930a, 0x9c0906a9, 0xeb0e363f, 0x72076785, 0x05005713,
     0x95bf4a82, 0xe2b87a14, 0x7bb12bae, 0x0cb61b38, 0x92d28e9b, 0xe5d5be0d, 0x7cdcefb7, 0x0bdbdf21,
     0x86d3d2d4, 0xf1d4e242, 0x68ddb3f8, 0x1fda836e, 0x81be16cd, 0xf6b9265b, 0x6fb077e1, 0x18b74777,
     0x88085ae6, 0xff0f6a70, 0x66063bca, 0x11010b5c, 0x8f659eff, 0xf862ae69, 0x616bffd3, 0x166ccf45,
     0xa00ae278, 0xd70dd2ee, 0x4e048354, 0x3903b3c2, 0xa7672661, 0xd06016f7, 0x4969474d, 0x3e6e77db,
     0xaed16a4a, 0xd9d65adc, 0x40df0b66, 0x37d83bf0, 0xa9bcae53, 0xdebb9ec5, 0x47b2cf7f, 0x30b5ffe9,
     0xbdbdf21c, 0xcabac28a, 0x53b39330, 0x24b4a3a6, 0xbad03605, 0xcdd70693, 0x54de5729, 0x23d967bf,
     0xb3667a2e, 0xc4614ab8, 0x5d681b02, 0x2a6f2b94, 0xb40bbe37, 0xc30c8ea1, 0x5a05df1b, 0x2d02ef8d]"

definition crc32 :: "32 word \<Rightarrow> byte list \<Rightarrow> 32 word" where
  "crc32 val bs = foldl (\<lambda>val b. crc32_table ! unat ((val XOR ucast b) AND 0xff) XOR drop_bit 8 val) val bs"

definition crc32buf :: "byte list \<Rightarrow> 32 word" where
  "crc32buf bs = crc32 0xFFFFFFFF bs"

section \<open>The polynomial\<close>

text \<open>One bit of the reflected division by the polynomial of CRC-32.\<close>

definition crc_bit :: "32 word \<Rightarrow> 32 word" where
  "crc_bit v = (if bit v 0 then drop_bit 1 v XOR 0xEDB88320 else drop_bit 1 v)"

definition crc_byte :: "32 word \<Rightarrow> byte \<Rightarrow> 32 word" where
  "crc_byte v b = (crc_bit ^^ 8) (v XOR ucast b)"

definition crc_step :: "int \<Rightarrow> int" where
  "crc_step v = (if odd v then v div 2 XOR 0xEDB88320 else v div 2)"

definition step8 :: "int \<Rightarrow> int" where
  "step8 v = crc_step (crc_step (crc_step (crc_step (crc_step (crc_step (crc_step (crc_step v)))))))"

lemma uint_crc_bit: "uint (crc_bit w) = crc_step (uint w)"
proof -
  have "bit (uint w) 0 = bit w 0" by (simp add: bit_uint_iff del: bit_0)
  then have "bit w 0 = odd (uint w)" by (simp add: bit_0)
  moreover have "uint (drop_bit 1 w) = uint w div 2" by (simp add: drop_bit_eq_div uint_div)
  ultimately show ?thesis by (simp add: crc_bit_def crc_step_def uint_xor)
qed

lemma crc_steps:
  "map step8 [0..255] = [
     0x00000000, 0x77073096, 0xee0e612c, 0x990951ba, 0x076dc419, 0x706af48f, 0xe963a535, 0x9e6495a3,
     0x0edb8832, 0x79dcb8a4, 0xe0d5e91e, 0x97d2d988, 0x09b64c2b, 0x7eb17cbd, 0xe7b82d07, 0x90bf1d91,
     0x1db71064, 0x6ab020f2, 0xf3b97148, 0x84be41de, 0x1adad47d, 0x6ddde4eb, 0xf4d4b551, 0x83d385c7,
     0x136c9856, 0x646ba8c0, 0xfd62f97a, 0x8a65c9ec, 0x14015c4f, 0x63066cd9, 0xfa0f3d63, 0x8d080df5,
     0x3b6e20c8, 0x4c69105e, 0xd56041e4, 0xa2677172, 0x3c03e4d1, 0x4b04d447, 0xd20d85fd, 0xa50ab56b,
     0x35b5a8fa, 0x42b2986c, 0xdbbbc9d6, 0xacbcf940, 0x32d86ce3, 0x45df5c75, 0xdcd60dcf, 0xabd13d59,
     0x26d930ac, 0x51de003a, 0xc8d75180, 0xbfd06116, 0x21b4f4b5, 0x56b3c423, 0xcfba9599, 0xb8bda50f,
     0x2802b89e, 0x5f058808, 0xc60cd9b2, 0xb10be924, 0x2f6f7c87, 0x58684c11, 0xc1611dab, 0xb6662d3d,
     0x76dc4190, 0x01db7106, 0x98d220bc, 0xefd5102a, 0x71b18589, 0x06b6b51f, 0x9fbfe4a5, 0xe8b8d433,
     0x7807c9a2, 0x0f00f934, 0x9609a88e, 0xe10e9818, 0x7f6a0dbb, 0x086d3d2d, 0x91646c97, 0xe6635c01,
     0x6b6b51f4, 0x1c6c6162, 0x856530d8, 0xf262004e, 0x6c0695ed, 0x1b01a57b, 0x8208f4c1, 0xf50fc457,
     0x65b0d9c6, 0x12b7e950, 0x8bbeb8ea, 0xfcb9887c, 0x62dd1ddf, 0x15da2d49, 0x8cd37cf3, 0xfbd44c65,
     0x4db26158, 0x3ab551ce, 0xa3bc0074, 0xd4bb30e2, 0x4adfa541, 0x3dd895d7, 0xa4d1c46d, 0xd3d6f4fb,
     0x4369e96a, 0x346ed9fc, 0xad678846, 0xda60b8d0, 0x44042d73, 0x33031de5, 0xaa0a4c5f, 0xdd0d7cc9,
     0x5005713c, 0x270241aa, 0xbe0b1010, 0xc90c2086, 0x5768b525, 0x206f85b3, 0xb966d409, 0xce61e49f,
     0x5edef90e, 0x29d9c998, 0xb0d09822, 0xc7d7a8b4, 0x59b33d17, 0x2eb40d81, 0xb7bd5c3b, 0xc0ba6cad,
     0xedb88320, 0x9abfb3b6, 0x03b6e20c, 0x74b1d29a, 0xead54739, 0x9dd277af, 0x04db2615, 0x73dc1683,
     0xe3630b12, 0x94643b84, 0x0d6d6a3e, 0x7a6a5aa8, 0xe40ecf0b, 0x9309ff9d, 0x0a00ae27, 0x7d079eb1,
     0xf00f9344, 0x8708a3d2, 0x1e01f268, 0x6906c2fe, 0xf762575d, 0x806567cb, 0x196c3671, 0x6e6b06e7,
     0xfed41b76, 0x89d32be0, 0x10da7a5a, 0x67dd4acc, 0xf9b9df6f, 0x8ebeeff9, 0x17b7be43, 0x60b08ed5,
     0xd6d6a3e8, 0xa1d1937e, 0x38d8c2c4, 0x4fdff252, 0xd1bb67f1, 0xa6bc5767, 0x3fb506dd, 0x48b2364b,
     0xd80d2bda, 0xaf0a1b4c, 0x36034af6, 0x41047a60, 0xdf60efc3, 0xa867df55, 0x316e8eef, 0x4669be79,
     0xcb61b38c, 0xbc66831a, 0x256fd2a0, 0x5268e236, 0xcc0c7795, 0xbb0b4703, 0x220216b9, 0x5505262f,
     0xc5ba3bbe, 0xb2bd0b28, 0x2bb45a92, 0x5cb36a04, 0xc2d7ffa7, 0xb5d0cf31, 0x2cd99e8b, 0x5bdeae1d,
     0x9b64c2b0, 0xec63f226, 0x756aa39c, 0x026d930a, 0x9c0906a9, 0xeb0e363f, 0x72076785, 0x05005713,
     0x95bf4a82, 0xe2b87a14, 0x7bb12bae, 0x0cb61b38, 0x92d28e9b, 0xe5d5be0d, 0x7cdcefb7, 0x0bdbdf21,
     0x86d3d2d4, 0xf1d4e242, 0x68ddb3f8, 0x1fda836e, 0x81be16cd, 0xf6b9265b, 0x6fb077e1, 0x18b74777,
     0x88085ae6, 0xff0f6a70, 0x66063bca, 0x11010b5c, 0x8f659eff, 0xf862ae69, 0x616bffd3, 0x166ccf45,
     0xa00ae278, 0xd70dd2ee, 0x4e048354, 0x3903b3c2, 0xa7672661, 0xd06016f7, 0x4969474d, 0x3e6e77db,
     0xaed16a4a, 0xd9d65adc, 0x40df0b66, 0x37d83bf0, 0xa9bcae53, 0xdebb9ec5, 0x47b2cf7f, 0x30b5ffe9,
     0xbdbdf21c, 0xcabac28a, 0x53b39330, 0x24b4a3a6, 0xbad03605, 0xcdd70693, 0x54de5729, 0x23d967bf,
     0xb3667a2e, 0xc4614ab8, 0x5d681b02, 0x2a6f2b94, 0xb40bbe37, 0xc30c8ea1, 0x5a05df1b, 0x2d02ef8d]"
  by code_simp

lemma table_steps: "map uint crc32_table = map step8 [0..255]"
  unfolding crc_steps crc32_table_def by simp

lemma length_crc32_table: "length crc32_table = 256"
proof -
  have "length (map uint crc32_table) = nat (255 - 0 + 1)"
    unfolding table_steps by (simp only: length_map length_upto)
  then show ?thesis by simp
qed

lemma uint_crc_bits: "uint ((crc_bit ^^ n) w) = (crc_step ^^ n) (uint w)"
  by (induction n) (simp_all add: uint_crc_bit)

lemma crc_table_entry:
  assumes "unat w < 256"
  shows "crc32_table ! unat w = (crc_bit ^^ 8) w"
proof -
  have "uint (crc32_table ! unat w) = map step8 [0..255] ! unat w"
    using assms length_crc32_table table_steps by (metis nth_map)
  also have "\<dots> = step8 (0 + int (unat w))"
  proof -
    have "unat w < length [0..255 :: int]" "0 + int (unat w) \<le> 255" using assms by (simp_all only: length_upto)
    then show ?thesis by (simp only: nth_map nth_upto)
  qed
  also have "\<dots> = step8 (uint w)" by simp
  also have "\<dots> = uint ((crc_bit ^^ 8) w)" unfolding uint_crc_bits by (simp add: step8_def eval_nat_numeral)
  finally show ?thesis by (simp add: word_uint_eq_iff)
qed

lemma crc_bit_xor: "crc_bit (a XOR b) = crc_bit a XOR crc_bit b"
  by (simp add: crc_bit_def bit_xor_iff ac_simps)

lemma crc_bits_xor: "(crc_bit ^^ n) (a XOR b) = (crc_bit ^^ n) a XOR (crc_bit ^^ n) b"
  by (induction n) (simp_all add: crc_bit_xor)

lemma crc_bits_zero: "(\<And>i. i < n \<Longrightarrow> \<not> bit w i) \<Longrightarrow> (crc_bit ^^ n) w = drop_bit n w"
proof (induction n)
  case (Suc n)
  have "\<not> bit (drop_bit n w) 0" using Suc.prems [of n] by (simp add: bit_drop_bit_eq)
  then show ?case using Suc by (simp add: crc_bit_def drop_bit_drop_bit del: bit_0)
qed simp

text \<open>Looking a byte up in the table is dividing its eight bits.\<close>

lemma crc_lookup: "crc32_table ! unat ((v XOR ucast b) AND 0xff) XOR drop_bit 8 v = crc_byte v b" for b :: byte
proof -
  define k :: "32 word" where "k = 0xff"
  define x where "x = v XOR ucast b"
  have m: "bit k i \<longleftrightarrow> i < 8" for i
    using bit_mask_iff [where 'a = "32 word", of 8 i] by (auto simp: mask_eq_exp_minus_1 k_def)
  have split: "x = (x AND k) XOR (x AND NOT k)"
    by (rule bit_word_eqI) (auto simp: bit_simps)
  have low: "unat (x AND k) < 256"
  proof -
    have "x AND k \<le> k" by (rule word_and_le1)
    then show ?thesis by (simp add: word_le_nat_alt k_def)
  qed
  have "(crc_bit ^^ 8) (x AND NOT k) = drop_bit 8 (x AND NOT k)"
    by (rule crc_bits_zero) (simp add: bit_and_iff bit_not_iff m)
  also have "\<dots> = drop_bit 8 v"
    by (rule bit_word_eqI) (auto simp: bit_simps m x_def dest: bit_imp_le_length)
  finally have "(crc_bit ^^ 8) x = (crc_bit ^^ 8) (x AND k) XOR drop_bit 8 v"
    by (subst split) (simp only: crc_bits_xor)
  then show ?thesis using crc_table_entry [OF low] by (simp add: crc_byte_def x_def k_def)
qed

lemma crc32_bitwise: "crc32 v bs = foldl crc_byte v bs"
  unfolding crc32_def crc_lookup ..

end
