(* ===== verification/Mtd_Md5.thy ===== *)
theory Mtd_Md5
  imports Bmt_Disk
begin

text \<open>
  The message digest of the \<open>mtd\<close> tool, \<open>md5.c\<close> and \<open>md5.h\<close>, and MD5 as it is specified: over the padded message, block by
  block, with the step of a round given by formulas.
\<close>

unbundle bit_operations_syntax

section \<open>The code\<close>

type_synonym md5_state = "u32 \<times> u32 \<times> u32 \<times> u32"

record md5_ctx =
  md_i0 :: u32
  md_i1 :: u32
  md_buf :: md5_state
  md_in :: "byte list"

definition md5_F :: "u32 \<Rightarrow> u32 \<Rightarrow> u32 \<Rightarrow> u32" where "md5_F x y z = (x AND y) OR (NOT x AND z)"
definition md5_G :: "u32 \<Rightarrow> u32 \<Rightarrow> u32 \<Rightarrow> u32" where "md5_G x y z = (x AND z) OR (y AND NOT z)"
definition md5_H :: "u32 \<Rightarrow> u32 \<Rightarrow> u32 \<Rightarrow> u32" where "md5_H x y z = x XOR y XOR z"
definition md5_I :: "u32 \<Rightarrow> u32 \<Rightarrow> u32 \<Rightarrow> u32" where "md5_I x y z = y XOR (x OR NOT z)"

definition rotate_left :: "u32 \<Rightarrow> nat \<Rightarrow> u32" where
  "rotate_left x n = push_bit n x OR drop_bit (32 - n) x"

definition md5_FF :: "u32 \<Rightarrow> u32 \<Rightarrow> u32 \<Rightarrow> u32 \<Rightarrow> u32 \<Rightarrow> nat \<Rightarrow> u32 \<Rightarrow> u32" where
  "md5_FF a b c d x s ac = (let a = a + (md5_F b c d + x + ac); a = rotate_left a s in a + b)"
definition md5_GG :: "u32 \<Rightarrow> u32 \<Rightarrow> u32 \<Rightarrow> u32 \<Rightarrow> u32 \<Rightarrow> nat \<Rightarrow> u32 \<Rightarrow> u32" where
  "md5_GG a b c d x s ac = (let a = a + (md5_G b c d + x + ac); a = rotate_left a s in a + b)"
definition md5_HH :: "u32 \<Rightarrow> u32 \<Rightarrow> u32 \<Rightarrow> u32 \<Rightarrow> u32 \<Rightarrow> nat \<Rightarrow> u32 \<Rightarrow> u32" where
  "md5_HH a b c d x s ac = (let a = a + (md5_H b c d + x + ac); a = rotate_left a s in a + b)"
definition md5_II :: "u32 \<Rightarrow> u32 \<Rightarrow> u32 \<Rightarrow> u32 \<Rightarrow> u32 \<Rightarrow> nat \<Rightarrow> u32 \<Rightarrow> u32" where
  "md5_II a b c d x s ac = (let a = a + (md5_I b c d + x + ac); a = rotate_left a s in a + b)"

definition Transform_rounds :: "u32 list \<Rightarrow> md5_state \<Rightarrow> md5_state" where
  "Transform_rounds inn buf = (case buf of (a, b, c, d) \<Rightarrow>
     (let  a = md5_FF a b c d (inn ! 0) 7 3614090360; d = md5_FF d a b c (inn ! 1) 12 3905402710;
      c = md5_FF c d a b (inn ! 2) 17 606105819; b = md5_FF b c d a (inn ! 3) 22 3250441966;
      a = md5_FF a b c d (inn ! 4) 7 4118548399; d = md5_FF d a b c (inn ! 5) 12 1200080426;
      c = md5_FF c d a b (inn ! 6) 17 2821735955; b = md5_FF b c d a (inn ! 7) 22 4249261313;
      a = md5_FF a b c d (inn ! 8) 7 1770035416; d = md5_FF d a b c (inn ! 9) 12 2336552879;
      c = md5_FF c d a b (inn ! 10) 17 4294925233; b = md5_FF b c d a (inn ! 11) 22 2304563134;
      a = md5_FF a b c d (inn ! 12) 7 1804603682; d = md5_FF d a b c (inn ! 13) 12 4254626195;
      c = md5_FF c d a b (inn ! 14) 17 2792965006; b = md5_FF b c d a (inn ! 15) 22 1236535329;
      a = md5_GG a b c d (inn ! 1) 5 4129170786; d = md5_GG d a b c (inn ! 6) 9 3225465664;
      c = md5_GG c d a b (inn ! 11) 14 643717713; b = md5_GG b c d a (inn ! 0) 20 3921069994;
      a = md5_GG a b c d (inn ! 5) 5 3593408605; d = md5_GG d a b c (inn ! 10) 9 38016083;
      c = md5_GG c d a b (inn ! 15) 14 3634488961; b = md5_GG b c d a (inn ! 4) 20 3889429448;
      a = md5_GG a b c d (inn ! 9) 5 568446438; d = md5_GG d a b c (inn ! 14) 9 3275163606;
      c = md5_GG c d a b (inn ! 3) 14 4107603335; b = md5_GG b c d a (inn ! 8) 20 1163531501;
      a = md5_GG a b c d (inn ! 13) 5 2850285829; d = md5_GG d a b c (inn ! 2) 9 4243563512;
      c = md5_GG c d a b (inn ! 7) 14 1735328473; b = md5_GG b c d a (inn ! 12) 20 2368359562;
      a = md5_HH a b c d (inn ! 5) 4 4294588738; d = md5_HH d a b c (inn ! 8) 11 2272392833;
      c = md5_HH c d a b (inn ! 11) 16 1839030562; b = md5_HH b c d a (inn ! 14) 23 4259657740;
      a = md5_HH a b c d (inn ! 1) 4 2763975236; d = md5_HH d a b c (inn ! 4) 11 1272893353;
      c = md5_HH c d a b (inn ! 7) 16 4139469664; b = md5_HH b c d a (inn ! 10) 23 3200236656;
      a = md5_HH a b c d (inn ! 13) 4 681279174; d = md5_HH d a b c (inn ! 0) 11 3936430074;
      c = md5_HH c d a b (inn ! 3) 16 3572445317; b = md5_HH b c d a (inn ! 6) 23 76029189;
      a = md5_HH a b c d (inn ! 9) 4 3654602809; d = md5_HH d a b c (inn ! 12) 11 3873151461;
      c = md5_HH c d a b (inn ! 15) 16 530742520; b = md5_HH b c d a (inn ! 2) 23 3299628645;
      a = md5_II a b c d (inn ! 0) 6 4096336452; d = md5_II d a b c (inn ! 7) 10 1126891415;
      c = md5_II c d a b (inn ! 14) 15 2878612391; b = md5_II b c d a (inn ! 5) 21 4237533241;
      a = md5_II a b c d (inn ! 12) 6 1700485571; d = md5_II d a b c (inn ! 3) 10 2399980690;
      c = md5_II c d a b (inn ! 10) 15 4293915773; b = md5_II b c d a (inn ! 1) 21 2240044497;
      a = md5_II a b c d (inn ! 8) 6 1873313359; d = md5_II d a b c (inn ! 15) 10 4264355552;
      c = md5_II c d a b (inn ! 6) 15 2734768916; b = md5_II b c d a (inn ! 13) 21 1309151649;
      a = md5_II a b c d (inn ! 4) 6 4149444226; d = md5_II d a b c (inn ! 11) 10 3174756917;
      c = md5_II c d a b (inn ! 2) 15 718787259; b = md5_II b c d a (inn ! 9) 21 3951481745
      in (a, b, c, d)))"

definition Transform :: "md5_state \<Rightarrow> u32 list \<Rightarrow> md5_state" where
  "Transform buf inn =
     (case buf of (a0, b0, c0, d0) \<Rightarrow>
        (case Transform_rounds inn buf of (a, b, c, d) \<Rightarrow> (a0 + a, b0 + b, c0 + c, d0 + d)))"

text \<open>A word of the buffer, and the words of the buffer.\<close>

definition buf_word :: "byte list \<Rightarrow> nat \<Rightarrow> u32" where
  "buf_word bs ii = push_bit 24 (ucast (bs ! (ii + 3))) OR push_bit 16 (ucast (bs ! (ii + 2)))
     OR push_bit 8 (ucast (bs ! (ii + 1))) OR ucast (bs ! ii)"

definition buf_words :: "nat \<Rightarrow> byte list \<Rightarrow> u32 list" where
  "buf_words n bs = map (\<lambda>i. buf_word bs (4 * i)) [0..<n]"

definition MD5_Init :: "md5_ctx \<Rightarrow> md5_ctx" where
  "MD5_Init C = C\<lparr>md_i0 := 0, md_i1 := 0, md_buf := (0x67452301, 0xefcdab89, 0x98badcfe, 0x10325476)\<rparr>"

fun md5_bytes :: "nat \<Rightarrow> md5_ctx \<Rightarrow> byte list \<Rightarrow> md5_ctx" where
  "md5_bytes mdi C [] = C"
| "md5_bytes mdi C (b # bs) =
     (let C = C\<lparr>md_in := (md_in C)[mdi := b]\<rparr>; mdi = mdi + 1
      in if mdi = 64 then md5_bytes 0 (C\<lparr>md_buf := Transform (md_buf C) (buf_words 16 (md_in C))\<rparr>) bs
         else md5_bytes mdi C bs)"

text \<open>\<open>(mdContext->i[0] >> 3) & 0x3F\<close>\<close>

definition md5_mdi :: "md5_ctx \<Rightarrow> nat" where
  "md5_mdi C = unat (drop_bit 3 (md_i0 C) AND 0x3F)"

definition MD5_Update :: "md5_ctx \<Rightarrow> byte list \<Rightarrow> md5_ctx" where
  "MD5_Update C inBuf =
     (let inLen = of_nat (length inBuf) :: u32;
          mdi = md5_mdi C;
          C' = (if md_i0 C + push_bit 3 inLen < md_i0 C then C\<lparr>md_i1 := md_i1 C + 1\<rparr> else C);
          C' = C'\<lparr>md_i0 := md_i0 C' + push_bit 3 inLen\<rparr>;
          C' = C'\<lparr>md_i1 := md_i1 C' + drop_bit 29 inLen\<rparr>
      in md5_bytes mdi C' inBuf)"

definition PADDING :: "byte list" where
  "PADDING = 0x80 # replicate 63 0"

definition digest_word :: "u32 \<Rightarrow> byte list" where
  "digest_word w = [ucast (w AND 0xFF), ucast (drop_bit 8 w AND 0xFF), ucast (drop_bit 16 w AND 0xFF), ucast (drop_bit 24 w AND 0xFF)]"

definition md5_hash :: "md5_state \<Rightarrow> byte list" where
  "md5_hash s = (case s of (a, b, c, d) \<Rightarrow> digest_word a @ digest_word b @ digest_word c @ digest_word d)"

definition MD5_Final :: "md5_ctx \<Rightarrow> byte list" where
  "MD5_Final C =
     (let in14 = md_i0 C; in15 = md_i1 C;
          mdi = md5_mdi C;
          padLen = (if mdi < 56 then 56 - mdi else 120 - mdi);
          C = MD5_Update C (take padLen PADDING)
      in md5_hash (Transform (md_buf C) (buf_words 14 (md_in C) @ [in14, in15])))"

section \<open>The specification\<close>

definition md5_consts :: "u32 list" where
  "md5_consts = [
     3614090360, 3905402710, 606105819, 3250441966, 4118548399, 1200080426, 2821735955, 4249261313,
     1770035416, 2336552879, 4294925233, 2304563134, 1804603682, 4254626195, 2792965006, 1236535329,
     4129170786, 3225465664, 643717713, 3921069994, 3593408605, 38016083, 3634488961, 3889429448,
     568446438, 3275163606, 4107603335, 1163531501, 2850285829, 4243563512, 1735328473, 2368359562,
     4294588738, 2272392833, 1839030562, 4259657740, 2763975236, 1272893353, 4139469664, 3200236656,
     681279174, 3936430074, 3572445317, 76029189, 3654602809, 3873151461, 530742520, 3299628645,
     4096336452, 1126891415, 2878612391, 4237533241, 1700485571, 2399980690, 4293915773, 2240044497,
     1873313359, 4264355552, 2734768916, 1309151649, 4149444226, 3174756917, 718787259, 3951481745]"

text \<open>Step \<open>i\<close> of 64: the function of the round, the word of the block, the amount of the rotation.\<close>

definition round_fun :: "nat \<Rightarrow> u32 \<Rightarrow> u32 \<Rightarrow> u32 \<Rightarrow> u32" where
  "round_fun i = [md5_F, md5_G, md5_H, md5_I] ! (i div 16)"

definition round_word :: "nat \<Rightarrow> nat" where
  "round_word i = [i, 5 * i + 1, 3 * i + 5, 7 * i] ! (i div 16) mod 16"

definition round_shift :: "nat \<Rightarrow> nat" where
  "round_shift i = [[7, 12, 17, 22], [5, 9, 14, 20], [4, 11, 16, 23], [6, 10, 15, 21]] ! (i div 16) ! (i mod 4)"

definition md5_step :: "u32 list \<Rightarrow> md5_state \<Rightarrow> nat \<Rightarrow> md5_state" where
  "md5_step M s i = (case s of (a, b, c, d) \<Rightarrow>
     (d, b + rotate_left (a + (round_fun i b c d + M ! round_word i + md5_consts ! i)) (round_shift i), b, c))"

definition md5_block :: "u32 list \<Rightarrow> md5_state \<Rightarrow> md5_state" where
  "md5_block M s =
     (case s of (a, b, c, d) \<Rightarrow> (case foldl (md5_step M) s [0..<64] of (a', b', c', d') \<Rightarrow> (a + a', b + b', c + c', d + d')))"

definition md5_pad :: "byte list \<Rightarrow> byte list" where
  "md5_pad bs = bs @ 0x80 # replicate ((119 - length bs mod 64) mod 64) 0 @ le_bytes 8 (8 * length bs)"

definition md5_spec :: "byte list \<Rightarrow> byte list" where
  "md5_spec bs =
     md5_hash (foldl (\<lambda>s k. md5_block (buf_words 16 (take 64 (drop (64 * k) (md5_pad bs)))) s)
       (0x67452301, 0xefcdab89, 0x98badcfe, 0x10325476) [0..<length (md5_pad bs) div 64])"

section \<open>The rounds\<close>

type_synonym md5_instr = "(u32 \<Rightarrow> u32 \<Rightarrow> u32 \<Rightarrow> u32 \<Rightarrow> u32 \<Rightarrow> nat \<Rightarrow> u32 \<Rightarrow> u32) \<times> nat \<times> nat \<times> u32"

text \<open>Step \<open>i\<close> as the code writes it: which macro, and its last arguments.\<close>

definition md5_instr :: "nat \<Rightarrow> md5_instr" where
  "md5_instr i = ([md5_FF, md5_GG, md5_HH, md5_II] ! (i div 16), round_word i, round_shift i, md5_consts ! i)"

definition md5_move :: "u32 list \<Rightarrow> md5_state \<Rightarrow> md5_instr \<Rightarrow> md5_state" where
  "md5_move M s p = (case s of (a, b, c, d) \<Rightarrow> (case p of (F, w, n, k) \<Rightarrow> (d, F a b c d (M ! w) n k, b, c)))"

lemma md5_step_move:
  assumes "i < 64"
  shows "md5_step M s i = md5_move M s (md5_instr i)"
proof -
  have "i div 16 < 4" using assms by simp
  then consider "i div 16 = 0" | "i div 16 = 1" | "i div 16 = 2" | "i div 16 = 3" by linarith
  then show ?thesis
    by cases (cases s; simp add: md5_step_def md5_move_def md5_instr_def round_fun_def md5_FF_def md5_GG_def md5_HH_def
      md5_II_def Let_def add.commute)+
qed

lemma foldl_move:
  "foldl (md5_move M) (a, b, c, d) ((F, w, n, k) # ps) =
     (let t = F a b c d (M ! w) n k in foldl (md5_move M) (d, t, b, c) ps)"
  by (simp add: md5_move_def)

lemma steps_moves: "(\<And>i. i \<in> set is \<Longrightarrow> i < 64) \<Longrightarrow> foldl (md5_step M) s is = foldl (md5_move M) s (map md5_instr is)"
  by (induction "is" arbitrary: s) (simp_all add: md5_step_move)

lemma md5_instrs:
  "map md5_instr [0..<64] = [
     (md5_FF, 0, 7, 3614090360), (md5_FF, 1, 12, 3905402710), (md5_FF, 2, 17, 606105819), (md5_FF, 3, 22, 3250441966),
     (md5_FF, 4, 7, 4118548399), (md5_FF, 5, 12, 1200080426), (md5_FF, 6, 17, 2821735955), (md5_FF, 7, 22, 4249261313),
     (md5_FF, 8, 7, 1770035416), (md5_FF, 9, 12, 2336552879), (md5_FF, 10, 17, 4294925233), (md5_FF, 11, 22, 2304563134),
     (md5_FF, 12, 7, 1804603682), (md5_FF, 13, 12, 4254626195), (md5_FF, 14, 17, 2792965006), (md5_FF, 15, 22, 1236535329),
     (md5_GG, 1, 5, 4129170786), (md5_GG, 6, 9, 3225465664), (md5_GG, 11, 14, 643717713), (md5_GG, 0, 20, 3921069994),
     (md5_GG, 5, 5, 3593408605), (md5_GG, 10, 9, 38016083), (md5_GG, 15, 14, 3634488961), (md5_GG, 4, 20, 3889429448),
     (md5_GG, 9, 5, 568446438), (md5_GG, 14, 9, 3275163606), (md5_GG, 3, 14, 4107603335), (md5_GG, 8, 20, 1163531501),
     (md5_GG, 13, 5, 2850285829), (md5_GG, 2, 9, 4243563512), (md5_GG, 7, 14, 1735328473), (md5_GG, 12, 20, 2368359562),
     (md5_HH, 5, 4, 4294588738), (md5_HH, 8, 11, 2272392833), (md5_HH, 11, 16, 1839030562), (md5_HH, 14, 23, 4259657740),
     (md5_HH, 1, 4, 2763975236), (md5_HH, 4, 11, 1272893353), (md5_HH, 7, 16, 4139469664), (md5_HH, 10, 23, 3200236656),
     (md5_HH, 13, 4, 681279174), (md5_HH, 0, 11, 3936430074), (md5_HH, 3, 16, 3572445317), (md5_HH, 6, 23, 76029189),
     (md5_HH, 9, 4, 3654602809), (md5_HH, 12, 11, 3873151461), (md5_HH, 15, 16, 530742520), (md5_HH, 2, 23, 3299628645),
     (md5_II, 0, 6, 4096336452), (md5_II, 7, 10, 1126891415), (md5_II, 14, 15, 2878612391), (md5_II, 5, 21, 4237533241),
     (md5_II, 12, 6, 1700485571), (md5_II, 3, 10, 2399980690), (md5_II, 10, 15, 4293915773), (md5_II, 1, 21, 2240044497),
     (md5_II, 8, 6, 1873313359), (md5_II, 15, 10, 4264355552), (md5_II, 6, 15, 2734768916), (md5_II, 13, 21, 1309151649),
     (md5_II, 4, 6, 4149444226), (md5_II, 11, 10, 3174756917), (md5_II, 2, 15, 718787259), (md5_II, 9, 21, 3951481745)]"
  by (simp add: upt_rec md5_instr_def round_word_def round_shift_def md5_consts_def)

lemma Transform_rounds_steps: "Transform_rounds M s = foldl (md5_step M) s [0..<64]"
proof -
  obtain a b c d where s: "s = (a, b, c, d)" by (metis surj_pair)
  have "foldl (md5_step M) s [0..<64] = foldl (md5_move M) s (map md5_instr [0..<64])"
    by (rule steps_moves) simp
  then show ?thesis
    unfolding Transform_rounds_def md5_instrs s prod.case by (simp only: foldl_move foldl_Nil)
qed

lemma Transform_block: "Transform s M = md5_block M s"
  by (simp add: Transform_def md5_block_def Transform_rounds_steps)

section \<open>The buffer\<close>

text \<open>The state after the full blocks of a message, and a context that has absorbed a message.\<close>

definition md5_blocks :: "byte list \<Rightarrow> md5_state" where
  "md5_blocks bs =
     foldl (\<lambda>s k. md5_block (buf_words 16 (take 64 (drop (64 * k) bs))) s)
       (0x67452301, 0xefcdab89, 0x98badcfe, 0x10325476) [0..<length bs div 64]"

definition md5_holds :: "md5_ctx \<Rightarrow> byte list \<Rightarrow> bool" where
  "md5_holds C bs \<longleftrightarrow> length (md_in C) = 64 \<and> md_buf C = md5_blocks bs
     \<and> take (length bs mod 64) (md_in C) = drop (64 * (length bs div 64)) bs"

definition md5_counts :: "md5_ctx \<Rightarrow> nat \<Rightarrow> bool" where
  "md5_counts C n \<longleftrightarrow> md_i0 C = of_nat (8 * n) \<and> md_i1 C = of_nat (8 * n div 2 ^ 32)"

lemma div_64_add: "(n + k) div 64 = n div 64 + (n mod 64 + k) div 64" for n k :: nat
proof -
  have "n + k = (n mod 64 + k) + n div 64 * 64" by simp
  then show ?thesis using div_mult_self3 [of 64 "n div 64" "n mod 64 + k"] by (simp add: add.commute)
qed

lemma part_block:
  "n mod 64 + k < 64 \<Longrightarrow> (n + k) div 64 = n div 64"
  "n mod 64 + k = 64 \<Longrightarrow> (n + k) div 64 = Suc (n div 64)" for n k :: nat
  by (simp_all add: div_64_add [of n k])

lemma next_byte:
  "Suc (n mod 64) = 64 \<Longrightarrow> Suc n mod 64 = 0" "Suc (n mod 64) = 64 \<Longrightarrow> Suc n div 64 = Suc (n div 64)"
  "Suc (n mod 64) \<noteq> 64 \<Longrightarrow> Suc n mod 64 = Suc (n mod 64)" "Suc (n mod 64) \<noteq> 64 \<Longrightarrow> Suc n div 64 = n div 64" for n :: nat
  by (simp_all add: mod_Suc div_Suc)

lemma md5_blocks_append:
  assumes "length bs mod 64 + length cs < 64"
  shows "md5_blocks (bs @ cs) = md5_blocks bs"
proof -
  have e: "(length bs + length cs) div 64 = length bs div 64" using assms by (rule part_block)
  have "take 64 (drop (64 * k) (bs @ cs)) = take 64 (drop (64 * k) bs)" if "k < length bs div 64" for k
    using that by simp
  then show ?thesis unfolding md5_blocks_def length_append e by (intro foldl_cong) auto
qed

lemma md5_blocks_block:
  assumes "length bs mod 64 + length cs = 64"
  shows "md5_blocks (bs @ cs) = md5_block (buf_words 16 (drop (64 * (length bs div 64)) bs @ cs)) (md5_blocks bs)"
proof -
  have e: "(length bs + length cs) div 64 = Suc (length bs div 64)" using assms by (rule part_block)
  have "take 64 (drop (64 * k) (bs @ cs)) = take 64 (drop (64 * k) bs)" if "k < length bs div 64" for k
    using that by simp
  then have "foldl (\<lambda>s k. md5_block (buf_words 16 (take 64 (drop (64 * k) (bs @ cs)))) s) z [0..<length bs div 64]
      = foldl (\<lambda>s k. md5_block (buf_words 16 (take 64 (drop (64 * k) bs))) s) z [0..<length bs div 64]" for z
    by (intro foldl_cong) auto
  moreover have "take 64 (drop (64 * (length bs div 64)) (bs @ cs)) = drop (64 * (length bs div 64)) bs @ cs"
    using assms by (simp add: minus_mult_div_eq_mod)
  ultimately show ?thesis unfolding md5_blocks_def length_append e by simp
qed

lemma md5_bytes_holds:
  "md5_holds C bs \<Longrightarrow> md5_holds (md5_bytes (length bs mod 64) C cs) (bs @ cs)"
proof (induction cs arbitrary: C bs)
  case (Cons b cs)
  let ?m = "length bs mod 64"
  define D where "D = C\<lparr>md_in := (md_in C)[?m := b]\<rparr>"
  have len: "length (md_in C) = 64" and buf: "md_buf C = md5_blocks bs"
    and part: "take ?m (md_in C) = drop (64 * (length bs div 64)) bs"
    using Cons.prems by (auto simp: md5_holds_def)
  have m: "?m < 64" by simp
  have t: "take (Suc ?m) (md_in D) = drop (64 * (length bs div 64)) bs @ [b]"
    using m len part by (simp add: D_def take_Suc_conv_app_nth)
  show ?case
  proof (cases "Suc ?m = 64")
    case True
    define E where "E = D\<lparr>md_buf := Transform (md_buf D) (buf_words 16 (md_in D))\<rparr>"
    have n: "length (bs @ [b]) mod 64 = 0" "length (bs @ [b]) div 64 = Suc (length bs div 64)"
      using next_byte(1,2) [OF True] by simp_all
    have "md_in D = drop (64 * (length bs div 64)) bs @ [b]" using t True len by (simp add: D_def)
    then have "md5_holds E (bs @ [b])"
      using True len buf n by (simp add: md5_holds_def E_def D_def Transform_block md5_blocks_block)
    then have "md5_holds (md5_bytes 0 E cs) ((bs @ [b]) @ cs)" using Cons.IH [of E "bs @ [b]"] n(1) by simp
    then show ?thesis using True by (simp add: Let_def D_def E_def)
  next
    case False
    then have n: "length (bs @ [b]) mod 64 = Suc ?m" "length (bs @ [b]) div 64 = length bs div 64"
      using next_byte(3,4) [OF False] by simp_all
    have "md5_holds D (bs @ [b])"
      unfolding md5_holds_def n using t False m len buf n md5_blocks_append [of bs "[b]"] by (simp add: D_def)
    then have "md5_holds (md5_bytes (Suc ?m) D cs) ((bs @ [b]) @ cs)" using Cons.IH [of D "bs @ [b]"] n(1) by simp
    then show ?thesis using False by (simp add: Let_def D_def)
  qed
qed simp

lemma md5_bytes_counts: "md_i0 (md5_bytes m C cs) = md_i0 C \<and> md_i1 (md5_bytes m C cs) = md_i1 C"
  by (induction m C cs rule: md5_bytes.induct) (simp_all add: Let_def)

lemma md5_mdi_counts:
  assumes "md5_counts C n"
  shows "md5_mdi C = n mod 64"
proof -
  have six: "(0x3F :: u32) = mask 6" by (simp add: mask_eq_exp_minus_1)
  have i0: "unat (md_i0 C) = 8 * n mod 2 ^ 32"
    using assms unfolding md5_counts_def by (simp only: unat_of_nat) simp
  have "md5_mdi C = unat (md_i0 C) div 8 mod 64"
    unfolding md5_mdi_def six take_bit_eq_mask [symmetric] unsigned_take_bit_eq unat_drop_bit_eq
    by (simp add: take_bit_eq_mod drop_bit_eq_div)
  also have "\<dots> = n mod 64"
  proof -
    have "8 * n mod (8 * 2 ^ 29) = 8 * (n mod 2 ^ 29)" by (rule mult_mod_right [symmetric])
    moreover have "n mod (64 * 2 ^ 23) mod 64 = n mod 64" by (rule mod_mod_cancel) simp
    ultimately show ?thesis unfolding i0 by simp
  qed
  finally show ?thesis .
qed

lemma u32_carry: "((of_nat a + of_nat b :: u32) < of_nat a) = (2 ^ 32 \<le> a mod 2 ^ 32 + b mod 2 ^ 32)"
proof -
  define x y where "x = a mod 2 ^ 32" and "y = b mod 2 ^ 32"
  have b: "x < 2 ^ 32" "y < 2 ^ 32" by (simp_all add: x_def y_def)
  have "unat (of_nat a :: u32) = x" "unat (of_nat b :: u32) = y" by (simp_all add: unat_of_nat x_def y_def)
  then have "((of_nat a + of_nat b :: u32) < of_nat a) = ((x + y) mod 2 ^ 32 < x)"
    by (simp add: word_less_nat_alt unat_word_ariths)
  also have "\<dots> = (2 ^ 32 \<le> x + y)"
  proof (cases "2 ^ 32 \<le> x + y")
    case True
    then have "(x + y) mod 2 ^ 32 = x + y - 2 ^ 32" using b by (simp add: le_mod_geq)
    then show ?thesis using True b by linarith
  qed simp
  finally show ?thesis by (simp add: x_def y_def)
qed

lemma u32_div_add:
  "(a + b) div 2 ^ 32 = a div 2 ^ 32 + b div 2 ^ 32 + (if 2 ^ 32 \<le> a mod 2 ^ 32 + b mod 2 ^ 32 then 1 else 0)" for a b :: nat
proof -
  define x y where "x = a mod 2 ^ 32" and "y = b mod 2 ^ 32"
  have b: "x < 2 ^ 32" "y < 2 ^ 32" by (simp_all add: x_def y_def)
  have "(x + y) div 2 ^ 32 = (if 2 ^ 32 \<le> x + y then 1 else 0)"
  proof (cases "2 ^ 32 \<le> x + y")
    case True
    then have "(x + y) div 2 ^ 32 = Suc ((x + y - 2 ^ 32) div 2 ^ 32)" by (simp add: le_div_geq)
    then show ?thesis using True b by simp
  qed simp
  then show ?thesis using div_add1_eq [of a b "2 ^ 32"] by (simp add: x_def y_def)
qed

lemma md5_update_counts:
  assumes "md5_counts C n" "length cs < 2 ^ 32"
  shows "md5_counts (MD5_Update C cs) (n + length cs)"
proof -
  define k where "k = length cs"
  have i: "md_i0 C = of_nat (8 * n)" "md_i1 C = of_nat (8 * n div 2 ^ 32)" using assms(1) by (simp_all only: md5_counts_def)
  have p: "push_bit 3 (of_nat k) = (of_nat (8 * k) :: u32)" by (simp add: push_bit_eq_mult)
  have dr: "drop_bit 29 (of_nat k) = (of_nat (k div 2 ^ 29) :: u32)"
    using assms(2) by (intro word_unat_eq_iff [THEN iffD2]) (simp only: unat_drop_bit_eq unat_of_nat k_def,
      simp add: drop_bit_eq_div unat_of_nat)
  have carry: "(md_i0 C + push_bit 3 (of_nat k) < md_i0 C) = (2 ^ 32 \<le> 8 * n mod 2 ^ 32 + 8 * k mod 2 ^ 32)"
    unfolding p i(1) by (rule u32_carry)
  have div: "8 * (n + k) div 2 ^ 32 = 8 * n div 2 ^ 32 + k div 2 ^ 29 + (if 2 ^ 32 \<le> 8 * n mod 2 ^ 32 + 8 * k mod 2 ^ 32 then 1 else 0)"
    using u32_div_add [of "8 * n" "8 * k"] div_mult_mult1 [of 8 k "2 ^ 29"] by (simp add: distrib_left)
  have "md_i0 (MD5_Update C cs) = of_nat (8 * (n + k))"
    by (simp add: MD5_Update_def Let_def md5_bytes_counts k_def [symmetric] p i)
  moreover have "md_i1 (MD5_Update C cs) = of_nat (8 * (n + k) div 2 ^ 32)"
  proof -
    have "md_i1 (MD5_Update C cs) =
        (if md_i0 C + push_bit 3 (of_nat k) < md_i0 C then md_i1 C + 1 else md_i1 C) + drop_bit 29 (of_nat k)"
      by (simp add: MD5_Update_def Let_def md5_bytes_counts k_def [symmetric])
    then show ?thesis unfolding carry dr i(2) div by (cases "2 ^ 32 \<le> 8 * n mod 2 ^ 32 + 8 * k mod 2 ^ 32") (simp_all only: if_True if_False of_nat_add of_nat_0 of_nat_1 add_0_left add_0_right add.assoc add.left_commute add.commute)
  qed
  ultimately show ?thesis by (simp add: md5_counts_def k_def)
qed

section \<open>The digest\<close>

definition md5_digest :: "md5_ctx \<Rightarrow> byte list list \<Rightarrow> byte list" where
  "md5_digest C inputs = MD5_Final (foldl MD5_Update (MD5_Init C) inputs)"

lemma buf_word_append: "ii + 3 < length bs \<Longrightarrow> buf_word (bs @ cs) ii = buf_word bs ii"
  by (simp add: buf_word_def nth_append)

lemma buf_words_split:
  assumes "4 * (m + n) \<le> length bs"
  shows "buf_words (m + n) bs = buf_words m bs @ buf_words n (drop (4 * m) bs)"
proof -
  have "[m..<m + n] = map (\<lambda>i. i + m) [0..<n]" using map_add_upt [of m n] by (simp only: add.commute)
  then have "map (\<lambda>i. buf_word bs (4 * i)) [m..<m + n] = map (\<lambda>i. buf_word bs (4 * (i + m))) [0..<n]" by simp
  moreover have "buf_word bs (4 * (i + m)) = buf_word (drop (4 * m) bs) (4 * i)" if "i < n" for i
  proof -
    have "4 * (i + m) = 4 * m + 4 * i" "4 * m \<le> length bs" using assms by simp_all
    then show ?thesis by (simp only: buf_word_def nth_drop add.assoc)
  qed
  ultimately have "map (\<lambda>i. buf_word bs (4 * i)) [m..<m + n] = buf_words n (drop (4 * m) bs)"
    by (auto simp: buf_words_def)
  then show ?thesis by (simp only: buf_words_def upt_add_eq_append [OF le0] map_append)
qed

text \<open>The length stands in the two last words.\<close>

lemma le_bytes_append: "le_bytes (m + n) x = le_bytes m x @ le_bytes n (x div 256 ^ m)"
  by (induction m arbitrary: x) (simp_all add: div_mult2_eq)

lemma buf_word_le: "buf_word (le_bytes 4 x) 0 = of_nat x"
proof -
  have d: "x div 256 = drop_bit 8 x" for x :: nat by (simp add: drop_bit_eq_div)
  have l: "le_bytes 4 x = [of_nat x, of_nat (drop_bit 8 x), of_nat (drop_bit 16 x), of_nat (drop_bit 24 x)]"
  proof -
    have "le_bytes (Suc (Suc (Suc (Suc 0)))) x = [of_nat x, of_nat (drop_bit 8 x), of_nat (drop_bit 16 x), of_nat (drop_bit 24 x)]"
      by (simp only: le_bytes.simps d drop_bit_drop_bit) simp
    moreover have "Suc (Suc (Suc (Suc 0))) = 4" by simp
    ultimately show ?thesis by metis
  qed
  have "buf_word (le_bytes 4 x) 0 = push_bit 24 (ucast (of_nat (drop_bit 24 x) :: byte)) OR push_bit 16 (ucast (of_nat (drop_bit 16 x) :: byte))
     OR push_bit 8 (ucast (of_nat (drop_bit 8 x) :: byte)) OR ucast (of_nat x :: byte)"
    unfolding l by (simp add: buf_word_def)
  also have "\<dots> = of_nat x"
  proof (rule bit_word_eqI)
    fix n assume "n < LENGTH(32)"
    then consider "n < 8" | "8 \<le> n" "n < 16" | "16 \<le> n" "n < 24" | "24 \<le> n" "n < 32" by force
    then show "bit (push_bit 24 (ucast (of_nat (drop_bit 24 x) :: byte)) OR push_bit 16 (ucast (of_nat (drop_bit 16 x) :: byte))
     OR push_bit 8 (ucast (of_nat (drop_bit 8 x) :: byte)) OR ucast (of_nat x :: byte) :: u32) n = bit (of_nat x :: u32) n"
      by cases (auto simp: bit_simps less_diff_conv2)
  qed
  finally show ?thesis .
qed

lemma buf_words_le: "buf_words 2 (le_bytes 8 x) = [of_nat x, of_nat (x div 2 ^ 32)]"
proof -
  have "le_bytes 8 x = le_bytes 4 x @ le_bytes 4 (x div 2 ^ 32)" using le_bytes_append [of 4 4 x] by simp
  then have "buf_words (1 + 1) (le_bytes 8 x) = buf_words 1 (le_bytes 4 x @ le_bytes 4 (x div 2 ^ 32)) @ buf_words 1 (le_bytes 4 (x div 2 ^ 32))"
    by (subst buf_words_split) simp_all
  then show ?thesis using buf_word_le [of x] buf_word_le [of "x div 2 ^ 32"]
    by (simp add: buf_words_def buf_word_append numeral_2_eq_2)
qed

lemma md5_update_holds:
  assumes "md5_holds C bs" "md5_counts C (length bs)"
  shows "md5_holds (MD5_Update C cs) (bs @ cs)"
proof -
  have "md5_holds D bs \<Longrightarrow> md5_holds (md5_bytes (md5_mdi C) D cs) (bs @ cs)" for D
    unfolding md5_mdi_counts [OF assms(2)] by (rule md5_bytes_holds)
  then show ?thesis unfolding MD5_Update_def Let_def using assms(1) by (simp add: md5_holds_def)
qed

lemma md5_init_holds: "length (md_in C) = 64 \<Longrightarrow> md5_holds (MD5_Init C) [] \<and> md5_counts (MD5_Init C) 0"
  by (simp add: md5_holds_def md5_counts_def MD5_Init_def md5_blocks_def)

lemma md5_pad_blocks: "md5_spec bs = md5_hash (md5_blocks (md5_pad bs))"
  by (simp add: md5_spec_def md5_blocks_def)

text \<open>The padding of the code brings the message to 56 bytes in the last block.\<close>

lemma md5_final:
  assumes "md5_holds C bs" "md5_counts C (length bs)"
  shows "MD5_Final C = md5_spec bs"
proof -
  let ?n = "length bs"
  define pad where "pad = take (if ?n mod 64 < 56 then 56 - ?n mod 64 else 120 - ?n mod 64) PADDING"
  define D where "D = MD5_Update C pad"
  have len: "length pad = (if ?n mod 64 < 56 then 56 - ?n mod 64 else 120 - ?n mod 64)"
    by (simp add: pad_def PADDING_def)
  have pad: "pad = 0x80 # replicate ((119 - ?n mod 64) mod 64) 0"
  proof (cases "?n mod 64 < 56")
    case True
    then have "(119 - ?n mod 64) mod 64 = 55 - ?n mod 64" by (simp add: le_mod_geq)
    then show ?thesis using True by (simp add: pad_def PADDING_def take_Cons')
  next
    case False
    have "?n mod 64 < 64" by simp
    then have "(119 - ?n mod 64) mod 64 = 119 - ?n mod 64" "120 - ?n mod 64 = Suc (119 - ?n mod 64)"
      using False by simp_all
    then show ?thesis using False by (simp add: pad_def PADDING_def)
  qed
  have m: "(?n + length pad) mod 64 = 56"
  proof -
    have "?n mod 64 < 64" by simp
    then have "?n mod 64 + length pad = 56 \<or> ?n mod 64 + length pad = 120" unfolding len by auto
    then show ?thesis using mod_add_left_eq [of ?n 64 "length pad"] by auto
  qed
  have D: "md5_holds D (bs @ pad)" unfolding D_def by (rule md5_update_holds [OF assms])
  have last: "take 56 (md_in D) = drop (64 * (length (bs @ pad) div 64)) (bs @ pad)" "length (md_in D) = 64"
    "md_buf D = md5_blocks (bs @ pad)"
    using D m by (auto simp: md5_holds_def)
  have "md5_pad bs = (bs @ pad) @ le_bytes 8 (8 * ?n)" by (simp add: md5_pad_def pad)
  then have "md5_spec bs = md5_hash (md5_block (buf_words (14 + 2) (take 56 (md_in D) @ le_bytes 8 (8 * ?n))) (md_buf D))"
    unfolding md5_pad_blocks last using md5_blocks_block [of "bs @ pad" "le_bytes 8 (8 * ?n)"] m by simp
  also have "buf_words (14 + 2) (take 56 (md_in D) @ le_bytes 8 (8 * ?n))
      = buf_words 14 (take 56 (md_in D) @ le_bytes 8 (8 * ?n)) @ buf_words 2 (le_bytes 8 (8 * ?n))"
    using last(2) by (subst buf_words_split) simp_all
  also have "buf_words 14 (take 56 (md_in D) @ le_bytes 8 (8 * ?n)) = buf_words 14 (md_in D)"
    using last(2) by (auto simp: buf_words_def buf_word_def nth_append)
  also have "buf_words 2 (le_bytes 8 (8 * ?n)) = [md_i0 C, md_i1 C]"
    using assms(2) by (simp only: buf_words_le md5_counts_def)
  finally show ?thesis
    unfolding MD5_Final_def Let_def md5_mdi_counts [OF assms(2)] pad_def [symmetric] D_def [symmetric] Transform_block ..
qed

lemma md5_updates:
  assumes "md5_holds C bs \<and> md5_counts C (length bs)" "\<forall>cs \<in> set inputs. length cs < 2 ^ 32"
  shows "md5_holds (foldl MD5_Update C inputs) (bs @ concat inputs)
    \<and> md5_counts (foldl MD5_Update C inputs) (length (bs @ concat inputs))"
  using assms
proof (induction inputs arbitrary: C bs)
  case (Cons cs inputs)
  have "md5_holds (MD5_Update C cs) (bs @ cs) \<and> md5_counts (MD5_Update C cs) (length (bs @ cs))"
    using Cons.prems md5_update_holds md5_update_counts by simp
  then show ?case using Cons.IH [of "MD5_Update C cs" "bs @ cs"] Cons.prems by simp
qed simp

lemma md5_digest_spec:
  assumes "length (md_in C) = 64" "\<forall>cs \<in> set inputs. length cs < 2 ^ 32"
  shows "md5_digest C inputs = md5_spec (concat inputs)"
  using md5_updates [of "MD5_Init C" "[]" inputs] md5_init_holds [OF assms(1)] assms(2)
  by (simp add: md5_digest_def md5_final)

lemma length_md5_hash [simp]: "length (md5_hash s) = 16"
  by (cases s) (simp add: md5_hash_def digest_word_def)

lemma length_md5_digest [simp]: "length (md5_digest C inputs) = 16"
  by (simp add: md5_digest_def MD5_Final_def Let_def)


section \<open>The digest of ''abc''\<close>

definition abc_block :: "u32 list" where
  "abc_block = [0x80636261, 0, 0, 0, 0, 0, 0, 0, 0, 0, 0, 0, 0, 0, 24, 0]"

lemmas md5_evals = md5_move_def md5_FF_def md5_GG_def md5_HH_def md5_II_def md5_F_def md5_G_def md5_H_def md5_I_def
  rotate_left_def Let_def

lemma abc_round1:
  "foldl (md5_move abc_block) (0x67452301, 0xefcdab89, 0x98badcfe, 0x10325476) [
     (md5_FF, 0, 7, 3614090360), (md5_FF, 1, 12, 3905402710), (md5_FF, 2, 17, 606105819), (md5_FF, 3, 22, 3250441966),
     (md5_FF, 4, 7, 4118548399), (md5_FF, 5, 12, 1200080426), (md5_FF, 6, 17, 2821735955), (md5_FF, 7, 22, 4249261313),
     (md5_FF, 8, 7, 1770035416), (md5_FF, 9, 12, 2336552879), (md5_FF, 10, 17, 4294925233), (md5_FF, 11, 22, 2304563134),
     (md5_FF, 12, 7, 1804603682), (md5_FF, 13, 12, 4254626195), (md5_FF, 14, 17, 2792965006), (md5_FF, 15, 22, 1236535329)] =
   (0xdda9b9a6, 0x72aff2e0, 0xe396856b, 0xa1051895)"
  by (simp add: md5_evals abc_block_def)

lemma abc_round2:
  "foldl (md5_move abc_block) (0xdda9b9a6, 0x72aff2e0, 0xe396856b, 0xa1051895) [
     (md5_GG, 1, 5, 4129170786), (md5_GG, 6, 9, 3225465664), (md5_GG, 11, 14, 643717713), (md5_GG, 0, 20, 3921069994),
     (md5_GG, 5, 5, 3593408605), (md5_GG, 10, 9, 38016083), (md5_GG, 15, 14, 3634488961), (md5_GG, 4, 20, 3889429448),
     (md5_GG, 9, 5, 568446438), (md5_GG, 14, 9, 3275163606), (md5_GG, 3, 14, 4107603335), (md5_GG, 8, 20, 1163531501),
     (md5_GG, 13, 5, 2850285829), (md5_GG, 2, 9, 4243563512), (md5_GG, 7, 14, 1735328473), (md5_GG, 12, 20, 2368359562)] =
   (0x790a77fb, 0x726342d3, 0xa62884aa, 0x9f47e4f8)"
  by (simp add: md5_evals abc_block_def)

lemma abc_round3:
  "foldl (md5_move abc_block) (0x790a77fb, 0x726342d3, 0xa62884aa, 0x9f47e4f8) [
     (md5_HH, 5, 4, 4294588738), (md5_HH, 8, 11, 2272392833), (md5_HH, 11, 16, 1839030562), (md5_HH, 14, 23, 4259657740),
     (md5_HH, 1, 4, 2763975236), (md5_HH, 4, 11, 1272893353), (md5_HH, 7, 16, 4139469664), (md5_HH, 10, 23, 3200236656),
     (md5_HH, 13, 4, 681279174), (md5_HH, 0, 11, 3936430074), (md5_HH, 3, 16, 3572445317), (md5_HH, 6, 23, 76029189),
     (md5_HH, 9, 4, 3654602809), (md5_HH, 12, 11, 3873151461), (md5_HH, 15, 16, 530742520), (md5_HH, 2, 23, 3299628645)] =
   (0x7f2e507b, 0x7beb9700, 0x8fae6399, 0x99d9679d)"
  by (simp add: md5_evals abc_block_def)

lemma abc_round4:
  "foldl (md5_move abc_block) (0x7f2e507b, 0x7beb9700, 0x8fae6399, 0x99d9679d) [
     (md5_II, 0, 6, 4096336452), (md5_II, 7, 10, 1126891415), (md5_II, 14, 15, 2878612391), (md5_II, 5, 21, 4237533241),
     (md5_II, 12, 6, 1700485571), (md5_II, 3, 10, 2399980690), (md5_II, 10, 15, 4293915773), (md5_II, 1, 21, 2240044497),
     (md5_II, 8, 6, 1873313359), (md5_II, 15, 10, 4264355552), (md5_II, 6, 15, 2734768916), (md5_II, 13, 21, 1309151649),
     (md5_II, 4, 6, 4149444226), (md5_II, 11, 10, 3174756917), (md5_II, 2, 15, 718787259), (md5_II, 9, 21, 3951481745)] =
   (0x310ade8f, 0xc08226b3, 0xe484b9d8, 0x624d8cb2)"
  by (simp add: md5_evals abc_block_def)

lemma abc_rounds: "foldl (md5_step abc_block) (0x67452301, 0xefcdab89, 0x98badcfe, 0x10325476) [0..<64] = (0x310ade8f, 0xc08226b3, 0xe484b9d8, 0x624d8cb2)"
proof -
  have "foldl (md5_step abc_block) s [0..<64] = foldl (md5_move abc_block) s (map md5_instr [0..<64])" for s
    by (rule steps_moves) simp
  moreover have "foldl (md5_move abc_block) s (map md5_instr [0..<64]) =
      foldl (md5_move abc_block) (foldl (md5_move abc_block) (foldl (md5_move abc_block) (foldl (md5_move abc_block) s
        (take 16 (map md5_instr [0..<64]))) (take 16 (drop 16 (map md5_instr [0..<64]))))
        (take 16 (drop 32 (map md5_instr [0..<64])))) (drop 48 (map md5_instr [0..<64]))" for s
    unfolding md5_instrs by simp
  ultimately show ?thesis unfolding md5_instrs by (simp add: abc_round1 abc_round2 abc_round3 abc_round4 del: foldl_Cons One_nat_def)
qed

lemma le_bytes_zero: "le_bytes k 0 = replicate k 0"
  by (induction k) simp_all

lemma md5_spec_abc: "md5_spec [97, 98, 99] =
    [0x90, 0x01, 0x50, 0x98, 0x3c, 0xd2, 0x4f, 0xb0, 0xd6, 0x96, 0x3f, 0x7d, 0x28, 0xe1, 0x7f, 0x72]"
proof -
  have "le_bytes (1 + 7) 24 = 24 # replicate 7 0" unfolding le_bytes_append by (simp add: le_bytes_zero)
  then have pad: "md5_pad [97, 98, 99] = [97, 98, 99, 0x80] @ replicate 52 0 @ 24 # replicate 7 0"
    by (simp add: md5_pad_def)
  have words: "buf_words 16 (md5_pad [97, 98, 99]) = abc_block"
    unfolding pad by (simp add: buf_words_def buf_word_def abc_block_def upt_rec nth_append nth_Cons')
  have "md5_spec [97, 98, 99] = md5_hash (md5_blocks ([] @ md5_pad [97, 98, 99]))" by (simp add: md5_pad_blocks)
  also have "\<dots> = md5_hash (md5_block abc_block (0x67452301, 0xefcdab89, 0x98badcfe, 0x10325476))"
    using md5_blocks_block [of "[]" "md5_pad [97, 98, 99]"] words by (simp add: pad md5_blocks_def)
  also have "\<dots> = [0x90, 0x01, 0x50, 0x98, 0x3c, 0xd2, 0x4f, 0xb0, 0xd6, 0x96, 0x3f, 0x7d, 0x28, 0xe1, 0x7f, 0x72]"
    by (simp add: md5_block_def abc_rounds md5_hash_def digest_word_def)
  finally show ?thesis .
qed

end
