(* ===== verification/Mtd_Fix.thy ===== *)
theory Mtd_Fix
  imports Mtd_Crc Mtd_Md5
begin

text \<open>
  The functions that put a header right after the image behind it has changed: \<open>seama.c\<close>, \<open>wrg.c\<close> and \<open>wrgg.c\<close>, which are
  one function over three formats, and \<open>trx.c\<close>.
\<close>

definition set_field :: "nat \<Rightarrow> byte list \<Rightarrow> byte list \<Rightarrow> byte list" where
  "set_field off bs hdr = take off hdr @ bs @ drop (off + length bs) hdr"

text \<open>Every fix ends so: the block is erased and written again.\<close>

definition rewrite_block :: "'d dev \<Rightarrow> nat \<Rightarrow> byte list \<Rightarrow> 'd \<Rightarrow> int outcome \<times> 'd" where
  "rewrite_block V block_offset first_block d =
     (case mtd_erase_block V d block_offset of
        (r, d) \<Rightarrow>
          if r \<noteq> 0 then (Exit, d)
          else (case v_pwrite V d block_offset first_block of
              (w, d) \<Rightarrow> (if w \<noteq> int (v_erasesize V) then Exit else Done 0, d)))"

lemma holds_rewrite_block:
  assumes "dev_holds V mem bad" "a + v_erasesize V \<le> v_size V" "length bs = v_erasesize V"
  obtains d' where "rewrite_block V a bs d = (Done 0, d')" "mem d' = patch a bs (mem d)"
proof -
  obtain d1 d2 where "mtd_erase_block V d a = (0, d1)" "v_pwrite V d1 a bs = (int (v_erasesize V), d2)"
    "mem d2 = patch a bs (mem d)"
    by (rule holds_rewrite [OF assms])
  then show ?thesis using that [of d2] by (simp add: rewrite_block_def)
qed

section \<open>Headers with an MD5 digest\<close>

text \<open>
  What the three files differ in: the size of the header, its magic number, how the size of the image is read and stored
  and where, where the digest stands, the bytes between the header and the image, and the parts of the header that go
  into the digest.
\<close>

record fixfmt =
  fx_sizeof :: nat
  fx_magic :: "byte list \<Rightarrow> bool"
  fx_get_size :: "byte list \<Rightarrow> nat"
  fx_put_size :: "nat \<Rightarrow> byte list"
  fx_size_at :: nat
  fx_digest_at :: nat
  fx_skip :: "byte list \<Rightarrow> nat"
  fx_inputs :: "byte list \<Rightarrow> byte list list"

definition seama_fmt :: fixfmt where
  "seama_fmt = \<lparr>fx_sizeof = 28, fx_magic = (\<lambda>h. get_be32 h = 0x5EA3A417), fx_get_size = (\<lambda>h. get_be32 (drop 8 h)),
     fx_put_size = put_be32, fx_size_at = 8, fx_digest_at = 12, fx_skip = (\<lambda>h. get_be16 (drop 6 h)), fx_inputs = (\<lambda>_. [])\<rparr>"

definition wrg_fmt :: fixfmt where
  "wrg_fmt = \<lparr>fx_sizeof = 96, fx_magic = (\<lambda>h. get_le32 (drop 32 h) = 0x20040220), fx_get_size = (\<lambda>h. get_le32 (drop 40 h)),
     fx_put_size = put_le32, fx_size_at = 40, fx_digest_at = 80, fx_skip = (\<lambda>_. 0),
     fx_inputs = (\<lambda>h. [take 4 (drop 44 h), take 32 (drop 48 h)])\<rparr>"

text \<open>The size is in the byte order of the CPU.\<close>

definition wrgg_fmt :: "host \<Rightarrow> fixfmt" where
  "wrgg_fmt H = \<lparr>fx_sizeof = 160, fx_magic = (\<lambda>h. get_le32 (drop 32 h) = 0x20080321), fx_get_size = (\<lambda>h. cpu32 H (drop 104 h)),
     fx_put_size = put_cpu32 H, fx_size_at = 104, fx_digest_at = 144, fx_skip = (\<lambda>_. 0),
     fx_inputs = (\<lambda>h. [take 4 (drop 108 h), take 32 (drop 112 h)])\<rparr>"

text \<open>
  The new header or an error, -1 when it is right already. \<open>C\<close> is what the stack holds in the place of the context; the
  length of an update is an \<open>unsigned int\<close>.
\<close>

definition image_digest :: "md5_ctx \<Rightarrow> fixfmt \<Rightarrow> byte list \<Rightarrow> nat \<Rightarrow> byte list \<Rightarrow> byte list" where
  "image_digest C X hdr data_size buf = md5_digest C (fx_inputs X hdr @ [take (u32_of (int data_size)) buf])"

definition new_header :: "fixfmt \<Rightarrow> byte list \<Rightarrow> nat \<Rightarrow> byte list \<Rightarrow> byte list" where
  "new_header X hdr data_size digest =
     set_field (fx_digest_at X) digest (set_field (fx_size_at X) (fx_put_size X data_size) hdr)"

definition fix_md5 ::
  "host \<Rightarrow> md5_ctx \<Rightarrow> fixfmt \<Rightarrow> 'd dev \<Rightarrow> byte list \<Rightarrow> nat \<Rightarrow> nat \<Rightarrow> 'd \<Rightarrow> (int + byte list) \<times> 'd" where
  "fix_md5 H C X V hdr data_offset data_size d =
     (if \<not> h_alloc H 1 then (Inl (- 12), d)
      else case v_pread V d data_offset data_size of
        (res, buf, d) \<Rightarrow>
          if res \<noteq> int data_size then (Inl (- 5), d)
          else let digest = image_digest C X hdr data_size buf
            in if digest = take 16 (drop (fx_digest_at X) hdr) then (Inl (- 1), d)
               else (Inr (new_header X hdr data_size digest), d))"

text \<open>
  \<open>es0\<close> is the value of \<open>erasesize\<close> before the device is opened. An error of \<open>fix_md5\<close> is not reported.
\<close>

definition mtd_fix ::
  "host \<Rightarrow> md5_ctx \<Rightarrow> fixfmt \<Rightarrow> nat \<Rightarrow> 'd dev option \<Rightarrow> nat \<Rightarrow> nat \<Rightarrow> 'd \<Rightarrow> (int outcome \<times> 'd) option" where
  "mtd_fix H C X es0 dv offset data_size d =
     (let block_offset = block_of es0 offset; offset = offset - block_offset
      in case dv of
        None \<Rightarrow> Some (Exit, d)
      | Some V \<Rightarrow>
          if sz H (int (block_offset + v_erasesize V)) > v_size V then Some (Exit, d)
          else if \<not> h_alloc H 0 then Some (Exit, d)
          else case v_pread V d block_offset (v_erasesize V) of
            (res, first_block, d) \<Rightarrow>
              if res \<noteq> int (v_erasesize V) then Some (Exit, d)
              else do {
                hdr \<leftarrow> memget first_block offset (fx_sizeof X);
                if \<not> fx_magic X hdr then Some (Exit, d)
                else if fx_get_size X hdr = 0 then Some (Exit, d)
                else
                  let data_offset = sz H (int (offset + fx_sizeof X + fx_skip X hdr));
                      n = (if data_size = 0 then sz H (int (v_size V) - int data_offset) else data_size);
                      n = (if n > fx_get_size X hdr then fx_get_size X hdr else n)
                  in (case fix_md5 H C X V hdr data_offset n d of
                      (Inl _, d) \<Rightarrow> Some (Done 0, d)
                    | (Inr hdr, d) \<Rightarrow> Some (rewrite_block V block_offset (set_field offset hdr first_block) d))
              })"

definition mtd_fixseama :: "host \<Rightarrow> md5_ctx \<Rightarrow> nat \<Rightarrow> 'd dev option \<Rightarrow> nat \<Rightarrow> nat \<Rightarrow> 'd \<Rightarrow> (int outcome \<times> 'd) option" where
  "mtd_fixseama H C = mtd_fix H C seama_fmt"

definition mtd_fixwrg :: "host \<Rightarrow> md5_ctx \<Rightarrow> nat \<Rightarrow> 'd dev option \<Rightarrow> nat \<Rightarrow> nat \<Rightarrow> 'd \<Rightarrow> (int outcome \<times> 'd) option" where
  "mtd_fixwrg H C = mtd_fix H C wrg_fmt"

definition mtd_fixwrgg :: "host \<Rightarrow> md5_ctx \<Rightarrow> nat \<Rightarrow> 'd dev option \<Rightarrow> nat \<Rightarrow> nat \<Rightarrow> 'd \<Rightarrow> (int outcome \<times> 'd) option" where
  "mtd_fixwrgg H C = mtd_fix H C (wrgg_fmt H)"

section \<open>TRX\<close>

text \<open>The data behind the first 12 bytes of the header, from good blocks only.\<close>

partial_function (option) trx_data :: "'d dev \<Rightarrow> nat \<Rightarrow> nat \<Rightarrow> byte list \<Rightarrow> 'd \<Rightarrow> (byte list outcome \<times> 'd) option" where
  "trx_data V data_offset data_size out d =
     (if data_size \<noteq> 0 then
        let read_chunk = min (v_erasesize V - and data_offset (v_erasesize V - 1)) data_size
        in (case mtd_block_is_bad V d (block_of (v_erasesize V) data_offset) of
            (Exit, d) \<Rightarrow> Some (Exit, d)
          | (Done bad, d) \<Rightarrow>
              if bad = 0 then
                (case v_pread V d data_offset read_chunk of
                   (res, bs, d) \<Rightarrow>
                     if res \<noteq> int read_chunk then Some (Exit, d)
                     else trx_data V (data_offset + read_chunk) (data_size - read_chunk) (out @ bs) d)
              else trx_data V (data_offset + read_chunk) (data_size - read_chunk) out d)
      else Some (Done out, d))"

definition trx_fields :: "byte list \<Rightarrow> byte list" where
  "trx_fields buf = put_le32 (length buf + 12) @ put_le32 (unat (crc32buf buf))"

definition mtd_fixtrx :: "host \<Rightarrow> nat \<Rightarrow> 'd dev option \<Rightarrow> nat \<Rightarrow> nat \<Rightarrow> 'd \<Rightarrow> (int outcome \<times> 'd) option" where
  "mtd_fixtrx H trxmagic dv offset data_size d =
     (case dv of
        None \<Rightarrow> Some (Exit, d)
      | Some V \<Rightarrow>
          let data_offset = sz H (int (offset + 12));
              data_size = (if data_size \<noteq> 0 then sz H (int (data_size + 16)) else sz H (int (v_erasesize V) - 12));
              block_offset = block_of (v_erasesize V) offset;
              offset = offset - block_offset
          in if sz H (int (data_offset + data_size)) > v_size V then Some (Exit, d)
             else if \<not> h_alloc H 0 then Some (Exit, d)
             else case v_pread V d block_offset (v_erasesize V) of
               (res, first_block, d) \<Rightarrow>
                 if res \<noteq> int (v_erasesize V) then Some (Exit, d)
                 else do {
                   magic \<leftarrow> memget first_block offset 4;
                   if get_be32 magic \<noteq> trxmagic then Some (Exit, d)
                   else if \<not> h_alloc H 1 then Some (Exit, d)
                   else do {
                     (buf, d) \<leftarrow> trx_data V data_offset data_size [] d;
                     (case buf of
                        Exit \<Rightarrow> Some (Exit, d)
                      | Done buf \<Rightarrow> do {
                          old \<leftarrow> memget first_block (offset + 4) 8;
                          if old = trx_fields buf then Some (Done 0, d)
                          else Some (rewrite_block V block_offset (set_field (offset + 4) (trx_fields buf) first_block) d)
                        })
                   }
                 })"

text \<open>
  The checksum through a mapping of the device, whose length and checksum are in the byte order of the CPU here. The range
  of the checksum is not compared with the mapping.
\<close>

definition trx_fixup :: "host \<Rightarrow> nat \<Rightarrow> 'd dev option \<Rightarrow> 'd dev option \<Rightarrow> 'd \<Rightarrow> (int \<times> 'd) option" where
  "trx_fixup H trxmagic dv block_dev d =
     (case dv of
        None \<Rightarrow> Some (- 1, d)
      | Some V \<Rightarrow>
          if v_size V = 0 then Some (- 1, d)
          else (case block_dev of
              None \<Rightarrow> Some (- 1, d)
            | Some B \<Rightarrow>
                (case v_pread B d 0 (v_size V) of
                   (_, m, d) \<Rightarrow> do {
                     hdr \<leftarrow> memget m 0 12;
                     if get_be32 hdr \<noteq> trxmagic then Some (- 1, d)
                     else do {
                       scan \<leftarrow> memget m 12 (sz H (int (cpu32 H (drop 4 hdr)) - 12));
                       Some (0, snd (v_pwrite B d 8 (put_cpu32 H (unat (crc32buf scan)))))
                     }
                   })))"

text \<open>
  The check of an image: \<open>rd\<close> is \<open>read\<close> of the image. \<open>len\<close> bytes of the buffer are read already.
\<close>

definition trx_check ::
  "host \<Rightarrow> nat \<Rightarrow> ('d \<Rightarrow> nat \<Rightarrow> int \<times> byte list \<times> 'd) \<Rightarrow> 'd dev option \<Rightarrow> string \<Rightarrow> byte list \<Rightarrow> int \<Rightarrow> 'd \<Rightarrow>
     (int outcome \<times> byte list \<times> int \<times> 'd) option" where
  "trx_check H trxmagic rd dv name buf len d =
     (if name \<noteq> ''firmware'' then Some (Done 1, buf, len, d)
      else do {
        (buf, len, d) \<leftarrow>
          (if len < 32 then
             (case rd d (nat (32 - len)) of
                (r, bs, d) \<Rightarrow> do { buf \<leftarrow> memput buf (nat len) bs; Some (buf, len + r, d) })
           else Some (buf, len, d));
        if len < 32 then Some (Done 0, buf, len, d)
        else do {
          hdr \<leftarrow> memget buf 0 8;
          if get_be32 hdr \<noteq> trxmagic \<or> cpu32 H (drop 4 hdr) < 28 then Some (Done 0, buf, len, d)
          else (case dv of
              None \<Rightarrow> Some (Exit, buf, len, d)
            | Some V \<Rightarrow>
                Some (Done (if v_size V < cpu32 H (drop 4 hdr) then 0 else 1), buf, len, d))
        }
      })"

end
