(* ===== verification/Mtd_Jffs2.thy ===== *)
theory Mtd_Jffs2
  imports Mtd_Fix
begin

text \<open>
  \<open>jffs2.c\<close> of the \<open>mtd\<close> tool: adding a file to the end of a JFFS2 file system, block by block through a buffer of the size
  of an erase block. An access outside the buffer is undefined.
\<close>

section \<open>State\<close>

text \<open>
  The static variables of the file, the position of \<open>outfd\<close> and the world. Inode and version numbers are \<open>int\<close> in the code and
  taken modulo 2^32 here, which is how they are compared and stored.
\<close>

record 'd jffs2 =
  j_last_ino :: nat
  j_last_version :: nat
  j_buf :: "byte list"
  j_ofs :: nat
  j_mtdofs :: nat
  j_target_ino :: nat
  j_pos :: nat
  j_dev :: 'd

text \<open>A file to be added: what \<open>stat\<close> gives, whether it can be opened, and \<open>read\<close>.\<close>

record file_stat =
  st_mode :: nat
  st_size :: nat
  st_atime :: nat
  st_mtime :: nat
  st_ctime :: nat

record 'd infile =
  i_name :: "byte list"
  i_stat :: "file_stat option"
  i_opens :: bool
  i_read :: "'d \<Rightarrow> nat \<Rightarrow> int \<times> byte list \<times> 'd"

definition get_cpu16 :: "host \<Rightarrow> byte list \<Rightarrow> nat" where
  "get_cpu16 H bs = (if h_big_endian H then get_be16 bs else le_nat (take 2 bs))"

definition put_cpu16 :: "host \<Rightarrow> nat \<Rightarrow> byte list" where
  "put_cpu16 H n = (if h_big_endian H then rev (le_bytes 2 n) else le_bytes 2 n)"

definition jffs2_crc :: "host \<Rightarrow> byte list \<Rightarrow> byte list" where
  "jffs2_crc H bs = put_cpu32 H (unat (crc32 0 bs))"

definition CLEANMARKER :: "host \<Rightarrow> byte list" where
  "CLEANMARKER H =
     (if h_big_endian H then [0x19, 0x85, 0x20, 0x03, 0x00, 0x00, 0x00, 0x0c, 0xf0, 0x60, 0xdc, 0x98]
      else [0x85, 0x19, 0x03, 0x20, 0x0c, 0x00, 0x00, 0x00, 0xb1, 0xb0, 0x1e, 0xe4])"

definition JFFS2_EOF :: "byte list" where
  "JFFS2_EOF = [0xde, 0xad, 0xc0, 0xde]"

section \<open>Writing blocks\<close>

partial_function (option) pad_skip :: "'d dev \<Rightarrow> 'd jffs2 \<Rightarrow> (unit outcome \<times> 'd jffs2) option" where
  "pad_skip V J =
     (case mtd_block_is_bad V (j_dev J) (j_mtdofs J) of
        (Exit, d) \<Rightarrow> Some (Exit, J\<lparr>j_dev := d\<rparr>)
      | (Done bad, d) \<Rightarrow>
          let J = J\<lparr>j_dev := d\<rparr>
          in if bad \<noteq> 0 \<and> j_mtdofs J < v_size V then
               pad_skip V (J\<lparr>j_mtdofs := j_mtdofs J + v_erasesize V, j_pos := j_pos J + v_erasesize V\<rparr>)
             else Some (Done (), J))"

definition pad_write :: "'d dev \<Rightarrow> 'd jffs2 \<Rightarrow> 'd jffs2" where
  "pad_write V J =
     (case mtd_erase_block V (j_dev J) (j_mtdofs J) of
        (_, d) \<Rightarrow> (case v_pwrite V d (j_pos J) (j_buf J) of
            (w, d) \<Rightarrow> J\<lparr>j_dev := d, j_pos := j_pos J + nat w, j_mtdofs := j_mtdofs J + v_erasesize V\<rparr>))"

definition pad :: "'d dev \<Rightarrow> nat \<Rightarrow> 'd jffs2 \<Rightarrow> (unit outcome \<times> 'd jffs2) option" where
  "pad V n J =
     (if j_ofs J mod n = 0 \<and> j_ofs J < v_erasesize V then Some (Done (), J)
      else do {
        J \<leftarrow> (if j_ofs J < v_erasesize V then do {
                buf \<leftarrow> memput (j_buf J) (j_ofs J) (replicate (n - j_ofs J mod n) 255);
                Some (J\<lparr>j_buf := buf, j_ofs := j_ofs J + (n - j_ofs J mod n)\<rparr>)
              } else Some J);
        let J = J\<lparr>j_ofs := j_ofs J mod v_erasesize V\<rparr>
        in if j_ofs J = 0 then do {
             r \<leftarrow> pad_skip V J;
             then_do r (\<lambda>_ J. Some (Done (), pad_write V J))
           }
           else Some (Done (), J)
      })"

definition rbytes :: "'d dev \<Rightarrow> 'd jffs2 \<Rightarrow> nat" where
  "rbytes V J = v_erasesize V - j_ofs J mod v_erasesize V"

text \<open>\<open>add_data\<close>, with \<open>prep_eraseblock\<close> in it, which calls it again.\<close>

partial_function (option) add_data :: "host \<Rightarrow> 'd dev \<Rightarrow> byte list \<Rightarrow> 'd jffs2 \<Rightarrow> (unit outcome \<times> 'd jffs2) option" where
  "add_data H V bs J = do {
     r \<leftarrow> (if j_ofs J + length bs > v_erasesize V then do {
             r \<leftarrow> pad V (v_erasesize V) J;
             then_do r (\<lambda>_ J. if j_ofs J > 0 then Some (Done (), J) else add_data H V (CLEANMARKER H) J)
           } else Some (Done (), J));
     then_do r (\<lambda>_ J. do {
       buf \<leftarrow> memput (j_buf J) (j_ofs J) bs;
       Some (Done (), J\<lparr>j_buf := buf, j_ofs := j_ofs J + length bs\<rparr>)
     })
   }"

definition prep_eraseblock :: "host \<Rightarrow> 'd dev \<Rightarrow> 'd jffs2 \<Rightarrow> (unit outcome \<times> 'd jffs2) option" where
  "prep_eraseblock H V J = (if j_ofs J > 0 then Some (Done (), J) else add_data H V (CLEANMARKER H) J)"

section \<open>Nodes\<close>

definition dirent_node :: "host \<Rightarrow> nat \<Rightarrow> nat \<Rightarrow> nat \<Rightarrow> nat \<Rightarrow> byte list \<Rightarrow> byte list" where
  "dirent_node H typ pino version ino name =
     (let node = put_cpu16 H 0x1985 @ put_cpu16 H 0xE001 @ put_cpu32 H (40 + length name);
          node = node @ jffs2_crc H node @ put_cpu32 H pino @ put_cpu32 H version @ put_cpu32 H ino @ put_cpu32 H 0
            @ [of_nat (length name), of_nat typ, 0, 0]
      in node @ jffs2_crc H node @ jffs2_crc H name)"

definition inode_node :: "host \<Rightarrow> nat \<Rightarrow> nat \<Rightarrow> nat \<Rightarrow> file_stat \<Rightarrow> nat \<Rightarrow> nat \<Rightarrow> nat \<Rightarrow> byte list" where
  "inode_node H len ino version st ofs csize data_crc =
     (let node = put_cpu16 H 0x1985 @ put_cpu16 H 0xE002 @ put_cpu32 H (68 + len);
          node = node @ jffs2_crc H node @ put_cpu32 H ino @ put_cpu32 H version @ put_cpu32 H (st_mode st)
            @ put_cpu16 H 0 @ put_cpu16 H 0 @ put_cpu32 H (st_size st) @ put_cpu32 H (st_atime st) @ put_cpu32 H (st_mtime st)
            @ put_cpu32 H (st_ctime st) @ put_cpu32 H ofs @ put_cpu32 H csize @ put_cpu32 H csize @ [0, 0] @ put_cpu16 H 0
      in node @ put_cpu32 H data_crc @ jffs2_crc H node)"

text \<open>
  The room for the node is computed in \<open>size_t\<close>, so that a new block is begun when the block is full only.
\<close>

definition add_dirent :: "host \<Rightarrow> 'd dev \<Rightarrow> byte list \<Rightarrow> nat \<Rightarrow> nat \<Rightarrow> 'd jffs2 \<Rightarrow> (nat outcome \<times> 'd jffs2) option" where
  "add_dirent H V name typ parent J = do {
     r \<leftarrow> (if sz H (int (j_ofs J) - int (v_erasesize V)) < 40 + length name then pad V (v_erasesize V) J else Some (Done (), J));
     then_do r (\<lambda>_ J. do {
       r \<leftarrow> prep_eraseblock H V J;
       then_do r (\<lambda>_ J.
         let ino = add32 (j_last_ino J) 1; version = j_last_version J;
             J = J\<lparr>j_last_ino := add32 ino 1, j_last_version := add32 version 1\<rparr>
         in do {
           buf \<leftarrow> memput (j_buf J) (j_ofs J) (dirent_node H typ parent version ino name @ name);
           r \<leftarrow> pad V 4 (J\<lparr>j_buf := buf, j_ofs := j_ofs J + 40 + length name mod 256\<rparr>);
           then_do r (\<lambda>_ J. Some (Done ino, J))
         })
     })
   }"

definition no_stat :: file_stat where
  "no_stat = \<lparr>st_mode = 0x41ED, st_size = 0, st_atime = 0, st_mtime = 0, st_ctime = 0\<rparr>"

definition add_dir :: "host \<Rightarrow> 'd dev \<Rightarrow> byte list \<Rightarrow> nat \<Rightarrow> 'd jffs2 \<Rightarrow> (nat outcome \<times> 'd jffs2) option" where
  "add_dir H V name parent J = do {
     r \<leftarrow> add_dirent H V name 4 parent J;
     then_do r (\<lambda>inode J. do {
       r \<leftarrow> (if rbytes V J < 68 then pad V (v_erasesize V) J else Some (Done (), J));
       then_do r (\<lambda>_ J. do {
         r \<leftarrow> prep_eraseblock H V J;
         then_do r (\<lambda>_ J. do {
           r \<leftarrow> add_data H V (inode_node H 0 inode 1 no_stat 0 0 0) J;
           then_do r (\<lambda>_ J. do {
             r \<leftarrow> pad V 4 J;
             then_do r (\<lambda>_ J. Some (Done inode, J))
           })
         })
       })
     })
   }"

section \<open>Files\<close>

text \<open>The name behind the last slash.\<close>

definition base_name :: "byte list \<Rightarrow> byte list" where
  "base_name name = rev (takeWhile (\<lambda>c. c \<noteq> 47) (rev name))"

partial_function (option) data_room :: "host \<Rightarrow> 'd dev \<Rightarrow> 'd jffs2 \<Rightarrow> (nat outcome \<times> 'd jffs2) option" where
  "data_room H V J =
     (let len = int (rbytes V J) - 68
      in if len > 128 then Some (Done (nat len), J)
         else do {
           r \<leftarrow> pad V (v_erasesize V) J;
           then_do r (\<lambda>_ J. do {
             r \<leftarrow> prep_eraseblock H V J;
             then_do r (\<lambda>_ J. data_room H V J)
           })
         })"

text \<open>One chunk of the file is a node of its own.\<close>

definition add_chunk :: "host \<Rightarrow> 'd dev \<Rightarrow> nat \<Rightarrow> file_stat \<Rightarrow> nat \<Rightarrow> byte list \<Rightarrow> 'd jffs2 \<Rightarrow> (unit outcome \<times> 'd jffs2) option" where
  "add_chunk H V inode st f_offset bs J =
     (let version = add32 (j_last_version J) 1; J = J\<lparr>j_last_version := version\<rparr>
      in do {
        r \<leftarrow> add_data H V (inode_node H (length bs) inode version st f_offset (length bs) (unat (crc32 0 bs))) J;
        then_do r (\<lambda>_ J. do {
          r \<leftarrow> add_data H V bs J;
          then_do r (\<lambda>_ J. do {
            r \<leftarrow> pad V 4 J;
            then_do r (\<lambda>_ J. prep_eraseblock H V J)
          })
        })
      })"

partial_function (option) add_file_loop ::
  "host \<Rightarrow> 'd dev \<Rightarrow> 'd infile \<Rightarrow> nat \<Rightarrow> file_stat \<Rightarrow> nat \<Rightarrow> 'd jffs2 \<Rightarrow> (unit outcome \<times> 'd jffs2) option" where
  "add_file_loop H V F inode st f_offset J = do {
     r \<leftarrow> data_room H V J;
     then_do r (\<lambda>len J.
       let len = min len 4096
       in (case i_read F (j_dev J) len of
           (n, bs, d) \<Rightarrow>
             let J = J\<lparr>j_dev := d\<rparr>
             in if n \<le> 0 then Some (Done (), J)
                else do {
                  r \<leftarrow> add_chunk H V inode st f_offset bs J;
                  then_do r (\<lambda>_ J. add_file_loop H V F inode st (f_offset + length bs) J)
                }))
   }"

definition add_file :: "host \<Rightarrow> 'd dev \<Rightarrow> 'd infile \<Rightarrow> nat \<Rightarrow> 'd jffs2 \<Rightarrow> (unit outcome \<times> 'd jffs2) option" where
  "add_file H V F parent J =
     (case i_stat F of
        None \<Rightarrow> Some (Done (), J)
      | Some st \<Rightarrow> do {
          r \<leftarrow> add_dirent H V (base_name (i_name F)) 8 parent J;
          then_do r (\<lambda>inode J. if i_opens F then add_file_loop H V F inode st 0 J else Some (Done (), J))
        })"

text \<open>The end: the rest of the block, and a block that begins with the marker.\<close>

definition add_eof :: "host \<Rightarrow> 'd dev \<Rightarrow> 'd jffs2 \<Rightarrow> (unit outcome \<times> 'd jffs2) option" where
  "add_eof H V J = do {
     r \<leftarrow> pad V (v_erasesize V) J;
     then_do r (\<lambda>_ J. do {
       r \<leftarrow> add_data H V JFFS2_EOF J;
       then_do r (\<lambda>_ J. pad V (v_erasesize V) J)
     })
   }"

text \<open>\<open>mtd_replace_jffs2\<close>: \<open>pos\<close> is the position of \<open>fd\<close>, \<open>fresh\<close> what \<open>malloc\<close> gives.\<close>

definition mtd_replace_jffs2 ::
  "host \<Rightarrow> 'd dev \<Rightarrow> 'd infile \<Rightarrow> byte list \<Rightarrow> nat \<Rightarrow> nat \<Rightarrow> 'd jffs2 \<Rightarrow> (int outcome \<times> 'd jffs2) option" where
  "mtd_replace_jffs2 H V F fresh pos ofs J =
     (let J = J\<lparr>j_pos := pos, j_mtdofs := ofs, j_buf := fresh, j_target_ino := 1,
                j_last_ino := (if j_last_ino J = 0 then 1 else j_last_ino J)\<rparr>
      in do {
        r \<leftarrow> add_file H V F (j_target_ino J) J;
        then_do r (\<lambda>_ J. do {
          r \<leftarrow> add_eof H V J;
          then_do r (\<lambda>_ J. Some (Done (int (j_mtdofs J) - int ofs), J))
        })
      })"

section \<open>Reading what is there\<close>

text \<open>\<open>!strncmp(a, b, n)\<close>\<close>

fun strncmp_eq :: "byte list \<Rightarrow> byte list \<Rightarrow> nat \<Rightarrow> bool option" where
  "strncmp_eq as bs 0 = Some True"
| "strncmp_eq (a # as) (b # bs) (Suc n) = (if a \<noteq> b then Some False else if a = 0 then Some True else strncmp_eq as bs n)"
| "strncmp_eq _ _ (Suc n) = None"

definition parse_dirent :: "host \<Rightarrow> byte list \<Rightarrow> byte list \<Rightarrow> nat \<Rightarrow> 'd jffs2 \<Rightarrow> 'd jffs2 option" where
  "parse_dirent H dir buf ofs J = do {
     de \<leftarrow> memget buf ofs 24;
     let pino = cpu32 H (drop 12 de);
     let version = cpu32 H (drop 16 de);
     let ino = cpu32 H (drop 20 de);
     match \<leftarrow> (if dir \<noteq> [] \<and> pino = 1 then do {
                nsize \<leftarrow> memget buf (ofs + 28) 1;
                strncmp_eq (drop (ofs + 40) buf) (dir @ [0]) (unat (nsize ! 0))
              } else Some False);
     let J = (if match then J\<lparr>j_target_ino := ino\<rparr> else J);
     let J = (if j_last_ino J < ino then J\<lparr>j_last_ino := ino\<rparr> else J);
     Some (if j_last_version J < version then J\<lparr>j_last_version := version\<rparr> else J)
   }"

partial_function (option) parse_nodes :: "host \<Rightarrow> nat \<Rightarrow> byte list \<Rightarrow> byte list \<Rightarrow> nat \<Rightarrow> 'd jffs2 \<Rightarrow> 'd jffs2 option" where
  "parse_nodes H es dir buf ofs J =
     (if ofs < es then do {
        magic \<leftarrow> memget buf ofs 2;
        if get_cpu16 H magic \<noteq> 0x1985 then Some J
        else do {
          node \<leftarrow> memget buf ofs 8;
          J \<leftarrow> (if get_cpu16 H (drop 2 node) = 0xE001 then parse_dirent H dir buf ofs J else Some J);
          parse_nodes H es dir buf (u32_of (int (ofs + ALIGN (cpu32 H (drop 4 node)) 4))) J
        }
      } else Some J)"

definition mtd_parse_jffs2data :: "host \<Rightarrow> nat \<Rightarrow> byte list \<Rightarrow> byte list \<Rightarrow> 'd jffs2 \<Rightarrow> 'd jffs2 option" where
  "mtd_parse_jffs2data H es buf dir J = parse_nodes H es dir buf 0 J"

partial_function (option) find_end :: "host \<Rightarrow> 'd dev \<Rightarrow> byte list \<Rightarrow> 'd jffs2 \<Rightarrow> (int \<times> 'd jffs2) option" where
  "find_end H V dir J =
     (case v_pread V (j_dev J) (j_pos J) (v_erasesize V) of
        (r, bs, d) \<Rightarrow>
          let J = J\<lparr>j_dev := d, j_pos := j_pos J + nat r, j_buf := overlay 0 bs (j_buf J)\<rparr>
          in if r \<noteq> int (v_erasesize V) then Some (- 1, J)
             else do {
               let J = J\<lparr>j_mtdofs := j_mtdofs J + v_erasesize V\<rparr>;
               magic \<leftarrow> memget (j_buf J) 0 2;
               if get_cpu16 H magic = 0x8519 then Some (- 1, J)
               else if get_cpu16 H magic \<noteq> 0x1985 then Some (0, J)
               else do {
                 J \<leftarrow> mtd_parse_jffs2data H (v_erasesize V) (j_buf J) dir J;
                 find_end H V dir J
               }
             })"

text \<open>\<open>mtd_write_jffs2\<close>: \<open>fixup\<close> is \<open>trx_fixup\<close> where it is linked.\<close>

definition mtd_write_jffs2 ::
  "host \<Rightarrow> ('d \<Rightarrow> (int \<times> 'd) option) option \<Rightarrow> 'd dev option \<Rightarrow> 'd infile \<Rightarrow> byte list \<Rightarrow> byte list \<Rightarrow> 'd jffs2 \<Rightarrow>
     (int outcome \<times> 'd jffs2) option" where
  "mtd_write_jffs2 H fixup dv F fresh dir J =
     (case dv of
        None \<Rightarrow> Some (Done (- 1), J)
      | Some V \<Rightarrow>
          if \<not> h_alloc H 0 then Some (Done (- 1), J)
          else do {
            (r, J) \<leftarrow> find_end H V dir (J\<lparr>j_pos := 0, j_buf := fresh, j_target_ino := (if dir = [] then 1 else j_target_ino J)\<rparr>);
            if r < 0 then Some (Done (- 1), J)
            else
              let J = J\<lparr>j_mtdofs := j_mtdofs J - v_erasesize V, j_pos := j_mtdofs J - v_erasesize V, j_ofs := 0,
                        j_last_ino := (if j_last_ino J = 0 then 1 else j_last_ino J)\<rparr>
              in do {
                r \<leftarrow> (if j_target_ino J = 0 then do {
                        r \<leftarrow> add_dir H V dir 1 J;
                        then_do r (\<lambda>ino J. Some (Done (), J\<lparr>j_target_ino := ino\<rparr>))
                      } else Some (Done (), J));
                then_do r (\<lambda>_ J. do {
                  r \<leftarrow> add_file H V F (j_target_ino J) J;
                  then_do r (\<lambda>_ J. do {
                    r \<leftarrow> add_eof H V J;
                    then_do r (\<lambda>_ J.
                      case fixup of
                        None \<Rightarrow> Some (Done 0, J)
                      | Some f \<Rightarrow> do { (_, d) \<leftarrow> f (j_dev J); Some (Done 0, J\<lparr>j_dev := d\<rparr>) })
                  })
                })
              }
          })"

end
