(* ===== verification/Mtd_Headers.thy ===== *)
theory Mtd_Headers
  imports Mtd_Fix
begin

text \<open>
  What the functions that fix a header have in common: the interface of a header with an image size and a digest, its three
  formats, and what \<open>mtd_fix\<close> does to a device that holds what is written to it.
\<close>

section \<open>Fields\<close>

lemma length_set_field [simp]: "off + length bs \<le> length hdr \<Longrightarrow> length (set_field off bs hdr) = length hdr"
  by (simp add: set_field_def)

lemma nth_set_field:
  assumes "off + length bs \<le> length hdr" "i < length hdr"
  shows "set_field off bs hdr ! i = (if off \<le> i \<and> i < off + length bs then bs ! (i - off) else hdr ! i)"
  using assms by (auto simp: set_field_def nth_append)

lemma field_of_set_field: "off + length bs \<le> length hdr \<Longrightarrow> take (length bs) (drop off (set_field off bs hdr)) = bs"
  by (simp add: set_field_def)

lemma slice_eq_map: "slice m a n = map m [a..<a + n]"
  by (simp add: slice_def)

lemma nth_slice [simp]: "i < n \<Longrightarrow> slice m a n ! i = m (a + i)"
  by (simp add: slice_eq_map)

lemma patch_slice: "patch a (slice m a n) m = m"
  by (auto simp: patch_def slice_eq_map fun_eq_iff)

section \<open>The interface\<close>

text \<open>The bytes of a header that a fix may change.\<close>

definition in_fields :: "fixfmt \<Rightarrow> nat \<Rightarrow> bool" where
  "in_fields X i \<longleftrightarrow> (fx_size_at X \<le> i \<and> i < fx_size_at X + 4) \<or> (fx_digest_at X \<le> i \<and> i < fx_digest_at X + 16)"

definition image_start :: "fixfmt \<Rightarrow> byte list \<Rightarrow> nat" where
  "image_start X hdr = fx_sizeof X + fx_skip X hdr"

definition image_size :: "fixfmt \<Rightarrow> 'd dev \<Rightarrow> nat \<Rightarrow> byte list \<Rightarrow> nat" where
  "image_size X V data_size hdr =
     min (if data_size = 0 then v_size V - image_start X hdr else data_size) (fx_get_size X hdr)"

text \<open>The header at the start of the contents \<open>m\<close> has the digest of the \<open>n\<close> bytes of its image.\<close>

definition digest_right :: "fixfmt \<Rightarrow> (nat \<Rightarrow> byte) \<Rightarrow> nat \<Rightarrow> bool" where
  "digest_right X m n \<longleftrightarrow>
     (let hdr = slice m 0 (fx_sizeof X)
      in take 16 (drop (fx_digest_at X) hdr) = md5_spec (concat (fx_inputs X hdr) @ slice m (image_start X hdr) n))"

locale header_format =
  fixes X :: fixfmt
  assumes apart: "fx_size_at X + 4 \<le> fx_digest_at X" and inside: "fx_digest_at X + 16 \<le> fx_sizeof X"
    and put_length: "length (fx_put_size X n) = 4"
    and get_put: "\<lbrakk>length h = fx_sizeof X; n < 4294967296\<rbrakk> \<Longrightarrow> fx_get_size X (set_field (fx_size_at X) (fx_put_size X n) h) = n"
    and get_local: "\<lbrakk>length h = fx_sizeof X; length h' = fx_sizeof X;
          \<And>i. fx_size_at X \<le> i \<Longrightarrow> i < fx_size_at X + 4 \<Longrightarrow> h ! i = h' ! i\<rbrakk> \<Longrightarrow> fx_get_size X h = fx_get_size X h'"
    and others: "\<lbrakk>length h = fx_sizeof X; length h' = fx_sizeof X; \<And>i. i < fx_sizeof X \<Longrightarrow> \<not> in_fields X i \<Longrightarrow> h ! i = h' ! i\<rbrakk>
          \<Longrightarrow> fx_magic X h = fx_magic X h' \<and> fx_skip X h = fx_skip X h' \<and> fx_inputs X h = fx_inputs X h'"
    and inputs_short: "\<forall>cs \<in> set (fx_inputs X h). length cs \<le> 32"
    and get_bound: "fx_get_size X h < 4294967296"
begin

lemma new_header_length: "length h = fx_sizeof X \<Longrightarrow> length dg = 16 \<Longrightarrow> length (new_header X h n dg) = fx_sizeof X"
  using apart inside put_length by (simp add: new_header_def)

lemma new_header_nth:
  assumes "length h = fx_sizeof X" "length dg = 16" "i < fx_sizeof X" "\<not> in_fields X i"
  shows "new_header X h n dg ! i = h ! i"
  using assms apart inside put_length by (auto simp: new_header_def nth_set_field in_fields_def)

lemma new_header_others:
  assumes "length h = fx_sizeof X" "length dg = 16"
  shows "fx_magic X (new_header X h n dg) = fx_magic X h" "fx_skip X (new_header X h n dg) = fx_skip X h"
    "fx_inputs X (new_header X h n dg) = fx_inputs X h"
  using others [of "new_header X h n dg" h] new_header_length new_header_nth assms by auto

lemma new_header_digest:
  assumes "length h = fx_sizeof X" "length dg = 16"
  shows "take 16 (drop (fx_digest_at X) (new_header X h n dg)) = dg"
  using assms apart inside put_length field_of_set_field [of "fx_digest_at X" dg] by (simp add: new_header_def)

lemma new_header_size:
  assumes "length h = fx_sizeof X" "length dg = 16" "n < 4294967296"
  shows "fx_get_size X (new_header X h n dg) = n"
proof -
  have "fx_get_size X (new_header X h n dg) = fx_get_size X (set_field (fx_size_at X) (fx_put_size X n) h)"
    using assms apart inside put_length
    by (intro get_local) (simp_all add: new_header_def nth_set_field)
  then show ?thesis using get_put assms by simp
qed

end

section \<open>A device that is fixed\<close>

definition fixable :: "host \<Rightarrow> md5_ctx \<Rightarrow> fixfmt \<Rightarrow> 'd dev \<Rightarrow> bool" where
  "fixable H C X V \<longleftrightarrow> fx_sizeof X \<le> v_erasesize V \<and> v_erasesize V \<le> v_size V \<and> v_size V < 2147483648
     \<and> 4294967296 \<le> h_size_t H \<and> h_alloc H 0 \<and> h_alloc H 1 \<and> length (md_in C) = 64"

lemma block_of_zero [simp]: "block_of es 0 = 0"
  by (simp add: block_of_def)

lemma memget_block: "n \<le> k \<Longrightarrow> memget (slice m a k) 0 n = Some (slice m a n)"
  by (simp add: memget_def slice_def take_map)

context header_format
begin

lemma image_digest_spec:
  assumes "length (md_in C) = 64" "n < 4294967296"
  shows "image_digest C X hdr n (slice m a n) = md5_spec (concat (fx_inputs X hdr) @ slice m a n)"
proof -
  have "\<forall>cs \<in> set (fx_inputs X hdr @ [slice m a n]). length cs < 2 ^ 32" using assms inputs_short [of hdr] by fastforce
  then show ?thesis using md5_digest_spec [OF assms(1)] assms(2) by (simp add: image_digest_def)
qed

lemma fix_no_header:
  assumes h: "dev_holds V mem bad" and f: "fixable H C X V"
    and n: "\<not> fx_magic X (slice (mem d) 0 (fx_sizeof X)) \<or> fx_get_size X (slice (mem d) 0 (fx_sizeof X)) = 0"
  shows "\<exists>d'. mtd_fix H C X es0 (Some V) 0 data_size d = Some (Exit, d') \<and> mem d' = mem d"
proof -
  have f': "fx_sizeof X \<le> v_erasesize V" "v_erasesize V \<le> v_size V" "v_size V < h_size_t H" "h_alloc H 0"
    using f by (auto simp: fixable_def)
  obtain d1 where "v_pread V d 0 (v_erasesize V) = (int (v_erasesize V), slice (mem d) 0 (v_erasesize V), d1)" "mem d1 = mem d"
    using holds_pread [OF h] f'(2) by (metis add_0)
  then show ?thesis using n f' by (auto simp: mtd_fix_def Let_def memget_block)
qed

lemma fix_steps:
  assumes h: "dev_holds V mem bad" and f: "fixable H C X V"
    and hdr: "hdr = slice (mem d) 0 (fx_sizeof X)" and ok: "fx_magic X hdr" "fx_get_size X hdr \<noteq> 0"
    and n: "n = image_size X V data_size hdr" "image_start X hdr + n \<le> v_size V"
  obtains d1 where "mem d1 = mem d"
    "mtd_fix H C X es0 (Some V) 0 data_size d =
       (let dg = md5_spec (concat (fx_inputs X hdr) @ slice (mem d) (image_start X hdr) n)
        in if dg = take 16 (drop (fx_digest_at X) hdr) then Some (Done 0, d1)
           else Some (rewrite_block V 0 (set_field 0 (new_header X hdr n dg) (slice (mem d) 0 (v_erasesize V))) d1))"
proof -
  have f': "fx_sizeof X \<le> v_erasesize V" "v_erasesize V \<le> v_size V" "v_size V < h_size_t H" "h_alloc H 0" "h_alloc H 1"
    "v_size V < 4294967296" "length (md_in C) = 64"
    using f by (auto simp: fixable_def)
  obtain d1 where r1: "v_pread V d 0 (v_erasesize V) = (int (v_erasesize V), slice (mem d) 0 (v_erasesize V), d1)" "mem d1 = mem d"
    using holds_pread [OF h] f'(2) by (metis add_0)
  obtain d2 where r2: "v_pread V d1 (image_start X hdr) n = (int n, slice (mem d1) (image_start X hdr) n, d2)" "mem d2 = mem d1"
    using holds_pread [OF h n(2)] by metis
  have start: "sz H (int (fx_sizeof X) + int (fx_skip X hdr)) = image_start X hdr"
    using sz_small [of "image_start X hdr" H] n(2) f'(3) by (simp add: image_start_def)
  have "sz H (int (v_size V) - int (image_start X hdr)) = v_size V - image_start X hdr"
    using sz_small [of "v_size V - image_start X hdr" H] n(2) f'(3) by (simp add: of_nat_diff)
  then have size: "(if fx_get_size X hdr < (if data_size = 0 then sz H (int (v_size V) - int (image_start X hdr)) else data_size)
      then fx_get_size X hdr else (if data_size = 0 then sz H (int (v_size V) - int (image_start X hdr)) else data_size)) = n"
    unfolding n(1) image_size_def by (auto simp: min_def)
  have "image_digest C X hdr n (slice (mem d1) (image_start X hdr) n)
      = md5_spec (concat (fx_inputs X hdr) @ slice (mem d) (image_start X hdr) n)"
    using image_digest_spec [OF f'(7), of n] n(2) f'(6) r1(2) by simp
  then have "mtd_fix H C X es0 (Some V) 0 data_size d =
       (let dg = md5_spec (concat (fx_inputs X hdr) @ slice (mem d) (image_start X hdr) n)
        in if dg = take 16 (drop (fx_digest_at X) hdr) then Some (Done 0, d2)
           else Some (rewrite_block V 0 (set_field 0 (new_header X hdr n dg) (slice (mem d) 0 (v_erasesize V))) d2))"
    using f' r1 r2 ok start size
    by (simp add: mtd_fix_def fix_md5_def Let_def memget_block hdr [symmetric])
  then show ?thesis using that r1 r2 by metis
qed

text \<open>Afterwards the header describes its image, and nothing but its fields has changed.\<close>

lemma fix_sound:
  assumes h: "dev_holds V mem bad" and f: "fixable H C X V"
    and hdr: "hdr = slice (mem d) 0 (fx_sizeof X)" and ok: "fx_magic X hdr" "fx_get_size X hdr \<noteq> 0"
    and n: "n = image_size X V data_size hdr" "image_start X hdr + n \<le> v_size V"
  obtains d' where "mtd_fix H C X es0 (Some V) 0 data_size d = Some (Done 0, d')"
    "digest_right X (mem d') n" "image_size X V data_size (slice (mem d') 0 (fx_sizeof X)) = n"
    "\<And>a. \<not> in_fields X a \<Longrightarrow> mem d' a = mem d a"
    "if digest_right X (mem d) n then mem d' = mem d else fx_get_size X (slice (mem d') 0 (fx_sizeof X)) = n"
proof -
  let ?E = "v_erasesize V" and ?S = "fx_sizeof X"
  define dg where "dg = md5_spec (concat (fx_inputs X hdr) @ slice (mem d) (image_start X hdr) n)"
  define nh where "nh = new_header X hdr n dg"
  have f': "?S \<le> ?E" "?E \<le> v_size V" "v_size V < 4294967296" using f by (auto simp: fixable_def)
  obtain d1 where d1: "mem d1 = mem d" and "mtd_fix H C X es0 (Some V) 0 data_size d =
       (let dg = md5_spec (concat (fx_inputs X hdr) @ slice (mem d) (image_start X hdr) n)
        in if dg = take 16 (drop (fx_digest_at X) hdr) then Some (Done 0, d1)
           else Some (rewrite_block V 0 (set_field 0 (new_header X hdr n dg) (slice (mem d) 0 (v_erasesize V))) d1))"
    by (rule fix_steps [OF h f hdr ok n])
  then have eq: "mtd_fix H C X es0 (Some V) 0 data_size d =
      (if dg = take 16 (drop (fx_digest_at X) hdr) then Some (Done 0, d1)
       else Some (rewrite_block V 0 (set_field 0 nh (slice (mem d) 0 ?E)) d1))"
    by (simp only: Let_def dg_def nh_def)
  have right: "digest_right X (mem d) n \<longleftrightarrow> dg = take 16 (drop (fx_digest_at X) hdr)"
    unfolding digest_right_def Let_def hdr [symmetric] dg_def by auto
  show ?thesis
  proof (cases "digest_right X (mem d) n")
    case True
    then show ?thesis using that [of d1] eq right d1 n(1) hdr by simp
  next
    case False
    have lh: "length hdr = ?S" using hdr by simp
    have ld: "length dg = 16" unfolding dg_def md5_pad_blocks by simp
    have ln: "length nh = ?S" unfolding nh_def by (rule new_header_length [OF lh ld])
    have lb: "length (set_field 0 nh (slice (mem d) 0 ?E)) = ?E" using ln f'(1) by simp
    obtain e2 where e: "rewrite_block V 0 (set_field 0 nh (slice (mem d) 0 ?E)) d1 = (Done 0, e2)"
      "mem e2 = patch 0 (set_field 0 nh (slice (mem d) 0 ?E)) (mem d1)"
      using holds_rewrite_block [OF h _ lb, of 0 d1] f'(2) by auto
    have at: "mem e2 i = (if i < ?S then nh ! i else mem d i)" for i
      unfolding e(2) d1 using ln f'(1) by (auto simp: patch_def nth_set_field)
    have hdr': "slice (mem e2) 0 ?S = nh" by (rule nth_equalityI) (use at ln in auto)
    have keep: "mem e2 a = mem d a" if "\<not> in_fields X a" for a
      using at [of a] new_header_nth [OF lh ld, of a n] that hdr by (cases "a < ?S") (auto simp: nh_def)
    have same: "fx_skip X nh = fx_skip X hdr" "fx_inputs X nh = fx_inputs X hdr"
      using new_header_others [OF lh ld] by (simp_all add: nh_def)
    have img: "slice (mem e2) (image_start X hdr) n = slice (mem d) (image_start X hdr) n"
      by (rule slice_cong) (simp add: at image_start_def)
    have size: "fx_get_size X nh = n"
      using new_header_size [OF lh ld, of n] n(2) f'(3) by (simp add: nh_def)
    have "digest_right X (mem e2) n"
      unfolding digest_right_def Let_def hdr' using new_header_digest [OF lh ld] same img
      by (simp add: nh_def dg_def image_start_def)
    moreover have "image_size X V data_size nh = n"
      using size n(1) same by (simp add: image_size_def image_start_def)
    ultimately show ?thesis using that [of e2] eq False right e keep size hdr' by simp
  qed
qed

lemma fix_result:
  assumes "dev_holds V mem bad" "fixable H C X V"
    "fx_magic X (slice (mem d) 0 (fx_sizeof X))" "fx_get_size X (slice (mem d) 0 (fx_sizeof X)) \<noteq> 0"
    "n = image_size X V data_size (slice (mem d) 0 (fx_sizeof X))" "image_start X (slice (mem d) 0 (fx_sizeof X)) + n \<le> v_size V"
  shows "\<exists>d'. mtd_fix H C X es0 (Some V) 0 data_size d = Some (Done 0, d') \<and> digest_right X (mem d') n
    \<and> (\<forall>a. \<not> in_fields X a \<longrightarrow> mem d' a = mem d a)
    \<and> image_size X V data_size (slice (mem d') 0 (fx_sizeof X)) = n
    \<and> (if digest_right X (mem d) n then mem d' = mem d else fx_get_size X (slice (mem d') 0 (fx_sizeof X)) = n)"
  by (rule fix_sound [OF assms(1,2) refl assms(3-6)]) blast

end

text \<open>The formats.\<close>

lemma nth_take_drop_eq:
  "\<lbrakk>length h = length h'; \<And>i. a \<le> i \<Longrightarrow> i < a + n \<Longrightarrow> i < length h \<Longrightarrow> h ! i = h' ! i\<rbrakk> \<Longrightarrow> take n (drop a h) = take n (drop a h')"
  by (rule nth_equalityI) auto

lemma get_put_words:
  "n < 4294967296 \<Longrightarrow> get_be32 (put_be32 n @ bs) = n"
  "n < 4294967296 \<Longrightarrow> get_le32 (put_le32 n @ bs) = n"
  "n < 4294967296 \<Longrightarrow> cpu32 H (put_cpu32 H n @ bs) = n"
  by (simp_all add: get_be32_def put_be32_def get_le32_def put_le32_def cpu32_def put_cpu32_def le_nat_le_bytes)

lemma length_put_words [simp]: "length (put_be32 n) = 4" "length (put_le32 n) = 4" "length (put_cpu32 H n) = 4"
  by (simp_all add: put_be32_def put_le32_def put_cpu32_def)

lemma get_words_bound: "get_be32 h < 4294967296" "get_le32 h < 4294967296" "cpu32 H h < 4294967296"
proof -
  have "le_nat bs < 4294967296" if "length bs \<le> 4" for bs
  proof -
    have "le_nat bs < 256 ^ length bs" by (rule le_nat_bound)
    also have "\<dots> \<le> 256 ^ 4" using that by (intro power_increasing) simp_all
    finally show ?thesis by simp
  qed
  then show "get_be32 h < 4294967296" "get_le32 h < 4294967296" by (simp_all add: get_be32_def get_le32_def)
  then show "cpu32 H h < 4294967296" for H by (simp add: cpu32_def)
qed

lemma get_words_cong:
  assumes "take 4 h = take 4 h'"
  shows "get_be32 h = get_be32 h'" "get_le32 h = get_le32 h'" "cpu32 H h = cpu32 H h'"
  using assms by (simp_all add: get_be32_def get_le32_def cpu32_def)

lemma drop_set_field: "off + length bs \<le> length h \<Longrightarrow> drop off (set_field off bs h) = bs @ drop (off + length bs) h"
  by (simp add: set_field_def)

lemma other_field:
  assumes "length h = fx_sizeof X" "length h' = fx_sizeof X" "\<And>i. i < fx_sizeof X \<Longrightarrow> \<not> in_fields X i \<Longrightarrow> h ! i = h' ! i"
    and "\<And>i. a \<le> i \<Longrightarrow> i < a + n \<Longrightarrow> \<not> in_fields X i"
  shows "take n (drop a h) = take n (drop a h')"
  by (rule nth_take_drop_eq) (use assms in auto)

interpretation seama_header: header_format seama_fmt
proof
  fix h h' :: "byte list"
  assume l: "length h = fx_sizeof seama_fmt" "length h' = fx_sizeof seama_fmt"
  show "fx_magic seama_fmt h = fx_magic seama_fmt h' \<and> fx_skip seama_fmt h = fx_skip seama_fmt h' \<and> fx_inputs seama_fmt h = fx_inputs seama_fmt h'"
    if e: "\<And>i. i < fx_sizeof seama_fmt \<Longrightarrow> \<not> in_fields seama_fmt i \<Longrightarrow> h ! i = h' ! i"
  proof -
    have "take 4 (drop 0 h) = take 4 (drop 0 h')" by (rule other_field [OF l e]) (auto simp: in_fields_def seama_fmt_def)
    moreover
    have "take 2 (drop 6 h) = take 2 (drop 6 h')" by (rule other_field [OF l e]) (auto simp: in_fields_def seama_fmt_def)
    ultimately show ?thesis by (simp add: seama_fmt_def get_be32_def get_le32_def get_be16_def)
  qed
  show "fx_get_size seama_fmt h = fx_get_size seama_fmt h'"
    if e: "\<And>i. fx_size_at seama_fmt \<le> i \<Longrightarrow> i < fx_size_at seama_fmt + 4 \<Longrightarrow> h ! i = h' ! i"
  proof -
    have "take 4 (drop 8 h) = take 4 (drop 8 h')" by (rule nth_take_drop_eq) (use l e in \<open>auto simp: seama_fmt_def\<close>)
    then show ?thesis by (simp add: seama_fmt_def get_be32_def get_le32_def cpu32_def)
  qed
qed (simp_all add: seama_fmt_def drop_set_field get_put_words get_words_bound)

interpretation wrg_header: header_format wrg_fmt
proof
  fix h h' :: "byte list"
  assume l: "length h = fx_sizeof wrg_fmt" "length h' = fx_sizeof wrg_fmt"
  show "fx_magic wrg_fmt h = fx_magic wrg_fmt h' \<and> fx_skip wrg_fmt h = fx_skip wrg_fmt h' \<and> fx_inputs wrg_fmt h = fx_inputs wrg_fmt h'"
    if e: "\<And>i. i < fx_sizeof wrg_fmt \<Longrightarrow> \<not> in_fields wrg_fmt i \<Longrightarrow> h ! i = h' ! i"
  proof -
    have "take 4 (drop 32 h) = take 4 (drop 32 h')" by (rule other_field [OF l e]) (auto simp: in_fields_def wrg_fmt_def)
    moreover
    have "take 4 (drop 44 h) = take 4 (drop 44 h')" by (rule other_field [OF l e]) (auto simp: in_fields_def wrg_fmt_def)
    moreover
    have "take 32 (drop 48 h) = take 32 (drop 48 h')" by (rule other_field [OF l e]) (auto simp: in_fields_def wrg_fmt_def)
    ultimately show ?thesis by (simp add: wrg_fmt_def get_be32_def get_le32_def get_be16_def)
  qed
  show "fx_get_size wrg_fmt h = fx_get_size wrg_fmt h'"
    if e: "\<And>i. fx_size_at wrg_fmt \<le> i \<Longrightarrow> i < fx_size_at wrg_fmt + 4 \<Longrightarrow> h ! i = h' ! i"
  proof -
    have "take 4 (drop 40 h) = take 4 (drop 40 h')" by (rule nth_take_drop_eq) (use l e in \<open>auto simp: wrg_fmt_def\<close>)
    then show ?thesis by (simp add: wrg_fmt_def get_be32_def get_le32_def cpu32_def)
  qed
qed (simp_all add: wrg_fmt_def drop_set_field get_put_words get_words_bound)

interpretation wrgg_header: header_format "wrgg_fmt H" for H
proof
  fix h h' :: "byte list"
  assume l: "length h = fx_sizeof (wrgg_fmt H)" "length h' = fx_sizeof (wrgg_fmt H)"
  show "fx_magic (wrgg_fmt H) h = fx_magic (wrgg_fmt H) h' \<and> fx_skip (wrgg_fmt H) h = fx_skip (wrgg_fmt H) h' \<and> fx_inputs (wrgg_fmt H) h = fx_inputs (wrgg_fmt H) h'"
    if e: "\<And>i. i < fx_sizeof (wrgg_fmt H) \<Longrightarrow> \<not> in_fields (wrgg_fmt H) i \<Longrightarrow> h ! i = h' ! i"
  proof -
    have "take 4 (drop 32 h) = take 4 (drop 32 h')" by (rule other_field [OF l e]) (auto simp: in_fields_def wrgg_fmt_def)
    moreover
    have "take 4 (drop 108 h) = take 4 (drop 108 h')" by (rule other_field [OF l e]) (auto simp: in_fields_def wrgg_fmt_def)
    moreover
    have "take 32 (drop 112 h) = take 32 (drop 112 h')" by (rule other_field [OF l e]) (auto simp: in_fields_def wrgg_fmt_def)
    ultimately show ?thesis by (simp add: wrgg_fmt_def get_be32_def get_le32_def get_be16_def)
  qed
  show "fx_get_size (wrgg_fmt H) h = fx_get_size (wrgg_fmt H) h'"
    if e: "\<And>i. fx_size_at (wrgg_fmt H) \<le> i \<Longrightarrow> i < fx_size_at (wrgg_fmt H) + 4 \<Longrightarrow> h ! i = h' ! i"
  proof -
    have "take 4 (drop 104 h) = take 4 (drop 104 h')" by (rule nth_take_drop_eq) (use l e in \<open>auto simp: wrgg_fmt_def\<close>)
    then show ?thesis by (simp add: wrgg_fmt_def get_be32_def get_le32_def cpu32_def)
  qed
qed (simp_all add: wrgg_fmt_def drop_set_field get_put_words get_words_bound)

end
