(* ===== verification/Mtd_Log.thy ===== *)
theory Mtd_Log
  imports Mtd_Headers
begin

text \<open>
  The boot counter of Linksys routers, \<open>linksys_bootcount.c\<close>, and the recovery flag of TP-Link routers,
  \<open>tpl_ramips_recoveryflag.c\<close>.
\<close>

section \<open>The boot counter\<close>

definition BOOTCOUNT_MAGIC :: nat where
  "BOOTCOUNT_MAGIC = 0x20110811"

definition bc_increment :: "nat \<Rightarrow> nat" where
  "bc_increment writesize = (if writesize < 16 then 16 else writesize)"

text \<open>The result is an error, or the index behind the last record and the count of that record.\<close>

fun bc_scan :: "host \<Rightarrow> 'd dev \<Rightarrow> nat \<Rightarrow> nat \<Rightarrow> nat \<Rightarrow> nat \<Rightarrow> 'd \<Rightarrow> (int + nat \<times> nat) \<times> 'd" where
  "bc_scan H V inc 0 i last_count d = (Inr (i, last_count), d)"
| "bc_scan H V inc (Suc n) i last_count d =
     (case v_pread V d (i * inc) 12 of
        (ret, rec, d) \<Rightarrow>
          if ret \<noteq> 12 then (Inl (- 5), d)
          else if cpu32 H rec = 0xffffffff then (Inr (i, last_count), d)
          else if cpu32 H rec \<noteq> BOOTCOUNT_MAGIC
                \<or> cpu32 H (drop 8 rec) \<noteq> add32 (cpu32 H rec) (cpu32 H (drop 4 rec)) then (Inl (- 2), d)
          else bc_scan H V inc n (i + 1) (cpu32 H (drop 4 rec)) d)"

definition bc_record :: "host \<Rightarrow> nat \<Rightarrow> byte list" where
  "bc_record H inc =
     put_cpu32 H BOOTCOUNT_MAGIC @ put_cpu32 H 0 @ put_cpu32 H BOOTCOUNT_MAGIC @ replicate (inc - 12) 255"

definition bc_write :: "host \<Rightarrow> 'd dev \<Rightarrow> nat \<Rightarrow> nat \<Rightarrow> 'd \<Rightarrow> int \<times> 'd" where
  "bc_write H V inc i d = (case v_pwrite V d (i * inc) (bc_record H inc) of (ret, d) \<Rightarrow> (if ret < 0 then - 4 else 0, d))"

text \<open>\<open>writesize\<close> is the size of a page that \<open>MEMGETINFO\<close> gives.\<close>

definition mtd_resetbc :: "host \<Rightarrow> nat \<Rightarrow> 'd dev option \<Rightarrow> 'd \<Rightarrow> int \<times> 'd" where
  "mtd_resetbc H writesize dv d =
     (case dv of
        None \<Rightarrow> (- 1, d)
      | Some V \<Rightarrow>
          let inc = bc_increment writesize; num_bc = v_size V div inc
          in if \<not> h_alloc H 0 then (- 6, d)
             else (case bc_scan H V inc num_bc 0 0 d of
                 (Inl e, d) \<Rightarrow> (e, d)
               | (Inr (i, last_count), d) \<Rightarrow>
                   if last_count = 0 then (0, d)
                   else if i = num_bc then
                     (case v_erase V d 0 (v_size V) of (ret, d) \<Rightarrow> if ret < 0 then (- 3, d) else bc_write H V inc 0 d)
                   else bc_write H V inc i d))"

section \<open>The recovery flag\<close>

definition TPL_RECOVER_MAGIC :: nat where
  "TPL_RECOVER_MAGIC = 0x89abcdef"

text \<open>
  \<open>args\<close> is what \<open>malloc\<close> gives for the \<open>erasesize\<close> of the device opened before; the block is read and written with the
  \<open>erasesize\<close> of this device. The result of the read is not checked.
\<close>

definition mtd_tpl_recoverflag_write ::
  "host \<Rightarrow> byte list option \<Rightarrow> 'd dev option \<Rightarrow> bool \<Rightarrow> 'd \<Rightarrow> (int \<times> 'd) option" where
  "mtd_tpl_recoverflag_write H args dv recovery_active d =
     (case args of
        None \<Rightarrow> Some (- 1, d)
      | Some args \<Rightarrow>
          (case dv of
             None \<Rightarrow> Some (- 1, d)
           | Some V \<Rightarrow>
               (case v_pread V d 0 (v_erasesize V) of
                  (_, bs, d) \<Rightarrow> do {
                    args \<leftarrow> memput args 0 bs;
                    magic \<leftarrow> memget args 0 4;
                    let want = (if recovery_active then TPL_RECOVER_MAGIC else 0);
                    if want = cpu32 H magic then Some (0, d)
                    else (case v_erase V d 0 (v_erasesize V) of
                        (ret, d) \<Rightarrow>
                          if ret < 0 then Some (ret, d)
                          else do {
                            args \<leftarrow> memput args 0 (put_cpu32 H want);
                            args \<leftarrow> memget args 0 (v_erasesize V);
                            Some (v_pwrite V d 0 args)
                          })
                  })))"

section \<open>The log over a device that holds what is written to it\<close>

text \<open>A record at \<open>i\<close> of the contents \<open>m\<close>, and the log: \<open>n\<close> records before the first free place.\<close>

definition bc_free :: "host \<Rightarrow> (nat \<Rightarrow> byte) \<Rightarrow> nat \<Rightarrow> nat \<Rightarrow> bool" where
  "bc_free H m inc i \<longleftrightarrow> cpu32 H (slice m (i * inc) 12) = 0xffffffff"

definition bc_count :: "host \<Rightarrow> (nat \<Rightarrow> byte) \<Rightarrow> nat \<Rightarrow> nat \<Rightarrow> nat" where
  "bc_count H m inc i = cpu32 H (drop 4 (slice m (i * inc) 12))"

definition bc_valid :: "host \<Rightarrow> (nat \<Rightarrow> byte) \<Rightarrow> nat \<Rightarrow> nat \<Rightarrow> bool" where
  "bc_valid H m inc i \<longleftrightarrow> cpu32 H (slice m (i * inc) 12) = BOOTCOUNT_MAGIC
     \<and> cpu32 H (drop 8 (slice m (i * inc) 12)) = add32 BOOTCOUNT_MAGIC (bc_count H m inc i)"

definition bc_log :: "host \<Rightarrow> (nat \<Rightarrow> byte) \<Rightarrow> nat \<Rightarrow> nat \<Rightarrow> nat \<Rightarrow> bool" where
  "bc_log H m inc num n \<longleftrightarrow> n \<le> num \<and> (\<forall>i < n. bc_valid H m inc i) \<and> (\<forall>i. n \<le> i \<and> i < num \<longrightarrow> bc_free H m inc i)"

text \<open>The count that the log stands for.\<close>

definition bc_value :: "host \<Rightarrow> (nat \<Rightarrow> byte) \<Rightarrow> nat \<Rightarrow> nat \<Rightarrow> nat" where
  "bc_value H m inc n = (if n = 0 then 0 else bc_count H m inc (n - 1))"

lemma bc_magics: "BOOTCOUNT_MAGIC \<noteq> 0xffffffff" "bc_valid H m inc i \<Longrightarrow> \<not> bc_free H m inc i"
  by (simp_all add: BOOTCOUNT_MAGIC_def bc_valid_def bc_free_def)

lemma bc_scan_log:
  assumes h: "dev_holds V mem bad" and log: "bc_log H (mem d) inc num n" and fits: "num * inc \<le> v_size V" "12 \<le> inc"
    and i: "i \<le> n"
  shows "\<exists>d'. bc_scan H V inc (num - i) i (bc_value H (mem d) inc i) d = (Inr (n, bc_value H (mem d) inc n), d') \<and> mem d' = mem d"
  using i log
proof (induction "num - i" arbitrary: i d)
  case 0
  then have "i = n" by (simp add: bc_log_def)
  then show ?case using 0 by simp
next
  case (Suc k)
  have "i < num" using Suc.hyps(2) by linarith
  then have "i * inc + 12 \<le> num * inc" using fits(2) mult_le_mono1 [of "Suc i" num inc] by simp
  then obtain d1 where r: "v_pread V d (i * inc) 12 = (12, slice (mem d) (i * inc) 12, d1)" "mem d1 = mem d"
    using holds_pread [OF h, of "i * inc" 12 d] fits(1) by (metis le_trans of_nat_numeral)
  have num: "num - i = Suc k" using Suc.hyps(2) by simp
  show ?case
  proof (cases "i = n")
    case True
    then have "bc_free H (mem d) inc n" using Suc.prems \<open>i < num\<close> by (simp add: bc_log_def)
    then show ?thesis using True r num by (simp add: bc_free_def)
  next
    case False
    then have v: "bc_valid H (mem d) inc i" using Suc.prems by (simp add: bc_log_def)
    have "\<exists>d'. bc_scan H V inc (num - (i + 1)) (i + 1) (bc_value H (mem d1) inc (i + 1)) d1
        = (Inr (n, bc_value H (mem d1) inc n), d') \<and> mem d' = mem d1"
      using Suc.hyps Suc.prems False r(2) by (intro Suc.hyps(1)) simp_all
    moreover have "num - (i + 1) = k" using num by simp
    ultimately show ?thesis using v r num bc_magics
      by (simp add: bc_valid_def bc_count_def bc_value_def)
  qed
qed

lemma length_bc_record [simp]: "12 \<le> inc \<Longrightarrow> length (bc_record H inc) = inc"
  by (simp add: bc_record_def)

lemma cpu32_put:
  "n < 4294967296 \<Longrightarrow> cpu32 H (put_cpu32 H n @ bs) = n" "n < 4294967296 \<Longrightarrow> cpu32 H (put_cpu32 H n) = n"
  using get_put_words(3) [of n H bs] get_put_words(3) [of n H "[]"] by simp_all

lemma le_nat_ones: "le_nat [255, 255, 255, 255] = 4294967295"
  by simp

lemma cpu32_ones: "cpu32 H (replicate 12 255) = 0xffffffff"
proof -
  have "take 4 (replicate 12 (255 :: byte)) = [255, 255, 255, 255]" by code_simp
  then show ?thesis using le_nat_ones by (simp add: cpu32_def get_be32_def get_le32_def)
qed

text \<open>A record apart from a written one is as it was, and the written one has the count 0.\<close>

lemma slice_apart: "a + n \<le> b \<or> b + length bs \<le> a \<Longrightarrow> slice (patch b bs m) a n = slice m a n"
  by (rule slice_cong) (auto simp: patch_def)

lemma records_apart:
  assumes "i \<noteq> n" "12 \<le> inc"
  shows "slice (patch (n * inc) (bc_record H inc) m) (i * inc) 12 = slice m (i * inc) 12"
proof (cases "i < n")
  case True
  then show ?thesis using assms(2) mult_le_mono1 [of "Suc i" n inc] by (intro slice_apart disjI1) simp
next
  case False
  then show ?thesis using assms mult_le_mono1 [of "Suc n" i inc] by (intro slice_apart disjI2) simp
qed

lemma record_written:
  assumes "12 \<le> inc"
  shows "bc_valid H (patch (n * inc) (bc_record H inc) m) inc n" "bc_count H (patch (n * inc) (bc_record H inc) m) inc n = 0"
proof -
  have "slice (patch (n * inc) (bc_record H inc) m) (n * inc) 12 = take 12 (bc_record H inc)"
    by (rule nth_equalityI) (use assms in \<open>auto simp: patch_def\<close>)
  then show "bc_valid H (patch (n * inc) (bc_record H inc) m) inc n"
    "bc_count H (patch (n * inc) (bc_record H inc) m) inc n = 0"
    by (simp_all add: bc_valid_def bc_count_def bc_record_def cpu32_put BOOTCOUNT_MAGIC_def)
qed

lemma log_written:
  assumes "bc_log H m inc num n" "n < num" "12 \<le> inc"
  shows "bc_log H (patch (n * inc) (bc_record H inc) m) inc num (Suc n)"
    "bc_value H (patch (n * inc) (bc_record H inc) m) inc (Suc n) = 0"
proof -
  let ?m = "patch (n * inc) (bc_record H inc) m"
  have "bc_valid H ?m inc i" if "i < Suc n" for i
    using record_written(1) [OF assms(3)] records_apart [OF _ assms(3), of i n H m] assms(1) that
    by (cases "i = n") (simp_all add: bc_log_def bc_valid_def bc_count_def)
  moreover have "bc_free H ?m inc i" if "Suc n \<le> i" "i < num" for i
    using records_apart [OF _ assms(3), of i n H m] assms(1) that by (simp add: bc_log_def bc_free_def)
  ultimately show "bc_log H ?m inc num (Suc n)" using assms(2) by (simp add: bc_log_def)
  show "bc_value H ?m inc (Suc n) = 0" using record_written(2) [OF assms(3)] by (simp add: bc_value_def)
qed

lemma log_erased:
  assumes "num * inc \<le> k" "12 \<le> inc"
  shows "bc_log H (patch 0 (replicate k 255) m) inc num 0"
proof -
  have "bc_free H (patch 0 (replicate k 255) m) inc i" if "i < num" for i
  proof -
    have "i * inc + 12 \<le> k" using that assms mult_le_mono1 [of "Suc i" num inc] by simp
    then have "slice (patch 0 (replicate k 255) m) (i * inc) 12 = replicate 12 255"
      by (intro nth_equalityI) (auto simp: patch_def)
    then show ?thesis by (simp only: bc_free_def cpu32_ones)
  qed
  then show ?thesis by (simp add: bc_log_def)
qed

lemma bc_write_ok:
  assumes "dev_holds V mem bad" "i * inc + inc \<le> v_size V" "12 \<le> inc"
  obtains d' where "bc_write H V inc i d = (0, d')" "mem d' = patch (i * inc) (bc_record H inc) (mem d)"
proof -
  obtain d' where "v_pwrite V d (i * inc) (bc_record H inc) = (int (length (bc_record H inc)), d')"
    "mem d' = patch (i * inc) (bc_record H inc) (mem d)"
    using holds_pwrite [OF assms(1), of "i * inc" "bc_record H inc" d] assms(2,3) by auto
  then show ?thesis using that by (simp add: bc_write_def)
qed

lemma resetbc_sound:
  assumes h: "dev_holds V mem bad" and inc: "inc = bc_increment writesize" and num: "num = v_size V div inc" "0 < num"
    and log: "bc_log H (mem d) inc num n" and alloc: "h_alloc H 0"
  obtains d' n' where "mtd_resetbc H writesize (Some V) d = (0, d')" "bc_log H (mem d') inc num n'"
    "bc_value H (mem d') inc n' = 0"
    "if bc_value H (mem d) inc n = 0 then mem d' = mem d
     else mem d' = patch ((if n = num then 0 else n) * inc) (bc_record H inc)
       (if n = num then patch 0 (replicate (v_size V) 255) (mem d) else mem d)"
proof -
  have i: "12 \<le> inc" and fits: "num * inc \<le> v_size V" by (auto simp: inc bc_increment_def num)
  obtain d1 where s: "bc_scan H V inc num 0 0 d = (Inr (n, bc_value H (mem d) inc n), d1)" "mem d1 = mem d"
    using bc_scan_log [OF h log fits i, of 0] by (auto simp: bc_value_def)
  have eq: "mtd_resetbc H writesize (Some V) d =
      (if bc_value H (mem d) inc n = 0 then (0, d1)
       else if n = num then (case v_erase V d1 0 (v_size V) of (ret, d) \<Rightarrow> if ret < 0 then (- 3, d) else bc_write H V inc 0 d)
       else bc_write H V inc n d1)"
    unfolding mtd_resetbc_def option.case inc [symmetric] num(1) [symmetric] Let_def using alloc s by simp
  have n: "n \<le> num" using log by (simp add: bc_log_def)
  have row: "k * inc + inc \<le> v_size V" if "k < num" for k
    using that fits mult_le_mono1 [of "Suc k" num inc] by simp
  consider "bc_value H (mem d) inc n = 0" | "bc_value H (mem d) inc n \<noteq> 0" "n = num" | "bc_value H (mem d) inc n \<noteq> 0" "n < num"
    using n by linarith
  then show ?thesis
  proof cases
    case 1
    then show ?thesis using that [of d1 n] eq s(2) log by simp
  next
    case 2
    obtain d2 where e: "v_erase V d1 0 (v_size V) = (0, d2)" "mem d2 = patch 0 (replicate (v_size V) 255) (mem d)"
      using h s(2) unfolding dev_holds_def by (metis add_0 order_refl)
    obtain d3 where w: "bc_write H V inc 0 d2 = (0, d3)" "mem d3 = patch (0 * inc) (bc_record H inc) (mem d2)"
      using bc_write_ok [OF h _ i, of 0 H d2] row [OF num(2)] by auto
    have "bc_log H (mem d2) inc num 0" unfolding e(2) by (rule log_erased [OF fits i])
    from log_written [OF this num(2) i] show ?thesis
      using that [of d3 1] eq 2 e w by simp
  next
    case 3
    obtain d3 where w: "bc_write H V inc n d1 = (0, d3)" "mem d3 = patch (n * inc) (bc_record H inc) (mem d)"
      using bc_write_ok [OF h row [OF 3(2)] i] s(2) by metis
    show ?thesis using that [of d3 "Suc n"] eq 3 w log_written [OF log 3(2) i] by simp
  qed
qed

section \<open>The flag over such a device\<close>

lemma recoverflag_sound:
  assumes h: "dev_holds V mem bad" and es: "4 \<le> v_erasesize V" "v_erasesize V \<le> v_size V"
    and args: "length args = v_erasesize V"
  obtains d' ret where "mtd_tpl_recoverflag_write H (Some args) (Some V) active d = Some (ret, d')" "0 \<le> ret"
    "slice (mem d') 0 4 = put_cpu32 H (if active then TPL_RECOVER_MAGIC else 0)"
    "\<And>a. 4 \<le> a \<Longrightarrow> mem d' a = mem d a"
proof -
  let ?want = "if active then TPL_RECOVER_MAGIC else 0"
  let ?E = "v_erasesize V"
  obtain d1 where r: "v_pread V d 0 ?E = (int ?E, slice (mem d) 0 ?E, d1)" "mem d1 = mem d"
    using holds_pread [OF h, of 0 ?E d] es(2) by auto
  have put: "memput args 0 (slice (mem d) 0 ?E) = Some (slice (mem d) 0 ?E)" using args by (simp add: memput_def)
  have get: "memget (slice (mem d) 0 ?E) 0 4 = Some (slice (mem d) 0 4)" using es(1) by (rule memget_block)
  define blk where "blk = set_field 0 (put_cpu32 H ?want) (slice (mem d) 0 ?E)"
  have put2: "memput (slice (mem d) 0 ?E) 0 (put_cpu32 H ?want) = Some blk" "memget blk 0 ?E = Some blk" "length blk = ?E"
    using es(1) by (simp_all add: memput_def memget_def blk_def set_field_def)
  show ?thesis
  proof (cases "?want = cpu32 H (slice (mem d) 0 4)")
    case True
    have "put_cpu32 H (cpu32 H bs) = bs" if "length bs = 4" for bs
      using that le_bytes_le_nat [of bs] le_bytes_le_nat [of "rev bs"]
      by (simp add: put_cpu32_def cpu32_def put_be32_def get_be32_def put_le32_def get_le32_def)
    then have "slice (mem d) 0 4 = put_cpu32 H ?want" unfolding True by simp
    moreover have "mtd_tpl_recoverflag_write H (Some args) (Some V) active d = Some (0, d1)"
      using True by (simp add: mtd_tpl_recoverflag_write_def r put get)
    ultimately show ?thesis using that [of 0 d1] r(2) by simp
  next
    case False
    obtain d2 where e: "v_erase V d1 0 ?E = (0, d2)" "mem d2 = patch 0 (replicate ?E 255) (mem d)"
      using h es(2) r(2) unfolding dev_holds_def by (metis add_0)
    obtain d3 where w: "v_pwrite V d2 0 blk = (int ?E, d3)" "mem d3 = patch 0 blk (mem d2)"
      using holds_pwrite [OF h, of 0 blk d2] put2(3) es(2) by auto
    have m3: "mem d3 = patch 0 blk (mem d)"
      unfolding w(2) e(2) by (rule patch_patch) (simp add: put2(3))
    have "slice (mem d3) 0 4 = put_cpu32 H ?want"
      unfolding m3 by (rule nth_equalityI) (use es(1) put2(3) in \<open>auto simp: patch_def blk_def nth_set_field\<close>)
    moreover have "mem d3 a = mem d a" if "4 \<le> a" for a
      unfolding m3 using that es(1) put2(3) by (auto simp: patch_def blk_def nth_set_field)
    moreover have "mtd_tpl_recoverflag_write H (Some args) (Some V) active d = Some (int ?E, d3)"
      using False unfolding mtd_tpl_recoverflag_write_def Let_def option.case r(1) prod.case put Option.bind.bind_lunit get
      by (simp add: e w put2)
    ultimately show ?thesis using that [of "int ?E" d3] by simp
  qed
qed

end
