(* ===== verification/Mtd_Write.thy ===== *)
theory Mtd_Write
  imports Mtd_Jffs2 Mtd_Log
begin

text \<open>
  \<open>mtd.c\<close>: checking and writing an image, the other commands, and \<open>main\<close> after the options are read. Devices are named by
  strings; a list of them is separated by colons.
\<close>

section \<open>State\<close>

text \<open>
  What does not change in a run: the devices as \<open>mtd_check_open\<close> and, for the block device, \<open>mtd_open\<close> find them, \<open>read\<close> of
  the image and whether it is to be tried again, the options, the optional files that are linked, and the memory \<open>malloc\<close> gives.
\<close>

record 'd conf =
  c_dev :: "string \<Rightarrow> 'd dev option"
  c_block :: "string \<Rightarrow> 'd dev option"
  c_read :: "'d \<Rightarrow> nat \<Rightarrow> int \<times> byte list \<times> 'd"
  c_again :: "'d \<Rightarrow> bool"
  c_no_erase :: bool
  c_skip_bytes :: int
  c_jffs2dir :: "byte list"
  c_trxmagic :: nat
  c_part_offset :: nat
  c_brcm :: bool
  c_trx :: bool
  c_seama :: bool
  c_wrg :: bool
  c_wrgg :: bool
  c_tpl :: "string option"
  c_malloc :: "nat \<Rightarrow> byte list option"
  c_md5_ctx :: md5_ctx

datatype mtd_image_format =
  MTD_IMAGE_FORMAT_UNKNOWN | MTD_IMAGE_FORMAT_TRX | MTD_IMAGE_FORMAT_SEAMA | MTD_IMAGE_FORMAT_WRG | MTD_IMAGE_FORMAT_WRGG03

text \<open>
  The variables of \<open>mtd.c\<close> and of \<open>mtd_write\<close>; those of \<open>jffs2.c\<close> are in \<open>t_jffs2\<close>, which has the world and, as
  \<open>j_pos\<close>, the position of \<open>fd\<close>.
\<close>

record 'd mtd =
  t_buf :: "byte list option"
  t_buflen :: int
  t_format :: mtd_image_format
  t_jffs2file :: "'d infile option"
  t_jffs2 :: "'d jffs2"
  t_w :: int
  t_e :: int
  t_skip :: int
  t_offset :: nat
  t_skip_bad :: int
  t_replaced :: bool

abbreviation t_world :: "'d mtd \<Rightarrow> 'd" where
  "t_world T \<equiv> j_dev (t_jffs2 T)"

definition set_world :: "'d \<Rightarrow> 'd mtd \<Rightarrow> 'd mtd" where
  "set_world d T = T\<lparr>t_jffs2 := (t_jffs2 T)\<lparr>j_dev := d\<rparr>\<rparr>"

abbreviation t_pos :: "'d mtd \<Rightarrow> nat" where
  "t_pos T \<equiv> j_pos (t_jffs2 T)"

definition set_pos :: "nat \<Rightarrow> 'd mtd \<Rightarrow> 'd mtd" where
  "set_pos n T = T\<lparr>t_jffs2 := (t_jffs2 T)\<lparr>j_pos := n\<rparr>\<rparr>"

text \<open>\<open>strchr(mtd, ':')\<close>: the name before the colon and what is behind it.\<close>

definition next_name :: "string \<Rightarrow> string \<times> string option" where
  "next_name mtd =
     (let rest = dropWhile (\<lambda>c. c \<noteq> CHR '':'') mtd
      in (takeWhile (\<lambda>c. c \<noteq> CHR '':'') mtd, if rest = [] then None else Some (tl rest)))"

section \<open>Checks\<close>

partial_function (option) mtd_check :: "'d conf \<Rightarrow> string \<Rightarrow> byte list option \<Rightarrow> (int \<times> byte list option) option" where
  "mtd_check C mtd buf =
     (case next_name mtd of
        (name, next) \<Rightarrow>
          (case c_dev C name of
             None \<Rightarrow> Some (0, buf)
           | Some V \<Rightarrow>
               let buf = (case buf of None \<Rightarrow> c_malloc C (v_erasesize V) | Some _ \<Rightarrow> buf)
               in (case next of None \<Rightarrow> Some (1, buf) | Some mtd \<Rightarrow> mtd_check C mtd buf)))"

partial_function (option) mtd_unlock :: "'d conf \<Rightarrow> string \<Rightarrow> 'd \<Rightarrow> (int outcome \<times> 'd) option" where
  "mtd_unlock C mtd d =
     (case next_name mtd of
        (name, next) \<Rightarrow>
          (case c_dev C name of
             None \<Rightarrow> Some (Exit, d)
           | Some V \<Rightarrow>
               let d = v_unlock V d 0 (v_size V)
               in (case next of None \<Rightarrow> Some (Done 0, d) | Some mtd \<Rightarrow> mtd_unlock C mtd d)))"

partial_function (option) read_magic :: "'d conf \<Rightarrow> byte list \<Rightarrow> int \<Rightarrow> 'd \<Rightarrow> (byte list \<times> int \<times> 'd) option" where
  "read_magic C buf len d =
     (if len < 4 then
        (case c_read C d (nat (4 - len)) of
           (r, bs, d) \<Rightarrow>
             if r < 1 then Some (buf, len, d)
             else do { buf \<leftarrow> memput buf (nat len) bs; read_magic C buf (len + r) d })
      else Some (buf, len, d))"

definition magic_format :: "nat \<Rightarrow> byte list \<Rightarrow> mtd_image_format \<Rightarrow> mtd_image_format" where
  "magic_format trxmagic magic old =
     (if get_be32 magic = trxmagic then MTD_IMAGE_FORMAT_TRX
      else if get_be32 magic = 0x5ea3a417 then MTD_IMAGE_FORMAT_SEAMA
      else if get_le32 magic = 0x20040220 then MTD_IMAGE_FORMAT_WRG
      else if get_le32 magic = 0x20080321 then MTD_IMAGE_FORMAT_WRGG03
      else old)"

definition image_check :: "host \<Rightarrow> 'd conf \<Rightarrow> string \<Rightarrow> 'd mtd \<Rightarrow> (int outcome \<times> 'd mtd) option" where
  "image_check H C mtd T =
     (case t_buf T of
        None \<Rightarrow> None
      | Some buf \<Rightarrow> do {
          (buf, len, d) \<leftarrow> read_magic C buf (t_buflen T) (t_world T);
          let T = set_world d (T\<lparr>t_buf := Some buf, t_buflen := len\<rparr>);
          if len < 4 then Some (Done 0, T)
          else do {
            magic \<leftarrow> memget buf 0 4;
            let format = magic_format (c_trxmagic C) magic (t_format T);
            let T = T\<lparr>t_format := format\<rparr>;
            if format = MTD_IMAGE_FORMAT_TRX \<and> c_trx C then do {
              (r, buf, len, d) \<leftarrow> trx_check H (c_trxmagic C) (c_read C) (c_dev C mtd) mtd buf len (t_world T);
              Some (r, set_world d (T\<lparr>t_buf := Some buf, t_buflen := len\<rparr>))
            }
            else Some (Done (if format = MTD_IMAGE_FORMAT_UNKNOWN \<and> c_brcm C \<and> mtd = ''firmware'' then 0 else 1), T)
          }
        })"

section \<open>Writing an image\<close>

text \<open>An error of \<open>read\<close> ends the filling of the buffer as the end of the image does.\<close>

partial_function (option) fill_buf :: "'d conf \<Rightarrow> nat \<Rightarrow> byte list \<Rightarrow> int \<Rightarrow> 'd \<Rightarrow> (byte list \<times> int \<times> 'd) option" where
  "fill_buf C es buf len d =
     (if len < int es then
        (case c_read C d (nat (int es - len)) of
           (r, bs, d) \<Rightarrow>
             if r < 0 then (if c_again C d then fill_buf C es buf len d else Some (buf, len, d))
             else if r = 0 then Some (buf, len, d)
             else do { buf \<leftarrow> memput buf (nat len) bs; fill_buf C es buf (len + r) d })
      else Some (buf, len, d))"

text \<open>The blocks that the next write needs are erased, bad ones passed over. The result is False when a block cannot be erased.\<close>

partial_function (option) erase_ahead :: "'d conf \<Rightarrow> 'd dev \<Rightarrow> 'd mtd \<Rightarrow> (bool outcome \<times> 'd mtd) option" where
  "erase_ahead C V T =
     (if t_w T + t_buflen T > t_e T - t_skip_bad T then
        (case mtd_block_is_bad V (t_world T) (nat (t_e T)) of
           (Exit, d) \<Rightarrow> Some (Exit, set_world d T)
         | (Done bad, d) \<Rightarrow>
             let T = set_world d T; es = v_erasesize V
             in if bad \<noteq> 0 then
                  erase_ahead C V (set_pos (t_pos T + es) (T\<lparr>t_skip_bad := t_skip_bad T + int es, t_e := t_e T + int es\<rparr>))
                else (case mtd_erase_block V (t_world T) (nat (t_e T) + c_part_offset C) of
                    (r, d) \<Rightarrow>
                      let T = set_world d T
                      in if r < 0 then Some (Done False, T) else erase_ahead C V (T\<lparr>t_e := t_e T + int es\<rparr>)))
      else Some (Done True, T))"

text \<open>How a round of the loop ends: another round, the end of the image, the next device.\<close>

datatype flow = Again | Finish | Resume

definition write_at :: "'d dev \<Rightarrow> byte list \<Rightarrow> 'd mtd \<Rightarrow> int \<times> 'd mtd" where
  "write_at V bs T =
     (case v_pwrite V (t_world T) (t_pos T) bs of (r, d) \<Rightarrow> (r, set_pos (t_pos T + nat r) (set_world d T)))"

definition write_block :: "'d conf \<Rightarrow> 'd dev \<Rightarrow> bool \<Rightarrow> byte list \<Rightarrow> 'd mtd \<Rightarrow> (flow outcome \<times> 'd mtd) option" where
  "write_block C V another buf T = do {
     r \<leftarrow> (if c_no_erase C then Some (Done True, T) else erase_ahead C V T);
     then_do r (\<lambda>erased T.
       if erased then do {
         bs \<leftarrow> memget buf (t_offset T) (nat (t_buflen T));
         case write_at V bs T of
           (result, T) \<Rightarrow>
             Some (if result < t_buflen T then (Exit, T)
                   else (Done Again, T\<lparr>t_w := t_w T + t_buflen T, t_buflen := 0, t_offset := 0\<rparr>))
       }
       else if another then do {
         T \<leftarrow> (if t_w T < t_e T then do {
                 bs \<leftarrow> memget buf (t_offset T) (nat (t_e T - t_w T));
                 Some ((snd (write_at V bs T))\<lparr>t_offset := u32_of (t_e T - t_w T)\<rparr>)
               } else Some T);
         Some (Done Resume, T\<lparr>t_w := 0, t_e := 0\<rparr>)
       }
       else Some (Exit, T))
   }"

definition write_round :: "host \<Rightarrow> 'd conf \<Rightarrow> 'd dev \<Rightarrow> bool \<Rightarrow> 'd mtd \<Rightarrow> (flow outcome \<times> 'd mtd) option" where
  "write_round H C V another T =
     (case t_buf T of
        None \<Rightarrow> None
      | Some buf \<Rightarrow> do {
          (buf, len, d) \<leftarrow> fill_buf C (v_erasesize V) buf (t_buflen T) (t_world T);
          let T = set_world d (T\<lparr>t_buf := Some buf, t_buflen := len\<rparr>);
          if len = 0 then Some (Done Finish, T)
          else do {
            buf \<leftarrow> (if len < int (v_erasesize V) then memput buf (nat len) (replicate (nat (int (v_erasesize V) - len)) 255) else Some buf);
            let len = (if len < int (v_erasesize V) then int (v_erasesize V) else len);
            let T = T\<lparr>t_buf := Some buf, t_buflen := len\<rparr>;
            if t_skip T > 0 then Some (Done Again, T\<lparr>t_skip := t_skip T - len, t_buflen := 0\<rparr>)
            else (case t_jffs2file T of
                None \<Rightarrow> write_block C V another buf T
              | Some F \<Rightarrow>
                  if t_w T < c_skip_bytes C then write_block C V another buf T
                  else do {
                    start \<leftarrow> memget buf 0 4;
                    if start = JFFS2_EOF then do {
                      (r, J) \<leftarrow> mtd_replace_jffs2 H V F (case c_malloc C (v_erasesize V) of None \<Rightarrow> [] | Some m \<Rightarrow> m)
                        (t_pos T) (nat (t_e T)) (t_jffs2 T);
                      then_do (r, T\<lparr>t_jffs2 := J\<rparr>) (\<lambda>skip T.
                        Some (Done Again, T\<lparr>t_replaced := True, t_jffs2file := None, t_w := t_w T + skip, t_e := t_e T + skip,
                          t_skip := skip - len, t_buflen := 0, t_offset := 0\<rparr>))
                    }
                    else do {
                      J \<leftarrow> mtd_parse_jffs2data H (v_erasesize V) buf (c_jffs2dir C) (t_jffs2 T);
                      write_block C V another buf (T\<lparr>t_jffs2 := J\<rparr>)
                    }
                  })
          }
        })"

partial_function (option) write_loop :: "host \<Rightarrow> 'd conf \<Rightarrow> 'd dev \<Rightarrow> bool \<Rightarrow> 'd mtd \<Rightarrow> (bool outcome \<times> 'd mtd) option" where
  "write_loop H C V another T = do {
     r \<leftarrow> write_round H C V another T;
     then_do r (\<lambda>f T.
       case f of Again \<Rightarrow> write_loop H C V another T | Finish \<Rightarrow> Some (Done True, T) | Resume \<Rightarrow> Some (Done False, T))
   }"

text \<open>
  The recovery flag of TP-Link routers. Opening its partition changes \<open>mtdsize\<close>, \<open>erasesize\<close> and \<open>mtdtype\<close>.
\<close>

definition use_globals :: "'d dev \<Rightarrow> 'd dev \<Rightarrow> 'd dev" where
  "use_globals V U = V\<lparr>v_size := v_size U, v_erasesize := v_erasesize U, v_nand := v_nand U\<rparr>"

definition recovery_flag :: "host \<Rightarrow> 'd conf \<Rightarrow> bool \<Rightarrow> 'd dev \<Rightarrow> 'd mtd \<Rightarrow> ('d dev outcome \<times> 'd mtd) option" where
  "recovery_flag H C active V T =
     (case c_tpl C of
        None \<Rightarrow> Some (Done V, T)
      | Some name \<Rightarrow> do {
          (r, d) \<leftarrow> mtd_tpl_recoverflag_write H (c_malloc C (v_erasesize V)) (c_dev C name) active (t_world T);
          Some (if r < 0 then Exit else Done (case c_dev C name of None \<Rightarrow> V | Some U \<Rightarrow> use_globals V U), set_world d T)
        })"

text \<open>After jffs2 data was put into the image its header has to be made right again. \<open>fd\<close> is the device as it was opened.\<close>

definition fix_image :: "host \<Rightarrow> 'd conf \<Rightarrow> string \<Rightarrow> 'd dev \<Rightarrow> 'd mtd \<Rightarrow> (unit outcome \<times> 'd mtd) option" where
  "fix_image H C name fd T =
     (let fixed = (\<lambda>linked (f :: nat \<Rightarrow> 'd dev option \<Rightarrow> nat \<Rightarrow> nat \<Rightarrow> 'd \<Rightarrow> (int outcome \<times> 'd) option).
            if linked then do {
              (r, d) \<leftarrow> f (v_erasesize fd) (c_dev C name) 0 0 (t_world T);
              Some (case r of Exit \<Rightarrow> Exit | Done _ \<Rightarrow> Done (), set_world d T)
            } else Some (Done (), T))
      in case t_format T of
        MTD_IMAGE_FORMAT_TRX \<Rightarrow>
          if c_trx C then do {
            (r, d) \<leftarrow> trx_fixup H (c_trxmagic C) (Some fd) (c_block C name) (t_world T);
            Some (Done (), set_world d T)
          } else Some (Done (), T)
      | MTD_IMAGE_FORMAT_SEAMA \<Rightarrow> fixed (c_seama C) (mtd_fixseama H (c_md5_ctx C))
      | MTD_IMAGE_FORMAT_WRG \<Rightarrow> fixed (c_wrg C) (mtd_fixwrg H (c_md5_ctx C))
      | MTD_IMAGE_FORMAT_WRGG03 \<Rightarrow> fixed (c_wrgg C) (mtd_fixwrgg H (c_md5_ctx C))
      | MTD_IMAGE_FORMAT_UNKNOWN \<Rightarrow> Some (Done (), T))"

partial_function (option) write_devs :: "host \<Rightarrow> 'd conf \<Rightarrow> string \<Rightarrow> 'd mtd \<Rightarrow> (int outcome \<times> 'd mtd) option" where
  "write_devs H C mtd T =
     (case next_name mtd of
        (name, next) \<Rightarrow>
          (case c_dev C name of
             None \<Rightarrow> Some (Exit, T)
           | Some fd \<Rightarrow> do {
               r \<leftarrow> recovery_flag H C True fd (set_pos (c_part_offset C) T);
               then_do r (\<lambda>V T. do {
                 r \<leftarrow> write_loop H C V (next \<noteq> None) (T\<lparr>t_w := 0, t_e := 0\<rparr>);
                 then_do r (\<lambda>finished T.
                   if \<not> finished then (case next of None \<Rightarrow> Some (Exit, T) | Some mtd \<Rightarrow> write_devs H C mtd T)
                   else do {
                     r \<leftarrow> (if t_replaced T then fix_image H C name fd T else Some (Done (), T));
                     then_do r (\<lambda>_ T. do {
                       r \<leftarrow> recovery_flag H C False V T;
                       then_do r (\<lambda>_ T. Some (Done 0, T))
                     })
                   })
               })
             }))"

definition mtd_write :: "host \<Rightarrow> 'd conf \<Rightarrow> string \<Rightarrow> 'd mtd \<Rightarrow> (int outcome \<times> 'd mtd) option" where
  "mtd_write H C mtd T =
     write_devs H C mtd (T\<lparr>t_w := 0, t_e := 0, t_skip := 0, t_offset := 0, t_skip_bad := 0, t_replaced := False\<rparr>)"

section \<open>The other commands\<close>

text \<open>
  \<open>mtd_verify\<close>: \<open>digest\<close> is MD5 of libubox, \<open>file\<close> the contents of the file unless it cannot be read. The result is 0 when the
  digests agree and -1 on an error.
\<close>

partial_function (option) verify_loop ::
  "'d dev \<Rightarrow> ('d \<Rightarrow> bool) \<Rightarrow> nat \<Rightarrow> nat \<Rightarrow> byte list \<Rightarrow> 'd \<Rightarrow> (byte list option \<times> 'd) option" where
  "verify_loop V again pos n read d =
     (let len = min n 256
      in case v_pread V d pos len of
        (rlen, bs, d) \<Rightarrow>
          if rlen < 0 then
            (if again d then (if n > 0 then verify_loop V again pos n read d else Some (Some read, d)) else Some (None, d))
          else if rlen = 0 then Some (Some read, d)
          else if n - nat rlen > 0 then verify_loop V again (pos + nat rlen) (n - nat rlen) (read @ bs) d
          else Some (Some (read @ bs), d))"

definition mtd_verify :: "(byte list \<Rightarrow> byte list) \<Rightarrow> 'd conf \<Rightarrow> string \<Rightarrow> byte list option \<Rightarrow> 'd \<Rightarrow> (int \<times> 'd) option" where
  "mtd_verify digest C mtd file d =
     (case file of
        None \<Rightarrow> Some (- 1, d)
      | Some content \<Rightarrow>
          (case c_dev C mtd of
             None \<Rightarrow> Some (- 1, d)
           | Some V \<Rightarrow> do {
               (r, d) \<leftarrow> verify_loop V (c_again C) 0 (length content) [] d;
               Some (case r of None \<Rightarrow> - 1 | Some bs \<Rightarrow> (if digest bs = digest content then 0 else 1), d)
             }))"

datatype 'd command =
    CMD_ERASE | CMD_WRITE bool | CMD_UNLOCK | CMD_JFFS2WRITE "'d infile" | CMD_FIXTRX | CMD_FIXSEAMA | CMD_FIXWRG
  | CMD_FIXWRGG | CMD_VERIFY "byte list option" | CMD_DUMP | CMD_RESETBC nat

record 'd opts =
  o_cmd :: "'d command"
  o_device :: string
  o_erase :: "string list"
  o_force :: bool
  o_offset :: nat
  o_data_size :: nat
  o_dump_len :: nat
  o_digest :: "byte list \<Rightarrow> byte list"

text \<open>The checks before anything is erased or written; \<open>CMD_WRITE\<close> says whether the image could be opened.\<close>

definition prepare :: "host \<Rightarrow> 'd conf \<Rightarrow> 'd opts \<Rightarrow> 'd mtd \<Rightarrow> (unit outcome \<times> 'd mtd) option" where
  "prepare H C P T =
     (let checked = (\<lambda>T. do {
            (r, buf) \<leftarrow> mtd_check C (o_device P) (t_buf T);
            Some (if r = 0 then Exit else Done (), T\<lparr>t_buf := buf\<rparr>)
          })
      in case o_cmd P of
        CMD_WRITE opened \<Rightarrow>
          if \<not> opened then Some (Exit, T)
          else do {
            r \<leftarrow> checked T;
            then_do r (\<lambda>_ T. do {
              r \<leftarrow> image_check H C (o_device P) T;
              then_do r (\<lambda>ok T. Some (if ok = 0 \<and> \<not> o_force P then Exit else Done (), T))
            })
          }
      | CMD_JFFS2WRITE _ \<Rightarrow> checked T
      | _ \<Rightarrow> Some (Done (), T))"

fun erase_all :: "'d conf \<Rightarrow> string list \<Rightarrow> 'd \<Rightarrow> (unit outcome \<times> 'd) option" where
  "erase_all C [] d = Some (Done (), d)"
| "erase_all C (name # names) d = do {
     r \<leftarrow> mtd_unlock C name d;
     then_do r (\<lambda>_ d. do {
       r \<leftarrow> mtd_erase (c_dev C name) d;
       then_do r (\<lambda>_ d. erase_all C names d)
     })
   }"

text \<open>A command gives its value, which \<open>main\<close> drops.\<close>

definition run_command :: "host \<Rightarrow> 'd conf \<Rightarrow> 'd opts \<Rightarrow> 'd mtd \<Rightarrow> (int outcome \<times> 'd mtd) option" where
  "run_command H C P T =
     (let name = o_device P; fd = c_dev C name; d = t_world T;
          unlocked = (\<lambda>k. if name \<in> set (o_erase P) then k T
            else do { (r, d) \<leftarrow> mtd_unlock C name d; then_do (r, set_world d T) (\<lambda>_ T. k T) });
          simple = (\<lambda>(m :: (int outcome \<times> 'd) option) T. do { (r, d) \<leftarrow> m; Some (r, set_world d T) })
      in case o_cmd P of
        CMD_UNLOCK \<Rightarrow> unlocked (\<lambda>T. Some (Done 0, T))
      | CMD_VERIFY file \<Rightarrow> simple (do { (r, d) \<leftarrow> mtd_verify (o_digest P) C name file d; Some (Done r, d) }) T
      | CMD_DUMP \<Rightarrow>
          simple (do { (r, d) \<leftarrow> mtd_dump H (c_again C) fd (o_offset P) (o_dump_len P) d;
                       Some (case r of Exit \<Rightarrow> Exit | Done (r, _) \<Rightarrow> Done r, d) }) T
      | CMD_ERASE \<Rightarrow> unlocked (\<lambda>T. simple (mtd_erase fd (t_world T)) T)
      | CMD_WRITE _ \<Rightarrow> unlocked (\<lambda>T. mtd_write H C name T)
      | CMD_JFFS2WRITE F \<Rightarrow>
          unlocked (\<lambda>T. do {
            (r, J) \<leftarrow> mtd_write_jffs2 H
              (if c_trx C then Some (\<lambda>d. trx_fixup H (c_trxmagic C) fd (c_block C name) d) else None) fd F
              (case fd of None \<Rightarrow> [] | Some V \<Rightarrow> (case c_malloc C (v_erasesize V) of None \<Rightarrow> [] | Some m \<Rightarrow> m))
              (c_jffs2dir C) (t_jffs2 T);
            Some (r, T\<lparr>t_jffs2 := J\<rparr>)
          })
      | CMD_FIXTRX \<Rightarrow> simple (mtd_fixtrx H (c_trxmagic C) fd (o_offset P) (o_data_size P) d) T
      | CMD_FIXSEAMA \<Rightarrow> simple (mtd_fixseama H (c_md5_ctx C) 0 fd 0 (o_data_size P) d) T
      | CMD_FIXWRG \<Rightarrow> simple (mtd_fixwrg H (c_md5_ctx C) 0 fd 0 (o_data_size P) d) T
      | CMD_FIXWRGG \<Rightarrow> simple (mtd_fixwrgg H (c_md5_ctx C) 0 fd 0 (o_data_size P) d) T
      | CMD_RESETBC writesize \<Rightarrow>
          simple (Some (case mtd_resetbc H writesize fd d of (r, d) \<Rightarrow> (Done r, d))) T)"

text \<open>The exit status.\<close>

definition mtd_main :: "host \<Rightarrow> 'd conf \<Rightarrow> 'd opts \<Rightarrow> 'd mtd \<Rightarrow> (nat \<times> 'd mtd) option" where
  "mtd_main H C P T = do {
     r \<leftarrow> prepare H C P T;
     r \<leftarrow> then_do r (\<lambda>_ T. do {
       (r, d) \<leftarrow> erase_all C (o_erase P) (t_world T);
       then_do (r, set_world d T) (\<lambda>_ T. run_command H C P T)
     });
     Some (case r of (Exit, T) \<Rightarrow> (1, T) | (Done _, T) \<Rightarrow> (0, T))
   }"

end
