(* ===== verification/Mtd_Trx.thy ===== *)
theory Mtd_Trx
  imports Mtd_Headers
begin

text \<open>
  What \<open>mtd_fixtrx\<close> does to a device that holds what is written to it and has bad blocks.
\<close>

unbundle bit_operations_syntax

text \<open>The contents of the good blocks from \<open>a\<close> up to \<open>a + n\<close>.\<close>

definition good_bytes :: "'d dev \<Rightarrow> (nat \<Rightarrow> bool) \<Rightarrow> (nat \<Rightarrow> byte) \<Rightarrow> nat \<Rightarrow> nat \<Rightarrow> byte list" where
  "good_bytes V bad m a n =
     map m (filter (\<lambda>x. \<not> (v_nand V \<and> bad (x div v_erasesize V * v_erasesize V))) [a..<a + n])"

lemma good_bytes_append: "good_bytes V bad m a (k + n) = good_bytes V bad m a k @ good_bytes V bad m (a + k) n"
proof -
  have "[a..<a + (k + n)] = [a..<a + k] @ [a + k..<a + k + n]" using upt_add_eq_append [of a "a + k" n] by (simp add: add.assoc)
  then show ?thesis by (simp add: good_bytes_def)
qed

lemma good_bytes_block:
  assumes "0 < v_erasesize V" "a mod v_erasesize V + k \<le> v_erasesize V"
  shows "good_bytes V bad m a k = (if v_nand V \<and> bad (a div v_erasesize V * v_erasesize V) then [] else slice m a k)"
proof -
  have block: "x div v_erasesize V = a div v_erasesize V" if "x \<in> set [a..<a + k]" for x
  proof -
    define q r where "q = v_erasesize V * (a div v_erasesize V)" and "r = a mod v_erasesize V"
    have "a = q + r" "r + k \<le> v_erasesize V" using assms(2) by (simp_all add: q_def r_def)
    then have "q \<le> x" "x < q + v_erasesize V" using that by simp_all
    then have "v_erasesize V * (a div v_erasesize V) \<le> x" "x < v_erasesize V * Suc (a div v_erasesize V)"
      unfolding q_def mult_Suc_right by simp_all
    then show ?thesis by (rule div_nat_eqI)
  qed
  have e: "filter (\<lambda>x. \<not> (v_nand V \<and> bad (x div v_erasesize V * v_erasesize V))) [a..<a + k] =
      filter (\<lambda>x. \<not> (v_nand V \<and> bad (a div v_erasesize V * v_erasesize V))) [a..<a + k]"
  proof (rule filter_cong [OF refl])
    fix x assume "x \<in> set [a..<a + k]"
    then have eq: "x div v_erasesize V = a div v_erasesize V" by (rule block)
    show "(\<not> (v_nand V \<and> bad (x div v_erasesize V * v_erasesize V))) = (\<not> (v_nand V \<and> bad (a div v_erasesize V * v_erasesize V)))"
      unfolding eq ..
  qed
  show ?thesis unfolding good_bytes_def e by (simp add: slice_def)
qed

lemma block_of_power2: "block_of (2 ^ k) x = x div 2 ^ k * 2 ^ k"
  using div_mult_mod_eq [of x "2 ^ k"] nat_and_mask [of x k] by (simp add: block_of_def minus_mod_eq_div_mult)

lemma trx_data_eq:
  assumes h: "dev_holds V mem bad" and es: "v_erasesize V = 2 ^ k"
  shows "a + n \<le> v_size V \<Longrightarrow>
    \<exists>d'. trx_data V a n out d = Some (Done (out @ good_bytes V bad (mem d) a n), d') \<and> mem d' = mem d"
proof (induction n arbitrary: a out d rule: less_induct)
  case (less n)
  show ?case
  proof (cases "n = 0")
    case True
    then show ?thesis by (subst trx_data.simps) (simp add: good_bytes_def)
  next
    case False
    define c where "c = min (2 ^ k - a mod 2 ^ k) n"
    have pos: "0 < c" "c \<le> n" "a mod 2 ^ k + c \<le> 2 ^ k" using False by (auto simp: c_def min_def)
    have chunk: "min (2 ^ k - and a (2 ^ k - 1)) n = c" "min (2 ^ k - and a (2 ^ k - Suc 0)) n = c"
      using nat_and_mask [of a k] by (simp_all add: c_def)
    have split: "good_bytes V bad m a n = (if v_nand V \<and> bad (a div 2 ^ k * 2 ^ k) then [] else slice m a c)
        @ good_bytes V bad m (a + c) (n - c)" for m
      using good_bytes_append [of V bad m a c "n - c"] good_bytes_block [of V a c bad m] pos es by simp
    obtain d1 where b: "mtd_block_is_bad V d (a div 2 ^ k * 2 ^ k) = (Done (if v_nand V \<and> bad (a div 2 ^ k * 2 ^ k) then 1 else 0), d1)"
      "mem d1 = mem d"
      by (rule holds_bad [OF h])
    obtain d2 where r: "v_pread V d1 a c = (int c, slice (mem d1) a c, d2)" "mem d2 = mem d1"
      using holds_pread [OF h, of a c d1] less.prems pos by auto
    show ?thesis
    proof (cases "v_nand V \<and> bad (a div 2 ^ k * 2 ^ k)")
      case True
      have "\<exists>d'. trx_data V (a + c) (n - c) out d1 = Some (Done (out @ good_bytes V bad (mem d1) (a + c) (n - c)), d') \<and> mem d' = mem d1"
        using less.prems pos by (intro less.IH) simp_all
      then show ?thesis unfolding split using True False b
        by (subst trx_data.simps) (auto simp: Let_def chunk block_of_power2 es del: One_nat_def)
    next
      case good: False
      have "\<exists>d'. trx_data V (a + c) (n - c) (out @ slice (mem d1) a c) d2
          = Some (Done ((out @ slice (mem d1) a c) @ good_bytes V bad (mem d2) (a + c) (n - c)), d') \<and> mem d' = mem d2"
        using less.prems pos by (intro less.IH) simp_all
      then show ?thesis unfolding split using good False b r
        by (subst trx_data.simps) (auto simp: Let_def chunk block_of_power2 es del: One_nat_def)
    qed
  qed
qed

text \<open>
  The length and the checksum of the header at \<open>at\<close> are those of the good bytes behind it, the checksum by the division of CRC-32.
\<close>

definition trx_right :: "'d dev \<Rightarrow> (nat \<Rightarrow> bool) \<Rightarrow> nat \<Rightarrow> nat \<Rightarrow> (nat \<Rightarrow> byte) \<Rightarrow> bool" where
  "trx_right V bad at n m \<longleftrightarrow>
     (let bs = good_bytes V bad m (at + 12) n
      in slice m (at + 4) 8 = put_le32 (length bs + 12) @ put_le32 (unat (foldl crc_byte 0xFFFFFFFF bs)))"

lemma trx_right_fields: "trx_right V bad at n m \<longleftrightarrow> slice m (at + 4) 8 = trx_fields (good_bytes V bad m (at + 12) n)"
  by (simp add: trx_right_def trx_fields_def crc32buf_def crc32_bitwise Let_def)

lemma good_bytes_cong: "(\<And>x. a \<le> x \<Longrightarrow> m x = m' x) \<Longrightarrow> good_bytes V bad m a n = good_bytes V bad m' a n"
  by (simp add: good_bytes_def)

lemma length_trx_fields [simp]: "length (trx_fields buf) = 8"
  by (simp add: trx_fields_def)

lemma memget_slice: "off + n \<le> k \<Longrightarrow> memget (slice m a k) off n = Some (slice m (a + off) n)"
  by (simp add: memget_def slice_def take_map drop_map)

definition trx_size :: "'d dev \<Rightarrow> nat \<Rightarrow> nat" where
  "trx_size V data_size = (if data_size \<noteq> 0 then data_size + 16 else v_erasesize V - 12)"

definition trx_fixable :: "host \<Rightarrow> 'd dev \<Rightarrow> nat \<Rightarrow> nat \<Rightarrow> bool" where
  "trx_fixable H V at n \<longleftrightarrow> v_size V < 2147483648 \<and> 4294967296 \<le> h_size_t H \<and> h_alloc H 0 \<and> h_alloc H 1
     \<and> 12 \<le> v_erasesize V \<and> at mod v_erasesize V + 12 \<le> v_erasesize V
     \<and> at div v_erasesize V * v_erasesize V + v_erasesize V \<le> v_size V \<and> at + 12 + n \<le> v_size V"

lemma fixtrx_sound:
  assumes h: "dev_holds V mem bad" and es: "v_erasesize V = 2 ^ k" and f: "trx_fixable H V at n"
    and n: "n = trx_size V data_size" and magic: "get_be32 (slice (mem d) at 4) = trxmagic"
  obtains d' where "mtd_fixtrx H trxmagic (Some V) at data_size d = Some (Done 0, d')" "trx_right V bad at n (mem d')"
    "\<And>a. \<not> (at + 4 \<le> a \<and> a < at + 12) \<Longrightarrow> mem d' a = mem d a"
    "trx_right V bad at n (mem d) \<Longrightarrow> mem d' = mem d"
proof -
  define b r where "b = at div 2 ^ k * 2 ^ k" and "r = at mod 2 ^ k"
  have at: "at = b + r" by (simp only: b_def r_def div_mult_mod_eq)
  have f': "v_size V < h_size_t H" "v_size V < 4294967296" "(12 :: nat) \<le> 2 ^ k" "r + 12 \<le> 2 ^ k" "b + 2 ^ k \<le> v_size V" "at + 12 + n \<le> v_size V"
    "h_alloc H 0" "h_alloc H 1"
    using f by (auto simp: trx_fixable_def es b_def r_def)
  obtain d1 where r1: "v_pread V d b (2 ^ k) = (int (2 ^ k), slice (mem d) b (2 ^ k), d1)" "mem d1 = mem d"
    using holds_pread [OF h] f'(5) by metis
  define good where "good = good_bytes V bad (mem d) (at + 12) n"
  obtain d2 where t: "trx_data V (at + 12) n [] d1 = Some (Done good, d2)" "mem d2 = mem d"
    using trx_data_eq [OF h es, of "at + 12" n "[]" d1] f'(6) r1(2) by (auto simp: good_def)
  have n1: "(if data_size \<noteq> 0 then sz H (int (data_size + 16)) else sz H (int (2 ^ k) - 12)) = n"
  proof (cases "data_size = 0")
    case True
    have "int (2 ^ k) - 12 = int n" using True n f'(3) by (simp add: trx_size_def es of_nat_diff)
    then show ?thesis using True f' by simp
  qed (use n f' in \<open>simp add: trx_size_def del: of_nat_add\<close>)
  have n2: "sz H (int (at + 12)) = at + 12" "sz H (int (at + 12 + n)) = at + 12 + n" using f' by (simp_all del: of_nat_add)
  have g: "memget (slice (mem d) b (2 ^ k)) r 4 = Some (slice (mem d) at 4)"
    "memget (slice (mem d) b (2 ^ k)) (r + 4) 8 = Some (slice (mem d) (at + 4) 8)"
    using f'(4) by (simp_all add: memget_slice at add.assoc)
  have sub: "at - b = r" by (simp add: at)
  have blk: "block_of (2 ^ k) at = b" by (simp add: block_of_power2 b_def)
  have eq: "mtd_fixtrx H trxmagic (Some V) at data_size d =
      (if slice (mem d) (at + 4) 8 = trx_fields good then Some (Done 0, d2)
       else Some (rewrite_block V b (set_field (r + 4) (trx_fields good) (slice (mem d) b (2 ^ k))) d2))"
    unfolding mtd_fixtrx_def option.case es Let_def n2 n1 blk sub
    using f' magic r1 t by (simp add: g del: of_nat_add of_nat_power)
  show ?thesis
  proof (cases "slice (mem d) (at + 4) 8 = trx_fields good")
    case True
    then show ?thesis using that [of d2] eq t(2) by (simp add: trx_right_fields good_def)
  next
    case False
    define blk where "blk = set_field (r + 4) (trx_fields good) (slice (mem d) b (2 ^ k))"
    have lb: "length blk = v_erasesize V" using f'(4) by (simp add: blk_def es)
    obtain d3 where w: "rewrite_block V b blk d2 = (Done 0, d3)" "mem d3 = patch b blk (mem d2)"
      using holds_rewrite_block [OF h _ lb, of b d2] f'(5) es by auto
    have m3: "mem d3 a = (if at + 4 \<le> a \<and> a < at + 12 then trx_fields good ! (a - (at + 4)) else mem d a)" for a
    proof (cases "at + 4 \<le> a \<and> a < at + 12")
      case True
      then obtain j where "a = b + (r + 4 + j)" "j < 8" using that at le_Suc_ex [of "at + 4" a] by (auto simp: add.assoc)
      then show ?thesis using f'(4) by (simp add: w(2) t(2) patch_def blk_def nth_set_field at)
    qed (use f'(4) in \<open>auto simp: w(2) t(2) patch_def blk_def nth_set_field at\<close>)
    have "slice (mem d3) (at + 4) 8 = trx_fields good" by (rule nth_equalityI) (simp_all add: m3)
    moreover have "good_bytes V bad (mem d3) (at + 12) n = good" unfolding good_def by (rule good_bytes_cong) (simp add: m3)
    ultimately have "trx_right V bad at n (mem d3)" by (simp add: trx_right_fields)
    moreover have "mtd_fixtrx H trxmagic (Some V) at data_size d = Some (Done 0, d3)"
      using eq False w(1) by (simp add: blk_def)
    moreover have "\<not> trx_right V bad at n (mem d)" using False by (simp add: trx_right_fields good_def)
    moreover have "mem d3 a = mem d a" if "\<not> (at + 4 \<le> a \<and> a < at + 12)" for a unfolding m3 using that by auto
    ultimately show ?thesis using that [of d3] by blast
  qed
qed

end
