(* ===== verification/Mtd_Image.thy ===== *)
theory Mtd_Image
  imports Mtd_Write Mtd_Trx
begin

text \<open>
  What \<open>mtd_write\<close> does to a device that holds what is written to it: its good blocks hold the image.
\<close>

section \<open>The image\<close>

text \<open>
  \<open>read\<close> gives the image piece by piece, in pieces of any length; \<open>rest\<close> is what is not read yet. The calls of the device do
  not touch it.
\<close>

definition reads_all :: "('d \<Rightarrow> nat \<Rightarrow> int \<times> byte list \<times> 'd) \<Rightarrow> 'd dev \<Rightarrow> ('d \<Rightarrow> nat \<Rightarrow> byte) \<Rightarrow> ('d \<Rightarrow> byte list) \<Rightarrow> bool" where
  "reads_all rd V mem rest \<longleftrightarrow>
     (\<forall>d n. 0 < n \<longrightarrow> (\<exists>k d'. k \<le> n \<and> k \<le> length (rest d) \<and> (rest d \<noteq> [] \<longrightarrow> 0 < k)
        \<and> rd d n = (int k, take k (rest d), d') \<and> rest d' = drop k (rest d) \<and> mem d' = mem d))
   \<and> (\<forall>d a bs. rest (snd (v_pwrite V d a bs)) = rest d) \<and> (\<forall>d a n. rest (snd (v_erase V d a n)) = rest d)
   \<and> (\<forall>d a n. rest (v_unlock V d a n) = rest d) \<and> (\<forall>d a. rest (snd (v_isbad V d a)) = rest d)"

abbreviation image_reads :: "'d conf \<Rightarrow> 'd dev \<Rightarrow> ('d \<Rightarrow> nat \<Rightarrow> byte) \<Rightarrow> ('d \<Rightarrow> byte list) \<Rightarrow> bool" where
  "image_reads C \<equiv> reads_all (c_read C)"

lemma fill_image:
  assumes "image_reads C V mem rest" "length buf = es"
  shows "k \<le> es \<Longrightarrow> \<exists>buf' d'. fill_buf C es buf (int k) d = Some (buf', int (min es (k + length (rest d))), d')
    \<and> length buf' = es \<and> take (min es (k + length (rest d))) buf' = take es (take k buf @ rest d)
    \<and> rest d' = drop (es - k) (rest d) \<and> mem d' = mem d"
  using assms(2)
proof (induction "es - k" arbitrary: k buf d rule: less_induct)
  case less
  show ?case
  proof (cases "k = es")
    case True
    then show ?thesis using less.prems by (subst fill_buf.simps) simp
  next
    case False
    then have lt: "k < es" using less.prems by simp
    obtain j d1 where j: "j \<le> es - k" "j \<le> length (rest d)" "rest d \<noteq> [] \<longrightarrow> 0 < j"
      "c_read C d (es - k) = (int j, take j (rest d), d1)" "rest d1 = drop j (rest d)" "mem d1 = mem d"
      using assms(1) lt unfolding reads_all_def by (metis zero_less_diff)
    have n: "nat (int es - int k) = es - k" using lt by simp
    show ?thesis
    proof (cases "j = 0")
      case True
      then have "rest d = []" using j(3) by simp
      then show ?thesis using True j lt less.prems by (subst fill_buf.simps) (simp add: n min_def)
    next
      case pos: False
      define buf1 where "buf1 = take k buf @ take j (rest d) @ drop (k + j) buf"
      have l1: "length buf1 = es" using j(1,2) lt less.prems by (simp add: buf1_def)
      have t1: "take (k + j) buf1 = take k buf @ take j (rest d)" using j(2) less.prems lt by (simp add: buf1_def)
      have "\<exists>buf' d'. fill_buf C es buf1 (int (k + j)) d1 = Some (buf', int (min es (k + j + length (rest d1))), d')
        \<and> length buf' = es \<and> take (min es (k + j + length (rest d1))) buf' = take es (take (k + j) buf1 @ rest d1)
        \<and> rest d' = drop (es - (k + j)) (rest d1) \<and> mem d' = mem d1"
        using pos lt j(1) l1 by (intro less.hyps) simp_all
      moreover have "k + j + length (rest d1) = k + length (rest d)" using j(2,5) by simp
      moreover have "take (k + j) buf1 @ rest d1 = take k buf @ rest d" unfolding t1 j(5) by simp
      moreover have "drop (es - (k + j)) (rest d1) = drop (es - k) (rest d)"
      proof -
        have "es - (k + j) + j = es - k" using j(1) lt by simp
        then show ?thesis by (simp add: j(5))
      qed
      moreover have "memput buf k (take j (rest d)) = Some buf1"
        using j(1,2) lt less.prems by (simp add: memput_def buf1_def)
      moreover have "fill_buf C es buf (int k) d = fill_buf C es buf1 (int (k + j)) d1"
        using pos j lt calculation(5) by (subst fill_buf.simps) (simp add: n)
      ultimately show ?thesis by (simp only: j(6))
    qed
  qed
qed

section \<open>Finding the next good block\<close>

lemma world_updates:
  "set_world d (T\<lparr>t_e := x\<rparr>) = (set_world d T)\<lparr>t_e := x\<rparr>"
  "set_world d (T\<lparr>t_skip_bad := x\<rparr>) = (set_world d T)\<lparr>t_skip_bad := x\<rparr>"
  "set_world d (T\<lparr>t_buf := y\<rparr>) = (set_world d T)\<lparr>t_buf := y\<rparr>"
  "set_world d (T\<lparr>t_buflen := x\<rparr>) = (set_world d T)\<lparr>t_buflen := x\<rparr>"
  "set_pos n (T\<lparr>t_buf := y\<rparr>) = (set_pos n T)\<lparr>t_buf := y\<rparr>"
  "set_pos n (T\<lparr>t_buflen := x\<rparr>) = (set_pos n T)\<lparr>t_buflen := x\<rparr>"
  "set_pos n (T\<lparr>t_e := x\<rparr>) = (set_pos n T)\<lparr>t_e := x\<rparr>"
  "set_pos n (T\<lparr>t_skip_bad := x\<rparr>) = (set_pos n T)\<lparr>t_skip_bad := x\<rparr>"
  "set_world d (set_pos n T) = set_pos n (set_world d T)"
  "set_world d (set_world d' T) = set_world d T" "set_pos n (set_pos n' T) = set_pos n T"
  "set_pos (t_pos T) (set_world d T) = set_world d T"
  by (simp_all add: set_world_def set_pos_def)

lemma world_fields [simp]:
  "t_world (set_world d T) = d" "t_pos (set_world d T) = t_pos T" "t_world (set_pos n T) = t_world T" "t_pos (set_pos n T) = n"
  "t_buf (set_world d T) = t_buf T" "t_buflen (set_world d T) = t_buflen T" "t_jffs2file (set_world d T) = t_jffs2file T"
  "t_w (set_world d T) = t_w T" "t_e (set_world d T) = t_e T" "t_skip (set_world d T) = t_skip T"
  "t_offset (set_world d T) = t_offset T" "t_skip_bad (set_world d T) = t_skip_bad T" "t_replaced (set_world d T) = t_replaced T"
  "t_buf (set_pos n T) = t_buf T" "t_buflen (set_pos n T) = t_buflen T" "t_jffs2file (set_pos n T) = t_jffs2file T"
  "t_w (set_pos n T) = t_w T" "t_e (set_pos n T) = t_e T" "t_skip (set_pos n T) = t_skip T"
  "t_offset (set_pos n T) = t_offset T" "t_skip_bad (set_pos n T) = t_skip_bad T" "t_replaced (set_pos n T) = t_replaced T"
  by (simp_all add: set_world_def set_pos_def)

lemmas tool_simps = world_updates

definition good_block :: "'d dev \<Rightarrow> (nat \<Rightarrow> bool) \<Rightarrow> nat \<Rightarrow> bool" where
  "good_block V bad b \<longleftrightarrow> \<not> (v_nand V \<and> bad b)"

lemma good_bytes_good: "0 < v_erasesize V \<Longrightarrow>
    good_bytes V bad m (k * v_erasesize V) (v_erasesize V) =
      (if good_block V bad (k * v_erasesize V) then slice m (k * v_erasesize V) (v_erasesize V) else [])"
  using good_bytes_block [of V "k * v_erasesize V" "v_erasesize V" bad m] by (simp add: good_block_def)

lemma good_bytes_bad: "0 < v_erasesize V \<Longrightarrow> (\<And>i. k \<le> i \<Longrightarrow> i < k + n \<Longrightarrow> \<not> good_block V bad (i * v_erasesize V)) \<Longrightarrow>
    good_bytes V bad m (k * v_erasesize V) (n * v_erasesize V) = []"
proof (induction n)
  case (Suc n)
  have "\<not> good_block V bad ((k + n) * v_erasesize V)" using Suc.prems(2) [of "k + n"] by simp
  then have "good_bytes V bad m ((k + n) * v_erasesize V) (v_erasesize V) = []"
    using good_bytes_good [OF Suc.prems(1)] by simp
  moreover have "good_bytes V bad m (k * v_erasesize V) (n * v_erasesize V) = []" using Suc by simp
  ultimately show ?case
    using good_bytes_append [of V bad m "k * v_erasesize V" "n * v_erasesize V" "v_erasesize V"]
    by (simp add: distrib_right add.commute)
qed (simp add: good_bytes_def)

lemma holds_bad_rest:
  assumes "dev_holds V mem bad" "reads_all rd V mem rest"
  obtains d' where "mtd_block_is_bad V d a = (Done (if good_block V bad a then 0 else 1), d')" "mem d' = mem d" "rest d' = rest d"
proof -
  obtain d' where b: "v_isbad V d a = (if bad a then 1 else 0, d')" "mem d' = mem d"
    using assms(1) unfolding dev_holds_def by metis
  then have "rest d' = rest d" using assms(2) unfolding reads_all_def by (metis snd_conv)
  then show ?thesis using that b by (cases "v_nand V") (auto simp: mtd_block_is_bad_def good_block_def)
qed

lemma holds_erase_rest:
  assumes "dev_holds V mem bad" "reads_all rd V mem rest" "a + v_erasesize V \<le> v_size V"
  obtains d' where "mtd_erase_block V d a = (0, d')" "mem d' = patch a (replicate (v_erasesize V) 255) (mem d)" "rest d' = rest d"
proof -
  obtain d' where e: "mtd_erase_block V d a = (0, d')" "mem d' = patch a (replicate (v_erasesize V) 255) (mem d)"
    by (rule holds_erase [OF assms(1,3)])
  have "rest d' = rest d"
    using e(1) assms(2) unfolding reads_all_def mtd_erase_block_def by (auto split: prod.splits if_splits) (metis snd_conv)+
  then show ?thesis using that e by blast
qed

text \<open>What a block that is written adds to the contents of the good blocks, when those before it are bad.\<close>

lemma good_bytes_write:
  assumes E: "0 < v_erasesize V" "length bs = v_erasesize V" and g: "s \<le> k" "k \<le> g" "good_block V bad (g * v_erasesize V)"
      "\<And>i. k \<le> i \<Longrightarrow> i < g \<Longrightarrow> \<not> good_block V bad (i * v_erasesize V)"
  shows "good_bytes V bad (patch (g * v_erasesize V) bs m) (s * v_erasesize V) ((Suc g - s) * v_erasesize V)
    = good_bytes V bad m (s * v_erasesize V) ((k - s) * v_erasesize V) @ bs"
proof -
  let ?E = "v_erasesize V" and ?m = "patch (g * v_erasesize V) bs m"
  have below: "s * ?E \<le> k * ?E" "k * ?E \<le> g * ?E" by (rule mult_le_mono1 [OF g(1)], rule mult_le_mono1 [OF g(2)])
  have "?m x = m x" if "x < k * ?E" for x
    using less_le_trans [OF that below(2)] by (simp add: patch_def del: mult_less_cancel2 mult_le_cancel2)
  moreover have "s * ?E + (k - s) * ?E = k * ?E" using g(1) by (simp flip: add_mult_distrib)
  ultimately have "good_bytes V bad ?m (s * ?E) ((k - s) * ?E) = good_bytes V bad m (s * ?E) ((k - s) * ?E)"
    unfolding good_bytes_def by simp
  moreover have "good_bytes V bad ?m (k * ?E) ((g - k) * ?E) = []" by (rule good_bytes_bad) (use E g in auto)
  moreover have "good_bytes V bad ?m (g * ?E) ?E = bs"
    unfolding good_bytes_good [OF E(1)] using E(2) g(3) slice_patch [of "g * ?E" bs m] by simp
  moreover have "s * ?E + (k - s) * ?E = k * ?E" "k * ?E + (g - k) * ?E = g * ?E" using g(1,2) by (simp_all flip: add_mult_distrib)
  moreover have "(Suc g - s) * ?E = (k - s) * ?E + ((g - k) * ?E + ?E)"
  proof -
    have "Suc g - s = (k - s) + ((g - k) + 1)" using g(1,2) by simp
    then show ?thesis by (simp only: add_mult_distrib nat_mult_1)
  qed
  ultimately show ?thesis
    using good_bytes_append [of V bad ?m "s * ?E" "(k - s) * ?E" "(g - k) * ?E + ?E"]
      good_bytes_append [of V bad ?m "k * ?E" "(g - k) * ?E" ?E] by simp
qed

lemma frame_write:
  assumes "0 < v_erasesize V" "length bs = v_erasesize V" "s \<le> k" "k \<le> g" "good_block V bad (g * v_erasesize V)"
    and frame: "\<And>a. \<not> (s * v_erasesize V \<le> a \<and> a < k * v_erasesize V \<and> good_block V bad (a div v_erasesize V * v_erasesize V)) \<Longrightarrow> m a = m0 a"
    and a: "\<not> (s * v_erasesize V \<le> a \<and> a < Suc g * v_erasesize V \<and> good_block V bad (a div v_erasesize V * v_erasesize V))"
  shows "patch (g * v_erasesize V) bs m a = m0 a"
proof -
  let ?E = "v_erasesize V"
  have below: "s * ?E \<le> k * ?E" "k * ?E \<le> g * ?E" by (rule mult_le_mono1 [OF assms(3)], rule mult_le_mono1 [OF assms(4)])
  have "\<not> (g * ?E \<le> a \<and> a < g * ?E + ?E)"
  proof
    assume in_g: "g * ?E \<le> a \<and> a < g * ?E + ?E"
    then have "a div ?E = g" "a < Suc g * ?E" by (auto intro: div_nat_eqI simp: mult.commute)
    then show False using a in_g assms(5) below by simp
  qed
  moreover have "k * ?E \<le> Suc g * ?E" using assms(4) by (intro mult_le_mono1) simp
  then have "m a = m0 a" using a by (intro frame) linarith
  ultimately show ?thesis using assms(2) by (auto simp: patch_def)
qed

text \<open>From block \<open>k\<close> on the next good block is \<open>g\<close>: the bad ones are skipped and \<open>g\<close> is erased.\<close>

lemma erase_ahead_good:
  assumes h: "dev_holds V mem bad" "image_reads C V mem rest" and off: "c_part_offset C = 0"
    and es: "0 < v_erasesize V" and g: "good_block V bad (g * v_erasesize V)" "Suc g * v_erasesize V \<le> v_size V"
  shows "\<lbrakk>k \<le> g; \<And>i. k \<le> i \<Longrightarrow> i < g \<Longrightarrow> \<not> good_block V bad (i * v_erasesize V);
      t_e T = int (k * v_erasesize V); t_buflen T = int (v_erasesize V); t_e T - t_skip_bad T = t_w T\<rbrakk> \<Longrightarrow>
    \<exists>d'. erase_ahead C V T = Some (Done True, set_pos (t_pos T + (g - k) * v_erasesize V) (set_world d' (T\<lparr>
          t_skip_bad := t_skip_bad T + int ((g - k) * v_erasesize V), t_e := int (Suc g * v_erasesize V)\<rparr>)))
      \<and> mem d' = patch (g * v_erasesize V) (replicate (v_erasesize V) 255) (mem (t_world T)) \<and> rest d' = rest (t_world T)"
proof (induction "g - k" arbitrary: k T)
  case 0
  let ?E = "v_erasesize V"
  have k: "k = g" using 0 by simp
  have e: "nat (t_e T) = g * ?E" using 0 k by (simp del: of_nat_mult)
  obtain d1 where b: "mtd_block_is_bad V (t_world T) (g * ?E) = (Done 0, d1)" "mem d1 = mem (t_world T)" "rest d1 = rest (t_world T)"
    using holds_bad_rest [OF h, of "t_world T" "g * ?E"] g(1) by (metis (full_types))
  obtain d2 where w: "mtd_erase_block V d1 (g * ?E) = (0, d2)" "mem d2 = patch (g * ?E) (replicate ?E 255) (mem d1)" "rest d2 = rest d1"
    using holds_erase_rest [OF h, of "g * ?E" d1] g(2) by (metis add.commute mult_Suc)
  have stop: "erase_ahead C V T' = Some (Done True, T')" if "\<not> t_w T' + t_buflen T' > t_e T' - t_skip_bad T'" for T' :: "'a mtd"
    using that by (subst erase_ahead.simps) simp
  have cond: "t_e T - t_skip_bad T < t_w T + t_buflen T" using 0 es by simp
  have te: "t_e T + int ?E = int (Suc g * ?E)" using 0 k by simp
  have "erase_ahead C V T = erase_ahead C V (set_world d2 (T\<lparr>t_e := int (Suc g * ?E)\<rparr>))"
    by (subst erase_ahead.simps) (simp add: cond e b(1) w(1) off tool_simps te Let_def del: of_nat_mult mult_Suc)
  also have "\<dots> = Some (Done True, set_world d2 (T\<lparr>t_e := int (Suc g * ?E)\<rparr>))"
    using 0 k es by (intro stop) (simp add: tool_simps algebra_simps)
  finally show ?case using k b w by (intro exI [of _ d2]) (simp add: tool_simps)
next
  case (Suc n)
  let ?E = "v_erasesize V"
  have k: "k < g" using Suc.hyps(2) by simp
  have e: "nat (t_e T) = k * ?E" using Suc.prems by (simp del: of_nat_mult)
  obtain d1 where b: "mtd_block_is_bad V (t_world T) (k * ?E) = (Done 1, d1)" "mem d1 = mem (t_world T)" "rest d1 = rest (t_world T)"
    using holds_bad_rest [OF h, of "t_world T" "k * ?E"] Suc.prems(2) [of k] k by (metis (full_types) order_refl)
  define T1 where "T1 = set_pos (t_pos T + ?E) (set_world d1 (T\<lparr>t_skip_bad := t_skip_bad T + int ?E, t_e := int (Suc k * ?E)\<rparr>))"
  have cond: "t_e T - t_skip_bad T < t_w T + t_buflen T" using Suc.prems es by simp
  have te: "t_e T + int ?E = int (Suc k * ?E)" using Suc.prems by simp
  have step: "erase_ahead C V T = erase_ahead C V T1"
    by (subst erase_ahead.simps) (simp add: cond e b(1) tool_simps te T1_def Let_def del: of_nat_mult mult_Suc)
  have "\<exists>d'. erase_ahead C V T1 = Some (Done True, set_pos (t_pos T1 + (g - Suc k) * ?E) (set_world d' (T1\<lparr>
          t_skip_bad := t_skip_bad T1 + int ((g - Suc k) * ?E), t_e := int (Suc g * ?E)\<rparr>)))
      \<and> mem d' = patch (g * ?E) (replicate ?E 255) (mem (t_world T1)) \<and> rest d' = rest (t_world T1)"
    using Suc.hyps(2) Suc.prems k by (intro Suc.hyps(1)) (simp_all add: T1_def tool_simps algebra_simps)
  moreover have "(g - k) * ?E = ?E + (g - Suc k) * ?E" using k by (simp add: Suc_diff_Suc [symmetric])
  ultimately show ?case using step b by (auto simp: T1_def tool_simps add.assoc)
qed

section \<open>The loop\<close>

text \<open>The image padded to whole blocks.\<close>

definition padded :: "nat \<Rightarrow> byte list \<Rightarrow> byte list" where
  "padded es bs = bs @ replicate ((es - length bs mod es) mod es) 255"

definition chunk :: "nat \<Rightarrow> byte list \<Rightarrow> byte list" where
  "chunk es bs = take es bs @ replicate (es - length bs) 255"

lemma length_chunk [simp]: "length (chunk es bs) = es"
  by (simp add: chunk_def)

lemma padded_nil [simp]: "padded es [] = []"
  by (simp add: padded_def)

lemma padded_chunk: "0 < es \<Longrightarrow> bs \<noteq> [] \<Longrightarrow> padded es bs = chunk es bs @ padded es (drop es bs)"
  by (cases "length bs < es") (simp_all add: padded_def chunk_def le_mod_geq)

text \<open>
  What holds between two rounds: the good blocks below \<open>k\<close> hold \<open>written\<close>, nothing else was written, and \<open>ahead\<close> is the part of
  the image to come, the first of it in the buffer.
\<close>

definition writing :: "'d conf \<Rightarrow> 'd dev \<Rightarrow> ('d \<Rightarrow> nat \<Rightarrow> byte) \<Rightarrow> (nat \<Rightarrow> bool) \<Rightarrow> ('d \<Rightarrow> byte list) \<Rightarrow> (nat \<Rightarrow> byte) \<Rightarrow>
    byte list \<Rightarrow> nat \<Rightarrow> byte list \<Rightarrow> 'd mtd \<Rightarrow> bool" where
  "writing C V mem bad rest m0 written k ahead T \<longleftrightarrow>
     (\<exists>buf n. t_buf T = Some buf \<and> length buf = v_erasesize V \<and> t_buflen T = int n \<and> n \<le> v_erasesize V
        \<and> ahead = take n buf @ rest (t_world T))
   \<and> t_jffs2file T = None \<and> t_skip T = 0 \<and> t_offset T = 0 \<and> \<not> t_replaced T
   \<and> t_w T = int (length written) \<and> t_e T = int (k * v_erasesize V) \<and> t_pos T = k * v_erasesize V \<and> t_e T - t_skip_bad T = t_w T
   \<and> k * v_erasesize V \<le> v_size V \<and> good_bytes V bad (mem (t_world T)) 0 (k * v_erasesize V) = written
   \<and> (\<forall>a. k * v_erasesize V \<le> a \<or> \<not> good_block V bad (a div v_erasesize V * v_erasesize V) \<longrightarrow> mem (t_world T) a = m0 a)"

definition tool_ok :: "'d conf \<Rightarrow> 'd dev \<Rightarrow> ('d \<Rightarrow> nat \<Rightarrow> byte) \<Rightarrow> (nat \<Rightarrow> bool) \<Rightarrow> ('d \<Rightarrow> byte list) \<Rightarrow> bool" where
  "tool_ok C V mem bad rest \<longleftrightarrow> dev_holds V mem bad \<and> image_reads C V mem rest \<and> c_part_offset C = 0 \<and> \<not> c_no_erase C
     \<and> 0 < v_erasesize V \<and> v_erasesize V dvd v_size V"

lemma round_end:
  assumes ok: "tool_ok C V mem bad rest" and w: "writing C V mem bad rest m0 written k [] T"
  obtains T' where "write_round H C V another T = Some (Done Finish, T')" "mem (t_world T') = mem (t_world T)" "t_replaced T' = t_replaced T"
proof -
  obtain buf where buf: "t_buf T = Some buf" "length buf = v_erasesize V" "t_buflen T = int 0" "rest (t_world T) = []"
    using w by (auto simp: writing_def)
  obtain buf' d' where f: "fill_buf C (v_erasesize V) buf (int 0) (t_world T) = Some (buf', int 0, d')" "mem d' = mem (t_world T)"
    using fill_image [of C V mem rest buf "v_erasesize V" 0 "t_world T"] ok buf by (auto simp: tool_ok_def)
  show ?thesis
    by (rule that [of "set_world d' (T\<lparr>t_buf := Some buf', t_buflen := 0\<rparr>)"]) (use f buf in \<open>simp_all add: write_round_def\<close>)
qed

lemma writing_step:
  assumes ok: "tool_ok C V mem bad rest" and w: "writing C V mem bad rest m0 written k ahead T" and ahead: "ahead \<noteq> []"
    and g: "k \<le> g" "good_block V bad (g * v_erasesize V)" "Suc g * v_erasesize V \<le> v_size V"
      "\<And>i. k \<le> i \<Longrightarrow> i < g \<Longrightarrow> \<not> good_block V bad (i * v_erasesize V)"
  obtains T' where "write_round H C V another T = Some (Done Again, T')"
    "writing C V mem bad rest m0 (written @ chunk (v_erasesize V) ahead) (Suc g) (drop (v_erasesize V) ahead) T'"
proof -
  let ?E = "v_erasesize V"
  have ok': "dev_holds V mem bad" "image_reads C V mem rest" "c_part_offset C = 0" "\<not> c_no_erase C" "0 < ?E"
    using ok by (auto simp: tool_ok_def)
  obtain buf n where buf: "t_buf T = Some buf" "length buf = ?E" "t_buflen T = int n" "n \<le> ?E" "ahead = take n buf @ rest (t_world T)"
    using w by (auto simp: writing_def)
  define j where "j = min ?E (n + length (rest (t_world T)))"
  obtain buf1 d1 where f: "fill_buf C ?E buf (int n) (t_world T) = Some (buf1, int j, d1)" "length buf1 = ?E"
    "take j buf1 = take ?E ahead" "rest d1 = drop (?E - n) (rest (t_world T))" "mem d1 = mem (t_world T)"
    using fill_image [OF ok'(2) buf(2,4), of "t_world T"] buf(5) by (auto simp: j_def)
  have len: "length ahead = n + length (rest (t_world T))" using buf by simp
  have j: "0 < j" "j \<le> ?E" using ahead ok'(5) len by (auto simp: j_def)
  have rest1: "rest d1 = drop ?E ahead" using f(4) buf by simp
  define buf2 where "buf2 = chunk ?E ahead"
  have buf2: "(if j < ?E then memput buf1 j (replicate (?E - j) 255) else Some buf1) = Some buf2"
    using f(2,3) j by (auto simp: memput_def buf2_def chunk_def j_def len min_def)
  have fill2: "(if int j < int ?E then memput buf1 (nat (int j)) (replicate (nat (int ?E - int j)) 255) else Some buf1) = Some buf2"
    using buf2 by (simp add: nat_diff_distrib split: if_splits)
  define T1 where "T1 = set_world d1 (T\<lparr>t_buf := Some buf2, t_buflen := int ?E\<rparr>)"
  have T: "t_jffs2file T = None" "t_skip T = 0" "t_offset T = 0" "\<not> t_replaced T" "t_w T = int (length written)" "t_e T = int (k * ?E)"
    "t_pos T = k * ?E" "t_e T - t_skip_bad T = t_w T" "good_bytes V bad (mem (t_world T)) 0 (k * ?E) = written"
    and frame: "\<And>a. k * ?E \<le> a \<or> \<not> good_block V bad (a div ?E * ?E) \<Longrightarrow> mem (t_world T) a = m0 a"
    using w by (auto simp: writing_def)
  have round: "write_round H C V another T = write_block C V another buf2 T1"
    using buf(1,3) f(1) j fill2 T by (auto simp: write_round_def T1_def tool_simps Let_def)
  obtain d2 where e: "erase_ahead C V T1 = Some (Done True, set_pos (t_pos T1 + (g - k) * ?E) (set_world d2 (T1\<lparr>
          t_skip_bad := t_skip_bad T1 + int ((g - k) * ?E), t_e := int (Suc g * ?E)\<rparr>)))"
      "mem d2 = patch (g * ?E) (replicate ?E 255) (mem (t_world T1))" "rest d2 = rest (t_world T1)"
    using erase_ahead_good [OF ok'(1,2,3,5) g(2,3,1,4), of T1] T by (auto simp: T1_def)
  define T2 where "T2 = set_pos (t_pos T1 + (g - k) * ?E) (set_world d2 (T1\<lparr>
          t_skip_bad := t_skip_bad T1 + int ((g - k) * ?E), t_e := int (Suc g * ?E)\<rparr>))"
  have pos: "t_pos T2 = g * ?E" using T(7) g(1) by (simp add: T2_def T1_def tool_simps diff_mult_distrib)
  obtain d3 where p: "v_pwrite V d2 (g * ?E) buf2 = (int ?E, d3)" "mem d3 = patch (g * ?E) buf2 (mem d2)"
    using holds_pwrite [OF ok'(1), of "g * ?E" buf2 d2] g(3) by (auto simp: buf2_def add.commute)
  have p2: "rest d3 = rest d2" using ok'(2) p(1) unfolding reads_all_def by (metis snd_conv)
  define T3 where "T3 = (set_pos (g * ?E + ?E) (set_world d3 T2))\<lparr>t_w := t_w T2 + int ?E, t_buflen := 0, t_offset := 0\<rparr>"
  have block: "write_block C V another buf2 T1 = Some (Done Again, T3)"
    using ok'(4) e(1) p(1) pos T(3)
    by (simp add: write_block_def T2_def [symmetric] write_at_def memget_def T3_def buf2_def)
       (simp add: T2_def T1_def tool_simps)
  have m3: "mem d3 = patch (g * ?E) buf2 (mem (t_world T))"
    using patch_patch [of "replicate ?E 255" buf2 "g * ?E"] by (simp add: p(2) e(2) T1_def f(5) buf2_def)
  have "good_bytes V bad (mem d3) (0 * ?E) ((Suc g - 0) * ?E) = good_bytes V bad (mem (t_world T)) (0 * ?E) ((k - 0) * ?E) @ buf2"
    unfolding m3 by (rule good_bytes_write) (use ok'(5) g in \<open>simp_all add: buf2_def\<close>)
  then have good: "good_bytes V bad (mem d3) 0 (Suc g * ?E) = written @ buf2" using T(9) by (simp del: mult_Suc)
  have below: "k * ?E \<le> g * ?E" using g(1) by (rule mult_le_mono1)
  have frame': "mem d3 a = m0 a" if "Suc g * ?E \<le> a \<or> \<not> good_block V bad (a div ?E * ?E)" for a
    unfolding m3 by (rule frame_write [of V buf2 0 k])
      (use ok'(5) g frame that in \<open>simp_all add: buf2_def not_less del: mult_Suc\<close>)
  have fields: "t_buf T3 = Some buf2" "t_buflen T3 = int 0" "t_jffs2file T3 = None" "t_skip T3 = 0" "t_offset T3 = 0"
    "\<not> t_replaced T3" "t_w T3 = int (length (written @ buf2))" "t_e T3 = int (Suc g * ?E)" "t_pos T3 = Suc g * ?E"
    "t_skip_bad T3 = t_skip_bad T + int ((g - k) * ?E)" "t_world T3 = d3"
    using T by (simp_all add: T3_def T2_def T1_def tool_simps buf2_def add.commute)
  have "int (Suc g * ?E) - (t_skip_bad T + int ((g - k) * ?E)) = int (length (written @ buf2))"
    using T(5,6,8) below by (simp add: buf2_def diff_mult_distrib of_nat_diff distrib_right)
  then have "writing C V mem bad rest m0 (written @ buf2) (Suc g) (drop ?E ahead) T3"
    unfolding writing_def fields using fields(6) good frame' g(3) p2 e(3) rest1
    by (intro conjI exI [of _ buf2] exI [of _ 0]) (simp_all add: buf2_def T1_def)
  then show ?thesis using that [of T3] round block by (simp add: buf2_def)
qed

lemma next_good:
  assumes "0 < v_erasesize V" "k \<le> N" "good_bytes V bad m (k * v_erasesize V) ((N - k) * v_erasesize V) \<noteq> []"
  obtains g where "k \<le> g" "g < N" "good_block V bad (g * v_erasesize V)"
    "\<And>i. k \<le> i \<Longrightarrow> i < g \<Longrightarrow> \<not> good_block V bad (i * v_erasesize V)"
proof -
  have "\<exists>i. k \<le> i \<and> i < k + (N - k) \<and> good_block V bad (i * v_erasesize V)"
    using good_bytes_bad [OF assms(1), of k "N - k" bad m] assms(3) by blast
  then have ex: "\<exists>i. k \<le> i \<and> i < N \<and> good_block V bad (i * v_erasesize V)" using assms(2) by auto
  define g where "g = (LEAST i. k \<le> i \<and> i < N \<and> good_block V bad (i * v_erasesize V))"
  have g: "k \<le> g \<and> g < N \<and> good_block V bad (g * v_erasesize V)"
    unfolding g_def by (rule LeastI_ex [OF ex])
  show ?thesis
    by (rule that [of g]) (use g not_less_Least [of _ "\<lambda>i. k \<le> i \<and> i < N \<and> good_block V bad (i * v_erasesize V)"] in
      \<open>auto simp: g_def [symmetric]\<close>)
qed

lemma length_good_bytes: "length (good_bytes V bad m a n) = length (good_bytes V bad m' a n)"
  by (simp add: good_bytes_def)

text \<open>With room in the good blocks the loop comes to the end of the image.\<close>

lemma write_loop_image:
  assumes ok: "tool_ok C V mem bad rest"
  shows "\<lbrakk>writing C V mem bad rest m0 written k ahead T;
      length (written @ padded (v_erasesize V) ahead) \<le> length (good_bytes V bad m0 0 (v_size V))\<rbrakk> \<Longrightarrow>
    \<exists>T' k'. write_loop H C V another T = Some (Done True, T') \<and> \<not> t_replaced T' \<and> k' * v_erasesize V \<le> v_size V
      \<and> good_bytes V bad (mem (t_world T')) 0 (k' * v_erasesize V) = written @ padded (v_erasesize V) ahead
      \<and> (\<forall>a. k' * v_erasesize V \<le> a \<or> \<not> good_block V bad (a div v_erasesize V * v_erasesize V) \<longrightarrow> mem (t_world T') a = m0 a)"
proof (induction "length ahead" arbitrary: written k ahead T rule: less_induct)
  case less
  let ?E = "v_erasesize V"
  have E: "0 < ?E" and N: "v_size V div ?E * ?E = v_size V" using ok by (auto simp: tool_ok_def)
  have k: "k * ?E \<le> v_size V" "good_bytes V bad (mem (t_world T)) 0 (k * ?E) = written"
    and frame: "\<forall>a. k * ?E \<le> a \<or> \<not> good_block V bad (a div ?E * ?E) \<longrightarrow> mem (t_world T) a = m0 a"
    and rep: "\<not> t_replaced T"
    using less.prems(1) by (auto simp: writing_def)
  show ?case
  proof (cases "ahead = []")
    case True
    obtain T' where T': "write_round H C V another T = Some (Done Finish, T')" "mem (t_world T') = mem (t_world T)" "t_replaced T' = t_replaced T"
      by (rule round_end [OF ok less.prems(1) [unfolded True]])
    have "write_loop H C V another T = Some (Done True, T')" by (subst write_loop.simps) (simp add: T'(1))
    then show ?thesis using True T' k frame rep by (intro exI [of _ T'] exI [of _ k]) simp
  next
    case False
    have kN: "k \<le> v_size V div ?E" using k(1) E by (simp add: less_eq_div_iff_mult_less_eq)
    have split: "good_bytes V bad m 0 (v_size V) = good_bytes V bad m 0 (k * ?E) @ good_bytes V bad m (k * ?E) ((v_size V div ?E - k) * ?E)" for m
      using good_bytes_append [of V bad m 0 "k * ?E" "(v_size V div ?E - k) * ?E"] kN N k(1) by (simp add: diff_mult_distrib)
    have "length written < length (good_bytes V bad (mem (t_world T)) 0 (v_size V))"
      using less.prems(2) padded_chunk [OF E False] E length_good_bytes [of V bad m0 0 "v_size V" "mem (t_world T)"] by simp
    then have "good_bytes V bad (mem (t_world T)) (k * ?E) ((v_size V div ?E - k) * ?E) \<noteq> []"
      unfolding split k(2) by auto
    then obtain g where g: "k \<le> g" "g < v_size V div ?E" "good_block V bad (g * ?E)"
      "\<And>i. k \<le> i \<Longrightarrow> i < g \<Longrightarrow> \<not> good_block V bad (i * ?E)"
      using next_good [OF E kN] by metis
    have fits: "Suc g * ?E \<le> v_size V" using g(2) N mult_le_mono1 [of "Suc g" "v_size V div ?E" ?E] by simp
    obtain T1 where T1: "write_round H C V another T = Some (Done Again, T1)"
      "writing C V mem bad rest m0 (written @ chunk ?E ahead) (Suc g) (drop ?E ahead) T1"
      by (rule writing_step [OF ok less.prems(1) False g(1,3) fits g(4)])
    have "length (drop ?E ahead) < length ahead" using False E by (simp add: diff_less)
    moreover have "length ((written @ chunk ?E ahead) @ padded ?E (drop ?E ahead)) \<le> length (good_bytes V bad m0 0 (v_size V))"
      using less.prems(2) padded_chunk [OF E False] by simp
    ultimately obtain T' k' where T': "write_loop H C V another T1 = Some (Done True, T')" "\<not> t_replaced T'" "k' * ?E \<le> v_size V"
      "good_bytes V bad (mem (t_world T')) 0 (k' * ?E) = (written @ chunk ?E ahead) @ padded ?E (drop ?E ahead)"
      "\<forall>a. k' * ?E \<le> a \<or> \<not> good_block V bad (a div ?E * ?E) \<longrightarrow> mem (t_world T') a = m0 a"
      using less.hyps [OF _ T1(2)] by blast
    moreover have "write_loop H C V another T = write_loop H C V another T1" by (subst write_loop.simps) (simp add: T1(1))
    ultimately show ?thesis using padded_chunk [OF E False] by (intro exI [of _ T'] exI [of _ k']) simp
  qed
qed

section \<open>The command\<close>

lemma next_name_last: "CHR '':'' \<notin> set name \<Longrightarrow> next_name name = (name, None)"
  by (auto simp: next_name_def takeWhile_eq_all_conv dropWhile_eq_Nil_conv Let_def)

text \<open>Writing to one device: \<open>buf\<close> is the buffer of \<open>mtd_check\<close>, whose first \<open>n\<close> bytes \<open>image_check\<close> has read.\<close>

lemma mtd_write_image:
  assumes ok: "tool_ok C V mem bad rest" and dev: "c_dev C name = Some V" "CHR '':'' \<notin> set name" "c_tpl C = None"
    and buf: "t_buf T = Some buf" "length buf = v_erasesize V" "t_buflen T = int n" "n \<le> v_erasesize V" "t_jffs2file T = None"
    and img: "img = take n buf @ rest (t_world T)"
    and room: "length (padded (v_erasesize V) img) \<le> length (good_bytes V bad (mem (t_world T)) 0 (v_size V))"
  obtains T' k where "mtd_write H C name T = Some (Done 0, T')" "k * v_erasesize V \<le> v_size V"
    "good_bytes V bad (mem (t_world T')) 0 (k * v_erasesize V) = padded (v_erasesize V) img"
    "\<And>a. k * v_erasesize V \<le> a \<or> \<not> good_block V bad (a div v_erasesize V * v_erasesize V) \<Longrightarrow> mem (t_world T') a = mem (t_world T) a"
proof -
  define T1 where "T1 = (set_pos 0 (T\<lparr>t_w := 0, t_e := 0, t_skip := 0, t_offset := 0, t_skip_bad := 0, t_replaced := False\<rparr>))\<lparr>t_w := 0, t_e := 0\<rparr>"
  have off: "c_part_offset C = 0" using ok by (simp add: tool_ok_def)
  have w: "writing C V mem bad rest (mem (t_world T)) [] 0 img T1"
    unfolding writing_def using buf img by (simp add: T1_def set_pos_def good_bytes_def)
  obtain T2 k where T2: "write_loop H C V False T1 = Some (Done True, T2)" "\<not> t_replaced T2" "k * v_erasesize V \<le> v_size V"
    "good_bytes V bad (mem (t_world T2)) 0 (k * v_erasesize V) = [] @ padded (v_erasesize V) img"
    "\<forall>a. k * v_erasesize V \<le> a \<or> \<not> good_block V bad (a div v_erasesize V * v_erasesize V) \<longrightarrow> mem (t_world T2) a = mem (t_world T) a"
    using write_loop_image [OF ok w, of H False] room by auto
  have "mtd_write H C name T = Some (Done 0, T2)"
    unfolding mtd_write_def
    by (subst write_devs.simps) (simp add: next_name_last dev recovery_flag_def off T1_def [symmetric] T2(1,2))
  then show ?thesis using that [of T2 k] T2 by simp
qed

section \<open>The checks before\<close>

text \<open>\<open>n\<close> bytes of the image are in the buffer, and \<open>ahead\<close> is all of it.\<close>

definition buffered :: "('d \<Rightarrow> byte list) \<Rightarrow> nat \<Rightarrow> byte list \<Rightarrow> byte list \<Rightarrow> int \<Rightarrow> 'd \<Rightarrow> bool" where
  "buffered rest es ahead buf len d \<longleftrightarrow> length buf = es \<and> 0 \<le> len \<and> len \<le> int es \<and> take (nat len) buf @ rest d = ahead"

lemma buffered_read:
  assumes "image_reads C V mem rest" "buffered rest es ahead buf len d" "0 < k" "len + int k \<le> int es"
  obtains r bs d' buf' where "c_read C d k = (r, bs, d')" "0 \<le> r" "r \<le> int k" "memput buf (nat len) bs = Some buf'"
    "buffered rest es ahead buf' (len + r) d'" "mem d' = mem d" "r = 0 \<longrightarrow> buf' = buf"
proof -
  obtain j d1 where j: "j \<le> k" "j \<le> length (rest d)" "c_read C d k = (int j, take j (rest d), d1)"
    "rest d1 = drop j (rest d)" "mem d1 = mem d"
    using assms(1,3) unfolding reads_all_def by metis
  obtain n where n: "len = int n" using assms(2) nonneg_int_cases by (auto simp: buffered_def)
  define buf1 where "buf1 = take n buf @ take j (rest d) @ drop (n + j) buf"
  have l: "length buf = es" "n + k \<le> es" "take n buf @ rest d = ahead" using assms(2,4) by (auto simp: buffered_def n)
  have "memput buf n (take j (rest d)) = Some buf1" using j(1,2) l by (simp add: memput_def buf1_def)
  moreover have "buffered rest es ahead buf1 (len + int j) d1"
    using j l by (simp add: buffered_def buf1_def n nat_add_distrib)
  moreover have "j = 0 \<longrightarrow> buf1 = buf" by (simp add: buf1_def)
  ultimately show ?thesis using that [of "int j" "take j (rest d)" d1 buf1] j n by simp
qed

lemma read_magic_image:
  assumes c: "image_reads C V mem rest" and es: "4 \<le> es"
  shows "buffered rest es ahead buf len d \<Longrightarrow>
    \<exists>buf' len' d'. read_magic C buf len d = Some (buf', len', d') \<and> buffered rest es ahead buf' len' d' \<and> mem d' = mem d"
proof (induction "nat (4 - len)" arbitrary: buf len d rule: less_induct)
  case less
  show ?case
  proof (cases "len < 4")
    case False
    then show ?thesis using less.prems by (subst read_magic.simps) simp
  next
    case True
    have l: "0 \<le> len" using less.prems by (simp add: buffered_def)
    have room: "0 < nat (4 - len)" "len + int (nat (4 - len)) \<le> int es" using True l es by simp_all
    obtain r bs d1 buf1 where r: "c_read C d (nat (4 - len)) = (r, bs, d1)" "0 \<le> r" "memput buf (nat len) bs = Some buf1"
      "buffered rest es ahead buf1 (len + r) d1" "mem d1 = mem d" "r = 0 \<longrightarrow> buf1 = buf"
      by (rule buffered_read [OF c less.prems room]) blast
    show ?thesis
    proof (cases "r < 1")
      case True
      then have "r = 0" using r(2) by simp
      then show ?thesis using \<open>len < 4\<close> r by (subst read_magic.simps) simp
    next
      case False
      have "\<exists>buf' len' d'. read_magic C buf1 (len + r) d1 = Some (buf', len', d') \<and> buffered rest es ahead buf' len' d' \<and> mem d' = mem d1"
        using False True r by (intro less.hyps) simp_all
      then show ?thesis using True False r by (subst read_magic.simps) simp
    qed
  qed
qed

lemma trx_check_image:
  assumes c: "image_reads C V mem rest" and es: "32 \<le> es" and b: "buffered rest es ahead buf len d"
  obtains r buf' len' d' where "trx_check H trxmagic (c_read C) (Some V) name buf len d = Some (Done r, buf', len', d')"
    "buffered rest es ahead buf' len' d'" "mem d' = mem d"
proof -
  define res where "res = (\<lambda>h. if get_be32 h \<noteq> trxmagic \<or> cpu32 H (drop 4 h) < 28 \<or> v_size V < cpu32 H (drop 4 h) then 0 else 1 :: int)"
  have hdr: "\<exists>h. memget buf' 0 8 = Some h" if "buffered rest es ahead buf' len' d'" for buf' len' d'
    using that es by (simp add: buffered_def memget_def)
  show ?thesis
  proof (cases "name = ''firmware'' \<and> len < 32")
    case False
    obtain h where "memget buf 0 8 = Some h" using hdr [OF b] by blast
    then have "trx_check H trxmagic (c_read C) (Some V) name buf len d
        = Some (Done (if name = ''firmware'' then res h else 1), buf, len, d)"
      using False by (auto simp: trx_check_def res_def)
    then show ?thesis using that b by simp
  next
    case True
    have room: "0 < nat (32 - len)" "len + int (nat (32 - len)) \<le> int es" using True es b by (simp_all add: buffered_def)
    obtain r bs d1 buf1 where r: "c_read C d (nat (32 - len)) = (r, bs, d1)" "memput buf (nat len) bs = Some buf1"
      "buffered rest es ahead buf1 (len + r) d1" "mem d1 = mem d"
      by (rule buffered_read [OF c b room]) blast
    obtain h where "memget buf1 0 8 = Some h" using hdr [OF r(3)] by blast
    then have "trx_check H trxmagic (c_read C) (Some V) name buf len d
        = Some (Done (if len + r < 32 then 0 else res h), buf1, len + r, d1)"
      using True r(1,2) by (auto simp: trx_check_def res_def)
    then show ?thesis using that r by simp
  qed
qed

lemma image_check_image:
  assumes c: "image_reads C V mem rest" and es: "32 \<le> es" and dev: "c_dev C name = Some V"
    and b: "t_buf T = Some buf" "buffered rest es ahead buf (t_buflen T) (t_world T)"
  obtains r T' buf' where "image_check H C name T = Some (Done r, T')" "t_buf T' = Some buf'"
    "buffered rest es ahead buf' (t_buflen T') (t_world T')" "mem (t_world T') = mem (t_world T)" "t_jffs2file T' = t_jffs2file T"
proof -
  obtain buf1 len1 d1 where m: "read_magic C buf (t_buflen T) (t_world T) = Some (buf1, len1, d1)"
    "buffered rest es ahead buf1 len1 d1" "mem d1 = mem (t_world T)"
    using read_magic_image [OF c _ b(2)] es by auto
  define T1 where "T1 = set_world d1 (T\<lparr>t_buf := Some buf1, t_buflen := len1\<rparr>)"
  have T1: "t_buf T1 = Some buf1" "t_buflen T1 = len1" "t_world T1 = d1" "t_jffs2file T1 = t_jffs2file T"
    by (simp_all add: T1_def)
  show ?thesis
  proof (cases "len1 < 4")
    case True
    then have "image_check H C name T = Some (Done 0, T1)"
      using m(1) b(1) by (simp add: image_check_def T1_def Let_def)
    then show ?thesis using that [of 0 T1 buf1] T1 m by simp
  next
    case False
    obtain magic where magic: "memget buf1 0 4 = Some magic" using m(2) es by (auto simp: buffered_def memget_def)
    define f where "f = magic_format (c_trxmagic C) magic (t_format T1)"
    show ?thesis
    proof (cases "f = MTD_IMAGE_FORMAT_TRX \<and> c_trx C")
      case True
      obtain r buf2 len2 d2 where t: "trx_check H (c_trxmagic C) (c_read C) (Some V) name buf1 len1 d1 = Some (Done r, buf2, len2, d2)"
        "buffered rest es ahead buf2 len2 d2" "mem d2 = mem d1"
        by (rule trx_check_image [OF c es m(2)])
      have "image_check H C name T = Some (Done r, set_world d2 (T1\<lparr>t_format := f, t_buf := Some buf2, t_buflen := len2\<rparr>))"
        using m(1) b(1) False magic True t(1) dev T1 by (simp add: image_check_def Let_def T1_def [symmetric] f_def [symmetric])
      then show ?thesis using that t m(3) T1 by (simp add: set_world_def)
    next
      case other: False
      have "image_check H C name T = Some (Done (if f = MTD_IMAGE_FORMAT_UNKNOWN \<and> c_brcm C \<and> name = ''firmware'' then 0 else 1), T1\<lparr>t_format := f\<rparr>)"
        using m(1) b(1) False magic other by (auto simp: image_check_def Let_def T1_def [symmetric] f_def [symmetric])
      then show ?thesis using that m T1 by simp
    qed
  qed
qed

text \<open>The whole command: the image is refused and nothing was written, or the device holds it.\<close>

lemma main_write_image:
  assumes ok: "tool_ok C V mem bad rest" and es: "32 \<le> v_erasesize V"
    and dev: "c_dev C name = Some V" "CHR '':'' \<notin> set name" "c_tpl C = None" "c_malloc C (v_erasesize V) = Some buf" "length buf = v_erasesize V"
    and P: "o_cmd P = CMD_WRITE True" "o_device P = name" "o_erase P = []"
    and T: "t_buf T = None" "t_buflen T = 0" "t_jffs2file T = None"
    and room: "length (padded (v_erasesize V) (rest (t_world T))) \<le> length (good_bytes V bad (mem (t_world T)) 0 (v_size V))"
  obtains T' k r T1 where "image_check H C name (T\<lparr>t_buf := Some buf\<rparr>) = Some (Done r, T1)"
    "mtd_main H C P T = Some (if r = 0 \<and> \<not> o_force P then 1 else 0, T')"
    "r = 0 \<and> \<not> o_force P \<longrightarrow> mem (t_world T') = mem (t_world T)"
    "\<not> (r = 0 \<and> \<not> o_force P) \<longrightarrow> k * v_erasesize V \<le> v_size V
       \<and> good_bytes V bad (mem (t_world T')) 0 (k * v_erasesize V) = padded (v_erasesize V) (rest (t_world T))
       \<and> (\<forall>a. k * v_erasesize V \<le> a \<or> \<not> good_block V bad (a div v_erasesize V * v_erasesize V) \<longrightarrow> mem (t_world T') a = mem (t_world T) a)"
proof -
  let ?E = "v_erasesize V"
  have h: "dev_holds V mem bad" and c: "image_reads C V mem rest" using ok by (auto simp: tool_ok_def)
  have unlock: "mem (v_unlock V d a n) = mem d" "rest (v_unlock V d a n) = rest d" for d a n
    using h c by (auto simp: dev_holds_def reads_all_def)
  have check: "mtd_check C name None = Some (1, Some buf)"
    by (subst mtd_check.simps) (simp add: next_name_last dev)
  have b: "buffered rest ?E (rest (t_world T)) buf (t_buflen (T\<lparr>t_buf := Some buf\<rparr>)) (t_world (T\<lparr>t_buf := Some buf\<rparr>))"
    using T dev by (simp add: buffered_def)
  have some: "t_buf (T\<lparr>t_buf := Some buf\<rparr>) = Some buf" by simp
  obtain r T1 buf1 where i0: "image_check H C name (T\<lparr>t_buf := Some buf\<rparr>) = Some (Done r, T1)" "t_buf T1 = Some buf1"
    "buffered rest ?E (rest (t_world T)) buf1 (t_buflen T1) (t_world T1)" "mem (t_world T1) = mem (t_world (T\<lparr>t_buf := Some buf\<rparr>))"
    "t_jffs2file T1 = t_jffs2file (T\<lparr>t_buf := Some buf\<rparr>)"
    by (rule image_check_image [OF c es dev(1) some b])
  then have i: "image_check H C name (T\<lparr>t_buf := Some buf\<rparr>) = Some (Done r, T1)" "t_buf T1 = Some buf1"
    "buffered rest ?E (rest (t_world T)) buf1 (t_buflen T1) (t_world T1)" "mem (t_world T1) = mem (t_world T)" "t_jffs2file T1 = None"
    using T by simp_all
  have prep: "prepare H C P T = Some (if r = 0 \<and> \<not> o_force P then Exit else Done (), T1)"
    using i(1) check T P by (simp add: prepare_def Let_def)
  show ?thesis
  proof (cases "r = 0 \<and> \<not> o_force P")
    case True
    then have m: "mtd_main H C P T = Some (1, T1)" using prep by (simp add: mtd_main_def)
    show ?thesis by (rule that [OF i(1), of T1 0]) (use m True i(4) in auto)
  next
    case False
    define T2 where "T2 = set_world (v_unlock V (t_world T1) 0 (v_size V)) T1"
    obtain n where n: "t_buflen T1 = int n" using i(3) nonneg_int_cases by (auto simp: buffered_def)
    have T2: "t_buf T2 = Some buf1" "length buf1 = ?E" "t_buflen T2 = int n" "n \<le> ?E" "t_jffs2file T2 = None"
      "rest (t_world T) = take n buf1 @ rest (t_world T2)" "mem (t_world T2) = mem (t_world T)"
      using i n by (auto simp: T2_def buffered_def unlock)
    obtain T' k where w: "mtd_write H C name T2 = Some (Done 0, T')" "k * ?E \<le> v_size V"
      "good_bytes V bad (mem (t_world T')) 0 (k * ?E) = padded ?E (rest (t_world T))"
      "\<And>a. k * ?E \<le> a \<or> \<not> good_block V bad (a div ?E * ?E) \<Longrightarrow> mem (t_world T') a = mem (t_world T2) a"
      using mtd_write_image [OF ok dev(1-3) T2(1-6), of H] room T2(7) by auto
    have unlock1: "mtd_unlock C name d = Some (Done 0, v_unlock V d 0 (v_size V))" for d
      by (subst mtd_unlock.simps) (simp add: next_name_last dev)
    have m: "mtd_main H C P T = Some (0, T')"
      using prep False w(1) P by (simp add: mtd_main_def run_command_def Let_def unlock1 T2_def set_world_def)
    show ?thesis by (rule that [OF i(1), of T' k]) (use m False w(2-4) T2(7) in auto)
  qed
qed

end
