(* ===== verification/Mtd_Append.thy ===== *)
theory Mtd_Append
  imports Mtd_Image
begin

text \<open>
  What \<open>mtd_replace_jffs2\<close> writes: whole nodes, laid out in blocks that begin with a clean marker, whose data are those of the file.
\<close>

section \<open>The blocks on the device\<close>

text \<open>The positions \<open>J\<close> has in common with another state: all but the buffer and the device.\<close>

definition same_numbers :: "'d jffs2 \<Rightarrow> 'd jffs2 \<Rightarrow> bool" where
  "same_numbers J J' \<longleftrightarrow> j_last_ino J' = j_last_ino J \<and> j_last_version J' = j_last_version J \<and> j_target_ino J' = j_target_ino J"

lemma same_numbers_refl [simp]: "same_numbers J J"
  by (simp add: same_numbers_def)

lemma same_numbers_trans: "same_numbers J J' \<Longrightarrow> same_numbers J' J'' \<Longrightarrow> same_numbers J J''"
  by (simp add: same_numbers_def)

text \<open>
  From block \<open>s\<close> on the good blocks hold \<open>out\<close>, the blocks that are full, and nothing else was written; \<open>cur\<close> is what the
  buffer holds of the next one. This is claimed as long as \<open>out\<close> has room in the good blocks.
\<close>

definition room :: "'d dev \<Rightarrow> (nat \<Rightarrow> bool) \<Rightarrow> nat \<Rightarrow> nat" where
  "room V bad s = length (good_bytes V bad (\<lambda>_. 0) (s * v_erasesize V) (v_size V - s * v_erasesize V))"

definition streams :: "'d dev \<Rightarrow> ('d \<Rightarrow> nat \<Rightarrow> byte) \<Rightarrow> (nat \<Rightarrow> bool) \<Rightarrow> (nat \<Rightarrow> byte) \<Rightarrow> nat \<Rightarrow> byte list \<Rightarrow> byte list \<Rightarrow> 'd jffs2 \<Rightarrow> bool" where
  "streams V mem bad m0 s out cur J \<longleftrightarrow>
     length (j_buf J) = v_erasesize V \<and> j_ofs J = length cur \<and> length cur \<le> v_erasesize V \<and> take (length cur) (j_buf J) = cur
   \<and> (\<exists>k \<ge> s. j_mtdofs J = k * v_erasesize V \<and> (length out \<le> room V bad s \<longrightarrow>
        k * v_erasesize V \<le> v_size V \<and> j_pos J = k * v_erasesize V
      \<and> good_bytes V bad (mem (j_dev J)) (s * v_erasesize V) ((k - s) * v_erasesize V) = out
      \<and> (\<forall>a. \<not> (s * v_erasesize V \<le> a \<and> a < k * v_erasesize V \<and> good_block V bad (a div v_erasesize V * v_erasesize V))
           \<longrightarrow> mem (j_dev J) a = m0 a)))"

lemma pad_skip_good:
  assumes h: "dev_holds V mem bad" "reads_all rd V mem rest" and E: "0 < v_erasesize V" "v_erasesize V dvd v_size V"
  shows "j_mtdofs J = k * v_erasesize V \<Longrightarrow>
    \<exists>g d'. pad_skip V J = Some (Done (), J\<lparr>j_dev := d', j_mtdofs := g * v_erasesize V, j_pos := j_pos J + (g - k) * v_erasesize V\<rparr>)
      \<and> k \<le> g \<and> (\<forall>i. k \<le> i \<longrightarrow> i < g \<longrightarrow> \<not> good_block V bad (i * v_erasesize V))
      \<and> (g * v_erasesize V < v_size V \<longrightarrow> good_block V bad (g * v_erasesize V)) \<and> mem d' = mem (j_dev J) \<and> rest d' = rest (j_dev J)"
proof (induction "v_size V - k * v_erasesize V" arbitrary: k J rule: less_induct)
  case less
  let ?E = "v_erasesize V"
  obtain d1 where b: "mtd_block_is_bad V (j_dev J) (k * ?E) = (Done (if good_block V bad (k * ?E) then 0 else 1), d1)"
    "mem d1 = mem (j_dev J)" "rest d1 = rest (j_dev J)"
    by (rule holds_bad_rest [OF h])
  show ?case
  proof (cases "good_block V bad (k * ?E) \<or> v_size V \<le> k * ?E")
    case True
    then have "pad_skip V J = Some (Done (), J\<lparr>j_dev := d1, j_mtdofs := k * ?E, j_pos := j_pos J + (k - k) * ?E\<rparr>)"
      using b(1) less.prems by (subst pad_skip.simps) (auto simp: Let_def)
    then show ?thesis using True b by (intro exI [of _ k] exI [of _ d1]) auto
  next
    case False
    define J1 where "J1 = J\<lparr>j_dev := d1, j_mtdofs := Suc k * ?E, j_pos := j_pos J + ?E\<rparr>"
    have step: "pad_skip V J = pad_skip V J1"
      using False b(1) less.prems by (subst pad_skip.simps) (simp add: Let_def J1_def add.commute)
    have "v_size V - Suc k * ?E < v_size V - k * ?E" using False E(1) by (intro diff_less_mono2) simp_all
    then obtain g d' where g: "pad_skip V J1 = Some (Done (), J1\<lparr>j_dev := d', j_mtdofs := g * ?E, j_pos := j_pos J1 + (g - Suc k) * ?E\<rparr>)"
      "Suc k \<le> g" "\<forall>i. Suc k \<le> i \<longrightarrow> i < g \<longrightarrow> \<not> good_block V bad (i * ?E)"
      "g * ?E < v_size V \<longrightarrow> good_block V bad (g * ?E)" "mem d' = mem (j_dev J1)" "rest d' = rest (j_dev J1)"
      using less.hyps [of "Suc k" J1] by (auto simp: J1_def)
    have "?E + (g - Suc k) * ?E = (g - k) * ?E" using g(2) by (simp add: Suc_diff_Suc [symmetric])
    moreover have "\<not> good_block V bad (i * ?E)" if "k \<le> i" "i < g" for i
      using g(3) False that by (cases "i = k") auto
    ultimately show ?thesis using step g b by (intro exI [of _ g] exI [of _ d']) (auto simp: J1_def)
  qed
qed


text \<open>The buffer goes to the next good block.\<close>

lemma room_next:
  assumes E: "0 < v_erasesize V" "v_erasesize V dvd v_size V" and k: "s \<le> k" "k * v_erasesize V \<le> v_size V"
    and out: "good_bytes V bad m (s * v_erasesize V) ((k - s) * v_erasesize V) = out" "length out < room V bad s"
    and g: "k \<le> g" "\<forall>i. k \<le> i \<longrightarrow> i < g \<longrightarrow> \<not> good_block V bad (i * v_erasesize V)"
  shows "g * v_erasesize V < v_size V"
proof (rule ccontr)
  let ?E = "v_erasesize V"
  assume "\<not> g * ?E < v_size V"
  then have gN: "v_size V \<le> g * ?E" by simp
  obtain N where N: "v_size V = N * ?E" using E(2) by (metis dvdE mult.commute)
  have kN: "k \<le> N" "N \<le> g" using k(2) gN E(1) by (simp_all add: N)
  have none: "good_bytes V bad m (k * ?E) ((N - k) * ?E) = []"
    by (rule good_bytes_bad [OF E(1)]) (use g(2) kN in auto)
  have "(k - s) * ?E + (N - k) * ?E = v_size V - s * ?E" "s * ?E + (k - s) * ?E = k * ?E"
    using k(1) kN(1) by (simp_all add: N flip: add_mult_distrib diff_mult_distrib)
  then have "good_bytes V bad m (s * ?E) (v_size V - s * ?E) = out"
    using good_bytes_append [of V bad m "s * ?E" "(k - s) * ?E" "(N - k) * ?E"] none out(1) by simp
  then have "room V bad s = length out" unfolding room_def by (metis length_good_bytes)
  then show False using out(2) by simp
qed

lemma pad_write_good:
  assumes h: "dev_holds V mem bad" "reads_all rd V mem rest" and E: "0 < v_erasesize V" "v_erasesize V dvd v_size V"
    and st: "streams V mem bad m0 s out cur0 J" and buf: "length buf = v_erasesize V"
  obtains J1 where "pad_skip V (J\<lparr>j_buf := buf, j_ofs := 0\<rparr>) = Some (Done (), J1)"
    "streams V mem bad m0 s (out @ buf) [] (pad_write V J1)"
    "same_numbers J (pad_write V J1)" "rest (j_dev (pad_write V J1)) = rest (j_dev J)"
proof -
  let ?E = "v_erasesize V" and ?J = "J\<lparr>j_buf := buf, j_ofs := 0\<rparr>"
  obtain k where k: "s \<le> k" "j_mtdofs J = k * ?E" and upto: "length out \<le> room V bad s \<Longrightarrow> k * ?E \<le> v_size V \<and> j_pos J = k * ?E
      \<and> good_bytes V bad (mem (j_dev J)) (s * ?E) ((k - s) * ?E) = out
      \<and> (\<forall>a. \<not> (s * ?E \<le> a \<and> a < k * ?E \<and> good_block V bad (a div ?E * ?E)) \<longrightarrow> mem (j_dev J) a = m0 a)"
    using st unfolding streams_def by blast
  obtain g d1 where g: "pad_skip V ?J = Some (Done (), ?J\<lparr>j_dev := d1, j_mtdofs := g * ?E, j_pos := j_pos ?J + (g - k) * ?E\<rparr>)"
      "k \<le> g" "\<forall>i. k \<le> i \<longrightarrow> i < g \<longrightarrow> \<not> good_block V bad (i * ?E)"
      "g * ?E < v_size V \<longrightarrow> good_block V bad (g * ?E)" "mem d1 = mem (j_dev ?J)" "rest d1 = rest (j_dev ?J)"
    using pad_skip_good [OF h E, of ?J k] k(2) by auto
  define J1 where "J1 = ?J\<lparr>j_dev := d1, j_mtdofs := g * ?E, j_pos := j_pos ?J + (g - k) * ?E\<rparr>"
  obtain r d2 where e: "mtd_erase_block V d1 (g * ?E) = (r, d2)" by fastforce
  obtain w d3 where p: "v_pwrite V d2 (j_pos J1) buf = (w, d3)" by fastforce
  have J2: "pad_write V J1 = J1\<lparr>j_dev := d3, j_pos := j_pos J1 + nat w, j_mtdofs := g * ?E + ?E\<rparr>"
    using e p by (simp add: pad_write_def J1_def)
  have rest3: "rest d3 = rest (j_dev J)"
  proof -
    have "rest d2 = rest d1"
      using e h(2) unfolding reads_all_def mtd_erase_block_def by (auto split: prod.splits if_splits) (metis snd_conv)+
    moreover have "rest d3 = rest d2" using p h(2) unfolding reads_all_def by (metis snd_conv)
    ultimately show ?thesis using g(6) by simp
  qed
  have "Suc g * ?E \<le> v_size V \<and> j_pos J1 + nat w = Suc g * ?E
      \<and> good_bytes V bad (mem d3) (s * ?E) ((Suc g - s) * ?E) = out @ buf
      \<and> (\<forall>a. \<not> (s * ?E \<le> a \<and> a < Suc g * ?E \<and> good_block V bad (a div ?E * ?E)) \<longrightarrow> mem d3 a = m0 a)"
    if fits: "length (out @ buf) \<le> room V bad s"
  proof -
    have lt: "length out < room V bad s" using fits buf E(1) by simp
    have old: "k * ?E \<le> v_size V" "j_pos J = k * ?E" "good_bytes V bad (mem (j_dev J)) (s * ?E) ((k - s) * ?E) = out"
      "\<And>a. \<not> (s * ?E \<le> a \<and> a < k * ?E \<and> good_block V bad (a div ?E * ?E)) \<Longrightarrow> mem (j_dev J) a = m0 a"
      using upto [OF less_imp_le [OF lt]] by (blast, blast, blast, blast)
    have gN: "g * ?E < v_size V" by (rule room_next [OF E k(1) old(1,3) lt g(2,3)])
    have fit: "Suc g * ?E \<le> v_size V"
      using gN E by (metis Suc_leI dvdE mult.commute mult_le_mono1 mult_less_cancel2)
    have kg: "k * ?E \<le> g * ?E" by (rule mult_le_mono1 [OF g(2)])
    have good: "good_block V bad (g * ?E)" using g(4) gN by simp
    have pos: "j_pos J1 = g * ?E" using old(2) kg by (simp add: J1_def diff_mult_distrib)
    obtain d1' d2' where "mtd_erase_block V d1 (g * ?E) = (0, d1')" "v_pwrite V d1' (g * ?E) buf = (int ?E, d2')"
      "mem d2' = patch (g * ?E) buf (mem d1)"
      using holds_rewrite [OF h(1), of "g * ?E" buf d1] fit buf by (auto simp: add.commute)
    then have w: "w = int ?E" "mem d3 = patch (g * ?E) buf (mem (j_dev J))" using e p pos g(5) by auto
    have "good_bytes V bad (mem d3) (s * ?E) ((Suc g - s) * ?E) = out @ buf"
      unfolding w(2) old(3) [symmetric] by (rule good_bytes_write [OF E(1) buf k(1) g(2) good]) (use g(3) in blast)
    moreover have "mem d3 a = m0 a" if "\<not> (s * ?E \<le> a \<and> a < Suc g * ?E \<and> good_block V bad (a div ?E * ?E))" for a
      unfolding w(2) by (rule frame_write [OF E(1) buf k(1) g(2) good old(4) that])
    moreover have "j_pos J1 + nat w = Suc g * ?E" using pos w(1) by simp
    ultimately show ?thesis using fit by blast
  qed
  moreover have "length (j_buf J1) = ?E" "j_ofs J1 = 0" "g * ?E + ?E = Suc g * ?E" "s \<le> Suc g" using buf k(1) g(2) by (simp_all add: J1_def)
  ultimately have "streams V mem bad m0 s (out @ buf) [] (pad_write V J1)"
    unfolding streams_def J2 by (intro conjI exI [of _ "Suc g"]) (simp_all del: mult_Suc)
  moreover have "same_numbers J (pad_write V J1)" "rest (j_dev (pad_write V J1)) = rest (j_dev J)"
    unfolding J2 using rest3 by (simp_all add: same_numbers_def J1_def)
  moreover have "pad_skip V ?J = Some (Done (), J1)" using g(1) unfolding J1_def .
  ultimately show ?thesis by (intro that)
qed

definition block_fill :: "nat \<Rightarrow> byte list \<Rightarrow> byte list" where
  "block_fill es bs = bs @ replicate (es - length bs) 255"

definition align4 :: "byte list \<Rightarrow> byte list" where
  "align4 bs = bs @ replicate ((4 - length bs mod 4) mod 4) 255"

lemma length_align4: "length (align4 bs) = length bs + (4 - length bs mod 4) mod 4"
  by (simp add: align4_def)

lemma align4_mod [simp]: "length (align4 bs) mod 4 = 0"
proof -
  have "length bs mod 4 \<in> {0, 1, 2, 3}" by auto
  then show ?thesis by (auto simp: length_align4 mod_add_left_eq [symmetric, of "length bs"])
qed

lemma streams_fields:
  assumes "streams V mem bad m0 s out cur J"
  shows "j_ofs J = length cur" "length (j_buf J) = v_erasesize V" "length cur \<le> v_erasesize V" "take (length cur) (j_buf J) = cur"
  using assms by (auto simp: streams_def)

lemma streams_buf:
  assumes "streams V mem bad m0 s out cur J" "length buf = v_erasesize V" "length cur' \<le> v_erasesize V" "take (length cur') buf = cur'"
  shows "streams V mem bad m0 s out cur' (J\<lparr>j_buf := buf, j_ofs := length cur'\<rparr>)"
  using assms unfolding streams_def by simp

text \<open>Bytes at the end of the buffer.\<close>

lemma streams_put:
  assumes "streams V mem bad m0 s out cur J" "length cur + length bs \<le> v_erasesize V"
  obtains buf where "memput (j_buf J) (j_ofs J) bs = Some buf"
    "streams V mem bad m0 s out (cur @ bs) (J\<lparr>j_buf := buf, j_ofs := j_ofs J + length bs\<rparr>)" "take (length cur + length bs) buf = cur @ bs"
    "length buf = v_erasesize V"
proof -
  define buf where "buf = take (length cur) (j_buf J) @ bs @ drop (length cur + length bs) (j_buf J)"
  note f = streams_fields [OF assms(1)]
  have "memput (j_buf J) (j_ofs J) bs = Some buf" using f assms(2) by (simp add: memput_def buf_def)
  moreover have b: "take (length cur + length bs) buf = cur @ bs" "length buf = v_erasesize V"
    using f assms(2) by (simp_all add: buf_def)
  moreover have "streams V mem bad m0 s out (cur @ bs) (J\<lparr>j_buf := buf, j_ofs := j_ofs J + length bs\<rparr>)"
    using streams_buf [OF assms(1) b(2), of "cur @ bs"] b(1) assms(2) f(1) by simp
  ultimately show ?thesis using that by blast
qed

text \<open>What is asked of the device and of the file.\<close>

definition jffs2_dev :: "'d dev \<Rightarrow> ('d \<Rightarrow> nat \<Rightarrow> byte) \<Rightarrow> (nat \<Rightarrow> bool) \<Rightarrow> ('d \<Rightarrow> nat \<Rightarrow> int \<times> byte list \<times> 'd) \<Rightarrow> ('d \<Rightarrow> byte list) \<Rightarrow> bool" where
  "jffs2_dev V mem bad rd rest \<longleftrightarrow> dev_holds V mem bad \<and> reads_all rd V mem rest \<and> v_erasesize V dvd v_size V
     \<and> 4 dvd v_erasesize V \<and> 512 \<le> v_erasesize V"

lemma pad_block:
  assumes ok: "jffs2_dev V mem bad rd rest" and st: "streams V mem bad m0 s out cur J" and cur: "cur \<noteq> []"
  obtains J' where "pad V (v_erasesize V) J = Some (Done (), J')" "streams V mem bad m0 s (out @ block_fill (v_erasesize V) cur) [] J'"
    "same_numbers J J'" "rest (j_dev J') = rest (j_dev J)"
proof -
  let ?E = "v_erasesize V"
  note f = streams_fields [OF st]
  have E: "0 < ?E" "?E dvd v_size V" and h: "dev_holds V mem bad" "reads_all rd V mem rest" using ok by (auto simp: jffs2_dev_def)
  obtain buf where buf: "memput (j_buf J) (j_ofs J) (replicate (?E - length cur) 255) = Some buf" "buf = block_fill ?E cur"
      "length buf = ?E"
    using streams_put [OF st, of "replicate (?E - length cur) 255"] f(3) unfolding block_fill_def by (metis add_diff_inverse_nat
        length_replicate not_less order_refl take_all)
  obtain J1 where J1: "pad_skip V (J\<lparr>j_buf := buf, j_ofs := 0\<rparr>) = Some (Done (), J1)"
    "streams V mem bad m0 s (out @ buf) [] (pad_write V J1)" "same_numbers J (pad_write V J1)"
    "rest (j_dev (pad_write V J1)) = rest (j_dev J)"
    by (rule pad_write_good [OF h E st buf(3)])
  have "pad V ?E J = Some (Done (), pad_write V J1)"
  proof (cases "length cur = ?E")
    case True
    then have "J\<lparr>j_buf := buf\<rparr> = J" using f(2,4) buf(2) by (simp add: block_fill_def)
    then show ?thesis using True f(1) J1(1) E by (simp add: pad_def)
  next
    case False
    then have "length cur mod ?E = length cur" "length cur < ?E" using f(3) by simp_all
    then show ?thesis using f(1) J1(1) buf(1) cur by (simp add: pad_def)
  qed
  then show ?thesis using that J1 buf(2) by blast
qed

lemma align4_le: "4 dvd n \<Longrightarrow> length bs \<le> n \<Longrightarrow> length (align4 bs) \<le> n"
proof -
  assume n: "4 dvd n" "length bs \<le> n"
  have "length (align4 bs) < length bs + 4" by (simp add: length_align4)
  moreover have "4 dvd length (align4 bs)" by (simp add: dvd_eq_mod_eq_0)
  ultimately show ?thesis using n by (auto elim!: dvdE)
qed

text \<open>After alignment to four bytes the buffer may be full, and is then written.\<close>

definition settle :: "nat \<Rightarrow> byte list \<times> byte list \<Rightarrow> byte list \<times> byte list" where
  "settle es = (\<lambda>(out, cur). if length (align4 cur) < es then (out, align4 cur) else (out @ align4 cur, []))"

lemma pad_four:
  assumes ok: "jffs2_dev V mem bad rd rest" and st: "streams V mem bad m0 s out cur J" and cur: "cur \<noteq> []"
  obtains J' out' cur' where "pad V 4 J = Some (Done (), J')" "(out', cur') = settle (v_erasesize V) (out, cur)"
    "streams V mem bad m0 s out' cur' J'" "same_numbers J J'" "rest (j_dev J') = rest (j_dev J)"
proof -
  let ?E = "v_erasesize V" and ?k = "(4 - length cur mod 4) mod 4"
  note f = streams_fields [OF st]
  have E: "0 < ?E" "?E dvd v_size V" "4 dvd ?E" and h: "dev_holds V mem bad" "reads_all rd V mem rest" using ok by (auto simp: jffs2_dev_def)
  have le: "length (align4 cur) \<le> ?E" by (rule align4_le [OF E(3) f(3)])
  obtain buf where buf: "memput (j_buf J) (j_ofs J) (replicate ?k 255) = Some buf" "take (length (align4 cur)) buf = align4 cur"
      "length buf = ?E" "streams V mem bad m0 s out (align4 cur) (J\<lparr>j_buf := buf, j_ofs := j_ofs J + ?k\<rparr>)"
    using streams_put [OF st, of "replicate ?k 255"] le unfolding align4_def by (auto simp: length_align4)
  obtain J1 where J1: "pad_skip V (J\<lparr>j_buf := buf, j_ofs := 0\<rparr>) = Some (Done (), J1)"
    "streams V mem bad m0 s (out @ buf) [] (pad_write V J1)" "same_numbers J (pad_write V J1)"
    "rest (j_dev (pad_write V J1)) = rest (j_dev J)"
    by (rule pad_write_good [OF h E(1,2) st buf(3)])
  show ?thesis
  proof (cases "length (align4 cur) < ?E")
    case small: True
    then have lt: "length cur < ?E" by (simp add: length_align4)
    show ?thesis
    proof (cases "length cur mod 4 = 0")
      case True
      then have "align4 cur = cur" by (simp add: align4_def)
      then show ?thesis using that [of J out cur] st True lt f(1) by (simp add: pad_def settle_def)
    next
      case False
      then have k: "?k = 4 - length cur mod 4" and m: "\<not> length cur + 4 \<le> length cur mod 4" by simp_all
      have "pad V 4 J = Some (Done (), J\<lparr>j_buf := buf, j_ofs := j_ofs J + ?k\<rparr>)"
        using False lt buf(1) small f(1) cur m unfolding k length_align4 by (auto simp: pad_def Let_def)
      then show ?thesis using that [of "J\<lparr>j_buf := buf, j_ofs := j_ofs J + ?k\<rparr>" out "align4 cur"] small buf(4)
        by (simp add: settle_def same_numbers_def)
    qed
  next
    case False
    then have full: "length (align4 cur) = ?E" using le by simp
    then have b: "buf = align4 cur" using buf(2,3) by simp
    have "pad V 4 J = Some (Done (), pad_write V J1)"
    proof (cases "length cur = ?E")
      case True
      then have "align4 cur = cur" using E(3) by (simp add: align4_def)
      then have "J\<lparr>j_buf := buf\<rparr> = J" using b f(4) True f(2) by simp
      then show ?thesis using True f(1) J1(1) E by (simp add: pad_def)
    next
      case neq: False
      then have lt: "length cur < ?E" using f(3) by simp
      have "length cur mod 4 \<noteq> 0"
      proof
        assume "length cur mod 4 = 0"
        then show False using full lt by (simp add: length_align4)
      qed
      then have k: "?k = 4 - length cur mod 4" by simp
      have "length cur + ?k = ?E" using full by (simp add: length_align4)
      then show ?thesis using \<open>length cur mod 4 \<noteq> 0\<close> lt f(1) J1(1) buf(1) unfolding k by (simp add: pad_def)
    qed
    then show ?thesis using that [of "pad_write V J1" "out @ align4 cur" "[]"] False J1 b by (simp add: settle_def)
  qed
qed

lemma add_data_fits:
  assumes st: "streams V mem bad m0 s out cur J" and fits: "length cur + length bs \<le> v_erasesize V"
  obtains J' where "add_data H V bs J = Some (Done (), J')" "streams V mem bad m0 s out (cur @ bs) J'"
    "same_numbers J J'" "rest (j_dev J') = rest (j_dev J)"
proof -
  obtain buf where buf: "memput (j_buf J) (j_ofs J) bs = Some buf"
    "streams V mem bad m0 s out (cur @ bs) (J\<lparr>j_buf := buf, j_ofs := j_ofs J + length bs\<rparr>)"
    by (rule streams_put [OF st fits])
  have "add_data H V bs J = Some (Done (), J\<lparr>j_buf := buf, j_ofs := j_ofs J + length bs\<rparr>)"
    using fits streams_fields(1) [OF st] buf(1) by (subst add_data.simps) simp
  then show ?thesis using that buf(2) by (simp add: same_numbers_def)
qed

lemma length_CLEANMARKER [simp]: "length (CLEANMARKER H) = 12"
  by (simp add: CLEANMARKER_def)

lemma prep_marks:
  assumes ok: "jffs2_dev V mem bad rd rest" and st: "streams V mem bad m0 s out cur J"
  obtains J' where "prep_eraseblock H V J = Some (Done (), J')"
    "streams V mem bad m0 s out (if cur = [] then CLEANMARKER H else cur) J'"
    "same_numbers J J'" "rest (j_dev J') = rest (j_dev J)"
proof (cases "cur = []")
  case True
  have room: "length cur + length (CLEANMARKER H) \<le> v_erasesize V" using True ok by (simp add: jffs2_dev_def)
  obtain J' where "add_data H V (CLEANMARKER H) J = Some (Done (), J')" "streams V mem bad m0 s out (cur @ CLEANMARKER H) J'"
    "same_numbers J J'" "rest (j_dev J') = rest (j_dev J)"
    by (rule add_data_fits [OF st room])
  then show ?thesis using that True streams_fields(1) [OF st] by (simp add: prep_eraseblock_def)
next
  case False
  then show ?thesis using that [of J] st streams_fields(1) [OF st] by (simp add: prep_eraseblock_def)
qed

section \<open>Nodes in blocks\<close>

text \<open>A block: a clean marker, the nodes, each aligned, and ones up to its end. No node crosses the end of a block.\<close>

definition layout :: "host \<Rightarrow> byte list list \<Rightarrow> byte list" where
  "layout H nodes = CLEANMARKER H @ concat (map align4 nodes)"

definition block_image :: "host \<Rightarrow> nat \<Rightarrow> byte list list \<Rightarrow> byte list" where
  "block_image H es nodes = block_fill es (layout H nodes)"

text \<open>A block is left when no node with more than 128 bytes of data fits into it any more.\<close>

definition laid :: "host \<Rightarrow> nat \<Rightarrow> byte list list \<Rightarrow> byte list \<Rightarrow> byte list \<Rightarrow> bool" where
  "laid H es nodes out cur \<longleftrightarrow>
     (\<exists>gs g. out = concat (map (block_image H es) gs) \<and> cur = layout H g \<and> length cur < es \<and> nodes = concat gs @ g
        \<and> (\<forall>b \<in> set gs. length (layout H b) \<le> es \<and> es \<le> length (layout H b) + 196))"

lemma layout_ne [simp]: "layout H g \<noteq> []" "CLEANMARKER H \<noteq> []"
  by (simp_all add: layout_def CLEANMARKER_def)

lemma layout_snoc: "layout H (g @ [n]) = layout H g @ align4 n"
  by (simp add: layout_def)

lemma length_layout_mod [simp]: "length (layout H g) mod 4 = 0"
proof (induction g rule: rev_induct)
  case (snoc n g)
  then show ?case unfolding layout_snoc length_append by (metis align4_mod mod_add_self1 mod_add_eq add_0 mod_0)
qed (simp add: layout_def)

lemma align4_layout: "align4 (layout H g @ n) = layout H (g @ [n])"
proof -
  have "length (layout H g @ n) mod 4 = length n mod 4"
    using length_layout_mod [of H g] by (metis add_0 length_append mod_add_left_eq)
  then show ?thesis unfolding layout_snoc by (simp add: align4_def)
qed

lemma laid_cur: "laid H es nodes out cur \<Longrightarrow> cur \<noteq> [] \<and> length cur < es"
  by (auto simp: laid_def)

lemma laid_node:
  assumes "laid H es nodes out cur" "length (align4 (cur @ n)) \<le> es" "512 \<le> es" "(out', cur') = settle es (out, cur @ n)"
  shows "laid H es (nodes @ [n]) out' (if cur' = [] then CLEANMARKER H else cur')"
proof -
  obtain gs g where g: "out = concat (map (block_image H es) gs)" "cur = layout H g" "nodes = concat gs @ g"
    "\<forall>b \<in> set gs. length (layout H b) \<le> es \<and> es \<le> length (layout H b) + 196"
    using assms(1) unfolding laid_def by blast
  have a: "align4 (cur @ n) = layout H (g @ [n])" "layout H (g @ [n]) \<noteq> []" by (simp_all add: g(2) align4_layout)
  show ?thesis
  proof (cases "length (align4 (cur @ n)) < es")
    case True
    then have "out' = out" "cur' = layout H (g @ [n])" using assms(4) a by (auto simp: settle_def)
    then show ?thesis using True a g unfolding laid_def by (intro exI [of _ gs] exI [of _ "g @ [n]"]) simp
  next
    case False
    then have full: "out' = out @ layout H (g @ [n])" "cur' = []" using assms(4) a by (auto simp: settle_def)
    have "block_image H es (g @ [n]) = layout H (g @ [n])" using False a(1) by (simp add: block_image_def block_fill_def)
    moreover have "es \<le> length (layout H (g @ [n]))" using False a(1) by simp
    ultimately show ?thesis using full g assms(2,3) a(1) unfolding laid_def
      by (intro exI [of _ "gs @ [g @ [n]]"] exI [of _ "[]"]) (auto simp: layout_def)
  qed
qed

lemma laid_block:
  assumes "laid H es nodes out cur" "512 \<le> es" "es \<le> length cur + 196"
  shows "laid H es nodes (out @ block_fill es cur) (CLEANMARKER H)"
proof -
  obtain gs g where "out = concat (map (block_image H es) gs)" "cur = layout H g" "nodes = concat gs @ g" "length cur < es"
    "\<forall>b \<in> set gs. length (layout H b) \<le> es \<and> es \<le> length (layout H b) + 196"
    using assms(1) unfolding laid_def by blast
  then show ?thesis using assms(2,3) unfolding laid_def
    by (intro exI [of _ "gs @ [g]"] exI [of _ "[]"]) (auto simp: layout_def block_image_def)
qed

lemma streams_numbers [simp]:
  "streams V mem bad m0 s out cur (J\<lparr>j_last_ino := x\<rparr>) = streams V mem bad m0 s out cur J"
  "streams V mem bad m0 s out cur (J\<lparr>j_last_version := x\<rparr>) = streams V mem bad m0 s out cur J"
  by (simp_all add: streams_def)

lemma streams_dev: "streams V mem bad m0 s out cur J \<Longrightarrow> mem d = mem (j_dev J) \<Longrightarrow> streams V mem bad m0 s out cur (J\<lparr>j_dev := d\<rparr>)"
  by (simp add: streams_def)

lemma data_room_ok:
  assumes ok: "jffs2_dev V mem bad rd rest" and st: "streams V mem bad m0 s out cur J" and laid: "laid H (v_erasesize V) nodes out cur"
  obtains J' out' cur' where "data_room H V J = Some (Done (v_erasesize V - length cur' - 68), J')"
    "streams V mem bad m0 s out' cur' J'" "laid H (v_erasesize V) nodes out' cur'" "length cur' + 196 < v_erasesize V"
    "same_numbers J J'" "rest (j_dev J') = rest (j_dev J)"
proof -
  let ?E = "v_erasesize V"
  have E: "512 \<le> ?E" using ok by (simp add: jffs2_dev_def)
  have room: "data_room H V J = Some (Done (?E - length cur - 68), J)"
    if "streams V mem bad m0 s out cur J" "length cur + 196 < ?E" for out cur J
    using that streams_fields(1) [OF that(1)] by (subst data_room.simps) (simp add: rbytes_def nat_diff_distrib)
  show ?thesis
  proof (cases "length cur + 196 < ?E")
    case True
    then show ?thesis using that room st laid by simp
  next
    case False
    have cur: "cur \<noteq> []" "length cur < ?E" using laid_cur [OF laid] by auto
    have full: "?E \<le> length cur + 196" using False by simp
    obtain J1 where J1: "pad V ?E J = Some (Done (), J1)" "streams V mem bad m0 s (out @ block_fill ?E cur) [] J1"
      "same_numbers J J1" "rest (j_dev J1) = rest (j_dev J)"
      by (rule pad_block [OF ok st cur(1)])
    obtain J2 where J2: "prep_eraseblock H V J1 = Some (Done (), J2)" "streams V mem bad m0 s (out @ block_fill ?E cur) (CLEANMARKER H) J2"
      "same_numbers J1 J2" "rest (j_dev J2) = rest (j_dev J1)"
      by (rule prep_marks [OF ok J1(2)]) simp
    have "data_room H V J = data_room H V J2"
      using False cur streams_fields(1) [OF st] J1(1) J2(1) by (subst data_room.simps) (simp add: rbytes_def)
    then show ?thesis
      using that [of "CLEANMARKER H" J2 "out @ block_fill ?E cur"] room [OF J2(2)] J2 J1 laid_block [OF laid E full] E same_numbers_trans [OF J1(3) J2(3)] by simp
  qed
qed

lemma length_put_cpu [simp]: "length (put_cpu16 H n) = 2" "length (put_cpu32 H n) = 4" "length (jffs2_crc H bs) = 4"
  by (simp_all add: put_cpu16_def put_cpu32_def put_le32_def put_be32_def jffs2_crc_def)

lemma length_nodes [simp]: "length (inode_node H len ino version st off csize crc) = 68" "length (dirent_node H typ pino version ino name) = 40"
  by (simp_all add: inode_node_def dirent_node_def Let_def)

text \<open>A node is at its end: the buffer is aligned, written when it is full, and begun anew.\<close>

lemma node_end:
  assumes ok: "jffs2_dev V mem bad rd rest" and st: "streams V mem bad m0 s out (cur @ n) J" and laid: "laid H (v_erasesize V) nodes out cur"
  obtains J1 J2 out' cur' where "pad V 4 J = Some (Done (), J1)" "prep_eraseblock H V J1 = Some (Done (), J2)"
    "streams V mem bad m0 s out' cur' J2" "laid H (v_erasesize V) (nodes @ [n]) out' cur'"
    "same_numbers J J2" "rest (j_dev J2) = rest (j_dev J)"
proof -
  let ?E = "v_erasesize V"
  have E: "512 \<le> ?E" "4 dvd ?E" using ok by (simp_all add: jffs2_dev_def)
  have ne: "cur @ n \<noteq> []" using laid_cur [OF laid] by simp
  obtain J1 out1 cur1 where J1: "pad V 4 J = Some (Done (), J1)" "(out1, cur1) = settle ?E (out, cur @ n)"
    "streams V mem bad m0 s out1 cur1 J1" "same_numbers J J1" "rest (j_dev J1) = rest (j_dev J)"
    by (rule pad_four [OF ok st ne])
  obtain J2 where J2: "prep_eraseblock H V J1 = Some (Done (), J2)"
    "streams V mem bad m0 s out1 (if cur1 = [] then CLEANMARKER H else cur1) J2"
    "same_numbers J1 J2" "rest (j_dev J2) = rest (j_dev J1)"
    by (rule prep_marks [OF ok J1(3)])
  have "laid H ?E (nodes @ [n]) out1 (if cur1 = [] then CLEANMARKER H else cur1)"
    by (rule laid_node [OF laid align4_le [OF E(2) streams_fields(3) [OF st]] E(1) J1(2)])
  then show ?thesis using that [OF J1(1) J2(1,2)] same_numbers_trans [OF J1(4) J2(3)] J1(5) J2(4) by simp
qed

definition file_node :: "host \<Rightarrow> nat \<Rightarrow> file_stat \<Rightarrow> nat \<Rightarrow> nat \<Rightarrow> byte list \<Rightarrow> byte list" where
  "file_node H ino st version off bs = inode_node H (length bs) ino version st off (length bs) (unat (crc32 0 bs)) @ bs"

lemma add_chunk_ok:
  assumes ok: "jffs2_dev V mem bad rd rest" and st: "streams V mem bad m0 s out cur J" and laid: "laid H (v_erasesize V) nodes out cur"
    and room: "length cur + 68 + length bs \<le> v_erasesize V"
  obtains J' out' cur' where "add_chunk H V ino stt off bs J = Some (Done (), J')" "streams V mem bad m0 s out' cur' J'"
    "laid H (v_erasesize V) (nodes @ [file_node H ino stt (add32 (j_last_version J) 1) off bs]) out' cur'"
    "same_numbers (J\<lparr>j_last_version := add32 (j_last_version J) 1\<rparr>) J'" "rest (j_dev J') = rest (j_dev J)"
proof -
  define J0 where "J0 = J\<lparr>j_last_version := add32 (j_last_version J) 1\<rparr>"
  define ri where "ri = inode_node H (length bs) ino (add32 (j_last_version J) 1) stt off (length bs) (unat (crc32 0 bs))"
  have fit: "length cur + length ri \<le> v_erasesize V" "length (cur @ ri) + length bs \<le> v_erasesize V"
    using room by (simp_all add: ri_def)
  have st0: "streams V mem bad m0 s out cur J0" using st by (simp add: J0_def)
  obtain J1 where J1: "add_data H V ri J0 = Some (Done (), J1)" "streams V mem bad m0 s out (cur @ ri) J1"
    "same_numbers J0 J1" "rest (j_dev J1) = rest (j_dev J0)"
    by (rule add_data_fits [OF st0 fit(1)])
  obtain J2 where J2: "add_data H V bs J1 = Some (Done (), J2)" "streams V mem bad m0 s out ((cur @ ri) @ bs) J2"
    "same_numbers J1 J2" "rest (j_dev J2) = rest (j_dev J1)"
    by (rule add_data_fits [OF J1(2) fit(2)])
  have st2: "streams V mem bad m0 s out (cur @ ri @ bs) J2" using J2(2) by simp
  obtain J3 J4 out' cur' where J4: "pad V 4 J2 = Some (Done (), J3)" "prep_eraseblock H V J3 = Some (Done (), J4)"
    "streams V mem bad m0 s out' cur' J4" "laid H (v_erasesize V) (nodes @ [ri @ bs]) out' cur'"
    "same_numbers J2 J4" "rest (j_dev J4) = rest (j_dev J2)"
    by (rule node_end [OF ok st2 laid])
  have "add_chunk H V ino stt off bs J = Some (Done (), J4)"
    using J1(1) J2(1) J4(1,2) by (simp add: add_chunk_def Let_def ri_def J0_def)
  moreover have "same_numbers J0 J4" using same_numbers_trans J1(3) J2(3) J4(5) by blast
  ultimately show ?thesis using that J4 J2(4) J1(4) by (simp add: ri_def file_node_def J0_def)
qed

text \<open>The nodes of a file in pieces.\<close>

fun file_nodes :: "host \<Rightarrow> nat \<Rightarrow> file_stat \<Rightarrow> nat \<Rightarrow> nat \<Rightarrow> byte list list \<Rightarrow> byte list list" where
  "file_nodes H ino st version off [] = []"
| "file_nodes H ino st version off (bs # rest) =
     file_node H ino st (add32 version 1) off bs # file_nodes H ino st (add32 version 1) (off + length bs) rest"

lemma add_file_loop_ok:
  assumes ok: "jffs2_dev V mem bad (i_read F) rest"
  shows "\<lbrakk>streams V mem bad m0 s out cur J; laid H (v_erasesize V) nodes out cur\<rbrakk> \<Longrightarrow>
    \<exists>J' out' cur' chunks. add_file_loop H V F ino stt off J = Some (Done (), J') \<and> streams V mem bad m0 s out' cur' J'
      \<and> laid H (v_erasesize V) (nodes @ file_nodes H ino stt (j_last_version J) off chunks) out' cur'
      \<and> concat chunks = rest (j_dev J) \<and> (\<forall>c \<in> set chunks. c \<noteq> [] \<and> length c \<le> 4096) \<and> rest (j_dev J') = []"
proof (induction "length (rest (j_dev J))" arbitrary: out cur J nodes off rule: less_induct)
  case less
  let ?E = "v_erasesize V"
  obtain J1 out1 cur1 where J1: "data_room H V J = Some (Done (?E - length cur1 - 68), J1)"
    "streams V mem bad m0 s out1 cur1 J1" "laid H ?E nodes out1 cur1" "length cur1 + 196 < ?E"
    "same_numbers J J1" "rest (j_dev J1) = rest (j_dev J)"
    by (rule data_room_ok [OF ok less.prems])
  define n where "n = min (?E - (length cur1 + 68)) 4096"
  have n: "0 < n" "n \<le> 4096" "length cur1 + 68 + n \<le> ?E" using J1(4) by (simp_all add: n_def)
  have reads: "\<forall>d n. 0 < n \<longrightarrow> (\<exists>k d'. k \<le> n \<and> k \<le> length (rest d) \<and> (rest d \<noteq> [] \<longrightarrow> 0 < k)
        \<and> i_read F d n = (int k, take k (rest d), d') \<and> rest d' = drop k (rest d) \<and> mem d' = mem d)"
    using ok by (simp add: jffs2_dev_def reads_all_def)
  obtain k d where k: "k \<le> n" "k \<le> length (rest (j_dev J1))" "rest (j_dev J1) \<noteq> [] \<longrightarrow> 0 < k"
    "i_read F (j_dev J1) n = (int k, take k (rest (j_dev J1)), d)" "rest d = drop k (rest (j_dev J1))" "mem d = mem (j_dev J1)"
    using reads [rule_format, OF n(1), of "j_dev J1"] by blast
  define J2 where "J2 = J1\<lparr>j_dev := d\<rparr>"
  define bs where "bs = take k (rest (j_dev J1))"
  have st2: "streams V mem bad m0 s out1 cur1 J2" unfolding J2_def by (rule streams_dev [OF J1(2) k(6)])
  have step: "add_file_loop H V F ino stt off J = (if k = 0 then Some (Done (), J2) else do {
      r \<leftarrow> add_chunk H V ino stt off bs J2;
      then_do r (\<lambda>_ J. add_file_loop H V F ino stt (off + length bs) J) })"
    using J1(1) k(4) [folded bs_def] by (subst add_file_loop.simps) (simp add: n_def [symmetric] Let_def J2_def)
  show ?case
  proof (cases "k = 0")
    case True
    then have "rest (j_dev J) = []" using k(3) J1(6) by simp
    then show ?thesis using True step st2 J1(3) k(5) J1(6)
      by (intro exI [of _ J2] exI [of _ out1] exI [of _ cur1] exI [of _ "[]"]) (simp add: J2_def)
  next
    case False
    have lbs: "length bs = k" using k(2) by (simp add: bs_def)
    have fit: "length cur1 + 68 + length bs \<le> ?E" using lbs k(1) n(3) by simp
    obtain J3 out3 cur3 where J3: "add_chunk H V ino stt off bs J2 = Some (Done (), J3)" "streams V mem bad m0 s out3 cur3 J3"
      "laid H ?E (nodes @ [file_node H ino stt (add32 (j_last_version J2) 1) off bs]) out3 cur3"
      "same_numbers (J2\<lparr>j_last_version := add32 (j_last_version J2) 1\<rparr>) J3" "rest (j_dev J3) = rest (j_dev J2)"
      by (rule add_chunk_ok [OF ok st2 J1(3) fit])
    have rest3: "rest (j_dev J3) = drop k (rest (j_dev J))" using J3(5) k(5) J1(6) by (simp add: J2_def)
    then have "length (rest (j_dev J3)) < length (rest (j_dev J))" using False k(2) J1(6) by simp
    then obtain J4 out4 cur4 chunks where J4: "add_file_loop H V F ino stt (off + length bs) J3 = Some (Done (), J4)"
      "streams V mem bad m0 s out4 cur4 J4"
      "laid H ?E ((nodes @ [file_node H ino stt (add32 (j_last_version J2) 1) off bs])
         @ file_nodes H ino stt (j_last_version J3) (off + length bs) chunks) out4 cur4"
      "concat chunks = rest (j_dev J3)" "\<forall>c \<in> set chunks. c \<noteq> [] \<and> length c \<le> 4096" "rest (j_dev J4) = []"
      using less.hyps [OF _ J3(2,3)] by blast
    have v: "j_last_version J2 = j_last_version J" "j_last_version J3 = add32 (j_last_version J) 1"
      using J3(4) J1(5) by (simp_all add: same_numbers_def J2_def)
    have "concat (bs # chunks) = rest (j_dev J)" using J4(4) rest3 J1(6) by (simp add: bs_def)
    moreover have "bs \<noteq> []" "length bs \<le> 4096" using False lbs k(1) n(2) by auto
    ultimately show ?thesis using J4 False step J3(1) v
      by (intro exI [of _ J4] exI [of _ out4] exI [of _ cur4] exI [of _ "bs # chunks"]) simp
  qed
qed

section \<open>The file\<close>

lemma add_dirent_first:
  assumes ok: "jffs2_dev V mem bad rd rest" and st: "streams V mem bad m0 s [] [] J"
    and H: "4294967296 \<le> h_size_t H" "v_erasesize V \<le> 2147483648" and name: "length name < 256"
  obtains J' where "add_dirent H V name typ parent J = Some (Done (add32 (j_last_ino J) 1), J')"
    "streams V mem bad m0 s [] (layout H [dirent_node H typ parent (j_last_version J) (add32 (j_last_ino J) 1) name @ name]) J'"
    "length (layout H [dirent_node H typ parent (j_last_version J) (add32 (j_last_ino J) 1) name @ name]) < v_erasesize V"
    "same_numbers (J\<lparr>j_last_ino := add32 (add32 (j_last_ino J) 1) 1, j_last_version := add32 (j_last_version J) 1\<rparr>) J'"
    "rest (j_dev J') = rest (j_dev J)"
proof -
  let ?E = "v_erasesize V"
  define node where "node = dirent_node H typ parent (j_last_version J) (add32 (j_last_ino J) 1) name @ name"
  have E: "512 \<le> ?E" using ok by (simp add: jffs2_dev_def)
  have ofs: "j_ofs J = 0" using streams_fields(1) [OF st] by simp
  have "sz H (int (j_ofs J) - int ?E) = h_size_t H - ?E"
  proof -
    have "(- int ?E) mod int (h_size_t H) = int (h_size_t H) - int ?E"
      using E H by (simp add: zmod_zminus1_eq_if)
    then show ?thesis using H ofs by (simp add: sz_def nat_diff_distrib)
  qed
  then have room: "\<not> sz H (int (j_ofs J) - int ?E) < 40 + length name" using H name by simp
  obtain J1 where J1: "prep_eraseblock H V J = Some (Done (), J1)" "streams V mem bad m0 s [] (if [] = ([] :: byte list) then CLEANMARKER H else []) J1"
    "same_numbers J J1" "rest (j_dev J1) = rest (j_dev J)"
    by (rule prep_marks [OF ok st])
  define J2 where "J2 = J1\<lparr>j_last_ino := add32 (add32 (j_last_ino J) 1) 1, j_last_version := add32 (j_last_version J) 1\<rparr>"
  have st2: "streams V mem bad m0 s [] (CLEANMARKER H) J2" using J1(2) by (simp add: J2_def)
  have fit: "length (CLEANMARKER H) + length node \<le> ?E" using E name by (simp add: node_def)
  obtain buf where buf: "memput (j_buf J2) (j_ofs J2) node = Some buf"
    "streams V mem bad m0 s [] (CLEANMARKER H @ node) (J2\<lparr>j_buf := buf, j_ofs := j_ofs J2 + length node\<rparr>)"
    by (rule streams_put [OF st2 fit])
  have lay: "CLEANMARKER H @ node = layout H [] @ node" "align4 (CLEANMARKER H @ node) = layout H [node]"
    using align4_layout [of H "[]" node] by (simp_all add: layout_def)
  have len: "length (CLEANMARKER H @ node) = 52 + length name" by (simp add: node_def)
  have "length (align4 (CLEANMARKER H @ node)) < length (CLEANMARKER H @ node) + 4" by (simp only: length_align4)
  then have small: "length (layout H [node]) < ?E" unfolding lay(2) len using E name by linarith
  have ne: "CLEANMARKER H @ node \<noteq> []" by simp
  obtain J3 out' cur' where J3: "pad V 4 (J2\<lparr>j_buf := buf, j_ofs := j_ofs J2 + length node\<rparr>) = Some (Done (), J3)"
    "(out', cur') = settle ?E ([], CLEANMARKER H @ node)" "streams V mem bad m0 s out' cur' J3"
    "same_numbers (J2\<lparr>j_buf := buf, j_ofs := j_ofs J2 + length node\<rparr>) J3"
    "rest (j_dev J3) = rest (j_dev (J2\<lparr>j_buf := buf, j_ofs := j_ofs J2 + length node\<rparr>))"
    by (rule pad_four [OF ok buf(2) ne])
  have "out' = []" "cur' = layout H [node]" using J3(2) small by (simp_all add: settle_def lay(2))
  moreover have "add_dirent H V name typ parent J = Some (Done (add32 (j_last_ino J) 1), J3)"
  proof -
    have "length node = 40 + length name" "length name mod 256 = length name" using name by (simp_all add: node_def)
    then have "J2\<lparr>j_buf := buf, j_ofs := j_ofs J2 + length node\<rparr> = J2\<lparr>j_buf := buf, j_ofs := j_ofs J2 + 40 + length name mod 256\<rparr>" by simp
    then have "pad V 4 (J2\<lparr>j_buf := buf, j_ofs := j_ofs J2 + 40 + length name mod 256\<rparr>) = Some (Done (), J3)" using J3(1) by simp
    moreover have "j_last_ino J1 = j_last_ino J" "j_last_version J1 = j_last_version J" using J1(3) by (simp_all add: same_numbers_def)
    ultimately show ?thesis using room J1(1) buf(1) [unfolded node_def]
      by (simp add: add_dirent_def Let_def J2_def del: mod_less)
  qed
  ultimately show ?thesis using that [of J3] J3 small J1(4) J1(3) by (simp add: node_def J2_def same_numbers_def)
qed

lemma add_eof_ok:
  assumes ok: "jffs2_dev V mem bad rd rest" and st: "streams V mem bad m0 s out cur J" and laid: "laid H (v_erasesize V) nodes out cur"
  obtains J' gs where "add_eof H V J = Some (Done (), J')" "concat gs = nodes" "\<forall>g \<in> set gs. length (layout H g) \<le> v_erasesize V"
    "\<forall>g \<in> set (butlast gs). v_erasesize V \<le> length (layout H g) + 196"
    "streams V mem bad m0 s (concat (map (block_image H (v_erasesize V)) gs) @ block_fill (v_erasesize V) JFFS2_EOF) [] J'"
    "rest (j_dev J') = rest (j_dev J)"
proof -
  let ?E = "v_erasesize V"
  have cur: "cur \<noteq> []" using laid_cur [OF laid] by simp
  obtain gs g where g: "out = concat (map (block_image H ?E) gs)" "cur = layout H g" "nodes = concat gs @ g"
    "\<forall>b \<in> set gs. length (layout H b) \<le> ?E \<and> ?E \<le> length (layout H b) + 196" "length cur < ?E"
    using laid unfolding laid_def by blast
  obtain J1 where J1: "pad V ?E J = Some (Done (), J1)" "streams V mem bad m0 s (out @ block_fill ?E cur) [] J1"
    "same_numbers J J1" "rest (j_dev J1) = rest (j_dev J)"
    by (rule pad_block [OF ok st cur])
  have fit: "length ([] :: byte list) + length JFFS2_EOF \<le> ?E" using ok by (simp add: jffs2_dev_def JFFS2_EOF_def)
  obtain J2 where J2: "add_data H V JFFS2_EOF J1 = Some (Done (), J2)" "streams V mem bad m0 s (out @ block_fill ?E cur) ([] @ JFFS2_EOF) J2"
    "same_numbers J1 J2" "rest (j_dev J2) = rest (j_dev J1)"
    by (rule add_data_fits [OF J1(2) fit])
  have ne: "[] @ JFFS2_EOF \<noteq> []" by (simp add: JFFS2_EOF_def)
  obtain J3 where J3: "pad V ?E J2 = Some (Done (), J3)"
    "streams V mem bad m0 s ((out @ block_fill ?E cur) @ block_fill ?E ([] @ JFFS2_EOF)) [] J3"
    "same_numbers J2 J3" "rest (j_dev J3) = rest (j_dev J2)"
    by (rule pad_block [OF ok J2(2) ne])
  have "add_eof H V J = Some (Done (), J3)" using J1(1) J2(1) J3(1) by (simp add: add_eof_def)
  then show ?thesis using that [of J3 "gs @ [g]"] g J3 J2(4) J1(4) by (auto simp: block_image_def)
qed

section \<open>Reading the nodes\<close>

text \<open>
  What JFFS2 asks of a node, by the offsets of its fields: the magic number, the type, its length, and the checksums of the
  head, the node and the name or the data.
\<close>

definition dirent_right :: "host \<Rightarrow> byte list \<Rightarrow> bool" where
  "dirent_right H n \<longleftrightarrow> 40 \<le> length n \<and> get_cpu16 H n = 0x1985 \<and> get_cpu16 H (drop 2 n) = 0xE001 \<and> cpu32 H (drop 4 n) = length n
     \<and> cpu32 H (drop 8 n) = unat (crc32 0 (take 8 n)) \<and> unat (n ! 28) = length n - 40
     \<and> cpu32 H (drop 32 n) = unat (crc32 0 (take 32 n)) \<and> cpu32 H (drop 36 n) = unat (crc32 0 (drop 40 n))"

definition inode_right :: "host \<Rightarrow> byte list \<Rightarrow> bool" where
  "inode_right H n \<longleftrightarrow> 68 \<le> length n \<and> get_cpu16 H n = 0x1985 \<and> get_cpu16 H (drop 2 n) = 0xE002 \<and> cpu32 H (drop 4 n) = length n
     \<and> cpu32 H (drop 8 n) = unat (crc32 0 (take 8 n)) \<and> cpu32 H (drop 52 n) = length n - 68
     \<and> cpu32 H (drop 60 n) = unat (crc32 0 (drop 68 n)) \<and> cpu32 H (drop 64 n) = unat (crc32 0 (take 60 n))"

text \<open>Nodes of the file \<open>ino\<close> whose data follow each other from \<open>off\<close> on.\<close>

fun in_order :: "host \<Rightarrow> nat \<Rightarrow> nat \<Rightarrow> byte list list \<Rightarrow> bool" where
  "in_order H ino off [] = True"
| "in_order H ino off (n # ns) \<longleftrightarrow>
     inode_right H n \<and> cpu32 H (drop 12 n) = ino \<and> cpu32 H (drop 44 n) = off \<and> in_order H ino (off + (length n - 68)) ns"

lemma cpu16_put: "n < 65536 \<Longrightarrow> get_cpu16 H (put_cpu16 H n @ xs) = n"
  by (simp add: get_cpu16_def put_cpu16_def get_be16_def le_nat_le_bytes)

lemma cpu32_crc: "cpu32 H (jffs2_crc H bs @ xs) = unat (crc32 0 bs)" "cpu32 H (jffs2_crc H bs) = unat (crc32 0 bs)"
  using unsigned_less [of "crc32 0 bs", where ?'a = nat] by (simp_all add: jffs2_crc_def cpu32_put)

lemma file_node_right:
  assumes "length bs \<le> 4096" "off < 4294967296" "ino < 4294967296"
  shows "inode_right H (file_node H ino st version off bs)" "cpu32 H (drop 12 (file_node H ino st version off bs)) = ino"
    "cpu32 H (drop 44 (file_node H ino st version off bs)) = off" "drop 68 (file_node H ino st version off bs) = bs"
    "length (file_node H ino st version off bs) = 68 + length bs"
  using assms unsigned_less [of "crc32 0 bs", where ?'a = nat]
  by (simp_all add: inode_right_def file_node_def inode_node_def Let_def cpu32_put cpu16_put cpu32_crc)

lemma dirent_node_right:
  assumes "length name < 256" "ino < 4294967296" "pino < 4294967296"
  shows "dirent_right H (dirent_node H typ pino version ino name @ name)" "cpu32 H (drop 12 (dirent_node H typ pino version ino name @ name)) = pino"
    "cpu32 H (drop 20 (dirent_node H typ pino version ino name @ name)) = ino" "drop 40 (dirent_node H typ pino version ino name @ name) = name"
  using assms by (simp_all add: dirent_right_def dirent_node_def Let_def cpu32_put cpu16_put cpu32_crc nth_append unat_of_nat)

lemma file_nodes_in_order:
  "\<lbrakk>\<forall>c \<in> set chunks. length c \<le> 4096; off + length (concat chunks) < 4294967296; ino < 4294967296\<rbrakk> \<Longrightarrow>
    in_order H ino off (file_nodes H ino st version off chunks)
    \<and> concat (map (drop 68) (file_nodes H ino st version off chunks)) = concat chunks"
proof (induction chunks arbitrary: version off)
  case (Cons bs chunks)
  then have "in_order H ino (off + length bs) (file_nodes H ino st (add32 version 1) (off + length bs) chunks)
    \<and> concat (map (drop 68) (file_nodes H ino st (add32 version 1) (off + length bs) chunks)) = concat chunks"
    by (intro Cons.IH) simp_all
  moreover have "length bs \<le> 4096" "off < 4294967296" using Cons.prems by auto
  ultimately show ?case using Cons.prems(3) by (simp add: file_node_right)
qed simp

section \<open>Putting a file in\<close>

lemma add32_less [simp]: "add32 x y < 4294967296"
  by (simp add: add32_def u32_of_def)

text \<open>
  Nodes for a file: an entry for its name in the directory \<open>pino\<close>, and nodes with its contents.
\<close>

definition file_entry :: "host \<Rightarrow> nat \<Rightarrow> nat \<Rightarrow> byte list \<Rightarrow> byte list \<Rightarrow> byte list list \<Rightarrow> bool" where
  "file_entry H pino ino name content nodes \<longleftrightarrow>
     (\<exists>de ns. nodes = de # ns \<and> dirent_right H de \<and> cpu32 H (drop 12 de) = pino \<and> cpu32 H (drop 20 de) = ino \<and> drop 40 de = name
        \<and> in_order H ino 0 ns \<and> concat (map (drop 68) ns) = content)"

text \<open>How many blocks the nodes take at most.\<close>

lemma blocks_bound:
  assumes "\<forall>g \<in> set gs. es \<le> length (layout H g) + 196"
  shows "length gs * (es - 208) \<le> sum_list (map (\<lambda>n. length (align4 n)) (concat gs))"
  using assms
proof (induction gs)
  case (Cons g gs)
  have "length (layout H g) = 12 + sum_list (map (\<lambda>n. length (align4 n)) g)" by (simp add: layout_def length_concat comp_def)
  moreover have "es \<le> length (layout H g) + 196" using Cons.prems by simp
  ultimately have "es - 208 \<le> sum_list (map (\<lambda>n. length (align4 n)) g)" by linarith
  then show ?case using Cons by (auto simp: add_mono)
qed simp

lemma file_nodes_bytes: "\<forall>c \<in> set chunks. c \<noteq> [] \<Longrightarrow>
    sum_list (map (\<lambda>n. length (align4 n)) (file_nodes H ino st version off chunks)) \<le> 72 * length (concat chunks)"
proof (induction chunks arbitrary: version off)
  case (Cons bs chunks)
  have "1 \<le> length bs" using Cons.prems by (cases bs) simp_all
  moreover have "length (align4 (file_node H ino st (add32 version 1) off bs)) < 72 + length bs"
    by (simp add: length_align4 file_node_def)
  ultimately show ?case using Cons.IH [of "add32 version 1" "off + length bs"] Cons.prems by simp
qed simp

lemma replace_jffs2_file:
  assumes ok: "jffs2_dev V mem bad (i_read F) rest" and H: "4294967296 \<le> h_size_t H" "v_erasesize V \<le> 2147483648"
    and F: "i_stat F = Some stt" "i_opens F" "length (base_name (i_name F)) < 256" "length (rest (j_dev J)) < 4294967296"
    and J: "length fresh = v_erasesize V" "j_ofs J = 0" "s * v_erasesize V \<le> v_size V"
  obtains J' gs n where "mtd_replace_jffs2 H V F fresh (s * v_erasesize V) (s * v_erasesize V) J = Some (Done (int (n * v_erasesize V)), J')"
    "file_entry H 1 (add32 (if j_last_ino J = 0 then 1 else j_last_ino J) 1) (base_name (i_name F)) (rest (j_dev J)) (concat gs)"
    "\<forall>g \<in> set gs. length (layout H g) \<le> v_erasesize V"
    "(length gs - 1) * (v_erasesize V - 208) \<le> 300 + 72 * length (rest (j_dev J))"
    "(length gs + 1) * v_erasesize V \<le> room V bad s \<Longrightarrow> (s + n) * v_erasesize V \<le> v_size V
       \<and> good_bytes V bad (mem (j_dev J')) (s * v_erasesize V) (n * v_erasesize V)
         = concat (map (block_image H (v_erasesize V)) gs) @ block_fill (v_erasesize V) JFFS2_EOF
       \<and> (\<forall>a. \<not> (s * v_erasesize V \<le> a \<and> a < (s + n) * v_erasesize V
         \<and> good_block V bad (a div v_erasesize V * v_erasesize V)) \<longrightarrow> mem (j_dev J') a = mem (j_dev J) a)"
proof -
  let ?E = "v_erasesize V" and ?name = "base_name (i_name F)"
  define ino where "ino = add32 (if j_last_ino J = 0 then 1 else j_last_ino J) 1"
  define J0 where "J0 = J\<lparr>j_pos := s * ?E, j_mtdofs := s * ?E, j_buf := fresh, j_target_ino := 1,
                j_last_ino := (if j_last_ino J = 0 then 1 else j_last_ino J)\<rparr>"
  have st0: "streams V mem bad (mem (j_dev J)) s [] [] J0"
    unfolding streams_def using J by (intro conjI exI [of _ s]) (simp_all add: J0_def good_bytes_def)
  have ino: "add32 (j_last_ino J0) 1 = ino" by (simp add: J0_def ino_def)
  define de where "de = dirent_node H 8 1 (j_last_version J0) ino ?name @ ?name"
  obtain J1 where J1: "add_dirent H V ?name 8 1 J0 = Some (Done ino, J1)"
    "streams V mem bad (mem (j_dev J)) s [] (layout H [de]) J1" "length (layout H [de]) < ?E" "rest (j_dev J1) = rest (j_dev J0)"
    using add_dirent_first [OF ok st0 H F(3), of 8 1] unfolding ino de_def by blast
  have laid1: "laid H ?E [de] [] (layout H [de])"
    unfolding laid_def using J1(3) by (intro exI [of _ "[]"] exI [of _ "[de]"]) simp
  obtain J2 out2 cur2 chunks where J2: "add_file_loop H V F ino stt 0 J1 = Some (Done (), J2)"
    "streams V mem bad (mem (j_dev J)) s out2 cur2 J2"
    "laid H ?E ([de] @ file_nodes H ino stt (j_last_version J1) 0 chunks) out2 cur2"
    "concat chunks = rest (j_dev J1)" "\<forall>c \<in> set chunks. c \<noteq> [] \<and> length c \<le> 4096"
    using add_file_loop_ok [OF ok J1(2) laid1, of ino stt 0] by blast
  obtain J3 gs where J3: "add_eof H V J2 = Some (Done (), J3)" "concat gs = [de] @ file_nodes H ino stt (j_last_version J1) 0 chunks"
    "\<forall>g \<in> set gs. length (layout H g) \<le> ?E" "\<forall>g \<in> set (butlast gs). ?E \<le> length (layout H g) + 196"
    "streams V mem bad (mem (j_dev J)) s (concat (map (block_image H ?E) gs) @ block_fill ?E JFFS2_EOF) [] J3"
    by (rule add_eof_ok [OF ok J2(2,3)])
  define image where "image = concat (map (block_image H ?E) gs) @ block_fill ?E JFFS2_EOF"
  have "\<forall>g \<in> set gs. length (block_image H ?E g) = ?E" using J3(3) by (simp add: block_image_def block_fill_def)
  then have "length (concat (map (block_image H ?E) gs)) = length gs * ?E" by (induction gs) simp_all
  moreover have "length JFFS2_EOF = 4" by (simp add: JFFS2_EOF_def)
  then have "length (block_fill ?E JFFS2_EOF) = ?E" using ok by (simp add: jffs2_dev_def block_fill_def)
  ultimately have len: "length image = (length gs + 1) * ?E" by (simp add: image_def)
  obtain k where k: "s \<le> k" "j_mtdofs J3 = k * ?E" and upto: "length image \<le> room V bad s \<Longrightarrow> k * ?E \<le> v_size V \<and> j_pos J3 = k * ?E
      \<and> good_bytes V bad (mem (j_dev J3)) (s * ?E) ((k - s) * ?E) = image
      \<and> (\<forall>a. \<not> (s * ?E \<le> a \<and> a < k * ?E \<and> good_block V bad (a div ?E * ?E)) \<longrightarrow> mem (j_dev J3) a = mem (j_dev J) a)"
    using J3(5) unfolding streams_def image_def by blast
  have add: "add_file H V F 1 J0 = Some (Done (), J2)"
    using F(1,2) J1(1) J2(1) by (simp add: add_file_def)
  have ran: "mtd_replace_jffs2 H V F fresh (s * ?E) (s * ?E) J = Some (Done (int (j_mtdofs J3) - int (s * ?E)), J3)"
    using add J3(1) by (simp add: mtd_replace_jffs2_def Let_def J0_def)
  have content: "concat chunks = rest (j_dev J)" using J2(4) J1(4) by (simp add: J0_def)
  have "in_order H ino 0 (file_nodes H ino stt (j_last_version J1) 0 chunks)
    \<and> concat (map (drop 68) (file_nodes H ino stt (j_last_version J1) 0 chunks)) = concat chunks"
    by (rule file_nodes_in_order) (use J2(5) F(4) content in \<open>simp_all add: ino_def\<close>)
  then have entry: "file_entry H 1 ino ?name (rest (j_dev J)) (concat gs)"
    unfolding file_entry_def J3(2) content [symmetric]
    using dirent_node_right [OF F(3), of ino 1 H 8 "j_last_version J0"] by (simp add: de_def ino_def)
  have ks: "s + (k - s) = k" using k(1) by simp
  have "int (k * ?E) - int (s * ?E) = int ((k - s) * ?E)"
    using mult_le_mono1 [OF k(1), of ?E] by (simp add: diff_mult_distrib of_nat_diff del: of_nat_mult)
  then have "mtd_replace_jffs2 H V F fresh (s * ?E) (s * ?E) J = Some (Done (int ((k - s) * ?E)), J3)"
    using ran by (simp only: k(2))
  moreover have "(length gs - 1) * (?E - 208) \<le> 300 + 72 * length (rest (j_dev J))"
  proof -
    define total where "total = sum_list (map (\<lambda>n. length (align4 n)) (concat gs))"
    have "sum_list (map (\<lambda>n. length (align4 n)) (concat (butlast gs))) \<le> total"
      unfolding total_def by (cases gs rule: rev_cases) simp_all
    then have "length (butlast gs) * (?E - 208) \<le> total" using blocks_bound [OF J3(4)] by linarith
    moreover have "total \<le> 300 + 72 * length (concat chunks)"
    proof -
      have "length (align4 de) < 44 + length ?name" by (simp add: length_align4 de_def)
      then show ?thesis using file_nodes_bytes [of chunks H ino stt "j_last_version J1" 0] J2(5) F(3) by (simp add: total_def J3(2))
    qed
    ultimately show ?thesis using content by simp
  qed
  moreover note entry [unfolded ino_def] J3(3) upto [unfolded len, unfolded image_def]
  ultimately show ?thesis using ks that [of "k - s" J3 gs] by metis
qed

end
