(* ===== verification/Mtd_Tag.thy ===== *)
theory Mtd_Tag
  imports Mtd_Trx
begin

text \<open>
  \<open>imagetag.c\<close>: the tag at the start of a Broadcom image. It has the functions of \<open>trx.c\<close> under the same names, and the
  builds for bcm63xx and bmips link it in the place of \<open>trx.c\<close>.
\<close>

section \<open>Numbers in text\<close>

text \<open>\<open>strtoul\<close> to the base 10. An \<open>unsigned long\<close> is as wide as a \<open>size_t\<close>.\<close>

definition is_space :: "byte \<Rightarrow> bool" where
  "is_space c \<longleftrightarrow> c = 32 \<or> (9 \<le> c \<and> c \<le> 13)"

fun digits :: "nat \<Rightarrow> byte list \<Rightarrow> nat" where
  "digits n [] = n"
| "digits n (c # cs) = (if 48 \<le> c \<and> c \<le> 57 then digits (10 * n + (unat c - 48)) cs else n)"

definition strtoul10 :: "host \<Rightarrow> byte list \<Rightarrow> nat" where
  "strtoul10 H s =
     (let s = dropWhile is_space s;
          sign = (s \<noteq> [] \<and> (hd s = 43 \<or> hd s = 45));
          n = digits 0 (if sign then tl s else s)
      in if n \<ge> h_size_t H then h_size_t H - 1
         else if sign \<and> hd s = 45 then sz H (- int n)
         else n)"

text \<open>The text in a field ends at a zero byte or at the end of the field. \<open>i\<close> is the number of the allocation.\<close>

definition field_text :: "byte list \<Rightarrow> byte list" where
  "field_text bs = takeWhile (\<lambda>c. c \<noteq> 0) bs"

definition strntoul :: "host \<Rightarrow> nat \<Rightarrow> byte list \<Rightarrow> nat \<Rightarrow> nat" where
  "strntoul H i str len = (if h_alloc H i then u32_of (int (strtoul10 H (field_text (take len str)))) else 0)"

definition strncpy_bytes :: "byte list \<Rightarrow> nat \<Rightarrow> byte list" where
  "strncpy_bytes str len = field_text (take len str) @ replicate (len - length (field_text (take len str))) 0"

section \<open>The checksum of a range\<close>

text \<open>The file is open, so its descriptor is not 0. What a failed read has left in the buffer does not count.\<close>

definition read_at :: "'d dev \<Rightarrow> 'd \<Rightarrow> int \<Rightarrow> nat \<Rightarrow> int \<times> byte list \<times> 'd" where
  "read_at V d offset n = (if offset < 0 then (- 1, [], d) else v_pread V d (nat offset) n)"

partial_function (option) compute_crc32 :: "host \<Rightarrow> 'd dev \<Rightarrow> 32 word \<Rightarrow> int \<Rightarrow> nat \<Rightarrow> 'd \<Rightarrow> (32 word \<times> 'd) option" where
  "compute_crc32 H V crc offset compute_len d =
     (if compute_len \<ge> 1024 then
        (case read_at V d offset 1024 of
           (res, bs, d) \<Rightarrow>
             compute_crc32 H V (crc32 crc (take (nat res) bs)) (offset + res) (sz H (int compute_len - res)) d)
      else if compute_len > 0 then
        (case read_at V d offset compute_len of (res, bs, d) \<Rightarrow> Some (crc32 crc (take (nat res) bs), d))
      else Some (crc, d))"

section \<open>The tag\<close>

text \<open>
  The fields are given by their offsets: \<open>total_length\<close> 62, \<open>cfe_length\<close> 84, \<open>root_length\<close> 106, \<open>kernel_length\<close> 128, \<open>fskernel_crc\<close>
  196, \<open>image_crc\<close> 216, \<open>rootfs_crc\<close> 220, \<open>kernel_crc\<close> 224, \<open>header_crc\<close> 236.
\<close>

definition retag :: "host \<Rightarrow> byte list \<Rightarrow> byte list" where
  "retag H tag =
     (let tag = set_field 106 [48, 0] tag;
          tag = set_field 62 (strncpy_bytes (drop 128 tag) 10) tag;
          tag = set_field 216 (take 4 (drop 224 tag)) tag;
          tag = set_field 196 (take 4 (drop 224 tag)) tag;
          tag = set_field 220 (put_cpu32 H 0xFFFFFFFF) tag
      in set_field 236 (put_cpu32 H (unat (crc32 0xFFFFFFFF (take 236 tag)))) tag)"

text \<open>\<open>trx_fixup\<close> of this file; the tag is in the mapping of the block device and its checksum is computed from \<open>fd\<close>.\<close>

definition tag_fixup :: "host \<Rightarrow> 'd dev option \<Rightarrow> 'd dev option \<Rightarrow> 'd \<Rightarrow> (int outcome \<times> 'd) option" where
  "tag_fixup H dv block_dev d =
     (case dv of
        None \<Rightarrow> Some (Done (- 1), d)
      | Some V \<Rightarrow>
          if v_size V = 0 then Some (Done (- 1), d)
          else (case block_dev of
              None \<Rightarrow> Some (Done (- 1), d)
            | Some B \<Rightarrow>
                (case v_pread B d 0 (v_size V) of
                   (_, m, d) \<Rightarrow> do {
                     tag \<leftarrow> memget m 0 240;
                     if strntoul H 0 (drop 84 tag) 10 \<noteq> 0 then Some (Exit, d)
                     else do {
                       (crc, d) \<leftarrow> compute_crc32 H V 0xFFFFFFFF 0 236 d;
                       if unat crc \<noteq> cpu32 H (drop 236 tag) then Some (Exit, d)
                       else Some (Done 0, snd (v_pwrite B d 0 (retag H tag)))
                     }
                   })))"

text \<open>\<open>trx_check\<close> of this file. It reads over what is in the buffer; a failed read is not noticed, as -1 is compared as a \<open>size_t\<close>.\<close>

definition tag_check ::
  "host \<Rightarrow> ('d \<Rightarrow> nat \<Rightarrow> int \<times> byte list \<times> 'd) \<Rightarrow> 'd dev option \<Rightarrow> string \<Rightarrow> byte list \<Rightarrow> int \<Rightarrow> 'd \<Rightarrow>
     (int outcome \<times> byte list \<times> int \<times> 'd) option" where
  "tag_check H rd dv name buf len d =
     (if name \<noteq> ''linux'' then Some (Done 1, buf, len, d)
      else (case rd d 256 of
          (len, bs, d) \<Rightarrow> do {
            buf \<leftarrow> memput buf 0 bs;
            if sz H len < 256 then Some (Done 0, buf, len, d)
            else do {
              tag \<leftarrow> memget buf 0 240;
              if cpu32 H (drop 236 tag) \<noteq> unat (crc32buf (take 236 tag)) then Some (Done 0, buf, len, d)
              else (case dv of
                  None \<Rightarrow> Some (Exit, buf, len, d)
                | Some V \<Rightarrow>
                    Some (Done (if v_size V < strntoul H 0 (drop 62 tag) 10 then 0 else 1), buf, len, d))
            }
          }))"

text \<open>\<open>mtd_fixtrx\<close> of this file; \<open>es\<close> is \<open>erasesize\<close> before the device is opened.\<close>

definition tag_fixtrx :: "host \<Rightarrow> nat \<Rightarrow> 'd dev option \<Rightarrow> nat \<Rightarrow> 'd \<Rightarrow> (int outcome \<times> 'd) option" where
  "tag_fixtrx H es dv offset d =
     (let block_offset = block_of es offset; offset = offset - block_offset
      in case dv of
        None \<Rightarrow> Some (Exit, d)
      | Some V \<Rightarrow>
          if sz H (int (block_offset + v_erasesize V)) > v_size V then Some (Exit, d)
          else if \<not> h_alloc H 0 then Some (Exit, d)
          else case v_pread V d block_offset (v_erasesize V) of
            (res, buf, d) \<Rightarrow>
              if res \<noteq> int (v_erasesize V) then Some (Exit, d)
              else do {
                tag \<leftarrow> memget buf offset 240;
                if strntoul H 1 (drop 84 tag) 10 \<noteq> 0 then Some (Exit, d)
                else do {
                  (crc, d) \<leftarrow> compute_crc32 H V 0xFFFFFFFF (int offset) 236 d;
                  if unat crc \<noteq> cpu32 H (drop 236 tag) then Some (Exit, d)
                  else if strntoul H 2 (drop 106 tag) 10 = 0 then Some (Done 0, d)
                  else Some (rewrite_block V block_offset (set_field offset (retag H tag) buf) d)
                }
              })"

section \<open>What fixing a tag achieves\<close>

text \<open>The bytes of the tag that a fix may change.\<close>

definition tag_fields :: "nat \<Rightarrow> bool" where
  "tag_fields i \<longleftrightarrow> (62 \<le> i \<and> i < 72) \<or> i = 106 \<or> i = 107 \<or> (196 \<le> i \<and> i < 200) \<or> (216 \<le> i \<and> i < 224) \<or> (236 \<le> i \<and> i < 240)"

text \<open>The checksum of the tag is right, by the division of CRC-32.\<close>

definition tag_right :: "host \<Rightarrow> (nat \<Rightarrow> byte) \<Rightarrow> bool" where
  "tag_right H m \<longleftrightarrow> cpu32 H (slice m 236 4) = unat (foldl crc_byte 0xFFFFFFFF (slice m 0 236))"

lemma length_strncpy [simp]: "length (strncpy_bytes str len) = len"
proof -
  have "length (field_text (take len str)) \<le> len" unfolding field_text_def by (metis length_takeWhile_le length_take min.cobounded2 le_trans)
  then show ?thesis by (simp add: strncpy_bytes_def)
qed

lemma drop_after_field: "off + length bs \<le> k \<Longrightarrow> k \<le> length hdr \<Longrightarrow> drop k (set_field off bs hdr) = drop k hdr"
  by (rule nth_equalityI) (simp_all add: nth_set_field)

definition retag_body :: "byte list \<Rightarrow> nat \<Rightarrow> byte" where
  "retag_body tag i =
     (if i = 106 then 48 else if i = 107 then 0
      else if 62 \<le> i \<and> i < 72 then strncpy_bytes (drop 128 tag) 10 ! (i - 62)
      else if 216 \<le> i \<and> i < 220 then tag ! (i + 8) else if 196 \<le> i \<and> i < 200 then tag ! (i + 28)
      else if 220 \<le> i \<and> i < 224 then 255 else tag ! i)"

lemma retag_eq:
  assumes tag: "length tag = 240"
  shows "retag H tag = map (retag_body tag) [0..<236] @ put_cpu32 H (unat (crc32 0xFFFFFFFF (map (retag_body tag) [0..<236])))"
proof -
  define t where "t = set_field 220 (put_cpu32 H 0xFFFFFFFF) (set_field 196 (take 4 (drop 224 tag)) (set_field 216 (take 4 (drop 224 tag))
      (set_field 62 (strncpy_bytes (drop 128 tag) 10) (set_field 106 [48, 0] tag))))"
  have l4: "replicate 4 255 = [255, 255, 255, 255 :: byte]" by (simp add: numeral_eq_Suc)
  have n4: "le_nat [255, 255, 255, 255] = 4294967295" "length [255, 255, 255, 255 :: byte] = 4" by simp_all
  have "le_bytes 4 4294967295 = replicate 4 255"
    using le_bytes_le_nat [of "[255, 255, 255, 255]", unfolded n4] by (simp only: l4)
  then have ones: "put_cpu32 H 4294967295 = replicate 4 255" by (simp add: put_cpu32_def put_be32_def put_le32_def)
  have "t ! i = retag_body tag i" if "i < 236" for i
    using tag that unfolding t_def ones by (auto simp: nth_set_field retag_body_def nth_Cons' add.commute)
  then have body: "take 236 t = map (retag_body tag) [0..<236]"
    using tag by (intro nth_equalityI) (simp_all add: t_def)
  have "retag H tag = set_field 236 (put_cpu32 H (unat (crc32 0xFFFFFFFF (take 236 t)))) t"
    using tag unfolding retag_def Let_def t_def by (simp add: drop_after_field)
  moreover have "length t = 240" using tag by (simp add: t_def)
  then have "set_field 236 (put_cpu32 H x) t = take 236 t @ put_cpu32 H x" for x by (simp add: set_field_def)
  ultimately show ?thesis by (simp only: body)
qed

lemma length_retag [simp]: "length tag = 240 \<Longrightarrow> length (retag H tag) = 240"
  by (simp add: retag_eq)


text \<open>Reading a number from a field and the checksum of a range within a device that holds what is written to it.\<close>

lemma compute_crc32_short:
  assumes "dev_holds V mem bad" "n < 1024" "a + n \<le> v_size V"
  obtains d' where "compute_crc32 H V crc (int a) n d = Some (crc32 crc (slice (mem d) a n), d')" "mem d' = mem d"
proof (cases "n = 0")
  case True
  then have "compute_crc32 H V crc (int a) n d = Some (crc32 crc (slice (mem d) a n), d)"
    by (subst compute_crc32.simps) (simp add: crc32_def)
  then show ?thesis using that by blast
next
  case False
  obtain d' where r: "v_pread V d a n = (int n, slice (mem d) a n, d')" "mem d' = mem d"
    by (rule holds_pread [OF assms(1,3)])
  then have "compute_crc32 H V crc (int a) n d = Some (crc32 crc (slice (mem d) a n), d')"
    using False assms(2) by (subst compute_crc32.simps) (simp add: read_at_def)
  then show ?thesis using that r(2) by blast
qed

lemma zero_text: "strntoul H i (48 # 0 # bs) 10 = 0"
  by (simp add: strntoul_def field_text_def strtoul10_def is_space_def sz_def)

lemma tag_fix_sound:
  assumes h: "dev_holds V mem bad" and V: "256 \<le> v_erasesize V" "v_erasesize V \<le> v_size V" "v_size V < h_size_t H"
    and alloc: "h_alloc H 0"
    and tag: "strntoul H 1 (slice (mem d) 84 10) 10 = 0" "tag_right H (mem d)"
  obtains d' where "tag_fixtrx H es (Some V) 0 d = Some (Done 0, d')" "tag_right H (mem d')"
    "strntoul H 2 (slice (mem d') 106 10) 10 = 0"
    "\<And>a. \<not> tag_fields a \<Longrightarrow> mem d' a = mem d a"
    "strntoul H 2 (slice (mem d) 106 10) 10 = 0 \<Longrightarrow> mem d' = mem d"
    "strntoul H 2 (slice (mem d) 106 10) 10 \<noteq> 0 \<Longrightarrow> slice (mem d') 62 10 = strncpy_bytes (slice (mem d) 128 10) 10
       \<and> slice (mem d') 216 4 = slice (mem d) 224 4 \<and> slice (mem d') 196 4 = slice (mem d) 224 4
       \<and> slice (mem d') 220 4 = replicate 4 255"
proof -
  let ?E = "v_erasesize V"
  define t where "t = slice (mem d) 0 240"
  have num: "strntoul H i (drop a t) 10 = strntoul H i (slice (mem d) a 10) 10" if "a + 10 \<le> 240" for i a
  proof -
    have "take 10 (drop a t) = slice (mem d) a 10" using that by (intro nth_equalityI) (simp_all add: t_def)
    then show ?thesis by (simp add: strntoul_def)
  qed
  have crc: "drop 236 t = slice (mem d) 236 4" by (rule nth_equalityI) (simp_all add: t_def)
  obtain d1 where r: "v_pread V d 0 ?E = (int ?E, slice (mem d) 0 ?E, d1)" "mem d1 = mem d"
    using holds_pread [OF h, of 0 ?E d] V by auto
  obtain d2 where c: "compute_crc32 H V 0xFFFFFFFF (int 0) 236 d1 = Some (crc32 0xFFFFFFFF (slice (mem d1) 0 236), d2)" "mem d2 = mem d1"
    by (rule compute_crc32_short [OF h, of 236 0]) (use V in auto)
  have right: "unat (crc32 0xFFFFFFFF (slice (mem d) 0 236)) = cpu32 H (slice (mem d) 236 4)"
    using tag(2) by (simp add: tag_right_def crc32_bitwise)
  have eq: "tag_fixtrx H es (Some V) 0 d = (if strntoul H 2 (slice (mem d) 106 10) 10 = 0 then Some (Done 0, d2)
      else Some (rewrite_block V 0 (set_field 0 (retag H t) (slice (mem d) 0 ?E)) d2))"
    using V alloc r c right tag(1) num [of 84 1] num [of 106 2] crc
    by (simp add: tag_fixtrx_def Let_def memget_block t_def [symmetric])
  show ?thesis
  proof (cases "strntoul H 2 (slice (mem d) 106 10) 10 = 0")
    case True
    then show ?thesis using that [of d2] eq tag(2) r(2) c(2) by simp
  next
    case False
    define blk where "blk = set_field 0 (retag H t) (slice (mem d) 0 ?E)"
    have lt: "length t = 240" by (simp add: t_def)
    have lb: "length blk = ?E" using V lt by (simp add: blk_def)
    obtain d3 where w: "rewrite_block V 0 blk d2 = (Done 0, d3)" "mem d3 = patch 0 blk (mem d2)"
      using holds_rewrite_block [OF h _ lb, of 0 d2] V by auto
    have m3: "mem d3 a = (if a < 240 then retag H t ! a else mem d a)" for a
      using V lt by (auto simp: w(2) patch_def lb blk_def nth_set_field c(2) r(2))
    have body: "mem d3 a = retag_body t a" if "a < 236" for a
      using that lt by (simp add: m3 retag_eq nth_append)
    have head: "slice (mem d3) 0 236 = map (retag_body t) [0..<236]"
      by (rule nth_equalityI) (simp_all add: body)
    have "slice (mem d3) 236 4 = put_cpu32 H (unat (crc32 0xFFFFFFFF (map (retag_body t) [0..<236])))"
      by (rule nth_equalityI) (simp_all add: m3 retag_eq lt nth_append)
    moreover have "cpu32 H (put_cpu32 H (unat w)) = unat w" for w :: "32 word"
      using get_put_words(3) [of "unat w" H "[]"] unsigned_less [of w, where ?'a = nat] by simp
    ultimately have r3: "tag_right H (mem d3)" by (simp add: tag_right_def head crc32_bitwise)
    have "slice (mem d3) 106 10 = 48 # 0 # slice (mem d3) 108 8"
      by (rule nth_equalityI) (auto simp: body retag_body_def nth_Cons')
    then have zero: "strntoul H 2 (slice (mem d3) 106 10) 10 = 0" by (simp add: zero_text)
    have "mem d3 a = mem d a" if "\<not> tag_fields a" for a
      using that body [of a] m3 [of a] by (cases "a < 236") (auto simp: retag_body_def tag_fields_def t_def)
    moreover have "slice (mem d3) 62 10 = strncpy_bytes (slice (mem d) 128 10) 10"
    proof -
      have "take 10 (drop 128 t) = slice (mem d) 128 10" by (rule nth_equalityI) (simp_all add: t_def)
      then have "strncpy_bytes (drop 128 t) 10 = strncpy_bytes (slice (mem d) 128 10) 10" by (simp add: strncpy_bytes_def)
      then show ?thesis by (intro nth_equalityI) (simp_all add: body retag_body_def)
    qed
    moreover have "slice (mem d3) 216 4 = slice (mem d) 224 4" "slice (mem d3) 196 4 = slice (mem d) 224 4"
      "slice (mem d3) 220 4 = replicate 4 255"
      by (rule nth_equalityI; simp add: body retag_body_def t_def add.commute)+
    ultimately show ?thesis using that [of d3] eq False w(1) r3 zero by (simp add: blk_def)
  qed
qed

end
