(* ===== verification/Mtd_Properties.thy ===== *)
theory Mtd_Properties
  imports Mtd_Append Mtd_Tag
begin

text \<open>
  The properties of the \<open>mtd\<close> tool, with witnesses on a small device with a bad block.
\<close>

section \<open>A device for the witnesses\<close>

text \<open>Eight blocks of 64 bytes, the second of them bad; the state has the contents and the rest of the image.\<close>

type_synonym bench = "(nat \<Rightarrow> byte) \<times> byte list"

definition bench_dev :: "bench dev" where
  "bench_dev = \<lparr>v_size = 512, v_erasesize = 64, v_nand = True,
     v_isbad = (\<lambda>d a. (if a = 64 then 1 else 0, d)),
     v_erase = (\<lambda>d a n. (0, (patch a (replicate n 255) (fst d), snd d))),
     v_unlock = (\<lambda>d a n. d),
     v_pread = (\<lambda>d a n. (int n, slice (fst d) a n, d)),
     v_pwrite = (\<lambda>d a bs. (int (length bs), (patch a bs (fst d), snd d)))\<rparr>"

definition bench_host :: host where
  "bench_host = \<lparr>h_big_endian = False, h_size_t = 2 ^ 64, h_alloc = (\<lambda>_. True)\<rparr>"

definition bench_ctx :: md5_ctx where
  "bench_ctx = \<lparr>md_i0 = 1, md_i1 = 2, md_buf = (3, 4, 5, 6), md_in = replicate 64 7\<rparr>"

lemma bench_dev_simps [simp]: "v_size bench_dev = 512" "v_erasesize bench_dev = 64" "v_nand bench_dev"
  by (simp_all add: bench_dev_def)

lemma bench_holds: "dev_holds bench_dev fst (\<lambda>a. a = 64)"
  by (simp add: dev_holds_def bench_dev_def)

text \<open>Contents given by their first bytes, ones behind them.\<close>

definition contents :: "byte list \<Rightarrow> nat \<Rightarrow> byte" where
  "contents bs a = (if a < length bs then bs ! a else 255)"

lemma slice_contents: "a + n \<le> length bs \<Longrightarrow> slice (contents bs) a n = take n (drop a bs)"
  by (rule nth_equalityI) (simp_all add: contents_def)

section \<open>Checksums\<close>

text \<open>
  C22: the checksum by the table of \<open>crc32.c\<close> divides the bits of its input, one after the other, by the polynomial of CRC-32.
\<close>

theorem crc32_divides: "crc32 v bs = foldl crc_byte v bs"
  by (rule crc32_bitwise)

text \<open>
  C19: over any inputs, each shorter than 4 GiB, \<open>MD5_Init\<close>, \<open>MD5_Update\<close> and \<open>MD5_Final\<close> give MD5 of their concatenation, whatever
  the context held before and however the message is cut.
\<close>

theorem md5_correct:
  assumes "length (md_in C) = 64" "\<forall>cs \<in> set inputs. length cs < 2 ^ 32"
  shows "MD5_Final (foldl MD5_Update (MD5_Init C) inputs) = md5_spec (concat inputs)"
  using md5_digest_spec [OF assms] by (simp add: md5_digest_def)

theorem md5_correct_witness:
  "MD5_Final (MD5_Update (MD5_Update (MD5_Init bench_ctx) [97, 98]) [99]) =
     [0x90, 0x01, 0x50, 0x98, 0x3c, 0xd2, 0x4f, 0xb0, 0xd6, 0x96, 0x3f, 0x7d, 0x28, 0xe1, 0x7f, 0x72]"
  using md5_correct [of bench_ctx "[[97, 98], [99]]"] md5_spec_abc by (simp add: bench_ctx_def)

section \<open>Headers\<close>

text \<open>
  C10: over a device that holds what is written to it \<open>mtd_fixseama\<close>, \<open>mtd_fixwrg\<close> and \<open>mtd_fixwrgg\<close> return, and afterwards the
  header has the digest of the image behind it. They change the size and the digest in the header and nothing else, and a
  header that is right already is left as it is, so that fixing it again changes nothing.
\<close>

theorem header_fixed:
  assumes X: "(X, fixer) \<in> {(seama_fmt, mtd_fixseama H C), (wrg_fmt, mtd_fixwrg H C), (wrgg_fmt H, mtd_fixwrgg H C)}"
    and h: "dev_holds V mem bad" "fixable H C X V"
    and hdr: "fx_magic X (slice (mem d) 0 (fx_sizeof X))" "fx_get_size X (slice (mem d) 0 (fx_sizeof X)) \<noteq> 0"
    and n: "n = image_size X V data_size (slice (mem d) 0 (fx_sizeof X))"
      "image_start X (slice (mem d) 0 (fx_sizeof X)) + n \<le> v_size V"
  shows "\<exists>d'. fixer bs (Some V) 0 data_size d = Some (Done 0, d') \<and> digest_right X (mem d') n
    \<and> (\<forall>a. \<not> in_fields X a \<longrightarrow> mem d' a = mem d a)
    \<and> image_size X V data_size (slice (mem d') 0 (fx_sizeof X)) = n
    \<and> (if digest_right X (mem d) n then mem d' = mem d else fx_get_size X (slice (mem d') 0 (fx_sizeof X)) = n)"
proof -
  have "header_format X \<and> fixer = mtd_fix H C X"
    using X seama_header.header_format_axioms wrg_header.header_format_axioms wrgg_header.header_format_axioms
    by (auto simp: mtd_fixseama_def mtd_fixwrg_def mtd_fixwrgg_def)
  then show ?thesis using header_format.fix_result [OF _ h hdr n] by blast
qed

text \<open>A Seama header with a wrong digest.\<close>

definition bench_seama :: "byte list" where
  "bench_seama = [0x5E, 0xA3, 0xA4, 0x17, 0, 0, 0, 4, 0, 0, 0, 16] @ replicate 16 1 @ replicate 36 2"

lemma bench_seama_header: "slice (contents bench_seama) 0 28 = [0x5E, 0xA3, 0xA4, 0x17, 0, 0, 0, 4, 0, 0, 0, 16] @ replicate 16 1"
  by (simp add: slice_contents bench_seama_def)

lemma bench_fixable: "fixable bench_host bench_ctx seama_fmt bench_dev"
  by (simp add: fixable_def seama_fmt_def bench_host_def bench_ctx_def)

theorem header_fixed_witness:
  "\<exists>d'. mtd_fixseama bench_host bench_ctx 0 (Some bench_dev) 0 0 (contents bench_seama, []) = Some (Done 0, d')
    \<and> digest_right seama_fmt (fst d') 16"
proof -
  let ?d = "(contents bench_seama, [] :: byte list)"
  have sizeof: "fx_sizeof seama_fmt = 28" by (simp add: seama_fmt_def)
  have hdr: "16 = image_size seama_fmt bench_dev 0 (slice (fst ?d) 0 (fx_sizeof seama_fmt))"
    "image_start seama_fmt (slice (fst ?d) 0 (fx_sizeof seama_fmt)) + 16 \<le> v_size bench_dev"
    "fx_magic seama_fmt (slice (fst ?d) 0 (fx_sizeof seama_fmt))"
    "fx_get_size seama_fmt (slice (fst ?d) 0 (fx_sizeof seama_fmt)) \<noteq> 0"
    unfolding sizeof fst_conv bench_seama_header
    by (simp_all add: image_size_def image_start_def seama_fmt_def get_be32_def get_be16_def)
  have fmt: "(seama_fmt, mtd_fixseama bench_host bench_ctx) \<in> {(seama_fmt, mtd_fixseama bench_host bench_ctx),
      (wrg_fmt, mtd_fixwrg bench_host bench_ctx), (wrgg_fmt bench_host, mtd_fixwrgg bench_host bench_ctx)}" by simp
  show ?thesis using header_fixed [OF fmt bench_holds bench_fixable hdr(3,4,1,2), of 0] by blast
qed

text \<open>
  C16: over a device that holds what is written to it and has bad blocks, \<open>mtd_fixtrx\<close> returns, and afterwards the length and the
  checksum in the header are those of the bytes behind it in the good blocks. Nothing else is changed, and a header that is
  right already is left as it is.
\<close>

theorem trx_fixed:
  assumes "dev_holds V mem bad" "v_erasesize V = 2 ^ k" "trx_fixable H V at n" "n = trx_size V data_size"
    "get_be32 (slice (mem d) at 4) = trxmagic"
  shows "\<exists>d'. mtd_fixtrx H trxmagic (Some V) at data_size d = Some (Done 0, d') \<and> trx_right V bad at n (mem d')
    \<and> (\<forall>a. \<not> (at + 4 \<le> a \<and> a < at + 12) \<longrightarrow> mem d' a = mem d a) \<and> (trx_right V bad at n (mem d) \<longrightarrow> mem d' = mem d)"
  by (rule fixtrx_sound [OF assms]) blast

theorem trx_fixed_witness:
  "\<exists>d'. mtd_fixtrx bench_host 0x48445230 (Some bench_dev) 0 100 (contents [0x48, 0x44, 0x52, 0x30], []) = Some (Done 0, d')
    \<and> slice (fst d') 4 8 = put_le32 64 @ put_le32 (unat (foldl crc_byte 0xFFFFFFFF (slice (fst d') 12 52)))"
proof -
  let ?d = "(contents [0x48, 0x44, 0x52, 0x30], [] :: byte list)"
  have good: "good_bytes bench_dev (\<lambda>a. a = 64) m 12 (52 + 64) = slice m 12 52" for m
    unfolding good_bytes_append using good_bytes_block [of bench_dev 12 52 "\<lambda>a. a = 64" m]
      good_bytes_block [of bench_dev 64 64 "\<lambda>a. a = 64" m] by simp
  have magic: "get_be32 (slice (fst ?d) 0 4) = 0x48445230"
    by (simp add: slice_contents get_be32_def)
  have ok: "trx_fixable bench_host bench_dev 0 116" "v_erasesize bench_dev = 2 ^ 6" "116 = trx_size bench_dev 100"
    by (simp_all add: trx_fixable_def bench_host_def trx_size_def)
  obtain d' where d': "mtd_fixtrx bench_host 0x48445230 (Some bench_dev) 0 100 ?d = Some (Done 0, d')"
      "trx_right bench_dev (\<lambda>a. a = 64) 0 116 (fst d')"
    using trx_fixed [OF bench_holds ok(2,1,3) magic] by blast
  show ?thesis using d' good [of "fst d'"] by (auto simp: trx_right_def)
qed

section \<open>Logs\<close>

text \<open>
  C26: when the log of the boot counter consists of valid records and free places, \<open>mtd_resetbc\<close> succeeds, and the log is again
  such a log, whose last count is 0. A count of 0 is left as it is; a full log is erased before the new record is written,
  and otherwise the records before are kept.
\<close>

theorem boot_counter_reset:
  assumes "dev_holds V mem bad" "inc = bc_increment writesize" "num = v_size V div inc" "0 < num"
    "bc_log H (mem d) inc num n" "h_alloc H 0"
  shows "\<exists>d' n'. mtd_resetbc H writesize (Some V) d = (0, d') \<and> bc_log H (mem d') inc num n' \<and> bc_value H (mem d') inc n' = 0
    \<and> (if bc_value H (mem d) inc n = 0 then mem d' = mem d
       else mem d' = patch ((if n = num then 0 else n) * inc) (bc_record H inc)
         (if n = num then patch 0 (replicate (v_size V) 255) (mem d) else mem d))"
  by (rule resetbc_sound [OF assms]) blast

definition bench_log :: "byte list" where
  "bench_log = [0x11, 0x08, 0x11, 0x20, 2, 0, 0, 0, 0x13, 0x08, 0x11, 0x20, 255, 255, 255, 255]"

theorem boot_counter_reset_witness:
  "\<exists>d' n'. mtd_resetbc bench_host 1 (Some bench_dev) (contents bench_log, []) = (0, d')
    \<and> bc_value bench_host (fst d') 16 n' = 0 \<and> fst d' = patch 16 (bc_record bench_host 16) (contents bench_log)"
proof -
  have s0: "slice (contents bench_log) 0 12 = [0x11, 0x08, 0x11, 0x20, 2, 0, 0, 0, 0x13, 0x08, 0x11, 0x20]"
    by (simp add: slice_contents bench_log_def)
  have si: "slice (contents bench_log) (i * 16) 12 = replicate 12 255" if "1 \<le> i" for i
    by (rule nth_equalityI) (use that in \<open>simp_all add: contents_def bench_log_def\<close>)
  have "bc_valid bench_host (contents bench_log) 16 0"
    by (simp add: bc_valid_def bc_count_def s0 cpu32_def bench_host_def get_le32_def BOOTCOUNT_MAGIC_def)
  moreover have "bc_free bench_host (contents bench_log) 16 i" if "1 \<le> i" for i
    unfolding bc_free_def si [OF that] by (rule cpu32_ones)
  ultimately have "bc_log bench_host (contents bench_log) 16 32 1" by (simp add: bc_log_def)
  moreover have "bc_value bench_host (contents bench_log) 16 1 = 2"
    by (simp add: bc_value_def bc_count_def s0 cpu32_def bench_host_def get_le32_def)
  ultimately show ?thesis
    using boot_counter_reset [OF bench_holds, of 16 1 32 bench_host "(contents bench_log, [])" 1]
    by (auto simp: bc_increment_def bench_host_def)
qed

section \<open>Writing an image\<close>

text \<open>
  C5: \<open>mtd write\<close> of an image that fits into the good blocks of a partition ends, in whatever pieces \<open>read\<close> gives the image.
  When \<open>image_check\<close> refuses the image and the write is not forced, it exits with 1 and the device is as it was; otherwise
  it exits with 0, the good blocks, the bad ones left out, hold the image padded to whole blocks, and everything behind
  it and in bad blocks is as it was.
\<close>

theorem write_command:
  assumes "tool_ok C V mem bad rest" "32 \<le> v_erasesize V"
    "c_dev C name = Some V" "CHR '':'' \<notin> set name" "c_tpl C = None" "c_malloc C (v_erasesize V) = Some buf" "length buf = v_erasesize V"
    "o_cmd P = CMD_WRITE True" "o_device P = name" "o_erase P = []" "t_buf T = None" "t_buflen T = 0" "t_jffs2file T = None"
    "length (padded (v_erasesize V) (rest (t_world T))) \<le> length (good_bytes V bad (mem (t_world T)) 0 (v_size V))"
  shows "\<exists>T' k r T1. image_check H C name (T\<lparr>t_buf := Some buf\<rparr>) = Some (Done r, T1)
    \<and> (if r = 0 \<and> \<not> o_force P then mtd_main H C P T = Some (1, T') \<and> mem (t_world T') = mem (t_world T)
       else mtd_main H C P T = Some (0, T') \<and> k * v_erasesize V \<le> v_size V
         \<and> good_bytes V bad (mem (t_world T')) 0 (k * v_erasesize V) = padded (v_erasesize V) (rest (t_world T))
         \<and> (\<forall>a. k * v_erasesize V \<le> a \<or> \<not> good_block V bad (a div v_erasesize V * v_erasesize V)
              \<longrightarrow> mem (t_world T') a = mem (t_world T) a))"
proof -
  obtain T' k r T1 where W: "image_check H C name (T\<lparr>t_buf := Some buf\<rparr>) = Some (Done r, T1)"
    "mtd_main H C P T = Some (if r = 0 \<and> \<not> o_force P then 1 else 0, T')"
    "r = 0 \<and> \<not> o_force P \<longrightarrow> mem (t_world T') = mem (t_world T)"
    "\<not> (r = 0 \<and> \<not> o_force P) \<longrightarrow> k * v_erasesize V \<le> v_size V
       \<and> good_bytes V bad (mem (t_world T')) 0 (k * v_erasesize V) = padded (v_erasesize V) (rest (t_world T))
       \<and> (\<forall>a. k * v_erasesize V \<le> a \<or> \<not> good_block V bad (a div v_erasesize V * v_erasesize V) \<longrightarrow> mem (t_world T') a = mem (t_world T) a)"
    by (rule main_write_image [OF assms])
  show ?thesis
    by (rule exI [of _ T'], rule exI [of _ k], rule exI [of _ r], rule exI [of _ T1])
       (cases "r = 0 \<and> \<not> o_force P"; use W in \<open>simp only: if_True if_False simp_thms\<close>; blast)
qed

definition bench_conf :: "bench conf" where
  "bench_conf = \<lparr>c_dev = (\<lambda>_. Some bench_dev), c_block = (\<lambda>_. None), c_read = (\<lambda>d n. (int (min n (length (snd d))), take n (snd d), (fst d, drop n (snd d)))),
     c_again = (\<lambda>_. False), c_no_erase = False, c_skip_bytes = 0, c_jffs2dir = [], c_trxmagic = 0x48445230, c_part_offset = 0,
     c_brcm = False, c_trx = True, c_seama = True, c_wrg = True, c_wrgg = True, c_tpl = None, c_malloc = (\<lambda>n. Some (replicate n 0)),
     c_md5_ctx = bench_ctx\<rparr>"

definition bench_opts :: "bench opts" where
  "bench_opts = \<lparr>o_cmd = CMD_WRITE True, o_device = ''rootfs'', o_erase = [], o_force = True, o_offset = 0, o_data_size = 0,
     o_dump_len = 0, o_digest = (\<lambda>bs. bs)\<rparr>"

definition bench_jffs2 :: "bench jffs2" where
  "bench_jffs2 = \<lparr>j_last_ino = 0, j_last_version = 0, j_buf = [], j_ofs = 0, j_mtdofs = 0, j_target_ino = 0, j_pos = 0,
     j_dev = (\<lambda>_. 1, replicate 100 5)\<rparr>"

definition bench_tool :: "bench mtd" where
  "bench_tool = \<lparr>t_buf = None, t_buflen = 0, t_format = MTD_IMAGE_FORMAT_UNKNOWN, t_jffs2file = None, t_jffs2 = bench_jffs2,
     t_w = 0, t_e = 0, t_skip = 0, t_offset = 0, t_skip_bad = 0, t_replaced = False\<rparr>"

lemma bench_reads: "image_reads bench_conf bench_dev fst snd"
  unfolding reads_all_def
proof (intro conjI allI impI)
  fix d :: bench and n :: nat
  assume "0 < n"
  then show "\<exists>k d'. k \<le> n \<and> k \<le> length (snd d) \<and> (snd d \<noteq> [] \<longrightarrow> 0 < k) \<and> c_read bench_conf d n = (int k, take k (snd d), d')
      \<and> snd d' = drop k (snd d) \<and> fst d' = fst d"
    by (intro exI [of _ "min n (length (snd d))"] exI [of _ "(fst d, drop n (snd d))"])
       (auto simp: bench_conf_def min_def)
qed (simp_all add: bench_dev_def)

lemma bench_ok: "tool_ok bench_conf bench_dev fst (\<lambda>a. a = 64) snd"
  using bench_holds bench_reads by (simp add: tool_ok_def) (simp add: bench_conf_def)

lemma bench_room: "128 \<le> length (good_bytes bench_dev (\<lambda>a. a = 64) m 0 512)"
proof -
  have "good_bytes bench_dev (\<lambda>a. a = 64) m 0 (64 + (64 + (64 + 320))) = slice m 0 64 @ slice m 128 64
      @ good_bytes bench_dev (\<lambda>a. a = 64) m 192 320"
    unfolding good_bytes_append using good_bytes_block [of bench_dev 0 64 "\<lambda>a. a = 64" m]
      good_bytes_block [of bench_dev 64 64 "\<lambda>a. a = 64" m] good_bytes_block [of bench_dev 128 64 "\<lambda>a. a = 64" m] by simp
  then show ?thesis by simp
qed

lemma bench_tool_simps [simp]: "t_world bench_tool = (\<lambda>_. 1, replicate 100 5)" "t_buf bench_tool = None" "t_buflen bench_tool = 0"
    "t_jffs2file bench_tool = None"
  by (simp_all add: bench_tool_def bench_jffs2_def)

lemma bench_opts_simps [simp]: "o_cmd bench_opts = CMD_WRITE True" "o_device bench_opts = ''rootfs''" "o_erase bench_opts = []" "o_force bench_opts"
  by (simp_all add: bench_opts_def)

lemma bench_conf_simps [simp]: "c_dev bench_conf name = Some bench_dev" "c_tpl bench_conf = None" "c_malloc bench_conf n = Some (replicate n 0)"
  by (simp_all add: bench_conf_def)

theorem write_command_witness:
  "\<exists>T' k. mtd_main bench_host bench_conf bench_opts bench_tool = Some (0, T')
    \<and> good_bytes bench_dev (\<lambda>a. a = 64) (fst (t_world T')) 0 (k * 64) = replicate 100 5 @ replicate 28 255"
proof -
  have pad: "padded 64 (snd (t_world bench_tool)) = replicate 100 5 @ replicate 28 255" by (simp add: padded_def)
  have room: "length (padded (v_erasesize bench_dev) (snd (t_world bench_tool)))
      \<le> length (good_bytes bench_dev (\<lambda>a. a = 64) (fst (t_world bench_tool)) 0 (v_size bench_dev))"
    unfolding bench_dev_simps pad using bench_room [of "fst (t_world bench_tool)"] by simp
  have *: "32 \<le> v_erasesize bench_dev" "c_dev bench_conf ''rootfs'' = Some bench_dev" "CHR '':'' \<notin> set ''rootfs''" "c_tpl bench_conf = None"
    "c_malloc bench_conf (v_erasesize bench_dev) = Some (replicate 64 0)" "length (replicate 64 (0 :: byte)) = v_erasesize bench_dev"
    "o_cmd bench_opts = CMD_WRITE True" "o_device bench_opts = ''rootfs''" "o_erase bench_opts = []" "t_buf bench_tool = None"
    "t_buflen bench_tool = 0" "t_jffs2file bench_tool = None"
    by simp_all
  obtain T' k where "mtd_main bench_host bench_conf bench_opts bench_tool = Some (0, T')"
    "good_bytes bench_dev (\<lambda>a. a = 64) (fst (t_world T')) 0 (k * v_erasesize bench_dev) = padded (v_erasesize bench_dev) (snd (t_world bench_tool))"
    using write_command [OF bench_ok * room, of bench_host] by (simp only: bench_opts_simps simp_thms if_False) blast
  then show ?thesis unfolding bench_dev_simps pad by blast
qed

text \<open>
  C33: with an offset into the partition (option \<open>-p\<close>), \<open>mtd_write\<close> asks whether a block is bad at the place without the offset
  and erases the one at the place with it: when the first block of the partition is good, the block at the offset is erased
  and the position of the write stays on it, whether it is bad or not.
\<close>

theorem offset_misses_bad_block:
  assumes "dev_holds V mem bad" "\<not> (v_nand V \<and> bad 0)" "c_part_offset C + v_erasesize V \<le> v_size V" "0 < v_erasesize V"
    "t_w T = 0" "t_e T = 0" "t_skip_bad T = 0" "t_buflen T = int (v_erasesize V)"
  shows "\<exists>d'. erase_ahead C V T = Some (Done True, set_world d' (T\<lparr>t_e := int (v_erasesize V)\<rparr>))
    \<and> mem d' = patch (c_part_offset C) (replicate (v_erasesize V) 255) (mem (t_world T))"
proof -
  obtain d1 where b: "mtd_block_is_bad V (t_world T) 0 = (Done 0, d1)" "mem d1 = mem (t_world T)"
    by (rule holds_bad [OF assms(1), of "t_world T" 0]) (use assms(2) in auto)
  obtain d2 where e: "mtd_erase_block V d1 (c_part_offset C) = (0, d2)"
      "mem d2 = patch (c_part_offset C) (replicate (v_erasesize V) 255) (mem d1)"
    by (rule holds_erase [OF assms(1,3)])
  have stop: "erase_ahead C V T' = Some (Done True, T')" if "\<not> t_w T' + t_buflen T' > t_e T' - t_skip_bad T'" for T'
    using that by (subst erase_ahead.simps) simp
  have "erase_ahead C V T = erase_ahead C V (set_world d2 (T\<lparr>t_e := int (v_erasesize V)\<rparr>))"
    using assms(4-8) b(1) e(1) by (subst erase_ahead.simps) (simp add: tool_simps Let_def)
  also have "\<dots> = Some (Done True, set_world d2 (T\<lparr>t_e := int (v_erasesize V)\<rparr>))"
    using assms(5-8) by (intro stop) (simp add: tool_simps)
  finally show ?thesis using b e by auto
qed

theorem offset_misses_bad_block_witness:
  "\<exists>d'. erase_ahead (bench_conf\<lparr>c_part_offset := 64\<rparr>) bench_dev (bench_tool\<lparr>t_buflen := 64\<rparr>)
      = Some (Done True, set_world d' (bench_tool\<lparr>t_buflen := 64, t_e := 64\<rparr>))
    \<and> fst (v_isbad bench_dev d' 64) = 1 \<and> fst d' = patch 64 (replicate 64 255) (\<lambda>_. 1)"
  using offset_misses_bad_block [OF bench_holds, of "bench_conf\<lparr>c_part_offset := 64\<rparr>" "bench_tool\<lparr>t_buflen := 64\<rparr>"]
  by (simp add: bench_tool_def bench_jffs2_def) (simp add: bench_dev_def)

section \<open>Adding jffs2 data\<close>

text \<open>
  C9: \<open>mtd_replace_jffs2\<close> puts a file into the jffs2 file system that begins at block \<open>s\<close>, in whatever pieces \<open>read\<close> gives
  the file. It returns the size of the blocks it has gone over. When there is room, the good blocks among them hold
  blocks with a clean marker and whole nodes, and behind them the marker of the end. The nodes are well formed: an entry
  for the name of the file in the root directory, and inodes whose data, one behind the other, are the contents. Other
  blocks are as they were.
\<close>

theorem jffs2_appended:
  assumes "jffs2_dev V mem bad (i_read F) rest" "4294967296 \<le> h_size_t H" "v_erasesize V \<le> 2147483648"
    "i_stat F = Some stt" "i_opens F" "length (base_name (i_name F)) < 256" "length (rest (j_dev J)) < 4294967296"
    "length fresh = v_erasesize V" "j_ofs J = 0" "s * v_erasesize V \<le> v_size V"
  shows "\<exists>J' gs n. mtd_replace_jffs2 H V F fresh (s * v_erasesize V) (s * v_erasesize V) J = Some (Done (int (n * v_erasesize V)), J')
    \<and> file_entry H 1 (add32 (if j_last_ino J = 0 then 1 else j_last_ino J) 1) (base_name (i_name F)) (rest (j_dev J)) (concat gs)
    \<and> (\<forall>g \<in> set gs. length (layout H g) \<le> v_erasesize V)
    \<and> (length gs - 1) * (v_erasesize V - 208) \<le> 300 + 72 * length (rest (j_dev J))
    \<and> ((length gs + 1) * v_erasesize V \<le> room V bad s \<longrightarrow> (s + n) * v_erasesize V \<le> v_size V
       \<and> good_bytes V bad (mem (j_dev J')) (s * v_erasesize V) (n * v_erasesize V)
         = concat (map (block_image H (v_erasesize V)) gs) @ block_fill (v_erasesize V) JFFS2_EOF
       \<and> (\<forall>a. \<not> (s * v_erasesize V \<le> a \<and> a < (s + n) * v_erasesize V
         \<and> good_block V bad (a div v_erasesize V * v_erasesize V)) \<longrightarrow> mem (j_dev J') a = mem (j_dev J) a))"
  by (rule replace_jffs2_file [OF assms]) meson

definition large_dev :: "bench dev" where
  "large_dev = bench_dev\<lparr>v_size := 20480, v_erasesize := 512, v_isbad := (\<lambda>d a. (if a = 512 then 1 else 0, d))\<rparr>"

definition bench_file :: "bench infile" where
  "bench_file = \<lparr>i_name = [47, 97], i_stat = Some no_stat, i_opens = True, i_read = c_read bench_conf\<rparr>"

lemma large_dev_simps [simp]: "v_size large_dev = 20480" "v_erasesize large_dev = 512"
  by (simp_all add: large_dev_def)

lemma large_ok: "jffs2_dev large_dev fst (\<lambda>a. a = 512) (i_read bench_file) snd"
proof -
  have "dev_holds large_dev fst (\<lambda>a. a = 512)" by (simp add: dev_holds_def large_dev_def bench_dev_def)
  moreover have "reads_all (i_read bench_file) large_dev fst snd"
    using bench_reads by (simp add: reads_all_def bench_file_def large_dev_def)
  ultimately show ?thesis by (simp add: jffs2_dev_def)
qed

lemma large_room: "19456 \<le> room large_dev (\<lambda>a. a = 512) 0"
proof -
  have "x div 512 * 512 \<noteq> 512" if "x \<in> set [1024..<1024 + 19456]" for x :: nat
  proof -
    have "1024 \<le> x" using that by (simp only: set_upt atLeastLessThan_iff)
    then have "1024 div 512 \<le> x div 512" by (rule div_le_mono)
    then have "2 \<le> x div 512" by simp
    then show ?thesis by linarith
  qed
  then have "filter (\<lambda>x. \<not> (v_nand large_dev \<and> x div v_erasesize large_dev * v_erasesize large_dev = 512)) [1024..<1024 + 19456]
      = [1024..<1024 + 19456]" unfolding large_dev_simps by (intro filter_True) blast
  then have "length (good_bytes large_dev (\<lambda>a. a = 512) m 1024 19456) = 19456" for m
    unfolding good_bytes_def by (simp only: length_map length_upt add_diff_cancel_left')
  moreover have "good_bytes large_dev (\<lambda>a. a = 512) m 0 20480 =
      good_bytes large_dev (\<lambda>a. a = 512) m 0 1024 @ good_bytes large_dev (\<lambda>a. a = 512) m 1024 19456" for m
    using good_bytes_append [of large_dev "\<lambda>a. a = 512" m 0 1024 19456] by simp
  ultimately show ?thesis by (simp add: room_def)
qed

theorem jffs2_appended_witness:
  "\<exists>J' gs n. mtd_replace_jffs2 bench_host large_dev bench_file (replicate 512 0) 0 0 bench_jffs2 = Some (Done (int (n * 512)), J')
    \<and> file_entry bench_host 1 2 [97] (replicate 100 5) (concat gs)
    \<and> good_bytes large_dev (\<lambda>a. a = 512) (fst (j_dev J')) 0 (n * 512)
        = concat (map (block_image bench_host 512) gs) @ block_fill 512 JFFS2_EOF"
proof -
  have *: "4294967296 \<le> h_size_t bench_host" "v_erasesize large_dev \<le> 2147483648" "i_stat bench_file = Some no_stat" "i_opens bench_file"
    "length (base_name (i_name bench_file)) < 256" "length (snd (j_dev bench_jffs2)) < 4294967296"
    "length (replicate 512 (0 :: byte)) = v_erasesize large_dev" "j_ofs bench_jffs2 = 0" "0 * v_erasesize large_dev \<le> v_size large_dev"
    by (simp_all add: bench_host_def bench_file_def base_name_def bench_jffs2_def)
  have two: "add32 1 1 = (2 :: nat)" by (simp add: add32_def)
  have concrete: "base_name (i_name bench_file) = [97]" "snd (j_dev bench_jffs2) = replicate 100 5" "j_last_ino bench_jffs2 = 0"
    by (simp_all add: bench_file_def base_name_def bench_jffs2_def)
  obtain J' gs n where W: "mtd_replace_jffs2 bench_host large_dev bench_file (replicate 512 0) (0 * v_erasesize large_dev)
      (0 * v_erasesize large_dev) bench_jffs2 = Some (Done (int (n * v_erasesize large_dev)), J')"
    "file_entry bench_host 1 2 [97] (replicate 100 5) (concat gs)"
    "(length gs - 1) * (v_erasesize large_dev - 208) \<le> 300 + 72 * length (replicate 100 (5 :: byte))"
    "(length gs + 1) * v_erasesize large_dev \<le> room large_dev (\<lambda>a. a = 512) 0 \<longrightarrow> (0 + n) * v_erasesize large_dev \<le> v_size large_dev
       \<and> good_bytes large_dev (\<lambda>a. a = 512) (fst (j_dev J')) (0 * v_erasesize large_dev) (n * v_erasesize large_dev)
         = concat (map (block_image bench_host (v_erasesize large_dev)) gs) @ block_fill (v_erasesize large_dev) JFFS2_EOF"
    using jffs2_appended [OF large_ok *] unfolding concrete if_P [OF refl] two by blast
  have "length gs \<le> 25" using W(3) by simp
  then have "(length gs + 1) * v_erasesize large_dev \<le> room large_dev (\<lambda>a. a = 512) 0" using large_room by simp
  then show ?thesis using W by (intro exI [of _ J'] exI [of _ gs] exI [of _ n]) simp
qed

section \<open>The tag of a Broadcom image\<close>

text \<open>
  C18: over a device that holds what is written to it, \<open>mtd_fixtrx\<close> of \<open>imagetag.c\<close> returns for a tag whose checksum is right and
  that has no boot loader; afterwards the checksum is right, the length of the root file system is 0, the total length is
  that of the kernel, and the checksums of the image are that of the kernel. It changes these fields only. A tag whose
  root file system has length 0 is left as it is, so that fixing it again changes nothing.
\<close>

theorem tag_fixed:
  assumes "dev_holds V mem bad" "256 \<le> v_erasesize V" "v_erasesize V \<le> v_size V" "v_size V < h_size_t H" "h_alloc H 0"
    "strntoul H 1 (slice (mem d) 84 10) 10 = 0" "tag_right H (mem d)"
  shows "\<exists>d'. tag_fixtrx H es (Some V) 0 d = Some (Done 0, d') \<and> tag_right H (mem d') \<and> strntoul H 2 (slice (mem d') 106 10) 10 = 0
    \<and> (\<forall>a. \<not> tag_fields a \<longrightarrow> mem d' a = mem d a)
    \<and> (if strntoul H 2 (slice (mem d) 106 10) 10 = 0 then mem d' = mem d
       else slice (mem d') 62 10 = strncpy_bytes (slice (mem d) 128 10) 10 \<and> slice (mem d') 216 4 = slice (mem d) 224 4
         \<and> slice (mem d') 196 4 = slice (mem d) 224 4 \<and> slice (mem d') 220 4 = replicate 4 255)"
  by (rule tag_fix_sound [OF assms]) fastforce

definition bench_tag :: "byte list" where
  "bench_tag = replicate 84 0 @ [48, 0] @ replicate 20 0 @ [53, 0] @ replicate 128 0"

theorem tag_fixed_witness:
  "\<exists>d'. tag_fixtrx bench_host 0 (Some large_dev) 0
        (contents (bench_tag @ put_cpu32 bench_host (unat (foldl crc_byte 0xFFFFFFFF bench_tag))), []) = Some (Done 0, d')
    \<and> tag_right bench_host (fst d') \<and> slice (fst d') 220 4 = replicate 4 255"
proof -
  let ?c = "foldl crc_byte 0xFFFFFFFF bench_tag"
  let ?m = "contents (bench_tag @ put_cpu32 bench_host (unat ?c))"
  have len: "length bench_tag = 236" by (simp add: bench_tag_def)
  have "slice ?m 0 236 = bench_tag" "slice ?m 236 4 = put_cpu32 bench_host (unat ?c)"
    by (simp_all add: slice_contents len)
  moreover have "cpu32 bench_host (put_cpu32 bench_host (unat ?c)) = unat ?c"
    using get_put_words(3) [of "unat ?c" bench_host "[]"] unsigned_less [of ?c, where ?'a = nat] by simp
  ultimately have right: "tag_right bench_host (fst (?m, [] :: byte list))" by (simp add: tag_right_def)
  have s: "slice (fst (?m, [] :: byte list)) 84 10 = [48, 0] @ replicate 8 0" "slice (fst (?m, [] :: byte list)) 106 10 = [53, 0] @ replicate 8 0"
    by (simp_all add: slice_contents len) (simp_all add: bench_tag_def)
  have num: "strntoul bench_host 1 ([48, 0] @ replicate 8 0) 10 = 0" "strntoul bench_host 2 ([53, 0] @ replicate 8 0) 10 = 5"
    by (simp_all add: strntoul_def field_text_def strtoul10_def is_space_def bench_host_def)
  have ok: "dev_holds large_dev fst (\<lambda>a. a = 512)" "256 \<le> v_erasesize large_dev" "v_erasesize large_dev \<le> v_size large_dev"
    "v_size large_dev < h_size_t bench_host" "h_alloc bench_host 0"
    using large_ok by (simp_all add: jffs2_dev_def bench_host_def)
  show ?thesis
    using tag_fixed [OF ok _ right, unfolded s num, OF refl, of 0] by (auto simp del: replicate.simps)
qed

end
