(* ===== verification/Spec2Isabelle.thy ===== *)
theory Spec2Isabelle
  imports Nmbm_Properties Bbt_Properties V2_Properties En75_Properties Split_Properties Mtd_Properties
begin

text \<open>
  The flash layers of OpenWrt that lie below the file systems: bad-block management for raw NAND flash in the MediaTek
  and EcoNet targets, the splitting of firmware partitions, and the tool that writes them. Bad-block management is
  \<open>target/linux/generic/files/drivers/mtd/nand/\<close> with \<open>mtk_bmt.h\<close>, \<open>mtk_bmt.c\<close>,
  \<open>mtk_bmt_bbt.c\<close>, \<open>mtk_bmt_v2.c\<close> and \<open>mtk_bmt_nmbm.c\<close>, and
  \<open>target/linux/econet/files/drivers/mtd/nand/en75_bmt.c\<close>; the splitters are
  \<open>target/linux/generic/files/drivers/mtd/mtdsplit/\<close> and \<open>parsers/routerbootpart.c\<close> beside it; the tool is
  \<open>package/system/mtd/src/\<close>.

  The bad-block managers. A front end (\<open>mtk_bmt.c\<close>) takes the place of the NAND driver's MTD operations. It
  translates the block of every request with the lookup of a bad-block manager, gives the
  request to the driver, and when the driver fails asks the manager to remap the block and tries
  again. There are four managers, each with an \<open>init\<close>, \<open>remap_block\<close>, \<open>unmap_block\<close> and
  \<open>get_mapping_block\<close> (\<open>struct mtk_bmt_ops\<close>): BBT shifts the blocks of a range past the bad ones;
  BMT version 2 keeps a table with the physical block of every logical one and a pool of spare
  blocks; NMBM keeps block states and a block mapping in two info tables on flash, behind a signature
  block, and moves them when blocks wear out; the EcoNet manager shifts blocks past the factory bad ones
  and maps worn blocks to a reserve area at the end of the chip, with a table for each stored there.

  The splitters. A firmware image is one partition that holds a kernel and a root file system. A parser for each
  image format finds where the two meet, by a header or by a search for the magic number of a file system at
  the start of an erase block (\<open>mtdsplit.c\<close>), and gives the partitions to the kernel's MTD layer; a further parser finds
  the space that a squashfs leaves free. A parser returns the number of its partitions or an error.

  The mtd tool. \<open>mtd\<close> is the user space program that writes firmware: \<open>write\<close> checks the header of an image, erases
  blocks ahead of the position and writes the image into them, past the bad ones; at the marker \<open>JFFS2_EOF\<close> of the image it can
  put in jffs2 data that it builds from a file, and then makes the digest or the checksum in the header right again. Other
  commands erase, unlock, dump, verify, append jffs2 data, fix the headers of the image formats (TRX, Seama, WRG, WRGG, Broadcom)
  and reset the boot counter, a log of records.

  The model. State is passed explicitly. \<open>struct bmt_desc\<close> is the record \<open>bmtd\<close>, the NMBM instance
  the record \<open>nmbm\<close> that extends it, the EcoNet context the record \<open>en75\<close> likewise. Arrays are lists; integers are \<open>nat\<close> or \<open>int\<close> with the C
  conversions written out (\<open>u16\<close>, \<open>u32_of\<close>, \<open>s32\<close>, \<open>add32\<close>, \<open>sub32\<close>), or words. An operation that
  indexes an array, dereferences a pointer that may be null, or loops on a condition that
  the code does not bound returns an \<open>option\<close>: \<open>None\<close> is an access outside the array, a null
  pointer, or a loop that does not end. \<open>runs m Q\<close> says that the outcome is defined and
  satisfies \<open>Q\<close>; every total property is stated with it. Loops that need not end are
  \<open>partial_function\<close>s; all others terminate, and the only counters are the code's own retries.

  The driver. The raw NAND driver, \<open>crc32_le\<close> and \<open>mtd_oobavail\<close> are kernel code outside this
  tree: they are the fields of the record \<open>kernel\<close>, an argument \<open>E\<close> or \<open>K\<close> of every operation over
  a device state of any type. Most properties hold for every driver. The others name what
  they rely on: \<open>crc_streams\<close> (a checksum may be computed in pieces), \<open>reports_reads\<close> and
  \<open>reports_writes\<close> (a request that does not fail reports what was transferred), \<open>stores\<close> (requests do
  not fail, reads give what is on the flash, writes put their bytes there and nothing else),
  \<open>writes_ok\<close> (writes do not fail).

  The splitters read through a record \<open>flash\<close> with the fields of \<open>struct mtd_info\<close> they use, the width of a
  \<open>size_t\<close>, the byte order of the CPU and the outcome of each allocation. Headers are byte lists and a field is
  read at its offset (\<open>le_at\<close>, \<open>be_at\<close>, \<open>cpu_at\<close>). \<open>reads_within\<close> says that a read stays in the partition, \<open>reads_mem\<close> that
  it gives what the flash holds. The device tree, \<open>libfdt\<close>, \<open>crc32\<close>, \<open>kstrtol\<close> and \<open>struct bcm_tag\<close>
  are parameters.

  The mtd tool works on a record \<open>dev\<close>: size, erase size and type of the open device and its system calls. \<open>host\<close> holds the byte
  order, the width of a \<open>size_t\<close> and the outcome of each allocation; \<open>conf\<close> what does not change in a run, the devices by name,
  \<open>read\<close> of the image and the options among it; \<open>mtd\<close> and \<open>jffs2\<close> the variables of \<open>mtd.c\<close> and \<open>jffs2.c\<close>. \<open>exit(1)\<close> is
  the value \<open>Exit\<close> of \<open>outcome\<close>. \<open>dev_holds\<close> says that the device keeps what is written to it and that its system calls do not fail,
  \<open>image_reads\<close> that \<open>read\<close> gives the image in order, in pieces of any length. MD5 of libubox in \<open>mtd_verify\<close> is a parameter.

  The theories.
  \<^item> \<open>Bmt_Prelude\<close>: C integers, \<open>runs\<close> and its rules \<open>vcg\<close>, arrays, buffers, little-endian layout.
  \<^item> \<open>Bmt_Device\<close>: the kernel's side, \<open>struct bmt_desc\<close>, the inline helpers of \<open>mtk_bmt.h\<close>,
    \<open>bbt_nand_copy\<close>, \<open>mapping_block_in_range\<close>.
  \<^item> \<open>Bmt_Front\<close>: the MTD operations, attach, detach and the debugfs handlers of \<open>mtk_bmt.c\<close>.
  \<^item> \<open>Bmt_Contract\<close>, \<open>Bmt_Requests\<close>: the locale \<open>manager\<close>, the laws a manager owes the front end,
    and what erasing, marking, reading and writing do over any manager that keeps them. \<open>Bmt_Disk\<close>: the
    locale \<open>placement\<close>, a manager that gives every block a place of its own, over which requests
    read and write an ideal disk.
  \<^item> \<open>Nmbm_State\<close>, \<open>Nmbm_Walk\<close>, \<open>Nmbm_Io\<close>, \<open>Nmbm_Tables\<close>, \<open>Nmbm_Attach\<close>: \<open>mtk_bmt_nmbm.c\<close> in the order of
    the file: data and block states, walks over good blocks, page access with retries and the
    verified writers, the info tables, attaching and the manager's operations.
  \<^item> \<open>Nmbm_Frame\<close>, \<open>Nmbm_Mgmt\<close>: what flash access does to the instance (\<open>io_only\<close>, \<open>degrades\<close>) and what
    the writers achieve. \<open>Nmbm_Update\<close>: the info tables stay in order (\<open>inst\<close>, \<open>placed\<close>, \<open>sane\<close>) and
    the update loop ends. \<open>Nmbm_Ops\<close>: mapping and remapping keep \<open>attached_ok\<close>. \<open>Nmbm_Create\<close>:
    initialisation, signature search and creation establish it. \<open>Nmbm_Image\<close>: the info table on
    flash. \<open>Nmbm_Manager\<close> interprets the contract.
  \<^item> \<open>Bmt_Bbt\<close>: \<open>mtk_bmt_bbt.c\<close>. \<open>Bbt_Map\<close>: its mapping. \<open>Bbt_Manager\<close> interprets the contract.
  \<^item> \<open>Bmt_V2\<close>: \<open>mtk_bmt_v2.c\<close>. \<open>V2_Tables\<close>: scanning, storing and taking pool blocks.
  \<^item> \<open>En75_State\<close>, \<open>En75_Write\<close>, \<open>En75_Init\<close>: \<open>en75_bmt.c\<close> in the order of the file: the tables with their
    layout and the functions in memory, the functions that write, scanning and starting with the
    public operations. \<open>En75_Map\<close>: the mapping as a rank among good blocks. \<open>En75_Ops\<close>: what leaves the
    mapping alone (\<open>same_map\<close>), storing the tables. \<open>En75_Remap\<close>: the BMT as a finite map (\<open>bmt_map\<close>),
    soundness (\<open>en_sound\<close>), remapping and unmapping. \<open>En75_Manager\<close> interprets \<open>placement\<close>.
    \<open>En75_Tables\<close>: the images of the tables. \<open>En75_Scan\<close>, \<open>En75_Boot\<close>: the scan, rebuilding, the start.
  \<^item> \<open>Split_Base\<close>: the partition, results, numbers, \<open>mtdsplit.c\<close>. \<open>Split_Fixed\<close>: the parsers with a header at the start
    (squashfs, LZMA, Seama, WRGG, TP-Link, EVA, brnImage, minor, H3C, CFE bootfs, prolog, SEIL). \<open>Split_Scan\<close>: those
    that look for it at every block (TRX, uImage, jImage, BCM63XX) and MSTC. \<open>Split_Files\<close>: ELF and the files of a JFFS2
    file system (WFI, Sercomm). \<open>Split_Fit\<close>: flattened image trees. \<open>Split_Router\<close>: \<open>parsers/routerbootpart.c\<close> with its laws.
  \<^item> \<open>Split_Search\<close>: the search ends and finds the first candidate. \<open>Split_Laws\<close>: the locales \<open>splitter\<close>, partitions inside
    of the device without overlap, and \<open>nested_splitters\<close>, a partition split once more, with the parsers that keep the laws
    as interpretations. \<open>Split_Spec\<close>: the scans over a flash in memory. \<open>Split_Faults\<close>: inputs on which a parser does not
    end, leaves a buffer or returns an error with partitions.
  \<^item> \<open>Mtd_Base\<close>: the device and \<open>mtd.c\<close>'s functions for blocks. \<open>Mtd_Crc\<close>, \<open>Mtd_Md5\<close>: \<open>crc32.c\<close> and \<open>md5.c\<close> with their
    reference definitions. \<open>Mtd_Fix\<close>: \<open>seama.c\<close>, \<open>wrg.c\<close>, \<open>wrgg.c\<close> as one function over a format, and \<open>trx.c\<close>. \<open>Mtd_Log\<close>:
    \<open>linksys_bootcount.c\<close> and \<open>tpl_ramips_recoveryflag.c\<close>. \<open>Mtd_Jffs2\<close>: \<open>jffs2.c\<close>. \<open>Mtd_Write\<close>: \<open>mtd.c\<close>, from the checks to \<open>main\<close>.
  \<^item> \<open>Mtd_Headers\<close>: the locale \<open>header_format\<close>, the laws a header owes the fix, with the three formats as interpretations, and what
    fixing achieves. \<open>Mtd_Trx\<close>: the bytes in good blocks and the TRX header. \<open>Mtd_Image\<close>: what is invariant while an image is
    written (\<open>writing\<close>), and the command \<open>write\<close>. \<open>Mtd_Append\<close>: the blocks on the device as a stream (\<open>streams\<close>), nodes in
    blocks (\<open>laid\<close>), what makes a node well formed by the offsets of its fields, and putting a file in.
    \<open>Mtd_Tag\<close>: \<open>imagetag.c\<close>, which the builds for bcm63xx and bmips link in the place of \<open>trx.c\<close>, and what fixing a tag achieves.
  \<^item> \<open>Bmt_Demo\<close> holds the concrete chip on which properties are shown to apply;
    \<open>Nmbm_Properties\<close>, \<open>Bbt_Properties\<close>, \<open>V2_Properties\<close>, \<open>En75_Properties\<close>, \<open>Split_Properties\<close>, \<open>Mtd_Properties\<close>
    and this theory hold the properties.

  Bounds. The laws of the splitters hold for partitions that, with one erase block more, are smaller than 4 GiB (\<open>flash_ok\<close>):
  the kernel rounds to erase blocks with 32-bit products. Those of the Seama and the EVA parser need a \<open>size_t\<close> of more than
  32 bits, since their sums of header fields wrap around otherwise.
  Fixing a header is for devices smaller than 2 GiB, as the tool keeps sizes in an \<open>int\<close>; an input of \<open>MD5_Update\<close> is shorter than
  4 GiB, the type of its length. \<open>write_command\<close> is for images without jffs2 data, for one device without an offset, and
  for images that fit; \<open>jffs2_appended\<close> is for erase blocks of 512 bytes or more and names shorter than 256 bytes, and bounds the
  blocks for the worst case of reads of one byte each; the loops are \<open>partial_function\<close>s, and both say that they end.

  Not modelled. Log output, the creation of the debugfs files, and \<open>nmbm_pr_info\<close> and its like: they
  only print. Concurrency: the code takes no locks and relies on the MTD layer's. Registering the splitters with the kernel. Of the
  mtd tool: reading the options, the search of a device in \<open>/proc/mtd\<close>, rebooting, the directories of RedBoot (\<open>fis.c\<close> and the parts
  of \<open>mtd.c\<close> under \<open>FIS_SUPPORT\<close>); \<open>mtd_main\<close> is the program linked with \<open>trx.c\<close>. The rest
  of the repository is outside this development: other drivers, other user space tools, the build
  system.
\<close>

section \<open>Copying blocks\<close>

lemma copy_loop_no_oob:
  "bbt_nand_copy_loop n E s oob pages src dest max_offset offset =
   bbt_nand_copy_loop n (E\<lparr>k_write := \<lambda>d a dat offs x. k_write E d a dat 0 []\<rparr>) s oob pages src dest
     max_offset offset"
  by (induction n arbitrary: s oob offset) (simp_all add: Let_def case_prod_beta)

text \<open>
  \<open>bbt_nand_copy\<close> never gives the driver OOB bytes to write: replacing the driver by one
  that ignores them changes nothing, so a block is copied without its OOB area.
\<close>

theorem copy_without_oob:
  "bbt_nand_copy E s dest_blk src_blk max_offset =
   bbt_nand_copy (E\<lparr>k_write := \<lambda>d a dat offs oob. k_write E d a dat 0 []\<rparr>) s dest_blk src_blk max_offset"
  unfolding bbt_nand_copy_def Let_def by (rule copy_loop_no_oob)

section \<open>Requests\<close>

lemma demo_reports: "reports_reads demo_kernel" "reports_writes demo_kernel"
  by (simp_all add: reports_reads_def reports_writes_def demo_kernel_def)

text \<open>
  C6: reading without OOB through the front end over an attached NMBM instance ends, whatever
  fails on the way, within the caller's buffer; a result that is not negative means that all
  the bytes asked for have been transferred.
\<close>

theorem read_over_nmbm:
  assumes "attached_ok s" "whole_blocks s" "reports_reads K" "from + len \<le> 65536 * 2 ^ blk_shift s"
    "len \<le> length dat" "len < 4294967296"
  shows "runs (mtk_bmt_read K (mtk_bmt_nmbm_ops E) s from dat len oob 0 ooboffs) (\<lambda>(r, q, t).
    attached_ok t \<and> same_shape s t \<and> length (q_dat q) = length dat \<and> (0 \<le> r \<longrightarrow> q_retlen q = len))"
  by (rule nm.read_ok [OF assms])

theorem read_over_nmbm_witness:
  "runs (mtk_bmt_read demo_kernel (mtk_bmt_nmbm_ops demo_kernel) demo 100 (replicate 300 0) 300 [] 0 0)
    (\<lambda>(r, q, t). attached_ok t \<and> same_shape demo t
      \<and> length (q_dat q) = length (replicate 300 0 :: byte list) \<and> (0 \<le> r \<longrightarrow> q_retlen q = 300))"
  by (rule read_over_nmbm [OF demo_attached _ demo_reports(1)])
     (simp_all add: demo_defs whole_blocks_def)

text \<open>
  C13: writing without OOB through the front end over an attached NMBM instance ends, whatever the
  driver does, and keeps the instance in order; a result that is not negative means that all the
  bytes given have been transferred.
\<close>

theorem write_over_nmbm:
  assumes "attached_ok s" "whole_blocks s" "reports_writes K" "to + len \<le> 65536 * 2 ^ blk_shift s"
    "len \<le> length dat" "len < 4294967296"
  shows "runs (mtk_bmt_write K (mtk_bmt_nmbm_ops E) s to dat len oob 0 ooboffs) (\<lambda>(r, q, t).
    attached_ok t \<and> same_shape s t \<and> (0 \<le> r \<longrightarrow> q_retlen q = len))"
  by (rule nm.write_ok [OF assms])

theorem write_over_nmbm_witness:
  "runs (mtk_bmt_write demo_kernel (mtk_bmt_nmbm_ops demo_kernel) demo 100 (replicate 300 0) 300 [] 0 0)
    (\<lambda>(r, q, t). attached_ok t \<and> same_shape demo t \<and> (0 \<le> r \<longrightarrow> q_retlen q = 300))"
  by (rule write_over_nmbm [OF demo_attached _ demo_reports(2)])
     (simp_all add: demo_defs whole_blocks_def)

text \<open>
  Over the BBT manager, reading and writing without OOB through the front end end, whatever
  fails on the way, and keep the manager's table in order; a result that is not negative
  means that all the bytes asked for have been transferred.
\<close>

theorem transfers_over_bbt:
  assumes "bbt_ok s" "whole_blocks s" "reports_reads K" "reports_writes K"
    "addr + len \<le> min (total_blks s) 65536 * 2 ^ blk_shift s" "len \<le> length dat" "len < 4294967296"
  shows "runs (mtk_bmt_read K (mtk_bmt_bbt_ops E) s addr dat len oob 0 ooboffs) (\<lambda>(r, q, t).
      bbt_ok t \<and> same_shape s t \<and> length (q_dat q) = length dat \<and> (0 \<le> r \<longrightarrow> q_retlen q = len))
    \<and> runs (mtk_bmt_write K (mtk_bmt_bbt_ops E) s addr dat len oob 0 ooboffs) (\<lambda>(r, q, t).
      bbt_ok t \<and> same_shape s t \<and> (0 \<le> r \<longrightarrow> q_retlen q = len))"
  using bbt.read_ok [OF assms(1-3,5-7)] bbt.write_ok [OF assms(1,2,4-7)] by blast

theorem transfers_over_bbt_witness:
  "runs (mtk_bmt_read demo_kernel (mtk_bmt_bbt_ops demo_kernel) demo_bbt 200 (replicate 300 0) 300 [] 0 0)
    (\<lambda>(r, q, t). bbt_ok t \<and> same_shape demo_bbt t
      \<and> length (q_dat q) = length (replicate 300 0 :: byte list) \<and> (0 \<le> r \<longrightarrow> q_retlen q = 300))
   \<and> runs (mtk_bmt_write demo_kernel (mtk_bmt_bbt_ops demo_kernel) demo_bbt 200 (replicate 300 0) 300 [] 0 0)
    (\<lambda>(r, q, t). bbt_ok t \<and> same_shape demo_bbt t \<and> (0 \<le> r \<longrightarrow> q_retlen q = 300))"
  by (rule transfers_over_bbt [OF demo_bbt_ok _ demo_reports])
     (simp_all add: demo_bbt_def demo_desc_defs whole_blocks_def)

text \<open>
  An error a read has met on the way is what it returns, also when the same block is read
  without an error after it was remapped.
\<close>

theorem read_error_stays:
  assumes "mtk_bmt_read_loop K ops s q = Some (r, q', t)" "q_ret q < 0"
  shows "r < 0"
  using read_loop_sticky [OF assms(1,2)] by simp

definition demo_request :: request where
  "demo_request = (start_request 0 [] 0 [] 0 0)\<lparr>q_ret := - 74\<rparr>"

lemma demo_request_ends:
  "mtk_bmt_read_loop demo_kernel (mtk_bmt_nmbm_ops demo_kernel) demo demo_request =
     Some (- 74, demo_request, demo)"
  by (simp add: mtk_bmt_read_loop.simps demo_request_def start_request_def read_result_def)

theorem read_error_stays_witness:
  "mtk_bmt_read_loop demo_kernel (mtk_bmt_nmbm_ops demo_kernel) demo demo_request =
     Some (- 74, demo_request, demo) \<and> (- 74 :: int) < 0"
  using read_error_stays [OF demo_request_ends] demo_request_ends
  by (simp add: demo_request_def start_request_def)

section \<open>The disk the front end presents\<close>

text \<open>
  C14: over a flash that holds what is written to it, the front end and the BBT manager refine an
  ideal disk, whose bytes are those at the places of the blocks. When the ranges of the device
  tree start at block boundaries and do not overlap, a read at any address gives the bytes of
  the disk and changes nothing, and a write puts its bytes there and changes no other byte of the
  disk.
\<close>

theorem bbt_refines_disk:
  assumes "bbt_apart s" "stores K mem" "whole_blocks s"
    "a + len \<le> min (total_blks s) 65536 * 2 ^ blk_shift s" "len \<le> length dat" "len < 4294967296"
  shows "runs (mtk_bmt_read K (mtk_bmt_bbt_ops E) s a dat len oob 0 ooboffs) (\<lambda>(r, q, t).
      r = 0 \<and> q_retlen q = len \<and> unchanged_but mem s t
      \<and> q_dat q = slice (disk (mtk_bmt_bbt_ops E) mem s) a len @ drop len dat)
    \<and> runs (mtk_bmt_write K (mtk_bmt_bbt_ops E) s a dat len oob 0 ooboffs) (\<lambda>(r, q, t).
      r = 0 \<and> q_retlen q = len \<and> (\<forall>x < total_blks s * 2 ^ blk_shift s.
        disk (mtk_bmt_bbt_ops E) mem t x = patch a (take len dat) (disk (mtk_bmt_bbt_ops E) mem s) x))"
proof -
  note on = bbt_on_disk [OF assms(1,4), of E]
  show ?thesis
    using bbt_disk.read_refines [OF assms(2-6) on]
      runs_mono [OF bbt_disk.write_refines [OF assms(1-6) on]] bbt_covers [OF _ assms(1), of _ E]
    by (auto simp: wrote_disk_def)
qed

theorem bbt_refines_disk_witness:
  "runs (mtk_bmt_read demo_store (mtk_bmt_bbt_ops demo_store) demo_disk 200 (replicate 300 1) 300 [] 0 0)
     (\<lambda>(r, q, t). r = 0 \<and> q_retlen q = 300 \<and> unchanged_but (\<lambda>d. d) demo_disk t
      \<and> q_dat q = slice (disk (mtk_bmt_bbt_ops demo_store) (\<lambda>d. d) demo_disk) 200 300
          @ drop 300 (replicate 300 1))
   \<and> runs (mtk_bmt_write demo_store (mtk_bmt_bbt_ops demo_store) demo_disk 200 (replicate 300 1) 300 [] 0 0)
     (\<lambda>(r, q, t). r = 0 \<and> q_retlen q = 300
      \<and> (\<forall>x < total_blks demo_disk * 2 ^ blk_shift demo_disk.
           disk (mtk_bmt_bbt_ops demo_store) (\<lambda>d. d) t x =
           patch 200 (take 300 (replicate 300 1)) (disk (mtk_bmt_bbt_ops demo_store) (\<lambda>d. d) demo_disk) x))"
  by (rule bbt_refines_disk [OF demo_disk_apart demo_stores])
     (simp_all add: demo_disk_def chip_desc_def whole_blocks_def)

text \<open>
  Over a flash that holds what is written to it, data written through the front end over the
  BBT manager is read back, at any address and length.
\<close>

theorem bbt_write_read:
  assumes "bbt_apart s" "stores K mem" "whole_blocks s"
    "a + len \<le> min (total_blks s) 65536 * 2 ^ blk_shift s" "len \<le> length dat" "len < 4294967296"
    "len \<le> length buf"
  shows "runs (mtk_bmt_write K (mtk_bmt_bbt_ops E) s a dat len oob 0 ooboffs) (\<lambda>(r, q, t). r = 0 \<and>
    runs (mtk_bmt_read K (mtk_bmt_bbt_ops E) t a buf len oob' 0 ooboffs') (\<lambda>(r', q', u).
      r' = 0 \<and> take len (q_dat q') = take len dat))"
  by (rule bbt_disk.write_read [OF assms(1-6) bbt_on_disk [OF assms(1,4)] assms(7)])

theorem bbt_write_read_witness:
  "runs (mtk_bmt_write demo_store (mtk_bmt_bbt_ops demo_store) demo_disk 200 (replicate 300 1) 300 [] 0 0)
    (\<lambda>(r, q, t). r = 0 \<and>
      runs (mtk_bmt_read demo_store (mtk_bmt_bbt_ops demo_store) t 200 (replicate 400 0) 300 [] 0 0)
        (\<lambda>(r', q', u). r' = 0 \<and> take 300 (q_dat q') = take 300 (replicate 300 1)))"
  by (rule bbt_write_read [OF demo_disk_apart demo_stores])
     (simp_all add: demo_disk_def chip_desc_def whole_blocks_def)

section \<open>Attaching and detaching\<close>

text \<open>
  After attaching, the front end's operations are installed exactly when a manager is in
  charge, and after a failure none is: the device has the driver's operations again.
\<close>

theorem attach_installs_ops:
  assumes "mtk_bmt_attach E Detached m node = Some (r, m', st)" "m_ops m = Driver_ops"
  shows "(m_ops m' = Bmt_ops) = (st \<noteq> Detached) \<and> (r \<noteq> 0 \<longrightarrow> st = Detached)"
  using assms
  by (auto simp: mtk_bmt_attach_def attach_init_def mtk_bmt_detach_def mtd_of_def
      mtk_bmt_replace_ops_def Let_def case_prod_beta split: option.splits if_splits bind_splits sum.splits)

definition demo_mtd :: "unit mtd_info" where
  "demo_mtd = \<lparr>m_dev = (), m_size = 4096, m_erasesize = 128, m_erasesize_mask = 127,
     m_writesize = 64, m_oobsize = 4, m_bitflip_threshold = 0, m_ecc_strength = 0, m_ops = Driver_ops\<rparr>"

definition demo_node :: node where
  "demo_node = \<lparr>of_bmt_v2 = False, of_nmbm = False, of_bbt = True, of_remap_range = [],
     of_overridden_oobsize = None, of_max_ratio = None, of_max_reserved_blocks = None,
     of_empty_page_ecc_protected = False, of_force_create = False, of_bmt_pool_size = None,
     of_bmt_oob_offset = None, of_bmt_table_size = None, alloc_data_buf = False, alloc_table = True\<rparr>"

lemma demo_attach: "mtk_bmt_attach demo_kernel Detached demo_mtd (Some demo_node) =
    Some (- 1, mtk_bmt_detach (attach_desc (mtk_bmt_replace_ops demo_mtd) demo_node)
      (mtk_bmt_replace_ops demo_mtd))"
  by (simp add: mtk_bmt_attach_def demo_node_def Let_def)

theorem attach_installs_ops_witness:
  "let (m', st) = mtk_bmt_detach (attach_desc (mtk_bmt_replace_ops demo_mtd) demo_node)
      (mtk_bmt_replace_ops demo_mtd)
   in (m_ops m' = Bmt_ops) = (st \<noteq> Detached) \<and> ((- 1 :: int) \<noteq> 0 \<longrightarrow> st = Detached)"
  unfolding Let_def case_prod_beta
  by (rule attach_installs_ops [where m = demo_mtd and node = "Some demo_node" and E = demo_kernel],
      simp add: demo_attach, simp add: demo_mtd_def)

end
